(* ===== verification/Prelude.thy ===== *)
theory Prelude
  imports
    Main
    "HOL-Library.Word"
    "HOL-Library.Char_ord"
    "HOL-Library.List_Lexorder"
    "HOL-Library.Monad_Syntax"
begin

text \<open>
  Shared material of the development: the types that stand for C's bytes and strings, the parts of
  the C library the caster's sources use (character classes, \<open>strcmp\<close>, \<open>strcasecmp\<close>,
  \<open>strsep\<close>, the \<open>%d\<close> conversions of \<open>sscanf\<close> and \<open>snprintf\<close>), memory reads and writes
  that fail outside a buffer, and generic lemmas on lists, options and words.

  A C string is the list of its characters before the terminating zero byte; a buffer of
  \<open>unsigned char\<close> is a list of 8-bit words. An access outside a buffer is the value
  \<^const>\<open>None\<close>, so that a model in the option monad returns a value only if the code
  stays inside its buffers.
\<close>

unbundle bit_operations_syntax

named_theorems cstring_simps \<open>equations on C string helpers\<close>
named_theorems bitpos_simps \<open>equations on bit positions in a buffer\<close>

type_synonym byte = "8 word"
type_synonym cstring = string

subsection \<open>Character classes and comparison of C strings\<close>

text \<open>\<open>isspace\<close>, \<open>isdigit\<close>, \<open>isxdigit\<close> and \<open>tolower\<close> in the C locale.\<close>

definition c_isspace :: "char \<Rightarrow> bool" where
  "c_isspace c \<longleftrightarrow> (let n = (of_char c :: nat) in n = 32 \<or> (9 \<le> n \<and> n \<le> 13))"

definition c_isdigit :: "char \<Rightarrow> bool" where
  "c_isdigit c \<longleftrightarrow> (let n = (of_char c :: nat) in 48 \<le> n \<and> n \<le> 57)"

definition c_isxdigit :: "char \<Rightarrow> bool" where
  "c_isxdigit c \<longleftrightarrow> (let n = (of_char c :: nat)
     in (48 \<le> n \<and> n \<le> 57) \<or> (65 \<le> n \<and> n \<le> 70) \<or> (97 \<le> n \<and> n \<le> 102))"

definition c_tolower :: "char \<Rightarrow> char" where
  "c_tolower c = (let n = (of_char c :: nat)
     in if 65 \<le> n \<and> n \<le> 90 then char_of (n + 32) else c)"

text \<open>\<open>strcmp\<close> compares unsigned bytes lexicographically; only the sign is specified.\<close>

definition c_strcmp :: "cstring \<Rightarrow> cstring \<Rightarrow> int" where
  "c_strcmp a b = (if a = b then 0 else if a < b then - 1 else 1)"

definition c_strcaseeq :: "cstring \<Rightarrow> cstring \<Rightarrow> bool" where
  "c_strcaseeq a b \<longleftrightarrow> map c_tolower a = map c_tolower b"

lemma c_strcmp_eq_0 [simp]: "c_strcmp a b = 0 \<longleftrightarrow> a = b"
  by (simp add: c_strcmp_def)

lemma c_strcmp_less [simp]: "c_strcmp a b < 0 \<longleftrightarrow> a < b"
  by (auto simp: c_strcmp_def)

lemma c_strcmp_greater [simp]: "0 < c_strcmp a b \<longleftrightarrow> b < a"
  by (auto simp: c_strcmp_def)

subsection \<open>Splitting at separators\<close>

text \<open>
  The tokens that repeated calls of \<open>strsep\<close> return: the string is cut at every character of
  the separator set; an empty string has one, empty, token.
\<close>

fun strsep_tokens :: "(char \<Rightarrow> bool) \<Rightarrow> cstring \<Rightarrow> cstring list" where
  "strsep_tokens sep [] = [[]]"
| "strsep_tokens sep (c # cs) =
     (if sep c then [] # strsep_tokens sep cs
      else (case strsep_tokens sep cs of [] \<Rightarrow> [[c]] | t # ts \<Rightarrow> (c # t) # ts))"

lemma strsep_tokens_not_Nil [simp]: "strsep_tokens sep s \<noteq> []"
  by (cases s) (simp_all split: list.split)

lemma strsep_tokens_no_sep: "\<forall>t \<in> set (strsep_tokens sep s). \<forall>c \<in> set t. \<not> sep c"
proof (induction s)
  case Nil
  then show ?case by simp
next
  case (Cons c s)
  then show ?case by (cases "strsep_tokens sep s") simp_all
qed

lemma strsep_tokens_single: "\<forall>c \<in> set s. \<not> sep c \<Longrightarrow> strsep_tokens sep s = [s]"
  by (induction s) auto

lemma strsep_tokens_append:
  "\<forall>c \<in> set s. \<not> sep c \<Longrightarrow> sep x \<Longrightarrow> strsep_tokens sep (s @ x # r) = s # strsep_tokens sep r"
  by (induction s) auto

lemma length_strsep_tokens:
  "length (strsep_tokens sep s) = Suc (length (filter sep s))"
proof (induction s)
  case Nil
  then show ?case by simp
next
  case (Cons c s)
  then show ?case by (cases "strsep_tokens sep s") simp_all
qed

text \<open>
  The text before the first character that satisfies a predicate, and the text after it if there
  is one (\<open>strchr\<close>, \<open>strcspn\<close>).
\<close>

definition split_at_first :: "(char \<Rightarrow> bool) \<Rightarrow> cstring \<Rightarrow> cstring \<times> cstring option" where
  "split_at_first p s =
     (takeWhile (\<lambda>c. \<not> p c) s,
      case dropWhile (\<lambda>c. \<not> p c) s of [] \<Rightarrow> None | _ # r \<Rightarrow> Some r)"

lemma split_at_first_append:
  "\<forall>c \<in> set s. \<not> p c \<Longrightarrow> p x \<Longrightarrow> split_at_first p (s @ x # r) = (s, Some r)"
  by (simp add: split_at_first_def takeWhile_append dropWhile_append)

lemma split_at_first_none:
  "\<forall>c \<in> set s. \<not> p c \<Longrightarrow> split_at_first p s = (s, None)"
  by (simp add: split_at_first_def dropWhile_eq_Nil_conv[THEN iffD2] takeWhile_eq_all_conv[THEN iffD2])

subsection \<open>Decimal conversions\<close>

definition digit_val :: "char \<Rightarrow> nat" where
  "digit_val c = of_char c - 48"

definition digits_val :: "cstring \<Rightarrow> nat" where
  "digits_val s = foldl (\<lambda>a c. a * 10 + digit_val c) 0 s"

text \<open>
  \<open>sscanf(s, "%d")\<close>: white space, an optional sign, decimal digits; \<^const>\<open>None\<close>
  when no number is found. The value is the mathematical one; \<open>c_int\<close> is its conversion to a
  32-bit \<open>int\<close> the way the C library does it (saturation at 64 bits, then truncation).
\<close>

definition c_scan_d :: "cstring \<Rightarrow> int option" where
  "c_scan_d s =
     (let t = dropWhile c_isspace s;
          (neg, u) = (case t of [] \<Rightarrow> (False, []) | c # r \<Rightarrow>
                        if c = CHR ''-'' then (True, r)
                        else if c = CHR ''+'' then (False, r) else (False, t));
          ds = takeWhile c_isdigit u
      in if ds = [] then None
         else Some (if neg then - int (digits_val ds) else int (digits_val ds)))"

definition c_int :: "int \<Rightarrow> int" where
  "c_int v = signed_take_bit 31 (max (- (2 ^ 63)) (min (2 ^ 63 - 1) v))"

definition c_sscanf_d :: "cstring \<Rightarrow> int option" where
  "c_sscanf_d s = map_option c_int (c_scan_d s)"

definition digit_char :: "nat \<Rightarrow> char" where
  "digit_char n = char_of (48 + n)"

text \<open>\<open>%d\<close> of \<open>snprintf\<close> for a value that is not negative.\<close>

fun c_show_nat :: "nat \<Rightarrow> cstring" where
  "c_show_nat n =
     (if n < 10 then [digit_char n] else c_show_nat (n div 10) @ [digit_char (n mod 10)])"

declare c_show_nat.simps [simp del]

lemma c_int_id: "- (2 ^ 31) \<le> v \<Longrightarrow> v < 2 ^ 31 \<Longrightarrow> c_int v = v"
  by (simp add: c_int_def signed_take_bit_int_eq_self min_def max_def)

lemma of_char_digit_char: "n < 10 \<Longrightarrow> (of_char (digit_char n) :: nat) = 48 + n"
  by (simp add: digit_char_def of_char_of)

lemma digit_char_props [simp]:
  assumes "n < 10"
  shows "c_isdigit (digit_char n)" "\<not> c_isspace (digit_char n)" "digit_val (digit_char n) = n"
    "digit_char n \<noteq> CHR ''-''" "digit_char n \<noteq> CHR ''+''" "digit_char n \<noteq> CHR '',''"
  using of_char_digit_char[OF assms] assms
  by (auto simp: c_isdigit_def c_isspace_def digit_val_def Let_def)

lemma c_show_nat_digits: "\<forall>c \<in> set (c_show_nat n). \<exists>d < 10. c = digit_char d"
proof (induction n rule: c_show_nat.induct)
  case (1 n)
  show ?case
    by (subst c_show_nat.simps) (use "1.IH" in \<open>auto intro: exI[of _ "n mod 10"] exI[of _ n]\<close>)
qed

lemma c_show_nat_isdigit: "c \<in> set (c_show_nat n) \<Longrightarrow> c_isdigit c"
  using c_show_nat_digits by fastforce

lemma c_show_nat_not_Nil [simp]: "c_show_nat n \<noteq> []"
  by (subst c_show_nat.simps) simp

lemma digits_val_snoc: "digits_val (s @ [c]) = digits_val s * 10 + digit_val c"
  by (simp add: digits_val_def)

lemma digits_val_show [simp]: "digits_val (c_show_nat n) = n"
proof (induction n rule: c_show_nat.induct)
  case (1 n)
  show ?case
  proof (cases "n < 10")
    case True
    then show ?thesis by (subst c_show_nat.simps) (simp add: digits_val_def)
  next
    case False
    with "1.IH" show ?thesis
      by (subst c_show_nat.simps) (simp add: digits_val_snoc)
  qed
qed

text \<open>Scanning a printed number, followed by a character that is no digit, gives it back.\<close>

lemma c_scan_d_show:
  assumes "r = [] \<or> \<not> c_isdigit (hd r)"
  shows "c_scan_d (c_show_nat n @ r) = Some (int n)"
proof -
  obtain d ds where e: "c_show_nat n = d # ds" and d: "\<exists>k < 10. d = digit_char k"
    using c_show_nat_digits[of n] by (cases "c_show_nat n") auto
  have w: "takeWhile c_isdigit (d # ds @ r) = d # ds"
    using assms c_show_nat_isdigit[of _ n] e by (cases r) (auto simp: takeWhile_append)
  have "dropWhile c_isspace (d # ds @ r) = d # ds @ r" "d \<noteq> CHR ''-''" "d \<noteq> CHR ''+''"
    using d by auto
  with w e digits_val_show[of n] show ?thesis
    by (simp add: c_scan_d_def Let_def)
qed

lemma c_scan_d_show_nat [simp]: "c_scan_d (c_show_nat n) = Some (int n)"
  using c_scan_d_show[of "[]" n] by simp

subsection \<open>Buffers\<close>

definition buf_get :: "'a list \<Rightarrow> nat \<Rightarrow> 'a option" where
  "buf_get d i = (if i < length d then Some (d ! i) else None)"

definition buf_set :: "'a list \<Rightarrow> nat \<Rightarrow> 'a \<Rightarrow> 'a list option" where
  "buf_set d i v = (if i < length d then Some (d[i := v]) else None)"

lemma buf_get_Some [simp]: "i < length d \<Longrightarrow> buf_get d i = Some (d ! i)"
  by (simp add: buf_get_def)

lemma buf_set_Some [simp]: "i < length d \<Longrightarrow> buf_set d i v = Some (d[i := v])"
  by (simp add: buf_set_def)

lemma buf_get_eq_Some: "buf_get d i = Some v \<longleftrightarrow> i < length d \<and> v = d ! i"
  by (auto simp: buf_get_def)

lemma buf_set_eq_Some: "buf_set d i v = Some d' \<longleftrightarrow> i < length d \<and> d' = d[i := v]"
  by (auto simp: buf_set_def)

text \<open>The bytes of a text, and the text of bytes.\<close>

definition bytes_of :: "cstring \<Rightarrow> byte list" where
  "bytes_of s = map (\<lambda>c. of_nat (of_char c)) s"

definition string_of :: "byte list \<Rightarrow> cstring" where
  "string_of bs = map (\<lambda>b. char_of (unat b)) bs"

lemma string_of_bytes [simp]: "string_of (bytes_of s) = s"
proof -
  have "char_of (unat (of_nat (of_char c) :: byte)) = c" for c
    by (simp add: unat_of_nat)
  then show ?thesis by (simp add: string_of_def bytes_of_def o_def)
qed

subsection \<open>Reasoning about code that may fail\<close>

text \<open>The computation has a result and the result satisfies the predicate.\<close>

definition returns :: "'a option \<Rightarrow> ('a \<Rightarrow> bool) \<Rightarrow> bool" where
  "returns m P \<longleftrightarrow> (\<exists>x. m = Some x \<and> P x)"

lemma returnsI: "m = Some x \<Longrightarrow> P x \<Longrightarrow> returns m P"
  by (simp add: returns_def)

lemma returnsE: "returns m P \<Longrightarrow> (\<And>x. m = Some x \<Longrightarrow> P x \<Longrightarrow> R) \<Longrightarrow> R"
  by (auto simp: returns_def)

lemma returns_Some [simp]: "returns (Some x) P \<longleftrightarrow> P x"
  by (simp add: returns_def)

lemma returns_None [simp]: "\<not> returns None P"
  by (simp add: returns_def)

lemma returns_bind: "returns m P \<Longrightarrow> (\<And>x. P x \<Longrightarrow> returns (f x) Q) \<Longrightarrow> returns (m \<bind> f) Q"
  by (auto simp: returns_def)

lemma returns_mono: "returns m P \<Longrightarrow> (\<And>x. P x \<Longrightarrow> Q x) \<Longrightarrow> returns m Q"
  by (auto simp: returns_def)

subsection \<open>Ring buffers\<close>

definition last_n :: "nat \<Rightarrow> 'a list \<Rightarrow> 'a list" where
  "last_n n xs = drop (length xs - n) xs"

text \<open>The ring with \<open>n\<close> the next slot to write and \<open>c\<close> valid entries, from the oldest to the newest.\<close>

definition ring_list :: "'a list \<Rightarrow> nat \<Rightarrow> nat \<Rightarrow> 'a list" where
  "ring_list r n c = map (\<lambda>i. r ! ((n + length r - c + i) mod length r)) [0..<c]"

lemma ring_slot:
  assumes "c \<le> (N :: nat)" "n < N" "i < c" "c < N \<or> 0 < i"
  shows "(n + N - c + i) mod N \<noteq> n"
proof
  assume e: "(n + N - c + i) mod N = n"
  show False
  proof (cases "n + N - c + i < N")
    case True
    then have "n + N - c + i = n" using e by simp
    with assms show False by linarith
  next
    case False
    then have "(n + N - c + i) mod N = n + N - c + i - N" using assms(1-3) by (simp add: le_mod_geq)
    with e assms False show False by linarith
  qed
qed

lemma ring_push:
  assumes "length r = N" "c \<le> N" "n < N"
  shows "ring_list (r[n := x]) ((n + 1) mod N) (if c < N then c + 1 else c) = last_n N (ring_list r n c @ [x])"
proof (cases "c < N")
  case True
  have m: "((n + 1) mod N + N - (c + 1) + i) mod N = (n + N - c + i) mod N" for i
  proof -
    have "((n + 1) mod N + N - (c + 1) + i) mod N = ((n + 1) mod N + (N - (c + 1) + i)) mod N" using True by (simp add: add.assoc[symmetric])
    also have "\<dots> = (n + 1 + (N - (c + 1) + i)) mod N" by (rule mod_add_left_eq)
    also have "n + 1 + (N - (c + 1) + i) = n + N - c + i" using True by linarith
    finally show ?thesis .
  qed
  have "ring_list (r[n := x]) ((n + 1) mod N) (c + 1) =
      map (\<lambda>i. r[n := x] ! ((n + N - c + i) mod N)) [0..<c] @ [r[n := x] ! ((n + N - c + c) mod N)]"
    using assms(1) m by (simp add: ring_list_def)
  also have "map (\<lambda>i. r[n := x] ! ((n + N - c + i) mod N)) [0..<c] = ring_list r n c"
    using ring_slot[OF assms(2,3)] True assms(1) unfolding ring_list_def by (intro map_cong) (simp_all add: nth_list_update_neq[OF not_sym])
  also have "r[n := x] ! ((n + N - c + c) mod N) = x" using assms True by simp
  finally show ?thesis using True by (simp add: last_n_def ring_list_def)
next
  case False
  then have c: "c = N" "0 < N" using assms by simp_all
  have m: "((n + 1) mod N + N - N + i) mod N = (n + N - N + Suc i) mod N" for i
    by (simp add: mod_add_left_eq)
  have "ring_list (r[n := x]) ((n + 1) mod N) N = map (\<lambda>i. r[n := x] ! ((n + N - N + Suc i) mod N)) [0..<N]"
    using assms(1) m by (simp add: ring_list_def)
  also have "\<dots> = map (\<lambda>i. r[n := x] ! ((n + N - N + Suc i) mod N)) [0..<N - 1] @ [r[n := x] ! ((n + N - N + N) mod N)]"
    using c(2) by (cases N) simp_all
  also have "map (\<lambda>i. r[n := x] ! ((n + N - N + Suc i) mod N)) [0..<N - 1] = map (\<lambda>i. r ! ((n + N - N + Suc i) mod N)) [0..<N - 1]"
  proof (intro map_cong refl)
    fix i assume "i \<in> set [0..<N - 1]"
    then have "(n + N - N + Suc i) mod N \<noteq> n" by (intro ring_slot assms(3)) simp_all
    then show "r[n := x] ! ((n + N - N + Suc i) mod N) = r ! ((n + N - N + Suc i) mod N)" by (simp add: nth_list_update_neq[OF not_sym])
  qed
  also have "\<dots> = drop 1 (ring_list r n N)" using assms(1) c(2) by (cases N) (simp_all add: ring_list_def upt_conv_Cons map_Suc_upt[symmetric] del: upt_Suc)
  also have "r[n := x] ! ((n + N - N + N) mod N) = x" using assms by simp
  finally show ?thesis using c by (simp add: last_n_def ring_list_def)
qed

end
