(* ===== verification/Bitfield.thy ===== *)
theory Bitfield
  imports Prelude
begin

text \<open>
  The bit field accessors of \<^verbatim>\<open>caster/bitfield.h\<close> and \<^verbatim>\<open>caster/bitfield.c\<close>:
  \<open>get_set_bits\<close> reads or writes up to 64 bits at any bit offset of a byte buffer, most
  significant bit first; \<open>getbits\<close>, \<open>setbits\<close> and \<open>copybits\<close> are its clients; the
  single-bit accessors number the bits of a byte from its least significant one.

  A result \<^const>\<open>None\<close> is an access outside the buffer. The reference notion is
  \<open>bit_at\<close>, the value of one bit of the buffer; the lemmas show that a read returns exactly the
  bits of its range and that a write changes exactly the bits of its range.
\<close>

subsection \<open>The accessors\<close>

fun get_full_bytes :: "byte list \<Rightarrow> nat \<Rightarrow> nat \<Rightarrow> 64 word \<Rightarrow> (64 word \<times> nat) option" where
  "get_full_bytes d 0 offset r = Some (r, offset)"
| "get_full_bytes d (Suc n) offset r = do {
     b \<leftarrow> buf_get d offset;
     get_full_bytes d n (offset + 1) (push_bit 8 r + ucast b)
   }"

fun set_full_bytes :: "byte list \<Rightarrow> nat \<Rightarrow> nat \<Rightarrow> 64 word \<Rightarrow> (byte list \<times> nat \<times> 64 word) option"
  where
  "set_full_bytes d 0 offset val = Some (d, offset, val)"
| "set_full_bytes d (Suc n) offset val = do {
     d' \<leftarrow> buf_set d offset (ucast (drop_bit 56 val));
     set_full_bytes d' n (offset + 1) (push_bit 8 val)
   }"

text \<open>
  \<open>(-beg-len) & 7\<close>: the number of bits of the last byte that lie after the field. The value
  returned by a write is not specified by the source and is \<open>0\<close> here; no caller reads it.
\<close>

definition after_bits :: "nat \<Rightarrow> nat \<Rightarrow> nat" where
  "after_bits beg len = nat (take_bit 3 (- int beg - int len))"

definition get_set_bits ::
  "byte list \<Rightarrow> nat \<Rightarrow> nat \<Rightarrow> bool \<Rightarrow> 64 word \<Rightarrow> (64 word \<times> byte list) option" where
  "get_set_bits d beg len wr val =
     (if len = 0 then Some (0, d)
      else
        let offset_first = beg div 8;
            offset_last = (beg + len - 1) div 8;
            bits_first = beg mod 8;
            full_bytes = (len - (8 - bits_first)) div 8;
            bits_last = (len - (8 - bits_first)) mod 8;
            mask = drop_bit bits_first (0xff :: byte)
        in do {
          b \<leftarrow> buf_get d offset_first;
          if offset_first = offset_last then
            (if wr then
               let mask' = mask AND push_bit (after_bits beg len) 0xff in do {
                 d' \<leftarrow> buf_set d offset_first
                        ((b AND NOT mask') OR
                         (mask' AND ucast (push_bit (after_bits beg len) val)));
                 Some (0, d')
               }
             else Some (drop_bit (after_bits beg len) (ucast (b AND mask)), d))
          else if wr then
            let val1 = push_bit (64 - len) val in do {
              d1 \<leftarrow> buf_set d offset_first ((b AND NOT mask) OR ucast (drop_bit (bits_first + 56) val1));
              (d2, offset, val2) \<leftarrow>
                set_full_bytes d1 full_bytes (offset_first + 1) (push_bit (8 - bits_first) val1);
              if bits_last = 0 then Some (0, d2)
              else do {
                b2 \<leftarrow> buf_get d2 offset;
                d3 \<leftarrow> buf_set d2 offset
                       ((b2 AND drop_bit bits_last 0xff) OR
                        (ucast (drop_bit 56 val2) AND NOT (drop_bit bits_last 0xff)));
                Some (0, d3)
              }
            }
          else do {
            (r, offset) \<leftarrow> get_full_bytes d full_bytes (offset_first + 1) (ucast (b AND mask));
            if bits_last = 0 then Some (r, d)
            else do {
              b2 \<leftarrow> buf_get d offset;
              Some (push_bit bits_last r + ucast (drop_bit (8 - bits_last) b2), d)
            }
          }
        })"

definition getbits :: "byte list \<Rightarrow> nat \<Rightarrow> nat \<Rightarrow> 64 word option" where
  "getbits d beg len = map_option fst (get_set_bits d beg len False 0)"

definition setbits :: "byte list \<Rightarrow> nat \<Rightarrow> nat \<Rightarrow> 64 word \<Rightarrow> byte list option" where
  "setbits d beg len val = map_option snd (get_set_bits d beg len True val)"

definition getbit :: "byte list \<Rightarrow> nat \<Rightarrow> bool option" where
  "getbit d beg = do { b \<leftarrow> buf_get d (beg div 8); Some (b AND push_bit (beg mod 8) 1 \<noteq> 0) }"

definition setbit :: "byte list \<Rightarrow> nat \<Rightarrow> byte list option" where
  "setbit d beg = do { b \<leftarrow> buf_get d (beg div 8); buf_set d (beg div 8) (b OR push_bit (beg mod 8) 1) }"

text \<open>The atomic variants differ only in the memory operation; as single steps they are the same.\<close>

definition getbit_atomic :: "byte list \<Rightarrow> nat \<Rightarrow> bool option" where
  "getbit_atomic d beg = do { b \<leftarrow> buf_get d (beg div 8); Some (b AND push_bit (beg mod 8) 1 \<noteq> 0) }"

definition setbit_atomic :: "byte list \<Rightarrow> nat \<Rightarrow> byte list option" where
  "setbit_atomic d beg =
     do { b \<leftarrow> buf_get d (beg div 8); buf_set d (beg div 8) (b OR push_bit (beg mod 8) 1) }"

text \<open>
  \<open>copybits\<close> moves at most 64 bits per turn and advances both positions; the result is the
  destination buffer with the two positions.
\<close>

function copybits ::
  "byte list \<Rightarrow> nat \<Rightarrow> byte list \<Rightarrow> nat \<Rightarrow> nat \<Rightarrow> (byte list \<times> nat \<times> nat) option" where
  "copybits dst pos_dst src pos_src len =
     (if len = 0 then Some (dst, pos_dst, pos_src)
      else
        let lentmp = (if len > 64 then 64 else len) in do {
          tmp \<leftarrow> getbits src pos_src lentmp;
          dst' \<leftarrow> setbits dst pos_dst lentmp tmp;
          copybits dst' (pos_dst + lentmp) src (pos_src + lentmp) (len - lentmp)
        })"
  by pat_completeness auto
termination
  by (relation "measure (\<lambda>(_, _, _, _, len). len)") auto

declare copybits.simps [simp del]

subsection \<open>One bit of a buffer\<close>

definition bit_at :: "byte list \<Rightarrow> nat \<Rightarrow> bool" where
  "bit_at d i \<longleftrightarrow> bit (d ! (i div 8)) (7 - i mod 8)"

text \<open>\<open>r\<close> holds the \<open>n\<close> bits of \<open>d\<close> from bit \<open>beg\<close> on, most significant first.\<close>

definition holds_bits :: "byte list \<Rightarrow> nat \<Rightarrow> nat \<Rightarrow> 64 word \<Rightarrow> bool" where
  "holds_bits d beg n r \<longleftrightarrow> (\<forall>k < 64. bit r k \<longleftrightarrow> k < n \<and> bit_at d (beg + n - 1 - k))"

text \<open>\<open>d'\<close> is \<open>d\<close> with the \<open>len\<close> bits from \<open>beg\<close> on replaced by those of \<open>val\<close>.\<close>

definition bits_replaced :: "byte list \<Rightarrow> nat \<Rightarrow> nat \<Rightarrow> 64 word \<Rightarrow> byte list \<Rightarrow> bool" where
  "bits_replaced d beg len val d' \<longleftrightarrow> length d' = length d \<and>
     (\<forall>i < 8 * length d. bit_at d' i \<longleftrightarrow>
        (if beg \<le> i \<and> i < beg + len then bit val (beg + len - 1 - i) else bit_at d i))"

subsection \<open>Reads\<close>

lemma after_bits_eq: "after_bits beg len = (8 - (beg + len) mod 8) mod 8"
proof -
  have "take_bit 3 (- int beg - int len) = (- int (beg + len)) mod 8"
    by (simp add: take_bit_eq_mod)
  also have "\<dots> = (8 - int (beg + len) mod 8) mod 8"
    by (simp only: mod_diff_right_eq) (metis diff_0 mod_diff_left_eq mod_self)
  also have "\<dots> = int ((8 - (beg + len) mod 8) mod 8)"
    by (simp add: zmod_int of_nat_diff)
  finally show ?thesis by (simp add: after_bits_def)
qed

lemma bit_byte_ge [simp]: "8 \<le> n \<Longrightarrow> \<not> bit (b :: byte) n"
  using bit_imp_le_length[of b n] by auto

lemma bit_0xff: "bit (0xff :: byte) k \<longleftrightarrow> k < 8"
proof -
  have "(0xff :: byte) = mask 8" by (simp add: mask_eq_exp_minus_1)
  then show ?thesis by (simp only: bit_mask_iff) simp
qed

lemma bit_mask_right [bitpos_simps]: "bit (drop_bit n (0xff :: byte)) k \<longleftrightarrow> k + n < 8"
  by (simp add: bit_drop_bit_eq bit_0xff add.commute del: bit_numeral_word_iff)

lemma bit_mask_left [bitpos_simps]: "bit (push_bit n (0xff :: byte)) k \<longleftrightarrow> n \<le> k \<and> k < 8"
  by (auto simp add: bit_push_bit_iff bit_0xff simp del: bit_numeral_word_iff)

lemma holds_bits_extend:
  assumes h: "holds_bits d beg n r" and le: "n + m \<le> 64"
    and x: "\<And>k. k < 64 \<Longrightarrow> bit x k \<longleftrightarrow> k < m \<and> bit_at d (beg + n + m - 1 - k)"
  shows "holds_bits d beg (n + m) (push_bit m r + x)"
  unfolding holds_bits_def
proof (intro allI impI)
  fix k :: nat
  assume k: "k < 64"
  have "bit (push_bit m r + x) k \<longleftrightarrow> bit (push_bit m r) k \<or> bit x k"
    by (rule bit_disjunctive_add_iff) (use x in \<open>auto simp: bit_simps\<close>)
  also have "\<dots> \<longleftrightarrow> k < n + m \<and> bit_at d (beg + (n + m) - 1 - k)"
  proof (cases "m \<le> k")
    case True
    then have "beg + n - 1 - (k - m) = beg + (n + m) - 1 - k" by simp
    with True h k x[OF k] show ?thesis by (auto simp: holds_bits_def bit_simps)
  next
    case False
    with x[OF k] k show ?thesis by (auto simp: bit_simps add.assoc)
  qed
  finally show "bit (push_bit m r + x) k \<longleftrightarrow> k < n + m \<and> bit_at d (beg + (n + m) - 1 - k)" .
qed

lemma bit_at_byte: "j < 8 \<Longrightarrow> bit_at d (8 * o' + j) \<longleftrightarrow> bit (d ! o') (7 - j)"
  by (simp add: bit_at_def)

lemma bit_at_byte_rev: "k < 8 \<Longrightarrow> bit_at d (7 + 8 * o' - k) \<longleftrightarrow> bit (d ! o') k"
  using bit_at_byte[of "7 - k" d o'] by (simp add: add.commute)

lemma bit_byte_less: "bit (b :: byte) k \<Longrightarrow> k < 8"
  by (rule ccontr) simp

lemma byte_index: "j < 8 \<Longrightarrow> (8 * q + j) div 8 = (q :: nat)" "j < 8 \<Longrightarrow> (8 * q + j) mod 8 = (j :: nat)"
  by simp_all

lemma get_full_bytes_holds:
  assumes "holds_bits d beg n r" "beg + n = 8 * offset" "n + 8 * m \<le> 64" "offset + m \<le> length d"
  shows "\<exists>r'. get_full_bytes d m offset r = Some (r', offset + m) \<and> holds_bits d beg (n + 8 * m) r'"
  using assms
proof (induction m arbitrary: n offset r)
  case 0
  then show ?case by simp
next
  case (Suc m)
  have "holds_bits d beg (n + 8) (push_bit 8 r + ucast (d ! offset))"
  proof (rule holds_bits_extend)
    fix k :: nat
    assume "k < 64"
    then show "bit (ucast (d ! offset) :: 64 word) k \<longleftrightarrow> k < 8 \<and> bit_at d (beg + n + 8 - 1 - k)"
      using Suc.prems(2) bit_at_byte_rev[of k d offset] by (auto simp: bit_simps dest: bit_byte_less)
  qed (use Suc.prems in simp_all)
  from Suc.IH[OF this, of "Suc offset"] Suc.prems show ?case by (auto simp: algebra_simps)
qed

lemma holds_bits_first:
  "holds_bits d beg (8 - beg mod 8) (ucast (d ! (beg div 8) AND drop_bit (beg mod 8) 0xff))"
proof -
  have e: "beg + (8 - beg mod 8) - 1 - k = 7 + 8 * (beg div 8) - k" for k
    using mult_div_mod_eq[of 8 beg] mod_less_divisor[of 8 beg] by linarith
  have m: "k + beg mod 8 < 8 \<longleftrightarrow> k < 8 - beg mod 8" for k by linarith
  show ?thesis
    unfolding holds_bits_def e
    by (auto simp: bit_and_iff bit_ucast_iff bitpos_simps m bit_at_byte_rev dest: bit_byte_less)
qed

lemma holds_bits_drop:
  "holds_bits d beg n r \<Longrightarrow> a \<le> n \<Longrightarrow> n \<le> 64 \<Longrightarrow> holds_bits d beg (n - a) (drop_bit a r)"
  unfolding holds_bits_def
proof (intro allI impI)
  fix k :: nat
  assume h: "\<forall>k<64. bit r k = (k < n \<and> bit_at d (beg + n - 1 - k))" and a: "a \<le> n" "n \<le> 64" "k < 64"
  have e: "beg + n - 1 - (a + k) = beg + (n - a) - 1 - k" using a by linarith
  show "bit (drop_bit a r) k = (k < n - a \<and> bit_at d (beg + (n - a) - 1 - k))"
  proof (cases "a + k < 64")
    case True
    with h[rule_format, OF True] e a show ?thesis by (auto simp: bit_drop_bit_eq)
  next
    case False
    with a show ?thesis using bit_imp_le_length[of r "a + k"] by (auto simp: bit_drop_bit_eq)
  qed
qed

text \<open>The shape of a field of \<open>len\<close> bits at \<open>beg\<close>: inside one byte, or over several.\<close>

lemma field_one_byte:
  assumes "(beg + len - 1) div 8 = beg div 8" "0 < len"
  shows "beg mod 8 + len \<le> 8" "after_bits beg len = 8 - beg mod 8 - len"
proof -
  have "beg + len - 1 = 8 * ((beg + len - 1) div 8) + (beg + len - 1) mod 8" by simp
  with assms have "beg + len - 1 = 8 * (beg div 8) + (beg + len - 1) mod 8" by simp
  moreover have "(beg + len - 1) mod 8 < 8" "beg = 8 * (beg div 8) + beg mod 8" by simp_all
  ultimately show l: "beg mod 8 + len \<le> 8" using assms(2) by linarith
  have "(beg + len) mod 8 = (beg mod 8 + len) mod 8" by (simp add: mod_add_left_eq)
  with l assms(2) show "after_bits beg len = 8 - beg mod 8 - len"
    by (cases "beg mod 8 + len = 8") (simp_all add: after_bits_eq)
qed

text \<open>
  Quotient and remainder as variables: arithmetic on them is then plain linear arithmetic.
\<close>

lemma byte_split: obtains q b :: nat where "beg div 8 = q" "beg mod 8 = b" "beg = 8 * q + b" "b < 8"
  by (metis mod_less_divisor mult_div_mod_eq zero_less_numeral)

lemma whole_bytes:
  assumes "8 * n + r \<le> 8 * (m :: nat)"
  shows "n \<le> m" "0 < r \<Longrightarrow> n < m"
  using assms by linarith+

lemma first_byte_end: "beg + (8 - beg mod 8) = 8 * (beg div 8 + (1 :: nat))"
  by (rule byte_split[of beg]) simp

lemma field_many_bytes:
  fixes beg len :: nat
  assumes "(beg + len - 1) div 8 \<noteq> beg div 8" "0 < len"
  shows "8 - beg mod 8 < len"
    "8 - beg mod 8 + 8 * ((len - (8 - beg mod 8)) div 8) + (len - (8 - beg mod 8)) mod 8 = len"
proof -
  show "8 - beg mod 8 < len"
  proof (rule ccontr)
    assume "\<not> ?thesis"
    then have "beg mod 8 + (len - 1) < 8" using assms(2) by linarith
    then have "(8 * (beg div 8) + (beg mod 8 + (len - 1))) div 8 = beg div 8" by (rule byte_index)
    moreover have "8 * (beg div 8) + (beg mod 8 + (len - 1)) = beg + len - 1"
      using mult_div_mod_eq[of 8 beg] assms(2) by linarith
    ultimately show False using assms(1) by simp
  qed
  then show "8 - beg mod 8 + 8 * ((len - (8 - beg mod 8)) div 8) + (len - (8 - beg mod 8)) mod 8 = len"
    using mult_div_mod_eq[of 8 "len - (8 - beg mod 8)"] by linarith
qed

lemma getbits_many_bytes:
  assumes many: "(beg + len - 1) div 8 \<noteq> beg div 8" and l: "0 < len" "len \<le> 64"
    and le: "beg + len \<le> 8 * length d"
  shows "\<exists>r. getbits d beg len = Some r \<and> holds_bits d beg len r"
proof (rule byte_split[of beg])
  fix q b
  assume qb: "beg div 8 = q" "beg mod 8 = b" "beg = 8 * q + b" "b < 8"
  obtain full rest where n: "(len - (8 - b)) div 8 = full" "(len - (8 - b)) mod 8 = rest" "rest < 8" by simp
  have f: "8 - b < len" "8 - b + 8 * full + rest = len"
    using field_many_bytes[OF many l(1)] unfolding qb(2) n by simp_all
  have e: "beg + (8 - b) = 8 * (q + 1)" using qb(3,4) by simp
  have bnd: "q < length d" "q + 1 + full \<le> length d" "0 < rest \<Longrightarrow> q + 1 + full < length d"
    using whole_bytes[of "q + 1 + full" rest "length d"] f e le by simp_all
  have first: "holds_bits d beg (8 - b) (ucast (d ! q AND drop_bit b 0xff))"
    using holds_bits_first[of d beg] unfolding qb(1,2) .
  obtain r where r: "get_full_bytes d full (q + 1) (ucast (d ! q AND drop_bit b 0xff))
      = Some (r, q + 1 + full)" "holds_bits d beg (8 - b + 8 * full) r"
    using get_full_bytes_holds[OF first e, of full] bnd(2) f(2) l(2) by fastforce
  have "holds_bits d beg (8 - b + 8 * full + rest)
     (push_bit rest r + ucast (drop_bit (8 - rest) (d ! (q + 1 + full))))"
  proof (rule holds_bits_extend[OF r(2)])
    fix k :: nat
    assume "k < 64"
    let ?o = "q + 1 + full"
    show "bit (ucast (drop_bit (8 - rest) (d ! ?o)) :: 64 word) k \<longleftrightarrow>
        k < rest \<and> bit_at d (beg + (8 - b + 8 * full) + rest - 1 - k)"
    proof (cases "k < rest")
      case True
      then have "beg + (8 - b + 8 * full) + rest - 1 - k = 7 + 8 * ?o - (8 - rest + k)" "8 - rest + k < 8"
        using e n(3) by simp_all
      with True \<open>k < 64\<close> bit_at_byte_rev[of "8 - rest + k" d ?o] show ?thesis
        by (simp add: bit_ucast_iff bit_drop_bit_eq)
    next
      case False
      then show ?thesis by (auto simp: bit_simps dest: bit_byte_less)
    qed
  qed (use f(2) l(2) in simp)
  then have "holds_bits d beg len (push_bit rest r + ucast (drop_bit (8 - rest) (d ! (q + 1 + full))))"
    unfolding f(2) .
  with r(2) f(2) many l bnd r(1) show ?thesis
    by (cases "rest = 0") (auto simp: getbits_def get_set_bits_def Let_def qb(1,2) n(1,2))
qed

lemma getbits_holds:
  assumes "len \<le> 64" "beg + len \<le> 8 * length d"
  shows "\<exists>r. getbits d beg len = Some r \<and> holds_bits d beg len r"
proof (cases "len = 0 \<or> (beg + len - 1) div 8 \<noteq> beg div 8")
  case True
  then show ?thesis using getbits_many_bytes[OF _ _ assms]
    by (cases "len = 0") (simp_all add: getbits_def get_set_bits_def holds_bits_def)
next
  case False
  then have l: "0 < len" and one: "(beg + len - 1) div 8 = beg div 8" by simp_all
  have q: "beg div 8 < length d" using assms l by (simp add: less_mult_imp_div_less)
  note f = field_one_byte[OF one l]
  have "holds_bits d beg (8 - beg mod 8 - (8 - beg mod 8 - len))
    (drop_bit (8 - beg mod 8 - len) (ucast (d ! (beg div 8) AND drop_bit (beg mod 8) 0xff)))"
    by (rule holds_bits_drop[OF holds_bits_first]) simp_all
  moreover have "8 - beg mod 8 - (8 - beg mod 8 - len) = len" using f(1) by simp
  ultimately show ?thesis using one l q f(2)
    by (simp add: getbits_def get_set_bits_def Let_def)
qed

subsection \<open>Writes\<close>

text \<open>A write that has filled in the bits before position \<open>q\<close>.\<close>

definition bits_upto :: "byte list \<Rightarrow> nat \<Rightarrow> nat \<Rightarrow> 64 word \<Rightarrow> nat \<Rightarrow> byte list \<Rightarrow> bool" where
  "bits_upto d beg len val q d' \<longleftrightarrow> length d' = length d \<and>
     (\<forall>i < 8 * length d. bit_at d' i \<longleftrightarrow>
        (if beg \<le> i \<and> i < beg + len \<and> i < q then bit val (beg + len - 1 - i) else bit_at d i))"

lemma bits_upto_start: "q \<le> beg \<Longrightarrow> bits_upto d beg len val q d"
  by (auto simp add: bits_upto_def)

lemma bits_upto_done: "bits_upto d beg len val q d' \<Longrightarrow> beg + len \<le> q \<Longrightarrow> bits_replaced d beg len val d'"
  by (simp add: bits_upto_def bits_replaced_def)

lemma bits_upto_byte:
  assumes u: "bits_upto d beg len val (8 * o') d'" and o': "o' < length d"
    and w: "\<And>j. j < 8 \<Longrightarrow> bit w (7 - j) \<longleftrightarrow>
      (if beg \<le> 8 * o' + j \<and> 8 * o' + j < beg + len then bit val (beg + len - 1 - (8 * o' + j))
       else bit (d ! o') (7 - j))"
  shows "bits_upto d beg len val (8 * (o' + 1)) (d'[o' := w])"
  unfolding bits_upto_def
proof (intro conjI allI impI)
  show "length (d'[o' := w]) = length d" using u by (simp add: bits_upto_def)
  fix i assume i: "i < 8 * length d"
  show "bit_at (d'[o' := w]) i \<longleftrightarrow>
        (if beg \<le> i \<and> i < beg + len \<and> i < 8 * (o' + 1) then bit val (beg + len - 1 - i) else bit_at d i)"
  proof (cases "i div 8 = o'")
    case True
    then have e: "i = 8 * o' + i mod 8" by (metis mult_div_mod_eq)
    have "bit_at (d'[o' := w]) i \<longleftrightarrow> bit w (7 - i mod 8)"
      using True o' u by (simp add: bit_at_def bits_upto_def)
    also have "\<dots> \<longleftrightarrow> (if beg \<le> i \<and> i < beg + len then bit val (beg + len - 1 - i) else bit_at d i)"
      using w[of "i mod 8"] e True by (simp add: bit_at_def)
    moreover have "i < 8 * (o' + 1)"
      by (rule byte_split[of i]) (use True in simp)
    ultimately show ?thesis by simp
  next
    case False
    then have "bit_at (d'[o' := w]) i \<longleftrightarrow> bit_at d' i" by (simp add: bit_at_def)
    moreover have "i < 8 * (o' + 1) \<longleftrightarrow> i < 8 * o'"
      using False mult_div_mod_eq[of 8 i] mod_less_divisor[of 8 i] by auto
    ultimately show ?thesis using u i by (simp add: bits_upto_def)
  qed
qed

lemma bits_upto_nth: "bits_upto d beg len val (8 * o') d' \<Longrightarrow> o' < length d \<Longrightarrow> k < 8 \<Longrightarrow>
  bit (d' ! o') k \<longleftrightarrow> bit (d ! o') k"
proof -
  assume u: "bits_upto d beg len val (8 * o') d'" and o': "o' < length d" and k: "k < 8"
  then have "7 + 8 * o' - k < 8 * length d" "\<not> 7 + 8 * o' - k < 8 * o'" by auto
  with u have "bit_at d' (7 + 8 * o' - k) \<longleftrightarrow> bit_at d (7 + 8 * o' - k)" by (simp add: bits_upto_def)
  with k show ?thesis by (simp add: bit_at_byte_rev)
qed

lemma bit_top_byte: "j < 8 \<Longrightarrow> s + j \<le> 63 \<Longrightarrow>
  bit (ucast (drop_bit 56 (push_bit s (val :: 64 word))) :: byte) (7 - j) \<longleftrightarrow> bit val (63 - j - s)"
  by (auto simp: bit_simps)

lemma set_full_bytes_upto:
  assumes "bits_upto d beg len val (8 * offset) d'" "beg \<le> 8 * offset" "len \<le> 64"
    "8 * (offset + m) \<le> beg + len" "offset + m \<le> length d"
  shows "\<exists>d''. set_full_bytes d' m offset (push_bit (64 - len + (8 * offset - beg)) val)
      = Some (d'', offset + m, push_bit (64 - len + (8 * (offset + m) - beg)) val)
    \<and> bits_upto d beg len val (8 * (offset + m)) d''"
  using assms
proof (induction m arbitrary: offset d')
  case 0
  then show ?case by simp
next
  case (Suc m)
  let ?s = "64 - len + (8 * offset - beg)"
  have l: "length d' = length d" using Suc.prems(1) by (simp add: bits_upto_def)
  have "bits_upto d beg len val (8 * (offset + 1)) (d'[offset := ucast (drop_bit 56 (push_bit ?s val))])"
  proof (rule bits_upto_byte[OF Suc.prems(1)])
    fix j :: nat
    assume j: "j < 8"
    have "63 - j - ?s = beg + len - 1 - (8 * offset + j)" "?s + j \<le> 63"
      using Suc.prems j by auto
    with bit_top_byte[OF j this(2), of val] Suc.prems j
    show "bit (ucast (drop_bit 56 (push_bit ?s val)) :: byte) (7 - j) \<longleftrightarrow>
      (if beg \<le> 8 * offset + j \<and> 8 * offset + j < beg + len then bit val (beg + len - 1 - (8 * offset + j))
       else bit (d ! offset) (7 - j))" by simp
  qed (use Suc.prems in simp)
  from Suc.IH[OF this] Suc.prems have
    "\<exists>d''. set_full_bytes (d'[offset := ucast (drop_bit 56 (push_bit ?s val))]) m (offset + 1)
       (push_bit (64 - len + (8 * (offset + 1) - beg)) val)
      = Some (d'', offset + Suc m, push_bit (64 - len + (8 * (offset + Suc m) - beg)) val)
    \<and> bits_upto d beg len val (8 * (offset + Suc m)) d''" by simp
  moreover have "push_bit 8 (push_bit ?s val) = push_bit (64 - len + (8 * (offset + 1) - beg)) val"
    using Suc.prems by (simp add: push_bit_push_bit algebra_simps)
  ultimately show ?case using Suc.prems l by simp
qed

lemma bit_masked_byte [bitpos_simps]: "bit ((b AND NOT m) OR (m AND w) :: byte) k \<longleftrightarrow>
   k < 8 \<and> (if bit m k then bit w k else bit b k)"
  by (auto simp: bit_simps dest: bit_byte_less)

lemma setbits_one_byte:
  assumes one: "(beg + len - 1) div 8 = beg div 8" and l: "0 < len" and le: "beg + len \<le> 8 * length d"
  shows "\<exists>d'. setbits d beg len val = Some d' \<and> bits_replaced d beg len val d'"
proof (rule byte_split[of beg])
  fix q b
  assume qb: "beg div 8 = q" "beg mod 8 = b" "beg = 8 * q + b" "b < 8"
  let ?a = "8 - b - len"
  have f: "b + len \<le> 8" "after_bits beg len = ?a"
    using field_one_byte[OF one l] qb by simp_all
  let ?m = "drop_bit b (0xff :: byte) AND push_bit ?a 0xff"
  let ?w = "(d ! q AND NOT ?m) OR (?m AND ucast (push_bit ?a val))"
  have q: "q < length d" using le l qb by simp
  have "bits_upto d beg len val (8 * (q + 1)) (d[q := ?w])"
  proof (rule bits_upto_byte[OF bits_upto_start q])
    show "8 * q \<le> beg" using qb by simp
    fix j :: nat
    assume j: "j < 8"
    have m: "bit ?m (7 - j) \<longleftrightarrow> beg \<le> 8 * q + j \<and> 8 * q + j < beg + len"
      unfolding bit_and_iff bitpos_simps using qb f(1) j by auto
    have "bit (ucast (push_bit ?a val) :: byte) (7 - j) \<longleftrightarrow> bit val (beg + len - 1 - (8 * q + j))"
      if "beg \<le> 8 * q + j" "8 * q + j < beg + len"
    proof -
      have "7 - j - ?a = beg + len - 1 - (8 * q + j)" "?a \<le> 7 - j" using that qb f(1) by linarith+
      then show ?thesis using j by (auto simp: bit_simps)
    qed
    moreover have "7 - j < 8" by simp
    ultimately show "bit ?w (7 - j) \<longleftrightarrow>
      (if beg \<le> 8 * q + j \<and> 8 * q + j < beg + len then bit val (beg + len - 1 - (8 * q + j))
       else bit (d ! q) (7 - j))"
      unfolding bit_masked_byte using m by simp
  qed
  then have "bits_replaced d beg len val (d[q := ?w])"
    by (rule bits_upto_done) (use qb(3) f(1) in simp)
  with one l q f(2) show ?thesis by (simp add: setbits_def get_set_bits_def Let_def qb(1,2))
qed

lemma bits_upto_first:
  assumes many: "8 - b < len" and len: "len \<le> 64" and q: "q < length d" and beg: "beg = 8 * q + b" "b < 8"
  shows "bits_upto d beg len val (8 * (q + 1))
    (d[q := (d ! q AND NOT (drop_bit b 0xff)) OR ucast (drop_bit (b + 56) (push_bit (64 - len) val))])"
proof (rule bits_upto_byte[OF bits_upto_start q])
  show "8 * q \<le> beg" using beg by simp
  fix j :: nat
  assume j: "j < 8"
  have e: "beg \<le> 8 * q + j \<and> 8 * q + j < beg + len \<longleftrightarrow> b \<le> j" using beg many j by linarith
  have m: "bit (drop_bit b (0xff :: byte)) (7 - j) \<longleftrightarrow> b \<le> j"
    unfolding bitpos_simps using j by linarith
  have "bit (ucast (drop_bit (b + 56) (push_bit (64 - len) val)) :: byte) (7 - j) \<longleftrightarrow>
      b \<le> j \<and> bit val (beg + len - 1 - (8 * q + j))"
  proof (cases "b \<le> j")
    case True
    have "b + 56 + (7 - j) - (64 - len) = beg + len - 1 - (8 * q + j)" "64 - len \<le> b + 56 + (7 - j)"
      "b + 56 + (7 - j) < 64"
      using True beg j many len by linarith+
    with True j show ?thesis by (auto simp: bit_simps)
  next
    case False
    with j show ?thesis by (auto simp: bit_simps)
  qed
  with m e show "bit ((d ! q AND NOT (drop_bit b 0xff)) OR
       ucast (drop_bit (b + 56) (push_bit (64 - len) val))) (7 - j) \<longleftrightarrow>
    (if beg \<le> 8 * q + j \<and> 8 * q + j < beg + len then bit val (beg + len - 1 - (8 * q + j))
     else bit (d ! q) (7 - j))"
    by (auto simp: bit_or_iff bit_and_iff bit_not_iff)
qed

lemma bit_last_byte [bitpos_simps]: "bit ((b AND m) OR (w AND NOT m) :: byte) k \<longleftrightarrow>
   k < 8 \<and> (if bit m k then bit b k else bit w k)"
  by (auto simp: bit_simps dest: bit_byte_less)

lemma bits_upto_last:
  assumes u: "bits_upto d beg len val (8 * o') d'" and o': "o' < length d"
    and e: "beg + len = 8 * o' + rest" "0 < rest" "rest < 8" "beg \<le> 8 * o'" and len: "len \<le> 64"
  shows "bits_upto d beg len val (8 * (o' + 1))
    (d'[o' := (d' ! o' AND drop_bit rest 0xff) OR
       (ucast (drop_bit 56 (push_bit (64 - len + (8 * o' - beg)) val)) AND NOT (drop_bit rest 0xff))])"
proof (rule bits_upto_byte[OF u o'])
  fix j :: nat
  assume j: "j < 8"
  let ?s = "64 - len + (8 * o' - beg)"
  have m: "bit (drop_bit rest (0xff :: byte)) (7 - j) \<longleftrightarrow> rest \<le> j"
    unfolding bitpos_simps using j by linarith
  have "bit (ucast (drop_bit 56 (push_bit ?s val)) :: byte) (7 - j) \<longleftrightarrow>
      bit val (beg + len - 1 - (8 * o' + j))" if "j < rest"
  proof -
    have "63 - j - ?s = beg + len - 1 - (8 * o' + j)" "?s + j \<le> 63" using e len that by linarith+
    with bit_top_byte[OF j this(2), of val] show ?thesis by (simp only:)
  qed
  moreover have "bit (d' ! o') (7 - j) \<longleftrightarrow> bit (d ! o') (7 - j)"
    using bits_upto_nth[OF u o', of "7 - j"] by simp
  moreover have "beg \<le> 8 * o' + j \<and> 8 * o' + j < beg + len \<longleftrightarrow> j < rest" "7 - j < 8" using e by auto
  ultimately show "bit ((d' ! o' AND drop_bit rest 0xff) OR
       (ucast (drop_bit 56 (push_bit ?s val)) AND NOT (drop_bit rest 0xff))) (7 - j) \<longleftrightarrow>
     (if beg \<le> 8 * o' + j \<and> 8 * o' + j < beg + len then bit val (beg + len - 1 - (8 * o' + j))
       else bit (d ! o') (7 - j))"
    unfolding bit_last_byte m by auto
qed

lemma setbits_many_bytes:
  assumes many: "(beg + len - 1) div 8 \<noteq> beg div 8" and l: "0 < len" "len \<le> 64"
    and le: "beg + len \<le> 8 * length d"
  shows "\<exists>d'. setbits d beg len val = Some d' \<and> bits_replaced d beg len val d'"
proof (rule byte_split[of beg])
  fix q b
  assume qb: "beg div 8 = q" "beg mod 8 = b" "beg = 8 * q + b" "b < 8"
  obtain full rest where n: "(len - (8 - b)) div 8 = full" "(len - (8 - b)) mod 8 = rest" "rest < 8" by simp
  have f: "8 - b < len" "8 - b + 8 * full + rest = len"
    using field_many_bytes[OF many l(1)] unfolding qb(2) n by simp_all
  have end_eq: "beg + len = 8 * (q + 1 + full) + rest" "beg \<le> 8 * (q + 1)" using f qb(3,4) by simp_all
  then have bnd: "q < length d" "q + 1 + full \<le> length d" "0 < rest \<Longrightarrow> q + 1 + full < length d"
    using whole_bytes[of "q + 1 + full" rest "length d"] le by simp_all
  let ?d1 = "d[q := (d ! q AND NOT (drop_bit b 0xff)) OR ucast (drop_bit (b + 56) (push_bit (64 - len) val))]"
  have "8 - b + (64 - len) = 64 - len + (8 * (q + 1) - beg)" using qb(3,4) by simp
  then have sh: "push_bit (8 - b) (push_bit (64 - len) val) = push_bit (64 - len + (8 * (q + 1) - beg)) val"
    by (simp only: push_bit_push_bit add.commute)
  have "\<exists>d2. set_full_bytes ?d1 full (q + 1) (push_bit (64 - len + (8 * (q + 1) - beg)) val)
      = Some (d2, q + 1 + full, push_bit (64 - len + (8 * (q + 1 + full) - beg)) val)
    \<and> bits_upto d beg len val (8 * (q + 1 + full)) d2"
    by (rule set_full_bytes_upto[OF bits_upto_first[OF f(1) l(2) bnd(1) qb(3,4)]])
      (use end_eq l bnd in linarith)+
  then obtain d2 where d2:
    "set_full_bytes ?d1 full (q + 1) (push_bit (8 - b) (push_bit (64 - len) val))
      = Some (d2, q + 1 + full, push_bit (64 - len + (8 * (q + 1 + full) - beg)) val)"
    and u2: "bits_upto d beg len val (8 * (q + 1 + full)) d2"
    unfolding sh by blast
  have len2: "length d2 = length d" using u2 by (simp add: bits_upto_def)
  show ?thesis
  proof (cases "rest = 0")
    case True
    then have "bits_replaced d beg len val d2" using bits_upto_done[OF u2] end_eq by simp
    with True many l bnd d2 show ?thesis
      by (simp add: setbits_def get_set_bits_def Let_def qb(1,2) n(1,2))
  next
    case False
    then have "0 < rest" by simp
    have "beg \<le> 8 * (q + 1 + full)" using end_eq(2) by simp
    note bits_upto_last[OF u2 bnd(3)[OF \<open>0 < rest\<close>] end_eq(1) \<open>0 < rest\<close> n(3) this l(2)]
    from bits_upto_done[OF this] have "bits_replaced d beg len val
      (d2[q + 1 + full := (d2 ! (q + 1 + full) AND drop_bit rest 0xff) OR
        (ucast (drop_bit 56 (push_bit (64 - len + (8 * (q + 1 + full) - beg)) val)) AND
          NOT (drop_bit rest 0xff))])"
      using end_eq n(3) by simp
    with False many l bnd d2 len2 show ?thesis
      by (simp add: setbits_def get_set_bits_def Let_def qb(1,2) n(1,2))
  qed
qed

lemma setbits_replaced:
  assumes "len \<le> 64" "beg + len \<le> 8 * length d"
  shows "\<exists>d'. setbits d beg len val = Some d' \<and> bits_replaced d beg len val d'"
proof (cases "len = 0")
  case True
  then show ?thesis by (auto simp add: setbits_def get_set_bits_def bits_replaced_def)
next
  case False
  then show ?thesis
    using setbits_one_byte[of beg len d val] setbits_many_bytes[of beg len d val] assms
    by (cases "(beg + len - 1) div 8 = beg div 8") simp_all
qed

subsection \<open>What the accessors compute\<close>

lemma holds_bits_unique: "holds_bits d beg n r \<Longrightarrow> holds_bits d beg n r' \<Longrightarrow> r = r'"
  by (rule bit_word_eqI) (simp add: holds_bits_def)

lemma getbits_bit:
  "getbits d beg len = Some r \<Longrightarrow> len \<le> 64 \<Longrightarrow> beg + len \<le> 8 * length d \<Longrightarrow> k < 64 \<Longrightarrow>
   bit r k \<longleftrightarrow> k < len \<and> bit_at d (beg + len - 1 - k)"
  using getbits_holds[of len beg d] by (auto simp: holds_bits_def)

lemma setbits_bits_replaced:
  "setbits d beg len val = Some d' \<Longrightarrow> len \<le> 64 \<Longrightarrow> beg + len \<le> 8 * length d \<Longrightarrow>
   bits_replaced d beg len val d'"
  using setbits_replaced[of len beg d val] by auto

lemma getbits_replaced:
  assumes "bits_replaced d beg len val d'" "len \<le> 64" "beg + len \<le> 8 * length d"
  shows "getbits d' beg len = Some (take_bit len val)"
proof -
  have l: "length d' = length d" using assms(1) by (simp add: bits_replaced_def)
  have "holds_bits d' beg len (take_bit len val)"
    unfolding holds_bits_def
  proof (intro allI impI)
    fix k :: nat
    assume "k < 64"
    show "bit (take_bit len val) k \<longleftrightarrow> k < len \<and> bit_at d' (beg + len - 1 - k)"
    proof (cases "k < len")
      case True
      then have "beg + len - 1 - (beg + len - 1 - k) = k" by simp
      with True assms show ?thesis by (auto simp: bit_take_bit_iff bits_replaced_def)
    next
      case False
      then show ?thesis by (simp add: bit_take_bit_iff)
    qed
  qed
  with getbits_holds[of len beg d'] assms l show ?thesis by (auto dest: holds_bits_unique)
qed

text \<open>\<open>d'\<close> is \<open>d\<close> with \<open>len\<close> bits from \<open>pd\<close> on replaced by those of \<open>s\<close> from \<open>ps\<close> on.\<close>

definition bits_copied :: "byte list \<Rightarrow> nat \<Rightarrow> byte list \<Rightarrow> nat \<Rightarrow> nat \<Rightarrow> byte list \<Rightarrow> bool" where
  "bits_copied d pd s ps len d' \<longleftrightarrow> length d' = length d \<and>
     (\<forall>i < 8 * length d. bit_at d' i \<longleftrightarrow>
        (if pd \<le> i \<and> i < pd + len then bit_at s (ps + (i - pd)) else bit_at d i))"

lemma bits_copied_trans:
  assumes "bits_copied d pd s ps n d1" "bits_copied d1 (pd + n) s (ps + n) m d2"
  shows "bits_copied d pd s ps (n + m) d2"
proof -
  have "bit_at d2 i \<longleftrightarrow> (if pd \<le> i \<and> i < pd + (n + m) then bit_at s (ps + (i - pd)) else bit_at d i)"
    if i: "i < 8 * length d" for i
  proof -
    have 2: "bit_at d2 i \<longleftrightarrow> (if pd + n \<le> i \<and> i < pd + n + m then bit_at s (ps + n + (i - (pd + n)))
        else bit_at d1 i)" using assms i by (simp add: bits_copied_def)
    have 1: "bit_at d1 i \<longleftrightarrow> (if pd \<le> i \<and> i < pd + n then bit_at s (ps + (i - pd)) else bit_at d i)"
      using assms i by (simp add: bits_copied_def)
    have "ps + n + (i - (pd + n)) = ps + (i - pd)" if "pd + n \<le> i" using that by simp
    then show ?thesis unfolding 2 1 by auto
  qed
  then show ?thesis using assms by (simp add: bits_copied_def)
qed

lemma copybits_step:
  assumes "len \<le> 64" "pd + len \<le> 8 * length d" "ps + len \<le> 8 * length s"
  shows "\<exists>r d'. getbits s ps len = Some r \<and> setbits d pd len r = Some d' \<and> bits_copied d pd s ps len d'"
proof -
  obtain r where r: "getbits s ps len = Some r" "holds_bits s ps len r"
    using getbits_holds assms by blast
  obtain d' where d': "setbits d pd len r = Some d'" "bits_replaced d pd len r d'"
    using setbits_replaced assms by blast
  have "bit r (pd + len - 1 - i) \<longleftrightarrow> bit_at s (ps + (i - pd))" if "pd \<le> i" "i < pd + len" for i
  proof -
    have "ps + len - 1 - (pd + len - 1 - i) = ps + (i - pd)" "pd + len - 1 - i < len" using that by linarith+
    with r(2) assms(1) show ?thesis by (simp add: holds_bits_def)
  qed
  with d'(2) have "bits_copied d pd s ps len d'" by (simp add: bits_copied_def bits_replaced_def)
  with r d' show ?thesis by blast
qed

lemma copybits_copied:
  "pd + len \<le> 8 * length d \<Longrightarrow> ps + len \<le> 8 * length s \<Longrightarrow>
   \<exists>d'. copybits d pd s ps len = Some (d', pd + len, ps + len) \<and> bits_copied d pd s ps len d'"
proof (induction d pd s ps len rule: copybits.induct)
  case (1 d pd s ps len)
  show ?case
  proof (cases "len = 0")
    case True
    then have "copybits d pd s ps len = Some (d, pd + len, ps + len)" by (simp add: copybits.simps)
    moreover have "bits_copied d pd s ps len d" using True by (auto simp: bits_copied_def)
    ultimately show ?thesis by blast
  next
    case False
    define n where "n = (if len > 64 then 64 else len)"
    have n: "n \<le> 64" "n \<le> len" by (simp_all add: n_def)
    obtain r d1 where s1: "getbits s ps n = Some r" "setbits d pd n r = Some d1" "bits_copied d pd s ps n d1"
      using copybits_step[of n pd d ps s] n "1.prems" by auto
    then have "length d1 = length d" by (simp add: bits_copied_def)
    with "1.IH"[OF False n_def s1(1,2)] "1.prems" n obtain d2 where
      d2: "copybits d1 (pd + n) s (ps + n) (len - n) = Some (d2, pd + n + (len - n), ps + n + (len - n))"
        "bits_copied d1 (pd + n) s (ps + n) (len - n) d2" by auto
    from bits_copied_trans[OF s1(3) d2(2)] n have "bits_copied d pd s ps len d2" by simp
    with False s1 d2(1) n show ?thesis
      by (simp add: copybits.simps[of d pd s ps len] n_def[symmetric])
  qed
qed

lemma getbit_atomic_eq: "i < 8 * length d \<Longrightarrow> getbit_atomic d i = Some (bit (d ! (i div 8)) (i mod 8))"
  by (simp add: getbit_atomic_def and_exp_eq_0_iff_not_bit less_mult_imp_div_less)

lemma setbit_atomic_eq:
  "i < 8 * length d \<Longrightarrow> setbit_atomic d i = Some (d[i div 8 := d ! (i div 8) OR push_bit (i mod 8) 1])"
  by (simp add: setbit_atomic_def less_mult_imp_div_less)

lemma bit_or_single: "k < 8 \<Longrightarrow> bit ((b :: byte) OR push_bit n 1) k \<longleftrightarrow> k = n \<or> bit b k"
  by (auto simp: bit_or_iff bit_exp_iff)

lemma getbit_setbit_atomic:
  assumes i: "i < 8 * length d" and j: "j < 8 * length d"
  shows "\<exists>d'. setbit_atomic d i = Some d' \<and> length d' = length d \<and>
    getbit_atomic d' j = Some (i = j \<or> bit (d ! (j div 8)) (j mod 8))"
proof -
  let ?d = "d[i div 8 := d ! (i div 8) OR push_bit (i mod 8) 1]"
  have "bit (?d ! (j div 8)) (j mod 8) \<longleftrightarrow> i = j \<or> bit (d ! (j div 8)) (j mod 8)"
  proof (cases "i div 8 = j div 8")
    case True
    then have "i mod 8 = j mod 8 \<longleftrightarrow> i = j" by (metis mult_div_mod_eq)
    moreover have "bit (?d ! (j div 8)) (j mod 8) \<longleftrightarrow> j mod 8 = i mod 8 \<or> bit (d ! (j div 8)) (j mod 8)"
      using True i less_mult_imp_div_less[of i "length d" 8] bit_or_single[of "j mod 8"]
      by (simp only: nth_list_update_eq mult.commute[of 8])
    ultimately show ?thesis by auto
  next
    case False
    then show ?thesis by auto
  qed
  then show ?thesis using i j getbit_atomic_eq[of j ?d] by (simp only: setbit_atomic_eq length_list_update) simp
qed

subsection \<open>Properties of the bit field component\<close>

text \<open>
  reading a field of at most 64 bits that lies inside the buffer never leaves the buffer and
  returns exactly the bits of the field: bit \<open>k\<close> of the result is the bit \<open>k\<close> places before
  the field's end, and every bit of the result above the field's length is clear.
\<close>

lemma getbits_reads_field:
  assumes "len \<le> 64" "beg + len \<le> 8 * length d"
  shows "\<exists>r. getbits d beg len = Some r \<and>
    (\<forall>k < 64. bit r k \<longleftrightarrow> k < len \<and> bit_at d (beg + len - 1 - k))"
  using getbits_holds[OF assms] by (auto simp: holds_bits_def)

text \<open>
  C35: Writing a field of at most 64 bits inside the buffer succeeds, the field then reads back as
  the low bits of the written value, and every bit outside the field keeps its value.
\<close>

theorem setbits_getbits_roundtrip:
  assumes "len \<le> 64" "beg + len \<le> 8 * length d"
  shows "\<exists>d'. setbits d beg len val = Some d' \<and> length d' = length d \<and>
    getbits d' beg len = Some (take_bit len val) \<and>
    (\<forall>i < 8 * length d. (i < beg \<or> beg + len \<le> i) \<longrightarrow> (bit_at d' i \<longleftrightarrow> bit_at d i))"
proof -
  obtain d' where d': "setbits d beg len val = Some d'" "bits_replaced d beg len val d'"
    using setbits_replaced[OF assms] by blast
  from getbits_replaced[OF d'(2) assms] d' show ?thesis by (auto simp: bits_replaced_def)
qed

theorem setbits_getbits_roundtrip_witness:
  "\<exists>d'. setbits [0, 0xff, 0] 6 11 0x5a5 = Some d' \<and> length d' = length [0, 0xff, 0 :: byte] \<and>
    getbits d' 6 11 = Some (take_bit 11 0x5a5) \<and>
    (\<forall>i < 8 * length [0, 0xff, 0 :: byte]. (i < 6 \<or> 6 + 11 \<le> i) \<longrightarrow>
       (bit_at d' i \<longleftrightarrow> bit_at [0, 0xff, 0] i))"
  by (rule setbits_getbits_roundtrip) simp_all

text \<open>
  copying any number of bits between two buffers that hold both ranges terminates, advances
  both positions by that number, and the destination differs from its old contents exactly in the
  copied range, which holds the source's bits in order.
\<close>

lemma copybits_correct:
  assumes "pd + len \<le> 8 * length d" "ps + len \<le> 8 * length s"
  shows "\<exists>d'. copybits d pd s ps len = Some (d', pd + len, ps + len) \<and> length d' = length d \<and>
    (\<forall>i < 8 * length d. bit_at d' i \<longleftrightarrow>
       (if pd \<le> i \<and> i < pd + len then bit_at s (ps + (i - pd)) else bit_at d i))"
  using copybits_copied[OF assms] by (auto simp: bits_copied_def)

end
