(* ===== verification/HashTable.thy ===== *)
theory HashTable
  imports Prelude "HOL-Library.Multiset"
begin

text \<open>
  The chained hash table of \<^verbatim>\<open>caster/hash.c\<close>. A table is an array of buckets, each a singly
  linked list of key/value elements, and a count of entries. Values are of any type; a table's
  free callback shows in the model as the list of the values it is called on. An operation that
  allocates has a Boolean argument \<open>mem\<close> that says whether the allocation succeeds; an
  operation guarded by \<open>assert\<close> returns \<^const>\<open>None\<close> when the assertion fails.

  \<open>hash_inv\<close> is the well-formedness invariant every operation keeps; \<open>hash_table_get\<close> is at the
  same time the abstraction to a finite map. The locale \<open>kv_store\<close> states the contract clients
  of the table rely on, with the facts they need proved once from it, and the table interprets it.
\<close>

subsection \<open>Tables and operations\<close>

record 'v element =
  elem_key :: cstring
  elem_value :: 'v

record 'v hash_table =
  nentries :: int
  n_buckets :: nat
  element_lists :: "'v element list list"

text \<open>\<open>int c = *key++\<close> sign-extends a \<open>char\<close>; the hash wraps at 32 bits.\<close>

definition char_to_unsigned :: "char \<Rightarrow> 32 word" where
  "char_to_unsigned c = scast (of_char c :: 8 word)"

fun hash_loop :: "32 word \<Rightarrow> cstring \<Rightarrow> 32 word" where
  "hash_loop hash [] = hash"
| "hash_loop hash (c # key) = hash_loop (hash * 37 + char_to_unsigned c) key"

definition hash_key :: "'v hash_table \<Rightarrow> cstring \<Rightarrow> nat" where
  "hash_key this key = unat (hash_loop 441 key) mod n_buckets this"

definition hash_table_new :: "bool \<Rightarrow> int \<Rightarrow> 'v hash_table option" where
  "hash_table_new mem n =
     (if n \<le> 0 then None
      else if \<not> mem then None
      else Some \<lparr>nentries = 0, n_buckets = nat n, element_lists = replicate (nat n) []\<rparr>)"

text \<open>The search of one bucket; with \<open>del\<close> the found element is unlinked.\<close>

fun slist_find :: "cstring \<Rightarrow> bool \<Rightarrow> 'v element list \<Rightarrow> 'v element option \<times> 'v element list" where
  "slist_find key del [] = (None, [])"
| "slist_find key del (e # es) =
     (if c_strcmp key (elem_key e) = 0 then (Some e, if del then es else e # es)
      else let (r, es') = slist_find key del es in (r, e # es'))"

definition hash_table_find ::
  "'v hash_table \<Rightarrow> cstring \<Rightarrow> bool \<Rightarrow> 'v element option \<times> nat \<times> 'v hash_table" where
  "hash_table_find this key del =
     (let h = hash_key this key;
          (r, es) = slist_find key del (element_lists this ! h)
      in (r, h,
          if del \<and> r \<noteq> None
          then this\<lparr>element_lists := (element_lists this)[h := es], nentries := nentries this - 1\<rparr>
          else this))"

text \<open>Return codes: \<open>0\<close> done, \<open>-1\<close> the key exists, \<open>-2\<close> out of memory.\<close>

definition hash_table_add :: "bool \<Rightarrow> 'v hash_table \<Rightarrow> cstring \<Rightarrow> 'v \<Rightarrow> int \<times> 'v hash_table" where
  "hash_table_add mem this key value =
     (case hash_table_find this key False of
        (Some e, h, _) \<Rightarrow> (- 1, this)
      | (None, h, _) \<Rightarrow>
          if \<not> mem then (- 2, this)
          else (0, this\<lparr>element_lists := (element_lists this)
                   [h := \<lparr>elem_key = key, elem_value = value\<rparr> # element_lists this ! h],
                 nentries := nentries this + 1\<rparr>))"

definition hash_table_get_element :: "'v hash_table \<Rightarrow> cstring \<Rightarrow> 'v element option" where
  "hash_table_get_element this key = fst (hash_table_find this key False)"

definition hash_table_get :: "'v hash_table \<Rightarrow> cstring \<Rightarrow> 'v option" where
  "hash_table_get this key =
     (case hash_table_get_element this key of None \<Rightarrow> None | Some e \<Rightarrow> Some (elem_value e))"

text \<open>
  \<open>hash_table_replace\<close> and the in-place counters write through the element pointer of a key:
  every element keeps its place, the one with this key gets a new value.
\<close>

fun slist_set :: "cstring \<Rightarrow> 'v \<Rightarrow> 'v element list \<Rightarrow> 'v element list" where
  "slist_set key v [] = []"
| "slist_set key v (e # es) =
     (if elem_key e = key then e\<lparr>elem_value := v\<rparr> # es else e # slist_set key v es)"

definition hash_table_set_value :: "'v hash_table \<Rightarrow> cstring \<Rightarrow> 'v \<Rightarrow> 'v hash_table" where
  "hash_table_set_value this key v =
     (let h = hash_key this key in
      this\<lparr>element_lists := (element_lists this)[h := slist_set key v (element_lists this ! h)]\<rparr>)"

text \<open>The freed old value, and the table. The caller has \<open>e\<close> from a lookup of its key.\<close>

definition hash_table_replace :: "'v hash_table \<Rightarrow> 'v element \<Rightarrow> 'v \<Rightarrow> 'v list \<times> 'v hash_table" where
  "hash_table_replace this e value = ([elem_value e], hash_table_set_value this (elem_key e) value)"

text \<open>Status, freed values, table.\<close>

definition hash_table_del :: "'v hash_table \<Rightarrow> cstring \<Rightarrow> int \<times> 'v list \<times> 'v hash_table" where
  "hash_table_del this key =
     (case hash_table_find this key True of
        (None, _, this') \<Rightarrow> (- 1, [], this')
      | (Some e, _, this') \<Rightarrow> (0, [elem_value e], this'))"

text \<open>The removed value is handed to the caller: nothing is freed.\<close>

definition hash_table_get_del :: "'v hash_table \<Rightarrow> cstring \<Rightarrow> 'v option \<times> 'v hash_table" where
  "hash_table_get_del this key =
     (case hash_table_find this key True of
        (None, _, this') \<Rightarrow> (None, this')
      | (Some e, _, this') \<Rightarrow> (Some (elem_value e), this'))"

text \<open>
  Counters. \<open>mem_v\<close> is the allocation of the counter cell, \<open>mem\<close> that of the element; the
  result of \<open>hash_table_add\<close> is ignored by the source.
\<close>

definition hash_table_incr :: "bool \<Rightarrow> bool \<Rightarrow> int hash_table \<Rightarrow> cstring \<Rightarrow> int \<times> int hash_table" where
  "hash_table_incr mem_v mem this key =
     (case hash_table_get this key of
        None \<Rightarrow>
          if \<not> mem_v then (0, this) else (1, snd (hash_table_add mem this key 1))
      | Some v \<Rightarrow> (v + 1, hash_table_set_value this key (v + 1)))"

definition hash_table_decr :: "int hash_table \<Rightarrow> cstring \<Rightarrow> int hash_table option" where
  "hash_table_decr this key =
     (case hash_table_get this key of
        None \<Rightarrow> Some this
      | Some v \<Rightarrow>
          (let this' = hash_table_set_value this key (v - 1)
           in if \<not> v - 1 \<ge> 0 then None
              else if v - 1 = 0 then Some (snd (snd (hash_table_del this' key)))
              else Some this'))"

definition hash_len :: "'v hash_table \<Rightarrow> int" where
  "hash_len this = nentries this"

subsection \<open>Iteration\<close>

text \<open>
  The element pointer of an iterator is the rest of its bucket's list from the current element on
  (the empty list is \<open>NULL\<close>). The table pointer is cleared at the end. A bucket read outside the
  array, or use after the end, is \<^const>\<open>None\<close>.
\<close>

record 'v hash_iterator =
  bucket_number :: int
  iter_e :: "'v element list"
  iter_ht :: "'v hash_table option"

definition hash_iterator_init :: "'v hash_table \<Rightarrow> 'v hash_iterator" where
  "hash_iterator_init ht = \<lparr>bucket_number = - 1, iter_e = [], iter_ht = Some ht\<rparr>"

function next_bucket :: "'v hash_table \<Rightarrow> int \<Rightarrow> ('v element option \<times> 'v hash_iterator) option" where
  "next_bucket ht b =
     (if b + 1 = int (n_buckets ht)
      then Some (None, \<lparr>bucket_number = b + 1, iter_e = [], iter_ht = None\<rparr>)
      else if b + 1 < 0 \<or> int (length (element_lists ht)) \<le> b + 1 then None
      else (case element_lists ht ! nat (b + 1) of
              [] \<Rightarrow> next_bucket ht (b + 1)
            | e # es \<Rightarrow> Some (Some e, \<lparr>bucket_number = b + 1, iter_e = e # es, iter_ht = Some ht\<rparr>)))"
  by pat_completeness auto
termination
  by (relation "measure (\<lambda>(ht, b). nat (int (length (element_lists ht)) - b))") auto

declare next_bucket.simps [simp del]

definition hash_iterator_next ::
  "'v hash_iterator \<Rightarrow> ('v element option \<times> 'v hash_iterator) option" where
  "hash_iterator_next this =
     (case iter_ht this of
        None \<Rightarrow> None
      | Some ht \<Rightarrow>
          (case iter_e this of
             e # e' # es \<Rightarrow> Some (Some e', this\<lparr>iter_e := e' # es\<rparr>)
           | _ \<Rightarrow> next_bucket ht (bucket_number this)))"

text \<open>\<open>HASH_FOREACH\<close>: the elements the loop visits, in order.\<close>

partial_function (option) hash_foreach_from :: "'v hash_iterator \<Rightarrow> 'v element list option" where
  "hash_foreach_from hi =
     Option.bind (hash_iterator_next hi)
       (\<lambda>(e, hi'). case e of None \<Rightarrow> Some []
          | Some x \<Rightarrow> Option.bind (hash_foreach_from hi') (\<lambda>xs. Some (x # xs)))"

definition hash_foreach :: "'v hash_table \<Rightarrow> 'v element list option" where
  "hash_foreach ht = hash_foreach_from (hash_iterator_init ht)"

text \<open>
  \<open>hash_array\<close>: the elements in an array of \<open>nentries\<close> pointers, sorted by key. Storing past the
  array or leaving part of it unset (the assertion \<open>i == n\<close>) is \<^const>\<open>None\<close>.
\<close>

definition hash_array :: "'v hash_table \<Rightarrow> 'v element list option" where
  "hash_array this = do {
     es \<leftarrow> hash_foreach this;
     if int (length es) = nentries this then Some (sort_key elem_key es) else None
   }"

text \<open>\<open>hash_table_update\<close>: add every entry of another table; keys already present stay.\<close>

fun hash_add_all :: "(cstring \<Rightarrow> bool) \<Rightarrow> 'v element list \<Rightarrow> 'v hash_table \<Rightarrow> 'v hash_table" where
  "hash_add_all mem [] this = this"
| "hash_add_all mem (e # es) this =
     hash_add_all mem es (snd (hash_table_add (mem (elem_key e)) this (elem_key e) (elem_value e)))"

definition hash_table_update ::
  "(cstring \<Rightarrow> bool) \<Rightarrow> 'v hash_table \<Rightarrow> 'v hash_table \<Rightarrow> 'v hash_table option" where
  "hash_table_update mem this updates = do {
     es \<leftarrow> hash_foreach updates;
     Some (hash_add_all mem es this)
   }"

text \<open>\<open>hash_table_free\<close>: the values freed, bucket by bucket, and the assertion on their number.\<close>

definition hash_table_free :: "'v hash_table \<Rightarrow> 'v list option" where
  "hash_table_free this =
     (let freed = concat (map (map elem_value) (take (n_buckets this) (element_lists this)))
      in if int (length freed) = nentries this then Some freed else None)"

subsection \<open>Invariant and abstraction\<close>

definition hash_elements :: "'v hash_table \<Rightarrow> 'v element list" where
  "hash_elements t = concat (element_lists t)"

definition hash_inv :: "'v hash_table \<Rightarrow> bool" where
  "hash_inv t \<longleftrightarrow> 0 < n_buckets t \<and> length (element_lists t) = n_buckets t \<and>
     (\<forall>h < n_buckets t. distinct (map elem_key (element_lists t ! h)) \<and>
        (\<forall>e \<in> set (element_lists t ! h). hash_key t (elem_key e) = h)) \<and>
     nentries t = int (length (hash_elements t))"

definition kv_pair :: "'v element \<Rightarrow> cstring \<times> 'v" where
  "kv_pair e = (elem_key e, elem_value e)"

lemma fst_kv_pair [simp]: "fst \<circ> kv_pair = elem_key" "fst (kv_pair e) = elem_key e" "snd (kv_pair e) = elem_value e"
  by (auto simp: kv_pair_def)

lemma map_of_kv_Cons [simp]:
  "map_of (kv_pair e # ps) k = (if k = elem_key e then Some (elem_value e) else map_of ps k)"
  by (simp add: kv_pair_def)

lemma filter_other_keys: "k \<notin> elem_key ` set es \<Longrightarrow> filter (\<lambda>e. elem_key e \<noteq> k) es = es"
  by (induction es) auto

lemma hash_key_cong [simp]:
  "hash_key (t\<lparr>element_lists := ls\<rparr>) k = hash_key t k"
  "hash_key (t\<lparr>nentries := n\<rparr>) k = hash_key t k"
  by (simp_all add: hash_key_def)

lemma hash_key_less: "hash_inv t \<Longrightarrow> hash_key t k < n_buckets t"
  by (simp add: hash_inv_def hash_key_def)

lemma hash_invD:
  assumes "hash_inv t"
  shows "length (element_lists t) = n_buckets t"
    "h < n_buckets t \<Longrightarrow> distinct (map elem_key (element_lists t ! h))"
    "h < n_buckets t \<Longrightarrow> e \<in> set (element_lists t ! h) \<Longrightarrow> hash_key t (elem_key e) = h"
    "nentries t = int (length (hash_elements t))"
  using assms by (auto simp: hash_inv_def)

lemma slist_find_no_del: "slist_find k False es = (find (\<lambda>e. elem_key e = k) es, es)"
  by (induction es) auto

lemma slist_find_del:
  "slist_find k True es =
    (find (\<lambda>e. elem_key e = k) es,
     takeWhile (\<lambda>e. elem_key e \<noteq> k) es @ tl (dropWhile (\<lambda>e. elem_key e \<noteq> k) es))"
  by (induction es) auto

lemma slist_del_distinct:
  "distinct (map elem_key es) \<Longrightarrow>
   snd (slist_find k True es) = filter (\<lambda>e. elem_key e \<noteq> k) es"
proof (induction es)
  case (Cons e es)
  show ?case
  proof (cases "elem_key e = k")
    case True
    with Cons.prems have "filter (\<lambda>e. elem_key e \<noteq> k) es = es" by (intro filter_other_keys) auto
    with True show ?thesis by (simp add: slist_find_del)
  next
    case False
    with Cons show ?thesis by (simp add: slist_find_del)
  qed
qed simp

lemma find_key_map_of: "map_option elem_value (find (\<lambda>e. elem_key e = k) es) = map_of (map kv_pair es) k"
  by (induction es) auto

lemma hash_table_get_bucket:
  "hash_table_get t k = map_of (map kv_pair (element_lists t ! hash_key t k)) k"
  by (simp add: hash_table_get_def hash_table_get_element_def hash_table_find_def
      slist_find_no_del Let_def find_key_map_of[symmetric] split: option.split)

text \<open>
  One bucket of a table is replaced by a list with the same discipline: the invariant holds again
  if the entry count follows.
\<close>

lemma length_concat_update:
  assumes "h < length ls"
  shows "length (concat (ls[h := es])) + length (ls ! h) = length (concat ls) + length es"
proof -
  have "ls = take h ls @ ls ! h # drop (Suc h) ls" using assms by (rule id_take_nth_drop)
  then have "length (concat ls) = length (concat (take h ls)) + length (ls ! h) + length (concat (drop (Suc h) ls))"
    by (metis (no_types, lifting) add.assoc concat.simps(2) concat_append length_append)
  moreover have "ls[h := es] = take h ls @ es # drop (Suc h) ls" using assms by (rule upd_conv_take_nth_drop)
  ultimately show ?thesis by simp
qed

lemma hash_inv_update:
  assumes inv: "hash_inv t" and h: "h < n_buckets t"
    and es: "distinct (map elem_key es)" "\<And>e. e \<in> set es \<Longrightarrow> hash_key t (elem_key e) = h"
    and n: "n + int (length (element_lists t ! h)) = nentries t + int (length es)"
  shows "hash_inv (t\<lparr>element_lists := (element_lists t)[h := es], nentries := n\<rparr>)"
proof -
  note l = length_concat_update[of h "element_lists t" es]
  show ?thesis
    using inv h es n l
    by (auto simp: hash_inv_def hash_elements_def nth_list_update)
qed

lemma hash_table_get_update:
  assumes "hash_inv t" "h < n_buckets t"
  shows "hash_table_get (t\<lparr>element_lists := (element_lists t)[h := es], nentries := n\<rparr>) k =
    (if hash_key t k = h then map_of (map kv_pair es) k else hash_table_get t k)"
  using assms by (simp add: hash_table_get_bucket hash_inv_def nth_list_update)

lemma map_of_kv_None: "map_of (map kv_pair es) k = None \<longleftrightarrow> k \<notin> elem_key ` set es"
  by (induction es) auto

lemma find_key_None: "find (\<lambda>e. elem_key e = k) es = None \<longleftrightarrow> k \<notin> elem_key ` set es"
  by (induction es) auto

subsection \<open>Each operation keeps the invariant and acts on the map\<close>

lemma hash_table_new_correct:
  "hash_table_new mem n = Some t \<Longrightarrow> hash_inv t \<and> hash_table_get t = Map.empty \<and> nentries t = 0"
proof -
  assume a: "hash_table_new mem n = Some t"
  then have inv: "hash_inv t"
    by (auto simp: hash_table_new_def hash_inv_def hash_elements_def split: if_splits)
  have "element_lists t ! h = []" if "h < n_buckets t" for h
    using a that by (auto simp: hash_table_new_def split: if_splits)
  with hash_key_less[OF inv] have "hash_table_get t k = None" for k
    by (simp add: hash_table_get_bucket)
  with a inv show ?thesis by (auto simp: hash_table_new_def split: if_splits)
qed

lemma hash_table_get_None_iff: "hash_table_get t k = None \<longleftrightarrow> fst (hash_table_find t k False) = None"
  by (simp add: hash_table_get_def hash_table_get_element_def split: option.split)

lemma hash_table_add_eq:
  "hash_table_add mem t k v =
    (if hash_table_get t k \<noteq> None then (- 1, t)
     else if \<not> mem then (- 2, t)
     else (0, t\<lparr>element_lists := (element_lists t)
         [hash_key t k := \<lparr>elem_key = k, elem_value = v\<rparr> # element_lists t ! hash_key t k],
       nentries := nentries t + 1\<rparr>))"
  by (auto simp: hash_table_add_def hash_table_get_None_iff hash_table_find_def Let_def
      split: option.splits prod.splits)

lemma hash_table_add_new:
  assumes inv: "hash_inv t" and new: "hash_table_get t k = None"
  shows "fst (hash_table_add True t k v) = 0"
    "hash_inv (snd (hash_table_add True t k v))"
    "hash_table_get (snd (hash_table_add True t k v)) = (hash_table_get t)(k \<mapsto> v)"
proof -
  note h = hash_key_less[OF inv, of k]
  show "fst (hash_table_add True t k v) = 0" using new by (simp add: hash_table_add_eq)
  have "k \<notin> elem_key ` set (element_lists t ! hash_key t k)"
    using new by (simp add: hash_table_get_bucket map_of_kv_None)
  then show "hash_inv (snd (hash_table_add True t k v))"
    using new hash_invD(2,3)[OF inv h] by (auto simp: hash_table_add_eq intro!: hash_inv_update[OF inv h])
  show "hash_table_get (snd (hash_table_add True t k v)) = (hash_table_get t)(k \<mapsto> v)"
  proof
    fix k'
    show "hash_table_get (snd (hash_table_add True t k v)) k' = ((hash_table_get t)(k \<mapsto> v)) k'"
      using new hash_table_get_bucket[of t k']
      by (auto simp: hash_table_add_eq hash_table_get_update[OF inv h])
  qed
qed

lemma filter_key_map_of:
  "map_of (map kv_pair (filter (\<lambda>e. elem_key e \<noteq> k) es)) k' =
     (if k' = k then None else map_of (map kv_pair es) k')"
  by (induction es) auto

lemma length_filter_key:
  "distinct (map elem_key es) \<Longrightarrow> k \<in> elem_key ` set es \<Longrightarrow>
   Suc (length (filter (\<lambda>e. elem_key e \<noteq> k) es)) = length es"
proof (induction es)
  case (Cons e es)
  show ?case
  proof (cases "elem_key e = k")
    case True
    with Cons.prems have "filter (\<lambda>e. elem_key e \<noteq> k) es = es" by (intro filter_other_keys) auto
    with True show ?thesis by simp
  next
    case False
    with Cons show ?thesis by auto
  qed
qed simp

text \<open>The table a deletion leaves.\<close>

definition without_key :: "cstring \<Rightarrow> 'v hash_table \<Rightarrow> 'v hash_table" where
  "without_key k t = snd (snd (hash_table_find t k True))"

lemma without_key_absent: "hash_table_get t k = None \<Longrightarrow> without_key k t = t"
  by (simp add: without_key_def hash_table_find_def Let_def slist_find_del hash_table_get_bucket
      find_key_map_of[symmetric])

lemma without_key_present:
  assumes inv: "hash_inv t" and pres: "hash_table_get t k \<noteq> None"
  shows "without_key k t = t\<lparr>element_lists := (element_lists t)
      [hash_key t k := filter (\<lambda>e. elem_key e \<noteq> k) (element_lists t ! hash_key t k)],
      nentries := nentries t - 1\<rparr>"
proof -
  note h = hash_key_less[OF inv, of k]
  have "find (\<lambda>e. elem_key e = k) (element_lists t ! hash_key t k) \<noteq> None"
    using pres by (simp add: hash_table_get_bucket find_key_map_of[symmetric])
  with slist_del_distinct[OF hash_invD(2)[OF inv h], of k] show ?thesis
    by (simp add: without_key_def hash_table_find_def Let_def slist_find_del)
qed

lemma hash_table_del_eq:
  "hash_table_del t k =
    (case hash_table_get t k of None \<Rightarrow> (- 1, [], t) | Some v \<Rightarrow> (0, [v], without_key k t))"
  by (auto simp: hash_table_del_def without_key_def hash_table_find_def Let_def slist_find_del
      hash_table_get_bucket find_key_map_of[symmetric] split: option.splits)

lemma hash_table_get_del_eq:
  "hash_table_get_del t k = (hash_table_get t k, without_key k t)"
  by (auto simp: hash_table_get_del_def without_key_def hash_table_find_def Let_def slist_find_del
      hash_table_get_bucket find_key_map_of[symmetric] split: option.splits)

lemma without_key_correct:
  assumes inv: "hash_inv t"
  shows "hash_inv (without_key k t)" "hash_table_get (without_key k t) = (hash_table_get t)(k := None)"
    "nentries (without_key k t) = nentries t - (if hash_table_get t k = None then 0 else 1)"
proof -
  note h = hash_key_less[OF inv, of k]
  have "hash_inv (without_key k t) \<and> hash_table_get (without_key k t) = (hash_table_get t)(k := None) \<and>
    nentries (without_key k t) = nentries t - (if hash_table_get t k = None then 0 else 1)"
  proof (cases "hash_table_get t k = None")
    case True
    then show ?thesis using inv by (auto simp: without_key_absent)
  next
    case False
    then have k: "k \<in> elem_key ` set (element_lists t ! hash_key t k)"
      by (simp add: hash_table_get_bucket map_of_kv_None)
    note l = length_filter_key[OF hash_invD(2)[OF inv h] k]
    have "hash_inv (without_key k t)"
      unfolding without_key_present[OF inv False]
      by (rule hash_inv_update[OF inv h]) (use l hash_invD(2,3)[OF inv h] in \<open>auto simp: distinct_map_filter\<close>)
    moreover have "hash_table_get (without_key k t) k' = ((hash_table_get t)(k := None)) k'" for k'
      unfolding without_key_present[OF inv False] hash_table_get_update[OF inv h]
      by (simp add: filter_key_map_of hash_table_get_bucket)
    ultimately show ?thesis using False by (auto simp: without_key_present[OF inv False])
  qed
  then show "hash_inv (without_key k t)" "hash_table_get (without_key k t) = (hash_table_get t)(k := None)"
    "nentries (without_key k t) = nentries t - (if hash_table_get t k = None then 0 else 1)" by simp_all
qed

lemma map_key_slist_set [simp]: "map elem_key (slist_set k v es) = map elem_key es"
  by (induction es) auto

lemma map_of_slist_set:
  "map_of (map kv_pair (slist_set k v es)) k' =
     (if k' = k \<and> k \<in> elem_key ` set es then Some v else map_of (map kv_pair es) k')"
  by (induction es) auto

lemma set_slist_set: "elem_key ` set (slist_set k v es) = elem_key ` set es"
  by (metis map_key_slist_set set_map)

lemma hash_table_set_value_correct:
  assumes inv: "hash_inv t" and pres: "hash_table_get t k \<noteq> None"
  shows "hash_inv (hash_table_set_value t k v)"
    "hash_table_get (hash_table_set_value t k v) = (hash_table_get t)(k \<mapsto> v)"
    "nentries (hash_table_set_value t k v) = nentries t"
proof -
  note h = hash_key_less[OF inv, of k]
  have e: "hash_table_set_value t k v = t\<lparr>element_lists := (element_lists t)
      [hash_key t k := slist_set k v (element_lists t ! hash_key t k)], nentries := nentries t\<rparr>"
    by (simp add: hash_table_set_value_def Let_def)
  have "length (slist_set k v es) = length es" for es :: "'a element list"
    by (metis length_map map_key_slist_set)
  moreover have bucket: "hash_key t (elem_key x) = hash_key t k"
    if "x \<in> set (slist_set k v (element_lists t ! hash_key t k))" for x
  proof -
    have "elem_key x \<in> elem_key ` set (element_lists t ! hash_key t k)"
      using that set_slist_set[of k v] by blast
    then show ?thesis using hash_invD(3)[OF inv h] by auto
  qed
  ultimately show "hash_inv (hash_table_set_value t k v)"
    unfolding e using hash_invD(2)[OF inv h]
    by (intro hash_inv_update[OF inv h] bucket) simp_all
  have k: "k \<in> elem_key ` set (element_lists t ! hash_key t k)"
    using pres by (simp add: hash_table_get_bucket map_of_kv_None)
  show "hash_table_get (hash_table_set_value t k v) = (hash_table_get t)(k \<mapsto> v)"
  proof
    fix x
    show "hash_table_get (hash_table_set_value t k v) x = ((hash_table_get t)(k \<mapsto> v)) x"
      unfolding e hash_table_get_update[OF inv h]
      using k by (simp add: map_of_slist_set hash_table_get_bucket)
  qed
  show "nentries (hash_table_set_value t k v) = nentries t" by (simp add: e)
qed

subsection \<open>Iteration visits every element once\<close>

lemma distinct_concat_buckets:
  "(\<forall>h < length ls. distinct (map f (ls ! h)) \<and> (\<forall>e \<in> set (ls ! h). g (f e) = h + n)) \<Longrightarrow>
   distinct (map f (concat ls))"
proof (induction ls arbitrary: n)
  case (Cons es ls)
  have es: "distinct (map f es)" "\<forall>e \<in> set es. g (f e) = n" using Cons.prems by force+
  have ls: "\<forall>h < length ls. distinct (map f (ls ! h)) \<and> (\<forall>e \<in> set (ls ! h). g (f e) = h + Suc n)"
  proof (intro allI impI)
    fix h assume "h < length ls"
    then show "distinct (map f (ls ! h)) \<and> (\<forall>e \<in> set (ls ! h). g (f e) = h + Suc n)"
      using Cons.prems[rule_format, of "Suc h"] by simp
  qed
  have "f e \<notin> f ` set (concat ls)" if "e \<in> set es" for e
  proof
    assume "f e \<in> f ` set (concat ls)"
    then obtain e' xs where "xs \<in> set ls" "e' \<in> set xs" "f e = f e'" by auto
    moreover from this(1) obtain h where "h < length ls" "xs = ls ! h" by (auto simp: in_set_conv_nth)
    ultimately have "h < length ls" "e' \<in> set (ls ! h)" "f e = f e'" by simp_all
    then have "g (f e) = h + Suc n" using ls by simp
    moreover have "g (f e) = n" using es(2) that by blast
    ultimately show False by simp
  qed
  with es Cons.IH[OF ls] show ?case by auto
qed simp

lemma hash_keys_distinct: "hash_inv t \<Longrightarrow> distinct (map elem_key (hash_elements t))"
  unfolding hash_elements_def
  by (rule distinct_concat_buckets[where g = "hash_key t" and n = 0]) (auto simp: hash_inv_def)

lemma hash_table_get_elements:
  assumes inv: "hash_inv t"
  shows "hash_table_get t k = map_of (map kv_pair (hash_elements t)) k"
proof -
  have "map_of (map kv_pair (concat ls)) k = map_of (map kv_pair (ls ! b)) k"
    if "b < length ls" "\<forall>h < length ls. h \<noteq> b \<longrightarrow> k \<notin> elem_key ` set (ls ! h)"
    for ls :: "'a element list list" and b
    using that
  proof (induction ls arbitrary: b)
    case (Cons es ls)
    show ?case
    proof (cases b)
      case 0
      then have "k \<notin> elem_key ` set (concat ls)"
        using Cons.prems(2) by (fastforce simp: in_set_conv_nth)
      then have "map_of (map kv_pair (concat ls)) k = None" by (simp only: map_of_kv_None not_False_eq_True)
      with 0 show ?thesis by (simp add: map_add_def del: map_of_eq_None_iff split: option.split)
    next
      case (Suc c)
      then have "map_of (map kv_pair (concat ls)) k = map_of (map kv_pair (ls ! c)) k"
        using Cons.prems by (intro Cons.IH) auto
      moreover have "map_of (map kv_pair es) k = None"
        using Cons.prems(2) Suc by (auto simp: map_of_kv_None)
      ultimately show ?thesis using Suc by (auto simp: map_add_def split: option.split)
    qed
  qed simp
  note bucket_wins = this
  have "k \<notin> elem_key ` set (element_lists t ! h)" if "h < n_buckets t" "h \<noteq> hash_key t k" for h
    using hash_invD(3)[OF inv that(1)] that(2) by auto
  with bucket_wins[of "hash_key t k" "element_lists t"] show ?thesis
    using hash_key_less[OF inv, of k] hash_invD(1,3)[OF inv]
    by (auto simp: hash_table_get_bucket hash_elements_def)
qed

lemma hash_dom: "hash_inv t \<Longrightarrow> dom (hash_table_get t) = elem_key ` set (hash_elements t)"
proof -
  assume inv: "hash_inv t"
  have "k \<in> dom (hash_table_get t) \<longleftrightarrow> k \<in> elem_key ` set (hash_elements t)" for k
    using map_of_kv_None[of "hash_elements t" k] by (simp add: hash_table_get_elements[OF inv] domIff)
  then show ?thesis by blast
qed

lemma nentries_card:
  assumes "hash_inv t"
  shows "nentries t = int (card (dom (hash_table_get t)))"
proof -
  have "card (set (map elem_key (hash_elements t))) = length (map elem_key (hash_elements t))"
    by (rule distinct_card[OF hash_keys_distinct[OF assms]])
  then show ?thesis by (simp add: hash_dom[OF assms] hash_invD(4)[OF assms])
qed

lemma next_bucket_step:
  assumes "length (element_lists ht) = n_buckets ht" "- 1 \<le> b" "b < int (n_buckets ht)"
  shows "case concat (drop (nat (b + 1)) (element_lists ht)) of
      [] \<Rightarrow> \<exists>hi. next_bucket ht b = Some (None, hi)
    | x # xs \<Rightarrow> \<exists>b' es. next_bucket ht b = Some (Some x, \<lparr>bucket_number = b', iter_e = x # es, iter_ht = Some ht\<rparr>)
        \<and> - 1 \<le> b' \<and> b' < int (n_buckets ht) \<and> xs = es @ concat (drop (nat (b' + 1)) (element_lists ht))"
  using assms
proof (induction ht b rule: next_bucket.induct)
  case (1 ht b)
  show ?case
  proof (cases "b + 1 = int (n_buckets ht)")
    case True
    with "1.prems" show ?thesis by (simp add: next_bucket.simps[of ht b])
  next
    case False
    then have b: "\<not> (b + 1 < 0 \<or> int (length (element_lists ht)) \<le> b + 1)" "nat (b + 1) < length (element_lists ht)"
      using "1.prems" by auto
    have d: "drop (nat (b + 1)) (element_lists ht) = element_lists ht ! nat (b + 1) # drop (nat (b + 1 + 1)) (element_lists ht)"
      using Cons_nth_drop_Suc[OF b(2)] "1.prems"(2) by (simp add: Suc_nat_eq_nat_zadd1 add.commute)
    show ?thesis
    proof (cases "element_lists ht ! nat (b + 1)")
      case Nil
      then have nb: "next_bucket ht b = next_bucket ht (b + 1)"
        and cd: "concat (drop (nat (b + 1)) (element_lists ht)) = concat (drop (nat (b + 1 + 1)) (element_lists ht))"
        using False b(1) by (simp_all add: next_bucket.simps[of ht b] d)
      show ?thesis unfolding nb cd by (rule "1.IH"[OF False b(1) Nil]) (use "1.prems" False in simp_all)
    next
      case (Cons e es)
      with "1.prems" False b d show ?thesis
        by (auto simp: next_bucket.simps[of ht b])
    qed
  qed
qed

lemma hash_foreach_from_eq:
  assumes "length (element_lists ht) = n_buckets ht" "- 1 \<le> b" "b < int (n_buckets ht)"
  shows "hash_foreach_from \<lparr>bucket_number = b, iter_e = es, iter_ht = Some ht\<rparr> =
    Some (tl es @ concat (drop (nat (b + 1)) (element_lists ht)))"
  using assms
proof (induction "length (tl es @ concat (drop (nat (b + 1)) (element_lists ht)))" arbitrary: b es)
  case 0
  then have "tl es = []" "concat (drop (nat (b + 1)) (element_lists ht)) = []"
    by (metis append_is_Nil_conv length_0_conv)+
  with next_bucket_step[OF 0(2-4)] show ?case
    by (subst hash_foreach_from.simps) (auto simp: hash_iterator_next_def split: list.splits)
next
  case (Suc n)
  show ?case
  proof (cases "tl es")
    case Nil
    then obtain x xs where x: "concat (drop (nat (b + 1)) (element_lists ht)) = x # xs"
      using Suc.hyps(2) by (cases "concat (drop (nat (b + 1)) (element_lists ht))") auto
    with next_bucket_step[OF Suc.prems] obtain b' es' where
      n: "next_bucket ht b = Some (Some x, \<lparr>bucket_number = b', iter_e = x # es', iter_ht = Some ht\<rparr>)"
      and b': "- 1 \<le> b'" "b' < int (n_buckets ht)" "xs = es' @ concat (drop (nat (b' + 1)) (element_lists ht))"
      by auto
    have "n = length (tl (x # es') @ concat (drop (nat (b' + 1)) (element_lists ht)))"
      using Suc.hyps(2) Nil x b'(3) by simp
    from Suc.hyps(1)[OF this Suc.prems(1) b'(1,2)] Nil n x b'(3) show ?thesis
      by (subst hash_foreach_from.simps) (auto simp: hash_iterator_next_def split: list.splits)
  next
    case (Cons x xs)
    then obtain e where es: "es = e # x # xs" by (cases es) auto
    have "n = length (tl (x # xs) @ concat (drop (nat (b + 1)) (element_lists ht)))"
      using Suc.hyps(2) Cons by simp
    from Suc.hyps(1)[OF this Suc.prems] es show ?thesis
      by (subst hash_foreach_from.simps) (simp add: hash_iterator_next_def)
  qed
qed

lemma hash_foreach_eq: "hash_inv t \<Longrightarrow> hash_foreach t = Some (hash_elements t)"
  unfolding hash_foreach_def hash_iterator_init_def
  by (subst hash_foreach_from_eq) (auto simp: hash_inv_def hash_elements_def)

lemma hash_array_eq: "hash_inv t \<Longrightarrow> hash_array t = Some (sort_key elem_key (hash_elements t))"
  by (simp add: hash_array_def hash_foreach_eq hash_invD)

lemma hash_table_free_eq: "hash_inv t \<Longrightarrow> hash_table_free t = Some (map elem_value (hash_elements t))"
  by (simp add: hash_table_free_def hash_inv_def hash_elements_def Let_def map_concat[symmetric])

subsection \<open>The contract of a key/value store\<close>

text \<open>
  What the callers of the table rely on: an insertion succeeds exactly for a new key and changes
  nothing else, a removal forgets exactly its key, and the size is the number of keys.
\<close>

locale kv_store =
  fixes lookup :: "'t \<Rightarrow> cstring \<Rightarrow> 'v option"
    and add :: "'t \<Rightarrow> cstring \<Rightarrow> 'v \<Rightarrow> int \<times> 't"
    and remove :: "cstring \<Rightarrow> 't \<Rightarrow> 't"
    and entries :: "'t \<Rightarrow> int"
    and invar :: "'t \<Rightarrow> bool"
  assumes add_fresh: "invar t \<Longrightarrow> lookup t k = None \<Longrightarrow>
      fst (add t k v) = 0 \<and> invar (snd (add t k v)) \<and> lookup (snd (add t k v)) = (lookup t)(k \<mapsto> v)"
    and add_present: "invar t \<Longrightarrow> lookup t k \<noteq> None \<Longrightarrow> add t k v = (- 1, t)"
    and remove_forgets: "invar t \<Longrightarrow> invar (remove k t) \<and> lookup (remove k t) = (lookup t)(k := None)"
    and entries_count: "invar t \<Longrightarrow> entries t = int (card (dom (lookup t)))"
    and finite_keys: "invar t \<Longrightarrow> finite (dom (lookup t))"
begin

lemma add_invar: "invar t \<Longrightarrow> invar (snd (add t k v))"
  using add_fresh[of t k v] add_present[of t k v] by (cases "lookup t k") auto

lemma add_lookup: "invar t \<Longrightarrow>
  lookup (snd (add t k v)) = (if lookup t k = None then (lookup t)(k \<mapsto> v) else lookup t)"
  using add_fresh[of t k v] add_present[of t k v] by (cases "lookup t k") auto

lemma add_status: "invar t \<Longrightarrow> fst (add t k v) = (if lookup t k = None then 0 else - 1)"
  using add_fresh[of t k v] add_present[of t k v] by (cases "lookup t k") auto

lemma add_keeps: "invar t \<Longrightarrow> lookup t k' = Some w \<Longrightarrow> lookup (snd (add t k v)) k' = Some w"
  by (auto simp: add_lookup)

lemma add_entries: "invar t \<Longrightarrow> lookup t k = None \<Longrightarrow> entries (snd (add t k v)) = entries t + 1"
  using finite_keys[of t]
  by (auto simp: entries_count add_invar add_lookup card_insert_if domIff)

lemma remove_entries: "invar t \<Longrightarrow> lookup t k \<noteq> None \<Longrightarrow> entries (remove k t) = entries t - 1"
proof -
  assume t: "invar t" "lookup t k \<noteq> None"
  then have "Suc (card (dom (lookup t) - {k})) = card (dom (lookup t))"
    using finite_keys by (intro card.remove[symmetric]) auto
  then show ?thesis using t remove_forgets[OF t(1), of k] by (simp add: entries_count)
qed

lemma add_then_remove: "invar t \<Longrightarrow> lookup t k = None \<Longrightarrow> lookup (remove k (snd (add t k v))) = lookup t"
  using add_fresh[of t k v] remove_forgets[of "snd (add t k v)" k] by (auto simp: fun_eq_iff)

text \<open>Adding a list of entries: what was there stays, the first new entry for a key is kept.\<close>

lemma add_list:
  "invar t \<Longrightarrow> invar (fold (\<lambda>(k, v) s. snd (add s k v)) kvs t) \<and>
   lookup (fold (\<lambda>(k, v) s. snd (add s k v)) kvs t) x =
     (case lookup t x of Some w \<Rightarrow> Some w | None \<Rightarrow> map_of kvs x)"
proof (induction kvs arbitrary: t)
  case Nil
  then show ?case by (simp split: option.split)
next
  case (Cons kv kvs)
  obtain k v where "kv = (k, v)" by (cases kv)
  with Cons.IH[OF add_invar[OF Cons.prems, of k v]] Cons.prems show ?case
    by (auto simp: add_lookup split: option.splits)
qed

end

interpretation hash: kv_store hash_table_get "hash_table_add True" without_key nentries hash_inv
proof
  fix t :: "'v hash_table" and k v
  show "hash_inv t \<Longrightarrow> hash_table_get t k = None \<Longrightarrow>
      fst (hash_table_add True t k v) = 0 \<and> hash_inv (snd (hash_table_add True t k v)) \<and>
      hash_table_get (snd (hash_table_add True t k v)) = (hash_table_get t)(k \<mapsto> v)"
    by (simp add: hash_table_add_new)
  show "hash_inv t \<Longrightarrow> hash_table_get t k \<noteq> None \<Longrightarrow> hash_table_add True t k v = (- 1, t)"
    by (simp add: hash_table_add_eq)
  show "hash_inv t \<Longrightarrow> hash_inv (without_key k t) \<and>
      hash_table_get (without_key k t) = (hash_table_get t)(k := None)"
    by (simp add: without_key_correct)
  show "hash_inv t \<Longrightarrow> nentries t = int (card (dom (hash_table_get t)))"
    by (rule nentries_card)
  show "hash_inv t \<Longrightarrow> finite (dom (hash_table_get t))"
    by (simp add: hash_dom)
qed

lemma hash_table_add_inv: "hash_inv t \<Longrightarrow> hash_inv (snd (hash_table_add mem t k v))"
  using hash.add_invar[of t k v] by (cases mem) (auto simp: hash_table_add_eq)

lemma hash_add_all_fold:
  "hash_add_all (\<lambda>_. True) es t = fold (\<lambda>(k, v) s. snd (hash_table_add True s k v)) (map kv_pair es) t"
  by (induction es arbitrary: t) (auto simp: kv_pair_def)

text \<open>A fresh table, used by the witnesses.\<close>

definition hash_example :: "int hash_table" where
  "hash_example = snd (hash_table_add True (the (hash_table_new True 5)) ''TCP'' 2)"

lemma hash_new_5: "hash_table_new True 5 = Some (the (hash_table_new True 5))"
  by (simp add: hash_table_new_def)

lemma hash_fresh_5:
  "hash_inv (the (hash_table_new True 5))" "hash_table_get (the (hash_table_new True 5)) = Map.empty"
  using hash_table_new_correct[OF hash_new_5] by blast+

lemma hash_example_correct:
  "hash_inv hash_example" "hash_table_get hash_example = [''TCP'' \<mapsto> 2]"
  unfolding hash_example_def
  by (simp_all add: hash.add_invar hash.add_lookup hash_fresh_5)

subsection \<open>Counters\<close>

definition counter_inv :: "int hash_table \<Rightarrow> bool" where
  "counter_inv t \<longleftrightarrow> hash_inv t \<and> (\<forall>v \<in> ran (hash_table_get t). 1 \<le> v)"

definition counter_of :: "int hash_table \<Rightarrow> cstring \<Rightarrow> int" where
  "counter_of t k = (case hash_table_get t k of None \<Rightarrow> 0 | Some v \<Rightarrow> v)"

lemma counter_inv_Some: "counter_inv t \<Longrightarrow> hash_table_get t k = Some v \<Longrightarrow> 1 \<le> v"
  by (auto simp: counter_inv_def ran_def)

lemma counter_inv_fun_upd:
  "counter_inv t \<Longrightarrow> hash_inv t' \<Longrightarrow> hash_table_get t' = (hash_table_get t)(k \<mapsto> v) \<Longrightarrow> 1 \<le> v \<Longrightarrow> counter_inv t'"
  by (auto simp: counter_inv_def ran_def split: if_splits)

lemma hash_table_incr_correct:
  assumes inv: "counter_inv t"
  shows "fst (hash_table_incr True True t k) = counter_of t k + 1"
    "counter_inv (snd (hash_table_incr True True t k))"
    "counter_of (snd (hash_table_incr True True t k)) = (counter_of t)(k := counter_of t k + 1)"
proof -
  have h: "hash_inv t" using inv by (simp add: counter_inv_def)
  have "\<exists>t'. hash_table_incr True True t k = (counter_of t k + 1, t') \<and> hash_inv t' \<and>
     hash_table_get t' = (hash_table_get t)(k \<mapsto> counter_of t k + 1)"
  proof (cases "hash_table_get t k")
    case None
    with hash_table_add_new[OF h None, of 1] show ?thesis
      by (simp add: hash_table_incr_def counter_of_def)
  next
    case (Some v)
    with hash_table_set_value_correct[OF h, of k "v + 1"] show ?thesis
      by (simp add: hash_table_incr_def counter_of_def)
  qed
  then obtain t' where t': "hash_table_incr True True t k = (counter_of t k + 1, t')" "hash_inv t'"
     "hash_table_get t' = (hash_table_get t)(k \<mapsto> counter_of t k + 1)" by blast
  have "1 \<le> counter_of t k + 1"
    using counter_inv_Some[OF inv, of k] by (auto simp: counter_of_def split: option.split)
  then have "counter_inv t'" using counter_inv_fun_upd[OF inv t'(2,3)] by simp
  with t' show "fst (hash_table_incr True True t k) = counter_of t k + 1"
    "counter_inv (snd (hash_table_incr True True t k))"
    "counter_of (snd (hash_table_incr True True t k)) = (counter_of t)(k := counter_of t k + 1)"
    by (auto simp: counter_of_def fun_eq_iff)
qed

lemma hash_table_decr_correct:
  assumes inv: "counter_inv t"
  shows "\<exists>t'. hash_table_decr t k = Some t' \<and> counter_inv t' \<and>
    counter_of t' = (counter_of t)(k := max 0 (counter_of t k - 1)) \<and>
    (hash_table_get t' k = None \<longleftrightarrow> counter_of t k \<le> 1)"
proof (cases "hash_table_get t k")
  case None
  with inv show ?thesis by (auto simp: hash_table_decr_def counter_of_def fun_eq_iff)
next
  case (Some v)
  have h: "hash_inv t" using inv by (simp add: counter_inv_def)
  note sv = hash_table_set_value_correct[OF h, of k "v - 1"]
  have v: "1 \<le> v" using counter_inv_Some[OF inv Some] .
  let ?t1 = "hash_table_set_value t k (v - 1)"
  have s1: "hash_inv ?t1" "hash_table_get ?t1 = (hash_table_get t)(k \<mapsto> v - 1)" using sv Some by simp_all
  show ?thesis
  proof (cases "v = 1")
    case True
    have "hash_table_decr t k = Some (without_key k ?t1)"
      using Some True s1 by (simp add: hash_table_decr_def Let_def hash_table_del_eq)
    moreover have g: "hash_table_get (without_key k ?t1) = (hash_table_get t)(k := None)"
      using without_key_correct[OF s1(1), of k] s1 by auto
    moreover have "counter_inv (without_key k ?t1)"
      using without_key_correct(1)[OF s1(1), of k] g inv
      by (auto simp: counter_inv_def ran_def split: if_splits)
    ultimately show ?thesis using Some True by (auto simp: counter_of_def fun_eq_iff)
  next
    case False
    have "hash_table_decr t k = Some ?t1" using Some False v by (simp add: hash_table_decr_def Let_def)
    moreover have "counter_inv ?t1" using counter_inv_fun_upd[OF inv s1] v False by simp
    ultimately show ?thesis using Some False v s1 by (auto simp: counter_of_def fun_eq_iff)
  qed
qed

subsection \<open>Properties of the hash table\<close>

text \<open>
  Insertion into a well-formed table. For a new key it returns 0 and the table then maps the
  key to the value, every other key as before; for a key already present it returns -1, and when
  memory is short -2, and in both cases the table is unchanged. The table stays well-formed.
\<close>

lemma hash_table_add_correct:
  assumes "hash_inv t"
  shows "hash_inv (snd (hash_table_add mem t k v)) \<and>
    (if hash_table_get t k \<noteq> None then hash_table_add mem t k v = (- 1, t)
     else if \<not> mem then hash_table_add mem t k v = (- 2, t)
     else fst (hash_table_add mem t k v) = 0 \<and>
       hash_table_get (snd (hash_table_add mem t k v)) = (hash_table_get t)(k \<mapsto> v) \<and>
       hash_len (snd (hash_table_add mem t k v)) = hash_len t + 1)"
  using assms hash_table_add_inv[OF assms, of mem k v] hash.add_fresh[OF assms, of k v]
    hash.add_entries[OF assms, of k v]
  by (cases mem) (auto simp: hash_table_add_eq hash_len_def)

lemma hash_table_add_correct_witness:
  "hash_inv (snd (hash_table_add True hash_example ''UDP'' 7)) \<and>
   fst (hash_table_add True hash_example ''UDP'' 7) = 0 \<and>
   hash_table_get (snd (hash_table_add True hash_example ''UDP'' 7)) =
     (hash_table_get hash_example)(''UDP'' \<mapsto> 7)"
  using hash_table_add_correct[OF hash_example_correct(1), of True "''UDP''" 7] hash_example_correct(2)
  by simp

text \<open>
  C34: deletion from a well-formed table forgets exactly the given key: it returns 0 and frees the
  key's value once when the key was present, and returns -1 with the table unchanged and nothing
  freed when it was not; the entry count follows, and the table stays well-formed.
\<close>

theorem hash_table_del_correct:
  assumes "hash_inv t"
  shows "\<exists>t'. hash_table_del t k =
      (case hash_table_get t k of None \<Rightarrow> (- 1, [], t) | Some v \<Rightarrow> (0, [v], t')) \<and>
    hash_table_get_del t k = (hash_table_get t k, t') \<and>
    hash_inv t' \<and> hash_table_get t' = (hash_table_get t)(k := None) \<and>
    hash_len t' = hash_len t - (if hash_table_get t k = None then 0 else 1)"
  using without_key_correct[OF assms, of k]
  by (intro exI[of _ "without_key k t"])
    (simp add: hash_table_del_eq hash_table_get_del_eq hash_len_def split: option.split)

theorem hash_table_del_correct_witness:
  "\<exists>t'. hash_table_del hash_example ''TCP'' = (0, [2], t') \<and> hash_inv t' \<and>
     hash_table_get t' = Map.empty"
  using hash_table_del_correct[OF hash_example_correct(1), of "''TCP''"] hash_example_correct(2)
  by auto

text \<open>
  iterating over a well-formed table (\<open>HASH_FOREACH\<close>) ends, visits exactly the entries of the
  table, each key once, and visits as many elements as the table counts; the array that
  \<open>hash_array\<close> allocates for that count is filled exactly and comes out sorted by key without
  repetition.
\<close>

lemma hash_iteration_complete:
  assumes "hash_inv t"
  shows "\<exists>es. hash_foreach t = Some es \<and> distinct (map elem_key es) \<and>
    (\<forall>k v. hash_table_get t k = Some v \<longleftrightarrow> (\<exists>e \<in> set es. elem_key e = k \<and> elem_value e = v)) \<and>
    int (length es) = hash_len t \<and>
    (\<exists>a. hash_array t = Some a \<and> mset a = mset es \<and> sorted_wrt (<) (map elem_key a))"
proof -
  let ?es = "hash_elements t"
  have d: "distinct (map elem_key ?es)" by (rule hash_keys_distinct[OF assms])
  have "hash_table_get t k = Some v \<longleftrightarrow> (\<exists>e \<in> set ?es. elem_key e = k \<and> elem_value e = v)" for k v
  proof -
    have "distinct (map fst (map kv_pair ?es))" using d by simp
    then show ?thesis unfolding hash_table_get_elements[OF assms]
      by (auto simp: map_of_eq_Some_iff kv_pair_def image_iff)
  qed
  moreover have "sorted_wrt (<) (map elem_key (sort_key elem_key ?es))"
    using d sorted_sort_key[of elem_key ?es]
    by (simp add: strict_sorted_iff distinct_map)
  ultimately show ?thesis using d assms
    by (auto simp: hash_foreach_eq hash_array_eq hash_len_def hash_invD(4))
qed

text \<open>
  the counters the caster keeps per address or user. On a table of positive counters,
  incrementing returns the new count and adds one to that key only; decrementing never fails its
  assertion, takes one from that key only (never below zero) and removes the entry exactly when
  the count reaches zero; both keep all counters positive. So increments and decrements cancel.
\<close>

lemma hash_counters_correct:
  assumes "counter_inv t"
  shows "fst (hash_table_incr True True t k) = counter_of t k + 1 \<and>
    counter_inv (snd (hash_table_incr True True t k)) \<and>
    counter_of (snd (hash_table_incr True True t k)) = (counter_of t)(k := counter_of t k + 1) \<and>
    (\<exists>t'. hash_table_decr t k = Some t' \<and> counter_inv t' \<and>
       counter_of t' = (counter_of t)(k := max 0 (counter_of t k - 1)) \<and>
       (hash_table_get t' k = None \<longleftrightarrow> counter_of t k \<le> 1)) \<and>
    (\<exists>t''. hash_table_decr (snd (hash_table_incr True True t k)) k = Some t'' \<and>
       counter_of t'' = counter_of t)"
proof -
  note i = hash_table_incr_correct[OF assms, of k]
  have "0 \<le> counter_of t k"
    using counter_inv_Some[OF assms, of k] by (auto simp: counter_of_def split: option.split)
  with i hash_table_decr_correct[OF i(2), of k] hash_table_decr_correct[OF assms, of k] show ?thesis
    by (auto simp: fun_eq_iff)
qed

text \<open>
  Updating one well-formed table with the entries of another (all allocations succeeding)
  leaves every entry of the first table as it is and adds the entries of the second whose keys
  were missing: the union of the two maps in which the first takes precedence.
\<close>

lemma hash_table_update_correct:
  assumes "hash_inv t" "hash_inv u"
  shows "\<exists>t'. hash_table_update (\<lambda>_. True) t u = Some t' \<and> hash_inv t' \<and>
    hash_table_get t' = hash_table_get u ++ hash_table_get t"
proof -
  let ?t = "hash_add_all (\<lambda>_. True) (hash_elements u) t"
  have "hash_inv ?t \<and> hash_table_get ?t x = (hash_table_get u ++ hash_table_get t) x" for x
    unfolding hash_add_all_fold using hash.add_list[OF assms(1), of "map kv_pair (hash_elements u)" x]
    by (simp add: map_add_def hash_table_get_elements[OF assms(2)] split: option.splits)
  then have "hash_inv ?t" "hash_table_get ?t = hash_table_get u ++ hash_table_get t" by auto
  then show ?thesis by (simp add: hash_table_update_def hash_foreach_eq[OF assms(2)])
qed

end
