(* ===== verification/Rtcm_Types.thy ===== *)
theory Rtcm_Types
  imports Bitfield HashTable
begin

text \<open>
  The sets of RTCM message types of \<^verbatim>\<open>caster/rtcm.c\<close>: two bit fields for the types 1000-1230
  and 4000-4095, membership and insertion, the parser and printer of comma-separated type lists,
  and the derivation of the navigation system string of a source from the types it has sent.
\<close>

subsection \<open>Type sets\<close>

abbreviation RTCM_1K_MIN :: int where "RTCM_1K_MIN \<equiv> 1000"
abbreviation RTCM_1K_MAX :: int where "RTCM_1K_MAX \<equiv> 1230"
abbreviation RTCM_4K_MIN :: int where "RTCM_4K_MIN \<equiv> 4000"
abbreviation RTCM_4K_MAX :: int where "RTCM_4K_MAX \<equiv> 4095"

record rtcm_typeset =
  set1k :: "byte list"
  set4k :: "byte list"

text \<open>The arrays have \<open>(MAX-MIN+8)>>3\<close> bytes, 29 and 12.\<close>

definition rtcm_typeset_init :: rtcm_typeset where
  "rtcm_typeset_init =
     \<lparr>set1k = replicate (nat ((RTCM_1K_MAX - RTCM_1K_MIN + 8) div 8)) 0,
      set4k = replicate (nat ((RTCM_4K_MAX - RTCM_4K_MIN + 8) div 8)) 0\<rparr>"

definition rtcm_typeset_check :: "rtcm_typeset \<Rightarrow> int \<Rightarrow> bool option" where
  "rtcm_typeset_check this type =
     (if type \<ge> RTCM_1K_MIN \<and> type \<le> RTCM_1K_MAX
      then getbit_atomic (set1k this) (nat (type - RTCM_1K_MIN))
      else if type \<ge> RTCM_4K_MIN \<and> type \<le> RTCM_4K_MAX
      then getbit_atomic (set4k this) (nat (type - RTCM_4K_MIN))
      else Some False)"

text \<open>Return code \<open>0\<close> or \<open>-1\<close> and the set.\<close>

definition rtcm_typeset_set :: "rtcm_typeset \<Rightarrow> int \<Rightarrow> (int \<times> rtcm_typeset) option" where
  "rtcm_typeset_set this type =
     (if type \<ge> RTCM_1K_MIN \<and> type \<le> RTCM_1K_MAX
      then do { d \<leftarrow> setbit_atomic (set1k this) (nat (type - RTCM_1K_MIN)); Some (0, this\<lparr>set1k := d\<rparr>) }
      else if type \<ge> RTCM_4K_MIN \<and> type \<le> RTCM_4K_MAX
      then do { d \<leftarrow> setbit_atomic (set4k this) (nat (type - RTCM_4K_MIN)); Some (0, this\<lparr>set4k := d\<rparr>) }
      else Some (- 1, this))"

text \<open>
  The scan of a type list: \<open>typestr\<close> collects at most 4 characters of a field; at a comma or at
  the end of the string the field is converted and added. The flag of the result tells success.
\<close>

fun parse_types :: "rtcm_typeset \<Rightarrow> cstring \<Rightarrow> cstring \<Rightarrow> (bool \<times> rtcm_typeset) option" where
  "parse_types t typestr [] =
     (case c_sscanf_d typestr of
        None \<Rightarrow> Some (False, t)
      | Some type \<Rightarrow> do { (r, t') \<leftarrow> rtcm_typeset_set t type; Some (\<not> r < 0, t') })"
| "parse_types t typestr (c # typelist) =
     (if c = CHR '','' then
        (case c_sscanf_d typestr of
           None \<Rightarrow> Some (False, t)
         | Some type \<Rightarrow> do {
             (r, t') \<leftarrow> rtcm_typeset_set t type;
             if r < 0 then Some (False, t') else parse_types t' [] typelist })
      else parse_types t (if length typestr < 5 - 1 then typestr @ [c] else typestr) typelist)"

definition rtcm_typeset_parse :: "rtcm_typeset \<Rightarrow> cstring \<Rightarrow> (int \<times> rtcm_typeset) option" where
  "rtcm_typeset_parse this typelist =
     (if typelist = [] then Some (0, rtcm_typeset_init)
      else do {
        (ok, t) \<leftarrow> parse_types rtcm_typeset_init [] typelist;
        Some (if ok then (0, t) else (- 1, this))
      })"

text \<open>The types of a range that are in the set, ascending, as the two printing loops meet them.\<close>

fun checked_types :: "rtcm_typeset \<Rightarrow> int list \<Rightarrow> int list option" where
  "checked_types this [] = Some []"
| "checked_types this (i # is) = do {
     b \<leftarrow> rtcm_typeset_check this i;
     r \<leftarrow> checked_types this is;
     Some (if b then i # r else r)
   }"

text \<open>
  \<open>rtcm_typeset_str\<close>: every entry is printed by \<open>snprintf(rp, 6, "%d,", i)\<close> and \<open>rp\<close> moves by 5,
  the last comma is overwritten by the terminator. The result is the string.
\<close>

definition rtcm_typeset_str :: "rtcm_typeset \<Rightarrow> cstring option" where
  "rtcm_typeset_str this = do {
     l1 \<leftarrow> checked_types this [RTCM_1K_MIN .. RTCM_1K_MAX];
     l4 \<leftarrow> checked_types this [RTCM_4K_MIN .. RTCM_4K_MAX];
     let n = length l1 + length l4;
     let r = concat (map (\<lambda>i. take 5 (c_show_nat (nat i) @ '','')) (l1 @ l4));
     Some (if n \<noteq> 0 then butlast r else [])
   }"

text \<open>Result of \<open>rtcm_typeset_check_range\<close>: whether a type between \<open>lo\<close> and \<open>hi\<close> is in the set.\<close>

fun check_any :: "rtcm_typeset \<Rightarrow> int list \<Rightarrow> bool option" where
  "check_any this [] = Some False"
| "check_any this (i # is) = do {
     b \<leftarrow> rtcm_typeset_check this i;
     if b then Some True else check_any this is
   }"

definition rtcm_typeset_check_range :: "rtcm_typeset \<Rightarrow> int \<Rightarrow> int \<Rightarrow> bool option" where
  "rtcm_typeset_check_range this lo hi = check_any this [lo..hi]"

text \<open>
  \<open>a || b\<close> evaluates \<open>b\<close> only if \<open>a\<close> is false.
\<close>

definition c_or :: "bool option \<Rightarrow> bool option \<Rightarrow> bool option" where
  "c_or a b = do { x \<leftarrow> a; if x then Some True else b }"

definition rtcm_info_get_nav_system :: "rtcm_typeset \<Rightarrow> cstring option option" where
  "rtcm_info_get_nav_system ts = do {
     gps \<leftarrow> c_or (c_or (rtcm_typeset_check_range ts 1001 1004) (rtcm_typeset_check ts 1019))
               (rtcm_typeset_check_range ts 1071 1077);
     glo \<leftarrow> c_or (c_or (rtcm_typeset_check_range ts 1009 1012) (rtcm_typeset_check ts 1020))
               (rtcm_typeset_check_range ts 1081 1087);
     gal \<leftarrow> c_or (c_or (rtcm_typeset_check ts 1045) (rtcm_typeset_check ts 1046))
               (rtcm_typeset_check_range ts 1091 1097);
     bds \<leftarrow> c_or (rtcm_typeset_check ts 1042) (rtcm_typeset_check_range ts 1121 1127);
     qzs \<leftarrow> c_or (rtcm_typeset_check ts 1044) (rtcm_typeset_check_range ts 1111 1117);
     sbas \<leftarrow> rtcm_typeset_check_range ts 1101 1107;
     if \<not> gps \<and> \<not> glo \<and> \<not> gal \<and> \<not> bds \<and> \<not> qzs \<and> \<not> sbas then Some None
     else
       let buf = (if gps then ''GPS+'' else []) @ (if glo then ''GLO+'' else [])
         @ (if gal then ''GAL+'' else []) @ (if bds then ''BDS+'' else [])
         @ (if qzs then ''QZS+'' else []) @ (if sbas then ''SBAS+'' else [])
       in Some (Some (butlast (take 31 buf)))
   }"

subsection \<open>The contract of a set with checked insertion\<close>

text \<open>
  The client view of a type set: membership is total on well-formed sets, insertion of a valid
  element returns \<open>0\<close> and adds exactly that element, an invalid one is refused with \<open>-1\<close>.
\<close>

locale checked_set =
  fixes invar :: "'s \<Rightarrow> bool" and valid :: "'a \<Rightarrow> bool"
    and member :: "'s \<Rightarrow> 'a \<Rightarrow> bool option"
    and insert_elem :: "'s \<Rightarrow> 'a \<Rightarrow> (int \<times> 's) option"
    and empty_set :: 's
  assumes empty_invar: "invar empty_set"
    and empty_member: "member empty_set x = Some False"
    and member_total: "invar s \<Longrightarrow> member s x \<noteq> None"
    and member_valid: "member s x = Some True \<Longrightarrow> valid x"
    and insert_invalid: "\<not> valid x \<Longrightarrow> insert_elem s x = Some (- 1, s)"
    and insert_valid: "invar s \<Longrightarrow> valid x \<Longrightarrow> \<exists>s'. insert_elem s x = Some (0, s') \<and> invar s' \<and>
          (\<forall>y. member s' y = Some (y = x \<or> member s y = Some True))"
    and set_ext: "invar s \<Longrightarrow> invar s' \<Longrightarrow> (\<And>x. member s x = member s' x) \<Longrightarrow> s = s'"
begin

fun insert_all :: "'s \<Rightarrow> 'a list \<Rightarrow> (bool \<times> 's) option" where
  "insert_all s [] = Some (True, s)"
| "insert_all s (x # xs) = do {
     (r, s') \<leftarrow> insert_elem s x;
     if r < 0 then Some (False, s') else insert_all s' xs
   }"

lemma member_self: "invar s \<Longrightarrow> member s x = Some (member s x = Some True)"
  using member_total[of s x] by (cases "member s x") auto

lemma insert_all_valid:
  "invar s \<Longrightarrow> \<forall>x \<in> set xs. valid x \<Longrightarrow> \<exists>s'. insert_all s xs = Some (True, s') \<and> invar s' \<and>
     (\<forall>y. member s' y = Some (y \<in> set xs \<or> member s y = Some True))"
proof (induction xs arbitrary: s)
  case Nil
  then show ?case using member_self[OF Nil(1)] by auto
next
  case (Cons x xs)
  from insert_valid[of s x] Cons.prems obtain s1 where
    s1: "insert_elem s x = Some (0, s1)" "invar s1" "\<forall>y. member s1 y = Some (y = x \<or> member s y = Some True)"
    by auto
  with Cons.IH[of s1] Cons.prems show ?case by auto
qed

lemma insert_all_elements:
  assumes "invar s" "\<And>y. member s y = Some True \<longleftrightarrow> y \<in> set xs"
  shows "insert_all empty_set xs = Some (True, s)"
proof -
  have "\<forall>x \<in> set xs. valid x" using assms(2) member_valid by blast
  then obtain s' where s': "insert_all empty_set xs = Some (True, s')" "invar s'"
    "\<forall>y. member s' y = Some (y \<in> set xs \<or> member empty_set y = Some True)"
    using insert_all_valid[OF empty_invar] by blast
  have "member s' y = member s y" for y
    using s'(3) empty_member[of y] member_self[OF assms(1), of y, unfolded assms(2)] by simp
  then have "s' = s" using set_ext[OF s'(2) assms(1)] by blast
  with s'(1) show ?thesis by simp
qed

end

subsection \<open>Type sets keep the contract\<close>

definition valid_type :: "int \<Rightarrow> bool" where
  "valid_type type \<longleftrightarrow> (RTCM_1K_MIN \<le> type \<and> type \<le> RTCM_1K_MAX) \<or> (RTCM_4K_MIN \<le> type \<and> type \<le> RTCM_4K_MAX)"

text \<open>Both arrays have their size and the padding bit of the first, number 231, is clear.\<close>

definition typeset_wf :: "rtcm_typeset \<Rightarrow> bool" where
  "typeset_wf t \<longleftrightarrow> length (set1k t) = 29 \<and> length (set4k t) = 12 \<and> \<not> bit (set1k t ! 28) 7"

lemma typeset_check_eq:
  assumes "length (set1k t) = 29" "length (set4k t) = 12"
  shows "rtcm_typeset_check t i = Some (
    if RTCM_1K_MIN \<le> i \<and> i \<le> RTCM_1K_MAX then bit (set1k t ! (nat (i - 1000) div 8)) (nat (i - 1000) mod 8)
    else RTCM_4K_MIN \<le> i \<and> i \<le> RTCM_4K_MAX \<and> bit (set4k t ! (nat (i - 4000) div 8)) (nat (i - 4000) mod 8))"
proof -
  have "RTCM_1K_MIN \<le> i \<Longrightarrow> i \<le> RTCM_1K_MAX \<Longrightarrow> nat (i - 1000) < 8 * length (set1k t)"
    "RTCM_4K_MIN \<le> i \<Longrightarrow> i \<le> RTCM_4K_MAX \<Longrightarrow> nat (i - 4000) < 8 * length (set4k t)"
    using assms by simp_all
  then show ?thesis using getbit_atomic_eq by (auto simp: rtcm_typeset_check_def)
qed

lemma typeset_set_1k:
  assumes t: "typeset_wf t" and i: "RTCM_1K_MIN \<le> i" "i \<le> RTCM_1K_MAX"
  shows "\<exists>t'. rtcm_typeset_set t i = Some (0, t') \<and> typeset_wf t' \<and>
    (\<forall>y. rtcm_typeset_check t' y = Some (y = i \<or> rtcm_typeset_check t y = Some True))"
proof -
  have l: "length (set1k t) = 29" "length (set4k t) = 12" using t by (simp_all add: typeset_wf_def)
  let ?n = "nat (i - 1000)"
  have n: "?n < 8 * length (set1k t)" using i l by simp
  obtain d where d: "setbit_atomic (set1k t) ?n = Some d" "length d = 29"
    using getbit_setbit_atomic[OF n n] l by auto
  have g: "getbit_atomic d j = Some (?n = j \<or> bit (set1k t ! (j div 8)) (j mod 8))" if "j < 232" for j
    using getbit_setbit_atomic[OF n, of j] that l d by auto
  have "?n \<noteq> 231" using i by auto
  then have pad: "\<not> bit (d ! 28) 7" using g[of 231] d t by (simp add: getbit_atomic_eq typeset_wf_def)
  have "rtcm_typeset_check (t\<lparr>set1k := d\<rparr>) y = Some (y = i \<or> rtcm_typeset_check t y = Some True)" for y
  proof (cases "1000 \<le> y \<and> y \<le> 1230")
    case True
    then have "(?n = nat (y - 1000)) = (y = i)" "nat (y - 1000) < 232" using i by auto
    with True g[of "nat (y - 1000)"] typeset_check_eq[OF l, of y] show ?thesis
      by (simp add: rtcm_typeset_check_def)
  next
    case False
    then have "y \<noteq> i" using i by auto
    with False l show ?thesis by (auto simp: typeset_check_eq d)
  qed
  with pad d l i show ?thesis by (simp add: rtcm_typeset_set_def typeset_wf_def)
qed

lemma typeset_set_4k:
  assumes t: "typeset_wf t" and i: "RTCM_4K_MIN \<le> i" "i \<le> RTCM_4K_MAX"
  shows "\<exists>t'. rtcm_typeset_set t i = Some (0, t') \<and> typeset_wf t' \<and>
    (\<forall>y. rtcm_typeset_check t' y = Some (y = i \<or> rtcm_typeset_check t y = Some True))"
proof -
  have l: "length (set1k t) = 29" "length (set4k t) = 12" using t by (simp_all add: typeset_wf_def)
  let ?n = "nat (i - 4000)"
  have n: "?n < 8 * length (set4k t)" using i l by simp
  obtain d where d: "setbit_atomic (set4k t) ?n = Some d" "length d = 12"
    using getbit_setbit_atomic[OF n n] l by auto
  have g: "getbit_atomic d j = Some (?n = j \<or> bit (set4k t ! (j div 8)) (j mod 8))" if "j < 96" for j
    using getbit_setbit_atomic[OF n, of j] that l d by auto
  have "rtcm_typeset_check (t\<lparr>set4k := d\<rparr>) y = Some (y = i \<or> rtcm_typeset_check t y = Some True)" for y
  proof (cases "4000 \<le> y \<and> y \<le> 4095")
    case True
    then have "(?n = nat (y - 4000)) = (y = i)" "nat (y - 4000) < 96" using i by auto
    with True g[of "nat (y - 4000)"] typeset_check_eq[OF l, of y] show ?thesis
      by (simp add: rtcm_typeset_check_def)
  next
    case False
    then have "y \<noteq> i" using i by auto
    with False l show ?thesis by (auto simp: typeset_check_eq d)
  qed
  with d l t i show ?thesis by (simp add: rtcm_typeset_set_def typeset_wf_def)
qed

lemma bytes_eqI:
  assumes "length d = n" "length d' = n" "\<And>k. k < 8 * n \<Longrightarrow> bit (d ! (k div 8)) (k mod 8) = bit (d' ! (k div 8)) (k mod 8)"
  shows "d = (d' :: byte list)"
proof (rule nth_equalityI)
  fix i assume i: "i < length d"
  show "d ! i = d' ! i"
  proof (rule bit_word_eqI)
    fix j assume "j < LENGTH(8)"
    then have "j < 8" by simp
    with assms(3)[of "8 * i + j"] i assms(1) show "bit (d ! i) j = bit (d' ! i) j"
      by (simp add: byte_index)
  qed
qed (use assms in simp)

lemma typeset_ext:
  assumes t: "typeset_wf t" and t': "typeset_wf t'"
    and e: "\<And>i. rtcm_typeset_check t i = rtcm_typeset_check t' i"
  shows "t = t'"
proof -
  have l: "length (set1k t) = 29" "length (set4k t) = 12" "length (set1k t') = 29" "length (set4k t') = 12"
    using t t' by (simp_all add: typeset_wf_def)
  have "set1k t = set1k t'"
  proof (rule bytes_eqI[OF l(1,3)])
    fix k :: nat assume k: "k < 8 * 29"
    show "bit (set1k t ! (k div 8)) (k mod 8) = bit (set1k t' ! (k div 8)) (k mod 8)"
    proof (cases "k = 231")
      case True
      then show ?thesis using t t' by (simp add: typeset_wf_def)
    next
      case False
      with k have "int k \<le> 230" by simp
      then show ?thesis using e[of "1000 + int k"] l by (simp add: typeset_check_eq)
    qed
  qed
  moreover have "set4k t = set4k t'"
  proof (rule bytes_eqI[OF l(2,4)])
    fix k :: nat assume "k < 8 * 12"
    then have "int k \<le> 95" by simp
    then show "bit (set4k t ! (k div 8)) (k mod 8) = bit (set4k t' ! (k div 8)) (k mod 8)"
      using e[of "4000 + int k"] l by (simp add: typeset_check_eq)
  qed
  ultimately show ?thesis by simp
qed

lemma typeset_init_check: "rtcm_typeset_check rtcm_typeset_init i = Some False"
proof -
  have z: "n < 8 * k \<Longrightarrow> replicate k 0 ! (n div 8) = (0 :: byte)" for n k
    by (simp add: less_mult_imp_div_less)
  have "i \<le> RTCM_1K_MAX \<Longrightarrow> nat (i - 1000) < 8 * 29" "i \<le> RTCM_4K_MAX \<Longrightarrow> nat (i - 4000) < 8 * 12" by auto
  then show ?thesis using z
    by (subst typeset_check_eq) (auto simp: rtcm_typeset_init_def)
qed

lemma typeset_init_wf: "typeset_wf rtcm_typeset_init"
  by (simp add: typeset_wf_def rtcm_typeset_init_def)

interpretation types: checked_set typeset_wf valid_type rtcm_typeset_check rtcm_typeset_set rtcm_typeset_init
proof unfold_locales
  show "typeset_wf rtcm_typeset_init" by (rule typeset_init_wf)
next
  fix i show "rtcm_typeset_check rtcm_typeset_init i = Some False" by (rule typeset_init_check)
next
  fix t i assume "typeset_wf t" then show "rtcm_typeset_check t i \<noteq> None"
    by (simp add: typeset_check_eq typeset_wf_def)
next
  fix t i assume "rtcm_typeset_check t i = Some True" then show "valid_type i"
    by (auto simp: rtcm_typeset_check_def valid_type_def split: if_splits)
next
  fix t i assume "\<not> valid_type i" then show "rtcm_typeset_set t i = Some (- 1, t)"
    by (auto simp: rtcm_typeset_set_def valid_type_def)
next
  fix t i assume "typeset_wf t" "valid_type i"
  then show "\<exists>t'. rtcm_typeset_set t i = Some (0, t') \<and> typeset_wf t' \<and>
    (\<forall>y. rtcm_typeset_check t' y = Some (y = i \<or> rtcm_typeset_check t y = Some True))"
    using typeset_set_1k typeset_set_4k unfolding valid_type_def by blast
next
  fix t t' assume "typeset_wf t" "typeset_wf t'" "\<And>i. rtcm_typeset_check t i = rtcm_typeset_check t' i"
  then show "t = t'" by (rule typeset_ext)
qed

subsection \<open>Type lists\<close>

lemma parse_types_field:
  "\<forall>c \<in> set s. c \<noteq> CHR '','' \<Longrightarrow> length typestr + length s \<le> 4 \<Longrightarrow>
   parse_types t typestr (s @ r) = parse_types t (typestr @ s) r"
  by (induction s arbitrary: typestr) auto

lemma show_type_length: "1000 \<le> n \<Longrightarrow> n < 10000 \<Longrightarrow> length (c_show_nat n) = 4"
proof -
  have len: "length (c_show_nat k) = (if k < 10 then 1 else Suc (length (c_show_nat (k div 10))))" for k
    by (subst c_show_nat.simps) simp
  assume "1000 \<le> n" "n < 10000"
  then have "\<not> n < 10" "\<not> n div 10 < 10" "\<not> n div 10 div 10 < 10" "n div 10 div 10 div 10 < 10" by simp_all
  then show ?thesis using len[of n] len[of "n div 10"] len[of "n div 10 div 10"] len[of "n div 10 div 10 div 10"]
    by simp
qed

lemma valid_type_range: "valid_type i \<Longrightarrow> 1000 \<le> i \<and> i < 10000"
  by (auto simp: valid_type_def)

lemma parse_types_show:
  assumes "valid_type i"
  shows "parse_types t [] (c_show_nat (nat i) @ r) = parse_types t (c_show_nat (nat i)) r"
    and "c_sscanf_d (c_show_nat (nat i)) = Some i"
    and "take 5 (c_show_nat (nat i) @ '','') = c_show_nat (nat i) @ '',''"
proof -
  have i: "1000 \<le> i" "i < 10000" using valid_type_range[OF assms] by auto
  then have l: "length (c_show_nat (nat i)) = 4" using show_type_length[of "nat i"] by simp
  have "\<forall>c \<in> set (c_show_nat (nat i)). c \<noteq> CHR '',''"
    using c_show_nat_digits[of "nat i"] digit_char_props(6) by metis
  with l show "parse_types t [] (c_show_nat (nat i) @ r) = parse_types t (c_show_nat (nat i)) r"
    using parse_types_field[of "c_show_nat (nat i)" "[]" t r] by simp
  show "c_sscanf_d (c_show_nat (nat i)) = Some i" using i by (simp add: c_sscanf_d_def c_int_id)
  show "take 5 (c_show_nat (nat i) @ '','') = c_show_nat (nat i) @ '',''" using l by simp
qed

lemma parse_types_list:
  "is \<noteq> [] \<Longrightarrow> \<forall>i \<in> set is. valid_type i \<Longrightarrow>
   parse_types t [] (butlast (concat (map (\<lambda>i. c_show_nat (nat i) @ '','') is))) = types.insert_all t is"
proof (induction "is" arbitrary: t)
  case (Cons i "is")
  have v: "valid_type i" using Cons.prems by simp
  show ?case
  proof (cases "is")
    case Nil
    with parse_types_show(1)[OF v, of t "[]"] parse_types_show(2)[OF v] show ?thesis
      by (cases "rtcm_typeset_set t i") (auto simp: butlast_append)
  next
    case (Cons j js)
    let ?r = "concat (map (\<lambda>i. c_show_nat (nat i) @ '','') is)"
    have ne: "?r \<noteq> []" using Cons by simp
    have "butlast (concat (map (\<lambda>i. c_show_nat (nat i) @ '','') (i # is))) = c_show_nat (nat i) @ CHR '','' # butlast ?r"
      using ne by (simp add: butlast_append)
    with parse_types_show(1)[OF v, of t "CHR '','' # butlast ?r"] parse_types_show(2)[OF v] Cons.IH Cons.prems Cons
    show ?thesis
      by (cases "rtcm_typeset_set t i") auto
  qed
qed simp

lemma checked_types_filter:
  "typeset_wf t \<Longrightarrow> checked_types t is = Some (filter (\<lambda>i. rtcm_typeset_check t i = Some True) is)"
proof (induction "is")
  case (Cons i "is")
  then show ?case using types.member_total[of t i] by (cases "rtcm_typeset_check t i") auto
qed simp

lemma check_any_iff:
  "typeset_wf t \<Longrightarrow> check_any t is = Some (\<exists>i \<in> set is. rtcm_typeset_check t i = Some True)"
proof (induction "is")
  case (Cons i "is")
  then show ?case using types.member_total[of t i] by (cases "rtcm_typeset_check t i") auto
qed simp

lemma typeset_str_eq:
  assumes "typeset_wf t"
  obtains l where "rtcm_typeset_str t = Some (if l = [] then [] else
      butlast (concat (map (\<lambda>i. c_show_nat (nat i) @ '','') l)))"
    "\<And>i. rtcm_typeset_check t i = Some True \<longleftrightarrow> i \<in> set l" "sorted l" "\<forall>i \<in> set l. valid_type i"
proof
  let ?p = "\<lambda>i. rtcm_typeset_check t i = Some True"
  let ?l = "filter ?p [1000..1230] @ filter ?p [4000..4095]"
  show e: "?p i \<longleftrightarrow> i \<in> set ?l" for i
    using types.member_valid[of t i] unfolding valid_type_def set_append set_filter set_upto by auto
  show v: "\<forall>i \<in> set ?l. valid_type i" using types.member_valid e by blast
  have srt: "b < c \<Longrightarrow> sorted (filter ?p [a..b] @ filter ?p [c..d])" for a b c d
    by (auto simp: sorted_append sorted_wrt_filter)
  show "sorted ?l" by (rule srt) simp
  have m: "map (\<lambda>i. take 5 (c_show_nat (nat i) @ '','')) ?l = map (\<lambda>i. c_show_nat (nat i) @ '','') ?l"
    by (rule map_cong[OF refl]) (use parse_types_show(3) v in blast)
  show "rtcm_typeset_str t = Some (if ?l = [] then [] else
      butlast (concat (map (\<lambda>i. c_show_nat (nat i) @ '','') ?l)))"
    unfolding rtcm_typeset_str_def checked_types_filter[OF assms] bind.bind_lunit Let_def m
    by (simp del: upto_rec_numeral)
qed

lemma parse_types_wf:
  "typeset_wf t \<Longrightarrow> \<exists>ok t'. parse_types t typestr s = Some (ok, t') \<and> typeset_wf t'"
proof (induction t typestr s rule: parse_types.induct)
  case (1 t typestr)
  show ?case
  proof (cases "c_sscanf_d typestr")
    case None
    with 1 show ?thesis by auto
  next
    case (Some type)
    then show ?thesis using 1 types.insert_valid[of t type] types.insert_invalid[of type t]
      by (cases "valid_type type") auto
  qed
next
  case (2 t typestr c s)
  show ?case
  proof (cases "c = CHR '',''")
    case False
    with 2 show ?thesis by auto
  next
    case True
    show ?thesis
    proof (cases "c_sscanf_d typestr")
      case None
      with True 2 show ?thesis by auto
    next
      case (Some type)
      then show ?thesis using True 2 types.insert_valid[of t type] types.insert_invalid[of type t]
        by (cases "valid_type type") (fastforce)+
    qed
  qed
qed

subsection \<open>Properties of the type sets\<close>

text \<open>
  Inserting a type in a well-formed set stays inside the two arrays and keeps the set
  well-formed; the set then contains exactly the former types and the new one. A type outside the
  ranges 1000-1230 and 4000-4095 is refused with \<open>-1\<close> and leaves the set as it was.
\<close>

lemma rtcm_typeset_set_correct:
  assumes "typeset_wf t"
  shows "if valid_type type
    then \<exists>t'. rtcm_typeset_set t type = Some (0, t') \<and> typeset_wf t' \<and>
      (\<forall>i. rtcm_typeset_check t' i = Some (i = type \<or> rtcm_typeset_check t i = Some True))
    else rtcm_typeset_set t type = Some (- 1, t)"
  using types.insert_valid[OF assms] types.insert_invalid by simp

text \<open>
  Printing a well-formed set and parsing the resulting comma-separated list gives the set
  back, whatever the previous contents of the destination.
\<close>

lemma rtcm_typeset_roundtrip:
  assumes "typeset_wf t"
  shows "\<exists>s. rtcm_typeset_str t = Some s \<and> rtcm_typeset_parse this s = Some (0, t)"
proof -
  obtain l where l: "rtcm_typeset_str t = Some (if l = [] then [] else
      butlast (concat (map (\<lambda>i. c_show_nat (nat i) @ '','') l)))"
    "\<And>i. rtcm_typeset_check t i = Some True \<longleftrightarrow> i \<in> set l" "\<forall>i \<in> set l. valid_type i"
    using typeset_str_eq[OF assms] by metis
  have ins: "types.insert_all rtcm_typeset_init l = Some (True, t)"
    using types.insert_all_elements[OF assms l(2)] .
  show ?thesis
  proof (cases "l = []")
    case True
    with ins l(1) show ?thesis by (simp add: rtcm_typeset_parse_def)
  next
    case False
    let ?s = "butlast (concat (map (\<lambda>i. c_show_nat (nat i) @ '','') l))"
    from False have "?s \<noteq> []" by (cases l) (auto simp: butlast_append)
    with False l(1) ins parse_types_list[OF False l(3)] show ?thesis by (simp add: rtcm_typeset_parse_def)
  qed
qed

text \<open>The constellations of a type set, in the order the string lists them.\<close>

definition nav_systems :: "rtcm_typeset \<Rightarrow> cstring list" where
  "nav_systems t =
     (let has = \<lambda>l. \<exists>i \<in> set l. rtcm_typeset_check t i = Some True
      in map fst (filter snd
        [(''GPS'', has ([1001..1004] @ [1019] @ [1071..1077])),
         (''GLO'', has ([1009..1012] @ [1020] @ [1081..1087])),
         (''GAL'', has ([1045, 1046] @ [1091..1097])),
         (''BDS'', has ([1042] @ [1121..1127])),
         (''QZS'', has ([1044] @ [1111..1117])),
         (''SBAS'', has [1101..1107])]))"

fun join_plus :: "cstring list \<Rightarrow> cstring" where
  "join_plus [] = []"
| "join_plus [s] = s"
| "join_plus (s # t # r) = s @ ''+'' @ join_plus (t # r)"

lemma c_or_Some: "c_or (Some a) (Some b) = Some (a \<or> b)"
  by (simp add: c_or_def)

lemma check_range_Some:
  "typeset_wf t \<Longrightarrow> rtcm_typeset_check_range t lo hi = Some (\<exists>i \<in> {lo..hi}. rtcm_typeset_check t i = Some True)"
  by (simp add: rtcm_typeset_check_range_def check_any_iff)

lemma nav_string:
  "(if \<not> a \<and> \<not> b \<and> \<not> c \<and> \<not> d \<and> \<not> e \<and> \<not> f then Some None
    else let buf = (if a then ''GPS+'' else []) @ (if b then ''GLO+'' else [])
         @ (if c then ''GAL+'' else []) @ (if d then ''BDS+'' else [])
         @ (if e then ''QZS+'' else []) @ (if f then ''SBAS+'' else [])
       in Some (Some (butlast (take 31 buf)))) =
   (let l = map fst (filter snd [(''GPS'', a), (''GLO'', b), (''GAL'', c), (''BDS'', d), (''QZS'', e), (''SBAS'', f)])
    in Some (if l = [] then None else Some (join_plus l)))"
  by (cases a; cases b; cases c; cases d; cases e; cases f) simp_all

text \<open>
  The navigation system string of a source is the list of the constellations whose message
  types the source has sent, in a fixed order and separated by a plus sign (the 32 byte buffer
  never truncates it); there is no string exactly if none of those types was seen.
\<close>

lemma nav_system_correct:
  assumes "typeset_wf t"
  shows "rtcm_info_get_nav_system t = Some (if nav_systems t = [] then None else Some (join_plus (nav_systems t)))"
proof -
  have c: "rtcm_typeset_check t i = Some (rtcm_typeset_check t i = Some True)" for i
    by (rule types.member_self[OF assms])
  note r = check_range_Some[OF assms]
  show ?thesis
    unfolding rtcm_info_get_nav_system_def r
    by (subst c[of 1019], subst c[of 1020], subst c[of 1045], subst c[of 1046], subst c[of 1042], subst c[of 1044])
      (simp add: c_or_Some nav_string nav_systems_def bex_Un disj_assoc del: upto_rec_numeral)
qed

end
