(* ===== verification/Packet.thy ===== *)
theory Packet
  imports Bitfield
begin

text \<open>
  Reference counting (\<^verbatim>\<open>caster/refcnt.h\<close>) and packets (\<^verbatim>\<open>caster/packet.h\<close>,
  \<^verbatim>\<open>caster/packet.c\<close>). A count is an \<open>int\<close>; a failed assertion is \<^const>\<open>None\<close>.
  A packet is its state, its reference count and its data, whose length is \<open>datalen\<close>.
\<close>

definition refcnt_init :: int where
  "refcnt_init = 1"

definition refcnt_incref :: "int \<Rightarrow> int option" where
  "refcnt_incref n = (if n > 0 then Some (n + 1) else None)"

text \<open>The new count and whether the object is freed.\<close>

definition refcnt_decref :: "int \<Rightarrow> (int \<times> bool) option" where
  "refcnt_decref n = (if n > 0 then Some (n - 1, n = 1) else None)"

datatype packet_state = PACKET_RAW | PACKET_RTCM_UNCHECKED | PACKET_RTCM_CHECKED

record packet =
  pkt_refcnt :: int
  rtcm_state :: packet_state
  pkt_data :: "byte list"

abbreviation datalen :: "packet \<Rightarrow> nat" where
  "datalen p \<equiv> length (pkt_data p)"

text \<open>\<open>packet_new\<close> leaves the data uninitialised: the model takes them as an argument.\<close>

definition packet_new :: "byte list \<Rightarrow> packet" where
  "packet_new d = \<lparr>pkt_refcnt = refcnt_init, rtcm_state = PACKET_RAW, pkt_data = d\<rparr>"

definition packet_new_from_string :: "cstring \<Rightarrow> packet" where
  "packet_new_from_string s = packet_new (map of_char s)"

definition packet_incref :: "packet \<Rightarrow> packet option" where
  "packet_incref p = map_option (\<lambda>n. p\<lparr>pkt_refcnt := n\<rparr>) (refcnt_incref (pkt_refcnt p))"

definition packet_decref :: "packet \<Rightarrow> (packet \<times> bool) option" where
  "packet_decref p = map_option (\<lambda>(n, freed). (p\<lparr>pkt_refcnt := n\<rparr>, freed)) (refcnt_decref (pkt_refcnt p))"

text \<open>A reference taken and released restores the count and frees nothing.\<close>

lemma refcnt_incref_decref: "refcnt_incref n = Some m \<Longrightarrow> refcnt_decref m = Some (n, False)"
  by (auto simp: refcnt_incref_def refcnt_decref_def split: if_splits)

lemma refcnt_last_decref: "refcnt_decref refcnt_init = Some (0, True)"
  by (simp add: refcnt_decref_def refcnt_init_def)

text \<open>
  The contract of objects with a counter of references (\<^verbatim>\<open>caster/refcnt.h\<close>), several of which are in a state: the
  counters move by one, only for an object that is referenced, and what \<open>kept\<close> shows of the state stays. A list of
  references is released one by one.
\<close>

locale refcounted =
  fixes cnt :: "'s \<Rightarrow> 'k \<Rightarrow> int" and valid :: "'s \<Rightarrow> bool" and kept :: "'s \<Rightarrow> 'v"
    and incref decref :: "'k \<Rightarrow> 's \<Rightarrow> 's option" and release :: "'k list \<Rightarrow> 's \<Rightarrow> 's option"
  assumes incref: "incref k s = Some s' \<Longrightarrow> valid s \<Longrightarrow> valid s' \<and> 0 < cnt s k \<and> cnt s' = (cnt s)(k := cnt s k + 1) \<and> kept s' = kept s"
    and decref: "decref k s = Some s' \<Longrightarrow> valid s \<Longrightarrow> valid s' \<and> 0 < cnt s k \<and> cnt s' = (cnt s)(k := cnt s k - 1) \<and> kept s' = kept s"
    and release: "release [] s = Some s" "release (k # ks) s = Option.bind (decref k s) (release ks)"
begin

lemma taken_and_released:
  assumes "incref k s = Some s1" "decref k s1 = Some s2" "valid s"
  shows "valid s2 \<and> cnt s2 = cnt s \<and> kept s2 = kept s"
  using incref[OF assms(1,3)] decref[OF assms(2)] by auto

lemma release_counts:
  "release ks s = Some s' \<Longrightarrow> valid s \<Longrightarrow> valid s' \<and> (\<forall>k. cnt s' k = cnt s k - int (count_list ks k)) \<and> kept s' = kept s"
proof (induction ks arbitrary: s)
  case (Cons k ks)
  then obtain s1 where s1: "decref k s = Some s1" "release ks s1 = Some s'" by (auto simp: release bind_eq_Some_conv)
  with Cons.IH[OF s1(2)] decref[OF s1(1) Cons.prems(2)] show ?case by auto
qed (simp add: release)

lemma release_held: "release ks s = Some s' \<Longrightarrow> valid s \<Longrightarrow> k \<in> set ks \<Longrightarrow> 0 < cnt s k"
proof (induction ks arbitrary: s)
  case (Cons j ks)
  then obtain s1 where s1: "decref j s = Some s1" "release ks s1 = Some s'" by (auto simp: release bind_eq_Some_conv)
  with Cons.IH[OF s1(2)] decref[OF s1(1) Cons.prems(2)] Cons.prems(3) show ?case by (auto split: if_splits)
qed simp

end

end
