(* ===== verification/Rtcm_Crc.thy ===== *)
theory Rtcm_Crc
  imports Packet
begin

text \<open>
  The CRC-24Q checksum of \<^verbatim>\<open>caster/rtcm.c\<close>: the 256 entry table, the byte-wise loop on an
  \<open>unsigned long\<close> accumulator, and the check of a frame that marks the packet. The reference is the
  division by the generator polynomial one bit at a time.
\<close>

subsection \<open>The table-driven checksum\<close>

definition crc24q :: "64 word list" where
  "crc24q =
    [0x00000000, 0x01864cfb, 0x028ad50d, 0x030c99f6, 0x0493e6e1, 0x0515aa1a, 0x061933ec, 0x079f7f17,
     0x08a18139, 0x0927cdc2, 0x0a2b5434, 0x0bad18cf, 0x0c3267d8, 0x0db42b23, 0x0eb8b2d5, 0x0f3efe2e,
     0x10c54e89, 0x11430272, 0x124f9b84, 0x13c9d77f, 0x1456a868, 0x15d0e493, 0x16dc7d65, 0x175a319e,
     0x1864cfb0, 0x19e2834b, 0x1aee1abd, 0x1b685646, 0x1cf72951, 0x1d7165aa, 0x1e7dfc5c, 0x1ffbb0a7,
     0x200cd1e9, 0x218a9d12, 0x228604e4, 0x2300481f, 0x249f3708, 0x25197bf3, 0x2615e205, 0x2793aefe,
     0x28ad50d0, 0x292b1c2b, 0x2a2785dd, 0x2ba1c926, 0x2c3eb631, 0x2db8faca, 0x2eb4633c, 0x2f322fc7,
     0x30c99f60, 0x314fd39b, 0x32434a6d, 0x33c50696, 0x345a7981, 0x35dc357a, 0x36d0ac8c, 0x3756e077,
     0x38681e59, 0x39ee52a2, 0x3ae2cb54, 0x3b6487af, 0x3cfbf8b8, 0x3d7db443, 0x3e712db5, 0x3ff7614e,
     0x4019a3d2, 0x419fef29, 0x429376df, 0x43153a24, 0x448a4533, 0x450c09c8, 0x4600903e, 0x4786dcc5,
     0x48b822eb, 0x493e6e10, 0x4a32f7e6, 0x4bb4bb1d, 0x4c2bc40a, 0x4dad88f1, 0x4ea11107, 0x4f275dfc,
     0x50dced5b, 0x515aa1a0, 0x52563856, 0x53d074ad, 0x544f0bba, 0x55c94741, 0x56c5deb7, 0x5743924c,
     0x587d6c62, 0x59fb2099, 0x5af7b96f, 0x5b71f594, 0x5cee8a83, 0x5d68c678, 0x5e645f8e, 0x5fe21375,
     0x6015723b, 0x61933ec0, 0x629fa736, 0x6319ebcd, 0x648694da, 0x6500d821, 0x660c41d7, 0x678a0d2c,
     0x68b4f302, 0x6932bff9, 0x6a3e260f, 0x6bb86af4, 0x6c2715e3, 0x6da15918, 0x6eadc0ee, 0x6f2b8c15,
     0x70d03cb2, 0x71567049, 0x725ae9bf, 0x73dca544, 0x7443da53, 0x75c596a8, 0x76c90f5e, 0x774f43a5,
     0x7871bd8b, 0x79f7f170, 0x7afb6886, 0x7b7d247d, 0x7ce25b6a, 0x7d641791, 0x7e688e67, 0x7feec29c,
     0x803347a4, 0x81b50b5f, 0x82b992a9, 0x833fde52, 0x84a0a145, 0x8526edbe, 0x862a7448, 0x87ac38b3,
     0x8892c69d, 0x89148a66, 0x8a181390, 0x8b9e5f6b, 0x8c01207c, 0x8d876c87, 0x8e8bf571, 0x8f0db98a,
     0x90f6092d, 0x917045d6, 0x927cdc20, 0x93fa90db, 0x9465efcc, 0x95e3a337, 0x96ef3ac1, 0x9769763a,
     0x98578814, 0x99d1c4ef, 0x9add5d19, 0x9b5b11e2, 0x9cc46ef5, 0x9d42220e, 0x9e4ebbf8, 0x9fc8f703,
     0xa03f964d, 0xa1b9dab6, 0xa2b54340, 0xa3330fbb, 0xa4ac70ac, 0xa52a3c57, 0xa626a5a1, 0xa7a0e95a,
     0xa89e1774, 0xa9185b8f, 0xaa14c279, 0xab928e82, 0xac0df195, 0xad8bbd6e, 0xae872498, 0xaf016863,
     0xb0fad8c4, 0xb17c943f, 0xb2700dc9, 0xb3f64132, 0xb4693e25, 0xb5ef72de, 0xb6e3eb28, 0xb765a7d3,
     0xb85b59fd, 0xb9dd1506, 0xbad18cf0, 0xbb57c00b, 0xbcc8bf1c, 0xbd4ef3e7, 0xbe426a11, 0xbfc426ea,
     0xc02ae476, 0xc1aca88d, 0xc2a0317b, 0xc3267d80, 0xc4b90297, 0xc53f4e6c, 0xc633d79a, 0xc7b59b61,
     0xc88b654f, 0xc90d29b4, 0xca01b042, 0xcb87fcb9, 0xcc1883ae, 0xcd9ecf55, 0xce9256a3, 0xcf141a58,
     0xd0efaaff, 0xd169e604, 0xd2657ff2, 0xd3e33309, 0xd47c4c1e, 0xd5fa00e5, 0xd6f69913, 0xd770d5e8,
     0xd84e2bc6, 0xd9c8673d, 0xdac4fecb, 0xdb42b230, 0xdcddcd27, 0xdd5b81dc, 0xde57182a, 0xdfd154d1,
     0xe026359f, 0xe1a07964, 0xe2ace092, 0xe32aac69, 0xe4b5d37e, 0xe5339f85, 0xe63f0673, 0xe7b94a88,
     0xe887b4a6, 0xe901f85d, 0xea0d61ab, 0xeb8b2d50, 0xec145247, 0xed921ebc, 0xee9e874a, 0xef18cbb1,
     0xf0e37b16, 0xf16537ed, 0xf269ae1b, 0xf3efe2e0, 0xf4709df7, 0xf5f6d10c, 0xf6fa48fa, 0xf77c0401,
     0xf842fa2f, 0xf9c4b6d4, 0xfac82f22, 0xfb4e63d9, 0xfcd11cce, 0xfd575035, 0xfe5bc9c3, 0xffdd8538]"

definition crc24q_step :: "64 word \<Rightarrow> byte \<Rightarrow> 64 word" where
  "crc24q_step crc d = push_bit 8 crc XOR crc24q ! unat ((ucast d XOR drop_bit 16 crc) AND 0xff)"

text \<open>The argument is the first \<open>len\<close> bytes of the data.\<close>

definition rtcm_crc24q_hash :: "byte list \<Rightarrow> 64 word" where
  "rtcm_crc24q_hash data = foldl crc24q_step 0 data AND 0x00ffffff"

definition rtcm_crc_check :: "packet \<Rightarrow> (bool \<times> packet) option" where
  "rtcm_crc_check p =
     (if rtcm_state p = PACKET_RTCM_CHECKED then Some (True, p)
      else let len = datalen p in
        if len < 4 then Some (False, p)
        else do {
          b0 \<leftarrow> buf_get (pkt_data p) (len - 3);
          b1 \<leftarrow> buf_get (pkt_data p) (len - 2);
          b2 \<leftarrow> buf_get (pkt_data p) (len - 1);
          let crc = rtcm_crc24q_hash (take (len - 3) (pkt_data p));
          let packet_crc = push_bit 16 (ucast b0) + push_bit 8 (ucast b1) + ucast b2;
          if crc \<noteq> packet_crc then Some (False, p)
          else Some (True, p\<lparr>rtcm_state := PACKET_RTCM_CHECKED\<rparr>)
        })"

subsection \<open>Polynomial division\<close>

text \<open>Multiplication by \<open>x\<close> modulo the generator \<open>0x1864cfb\<close>, on a remainder of 24 bits.\<close>

definition crc_shift :: "64 word \<Rightarrow> 64 word" where
  "crc_shift c = (if bit c 23 then push_bit 1 c XOR 0x1864cfb else push_bit 1 c)"

definition crc_byte :: "64 word \<Rightarrow> byte \<Rightarrow> 64 word" where
  "crc_byte c d = (crc_shift ^^ 8) (c XOR push_bit 16 (ucast d))"

definition crc_reference :: "byte list \<Rightarrow> 64 word" where
  "crc_reference = foldl crc_byte 0"

text \<open>The table is linear: the upper half of every power of two block is the lower half xor one entry.\<close>

definition crc_doubles :: "nat \<Rightarrow> 64 word \<Rightarrow> bool" where
  "crc_doubles n v \<longleftrightarrow> map (\<lambda>x. x XOR v) (take n crc24q) = take n (drop n crc24q)"

lemma crc_table_doubles:
  "crc_doubles 1 0x01864cfb"
  "crc_doubles 2 0x028ad50d"
  "crc_doubles 4 0x0493e6e1"
  "crc_doubles 8 0x08a18139"
  "crc_doubles 16 0x10c54e89"
  "crc_doubles 32 0x200cd1e9"
  "crc_doubles 64 0x4019a3d2"
  "crc_doubles 128 0x803347a4"
  unfolding crc_doubles_def crc24q_def by simp_all


lemma crc_shift_xor: "crc_shift (a XOR b) = crc_shift a XOR crc_shift b"
  by (auto simp: crc_shift_def bit_xor_iff push_bit_xor ac_simps)

lemma crc_shifts_xor: "(crc_shift ^^ n) (a XOR b) = (crc_shift ^^ n) a XOR (crc_shift ^^ n) b"
  by (induction n) (simp_all add: crc_shift_xor)

lemma crc_shifts_low: "take_bit m c = c \<Longrightarrow> n + m \<le> 24 \<Longrightarrow> (crc_shift ^^ n) c = push_bit n c"
proof (induction n)
  case (Suc n)
  have "\<not> bit (push_bit n c) 23" using Suc.prems bit_take_bit_iff[of m c "23 - n"]
    by (auto simp: bit_push_bit_iff)
  with Suc show ?case by (simp add: crc_shift_def)
qed simp

lemma funpow_8: "(f ^^ 8) x = f (f (f (f (f (f (f (f x)))))))"
  by (simp add: eval_nat_numeral)

lemma crc_shift_powers:
  "(crc_shift ^^ 8) (push_bit 16 (of_nat 1)) = take_bit 24 0x01864cfb"
  "(crc_shift ^^ 8) (push_bit 16 (of_nat 2)) = take_bit 24 0x028ad50d"
  "(crc_shift ^^ 8) (push_bit 16 (of_nat 4)) = take_bit 24 0x0493e6e1"
  "(crc_shift ^^ 8) (push_bit 16 (of_nat 8)) = take_bit 24 0x08a18139"
  "(crc_shift ^^ 8) (push_bit 16 (of_nat 16)) = take_bit 24 0x10c54e89"
  "(crc_shift ^^ 8) (push_bit 16 (of_nat 32)) = take_bit 24 0x200cd1e9"
  "(crc_shift ^^ 8) (push_bit 16 (of_nat 64)) = take_bit 24 0x4019a3d2"
  "(crc_shift ^^ 8) (push_bit 16 (of_nat 128)) = take_bit 24 0x803347a4"
  by (simp_all add: funpow_8 crc_shift_def)

definition crc_entries :: "nat \<Rightarrow> bool" where
  "crc_entries n \<longleftrightarrow> (\<forall>i < n. take_bit 24 (crc24q ! i) = (crc_shift ^^ 8) (push_bit 16 (of_nat i)))"

lemma crc_entries_double:
  assumes "crc_entries (2 ^ k)" "crc_doubles (2 ^ k) v" "k < 8"
    "(crc_shift ^^ 8) (push_bit 16 (of_nat (2 ^ k))) = take_bit 24 v"
  shows "crc_entries (2 ^ Suc k)"
  unfolding crc_entries_def
proof (intro allI impI)
  fix j :: nat assume j: "j < 2 ^ Suc k"
  show "take_bit 24 (crc24q ! j) = (crc_shift ^^ 8) (push_bit 16 (of_nat j))"
  proof (cases "j < 2 ^ k")
    case True
    with assms(1) show ?thesis by (simp add: crc_entries_def)
  next
    case False
    define i where "i = j - 2 ^ k"
    have i: "i < 2 ^ k" "j = 2 ^ k + i" using j False by (auto simp: i_def)
    have "(2 :: nat) ^ k \<le> 2 ^ 7" using assms(3) by (intro power_increasing) auto
    then have len: "2 ^ k + i < length crc24q" using i by (simp add: crc24q_def)
    from assms(2) have "map (\<lambda>x. x XOR v) (take (2 ^ k) crc24q) ! i = take (2 ^ k) (drop (2 ^ k) crc24q) ! i"
      by (simp add: crc_doubles_def)
    then have e: "crc24q ! j = crc24q ! i XOR v" using i len by simp
    have "\<not> bit (of_nat i :: 64 word) k" 
      using i(1) by (simp add: bit_of_nat_iff) (simp add: bit_iff_odd)
    then have "(of_nat i :: 64 word) AND 2 ^ k = 0" by (simp only: and_exp_eq_0_iff_not_bit simp_thms)
    then have "(of_nat j :: 64 word) = of_nat i XOR of_nat (2 ^ k)"
      using disjunctive_add_eq_xor[of "of_nat i :: 64 word" "2 ^ k"] by (simp add: i(2) add.commute)
    with e assms(1,4) i(1) show ?thesis
      by (simp add: crc_entries_def push_bit_xor crc_shifts_xor take_bit_xor)
  qed
qed

lemma crc_entries_256: "crc_entries 256"
proof -
  note d = crc_table_doubles and p = crc_shift_powers
  have e0: "crc_entries 1" by (simp add: crc_entries_def crc24q_def funpow_8 crc_shift_def)
  have e1: "crc_entries 2" using crc_entries_double[of 0 "0x01864cfb"] e0 d(1) p(1) by simp
  have e2: "crc_entries 4" using crc_entries_double[of 1 "0x028ad50d"] e1 d(2) p(2) by simp
  have e3: "crc_entries 8" using crc_entries_double[of 2 "0x0493e6e1"] e2 d(3) p(3) by simp
  have e4: "crc_entries 16" using crc_entries_double[of 3 "0x08a18139"] e3 d(4) p(4) by simp
  have e5: "crc_entries 32" using crc_entries_double[of 4 "0x10c54e89"] e4 d(5) p(5) by simp
  have e6: "crc_entries 64" using crc_entries_double[of 5 "0x200cd1e9"] e5 d(6) p(6) by simp
  have e7: "crc_entries 128" using crc_entries_double[of 6 "0x4019a3d2"] e6 d(7) p(7) by simp
  show ?thesis using crc_entries_double[of 7 "0x803347a4"] e7 d(8) p(8) by simp
qed

lemma crc24q_step_take: "take_bit 24 (crc24q_step crc d) = crc_byte (take_bit 24 crc) d"
proof -
  define x :: "64 word" where "x = (ucast d XOR drop_bit 16 crc) AND 0xff"
  have m: "(0xff :: 64 word) = mask 8" by (simp add: mask_eq_exp_minus_1)
  have "unat x < 256" unfolding x_def m take_bit_eq_mask[symmetric] unsigned_take_bit_eq
    using take_bit_nat_less_exp[of 8] by simp
  then have t: "take_bit 24 (crc24q ! unat x) = (crc_shift ^^ 8) (push_bit 16 x)"
    using crc_entries_256 by (simp add: crc_entries_def)
  have split: "take_bit 24 crc XOR push_bit 16 (ucast d) = take_bit 16 crc XOR push_bit 16 x"
    unfolding x_def m by (rule bit_word_eqI) (auto simp: bit_simps)
  have "(crc_shift ^^ 8) (take_bit 16 crc) = take_bit 24 (push_bit 8 crc)"
    using crc_shifts_low[of 16 "take_bit 16 crc" 8] by (simp add: push_bit_take_bit)
  with t show ?thesis
    unfolding crc_byte_def split crc_shifts_xor by (simp add: crc24q_step_def x_def take_bit_xor)
qed

lemma crc24q_fold_take: "take_bit 24 (foldl crc24q_step c data) = foldl crc_byte (take_bit 24 c) data"
  by (induction data arbitrary: c) (simp_all add: crc24q_step_take)

lemma crc24q_hash_reference: "rtcm_crc24q_hash data = crc_reference data"
proof -
  have "(0x00ffffff :: 64 word) = mask 24" by (simp add: mask_eq_exp_minus_1)
  then have "rtcm_crc24q_hash data = take_bit 24 (foldl crc24q_step 0 data)"
    unfolding rtcm_crc24q_hash_def by (metis take_bit_eq_mask)
  then show ?thesis by (simp add: crc24q_fold_take crc_reference_def)
qed

lemma crc24q_hash_24bit: "take_bit 24 (rtcm_crc24q_hash data) = rtcm_crc24q_hash data"
proof -
  have "(0x00ffffff :: 64 word) = mask 24" by (simp add: mask_eq_exp_minus_1)
  then show ?thesis unfolding rtcm_crc24q_hash_def by (simp add: take_bit_eq_mask)
qed


subsection \<open>Injectivity\<close>

lemma bit_crc_shift:
  "n < 64 \<Longrightarrow> bit (crc_shift c) n \<longleftrightarrow> (0 < n \<and> bit c (n - 1)) \<noteq> (bit c 23 \<and> bit (0x1864cfb :: 64 word) n)"
proof -
  assume "n < 64"
  then have "bit (push_bit 1 c) n \<longleftrightarrow> 0 < n \<and> bit c (n - 1)" unfolding bit_push_bit_iff by auto
  then show ?thesis unfolding crc_shift_def by (simp add: bit_xor_iff del: bit_numeral_word_iff push_bit_Suc)
qed

lemma generator_bits: "25 \<le> n \<Longrightarrow> \<not> bit (0x1864cfb :: 64 word) n"
proof -
  have "take_bit 25 (0x1864cfb :: 64 word) = 0x1864cfb" by simp
  then show "25 \<le> n \<Longrightarrow> \<not> bit (0x1864cfb :: 64 word) n" by (metis bit_take_bit_iff not_less)
qed

lemma bits_24: "take_bit 24 (c :: 64 word) = c \<longleftrightarrow> (\<forall>n. 24 \<le> n \<longrightarrow> n < 64 \<longrightarrow> \<not> bit c n)"
  by (auto simp: bit_eq_iff bit_take_bit_iff) (use not_less in blast)

lemma crc_shift_24bit: "take_bit 24 c = c \<Longrightarrow> take_bit 24 (crc_shift c) = crc_shift c"
  unfolding bits_24
proof (intro allI impI)
  fix n :: nat
  assume c: "\<forall>n. 24 \<le> n \<longrightarrow> n < 64 \<longrightarrow> \<not> bit c n" and n: "24 \<le> n" "n < 64"
  show "\<not> bit (crc_shift c) n"
  proof (cases "n = 24")
    case True
    then show ?thesis by (simp add: bit_crc_shift)
  next
    case False
    then have "25 \<le> n" "24 \<le> n - 1" "n - 1 < 64" using n by auto
    then show ?thesis using c n generator_bits[of n] by (simp add: bit_crc_shift)
  qed
qed

lemma crc_shift_zero: "take_bit 24 c = c \<Longrightarrow> crc_shift c = 0 \<Longrightarrow> c = 0"
proof -
  assume c: "take_bit 24 c = c" and z: "crc_shift c = 0"
  have "\<not> bit c 23" using z bit_crc_shift[of 0 c] by simp
  then have "bit c n \<longleftrightarrow> bit (crc_shift c) (Suc n)" if "n < 24" for n
    using that bit_crc_shift[of "Suc n" c] by simp
  then have lo: "\<not> bit c n" if "n < 24" for n using z that by simp
  show "c = 0"
  proof (rule bit_word_eqI)
    fix n show "bit c n = bit 0 n" using lo[of n] bit_take_bit_iff[of 24 c n] c by auto
  qed
qed

lemma crc_shifts_24bit: "take_bit 24 c = c \<Longrightarrow> take_bit 24 ((crc_shift ^^ n) c) = (crc_shift ^^ n) c"
  by (induction n) (simp_all add: crc_shift_24bit)

lemma crc_shifts_zero: "take_bit 24 c = c \<Longrightarrow> (crc_shift ^^ n) c = 0 \<Longrightarrow> c = 0"
  by (induction n) (auto dest: crc_shift_zero[OF crc_shifts_24bit])

lemma crc_shifts_inj:
  assumes "take_bit 24 c = c" "take_bit 24 c' = c'" "(crc_shift ^^ n) c = (crc_shift ^^ n) c'"
  shows "c = c'"
proof -
  have "(crc_shift ^^ n) (c XOR c') = 0" using assms(3) by (simp add: crc_shifts_xor)
  then have "c XOR c' = 0" using crc_shifts_zero[of "c XOR c'" n] assms(1,2) by (simp add: take_bit_xor)
  then have "(c XOR c') XOR c' = 0 XOR c'" by (simp only:)
  then show ?thesis by (simp add: xor.assoc)
qed

lemma byte_at_16: "take_bit 24 (push_bit 16 (ucast (d :: byte)) :: 64 word) = push_bit 16 (ucast d)"
  by (rule bit_word_eqI) (auto simp: bit_simps dest: bit_byte_less)

lemma crc_byte_24bit: "take_bit 24 c = c \<Longrightarrow> take_bit 24 (crc_byte c d) = crc_byte c d"
  unfolding crc_byte_def by (rule crc_shifts_24bit) (simp add: take_bit_xor byte_at_16)

lemma crc_bytes_24bit: "take_bit 24 c = c \<Longrightarrow> take_bit 24 (foldl crc_byte c data) = foldl crc_byte c data"
  by (induction data arbitrary: c) (simp_all add: crc_byte_24bit)

lemma crc_state_inj:
  "take_bit 24 c = c \<Longrightarrow> take_bit 24 c' = c' \<Longrightarrow> foldl crc_byte c data = foldl crc_byte c' data \<Longrightarrow> c = c'"
proof (induction data arbitrary: c c')
  case (Cons d data)
  then have "crc_byte c d = crc_byte c' d" using crc_byte_24bit by simp
  then have "c XOR push_bit 16 (ucast d) = c' XOR push_bit 16 (ucast d)"
    unfolding crc_byte_def by (rule crc_shifts_inj[rotated 2]) (simp_all add: Cons.prems take_bit_xor byte_at_16)
  then have "(c XOR push_bit 16 (ucast d)) XOR push_bit 16 (ucast d) = (c' XOR push_bit 16 (ucast d)) XOR push_bit 16 (ucast d)"
    by (simp only:)
  then show ?case by (simp add: xor.assoc)
qed simp

text \<open>A burst of three bytes read as one number, and its effect on the remainder.\<close>

definition burst3 :: "byte \<Rightarrow> byte \<Rightarrow> byte \<Rightarrow> 64 word" where
  "burst3 x y z = push_bit 16 (ucast x) XOR push_bit 8 (ucast y) XOR ucast z"

lemma crc_three_bytes:
  "foldl crc_byte c [x, y, z] = (crc_shift ^^ 24) (c XOR burst3 x y z)"
proof -
  have y: "push_bit 16 (ucast y) = (crc_shift ^^ 8) (push_bit 8 (ucast y))"
    by (subst crc_shifts_low[of 16]) (rule bit_word_eqI, auto simp: bit_simps dest: bit_byte_less)
  have z: "push_bit 16 (ucast z) = (crc_shift ^^ 16) (ucast z)"
    by (subst crc_shifts_low[of 8]) (rule bit_word_eqI, auto simp: bit_simps dest: bit_byte_less)
  have f: "(crc_shift ^^ 24) w = (crc_shift ^^ 8) ((crc_shift ^^ 16) w)" "(crc_shift ^^ 16) w = (crc_shift ^^ 8) ((crc_shift ^^ 8) w)" for w
    by (simp_all add: funpow_add[symmetric, THEN fun_cong, unfolded comp_def])
  show ?thesis
    by (simp add: crc_byte_def y z burst3_def crc_shifts_xor f xor.assoc)
qed

lemma burst3_inj: "burst3 x y z = burst3 x' y' z' \<Longrightarrow> x = x' \<and> y = y' \<and> z = z'"
proof -
  assume e: "burst3 x y z = burst3 x' y' z'"
  have b: "bit (burst3 x y z) n \<longleftrightarrow> (if n < 8 then bit z n else if n < 16 then bit y (n - 8) else bit x (n - 16))"
    if "n < 24" for x y z n using that by (auto simp: burst3_def bit_simps)
  have "bit z n = bit z' n" "bit y n = bit y' n" "bit x n = bit x' n" if "n < 8" for n
    using b[of n x y z] b[of n x' y' z'] b[of "n + 8" x y z] b[of "n + 8" x' y' z']
      b[of "n + 16" x y z] b[of "n + 16" x' y' z'] that e by auto
  then show ?thesis by (auto intro: bit_word_eqI)
qed

lemma crc_shift24_inj:
  assumes "take_bit 24 c = c" "foldl crc_byte c [x, y, z] = foldl crc_byte c [x', y', z']"
  shows "[x, y, z] = [x', y', z']"
proof -
  have b: "take_bit 24 (burst3 x y z) = burst3 x y z" for x y z
    by (rule bit_word_eqI) (auto simp: burst3_def bit_simps dest: bit_byte_less)
  have "c XOR burst3 x y z = c XOR burst3 x' y' z'"
    using assms(2) unfolding crc_three_bytes
    by (rule crc_shifts_inj[rotated 2]) (simp_all add: assms(1) take_bit_xor b)
  then have "c XOR (c XOR burst3 x y z) = c XOR (c XOR burst3 x' y' z')" by (simp only:)
  then show ?thesis using burst3_inj by (simp add: xor.assoc[symmetric])
qed

subsection \<open>The frame check\<close>

text \<open>The three bytes that end a frame.\<close>

definition crc_bytes :: "64 word \<Rightarrow> byte list" where
  "crc_bytes c = [ucast (drop_bit 16 c), ucast (drop_bit 8 c), ucast c]"

lemma crc_bytes_value:
  assumes "take_bit 24 c = c"
  shows "c = push_bit 16 (ucast b0) + push_bit 8 (ucast b1) + ucast b2 \<longleftrightarrow> crc_bytes c = [b0, b1, b2]"
proof -
  have "push_bit 16 (ucast b0) AND push_bit 8 (ucast b1) = (0 :: 64 word)"
    by (rule bit_word_eqI) (auto simp: bit_simps dest: bit_byte_less)
  moreover have "(push_bit 16 (ucast b0) XOR push_bit 8 (ucast b1)) AND ucast b2 = (0 :: 64 word)"
    by (rule bit_word_eqI) (auto simp: bit_simps dest: bit_byte_less)
  ultimately have v: "push_bit 16 (ucast b0) + push_bit 8 (ucast b1) + ucast b2 = burst3 b0 b1 b2"
    by (simp add: disjunctive_add_eq_xor burst3_def xor.assoc)
  have r: "burst3 (ucast (drop_bit 16 c)) (ucast (drop_bit 8 c)) (ucast c) = c"
  proof (rule bit_word_eqI)
    fix n assume n: "n < LENGTH(64)"
    have "bit c n \<Longrightarrow> n < 24" using assms bit_take_bit_iff[of 24 c n] by simp
    then show "bit (burst3 (ucast (drop_bit 16 c)) (ucast (drop_bit 8 c)) (ucast c)) n = bit c n"
      using n by (auto simp: burst3_def bit_simps)
  qed
  show ?thesis unfolding v crc_bytes_def using r burst3_inj by fastforce
qed

lemma rtcm_crc_check_unchecked:
  assumes "rtcm_state p \<noteq> PACKET_RTCM_CHECKED"
  shows "rtcm_crc_check p =
    Some (if \<exists>body. body \<noteq> [] \<and> pkt_data p = body @ crc_bytes (rtcm_crc24q_hash body)
          then (True, p\<lparr>rtcm_state := PACKET_RTCM_CHECKED\<rparr>) else (False, p))"
proof (cases "datalen p < 4")
  case True
  then have "\<not> (\<exists>body. body \<noteq> [] \<and> pkt_data p = body @ crc_bytes (rtcm_crc24q_hash body))"
    by (auto simp: crc_bytes_def Suc_lessI leD)
  with True assms show ?thesis by (simp add: rtcm_crc_check_def)
next
  case False
  define body where "body = take (datalen p - 3) (pkt_data p)"
  define n where "n = datalen p - 3"
  let ?b0 = "pkt_data p ! n" and ?b1 = "pkt_data p ! (n + 1)" and ?b2 = "pkt_data p ! (n + 2)"
  have n: "datalen p = n + 3" "0 < n" using False by (auto simp: n_def)
  have d: "pkt_data p = body @ [?b0, ?b1, ?b2]"
    by (rule nth_equalityI) (auto simp: body_def n nth_append nth_Cons' less_Suc_eq numeral_eq_Suc)
  have "(\<exists>body. body \<noteq> [] \<and> pkt_data p = body @ crc_bytes (rtcm_crc24q_hash body)) \<longleftrightarrow>
      crc_bytes (rtcm_crc24q_hash body) = [?b0, ?b1, ?b2]"
    (is "?L \<longleftrightarrow> ?R")
  proof
    assume ?L
    then obtain body' where "pkt_data p = body' @ crc_bytes (rtcm_crc24q_hash body')" by blast
    with d have "body' @ crc_bytes (rtcm_crc24q_hash body') = body @ [?b0, ?b1, ?b2]" by simp
    moreover have "length (crc_bytes (rtcm_crc24q_hash body')) = length [?b0, ?b1, ?b2]" by (simp add: crc_bytes_def)
    ultimately show ?R by (auto simp: append_eq_append_conv)
  next
    assume ?R
    moreover have "body \<noteq> []" using n by (auto simp: body_def)
    ultimately show ?L using d by metis
  qed
  with crc_bytes_value[OF crc24q_hash_24bit, of body ?b0 ?b1 ?b2] assms n False show ?thesis
    by (simp add: rtcm_crc_check_def Let_def body_def)
qed

subsection \<open>Properties of the checksum\<close>

text \<open>
  C36: the table-driven checksum, computed on an accumulator that keeps the bits shifted above
  the 24 bits of the remainder, is the remainder of the bit by bit division of the data by the
  CRC-24Q generator polynomial.
\<close>

theorem rtcm_crc24q_correct: "rtcm_crc24q_hash data = crc_reference data"
  by (rule crc24q_hash_reference)

text \<open>
  C37: the checksum detects every error that is confined to three consecutive bytes: two messages
  of the same length that differ in such a window, and only there, have different checksums.
\<close>

theorem rtcm_crc24q_detects_burst:
  assumes "[x, y, z] \<noteq> [x', y', z']"
  shows "rtcm_crc24q_hash (pre @ [x, y, z] @ suf) \<noteq> rtcm_crc24q_hash (pre @ [x', y', z'] @ suf)"
proof
  let ?c = "foldl crc_byte 0 pre"
  have c: "take_bit 24 ?c = ?c" by (rule crc_bytes_24bit) simp
  assume "rtcm_crc24q_hash (pre @ [x, y, z] @ suf) = rtcm_crc24q_hash (pre @ [x', y', z'] @ suf)"
  then have "foldl crc_byte (foldl crc_byte ?c [x, y, z]) suf = foldl crc_byte (foldl crc_byte ?c [x', y', z']) suf"
    by (simp only: crc24q_hash_reference crc_reference_def foldl_append)
  then have "foldl crc_byte ?c [x, y, z] = foldl crc_byte ?c [x', y', z']"
    by (rule crc_state_inj[rotated 2]) (rule crc_bytes_24bit[OF c])+
  then have "[x, y, z] = [x', y', z']" by (rule crc_shift24_inj[OF c])
  with assms show False ..
qed

theorem rtcm_crc24q_detects_burst_witness:
  "rtcm_crc24q_hash ([0xd3, 0] @ [0x13, 0x3e, 0xd0] @ [1]) \<noteq> rtcm_crc24q_hash ([0xd3, 0] @ [0x13, 0x3f, 0] @ [1])"
  by (rule rtcm_crc24q_detects_burst) simp

text \<open>
  The frame check never reads outside the packet. It accepts a packet exactly if it was
  accepted before or its last three bytes are the checksum of the (non-empty) rest; the packet is
  then marked as checked, and otherwise left unchanged.
\<close>

lemma rtcm_crc_check_correct:
  "rtcm_crc_check p =
    Some (if rtcm_state p = PACKET_RTCM_CHECKED \<or>
             (\<exists>body. body \<noteq> [] \<and> pkt_data p = body @ crc_bytes (crc_reference body))
          then (True, p\<lparr>rtcm_state := PACKET_RTCM_CHECKED\<rparr>) else (False, p))"
proof (cases "rtcm_state p = PACKET_RTCM_CHECKED")
  case True
  then show ?thesis by (simp add: rtcm_crc_check_def)
next
  case False
  from rtcm_crc_check_unchecked[OF this] False show ?thesis by (simp add: crc24q_hash_reference)
qed

end
