(* ===== verification/Rtcm_Msm.thy ===== *)
theory Rtcm_Msm
  imports Rtcm_Types Rtcm_Crc
begin

text \<open>
  RTCM payloads (\<^verbatim>\<open>caster/rtcm.c\<close>, \<^verbatim>\<open>caster/rtcm.h\<close>): message types, the field readers,
  the conversion of MSM7 messages and the filters that apply it. The specification of the
  conversion is a function on lists of bits: the output message is the concatenation of its fields.

  Out-of-bounds accesses and failed assertions are \<^const>\<open>None\<close>; a NULL packet is the inner
  \<^const>\<open>None\<close>. The contents of freshly allocated memory are an argument, \<open>junk\<close>.
\<close>

subsection \<open>Types and field readers\<close>

definition rtcm_get_type :: "packet \<Rightarrow> int option" where
  "rtcm_get_type p =
     (if rtcm_state p \<noteq> PACKET_RAW then map_option uint (getbits (drop 3 (pkt_data p)) 0 12)
      else Some 65535)"

definition get_uint10 :: "byte list \<Rightarrow> nat \<Rightarrow> 16 word option" where
  "get_uint10 d beg = map_option ucast (getbits d beg 10)"

definition get_int20 :: "byte list \<Rightarrow> nat \<Rightarrow> 32 word option" where
  "get_int20 d beg = do {
     g \<leftarrow> getbits d beg 20;
     let r = (ucast g :: 32 word);
     Some (if r AND 0x80000 \<noteq> 0 then r OR 0xfff00000 else r)
   }"

definition get_int24 :: "byte list \<Rightarrow> nat \<Rightarrow> 32 word option" where
  "get_int24 d beg = do {
     g \<leftarrow> getbits d beg 24;
     let r = (ucast g :: 32 word);
     Some (if r AND 0x800000 \<noteq> 0 then r OR 0xff000000 else r)
   }"

definition get_uint32 :: "byte list \<Rightarrow> nat \<Rightarrow> 32 word option" where
  "get_uint32 d beg = map_option ucast (getbits d beg 32)"

definition get_int38 :: "byte list \<Rightarrow> nat \<Rightarrow> 64 word option" where
  "get_int38 d beg = do {
     r \<leftarrow> getbits d beg 38;
     Some (if r AND push_bit 37 1 \<noteq> 0 then r OR 0xffffffc000000000 else r)
   }"

definition get_uint64 :: "byte list \<Rightarrow> nat \<Rightarrow> 64 word option" where
  "get_uint64 d beg = getbits d beg 64"

function count_set :: "64 word \<Rightarrow> nat" where
  "count_set v = (if v = 0 then 0 else Suc (count_set (v AND (v - 1))))"
  by auto
termination
proof (relation "measure unat")
  fix v :: "64 word"
  assume "v \<noteq> 0"
  have "unat (v AND (v - 1)) \<le> unat (v - 1)" using word_and_le1[of v "v - 1"] by (simp add: word_le_nat_alt)
  also have "\<dots> < unat v" using \<open>v \<noteq> 0\<close> by (simp add: unat_minus_one unat_gt_0)
  finally show "(v AND (v - 1), v) \<in> measure unat" by simp
qed simp

declare count_set.simps [simp del]

definition rtcm_df407_to_df402 :: "nat \<Rightarrow> nat" where
  "rtcm_df407_to_df402 df407 =
     (if df407 < 256 then
        (if df407 < 128 then
           (if df407 < 64 then (if df407 < 32 then 0 else 1)
            else if df407 < 96 then 2 else 3)
         else if df407 < 192 then (if df407 < 160 then 4 else 5)
         else if df407 < 224 then 6 else 7)
      else if df407 < 384 then
        (if df407 < 320 then (if df407 < 288 then 8 else 9)
         else if df407 < 352 then 10 else 11)
      else if df407 < 448 then (if df407 < 416 then 12 else 13)
      else if df407 < 480 then 14 else 15)"

subsection \<open>Conversion of MSM7 messages\<close>

text \<open>One turn of each of the four loops over the cells: the value that is written.\<close>

definition df405_to_df400 :: "byte list \<Rightarrow> nat \<Rightarrow> 64 word option" where
  "df405_to_df400 data pos = do {
     df405 \<leftarrow> get_int20 data pos;
     let df400 = signed_drop_bit 5 (df405 + push_bit 4 1);
     Some (scast df400)
   }"

definition df406_to_df401 :: "byte list \<Rightarrow> nat \<Rightarrow> 64 word option" where
  "df406_to_df401 data pos = do {
     df406 \<leftarrow> get_int24 data pos;
     let df401 = signed_drop_bit 2 (df406 + push_bit 1 1);
     Some (scast df401)
   }"

definition df407_to_df402 :: "byte list \<Rightarrow> nat \<Rightarrow> 64 word option" where
  "df407_to_df402 data pos = do {
     df407 \<leftarrow> get_uint10 data pos;
     Some (of_nat (rtcm_df407_to_df402 (unat df407)))
   }"

definition df408_to_df403 :: "byte list \<Rightarrow> nat \<Rightarrow> 64 word option" where
  "df408_to_df403 data pos = do {
     df408 \<leftarrow> get_uint10 data pos;
     let df403 = (ucast (drop_bit 4 ((ucast df408 :: 32 word) + push_bit 3 1)) :: 16 word);
     Some (ucast df403)
   }"

text \<open>
  \<open>for (n = 0; n < ncell; n++)\<close> with the reader of one loop, the width of its input field and of
  its output field; the result is the output buffer with both positions.
\<close>

fun convert_cells ::
  "(byte list \<Rightarrow> nat \<Rightarrow> 64 word option) \<Rightarrow> nat \<Rightarrow> nat \<Rightarrow> nat \<Rightarrow> byte list \<Rightarrow> nat \<Rightarrow> byte list \<Rightarrow> nat \<Rightarrow>
   (byte list \<times> nat \<times> nat) option" where
  "convert_cells field w_in w_out 0 data_out pos_out data pos = Some (data_out, pos_out, pos)"
| "convert_cells field w_in w_out (Suc n) data_out pos_out data pos = do {
     v \<leftarrow> field data pos;
     data_out' \<leftarrow> setbits data_out pos_out w_out v;
     convert_cells field w_in w_out n data_out' (pos_out + w_out) data (pos + w_in)
   }"

text \<open>
  The payload of the new message, from the type field to the padding of the last byte: the
  new contents of \<open>data_out\<close>. The assertion compares the final position with the size that was
  computed for the message.
\<close>

definition msm7_write ::
  "byte list \<Rightarrow> byte list \<Rightarrow> int \<Rightarrow> nat \<Rightarrow> nat \<Rightarrow> nat \<Rightarrow> nat \<Rightarrow> nat \<Rightarrow> byte list option" where
  "msm7_write data_out data type msmv nsat nsig ncell len_out_bits = do {
     data_out \<leftarrow> setbits data_out 0 12 (word_of_int (type - 7 + int msmv));
     (data_out, pos_out, pos) \<leftarrow>
       copybits data_out 12 data 12 (157 + nsat * nsig + (if msmv = 4 then nsat * 8 else 0));
     let pos = (if msmv \<noteq> 4 then pos + nsat * 8 else pos);
     let pos = pos + 4 * nsat;
     (data_out, pos_out, pos) \<leftarrow> copybits data_out pos_out data pos (nsat * 10);
     let pos = pos + 14 * nsat;
     (data_out, pos_out, pos) \<leftarrow> convert_cells df405_to_df400 20 15 ncell data_out pos_out data pos;
     (data_out, pos_out, pos) \<leftarrow> convert_cells df406_to_df401 24 22 ncell data_out pos_out data pos;
     (data_out, pos_out, pos) \<leftarrow> convert_cells df407_to_df402 10 4 ncell data_out pos_out data pos;
     (data_out, pos_out, pos) \<leftarrow> copybits data_out pos_out data pos ncell;
     (data_out, pos_out, pos) \<leftarrow>
       (if msmv = 4 then convert_cells df408_to_df403 10 6 ncell data_out pos_out data pos
        else Some (data_out, pos_out, pos));
     if pos_out \<noteq> len_out_bits then None
     else if pos_out mod 8 \<noteq> 0 then setbits data_out pos_out (8 - pos_out mod 8) 0
     else Some data_out
   }"

text \<open>
  The new packet: header, payload and checksum. \<open>data_out\<close> is the packet's data from byte 3 on;
  the header bytes are joined to it for the checksum.
\<close>

definition msm7_build ::
  "(nat \<Rightarrow> byte) \<Rightarrow> byte list \<Rightarrow> int \<Rightarrow> nat \<Rightarrow> nat \<Rightarrow> nat \<Rightarrow> nat \<Rightarrow> nat \<Rightarrow> nat \<Rightarrow> packet option option" where
  "msm7_build junk data type msmv nsat nsig ncell len_out_bits len_out = do {
     let packet = packet_new (map junk [0..<len_out + 6]);
     let header = [0xd3, word_of_nat (len_out div 256), word_of_nat (len_out mod 256)];
     data_out \<leftarrow> msm7_write (drop 3 (pkt_data packet)) data type msmv nsat nsig ncell len_out_bits;
     let crc = rtcm_crc24q_hash (take (len_out + 3) (header @ data_out));
     data_out \<leftarrow> buf_set data_out len_out (ucast (drop_bit 16 crc));
     data_out \<leftarrow> buf_set data_out (len_out + 1) (ucast (drop_bit 8 crc));
     data_out \<leftarrow> buf_set data_out (len_out + 2) (ucast crc);
     Some (Some (packet\<lparr>pkt_data := header @ data_out\<rparr>))
   }"

text \<open>The requested version is not used: \<open>msmv\<close> is always 4.\<close>

definition rtcm_convert_msm7 :: "(nat \<Rightarrow> byte) \<Rightarrow> packet \<Rightarrow> int \<Rightarrow> packet option option" where
  "rtcm_convert_msm7 junk p msm_version = do {
     let data = drop 3 (pkt_data p);
     let len = int (datalen p) - 6;
     let msmv = (4 :: nat);
     type \<leftarrow> rtcm_get_type p;
     if (type < 1077 \<or> type > 1127 \<or> type mod 10 \<noteq> 7) \<or> len < 22 then Some None
     else do {
       let pos = 12 + 12 + 30 + (1 + 3 + 7 + 2 + 2 + 1 + 3);
       df394 \<leftarrow> get_uint64 data pos;
       let pos = pos + 64;
       let nsat = count_set df394;
       df395 \<leftarrow> get_uint32 data pos;
       let pos = pos + 32;
       let nsig = count_set (ucast df395);
       if nsat * nsig > 64 then Some None
       else if pos \<noteq> 169 then None
       else if int (pos + nsat * nsig) > len * 8 then Some None
       else do {
         df396 \<leftarrow> getbits data pos (nsat * nsig);
         let pos = pos + nsat * nsig;
         let ncell = count_set df396;
         let endpos = pos + (8+4+10+14) * nsat + (20+24+10+1+10+15) * ncell;
         let len_out_bits =
           (if msmv = 4 then 169 + (8+10+nsig) * nsat + (15+22+4+1+6) * ncell
            else 169 + (10+nsig) * nsat + (15+22+4+1) * ncell);
         let len_out = (len_out_bits + 7) div 8;
         if int endpos > len * 8 then Some None
         else if len_out > 1023 then Some None
         else msm7_build junk data type msmv nsat nsig ncell len_out_bits len_out
       }
     }
   }"

subsection \<open>Messages as lists of bits\<close>

definition bit_slice :: "byte list \<Rightarrow> nat \<Rightarrow> nat \<Rightarrow> bool list" where
  "bit_slice d pos n = map (\<lambda>k. bit_at d (pos + k)) [0..<n]"

definition int_bits :: "nat \<Rightarrow> int \<Rightarrow> bool list" where
  "int_bits n v = map (\<lambda>k. bit v (n - 1 - k)) [0..<n]"

definition ubits :: "bool list \<Rightarrow> int" where
  "ubits bs = horner_sum of_bool 2 (rev bs)"

definition sbits :: "bool list \<Rightarrow> int" where
  "sbits bs = signed_take_bit (length bs - 1) (ubits bs)"

text \<open>The first bits of a buffer.\<close>

definition written :: "byte list \<Rightarrow> bool list \<Rightarrow> bool" where
  "written d bs \<longleftrightarrow> length bs \<le> 8 * length d \<and> bit_slice d 0 (length bs) = bs"

lemma length_slice [simp]: "length (bit_slice d pos n) = n"
  by (simp add: bit_slice_def)

lemma length_int_bits [simp]: "length (int_bits n v) = n"
  by (simp add: int_bits_def)

lemma nth_slice [simp]: "k < n \<Longrightarrow> bit_slice d pos n ! k = bit_at d (pos + k)"
  by (simp add: bit_slice_def)

lemma nth_int_bits [simp]: "k < n \<Longrightarrow> int_bits n v ! k = bit v (n - 1 - k)"
  by (simp add: int_bits_def)

lemma written_Nil [simp]: "written d []"
  by (simp add: written_def bit_slice_def)

lemma written_nth: "written d bs \<Longrightarrow> i < length bs \<Longrightarrow> bit_at d i = bs ! i"
  using nth_slice[of i "length bs" d 0] by (simp add: written_def)

lemma writtenI: "length bs \<le> 8 * length d \<Longrightarrow> (\<And>i. i < length bs \<Longrightarrow> bit_at d i = bs ! i) \<Longrightarrow> written d bs"
  by (auto simp: written_def intro: nth_equalityI)

lemma bit_ubits: "bit (ubits bs) k \<longleftrightarrow> k < length bs \<and> bs ! (length bs - 1 - k)"
  by (auto simp: ubits_def bit_horner_sum_bit_iff rev_nth)

lemma getbits_slice:
  assumes "n \<le> 64" "pos + n \<le> 8 * length d"
  shows "returns (getbits d pos n) (\<lambda>r. uint r = ubits (bit_slice d pos n))"
proof -
  obtain r where r: "getbits d pos n = Some r" "holds_bits d pos n r" using getbits_holds assms by blast
  have "bit (uint r) k \<longleftrightarrow> bit (ubits (bit_slice d pos n)) k" for k
    using r(2) assms(1) by (auto simp: bit_ubits bit_uint_iff holds_bits_def)
  with r(1) show ?thesis by (auto simp: returns_def intro: bit_eqI)
qed

lemma setbits_written:
  assumes "written d bs" "pos = length bs" "n \<le> 64" "pos + n \<le> 8 * length d"
    "\<And>k. k < n \<Longrightarrow> bit v k = bit i k"
  shows "returns (setbits d pos n v) (\<lambda>d'. length d' = length d \<and> written d' (bs @ int_bits n i))"
proof -
  obtain d' where d': "setbits d pos n v = Some d'" "bits_replaced d pos n v d'"
    using setbits_replaced assms(3,4) by blast
  have "written d' (bs @ int_bits n i)"
  proof (rule writtenI)
    fix k assume k: "k < length (bs @ int_bits n i)"
    have "pos + n - 1 - k = n - 1 - (k - length bs)" if "length bs \<le> k" using that k assms(2) by simp
    then show "bit_at d' k = (bs @ int_bits n i) ! k"
      using d'(2) k assms written_nth[OF assms(1), of k] by (auto simp: bits_replaced_def nth_append)
  qed (use d' assms in \<open>simp add: bits_replaced_def\<close>)
  with d' show ?thesis by (simp add: bits_replaced_def)
qed

lemma copybits_written:
  assumes "written d bs" "pos = length bs" "pos + n \<le> 8 * length d" "ps + n \<le> 8 * length s"
  shows "returns (copybits d pos s ps n) (\<lambda>(d', pos', ps'). length d' = length d \<and> pos' = pos + n \<and>
    ps' = ps + n \<and> written d' (bs @ bit_slice s ps n))"
proof -
  obtain d' where d': "copybits d pos s ps n = Some (d', pos + n, ps + n)" "bits_copied d pos s ps n d'"
    using copybits_copied assms(3,4) by blast
  have "written d' (bs @ bit_slice s ps n)"
    by (rule writtenI) (use d' assms written_nth[OF assms(1)] in \<open>auto simp: bits_copied_def nth_append\<close>)
  with d' show ?thesis by (simp add: bits_copied_def)
qed

text \<open>One loop over the cells: every input field is mapped to an output field.\<close>

definition cells_bits :: "(bool list \<Rightarrow> bool list) \<Rightarrow> byte list \<Rightarrow> nat \<Rightarrow> nat \<Rightarrow> nat \<Rightarrow> bool list" where
  "cells_bits f data pos w n = concat (map (\<lambda>k. f (bit_slice data (pos + k * w) w)) [0..<n])"

lemma cells_bits_Suc:
  "cells_bits f data pos w (Suc n) = f (bit_slice data pos w) @ cells_bits f data (pos + w) w n"
  by (simp add: cells_bits_def upt_conv_Cons map_Suc_upt[symmetric] comp_def add.assoc del: upt_Suc)

lemma convert_cells_written:
  assumes field: "\<And>pos. pos + w_in \<le> 8 * length data \<Longrightarrow>
      returns (field data pos) (\<lambda>v. \<forall>k < w_out. bit v k = bit (g (bit_slice data pos w_in)) k)"
    and "w_out \<le> 64"
  shows "written d bs \<Longrightarrow> pos_out = length bs \<Longrightarrow> pos_out + n * w_out \<le> 8 * length d \<Longrightarrow>
    pos + n * w_in \<le> 8 * length data \<Longrightarrow>
    returns (convert_cells field w_in w_out n d pos_out data pos) (\<lambda>(d', pos_out', pos').
      length d' = length d \<and> pos_out' = pos_out + n * w_out \<and> pos' = pos + n * w_in \<and>
      written d' (bs @ cells_bits (\<lambda>b. int_bits w_out (g b)) data pos w_in n))"
proof (induction n arbitrary: d bs pos_out pos)
  case 0
  then show ?case by (simp add: cells_bits_def)
next
  case (Suc n)
  show ?case
    unfolding convert_cells.simps
  proof (rule returns_bind[OF field], use Suc.prems in simp, rule returns_bind[OF setbits_written])
    fix v d'
    let ?b = "int_bits w_out (g (bit_slice data pos w_in))"
    assume "length d' = length d \<and> written d' (bs @ ?b)"
    with Suc.IH[of d' "bs @ ?b" "pos_out + w_out" "pos + w_in"] Suc.prems
    show "returns (convert_cells field w_in w_out n d' (pos_out + w_out) data (pos + w_in))
      (\<lambda>(d', pos_out', pos'). length d' = length d \<and> pos_out' = pos_out + Suc n * w_out \<and>
        pos' = pos + Suc n * w_in \<and> written d' (bs @ cells_bits (\<lambda>b. int_bits w_out (g b)) data pos w_in (Suc n)))"
      by (auto simp: cells_bits_Suc algebra_simps elim!: returns_mono)
  qed (use Suc.prems assms(2) in auto)
qed

subsection \<open>The conversion of the fields\<close>

lemma bit_sint: "bit (sint (w :: 32 word)) k \<longleftrightarrow> bit w (min 31 k)"
  using bit_imp_le_length[of w k] by (cases "k < 31"; cases "k = 31") (auto simp: bit_sint_iff min_def)

lemma sign_extend_word:
  fixes g :: "64 word" and m :: "32 word"
  assumes "uint g = ubits bs" "length bs = n" "0 < n" "n < 32" "m = push_bit n (mask (32 - n))"
  shows "sint (if (ucast g :: 32 word) AND push_bit (n - 1) 1 \<noteq> 0 then ucast g OR m else ucast g) = sbits bs"
    (is "sint ?w = _")
proof (rule bit_eqI)
  fix k
  have b: "bit g j \<longleftrightarrow> bit (ubits bs) j" for j using assms(1) by (metis bit_uint_iff bit_word.rep_eq)
  have g: "\<not> bit g j" if "n \<le> j" for j using that b[of j] assms(2) by (simp add: bit_ubits)
  have s: "(ucast g :: 32 word) AND push_bit (n - 1) 1 \<noteq> 0 \<longleftrightarrow> bit g (n - 1)"
    using assms(3,4) by (auto simp: and_exp_eq_0_iff_not_bit bit_ucast_iff)
  have "bit ?w j \<longleftrightarrow> bit g (min (n - 1) j)" if "j < 32" for j
  proof -
    consider "j < n - 1" | "j = n - 1" | "n \<le> j" by linarith
    then show ?thesis
      using that assms(3-5) g[of j] unfolding s
      by cases (auto simp: bit_or_iff bit_ucast_iff bit_push_bit_iff bit_mask_iff)
  qed
  moreover have "min (n - 1) (min 31 k) = min (n - 1) k" using assms(4) by simp
  ultimately show "bit (sint ?w) k \<longleftrightarrow> bit (sbits bs) k"
    unfolding bit_sint by (simp add: sbits_def bit_signed_take_bit_iff b assms(2))
qed

lemma sbits_range: "0 < length bs \<Longrightarrow> - (2 ^ (length bs - 1)) \<le> sbits bs \<and> sbits bs < 2 ^ (length bs - 1)"
  by (simp add: sbits_def signed_take_bit_int_greater_eq_minus_exp signed_take_bit_int_less_exp)

lemma get_int20_sbits:
  assumes "pos + 20 \<le> 8 * length d"
  shows "returns (get_int20 d pos) (\<lambda>w. sint w = sbits (bit_slice d pos 20))"
  unfolding get_int20_def
proof (rule returns_bind[OF getbits_slice])
  fix g :: "64 word"
  assume "uint g = ubits (bit_slice d pos 20)"
  from sign_extend_word[OF this, of 20 "0xfff00000"]
  show "returns (let r = (ucast g :: 32 word) in Some (if r AND 0x80000 \<noteq> 0 then r OR 0xfff00000 else r))
    (\<lambda>w. sint w = sbits (bit_slice d pos 20))"
    by (simp add: Let_def mask_eq_exp_minus_1)
qed (use assms in simp_all)

lemma get_int24_sbits:
  assumes "pos + 24 \<le> 8 * length d"
  shows "returns (get_int24 d pos) (\<lambda>w. sint w = sbits (bit_slice d pos 24))"
  unfolding get_int24_def
proof (rule returns_bind[OF getbits_slice])
  fix g :: "64 word"
  assume "uint g = ubits (bit_slice d pos 24)"
  from sign_extend_word[OF this, of 24 "0xff000000"]
  show "returns (let r = (ucast g :: 32 word) in Some (if r AND 0x800000 \<noteq> 0 then r OR 0xff000000 else r))
    (\<lambda>w. sint w = sbits (bit_slice d pos 24))"
    by (simp add: Let_def mask_eq_exp_minus_1)
qed (use assms in simp_all)

lemma get_uint10_ubits:
  assumes "pos + 10 \<le> 8 * length d"
  shows "returns (get_uint10 d pos) (\<lambda>w. uint w = ubits (bit_slice d pos 10) \<and> uint w < 1024)"
proof -
  obtain g where g: "getbits d pos 10 = Some g" "uint g = ubits (bit_slice d pos 10)"
    using getbits_slice[of 10 pos d] assms by (auto simp: returns_def)
  have "uint g = take_bit 10 (uint g)" unfolding g(2) by (rule bit_eqI) (auto simp: bit_take_bit_iff bit_ubits)
  then have "uint g < 1024" using take_bit_int_less_exp[of 10 "uint g"] by simp
  moreover from this have "uint (ucast g :: 16 word) = uint g" by (simp add: unsigned_ucast_eq take_bit_int_eq_self)
  ultimately show ?thesis using g by (simp add: get_uint10_def)
qed

text \<open>Rounding of a signed field: add half of the last kept digit and shift.\<close>

lemma round_shift_bits:
  fixes w :: "32 word"
  assumes "- (2 ^ 30) \<le> sint w" "sint w + h < 2 ^ 31" "0 \<le> h" "k < 32" "sint (c :: 32 word) = h"
  shows "bit (scast (signed_drop_bit n (w + c)) :: 64 word) k \<longleftrightarrow> bit ((sint w + h) div 2 ^ n) k"
proof -
  have "sint (w + c) = sint w + h"
    using assms by (simp add: sint_word_ariths signed_take_bit_int_eq_self)
  then have "sint (signed_drop_bit n (w + c)) = (sint w + h) div 2 ^ n"
    by (simp add: sint_signed_drop_bit_eq drop_bit_eq_div)
  moreover have "bit (scast (signed_drop_bit n (w + c)) :: 64 word) k \<longleftrightarrow> bit (sint (signed_drop_bit n (w + c))) k"
    using assms(4) by (simp add: bit_signed_iff bit_sint)
  ultimately show ?thesis by simp
qed

lemma df400_bits:
  "pos + 20 \<le> 8 * length d \<Longrightarrow> returns (df405_to_df400 d pos)
    (\<lambda>v. \<forall>k < 15. bit v k = bit ((sbits (bit_slice d pos 20) + 16) div 32) k)"
  unfolding df405_to_df400_def
proof (rule returns_bind[OF get_int20_sbits], assumption)
  fix w :: "32 word"
  assume w: "sint w = sbits (bit_slice d pos 20)"
  show "returns (let df400 = signed_drop_bit 5 (w + push_bit 4 1) in Some (scast df400 :: 64 word))
    (\<lambda>v. \<forall>k < 15. bit v k = bit ((sbits (bit_slice d pos 20) + 16) div 32) k)"
    using round_shift_bits[of w 16 _ 16 5] sbits_range[of "bit_slice d pos 20"] unfolding w by (auto simp: Let_def)
qed

lemma df401_bits:
  "pos + 24 \<le> 8 * length d \<Longrightarrow> returns (df406_to_df401 d pos)
    (\<lambda>v. \<forall>k < 22. bit v k = bit ((sbits (bit_slice d pos 24) + 2) div 4) k)"
  unfolding df406_to_df401_def
proof (rule returns_bind[OF get_int24_sbits], assumption)
  fix w :: "32 word"
  assume w: "sint w = sbits (bit_slice d pos 24)"
  show "returns (let df401 = signed_drop_bit 2 (w + push_bit 1 1) in Some (scast df401 :: 64 word))
    (\<lambda>v. \<forall>k < 22. bit v k = bit ((sbits (bit_slice d pos 24) + 2) div 4) k)"
    using round_shift_bits[of w 2 _ 2 2] sbits_range[of "bit_slice d pos 24"] unfolding w by (auto simp: Let_def)
qed

lemma df407_to_df402_eq: "rtcm_df407_to_df402 n = min 15 (n div 32)"
proof -
  have "n div 32 = q" if "32 * q \<le> n" "n < 32 * q + 32" for q using that by (simp add: div_nat_eqI)
  moreover have "15 \<le> n div 32" if "480 \<le> n" using that div_le_mono[of 480 n 32] by simp
  ultimately show ?thesis unfolding rtcm_df407_to_df402_def
    by (auto simp: min_def not_less)
qed

lemma df402_bits:
  "pos + 10 \<le> 8 * length d \<Longrightarrow> returns (df407_to_df402 d pos)
    (\<lambda>v. \<forall>k < 4. bit v k = bit (min 15 (ubits (bit_slice d pos 10) div 32)) k)"
  unfolding df407_to_df402_def
proof (rule returns_bind[OF get_uint10_ubits], assumption)
  fix w :: "16 word"
  assume w: "uint w = ubits (bit_slice d pos 10) \<and> uint w < 1024"
  have "int (rtcm_df407_to_df402 (unat w)) = min 15 (uint w div 32)"
    unfolding df407_to_df402_eq by (simp add: of_nat_min zdiv_int)
  then have e: "(word_of_nat (rtcm_df407_to_df402 (unat w)) :: 64 word) = word_of_int (min 15 (uint w div 32))"
    by (metis of_int_of_nat_eq)
  with w show "returns (Some (word_of_nat (rtcm_df407_to_df402 (unat w)) :: 64 word))
    (\<lambda>v. \<forall>k < 4. bit v k = bit (min 15 (ubits (bit_slice d pos 10) div 32)) k)"
    unfolding e by (auto simp: bit_word_of_int_iff)
qed

lemma df403_bits:
  "pos + 10 \<le> 8 * length d \<Longrightarrow> returns (df408_to_df403 d pos)
    (\<lambda>v. \<forall>k < 6. bit v k = bit ((ubits (bit_slice d pos 10) + 8) div 16) k)"
  unfolding df408_to_df403_def
proof (rule returns_bind[OF get_uint10_ubits], assumption)
  fix w :: "16 word"
  assume w: "uint w = ubits (bit_slice d pos 10) \<and> uint w < 1024"
  let ?s = "(ucast w :: 32 word) + push_bit 3 1"
  have "0 \<le> uint w" "uint w < 1024" using w uint_ge_0 by blast+
  then have "uint ?s = uint w + 8"
    by (simp add: uint_word_ariths unsigned_ucast_eq take_bit_eq_mod mod_pos_pos_trivial)
  then have "uint (drop_bit 4 ?s) = (uint w + 8) div 16" by (simp add: drop_bit_eq_div uint_div)
  then have "bit ((uint w + 8) div 16) k \<longleftrightarrow> bit (drop_bit 4 ?s) k" for k by (metis bit_uint_iff bit_word.rep_eq)
  with w show "returns (let df403 = (ucast (drop_bit 4 ((ucast w :: 32 word) + push_bit 3 1)) :: 16 word)
      in Some (ucast df403 :: 64 word))
    (\<lambda>v. \<forall>k < 6. bit v k = bit ((ubits (bit_slice d pos 10) + 8) div 16) k)"
    by (simp add: Let_def bit_ucast_iff del: push_bit_of_1)
qed

subsection \<open>Counting set bits\<close>

lemma bit_clear_lowest:
  "0 < n \<Longrightarrow> bit (n AND (n - 1)) k \<longleftrightarrow> bit n k \<and> (\<exists>j < k. bit n j)" for n :: nat
proof (induction n arbitrary: k rule: less_induct)
  case (less n)
  obtain u where u: "n = 2 * u \<or> n = 2 * u + 1" by (metis oddE evenE)
  show ?case
  proof (cases "n = 2 * u")
    case True
    with less.prems have "0 < u" by simp
    then have e: "n - 1 = 2 * (u - 1) + 1" using True by simp
    show ?thesis
    proof (cases k)
      case 0
      with True have "\<not> bit n k" by (simp add: bit_0)
      then show ?thesis by (simp add: bit_and_iff)
    next
      case (Suc k')
      have "bit (n AND (n - 1)) k \<longleftrightarrow> bit (u AND (u - 1)) k'"
        unfolding bit_and_iff unfolding e unfolding True Suc by (simp add: bit_Suc)
      moreover have "(\<exists>j < k. bit n j) \<longleftrightarrow> (\<exists>j < k'. bit u j)"
        unfolding Suc True by (auto simp: bit_double_iff less_Suc_eq_0_disj)
      ultimately show ?thesis using less.IH[of u k'] \<open>0 < u\<close> True Suc by (simp add: bit_Suc)
    qed
  next
    case False
    with u have n: "n = 2 * u + 1" by simp
    then have "bit n 0" "n - 1 = 2 * u" by (simp_all add: bit_0)
    then show ?thesis unfolding bit_and_iff
      by (cases k) (auto simp: bit_Suc n bit_0)
  qed
qed

lemma count_set_card: "count_set v = card {k. bit v k}"
proof (induction v rule: count_set.induct)
  case (1 v)
  show ?case
  proof (cases "v = 0")
    case True
    have "{k. bit (0 :: 64 word) k} = {}" by auto
    with True show ?thesis by (subst count_set.simps) (simp del: bit_0_eq)
  next
    case False
    let ?S = "{k. bit v k}"
    have fin: "finite ?S" by (rule finite_subset[of _ "{..<64}"]) (auto dest: bit_imp_le_length)
    have ne: "?S \<noteq> {}" using False by (auto simp: bit_eq_iff)
    have u: "unat (v AND (v - 1)) = unat v AND (unat v - 1)"
      using False by (simp add: unsigned_and_eq unat_minus_one)
    have "bit (v AND (v - 1)) k \<longleftrightarrow> bit v k \<and> (\<exists>j < k. bit v j)" for k
      using bit_clear_lowest[of "unat v" k] u False unat_gt_0[of v] by (metis bit_unsigned_iff bit_imp_le_length possible_bit_nat)
    moreover have "(\<exists>j < k. bit v j) \<longleftrightarrow> k \<noteq> Min ?S" if "bit v k" for k
      using that Min_in[OF fin ne] Min_le[OF fin] by (metis le_neq_implies_less mem_Collect_eq not_less)
    ultimately have "{k. bit (v AND (v - 1)) k} = ?S - {Min ?S}" by blast
    moreover have "Min ?S \<in> ?S" using fin ne by (rule Min_in)
    ultimately have "card {k. bit (v AND (v - 1)) k} = card ?S - 1" "0 < card ?S" using fin
      by (auto simp: card_gt_0_iff)
    with 1[OF False] False show ?thesis by (subst count_set.simps) simp
  qed
qed

definition ones :: "bool list \<Rightarrow> nat" where
  "ones bs = length (filter (\<lambda>b. b) bs)"

lemma count_set_ones:
  assumes "uint (v :: 64 word) = ubits bs"
  shows "count_set v = ones bs"
proof -
  have b: "bit v k \<longleftrightarrow> k < length bs \<and> rev bs ! k" for k
    using assms bit_ubits[of bs k] by (metis bit_uint_iff bit_word.rep_eq rev_nth diff_Suc_eq_diff_pred)
  have "ones bs = length (filter (\<lambda>b. b) (rev bs))" by (simp add: ones_def rev_filter[symmetric])
  also have "\<dots> = card {k. k < length bs \<and> rev bs ! k}" by (simp add: length_filter_conv_card)
  finally show ?thesis by (simp add: count_set_card b)
qed

subsection \<open>Specification of the conversion\<close>

text \<open>Number of satellites, signals and cells of an MSM payload; sizes of an MSM7 and an MSM4 one.\<close>

definition msm_nsat :: "byte list \<Rightarrow> nat" where
  "msm_nsat data = ones (bit_slice data 73 64)"

definition msm_nsig :: "byte list \<Rightarrow> nat" where
  "msm_nsig data = ones (bit_slice data 137 32)"

definition msm_ncell :: "byte list \<Rightarrow> nat" where
  "msm_ncell data = ones (bit_slice data 169 (msm_nsat data * msm_nsig data))"

definition msm7_bits_size :: "byte list \<Rightarrow> nat" where
  "msm7_bits_size data = 169 + msm_nsat data * msm_nsig data + 36 * msm_nsat data + 80 * msm_ncell data"

text \<open>
  The MSM4 message with the contents of an MSM7 one, as a list of bits: type; common header, masks
  and integer milliseconds of the rough ranges; rough ranges modulo one millisecond; then for every
  cell the rounded pseudorange, the rounded phase range, the lock time indicator in 4 bits, the
  half-cycle indicator and the rounded signal to noise ratio.
\<close>

definition msm4_bits :: "int \<Rightarrow> byte list \<Rightarrow> bool list" where
  "msm4_bits type data =
     (let nsat = msm_nsat data; ncell = msm_ncell data;
          sat = 169 + nsat * msm_nsig data; cell = sat + 36 * nsat
      in int_bits 12 (type - 3)
       @ bit_slice data 12 (157 + nsat * msm_nsig data + 8 * nsat)
       @ bit_slice data (sat + 12 * nsat) (10 * nsat)
       @ cells_bits (\<lambda>b. int_bits 15 ((sbits b + 16) div 32)) data cell 20 ncell
       @ cells_bits (\<lambda>b. int_bits 22 ((sbits b + 2) div 4)) data (cell + 20 * ncell) 24 ncell
       @ cells_bits (\<lambda>b. int_bits 4 (min 15 (ubits b div 32))) data (cell + 44 * ncell) 10 ncell
       @ bit_slice data (cell + 54 * ncell) ncell
       @ cells_bits (\<lambda>b. int_bits 6 ((ubits b + 8) div 16)) data (cell + 55 * ncell) 10 ncell)"

lemma length_cells_bits [simp]: "length (cells_bits (\<lambda>b. int_bits w (g b)) data pos v n) = n * w"
  by (induction n arbitrary: pos) (simp_all add: cells_bits_Suc, simp add: cells_bits_def)

lemma length_msm4_bits:
  "length (msm4_bits type data) = 169 + (8 + 10 + msm_nsig data) * msm_nsat data + (15+22+4+1+6) * msm_ncell data"
  by (simp add: msm4_bits_def Let_def algebra_simps)

text \<open>The state of the writer: buffer, output position and input position.\<close>

definition writer :: "nat \<Rightarrow> bool list \<Rightarrow> nat \<Rightarrow> byte list \<Rightarrow> nat \<Rightarrow> nat \<Rightarrow> bool" where
  "writer N bs pos d po ps \<longleftrightarrow> length d = N \<and> po = length bs \<and> ps = pos \<and> written d bs"

lemma writer_copy:
  assumes "writer N bs pos d po ps" "length bs + n \<le> 8 * N" "pos + n \<le> 8 * length s"
  obtains d' po' ps' where "copybits d po s ps n = Some (d', po', ps')"
    "writer N (bs @ bit_slice s pos n) (pos + n) d' po' ps'"
  using copybits_written[of d bs po n ps s] assms by (auto simp: writer_def returns_def)

lemma writer_cells:
  assumes "\<And>pos. pos + w_in \<le> 8 * length data \<Longrightarrow>
      returns (field data pos) (\<lambda>v. \<forall>k < w_out. bit v k = bit (g (bit_slice data pos w_in)) k)"
    and "w_out \<le> 64" "writer N bs pos d po ps" "length bs + n * w_out \<le> 8 * N"
    "pos + n * w_in \<le> 8 * length data"
  obtains d' po' ps' where "convert_cells field w_in w_out n d po data ps = Some (d', po', ps')"
    "writer N (bs @ cells_bits (\<lambda>b. int_bits w_out (g b)) data pos w_in n) (pos + n * w_in) d' po' ps'"
  using convert_cells_written[of w_in data field w_out g d bs po n ps] assms
  by (auto simp: writer_def returns_def)

lemmas writer_df400 = writer_cells[where field = df405_to_df400 and g = "\<lambda>b. (sbits b + 16) div 32", OF df400_bits]
lemmas writer_df401 = writer_cells[where field = df406_to_df401 and g = "\<lambda>b. (sbits b + 2) div 4", OF df401_bits]
lemmas writer_df402 = writer_cells[where field = df407_to_df402 and g = "\<lambda>b. min 15 (ubits b div 32)", OF df402_bits]
lemmas writer_df403 = writer_cells[where field = df408_to_df403 and g = "\<lambda>b. (ubits b + 8) div 16", OF df403_bits]

lemma int_bits_0 [simp]: "int_bits n 0 = replicate n False"
  by (rule nth_equalityI) simp_all

text \<open>The bits up to the end of the last byte are cleared.\<close>

lemma pad_written:
  assumes "written d8 bs" "L = length bs" "n = (L + 7) div 8" "length d8 = n + 3"
  shows "\<exists>d'. (if L mod 8 \<noteq> 0 then setbits d8 L (8 - L mod 8) 0 else Some d8) = Some d' \<and> length d' = n + 3 \<and>
    written d' (bs @ replicate (8 * n - L) False)"
proof (cases "L mod 8 = 0")
  case True
  then have "8 * n = L" using assms(3) by auto
  with True assms show ?thesis by simp
next
  case False
  obtain q r where qr: "L mod 8 = r" "L = 8 * q + r" "r < 8" by (rule byte_split[of L])
  then have "0 < r" using False by simp
  have "n = q + 1" unfolding assms(3) qr(2) using \<open>0 < r\<close> \<open>r < 8\<close> by (intro div_nat_eqI) simp_all
  with qr have pad: "8 - L mod 8 = 8 * n - L" "L \<le> 8 * n" by simp_all
  then have pb: "8 - L mod 8 \<le> 64" "L + (8 - L mod 8) \<le> 8 * length d8" using assms(4) by simp_all
  obtain d9 where "setbits d8 L (8 - L mod 8) 0 = Some d9" "length d9 = length d8" "written d9 (bs @ int_bits (8 - L mod 8) 0)"
    using setbits_written[OF assms(1,2) pb, of 0 0] by (auto simp: returns_def)
  with False assms(4) pad show ?thesis by simp
qed

lemma msm7_write_correct:
  assumes ns: "nsat = msm_nsat data" "nsig = msm_nsig data" "ncell = msm_ncell data"
    and sz: "msm7_bits_size data \<le> 8 * length data"
    and L: "L = length (msm4_bits type data)" "n = (L + 7) div 8" "length d = n + 3"
  shows "\<exists>d'. msm7_write d data type 4 nsat nsig ncell L = Some d' \<and> length d' = n + 3 \<and>
    written d' (msm4_bits type data @ replicate (8 * n - L) False)"
proof -
  let ?b1 = "int_bits 12 (type - 3)"
  let ?b2 = "?b1 @ bit_slice data 12 (157 + nsat * nsig + nsat * 8)"
  let ?sat = "169 + nsat * nsig" and ?cell = "169 + nsat * nsig + 36 * nsat"
  let ?b3 = "?b2 @ bit_slice data (?sat + 12 * nsat) (nsat * 10)"
  let ?b4 = "?b3 @ cells_bits (\<lambda>b. int_bits 15 ((sbits b + 16) div 32)) data ?cell 20 ncell"
  let ?b5 = "?b4 @ cells_bits (\<lambda>b. int_bits 22 ((sbits b + 2) div 4)) data (?cell + ncell * 20) 24 ncell"
  let ?b6 = "?b5 @ cells_bits (\<lambda>b. int_bits 4 (min 15 (ubits b div 32))) data
    (?cell + ncell * 20 + ncell * 24) 10 ncell"
  let ?b7 = "?b6 @ bit_slice data (?cell + ncell * 20 + ncell * 24 + ncell * 10) ncell"
  let ?b8 = "?b7 @ cells_bits (\<lambda>b. int_bits 6 ((ubits b + 8) div 16)) data
    (?cell + ncell * 20 + ncell * 24 + ncell * 10 + ncell) 10 ncell"
  have len: "L = 12 + (157 + nsat * nsig + nsat * 8) + nsat * 10 + ncell * 15 + ncell * 22 + ncell * 4 + ncell + ncell * 6"
    unfolding L(1) length_msm4_bits ns by (simp add: algebra_simps)
  have il: "169 + nsat * nsig + 36 * nsat + 80 * ncell \<le> 8 * length data" using sz by (simp add: msm7_bits_size_def ns)
  have ol: "L + 24 \<le> 8 * (n + 3)" using L(2) by simp
  note bounds = len il ol
  have v: "bit (word_of_int (type - 7 + int 4) :: 64 word) k = bit (type - 3) k" if "k < 12" for k
    using that unfolding bit_word_of_int_iff by simp
  obtain d1 where d1: "setbits d 0 12 (word_of_int (type - 7 + int 4)) = Some d1" "writer (n + 3) ?b1 12 d1 12 12"
    using setbits_written[OF written_Nil, of 0 12 d "word_of_int (type - 7 + int 4)" "type - 3"] v ol L(3)
    by (auto simp: returns_def writer_def)
  obtain d2 p2 q2 where d2: "copybits d1 12 data 12 (157 + nsat * nsig + nsat * 8) = Some (d2, p2, q2)"
    and w2: "writer (n + 3) ?b2 (12 + (157 + nsat * nsig + nsat * 8)) d2 p2 q2"
    by (rule writer_copy[OF d1(2), of "157 + nsat * nsig + nsat * 8" data])
      (use bounds in simp, use bounds in simp, rule that)
  then have m2: "writer (n + 3) ?b2 (?sat + 12 * nsat) d2 p2 (q2 + 4 * nsat)" by (simp add: writer_def)
  obtain d3 p3 q3 where d3: "copybits d2 p2 data (q2 + 4 * nsat) (nsat * 10) = Some (d3, p3, q3)"
    and w3: "writer (n + 3) ?b3 (?sat + 12 * nsat + nsat * 10) d3 p3 q3"
    by (rule writer_copy[OF m2, of "nsat * 10" data]) (use bounds in simp, use bounds in simp, rule that)
  then have m3: "writer (n + 3) ?b3 ?cell d3 p3 (q3 + 14 * nsat)" by (simp add: writer_def)
  obtain d4 p4 q4 where d4: "convert_cells df405_to_df400 20 15 ncell d3 p3 data (q3 + 14 * nsat) = Some (d4, p4, q4)"
    and w4: "writer (n + 3) ?b4 (?cell + ncell * 20) d4 p4 q4"
    by (rule writer_df400[OF _ _ m3, of data ncell]) (assumption, simp, use bounds in simp, use bounds in simp, rule that)
  obtain d5 p5 q5 where d5: "convert_cells df406_to_df401 24 22 ncell d4 p4 data q4 = Some (d5, p5, q5)"
    and w5: "writer (n + 3) ?b5 (?cell + ncell * 20 + ncell * 24) d5 p5 q5"
    by (rule writer_df401[OF _ _ w4, of data ncell]) (assumption, simp, use bounds in simp, use bounds in simp, rule that)
  obtain d6 p6 q6 where d6: "convert_cells df407_to_df402 10 4 ncell d5 p5 data q5 = Some (d6, p6, q6)"
    and w6: "writer (n + 3) ?b6 (?cell + ncell * 20 + ncell * 24 + ncell * 10) d6 p6 q6"
    by (rule writer_df402[OF _ _ w5, of data ncell]) (assumption, simp, use bounds in simp, use bounds in simp, rule that)
  obtain d7 p7 q7 where d7: "copybits d6 p6 data q6 ncell = Some (d7, p7, q7)"
    and w7: "writer (n + 3) ?b7 (?cell + ncell * 20 + ncell * 24 + ncell * 10 + ncell) d7 p7 q7"
    by (rule writer_copy[OF w6, of ncell data]) (use bounds in simp, use bounds in simp, rule that)
  obtain d8 p8 q8 where d8: "convert_cells df408_to_df403 10 6 ncell d7 p7 data q7 = Some (d8, p8, q8)"
    and w8: "writer (n + 3) ?b8 (?cell + ncell * 20 + ncell * 24 + ncell * 10 + ncell + ncell * 10) d8 p8 q8"
    by (rule writer_df403[OF _ _ w7, of data ncell]) (assumption, simp, use bounds in simp, use bounds in simp, rule that)
  note steps = d1(1) d2 d3 d4 d5 d6 d7 d8
  have b8: "?b8 = msm4_bits type data"
    by (simp add: msm4_bits_def Let_def ns ac_simps)
  have p8: "p8 = L" "length d8 = n + 3" "written d8 (msm4_bits type data)"
    using w8 unfolding b8 by (simp_all add: writer_def L(1))
  have all: "msm7_write d data type 4 nsat nsig ncell L =
      (if L mod 8 \<noteq> 0 then setbits d8 L (8 - L mod 8) 0 else Some d8)"
    unfolding msm7_write_def using p8(1) steps by (simp add: Let_def)
  show ?thesis unfolding all using pad_written[OF p8(3) L(1,2) p8(2)] .
qed

subsection \<open>The converted message\<close>

definition rtcm_frame :: "byte list \<Rightarrow> byte list" where
  "rtcm_frame payload =
     (let body = [0xd3, word_of_nat (length payload div 256), word_of_nat (length payload mod 256)] @ payload
      in body @ crc_bytes (crc_reference body))"

text \<open>
  The conditions under which a packet is converted: the type of an MSM7 message, a payload of at
  least 22 bytes that holds all the fields its masks announce, at most 64 cells, and a result of
  at most 1023 bytes.
\<close>

definition msm7_convertible :: "packet \<Rightarrow> bool" where
  "msm7_convertible p \<longleftrightarrow>
     (let data = drop 3 (pkt_data p); type = ubits (bit_slice data 0 12)
      in 1077 \<le> type \<and> type \<le> 1127 \<and> type mod 10 = 7 \<and> 28 \<le> datalen p \<and>
         msm_nsat data * msm_nsig data \<le> 64 \<and>
         msm7_bits_size data \<le> 8 * (datalen p - 6) \<and>
         (length (msm4_bits type data) + 7) div 8 \<le> 1023)"

definition msm4_packet :: "packet \<Rightarrow> byte list \<Rightarrow> bool" where
  "msm4_packet p payload \<longleftrightarrow>
     (let data = drop 3 (pkt_data p); bits = msm4_bits (ubits (bit_slice data 0 12)) data
      in length payload = (length bits + 7) div 8 \<and>
         bit_slice payload 0 (8 * length payload) = bits @ replicate (8 * length payload - length bits) False)"

lemma bit_slice_take: "n \<le> 8 * k \<Longrightarrow> bit_slice (take k d) 0 n = bit_slice d 0 n"
  by (rule nth_equalityI) (auto simp: bit_at_def less_mult_imp_div_less)

lemma seal_frame:
  assumes "length d = n + 3" "length header = 3"
  shows "do { d \<leftarrow> buf_set d n a; d \<leftarrow> buf_set d (n + 1) b; d \<leftarrow> buf_set d (n + 2) c; f (header @ d) } =
    f (header @ take n d @ [a, b, c])"
proof -
  have "d[n := a, n + 1 := b, n + 2 := c] = take n d @ [a, b, c]"
    by (rule nth_equalityI) (use assms in \<open>auto simp: nth_append nth_list_update nth_Cons' less_Suc_eq numeral_eq_Suc\<close>)
  with assms show ?thesis by simp
qed

lemma get_type_slice:
  assumes "rtcm_state p \<noteq> PACKET_RAW" "6 \<le> datalen p"
  shows "rtcm_get_type p = Some (ubits (bit_slice (drop 3 (pkt_data p)) 0 12))"
  using getbits_slice[of 12 0 "drop 3 (pkt_data p)"] assms by (auto simp: rtcm_get_type_def returns_def)

lemma get_masks:
  assumes "25 \<le> length data"
  obtains a b where "get_uint64 data 73 = Some a" "count_set a = msm_nsat data"
    "get_uint32 data 137 = Some b" "count_set (ucast b) = msm_nsig data"
proof -
  obtain a where a: "getbits data 73 64 = Some a" "uint a = ubits (bit_slice data 73 64)"
    using getbits_slice[of 64 73 data] assms by (auto simp: returns_def)
  obtain b where b: "getbits data 137 32 = Some b" "uint b = ubits (bit_slice data 137 32)"
    using getbits_slice[of 32 137 data] assms by (auto simp: returns_def)
  have "uint b = take_bit 32 (uint b)"
    unfolding b(2) by (rule bit_eqI) (auto simp: bit_take_bit_iff bit_ubits)
  then have "uint (ucast (ucast b :: 32 word) :: 64 word) = ubits (bit_slice data 137 32)"
    using b(2) by (simp add: unsigned_ucast_eq unsigned_take_bit_eq)
  with a b count_set_ones show ?thesis
    by (intro that[of a "ucast b"]) (auto simp: get_uint64_def get_uint32_def msm_nsat_def msm_nsig_def)
qed

lemma get_cell_mask:
  assumes "msm_nsat data * msm_nsig data \<le> 64" "169 + msm_nsat data * msm_nsig data \<le> 8 * length data"
  obtains c where "getbits data 169 (msm_nsat data * msm_nsig data) = Some c" "count_set c = msm_ncell data"
proof -
  from getbits_slice[OF assms] obtain c where "getbits data 169 (msm_nsat data * msm_nsig data) = Some c"
    "uint c = ubits (bit_slice data 169 (msm_nsat data * msm_nsig data))" by (auto simp: returns_def)
  with count_set_ones that show ?thesis by (auto simp: msm_ncell_def)
qed

lemma msm7_build_frame:
  assumes sz: "msm7_bits_size data \<le> 8 * length data"
    and L: "L = length (msm4_bits type data)" and n: "n = (L + 7) div 8"
  shows "\<exists>payload. msm7_build junk data type 4 (msm_nsat data) (msm_nsig data) (msm_ncell data) L n =
      Some (Some (packet_new (rtcm_frame payload))) \<and> length payload = n \<and>
    bit_slice payload 0 (8 * n) = msm4_bits type data @ replicate (8 * n - L) False"
proof -
  let ?d = "drop 3 (map junk [0..<n + 6])"
  let ?h = "[0xd3, word_of_nat (n div 256), word_of_nat (n mod 256)] :: byte list"
  have "length ?d = n + 3" by simp
  from msm7_write_correct[OF refl refl refl sz L n this] obtain d where
    d: "msm7_write ?d data type 4 (msm_nsat data) (msm_nsig data) (msm_ncell data) L = Some d"
    "length d = n + 3" "written d (msm4_bits type data @ replicate (8 * n - L) False)" by blast
  have tk: "take (n + 3) (?h @ d) = ?h @ take n d" by (simp add: numeral_3_eq_3)
  have le: "L \<le> 8 * n" using n by simp
  have "msm7_build junk data type 4 (msm_nsat data) (msm_nsig data) (msm_ncell data) L n =
      Some (Some (packet_new (?h @ take n d @ crc_bytes (rtcm_crc24q_hash (?h @ take n d)))))"
    unfolding msm7_build_def Let_def packet_new_def packet.simps d(1) bind.bind_lunit tk
    by (subst seal_frame[OF d(2), where f = "\<lambda>x. Some (Some \<lparr>pkt_refcnt = refcnt_init, rtcm_state = PACKET_RAW, pkt_data = x\<rparr>)"])
      (simp_all add: crc_bytes_def)
  moreover have "?h @ take n d @ crc_bytes (rtcm_crc24q_hash (?h @ take n d)) = rtcm_frame (take n d)"
    using d(2) by (simp add: rtcm_frame_def crc24q_hash_reference)
  moreover have "bit_slice (take n d) 0 (8 * n) = bit_slice d 0 (8 * n)" by (simp add: bit_slice_take)
  moreover have "bit_slice d 0 (8 * n) = msm4_bits type data @ replicate (8 * n - L) False"
    using d(3) L le by (simp add: written_def)
  ultimately show ?thesis using d(2) by (intro exI[of _ "take n d"]) simp
qed

lemma convert_msm7_eq:
  assumes p: "rtcm_state p \<noteq> PACKET_RAW" "6 \<le> datalen p"
    and data: "data = drop 3 (pkt_data p)" and type: "type = ubits (bit_slice data 0 12)"
    and L: "L = length (msm4_bits type data)" and n: "n = (L + 7) div 8"
  shows "rtcm_convert_msm7 junk p v =
    (if msm7_convertible p then msm7_build junk data type 4 (msm_nsat data) (msm_nsig data) (msm_ncell data) L n
     else Some None)"
proof (cases "1077 \<le> type \<and> type \<le> 1127 \<and> type mod 10 = 7 \<and> 28 \<le> datalen p")
  case False
  moreover have "\<not> msm7_convertible p" using False by (auto simp: msm7_convertible_def Let_def data type)
  ultimately show ?thesis using get_type_slice[OF p] by (auto simp: rtcm_convert_msm7_def data type)
next
  case True
  then have len: "25 \<le> length data" "length data = datalen p - 3" by (auto simp: data)
  obtain a b where ab: "get_uint64 data 73 = Some a" "count_set a = msm_nsat data"
    "get_uint32 data 137 = Some b" "count_set (ucast b) = msm_nsig data" using get_masks[OF len(1)] .
  have le8: "int k > (int (datalen p) - 6) * 8 \<longleftrightarrow> \<not> k \<le> 8 * (datalen p - 6)" for k
  proof -
    obtain j where "datalen p = 6 + j" using True le_Suc_ex[of 6 "datalen p"] by auto
    then show ?thesis by simp presburger
  qed
  have Leq: "L = 169 + (8 + 10 + msm_nsig data) * msm_nsat data + (15+22+4+1+6) * msm_ncell data"
    unfolding L length_msm4_bits ..
  have ty: "rtcm_get_type p = Some type" using get_type_slice[OF p] by (simp add: type data)
  have c: "msm7_convertible p \<longleftrightarrow> msm_nsat data * msm_nsig data \<le> 64 \<and>
      msm7_bits_size data \<le> 8 * (datalen p - 6) \<and> n \<le> 1023"
    using True by (simp add: msm7_convertible_def Let_def data type n L)
  note start = rtcm_convert_msm7_def Let_def data[symmetric] ty bind.bind_lunit le8
  show ?thesis
  proof (cases "msm_nsat data * msm_nsig data \<le> 64 \<and> 169 + msm_nsat data * msm_nsig data \<le> 8 * (datalen p - 6)")
    case False
    then have "\<not> msm7_convertible p" using c by (auto simp: msm7_bits_size_def)
    with True False ab show ?thesis unfolding start by auto
  next
    case ok: True
    have "8 * (datalen p - 6) \<le> 8 * length data" unfolding len(2) by simp
    with ok have "169 + msm_nsat data * msm_nsig data \<le> 8 * length data" by linarith
    with ok obtain m where m: "getbits data 169 (msm_nsat data * msm_nsig data) = Some m" "count_set m = msm_ncell data"
      using get_cell_mask[of data] by blast
    show ?thesis using True ok ab m c unfolding start n Leq msm7_bits_size_def by auto
  qed
qed

lemma convertible_fits:
  "msm7_convertible p \<Longrightarrow> msm7_bits_size (drop 3 (pkt_data p)) \<le> 8 * length (drop 3 (pkt_data p))"
  by (auto simp: msm7_convertible_def Let_def intro: order_trans[OF _ mult_le_mono2[OF diff_le_mono2]])

lemma convert_msm7_frame:
  assumes p: "rtcm_state p \<noteq> PACKET_RAW" "6 \<le> datalen p"
  shows "if msm7_convertible p
    then \<exists>payload. rtcm_convert_msm7 junk p v = Some (Some (packet_new (rtcm_frame payload))) \<and> msm4_packet p payload
    else rtcm_convert_msm7 junk p v = Some None"
proof (cases "msm7_convertible p")
  case True
  let ?data = "drop 3 (pkt_data p)"
  from msm7_build_frame[OF convertible_fits[OF True] refl refl, of junk "ubits (bit_slice ?data 0 12)"]
  show ?thesis using True convert_msm7_eq[OF p refl refl refl refl, of junk v] by (auto simp: msm4_packet_def Let_def)
next
  case False
  then show ?thesis using convert_msm7_eq[OF p refl refl refl refl, of junk v] by simp
qed

lemma frame_accepted:
  "rtcm_crc_check (packet_new (rtcm_frame payload)) =
    Some (True, (packet_new (rtcm_frame payload))\<lparr>rtcm_state := PACKET_RTCM_CHECKED\<rparr>)"
proof -
  have "\<exists>body. body \<noteq> [] \<and> rtcm_frame payload = body @ crc_bytes (rtcm_crc24q_hash body)"
    unfolding rtcm_frame_def Let_def crc24q_hash_reference by (rule exI, rule conjI[OF _ refl]) simp
  then show ?thesis using rtcm_crc_check_unchecked[of "packet_new (rtcm_frame payload)"]
    by (simp add: packet_new_def)
qed

subsection \<open>Properties of the conversion\<close>

text \<open>
  The version of the result that the caller asks for is not looked at: asked for MSM3, as the
  conversion \<open>msm7_3\<close> of the configuration does, the code writes the MSM4 message.
\<close>

lemma msm3_request_gives_msm4: "rtcm_convert_msm7 junk p 3 = rtcm_convert_msm7 junk p 4"
  unfolding rtcm_convert_msm7_def ..

text \<open>
  C22: the conversion to MSM4 of any RTCM frame of at least 6 bytes stays inside its buffers and never fails its assertions.
  If the frame holds a complete MSM7 message (and the result fits a frame) the result is a
  well-formed RTCM frame whose payload is bit for bit the MSM4 message with the same header, masks
  and rough ranges, the rounded pseudoranges, phase ranges and signal to noise ratios (these modulo 64, the width of
  their field, see \<open>df403_rounds_to_zero\<close> below), the lock
  time indicators in 4 bits and zero padding, and whose checksum the frame check accepts; any
  other frame is refused. The statement is about a request for version 4; a request for MSM3, which the
  configuration offers too, is not honoured (lemma above).
\<close>

theorem rtcm_convert_msm7_correct:
  assumes "rtcm_state p \<noteq> PACKET_RAW" "6 \<le> datalen p"
  shows "if msm7_convertible p
    then \<exists>payload q. rtcm_convert_msm7 junk p 4 = Some (Some q) \<and> pkt_data q = rtcm_frame payload \<and>
      msm4_packet p payload \<and> rtcm_crc_check q = Some (True, q\<lparr>rtcm_state := PACKET_RTCM_CHECKED\<rparr>)
    else rtcm_convert_msm7 junk p 4 = Some None"
  using convert_msm7_frame[OF assms, of junk 4] frame_accepted by (auto simp: packet_new_def split: if_splits)

text \<open>An MSM7 message of 22 payload bytes without satellites.\<close>

definition example_msm7 :: packet where
  "example_msm7 = (packet_new ([0xd3, 0, 22, 0x43, 0x50] @ replicate 20 0 @ [0, 0, 0]))\<lparr>rtcm_state := PACKET_RTCM_UNCHECKED\<rparr>"

theorem rtcm_convert_msm7_correct_witness:
  "if msm7_convertible example_msm7
    then \<exists>payload q. rtcm_convert_msm7 (\<lambda>_. 0) example_msm7 4 = Some (Some q) \<and> pkt_data q = rtcm_frame payload \<and>
      msm4_packet example_msm7 payload \<and> rtcm_crc_check q = Some (True, q\<lparr>rtcm_state := PACKET_RTCM_CHECKED\<rparr>)
    else rtcm_convert_msm7 (\<lambda>_. 0) example_msm7 4 = Some None"
  by (rule rtcm_convert_msm7_correct) (simp_all add: example_msm7_def packet_new_def)

lemma example_msm7_convertible: "msm7_convertible example_msm7"
  by code_simp

text \<open>
  The bit counting loop ends after as many turns as there are set bits and returns their
  number, and the bisection of the lock time indicators computes the 32-wide interval of its
  argument, saturated at 15.
\<close>

lemma msm_counting_correct:
  "count_set v = card {k. bit v k} \<and> rtcm_df407_to_df402 df407 = min 15 (df407 div 32)"
  by (simp add: count_set_card df407_to_df402_eq)

text \<open>
  A signal to noise ratio of 63.5 or more, the 8 largest values of DF408, rounds to 64, which
  has no 6-bit representation: the converted field is zero.
\<close>

lemma df403_rounds_to_zero:
  "1016 \<le> v \<Longrightarrow> v < 1024 \<Longrightarrow> int_bits 6 ((v + 8) div 16) = replicate 6 False"
proof -
  assume "1016 \<le> v" "v < 1024"
  then have "(v + 8) div 16 = 64" by (intro int_div_pos_eq[of _ _ _ "v - 1016"]) simp_all
  then show ?thesis by (simp add: int_bits_def upt_rec eval_nat_numeral)
qed

end
