(* ===== verification/Rtcm_Stream.thy ===== *)
theory Rtcm_Stream
  imports Rtcm_Msm
begin

text \<open>
  The reception of an RTCM stream, \<open>rtcm_packet_handle\<close> of \<^verbatim>\<open>caster/rtcm.c\<close>: the input buffer is cut
  into frames and runs of other bytes, each is handed to the subscribers in order, and the types and
  positions of valid frames are recorded. The buffer of the connection is the list of its bytes.

  The state holds what the function changes: the buffer, the byte count, the packets handed to
  \<open>livesource_send_subscribers\<close> in order, the time of the last delivery to at least one subscriber,
  the types recorded in \<open>rtcm_info\<close> (absent when it is NULL), and the packets for which a position
  job was queued. Arguments: \<open>mem n\<close> tells whether an allocation for \<open>n\<close> bytes succeeds,
  \<open>useful p\<close> whether a subscriber took packet \<open>p\<close>, and \<open>now\<close> is the current time.
\<close>

record rtcm_conn =
  conn_input :: "byte list"
  received_bytes :: nat
  delivered :: "packet list"
  last_useful :: int
  info_types :: "rtcm_typeset option"
  pos_jobs :: "packet list"

definition rtcm_handler :: "rtcm_conn \<Rightarrow> packet \<Rightarrow> rtcm_conn option" where
  "rtcm_handler st p =
     (case info_types st of
        None \<Rightarrow> Some st
      | Some ts \<Rightarrow> do {
          let len = datalen p;
          type \<leftarrow> rtcm_get_type p;
          (_, ts') \<leftarrow> rtcm_typeset_set ts type;
          let st = st\<lparr>info_types := Some ts'\<rparr>;
          if (type = 1005 \<and> len = 25) \<or> (type = 1006 \<and> len = 27)
          then do {
            (ok, p') \<leftarrow> rtcm_crc_check p;
            Some (if ok then st\<lparr>pos_jobs := pos_jobs st @ [p']\<rparr> else st)
          }
          else Some st
        })"

definition send_subscribers :: "(packet \<Rightarrow> bool) \<Rightarrow> int \<Rightarrow> rtcm_conn \<Rightarrow> packet \<Rightarrow> rtcm_conn" where
  "send_subscribers useful now st p =
     (let st = st\<lparr>delivered := delivered st @ [p]\<rparr>
      in if useful p then st\<lparr>last_useful := now\<rparr> else st)"

text \<open>Position of the first byte \<open>0xd3\<close>, or the length of the buffer (\<open>p.pos < 0 ? max_len : p.pos\<close>).\<close>

definition header_pos :: "byte list \<Rightarrow> nat" where
  "header_pos input = length (takeWhile (\<lambda>b. b \<noteq> 0xd3) input)"

text \<open>
  The second half of a turn, at a buffer of \<open>max_len\<close> bytes that is empty or starts with a header:
  the state, the return code so far and whether the function returns.
\<close>

definition rtcm_frame_step ::
  "(nat \<Rightarrow> bool) \<Rightarrow> (packet \<Rightarrow> bool) \<Rightarrow> int \<Rightarrow> rtcm_conn \<Rightarrow> int \<Rightarrow> nat \<Rightarrow> (rtcm_conn \<times> int \<times> bool) option" where
  "rtcm_frame_step mem useful now st r max_len =
     (if max_len = 0 then Some (st, r, True)
      else if length (conn_input st) < 3 then Some (st, r, True)
      else do {
        b1 \<leftarrow> buf_get (conn_input st) 1;
        b2 \<leftarrow> buf_get (conn_input st) 2;
        let len_rtcm = unat (b1 AND 3) * 256 + unat b2 + 6;
        if len_rtcm > max_len then Some (st, r, True)
        else do {
          let data = take len_rtcm (conn_input st);
          let st = st\<lparr>conn_input := drop len_rtcm (conn_input st), received_bytes := received_bytes st + len_rtcm\<rparr>;
          if \<not> mem len_rtcm then Some (st, r, False)
          else do {
            let rtcmp = (packet_new data)\<lparr>rtcm_state := PACKET_RTCM_UNCHECKED\<rparr>;
            (ok, rtcmp) \<leftarrow> rtcm_crc_check rtcmp;
            st \<leftarrow> (if ok then rtcm_handler st rtcmp else Some st);
            Some (send_subscribers useful now st rtcmp, 1, False)
          }
        }
      })"

text \<open>
  One turn of the loop. An allocation failure for a run of other bytes is a NULL dereference,
  \<^const>\<open>None\<close>.
\<close>

definition rtcm_packet_step ::
  "(nat \<Rightarrow> bool) \<Rightarrow> (packet \<Rightarrow> bool) \<Rightarrow> int \<Rightarrow> rtcm_conn \<Rightarrow> int \<Rightarrow> (rtcm_conn \<times> int \<times> bool) option" where
  "rtcm_packet_step mem useful now st r =
     (let input = conn_input st;
          max_len = length input;
          len = header_pos input
      in if len \<noteq> 0 then
           if \<not> mem len then None
           else
             let not_rtcmp = packet_new (take len input);
                 st = st\<lparr>conn_input := drop len input, received_bytes := received_bytes st + len\<rparr>;
                 st = send_subscribers useful now st not_rtcmp
             in rtcm_frame_step mem useful now st 1 (max_len - len)
         else rtcm_frame_step mem useful now st r max_len)"

text \<open>The loop with its number of turns bounded by \<open>fuel\<close>.\<close>

fun rtcm_packet_loop ::
  "nat \<Rightarrow> (nat \<Rightarrow> bool) \<Rightarrow> (packet \<Rightarrow> bool) \<Rightarrow> int \<Rightarrow> rtcm_conn \<Rightarrow> int \<Rightarrow> (rtcm_conn \<times> int) option" where
  "rtcm_packet_loop 0 mem useful now st r = None"
| "rtcm_packet_loop (Suc fuel) mem useful now st r = do {
     (st, r, done) \<leftarrow> rtcm_packet_step mem useful now st r;
     if done then Some (st, r) else rtcm_packet_loop fuel mem useful now st r
   }"

text \<open>Every turn that does not return removes at least 6 bytes, so the buffer's length bounds the turns.\<close>

definition rtcm_packet_handle ::
  "(nat \<Rightarrow> bool) \<Rightarrow> (packet \<Rightarrow> bool) \<Rightarrow> int \<Rightarrow> rtcm_conn \<Rightarrow> (rtcm_conn \<times> int) option" where
  "rtcm_packet_handle mem useful now st =
     rtcm_packet_loop (Suc (length (conn_input st))) mem useful now st 0"

subsection \<open>Specification of a stream\<close>

text \<open>The length a frame header announces, and an incomplete frame at the start of a buffer.\<close>

definition frame_len :: "byte list \<Rightarrow> nat" where
  "frame_len d = unat (d ! 1 AND 3) * 256 + unat (d ! 2) + 6"

definition waiting :: "byte list \<Rightarrow> bool" where
  "waiting d \<longleftrightarrow> d = [] \<or> (hd d = 0xd3 \<and> (length d < 3 \<or> length d < frame_len d))"

definition is_frame :: "byte list \<Rightarrow> bool" where
  "is_frame d \<longleftrightarrow> 6 \<le> length d \<and> hd d = 0xd3 \<and> length d = frame_len d"

definition crc_ok :: "byte list \<Rightarrow> bool" where
  "crc_ok d \<longleftrightarrow> (\<exists>body. body \<noteq> [] \<and> d = body @ crc_bytes (crc_reference body))"

text \<open>What may be handed to the subscribers: other bytes, or a frame marked according to its checksum.\<close>

definition delivery_ok :: "packet \<Rightarrow> bool" where
  "delivery_ok p \<longleftrightarrow>
     (if rtcm_state p = PACKET_RAW then pkt_data p \<noteq> [] \<and> 0xd3 \<notin> set (pkt_data p)
      else is_frame (pkt_data p) \<and>
        rtcm_state p = (if crc_ok (pkt_data p) then PACKET_RTCM_CHECKED else PACKET_RTCM_UNCHECKED))"

text \<open>
  The progress of the loop from \<open>st\<close>: \<open>ps\<close> were delivered, their bytes left the buffer in order,
  the recorded types grew by exactly the types of the valid frames.
\<close>

definition types_seen :: "packet list \<Rightarrow> int set" where
  "types_seen ps = {type. \<exists>p \<in> set ps. rtcm_state p = PACKET_RTCM_CHECKED \<and> rtcm_get_type p = Some type \<and> valid_type type}"

definition progress :: "rtcm_conn \<Rightarrow> packet list \<Rightarrow> rtcm_conn \<Rightarrow> bool" where
  "progress st ps st' \<longleftrightarrow>
     delivered st' = delivered st @ ps \<and> list_all delivery_ok ps \<and>
     conn_input st = concat (map pkt_data ps) @ conn_input st' \<and>
     received_bytes st' = received_bytes st + length (concat (map pkt_data ps)) \<and>
     (case info_types st of
        None \<Rightarrow> info_types st' = None
      | Some ts \<Rightarrow> (\<exists>ts'. info_types st' = Some ts' \<and> typeset_wf ts' \<and>
          (\<forall>i. rtcm_typeset_check ts' i = Some (i \<in> types_seen ps \<or> rtcm_typeset_check ts i = Some True))))"

lemma progress_trans:
  assumes "progress st ps st1" "progress st1 qs st2"
  shows "progress st (ps @ qs) st2"
  using assms by (auto simp: progress_def types_seen_def split: option.splits)

subsection \<open>Every turn makes progress\<close>

definition info_ok :: "rtcm_conn \<Rightarrow> bool" where
  "info_ok st \<longleftrightarrow> (case info_types st of None \<Rightarrow> True | Some ts \<Rightarrow> typeset_wf ts)"

lemma progress_info_ok: "progress st ps st' \<Longrightarrow> info_ok st'"
  by (auto simp: progress_def info_ok_def split: option.splits)

lemma progress_Nil: "info_ok st \<Longrightarrow> progress st [] st"
  using types.member_self by (auto simp: progress_def types_seen_def info_ok_def split: option.split)

lemma progress_raw:
  assumes "info_ok st" "d \<noteq> []" "0xd3 \<notin> set d" "conn_input st = d @ rest"
  shows "progress st [packet_new d]
    (send_subscribers useful now (st\<lparr>conn_input := rest, received_bytes := received_bytes st + length d\<rparr>) (packet_new d))"
  using assms types.member_self
  by (auto simp: progress_def send_subscribers_def delivery_ok_def packet_new_def types_seen_def info_ok_def
      Let_def split: option.split)

lemma handler_correct:
  assumes "info_ok st" "rtcm_state p = PACKET_RTCM_CHECKED" "6 \<le> datalen p"
  shows "returns (rtcm_handler st p) (\<lambda>st'. conn_input st' = conn_input st \<and> delivered st' = delivered st \<and>
    received_bytes st' = received_bytes st \<and>
    (case info_types st of
        None \<Rightarrow> info_types st' = None
      | Some ts \<Rightarrow> (\<exists>ts'. info_types st' = Some ts' \<and> typeset_wf ts' \<and>
          (\<forall>i. rtcm_typeset_check ts' i = Some (i \<in> types_seen [p] \<or> rtcm_typeset_check ts i = Some True)))))"
proof (cases "info_types st")
  case None
  then show ?thesis by (simp add: rtcm_handler_def)
next
  case (Some ts)
  then have wf: "typeset_wf ts" using assms(1) by (simp add: info_ok_def)
  obtain type where ty: "rtcm_get_type p = Some type" using get_type_slice[of p] assms by auto
  have "\<exists>c ts'. rtcm_typeset_set ts type = Some (c, ts') \<and> typeset_wf ts' \<and>
      (\<forall>i. rtcm_typeset_check ts' i = Some (i \<in> types_seen [p] \<or> rtcm_typeset_check ts i = Some True))"
  proof (cases "valid_type type")
    case True
    then show ?thesis using types.insert_valid[OF wf True] ty assms(2) by (auto simp: types_seen_def)
  next
    case False
    then have "types_seen [p] = {}" using ty by (auto simp: types_seen_def)
    then show ?thesis using types.insert_invalid[OF False] wf types.member_self[OF wf] by auto
  qed
  moreover have "rtcm_crc_check p = Some (True, p)" using assms(2) by (simp add: rtcm_crc_check_def)
  ultimately show ?thesis using Some ty by (auto simp: rtcm_handler_def Let_def)
qed

lemma crc_check_new:
  "rtcm_crc_check ((packet_new d)\<lparr>rtcm_state := PACKET_RTCM_UNCHECKED\<rparr>) =
    Some (crc_ok d, (packet_new d)\<lparr>rtcm_state := if crc_ok d then PACKET_RTCM_CHECKED else PACKET_RTCM_UNCHECKED\<rparr>)"
  using rtcm_crc_check_unchecked[of "(packet_new d)\<lparr>rtcm_state := PACKET_RTCM_UNCHECKED\<rparr>"]
  by (simp add: packet_new_def crc_ok_def crc24q_hash_reference)

lemma frame_step_progress:
  assumes "info_ok st" "conn_input st = [] \<or> hd (conn_input st) = 0xd3" "\<And>n. mem n"
  shows "returns (rtcm_frame_step mem useful now st r (length (conn_input st))) (\<lambda>(st', r', stop).
    (if stop then st' = st \<and> r' = r \<and> waiting (conn_input st)
     else (\<exists>p. progress st [p] st') \<and> r' = 1 \<and> length (conn_input st') < length (conn_input st)))"
proof (cases "length (conn_input st) < 3 \<or> length (conn_input st) < frame_len (conn_input st)")
  case True
  then show ?thesis using assms(2) by (auto simp: rtcm_frame_step_def waiting_def frame_len_def Let_def)
next
  case False
  define d where "d = take (frame_len (conn_input st)) (conn_input st)"
  define st1 where "st1 = st\<lparr>conn_input := drop (frame_len (conn_input st)) (conn_input st),
    received_bytes := received_bytes st + frame_len (conn_input st)\<rparr>"
  define p where "p = (packet_new d)\<lparr>rtcm_state := if crc_ok d then PACKET_RTCM_CHECKED else PACKET_RTCM_UNCHECKED\<rparr>"
  have in': "conn_input st = d @ conn_input st1" "length d = frame_len (conn_input st)" "6 \<le> length d"
    using False by (simp_all add: d_def st1_def frame_len_def)
  have fr: "is_frame d" using False assms(2) in'(3)
    by (auto simp: is_frame_def d_def frame_len_def hd_take)
  have ne: "conn_input st \<noteq> []" using False by auto
  have step: "rtcm_frame_step mem useful now st r (length (conn_input st)) =
     do { s \<leftarrow> (if crc_ok d then rtcm_handler st1 p else Some st1); Some (send_subscribers useful now s p, 1, False) }"
    using False assms(3) crc_check_new[of d] ne
    by (simp add: rtcm_frame_step_def Let_def frame_len_def[symmetric] d_def[symmetric] st1_def[symmetric] p_def[symmetric] del: One_nat_def)
  have pd: "pkt_data p = d" "delivery_ok p" using fr by (simp_all add: p_def packet_new_def delivery_ok_def)
  have rb: "received_bytes st1 = received_bytes st + length d" using in'(2) by (simp add: st1_def)
  have deliver: "progress st [p] (send_subscribers useful now s p)"
    if "conn_input s = conn_input st1" "delivered s = delivered st" "received_bytes s = received_bytes st1"
      "(case info_types st of None \<Rightarrow> info_types s = None
        | Some ts \<Rightarrow> (\<exists>ts'. info_types s = Some ts' \<and> typeset_wf ts' \<and>
            (\<forall>i. rtcm_typeset_check ts' i = Some (i \<in> types_seen [p] \<or> rtcm_typeset_check ts i = Some True))))" for s
    using that in'(1) pd rb by (cases "info_types st") (simp_all add: progress_def send_subscribers_def Let_def)
  have st1: "info_ok st1" "info_types st1 = info_types st" "delivered st1 = delivered st"
    using assms(1) by (simp_all add: st1_def info_ok_def)
  have sub: "conn_input (send_subscribers useful now s p) = conn_input s" for s
    by (simp add: send_subscribers_def Let_def)
  have shorter: "length (conn_input st1) < length (conn_input st)"
    using in' by (metis length_append less_add_same_cancel2 less_le_trans zero_less_numeral)
  show ?thesis
  proof (cases "crc_ok d")
    case True
    have "rtcm_state p = PACKET_RTCM_CHECKED" "6 \<le> datalen p" using True in'(3) by (simp_all add: p_def packet_new_def)
    note hc = handler_correct[OF st1(1) this, unfolded st1]
    have "returns (do { s \<leftarrow> rtcm_handler st1 p; Some (send_subscribers useful now s p, 1, False) })
      (\<lambda>(st', r', stop). if stop then st' = st \<and> r' = r \<and> waiting (conn_input st)
        else (\<exists>p. progress st [p] st') \<and> r' = 1 \<and> length (conn_input st') < length (conn_input st))"
      by (rule returns_bind[OF hc]) (use deliver shorter in \<open>auto simp: sub\<close>)
    with True show ?thesis unfolding step by simp
  next
    case False
    then have "types_seen [p] = {}" by (simp add: types_seen_def p_def)
    then have "progress st [p] (send_subscribers useful now st1 p)"
      using assms(1) types.member_self by (intro deliver) (auto simp: st1 info_ok_def split: option.splits)
    with False shorter show ?thesis unfolding step by (auto simp: sub)
  qed
qed

lemma header_pos_split:
  assumes "header_pos d \<noteq> 0"
  shows "take (header_pos d) d \<noteq> []" "0xd3 \<notin> set (take (header_pos d) d)"
    "drop (header_pos d) d = [] \<or> hd (drop (header_pos d) d) = 0xd3" "header_pos d \<le> length d"
proof -
  let ?P = "\<lambda>b. b \<noteq> (0xd3 :: byte)"
  have t: "take (header_pos d) d = takeWhile ?P d" "drop (header_pos d) d = dropWhile ?P d"
    by (simp_all add: header_pos_def takeWhile_eq_take[symmetric] dropWhile_eq_drop)
  then show "take (header_pos d) d \<noteq> []" using assms by (auto simp: header_pos_def)
  show "0xd3 \<notin> set (take (header_pos d) d)" unfolding t by (auto dest: set_takeWhileD)
  show "drop (header_pos d) d = [] \<or> hd (drop (header_pos d) d) = 0xd3"
    unfolding t using hd_dropWhile[of ?P d] by auto
  show "header_pos d \<le> length d" by (simp add: header_pos_def length_takeWhile_le)
qed

lemma packet_step_progress:
  assumes "info_ok st" "\<And>n. mem n"
  shows "returns (rtcm_packet_step mem useful now st r) (\<lambda>(st', r', stop). \<exists>ps. progress st ps st' \<and>
    r' = (if ps = [] then r else 1) \<and>
    (if stop then waiting (conn_input st') else length (conn_input st') < length (conn_input st)))"
proof (cases "header_pos (conn_input st) = 0")
  case True
  then have "conn_input st = [] \<or> hd (conn_input st) = 0xd3"
    by (cases "conn_input st") (auto simp: header_pos_def split: if_splits)
  note fs = frame_step_progress[OF assms(1) this assms(2), where r = r]
  have step: "rtcm_packet_step mem useful now st r = rtcm_frame_step mem useful now st r (length (conn_input st))"
    using True by (simp add: rtcm_packet_step_def)
  show ?thesis unfolding step
  proof (rule returns_mono[OF fs], clarify)
    fix st' and r' :: int and stop
    assume a: "if stop then st' = st \<and> r' = r \<and> waiting (conn_input st)
      else (\<exists>p. progress st [p] st') \<and> r' = 1 \<and> length (conn_input st') < length (conn_input st)"
    show "\<exists>ps. progress st ps st' \<and> r' = (if ps = [] then r else 1) \<and>
      (if stop then waiting (conn_input st') else length (conn_input st') < length (conn_input st))"
    proof (cases stop)
      case True
      with a progress_Nil[OF assms(1)] show ?thesis by (intro exI[of _ "[]"]) simp
    next
      case False
      with a obtain p where "progress st [p] st'" by auto
      with a False show ?thesis by (intro exI[of _ "[p]"]) simp
    qed
  qed
next
  case False
  note h = header_pos_split[OF False]
  let ?n = "header_pos (conn_input st)" and ?d = "take (header_pos (conn_input st)) (conn_input st)"
  define st1 where "st1 = send_subscribers useful now
    (st\<lparr>conn_input := drop ?n (conn_input st), received_bytes := received_bytes st + ?n\<rparr>) (packet_new ?d)"
  have pr: "progress st [packet_new ?d] st1"
    using progress_raw[OF assms(1) h(1,2), of "drop ?n (conn_input st)" useful now] h(4)
    by (simp add: st1_def min_absorb2)
  have in1: "conn_input st1 = drop ?n (conn_input st)" by (simp add: st1_def send_subscribers_def Let_def)
  have step: "rtcm_packet_step mem useful now st r = rtcm_frame_step mem useful now st1 1 (length (conn_input st1))"
    using False assms(2) by (simp add: rtcm_packet_step_def Let_def in1) (simp add: st1_def)
  have "conn_input st1 = [] \<or> hd (conn_input st1) = 0xd3" using h(3) by (simp add: in1)
  from frame_step_progress[OF progress_info_ok[OF pr] this assms(2), where r = 1] show ?thesis
    unfolding step
  proof (rule returns_mono, clarify)
    fix st' and r' :: int and stop
    assume "if stop then st' = st1 \<and> r' = 1 \<and> waiting (conn_input st1)
      else (\<exists>p. progress st1 [p] st') \<and> r' = 1 \<and> length (conn_input st') < length (conn_input st1)"
    then show "\<exists>ps. progress st ps st' \<and> r' = (if ps = [] then r else 1) \<and>
      (if stop then waiting (conn_input st') else length (conn_input st') < length (conn_input st))"
      using pr progress_trans[OF pr] in1 by (cases stop) fastforce+
  qed
qed

lemma packet_loop_correct:
  "info_ok st \<Longrightarrow> (\<And>n. mem n) \<Longrightarrow> length (conn_input st) < fuel \<Longrightarrow>
   returns (rtcm_packet_loop fuel mem useful now st r) (\<lambda>(st', r'). \<exists>ps. progress st ps st' \<and>
     r' = (if ps = [] then r else 1) \<and> waiting (conn_input st'))"
proof (induction fuel arbitrary: st r)
  case (Suc fuel)
  show ?case unfolding rtcm_packet_loop.simps
  proof (rule returns_bind[OF packet_step_progress[OF Suc.prems(1,2)]], clarify)
    fix st1 r1 stop ps
    assume p: "progress st ps st1" and s: "if stop then waiting (conn_input st1)
      else length (conn_input st1) < length (conn_input st)"
    show "returns (if stop then Some (st1, if ps = [] then r else 1)
        else rtcm_packet_loop fuel mem useful now st1 (if ps = [] then r else 1))
      (\<lambda>(st', r'). \<exists>ps. progress st ps st' \<and> r' = (if ps = [] then r else 1) \<and> waiting (conn_input st'))"
    proof (cases stop)
      case True
      with p s show ?thesis by auto
    next
      case False
      with s Suc.prems(3) have "length (conn_input st1) < fuel" by simp
      note ih = Suc.IH[OF progress_info_ok[OF p] Suc.prems(2) this, of "if ps = [] then r else 1"]
      have "returns (rtcm_packet_loop fuel mem useful now st1 (if ps = [] then r else 1))
        (\<lambda>(st', r'). \<exists>ps. progress st ps st' \<and> r' = (if ps = [] then r else 1) \<and> waiting (conn_input st'))"
      proof (rule returns_mono[OF ih], clarify)
        fix st' qs
        assume "progress st1 qs st'" "waiting (conn_input st')"
        with progress_trans[OF p] show "\<exists>ps'. progress st ps' st' \<and>
          (if qs = [] then if ps = [] then r else 1 else 1) = (if ps' = [] then r else 1) \<and> waiting (conn_input st')"
          by (intro exI[of _ "ps @ qs"]) simp
      qed
      with False show ?thesis by simp
    qed
  qed
qed simp

subsection \<open>Properties of the stream\<close>

text \<open>
  C7: with memory available, the reception of an arbitrary input buffer ends. What it hands to
  the subscribers, in order, followed by what stays in the buffer, is exactly the received data:
  nothing is lost, duplicated or reordered. Every packet handed over is either a run of bytes
  without frame header or one complete frame, marked as checked if and only if its checksum is
  right; the types of the frames with a right checksum, and only those, are added to the types of
  the source. What stays in the buffer is nothing or the start of an incomplete frame. The result
  tells whether anything was handed over.
\<close>

theorem rtcm_packet_handle_correct:
  assumes "info_ok st" "\<And>n. mem n"
  shows "\<exists>st' r ps. rtcm_packet_handle mem useful now st = Some (st', r) \<and> progress st ps st' \<and>
    r = (if ps = [] then 0 else 1) \<and> waiting (conn_input st')"
  using packet_loop_correct[OF assms lessI, where useful = useful and now = now and r = 0]
  by (auto simp: rtcm_packet_handle_def returns_def)

definition stream_example :: rtcm_conn where
  "stream_example = \<lparr>conn_input = [0x41, 0x42, 0xd3, 0, 1, 7, 1, 2, 3, 0xd3, 0], received_bytes = 0, delivered = [],
     last_useful = 0, info_types = Some rtcm_typeset_init, pos_jobs = []\<rparr>"

theorem rtcm_packet_handle_correct_witness:
  "\<exists>st' r ps. rtcm_packet_handle (\<lambda>n. True) (\<lambda>p. True) 5 stream_example = Some (st', r) \<and>
    progress stream_example ps st' \<and> r = (if ps = [] then 0 else 1) \<and> waiting (conn_input st')"
  by (rule rtcm_packet_handle_correct) (simp_all add: info_ok_def stream_example_def typeset_init_wf)

end
