(* ===== verification/Jobs.thy ===== *)
theory Jobs
  imports Prelude
begin

text \<open>
  The job queues of the worker threads (\<^verbatim>\<open>caster/jobs.c\<close>). A session (\<open>ntrip_state\<close>) has a
  queue of its own for the jobs that need its lock and is linked in the work queue or the append
  queue of sessions while it has jobs to run; jobs without a lock are in the work queue or the append
  queue of jobs.

  Sessions, callbacks and arguments are numbers. An operation runs under the locks that the code
  takes and is one atomic step; an assertion that fails, and \<open>abort\<close>, are \<^const>\<open>None\<close>.
  Allocations succeed. Messages of the log and the wake-up of waiting threads do not show. The
  reference counts of sessions, live sources and packets are kept for the references that jobs hold.
\<close>

subsection \<open>Jobs and queues\<close>

datatype job =
    JOB_LIBEVENT_RW nat
  | JOB_LIBEVENT_EVENT nat int
  | JOB_NTRIP_LOCK nat
  | JOB_NTRIP_LIVESOURCE nat nat nat nat
  | JOB_NTRIP_PACKET nat nat nat nat
  | JOB_NTRIP_UNLOCKED nat nat
  | JOB_NTRIP_UNLOCKED_CONTENT nat nat nat nat
  | JOB_REDISTRIBUTE nat nat
  | JOB_STOP_THREAD

datatype ref = Ref_st nat | Ref_livesource nat | Ref_packet nat

text \<open>The part of a session that the queues use.\<close>

record session =
  st_jobq :: "job list"
  st_njobs :: int
  newjobs :: int
  ended :: bool
  bev_freed :: bool

record joblist =
  ntrip_queue :: "nat list"
  append_queue :: "nat list"
  jobq :: "job list"
  append_jobq :: "job list"
  ntrip_njobs :: int
  append_ntrip_njobs :: int
  njobs :: int
  append_njobs :: int
  sessions :: "nat \<Rightarrow> session"
  refs :: "ref \<Rightarrow> int"

definition joblist_new :: "(nat \<Rightarrow> session) \<Rightarrow> (ref \<Rightarrow> int) \<Rightarrow> joblist" where
  "joblist_new ss rs = \<lparr>ntrip_queue = [], append_queue = [], jobq = [], append_jobq = [],
     ntrip_njobs = 0, append_ntrip_njobs = 0, njobs = 0, append_njobs = 0, sessions = ss, refs = rs\<rparr>"

definition set_session :: "nat \<Rightarrow> session \<Rightarrow> joblist \<Rightarrow> joblist" where
  "set_session st x this = this\<lparr>sessions := (sessions this)(st := x)\<rparr>"

definition incref :: "ref \<Rightarrow> joblist \<Rightarrow> joblist" where
  "incref r this = this\<lparr>refs := (refs this)(r := refs this r + 1)\<rparr>"

definition decref :: "ref \<Rightarrow> joblist \<Rightarrow> joblist" where
  "decref r this = this\<lparr>refs := (refs this)(r := refs this r - 1)\<rparr>"

subsection \<open>Appending\<close>

fun job_equal :: "job \<Rightarrow> job \<Rightarrow> bool" where
  "job_equal (JOB_LIBEVENT_RW cb1) (JOB_LIBEVENT_RW cb2) \<longleftrightarrow> cb1 = cb2"
| "job_equal (JOB_LIBEVENT_EVENT cb1 e1) (JOB_LIBEVENT_EVENT cb2 e2) \<longleftrightarrow> e1 = e2 \<and> cb1 = cb2"
| "job_equal (JOB_NTRIP_LOCK cb1) (JOB_NTRIP_LOCK cb2) \<longleftrightarrow> cb1 = cb2"
| "job_equal _ _ \<longleftrightarrow> False"

definition append_main :: "joblist \<Rightarrow> job \<Rightarrow> joblist option" where
  "append_main this j =
     (if append_njobs this \<ge> 0
      then Some (this\<lparr>append_jobq := append_jobq this @ [j], append_njobs := append_njobs this + 1\<rparr>)
      else None)"

text \<open>The session goes into the append queue if it got its first job since a worker took it.\<close>

definition insert_session :: "joblist \<Rightarrow> nat \<Rightarrow> session \<Rightarrow> joblist option" where
  "insert_session this st x =
     (if newjobs x = 1
      then Some (set_session st (x\<lparr>newjobs := - 1\<rparr>)
             (this\<lparr>append_queue := append_queue this @ [st], append_ntrip_njobs := append_ntrip_njobs this + 1\<rparr>))
      else if newjobs x = - 1 then Some (set_session st x this)
      else None)"

definition append_session :: "joblist \<Rightarrow> nat \<Rightarrow> job \<Rightarrow> joblist option" where
  "append_session this st j =
     (let x = sessions this st; jobq_was_empty = (st_jobq x = []) in
      if bev_freed x then None
      else if ended x then Some this
      else if (if jobq_was_empty then st_njobs x \<noteq> 0 \<or> newjobs x > 0 else st_njobs x = 0) then None
      else if \<not> jobq_was_empty \<and> job_equal (last (st_jobq x)) j then Some this
      else
        let x = x\<lparr>st_jobq := st_jobq x @ [j], st_njobs := st_njobs x + 1,
                  newjobs := (if newjobs x \<ge> 0 then newjobs x + 1 else newjobs x)\<rparr>
        in if jobq_was_empty \<and> newjobs x \<noteq> 1 \<and> newjobs x \<noteq> - 1 then None
           else insert_session this st x)"

definition joblist_append_generic :: "joblist \<Rightarrow> nat option \<Rightarrow> job \<Rightarrow> joblist option" where
  "joblist_append_generic this st j =
     (case st of None \<Rightarrow> append_main this j | Some st \<Rightarrow> append_session this st j)"

text \<open>The functions for the kinds of jobs, in threaded mode.\<close>

definition joblist_append :: "joblist \<Rightarrow> nat option \<Rightarrow> nat \<Rightarrow> nat \<Rightarrow> int \<Rightarrow> joblist option" where
  "joblist_append this cb cbe st events =
     joblist_append_generic this (Some st)
       (case cb of Some cb \<Rightarrow> JOB_LIBEVENT_RW cb | None \<Rightarrow> JOB_LIBEVENT_EVENT cbe events)"

definition joblist_append_ntrip_locked :: "joblist \<Rightarrow> nat \<Rightarrow> nat \<Rightarrow> joblist option" where
  "joblist_append_ntrip_locked this st cb = joblist_append_generic this (Some st) (JOB_NTRIP_LOCK cb)"

definition joblist_append_redistribute :: "joblist \<Rightarrow> nat \<Rightarrow> nat \<Rightarrow> joblist option" where
  "joblist_append_redistribute this cb redis_args = joblist_append_generic this None (JOB_REDISTRIBUTE cb redis_args)"

definition joblist_append_ntrip_unlocked :: "joblist \<Rightarrow> nat \<Rightarrow> nat \<Rightarrow> joblist option" where
  "joblist_append_ntrip_unlocked this cb st = joblist_append_generic this None (JOB_NTRIP_UNLOCKED cb st)"

definition joblist_append_ntrip_livesource :: "joblist \<Rightarrow> nat \<Rightarrow> nat \<Rightarrow> nat \<Rightarrow> nat \<Rightarrow> joblist option" where
  "joblist_append_ntrip_livesource this cb st livesource arg1 =
     joblist_append_generic (incref (Ref_livesource livesource) (incref (Ref_st st) this)) None
       (JOB_NTRIP_LIVESOURCE cb st livesource arg1)"

definition joblist_append_ntrip_packet :: "joblist \<Rightarrow> nat \<Rightarrow> nat \<Rightarrow> nat \<Rightarrow> nat \<Rightarrow> joblist option" where
  "joblist_append_ntrip_packet this cb st packet arg1 =
     joblist_append_generic (incref (Ref_packet packet) (incref (Ref_st st) this)) None
       (JOB_NTRIP_PACKET cb st packet arg1)"

definition joblist_append_ntrip_unlocked_content :: "joblist \<Rightarrow> nat \<Rightarrow> nat \<Rightarrow> nat \<Rightarrow> nat \<Rightarrow> joblist option" where
  "joblist_append_ntrip_unlocked_content this cb st content_cb req =
     joblist_append_generic (incref (Ref_st st) this) None (JOB_NTRIP_UNLOCKED_CONTENT cb st content_cb req)"

definition joblist_append_stop :: "joblist \<Rightarrow> joblist option" where
  "joblist_append_stop this = joblist_append_generic this None JOB_STOP_THREAD"

subsection \<open>Draining\<close>

text \<open>The references that a job of the queue holds are released.\<close>

fun drop_job :: "job \<Rightarrow> joblist \<Rightarrow> joblist" where
  "drop_job (JOB_NTRIP_UNLOCKED_CONTENT _ st _ _) this = decref (Ref_st st) this"
| "drop_job (JOB_NTRIP_LIVESOURCE _ st livesource _) this = decref (Ref_livesource livesource) (decref (Ref_st st) this)"
| "drop_job (JOB_NTRIP_PACKET _ st packet _) this = decref (Ref_packet packet) (decref (Ref_st st) this)"
| "drop_job _ this = this"

fun drain_jobs :: "job list \<Rightarrow> joblist \<Rightarrow> nat \<times> joblist" where
  "drain_jobs [] this = (0, this)"
| "drain_jobs (j # js) this = (let (n, this') = drain_jobs js (drop_job j this) in (n + 1, this'))"

definition joblist_drain :: "joblist \<Rightarrow> nat \<Rightarrow> joblist" where
  "joblist_drain this st =
     (let x = sessions this st;
          (n, this) = drain_jobs (st_jobq x) this
      in set_session st (x\<lparr>st_jobq := [], st_njobs := st_njobs x - int n,
           newjobs := (if newjobs x > 0 then (if newjobs x > int n then newjobs x - int n else 0) else newjobs x)\<rparr>) this)"

text \<open>\<open>joblist_free\<close> drains the queued sessions and the two queues of jobs.\<close>

definition joblist_free :: "joblist \<Rightarrow> joblist" where
  "joblist_free this =
     (let this = fold (\<lambda>st s. joblist_drain s st) (ntrip_queue this) this;
          this = snd (drain_jobs (jobq this) this);
          this = fold (\<lambda>st s. joblist_drain s st) (append_queue this) this;
          this = snd (drain_jobs (append_jobq this) this)
      in this\<lparr>ntrip_queue := [], append_queue := [], jobq := [], append_jobq := []\<rparr>)"

subsection \<open>Running\<close>

text \<open>The next job without a lock; an empty work queue is exchanged with the append queue.\<close>

definition refill_jobq :: "joblist \<Rightarrow> joblist option" where
  "refill_jobq this =
     (if jobq this \<noteq> [] then Some this
      else if njobs this \<noteq> 0 \<or> append_njobs this < 0 then None
      else Some (this\<lparr>jobq := append_jobq this, append_jobq := jobq this,
                      njobs := append_njobs this, append_njobs := njobs this\<rparr>))"

definition take_job :: "joblist \<Rightarrow> (job option \<times> joblist) option" where
  "take_job this = do {
     this \<leftarrow> refill_jobq this;
     if njobs this < 0 then None
     else case jobq this of
       [] \<Rightarrow> Some (None, this)
     | j # js \<Rightarrow> if njobs this > 0 then Some (Some j, this\<lparr>jobq := js, njobs := njobs this - 1\<rparr>) else None
   }"

text \<open>The kinds of jobs that the queue without a lock may hold; any other aborts.\<close>

fun main_job :: "job \<Rightarrow> bool" where
  "main_job (JOB_LIBEVENT_RW _) = False"
| "main_job (JOB_LIBEVENT_EVENT _ _) = False"
| "main_job (JOB_NTRIP_LOCK _) = False"
| "main_job _ = True"

text \<open>
  The job is run: \<open>exec\<close> is the effect of its callback on the queues; then the references it
  holds are released.
\<close>

type_synonym exec = "nat option \<Rightarrow> job \<Rightarrow> joblist \<Rightarrow> joblist option"

definition run_main :: "exec \<Rightarrow> job \<Rightarrow> joblist \<Rightarrow> joblist option" where
  "run_main exec j this = (if \<not> main_job j then None else map_option (drop_job j) (exec None j this))"

text \<open>
  The next session: an empty work queue is exchanged with the append queue; the session that is
  taken is marked as having no new jobs.
\<close>

definition take_session :: "joblist \<Rightarrow> (nat option \<times> joblist) option" where
  "take_session this =
     (let this = (if ntrip_queue this = [] \<and> append_queue this \<noteq> []
                  then this\<lparr>ntrip_queue := append_queue this, append_queue := ntrip_queue this,
                            ntrip_njobs := append_ntrip_njobs this, append_ntrip_njobs := ntrip_njobs this\<rparr>
                  else this)
      in case ntrip_queue this of
           [] \<Rightarrow> Some (None, this)
         | st # r \<Rightarrow> Some (Some st,
             set_session st ((sessions this st)\<lparr>newjobs := 0\<rparr>)
               (this\<lparr>ntrip_queue := r, ntrip_njobs := ntrip_njobs this - 1\<rparr>)))"

text \<open>The next job of the session that is being run, and whether its callback is called.\<close>

definition take_session_job :: "nat \<Rightarrow> joblist \<Rightarrow> (job \<times> bool \<times> joblist) option" where
  "take_session_job st this =
     (let x = sessions this st in
      case st_jobq x of
        [] \<Rightarrow> None
      | j # js \<Rightarrow>
          if \<not> ended x \<and> main_job j then None
          else Some (j, \<not> ended x,
            set_session st (x\<lparr>st_jobq := js, st_njobs := st_njobs x - 1,
              newjobs := (if newjobs x > 0 then newjobs x - 1 else newjobs x)\<rparr>) this))"

text \<open>The jobs of a session until its queue is empty, with the jobs whose callback was called.\<close>

partial_function (option) run_session :: "exec \<Rightarrow> nat \<Rightarrow> joblist \<Rightarrow> ((nat option \<times> job) list \<times> joblist) option" where
  "run_session exec st this =
     (if st_jobq (sessions this st) = [] then Some ([], this)
      else do {
        (j, live, this) \<leftarrow> take_session_job st this;
        this \<leftarrow> (if live then exec (Some st) j this else Some this);
        (log, this) \<leftarrow> run_session exec st this;
        Some ((if live then [(Some st, j)] else []) @ log, this)
      })"

text \<open>
  \<open>joblist_run\<close> by one worker up to the point where it waits for a signal or ends on
  \<open>JOB_STOP_THREAD\<close>, with the log of the callbacks called.
\<close>

partial_function (option) joblist_run :: "exec \<Rightarrow> joblist \<Rightarrow> ((nat option \<times> job) list \<times> joblist) option" where
  "joblist_run exec this = do {
     (j, this) \<leftarrow> take_job this;
     if j = Some JOB_STOP_THREAD then Some ([], this)
     else do {
       this \<leftarrow> (case j of None \<Rightarrow> Some this | Some j \<Rightarrow> run_main exec j this);
       (st, this) \<leftarrow> take_session this;
       case st of
         None \<Rightarrow>
           (case j of
              None \<Rightarrow> Some ([], this)
            | Some j \<Rightarrow> do { (log, this) \<leftarrow> joblist_run exec this; Some ((None, j) # log, this) })
       | Some st \<Rightarrow> do {
           (log1, this) \<leftarrow> run_session exec st this;
           (log, this) \<leftarrow> joblist_run exec this;
           Some ((case j of None \<Rightarrow> [] | Some j \<Rightarrow> [(None, j)]) @ log1 @ log, this)
         }
     }
   }"

subsection \<open>The workers as a transition system\<close>

text \<open>
  The queues, the sessions whose jobs a worker is running (it holds their lock) and the jobs without
  a lock that workers are running.
\<close>

record system =
  jobs :: joblist
  running :: "nat set"
  active :: "job list"

text \<open>
  The steps: the calls that append jobs, from any thread or from a callback; the parts of
  \<open>joblist_run\<close> between the points where a worker releases the locks of the queues; draining a session
  and marking it as ended.
\<close>

datatype step =
    Append nat job
  | Append_redistribute nat nat
  | Append_unlocked nat nat
  | Append_livesource nat nat nat nat
  | Append_packet nat nat nat nat
  | Append_content nat nat nat nat
  | Append_stop
  | Take_job
  | Done_job job
  | Take_session
  | Run_session_job nat
  | Release_session nat
  | Drain nat
  | End_session nat

fun enabled :: "system \<Rightarrow> step \<Rightarrow> bool" where
  "enabled s (Append st j) \<longleftrightarrow> \<not> main_job j \<and> \<not> bev_freed (sessions (jobs s) st)"
| "enabled s (Done_job j) \<longleftrightarrow> j \<in> set (active s)"
| "enabled s Take_session \<longleftrightarrow>
     (case take_session (jobs s) of Some (Some st, _) \<Rightarrow> st \<notin> running s | _ \<Rightarrow> True)"
| "enabled s (Run_session_job st) \<longleftrightarrow> st \<in> running s \<and> st_jobq (sessions (jobs s) st) \<noteq> []"
| "enabled s (Release_session st) \<longleftrightarrow> st \<in> running s \<and> st_jobq (sessions (jobs s) st) = []"
| "enabled s _ \<longleftrightarrow> True"

fun perform :: "system \<Rightarrow> step \<Rightarrow> system option" where
  "perform s (Append st j) = map_option (\<lambda>q. s\<lparr>jobs := q\<rparr>) (joblist_append_generic (jobs s) (Some st) j)"
| "perform s (Append_redistribute cb a) = map_option (\<lambda>q. s\<lparr>jobs := q\<rparr>) (joblist_append_redistribute (jobs s) cb a)"
| "perform s (Append_unlocked cb st) = map_option (\<lambda>q. s\<lparr>jobs := q\<rparr>) (joblist_append_ntrip_unlocked (jobs s) cb st)"
| "perform s (Append_livesource cb st l a) = map_option (\<lambda>q. s\<lparr>jobs := q\<rparr>) (joblist_append_ntrip_livesource (jobs s) cb st l a)"
| "perform s (Append_packet cb st p a) = map_option (\<lambda>q. s\<lparr>jobs := q\<rparr>) (joblist_append_ntrip_packet (jobs s) cb st p a)"
| "perform s (Append_content cb st c r) = map_option (\<lambda>q. s\<lparr>jobs := q\<rparr>) (joblist_append_ntrip_unlocked_content (jobs s) cb st c r)"
| "perform s Append_stop = map_option (\<lambda>q. s\<lparr>jobs := q\<rparr>) (joblist_append_stop (jobs s))"
| "perform s Take_job = map_option (\<lambda>(j, q). s\<lparr>jobs := q, active := (case j of None \<Rightarrow> active s | Some j \<Rightarrow> j # active s)\<rparr>) (take_job (jobs s))"
| "perform s (Done_job j) = map_option (\<lambda>q. s\<lparr>jobs := q, active := remove1 j (active s)\<rparr>) (run_main (\<lambda>_ _. Some) j (jobs s))"
| "perform s Take_session = map_option (\<lambda>(st, q). s\<lparr>jobs := q, running := running s \<union> set_option st\<rparr>) (take_session (jobs s))"
| "perform s (Run_session_job st) = map_option (\<lambda>(_, _, q). s\<lparr>jobs := q\<rparr>) (take_session_job st (jobs s))"
| "perform s (Release_session st) = Some (s\<lparr>running := running s - {st}\<rparr>)"
| "perform s (Drain st) = Some (s\<lparr>jobs := joblist_drain (jobs s) st\<rparr>)"
| "perform s (End_session st) = Some (s\<lparr>jobs := set_session st ((sessions (jobs s) st)\<lparr>ended := True\<rparr>) (jobs s)\<rparr>)"

definition fresh_session :: "session \<Rightarrow> bool" where
  "fresh_session x \<longleftrightarrow> st_jobq x = [] \<and> st_njobs x = 0 \<and> newjobs x = 0"

inductive reachable :: "(ref \<Rightarrow> int) \<Rightarrow> system \<Rightarrow> bool" for base where
  start: "\<forall>st. fresh_session (ss st) \<Longrightarrow> reachable base \<lparr>jobs = joblist_new ss base, running = {}, active = []\<rparr>"
| move: "reachable base s \<Longrightarrow> enabled s a \<Longrightarrow> perform s a = Some s' \<Longrightarrow> reachable base s'"

subsection \<open>The invariant of the queues\<close>

fun job_refs :: "job \<Rightarrow> ref list" where
  "job_refs (JOB_NTRIP_LIVESOURCE _ st l _) = [Ref_st st, Ref_livesource l]"
| "job_refs (JOB_NTRIP_PACKET _ st p _) = [Ref_st st, Ref_packet p]"
| "job_refs (JOB_NTRIP_UNLOCKED_CONTENT _ st _ _) = [Ref_st st]"
| "job_refs _ = []"

definition held :: "job list \<Rightarrow> ref \<Rightarrow> int" where
  "held js r = (\<Sum>j \<leftarrow> js. int (count_list (job_refs j) r))"

definition queued :: "joblist \<Rightarrow> nat list" where
  "queued q = ntrip_queue q @ append_queue q"

text \<open>
  A session counts its jobs; it is marked by \<open>newjobs = -1\<close> exactly if it is in a queue; if it has jobs,
  it is in a queue or a worker is running it; its jobs need its lock, and no two neighbours are
  equal.
\<close>

definition session_ok :: "bool \<Rightarrow> bool \<Rightarrow> session \<Rightarrow> bool" where
  "session_ok q r x \<longleftrightarrow> newjobs x = (if q then - 1 else 0) \<and> st_njobs x = int (length (st_jobq x)) \<and>
     (st_jobq x \<noteq> [] \<longrightarrow> q \<or> r) \<and> (\<forall>j \<in> set (st_jobq x). \<not> main_job j) \<and>
     successively (\<lambda>a b. \<not> job_equal a b) (st_jobq x)"

definition jobs_inv :: "(ref \<Rightarrow> int) \<Rightarrow> nat set \<Rightarrow> job list \<Rightarrow> joblist \<Rightarrow> bool" where
  "jobs_inv base run act q \<longleftrightarrow>
     njobs q = int (length (jobq q)) \<and> append_njobs q = int (length (append_jobq q)) \<and>
     ntrip_njobs q = int (length (ntrip_queue q)) \<and> append_ntrip_njobs q = int (length (append_queue q)) \<and>
     distinct (queued q) \<and> (\<forall>st. session_ok (st \<in> set (queued q)) (st \<in> run) (sessions q st)) \<and>
     (\<forall>j \<in> set (jobq q @ append_jobq q @ act). main_job j) \<and>
     refs q = (\<lambda>r. base r + held (jobq q @ append_jobq q @ act) r)"

lemma held_simps [simp]: "held [] r = 0" "held (j # js) r = int (count_list (job_refs j) r) + held js r"
  "held (xs @ ys) r = held xs r + held ys r"
  by (simp_all add: held_def)

lemma held_remove1: "j \<in> set js \<Longrightarrow> held (remove1 j js) r = held js r - int (count_list (job_refs j) r)"
  by (simp add: held_def sum_list_map_remove1[of j js])

lemma set_session_simps [simp]:
  "ntrip_queue (set_session st x q) = ntrip_queue q" "append_queue (set_session st x q) = append_queue q"
  "jobq (set_session st x q) = jobq q" "append_jobq (set_session st x q) = append_jobq q"
  "ntrip_njobs (set_session st x q) = ntrip_njobs q" "append_ntrip_njobs (set_session st x q) = append_ntrip_njobs q"
  "njobs (set_session st x q) = njobs q" "append_njobs (set_session st x q) = append_njobs q"
  "refs (set_session st x q) = refs q" "sessions (set_session st x q) = (sessions q)(st := x)"
  by (simp_all add: set_session_def)

lemma drop_job_eq: "drop_job j q = q\<lparr>refs := (\<lambda>r. refs q r - int (count_list (job_refs j) r))\<rparr>"
  by (cases j) (auto simp: decref_def fun_eq_iff)

lemma drain_jobs_eq: "drain_jobs js q = (length js, q\<lparr>refs := (\<lambda>r. refs q r - held js r)\<rparr>)"
  by (induction js arbitrary: q) (simp_all add: drop_job_eq Let_def algebra_simps)

lemma held_session_jobs: "\<forall>j \<in> set js. \<not> main_job j \<Longrightarrow> held js r = 0"
proof (induction js)
  case (Cons j js)
  then show ?case by (cases j) simp_all
qed simp

text \<open>Appending a job of a session; appending a job without a lock, its references taken before.\<close>

lemma append_session_ok:
  assumes inv: "jobs_inv base run act q" and j: "\<not> main_job j" and b: "\<not> bev_freed (sessions q st)"
  shows "\<exists>q'. append_session q st j = Some q' \<and> jobs_inv base run act q'"
proof -
  let ?x = "sessions q st"
  have ok: "session_ok (st \<in> set (queued q)) (st \<in> run) ?x" using inv by (simp add: jobs_inv_def)
  show ?thesis
  proof (cases "ended ?x \<or> (st_jobq ?x \<noteq> [] \<and> job_equal (last (st_jobq ?x)) j)")
    case True
    then have "append_session q st j = Some q"
      using ok b by (auto simp: append_session_def Let_def session_ok_def)
    with inv show ?thesis by blast
  next
    case False
    define x where "x = ?x\<lparr>st_jobq := st_jobq ?x @ [j], st_njobs := st_njobs ?x + 1,
      newjobs := (if newjobs ?x \<ge> 0 then newjobs ?x + 1 else newjobs ?x)\<rparr>"
    have x: "newjobs x = (if st \<in> set (queued q) then - 1 else 1)" "session_ok True r (x\<lparr>newjobs := - 1\<rparr>)" for r
      using ok j False by (auto simp: x_def session_ok_def successively_append_iff)
    have "append_session q st j = insert_session q st x"
      using ok b False x(1) unfolding append_session_def Let_def x_def[symmetric] by (auto simp: session_ok_def)
    moreover have "\<exists>q'. insert_session q st x = Some q' \<and> jobs_inv base run act q'"
    proof (cases "st \<in> set (queued q)")
      case True
      then have "x\<lparr>newjobs := - 1\<rparr> = x" using x(1) by simp
      with True x inv show ?thesis by (auto simp: insert_session_def jobs_inv_def queued_def)
    next
      case False
      with x inv show ?thesis by (auto simp: insert_session_def jobs_inv_def queued_def)
    qed
    ultimately show ?thesis by simp
  qed
qed

lemma append_main_ok:
  assumes "jobs_inv base run act q" "main_job j"
  shows "\<exists>q'. append_main (q\<lparr>refs := (\<lambda>r. refs q r + int (count_list (job_refs j) r))\<rparr>) j = Some q' \<and> jobs_inv base run act q'"
  using assms by (auto simp: append_main_def jobs_inv_def queued_def)

fun option_list :: "'a option \<Rightarrow> 'a list" where
  "option_list None = []"
| "option_list (Some x) = [x]"

text \<open>The two queues of jobs without a lock, in the order in which they are run.\<close>

lemma take_job_ok:
  assumes inv: "jobs_inv base run act q"
  shows "\<exists>r q'. take_job q = Some (r, q') \<and> jobs_inv base run (option_list r @ act) q' \<and>
    jobq q @ append_jobq q = option_list r @ jobq q' @ append_jobq q' \<and> (r = None \<longrightarrow> jobq q = [] \<and> append_jobq q = []) \<and>
    sessions q' = sessions q \<and> queued q' = queued q"
proof -
  obtain q1 where q1: "refill_jobq q = Some q1" "jobs_inv base run act q1" "jobq q @ append_jobq q = jobq q1 @ append_jobq q1"
      "jobq q1 = [] \<Longrightarrow> append_jobq q1 = []" "sessions q1 = sessions q" "queued q1 = queued q"
  proof (cases "jobq q = []")
    case False
    then show ?thesis using that[of q] inv by (simp add: refill_jobq_def)
  next
    case True
    with inv show ?thesis
      by (intro that[of "q\<lparr>jobq := append_jobq q, append_jobq := jobq q, njobs := append_njobs q, append_njobs := njobs q\<rparr>"])
        (auto simp: refill_jobq_def jobs_inv_def queued_def)
  qed
  show ?thesis
  proof (cases "jobq q1")
    case Nil
    with q1 show ?thesis by (auto simp: take_job_def jobs_inv_def)
  next
    case (Cons j js)
    with q1 show ?thesis by (auto simp: take_job_def jobs_inv_def queued_def)
  qed
qed

lemma done_job_ok:
  assumes inv: "jobs_inv base run act q" and j: "j \<in> set act"
  shows "\<exists>q'. run_main (\<lambda>_ _. Some) j q = Some q' \<and> jobs_inv base run (remove1 j act) q'"
proof -
  have m: "main_job j" using inv j by (simp add: jobs_inv_def)
  have s: "set (remove1 j act) \<subseteq> set act" by (rule set_remove1_subset)
  have "jobs_inv base run (remove1 j act) (drop_job j q)"
    using inv s held_remove1[OF j] unfolding drop_job_eq jobs_inv_def queued_def by (auto simp: fun_eq_iff)
  with m show ?thesis by (simp add: run_main_def)
qed

lemma take_session_ok:
  assumes inv: "jobs_inv base run act q"
  shows "\<exists>r q'. take_session q = Some (r, q') \<and> jobs_inv base (run \<union> set_option r) act q' \<and>
    (r = None \<longrightarrow> queued q = [] \<and> q' = q) \<and>
    (\<forall>st. r = Some st \<longrightarrow> queued q = st # queued q' \<and>
      sessions q' = (sessions q)(st := (sessions q st)\<lparr>newjobs := 0\<rparr>) \<and> jobq q' = jobq q \<and> append_jobq q' = append_jobq q)"
proof -
  define q1 where "q1 = (if ntrip_queue q = [] \<and> append_queue q \<noteq> []
     then q\<lparr>ntrip_queue := append_queue q, append_queue := ntrip_queue q, ntrip_njobs := append_ntrip_njobs q,
            append_ntrip_njobs := ntrip_njobs q\<rparr> else q)"
  have q1: "jobs_inv base run act q1" "queued q1 = queued q" "sessions q1 = sessions q" "jobq q1 = jobq q" "append_jobq q1 = append_jobq q"
      "ntrip_queue q1 = [] \<Longrightarrow> q1 = q \<and> queued q = []"
    using inv by (auto simp: q1_def jobs_inv_def queued_def)
  show ?thesis
  proof (cases "ntrip_queue q1")
    case Nil
    with q1 show ?thesis unfolding take_session_def q1_def[symmetric] Let_def by simp
  next
    case (Cons st r)
    let ?q = "set_session st ((sessions q1 st)\<lparr>newjobs := 0\<rparr>) (q1\<lparr>ntrip_queue := r, ntrip_njobs := ntrip_njobs q1 - 1\<rparr>)"
    have "take_session q = Some (Some st, ?q)" using Cons unfolding take_session_def q1_def[symmetric] Let_def by simp
    moreover have "jobs_inv base (run \<union> {st}) act ?q"
      using q1(1) Cons by (auto simp: jobs_inv_def queued_def session_ok_def)
    moreover have "queued q = st # queued ?q" using q1(2) Cons by (simp add: queued_def)
    ultimately show ?thesis using q1 by simp
  qed
qed

lemma take_session_job_ok:
  assumes inv: "jobs_inv base run act q" and j: "st_jobq (sessions q st) = j # js"
  shows "\<exists>q'. take_session_job st q = Some (j, \<not> ended (sessions q st), q') \<and> jobs_inv base run act q' \<and>
    q' = set_session st ((sessions q st)\<lparr>st_jobq := js, st_njobs := st_njobs (sessions q st) - 1\<rparr>) q"
proof -
  have ok: "session_ok (st \<in> set (queued q)) (st \<in> run) (sessions q st)" using inv by (simp add: jobs_inv_def)
  let ?x = "(sessions q st)\<lparr>st_jobq := js, st_njobs := st_njobs (sessions q st) - 1\<rparr>"
  have n: "\<not> newjobs (sessions q st) > 0" "\<not> main_job j" using ok j by (auto simp: session_ok_def)
  have "(sessions q st)\<lparr>st_jobq := js, st_njobs := st_njobs (sessions q st) - 1,
      newjobs := if newjobs (sessions q st) > 0 then newjobs (sessions q st) - 1 else newjobs (sessions q st)\<rparr> = ?x"
    using n(1) by simp
  then have "take_session_job st q = Some (j, \<not> ended (sessions q st), set_session st ?x q)"
    using n(2) j by (simp add: take_session_job_def Let_def)
  moreover have "session_ok (st \<in> set (queued q)) (st \<in> run) ?x"
    using ok j by (auto simp: session_ok_def successively_Cons)
  then have "jobs_inv base run act (set_session st ?x q)"
    using inv by (auto simp: jobs_inv_def queued_def)
  ultimately show ?thesis by blast
qed

lemma drain_ok:
  assumes inv: "jobs_inv base run act q"
  shows "jobs_inv base run act (joblist_drain q st)"
proof -
  let ?x = "sessions q st"
  have ok: "session_ok (st \<in> set (queued q)) (st \<in> run) ?x" using inv by (simp add: jobs_inv_def)
  then have "held (st_jobq ?x) r = 0" for r by (intro held_session_jobs) (simp add: session_ok_def)
  then have d: "drain_jobs (st_jobq ?x) q = (length (st_jobq ?x), q)" by (simp add: drain_jobs_eq)
  have "\<not> newjobs ?x > 0" "st_njobs ?x - int (length (st_jobq ?x)) = 0" using ok by (auto simp: session_ok_def)
  then have "joblist_drain q st = set_session st (?x\<lparr>st_jobq := [], st_njobs := 0\<rparr>) q"
    unfolding joblist_drain_def Let_def d by simp
  moreover have "session_ok (st \<in> set (queued q)) (st \<in> run) (?x\<lparr>st_jobq := [], st_njobs := 0\<rparr>)"
    using ok by (auto simp: session_ok_def)
  ultimately show ?thesis using inv by (auto simp: jobs_inv_def queued_def)
qed

lemma release_ok: "jobs_inv base run act q \<Longrightarrow> st_jobq (sessions q st) = [] \<Longrightarrow> jobs_inv base (run - {st}) act q"
  by (auto simp: jobs_inv_def session_ok_def)

lemma end_session_ok:
  "jobs_inv base run act q \<Longrightarrow> jobs_inv base run act (set_session st ((sessions q st)\<lparr>ended := True\<rparr>) q)"
  by (auto simp: jobs_inv_def session_ok_def queued_def)

abbreviation system_inv :: "(ref \<Rightarrow> int) \<Rightarrow> system \<Rightarrow> bool" where
  "system_inv base s \<equiv> jobs_inv base (running s) (active s) (jobs s)"

lemmas append_defs = joblist_append_generic_def joblist_append_redistribute_def joblist_append_ntrip_unlocked_def
  joblist_append_ntrip_livesource_def joblist_append_ntrip_packet_def joblist_append_ntrip_unlocked_content_def
  joblist_append_stop_def

lemma append_main_refs:
  assumes "jobs_inv base run act q" "main_job j" "q1 = q\<lparr>refs := (\<lambda>r. refs q r + int (count_list (job_refs j) r))\<rparr>"
  shows "\<exists>q'. append_main q1 j = Some q' \<and> jobs_inv base run act q'"
  using append_main_ok[OF assms(1,2)] assms(3) by simp

lemma perform_ok:
  assumes inv: "system_inv base s" and en: "enabled s a"
  shows "\<exists>s'. perform s a = Some s' \<and> system_inv base s'"
proof -
  note main = append_main_refs[OF inv]
  show ?thesis
  proof (cases a)
    case (Append st j)
    with append_session_ok[OF inv, of j st] en show ?thesis by (auto simp: append_defs)
  next
    case (Append_redistribute cb x)
    with main[of "JOB_REDISTRIBUTE cb x" "jobs s"] show ?thesis by (auto simp: append_defs)
  next
    case (Append_unlocked cb st)
    with main[of "JOB_NTRIP_UNLOCKED cb st" "jobs s"] show ?thesis by (auto simp: append_defs)
  next
    case (Append_livesource cb st l x)
    with main[of "JOB_NTRIP_LIVESOURCE cb st l x" "incref (Ref_livesource l) (incref (Ref_st st) (jobs s))"]
    show ?thesis by (auto simp: append_defs incref_def fun_eq_iff)
  next
    case (Append_packet cb st p x)
    with main[of "JOB_NTRIP_PACKET cb st p x" "incref (Ref_packet p) (incref (Ref_st st) (jobs s))"]
    show ?thesis by (auto simp: append_defs incref_def fun_eq_iff)
  next
    case (Append_content cb st c r)
    with main[of "JOB_NTRIP_UNLOCKED_CONTENT cb st c r" "incref (Ref_st st) (jobs s)"]
    show ?thesis by (auto simp: append_defs incref_def fun_eq_iff)
  next
    case Append_stop
    with main[of JOB_STOP_THREAD "jobs s"] show ?thesis by (auto simp: append_defs)
  next
    case Take_job
    from take_job_ok[OF inv] obtain r q where "take_job (jobs s) = Some (r, q)" "jobs_inv base (running s) (option_list r @ active s) q" by blast
    with Take_job show ?thesis by (cases r) simp_all
  next
    case (Done_job j)
    with done_job_ok[OF inv, of j] en show ?thesis by auto
  next
    case Take_session
    with take_session_ok[OF inv] show ?thesis by auto
  next
    case (Run_session_job st)
    with en take_session_job_ok[OF inv, of st] show ?thesis
      by (cases "st_jobq (sessions (jobs s) st)") auto
  next
    case (Release_session st)
    with release_ok[OF inv] en show ?thesis by auto
  next
    case (Drain st)
    with drain_ok[OF inv] show ?thesis by auto
  next
    case (End_session st)
    with end_session_ok[OF inv] show ?thesis by auto
  qed
qed

lemma reachable_inv: "reachable base s \<Longrightarrow> system_inv base s"
proof (induction rule: reachable.induct)
  case (start ss)
  then show ?case by (auto simp: joblist_new_def jobs_inv_def queued_def session_ok_def fresh_session_def)
next
  case (move s a s')
  with perform_ok[of base s a] show ?case by auto
qed

text \<open>
  C3: in every state that any interleaving of workers, events and callbacks reaches, every step that
  is enabled succeeds: no assertion on the counters and marks of the queues fails, no worker
  aborts on a job in the wrong queue.
\<close>

theorem jobs_never_abort:
  assumes "reachable base s" "enabled s a"
  shows "\<exists>s'. perform s a = Some s' \<and> reachable base s'"
  using perform_ok[OF reachable_inv[OF assms(1)] assms(2)] reachable.move[OF assms] by blast

definition demo_sessions :: "nat \<Rightarrow> session" where
  "demo_sessions = (\<lambda>_. \<lparr>st_jobq = [], st_njobs = 0, newjobs = 0, ended = False, bev_freed = False\<rparr>)"

definition demo_system :: system where
  "demo_system = \<lparr>jobs = joblist_new demo_sessions (\<lambda>_. 1), running = {}, active = []\<rparr>"

lemma demo_system_reachable: "reachable (\<lambda>_. 1) demo_system"
  unfolding demo_system_def by (rule reachable.start) (simp add: demo_sessions_def fresh_session_def)

theorem jobs_never_abort_witness:
  "\<exists>s'. perform demo_system (Append 0 (JOB_NTRIP_LOCK 7)) = Some s' \<and> reachable (\<lambda>_. 1) s'"
  by (rule jobs_never_abort[OF demo_system_reachable])
    (simp add: demo_system_def joblist_new_def demo_sessions_def)

text \<open>
  C27: in every reachable state a session is linked at most once in the queues of sessions, and it is
  linked exactly if it carries the mark; a session that has jobs is linked or a worker is running
  it, so that no job is forgotten; every counter is the length of its queue; no two
  neighbouring jobs of a session are equal; and the references to sessions, live sources and packets
  are those of the jobs that are queued or running.
\<close>

theorem jobs_invariant:
  assumes "reachable base s"
  shows "distinct (queued (jobs s)) \<and> (\<forall>st. newjobs (sessions (jobs s) st) = - 1 \<longleftrightarrow> st \<in> set (queued (jobs s))) \<and>
    (\<forall>st. st_jobq (sessions (jobs s) st) = [] \<or> st \<in> set (queued (jobs s)) \<or> st \<in> running s) \<and>
    (\<forall>st. st_njobs (sessions (jobs s) st) = int (length (st_jobq (sessions (jobs s) st))) \<and>
      successively (\<lambda>a b. \<not> job_equal a b) (st_jobq (sessions (jobs s) st))) \<and>
    njobs (jobs s) = int (length (jobq (jobs s))) \<and> append_njobs (jobs s) = int (length (append_jobq (jobs s))) \<and>
    ntrip_njobs (jobs s) = int (length (ntrip_queue (jobs s))) \<and>
    append_ntrip_njobs (jobs s) = int (length (append_queue (jobs s))) \<and>
    (\<forall>r. refs (jobs s) r = base r + held (jobq (jobs s) @ append_jobq (jobs s) @ active s) r)"
  using reachable_inv[OF assms] by (auto simp: jobs_inv_def session_ok_def split: if_splits)

lemma demo_queued_reachable:
  "\<exists>s. perform demo_system (Append 0 (JOB_NTRIP_LOCK 7)) = Some s \<and> reachable (\<lambda>_. 1) s"
proof -
  have en: "enabled demo_system (Append 0 (JOB_NTRIP_LOCK 7))"
    by (simp add: demo_system_def joblist_new_def demo_sessions_def)
  with perform_ok[OF reachable_inv[OF demo_system_reachable] en] reachable.move[OF demo_system_reachable en]
  show ?thesis by blast
qed

theorem jobs_invariant_witness:
  "\<exists>s. perform demo_system (Append 0 (JOB_NTRIP_LOCK 7)) = Some s \<and> st_jobq (sessions (jobs s) 0) = [JOB_NTRIP_LOCK 7] \<and>
    st_njobs (sessions (jobs s) 0) = 1 \<and> 0 \<in> set (queued (jobs s)) \<and> newjobs (sessions (jobs s) 0) = - 1"
proof -
  obtain s where s: "perform demo_system (Append 0 (JOB_NTRIP_LOCK 7)) = Some s" "reachable (\<lambda>_. 1) s"
    using demo_queued_reachable by blast
  then have q: "running s = {}" "st_jobq (sessions (jobs s) 0) = [JOB_NTRIP_LOCK 7]"
    by (auto simp: demo_system_def joblist_new_def demo_sessions_def joblist_append_generic_def append_session_def
        insert_session_def Let_def)
  have "st_jobq (sessions (jobs s) 0) = [] \<or> 0 \<in> set (queued (jobs s)) \<or> 0 \<in> running s"
    "newjobs (sessions (jobs s) 0) = - 1 \<longleftrightarrow> 0 \<in> set (queued (jobs s))"
    "st_njobs (sessions (jobs s) 0) = int (length (st_jobq (sessions (jobs s) 0)))" using jobs_invariant[OF s(2)] by blast+
  with q s(1) show ?thesis by (intro exI[of _ s]) simp
qed

subsection \<open>A worker runs everything that is queued\<close>

text \<open>Callbacks that append no job and end no session.\<close>

abbreviation quiet :: exec where
  "quiet \<equiv> (\<lambda>_ _. Some)"

definition ran :: "nat option \<Rightarrow> (nat option \<times> job) list \<Rightarrow> job list" where
  "ran x log = map snd (filter (\<lambda>e. fst e = x) log)"

lemma ran_simps [simp]: "ran x [] = []" "ran x (e # l) = (if fst e = x then snd e # ran x l else ran x l)"
  "ran x (l @ m) = ran x l @ ran x m"
  by (simp_all add: ran_def)

lemma ran_map: "ran x (map (Pair y) js) = (if x = y then js else [])"
  by (induction js) auto

lemma run_session_quiet:
  assumes "jobs_inv base run act q"
  shows "\<exists>q'. run_session quiet st q = Some (map (Pair (Some st)) (if ended (sessions q st) then [] else st_jobq (sessions q st)), q') \<and>
    jobs_inv base run act q' \<and> st_jobq (sessions q' st) = [] \<and> (\<forall>st'. st' \<noteq> st \<longrightarrow> sessions q' st' = sessions q st') \<and>
    ended (sessions q' st) = ended (sessions q st) \<and> queued q' = queued q \<and> jobq q' = jobq q \<and> append_jobq q' = append_jobq q"
  using assms
proof (induction "st_jobq (sessions q st)" arbitrary: q)
  case Nil
  then have "run_session quiet st q = Some ([], q)" by (subst run_session.simps) simp
  with Nil show ?case by simp
next
  case (Cons j js)
  from take_session_job_ok[OF Cons.prems Cons.hyps(2)[symmetric]] obtain q1 where
    t: "take_session_job st q = Some (j, \<not> ended (sessions q st), q1)" "jobs_inv base run act q1"
      "q1 = set_session st ((sessions q st)\<lparr>st_jobq := js, st_njobs := st_njobs (sessions q st) - 1\<rparr>) q" by blast
  have q1: "st_jobq (sessions q1 st) = js" "ended (sessions q1 st) = ended (sessions q st)" "queued q1 = queued q"
      "jobq q1 = jobq q" "append_jobq q1 = append_jobq q" "\<forall>st'. st' \<noteq> st \<longrightarrow> sessions q1 st' = sessions q st'"
    by (simp_all add: t(3) queued_def)
  from Cons.hyps(1)[OF q1(1)[symmetric] t(2)] obtain q2 where
    "run_session quiet st q1 = Some (map (Pair (Some st)) (if ended (sessions q1 st) then [] else js), q2)"
    "jobs_inv base run act q2" "st_jobq (sessions q2 st) = []" "\<forall>st'. st' \<noteq> st \<longrightarrow> sessions q2 st' = sessions q1 st'"
    "ended (sessions q2 st) = ended (sessions q1 st)" "queued q2 = queued q1" "jobq q2 = jobq q1" "append_jobq q2 = append_jobq q1"
    unfolding q1(1) by blast
  moreover from this have "run_session quiet st q = Some (map (Pair (Some st)) (if ended (sessions q st) then [] else j # js), q2)"
    using t(1) Cons.hyps(2)[symmetric] q1(2) by (subst run_session.simps) simp
  ultimately show ?case using q1 Cons.hyps(2)[symmetric] by auto
qed

definition pending :: "joblist \<Rightarrow> nat option \<Rightarrow> job list" where
  "pending q x = (case x of None \<Rightarrow> jobq q @ append_jobq q
     | Some st \<Rightarrow> if ended (sessions q st) then [] else st_jobq (sessions q st))"

text \<open>The work that is left, which decreases with every pass of the loop.\<close>

definition work :: "joblist \<Rightarrow> nat" where
  "work q = length (jobq q @ append_jobq q) + length (queued q)"

text \<open>One pass of the loop up to the point where it takes a session.\<close>

lemma run_job_quiet:
  assumes inv: "jobs_inv base {} [] q" and stop: "JOB_STOP_THREAD \<notin> set (jobq q @ append_jobq q)"
  shows "\<exists>r q1 q2. take_job q = Some (r, q1) \<and> r \<noteq> Some JOB_STOP_THREAD \<and>
    (case r of None \<Rightarrow> Some q1 | Some j \<Rightarrow> run_main quiet j q1) = Some q2 \<and> jobs_inv base {} [] q2 \<and>
    jobq q @ append_jobq q = option_list r @ jobq q2 @ append_jobq q2 \<and> (r = None \<longrightarrow> jobq q = [] \<and> append_jobq q = []) \<and>
    sessions q2 = sessions q \<and> queued q2 = queued q"
proof -
  from take_job_ok[OF inv] obtain r q1 where
    t: "take_job q = Some (r, q1)" "jobs_inv base {} (option_list r @ []) q1"
      "jobq q @ append_jobq q = option_list r @ jobq q1 @ append_jobq q1" "r = None \<longrightarrow> jobq q = [] \<and> append_jobq q = []"
      "sessions q1 = sessions q" "queued q1 = queued q" by blast
  show ?thesis
  proof (cases r)
    case None
    with t show ?thesis by auto
  next
    case (Some j)
    with t(2) have d: "jobs_inv base {} [j] q1" "main_job j" by (auto simp: jobs_inv_def)
    from done_job_ok[OF d(1), of j] have "jobs_inv base {} [] (drop_job j q1)" "run_main quiet j q1 = Some (drop_job j q1)"
      using d(2) by (auto simp: run_main_def)
    with t Some stop show ?thesis
      by (intro exI[of _ "Some j"] exI[of _ q1] exI[of _ "drop_job j q1"]) (auto simp: drop_job_eq queued_def)
  qed
qed

text \<open>A worker that takes a session runs its pending jobs and leaves it idle.\<close>

lemma session_turn_quiet:
  assumes "jobs_inv base {} [] q" "take_session q = Some (Some st, q1)"
  shows "\<exists>q2. run_session quiet st q1 = Some (map (Pair (Some st)) (pending q (Some st)), q2) \<and> jobs_inv base {} [] q2 \<and>
    pending q2 (Some st) = [] \<and> (\<forall>st'. st' \<noteq> st \<longrightarrow> pending q2 (Some st') = pending q (Some st')) \<and>
    queued q = st # queued q2 \<and> jobq q2 = jobq q \<and> append_jobq q2 = append_jobq q"
proof -
  from take_session_ok[OF assms(1)] assms(2) have inv1: "jobs_inv base ({} \<union> set_option (Some st)) [] q1"
    and q1: "queued q = st # queued q1" "sessions q1 = (sessions q)(st := (sessions q st)\<lparr>newjobs := 0\<rparr>)" "jobq q1 = jobq q" "append_jobq q1 = append_jobq q"
    by auto
  from run_session_quiet[OF inv1, of st] obtain q2 where
    v: "run_session quiet st q1 = Some (map (Pair (Some st)) (if ended (sessions q1 st) then [] else st_jobq (sessions q1 st)), q2)"
      "jobs_inv base ({} \<union> set_option (Some st)) [] q2" "st_jobq (sessions q2 st) = []" "\<forall>st'. st' \<noteq> st \<longrightarrow> sessions q2 st' = sessions q1 st'"
      "queued q2 = queued q1" "jobq q2 = jobq q1" "append_jobq q2 = append_jobq q1" by blast
  have "(if ended (sessions q1 st) then [] else st_jobq (sessions q1 st)) = pending q (Some st)" using q1(2) by (simp add: pending_def)
  moreover have "jobs_inv base {} [] q2" using release_ok[OF v(2,3)] by simp
  moreover have "pending q2 (Some st) = []" "\<forall>st'. st' \<noteq> st \<longrightarrow> pending q2 (Some st') = pending q (Some st')" using v(3,4) q1(2) by (simp_all add: pending_def)
  ultimately show ?thesis using v q1 by simp
qed

lemma joblist_run_quiet:
  assumes "jobs_inv base {} [] q" "JOB_STOP_THREAD \<notin> set (jobq q @ append_jobq q)"
  shows "\<exists>log q'. joblist_run quiet q = Some (log, q') \<and> jobs_inv base {} [] q' \<and> work q' = 0 \<and>
    (\<forall>x. ran x log = pending q x)"
  using assms
proof (induction "work q" arbitrary: q rule: less_induct)
  case less
  from run_job_quiet[OF less.prems] obtain r q1 q2 where
    t: "take_job q = Some (r, q1)" "r \<noteq> Some JOB_STOP_THREAD"
      "(case r of None \<Rightarrow> Some q1 | Some j \<Rightarrow> run_main quiet j q1) = Some q2" "jobs_inv base {} [] q2"
      "jobq q @ append_jobq q = option_list r @ jobq q2 @ append_jobq q2" "r = None \<longrightarrow> jobq q = [] \<and> append_jobq q = []"
      "sessions q2 = sessions q" "queued q2 = queued q" by blast
  have stop2: "JOB_STOP_THREAD \<notin> set (jobq q2 @ append_jobq q2)" using less.prems(2) unfolding t(5) by simp
  from take_session_ok[OF t(4)] obtain sr q3 where u: "take_session q2 = Some (sr, q3)" "sr = None \<longrightarrow> queued q2 = [] \<and> q3 = q2" by blast
  have same: "pending q (Some st) = pending q2 (Some st)" for st using t(7) by (simp add: pending_def)
  show ?case
  proof (cases sr)
    case None
    with u(2) have q3: "queued q2 = []" "q3 = q2" by auto
    have idle: "pending q2 (Some st) = []" for st
      using t(4) q3(1) by (auto simp: pending_def jobs_inv_def session_ok_def)
    show ?thesis
    proof (cases r)
      case r: None
      then have "joblist_run quiet q = Some ([], q2)"
        using t(1,3) u(1) None q3(2) by (subst joblist_run.simps) simp
      moreover have "work q2 = 0" "pending q None = []" using t(5,6) r q3(1) by (auto simp: work_def pending_def)
      then have "\<forall>x. ran x [] = pending q x" using idle same by (metis option.exhaust ran_simps(1))
      ultimately show ?thesis using t(4) \<open>work q2 = 0\<close> by blast
    next
      case (Some j)
      have "work q2 < work q" using Some t(5,8) by (simp add: work_def)
      from less.hyps[OF this t(4) stop2] obtain log q' where
        l: "joblist_run quiet q2 = Some (log, q')" "jobs_inv base {} [] q'" "work q' = 0" "\<forall>x. ran x log = pending q2 x" by blast
      have "joblist_run quiet q = Some ((None, j) # log, q')"
        using t(1,2,3) u(1) None q3(2) Some l(1) by (subst joblist_run.simps) simp
      moreover have "ran x ((None, j) # log) = pending q x" for x
        using l(4) Some t(5) same by (cases x) (auto simp: pending_def)
      ultimately show ?thesis using l(2,3) by blast
    qed
  next
    case (Some st)
    from session_turn_quiet[OF t(4), of st q3] u(1) Some obtain q4 where
      v: "run_session quiet st q3 = Some (map (Pair (Some st)) (pending q2 (Some st)), q4)" "jobs_inv base {} [] q4" "pending q4 (Some st) = []"
        "\<forall>st'. st' \<noteq> st \<longrightarrow> pending q4 (Some st') = pending q2 (Some st')" "queued q2 = st # queued q4" "jobq q4 = jobq q2" "append_jobq q4 = append_jobq q2" by auto
    have stop4: "JOB_STOP_THREAD \<notin> set (jobq q4 @ append_jobq q4)" using stop2 v(6,7) by simp
    have "work q4 < work q" using t(5) v(6,7) v(5)[unfolded t(8)] by (simp add: work_def)
    from less.hyps[OF this v(2) stop4] obtain log q' where
      l: "joblist_run quiet q4 = Some (log, q')" "jobs_inv base {} [] q'" "work q' = 0" "\<forall>x. ran x log = pending q4 x" by blast
    let ?log = "map (Pair None) (option_list r) @ map (Pair (Some st)) (pending q2 (Some st)) @ log"
    have "joblist_run quiet q = Some (?log, q')"
      using t(1,2,3) u(1) Some v(1) l(1) by (subst joblist_run.simps) (cases r; simp)
    moreover have "ran x ?log = pending q x" for x
    proof (cases x)
      case None
      with l(4) t(5) v(6,7) show ?thesis by (simp add: ran_map pending_def)
    next
      case x: (Some st')
      then show ?thesis using l(4) v(3,4) same by (cases "st' = st") (simp_all add: ran_map)
    qed
    ultimately show ?thesis using l(2,3) by blast
  qed
qed

text \<open>
  C26: a worker that starts when no other worker is running a job, with callbacks that append nothing,
  comes to the point where it waits: all queues are empty, no reference is held by a job any more,
  and every job that was queued has been run exactly once, the jobs of a session in the order in
  which they were appended (those of a session that has ended are dropped), the jobs without a lock
  in their order too.
\<close>

theorem joblist_run_drains:
  assumes "reachable base s" "running s = {}" "active s = []" "JOB_STOP_THREAD \<notin> set (jobq (jobs s) @ append_jobq (jobs s))"
  shows "\<exists>log q. joblist_run quiet (jobs s) = Some (log, q) \<and> queued q = [] \<and> jobq q = [] \<and> append_jobq q = [] \<and>
    (\<forall>st. st_jobq (sessions q st) = []) \<and> refs q = base \<and>
    ran None log = jobq (jobs s) @ append_jobq (jobs s) \<and>
    (\<forall>st. ran (Some st) log = (if ended (sessions (jobs s) st) then [] else st_jobq (sessions (jobs s) st)))"
proof -
  from joblist_run_quiet[of base "jobs s"] reachable_inv[OF assms(1)] assms(2-4) obtain log q where
    l: "joblist_run quiet (jobs s) = Some (log, q)" "jobs_inv base {} [] q" "work q = 0" "\<forall>x. ran x log = pending (jobs s) x" by auto
  have "queued q = []" "jobq q = []" "append_jobq q = []" using l(3) by (auto simp: work_def)
  with l show ?thesis by (auto simp: jobs_inv_def session_ok_def pending_def)
qed

theorem joblist_run_drains_witness:
  "\<exists>s log q. perform demo_system (Append 0 (JOB_NTRIP_LOCK 7)) = Some s \<and> joblist_run quiet (jobs s) = Some (log, q) \<and>
    queued q = [] \<and> ran (Some 0) log = [JOB_NTRIP_LOCK 7]"
proof -
  obtain s where s: "perform demo_system (Append 0 (JOB_NTRIP_LOCK 7)) = Some s" "reachable (\<lambda>_. 1) s"
    using demo_queued_reachable by blast
  then have "running s = {}" "active s = []" "jobq (jobs s) = []" "append_jobq (jobs s) = []"
      "st_jobq (sessions (jobs s) 0) = [JOB_NTRIP_LOCK 7]" "\<not> ended (sessions (jobs s) 0)"
    by (auto simp: demo_system_def joblist_new_def demo_sessions_def joblist_append_generic_def append_session_def
        insert_session_def Let_def)
  with joblist_run_drains[OF s(2)] s(1) show ?thesis by auto
qed

text \<open>
  The mark, not an empty queue, says whether a session is linked: after a callback has appended a job
  while its session is being run, the worker goes on to run that job too and leaves the session in the
  append queue with no job.
\<close>

lemma linked_without_jobs:
  "\<exists>s st. reachable (\<lambda>_. 1) s \<and> st \<in> set (queued (jobs s)) \<and> st_jobq (sessions (jobs s) st) = []"
proof -
  obtain s1 where s1: "perform demo_system (Append 0 (JOB_NTRIP_LOCK 7)) = Some s1" "reachable (\<lambda>_. 1) s1"
    using demo_queued_reachable by blast
  have "reachable (\<lambda>_. 1) (s1\<lparr>jobs := joblist_drain (jobs s1) 0\<rparr>)"
    by (rule reachable.move[OF s1(2), of "Drain 0"]) simp_all
  moreover have "0 \<in> set (queued (joblist_drain (jobs s1) 0))" "st_jobq (sessions (joblist_drain (jobs s1) 0) 0) = []"
    using s1(1) by (auto simp: demo_system_def joblist_new_def demo_sessions_def joblist_append_generic_def append_session_def
        insert_session_def Let_def joblist_drain_def drain_jobs_eq queued_def)
  ultimately show ?thesis by fastforce
qed

end
