(* ===== verification/Util_Text.thy ===== *)
theory Util_Text
  imports Complex_Main HashTable Bitfield
begin

text \<open>
  The text utilities of \<^verbatim>\<open>caster/util.c\<close> and the parser of URL-encoded forms of
  \<^verbatim>\<open>caster/hash.c\<close>: paths, percent decoding, base64, header lines, case-insensitive search,
  dates, field files and NMEA position sentences. Allocations succeed. A write past the end of an
  allocated buffer is \<^const>\<open>None\<close>.
\<close>

subsection \<open>Paths\<close>

definition joinpath :: "cstring \<Rightarrow> cstring \<Rightarrow> cstring" where
  "joinpath dir path =
     (if path = [] \<or> hd path \<noteq> CHR ''/''
      then let addslash = (dir = [] \<or> last dir \<noteq> CHR ''/'')
           in dir @ (if addslash then ''/'' else []) @ path
      else path)"

text \<open>
  \<open>path_join\<close>: \<open>strcat\<close> on a buffer of \<open>len\<close> bytes, terminator included. For every element the
  separator is added if the element has a second character and the text does not end with a slash
  (\<open>p[0][1]\<close> of an empty element reads past its terminator: \<^const>\<open>None\<close>).
\<close>

definition strcat_buf :: "nat \<Rightarrow> cstring \<Rightarrow> cstring \<Rightarrow> cstring option" where
  "strcat_buf len r s = (if length (r @ s) < len then Some (r @ s) else None)"

fun path_join_loop :: "nat \<Rightarrow> cstring \<Rightarrow> cstring list \<Rightarrow> cstring option" where
  "path_join_loop len r [] = Some r"
| "path_join_loop len r (p # ps) = do {
     sep \<leftarrow> (case p of [] \<Rightarrow> None | [_] \<Rightarrow> Some False | _ \<Rightarrow> Some (r = [] \<or> last r \<noteq> CHR ''/''));
     r \<leftarrow> (if sep then strcat_buf len r ''/'' else Some r);
     r \<leftarrow> strcat_buf len r (if hd p = CHR ''/'' then tl p else p);
     path_join_loop len r ps
   }"

definition path_join :: "cstring \<Rightarrow> cstring list \<Rightarrow> cstring option" where
  "path_join abs_dir list =
     (let rel = (case list of [] \<Rightarrow> False | p # _ \<Rightarrow> p = [] \<or> hd p \<noteq> CHR ''/'');
          len = 1 + (if rel then length abs_dir else 0) + sum_list (map length list)
      in do {
        r \<leftarrow> (if rel then strcat_buf len [] abs_dir else Some []);
        path_join_loop len r list
      })"

subsection \<open>Percent decoding\<close>

definition xdigit_val :: "char \<Rightarrow> nat" where
  "xdigit_val c = of_char (c_tolower c) - (if c_isdigit c then 48 else 97 - 10)"

fun urldecode_loop :: "cstring \<Rightarrow> cstring" where
  "urldecode_loop [] = []"
| "urldecode_loop (c # s) =
     (if c = CHR ''+'' then CHR '' '' # urldecode_loop s
      else if c = CHR 0x25 then
        (case s of
           a # b # s' \<Rightarrow>
             if c_isxdigit a \<and> c_isxdigit b
             then char_of (xdigit_val a * 16 + xdigit_val b) # urldecode_loop s'
             else c # urldecode_loop s
         | _ \<Rightarrow> c # urldecode_loop s)
      else c # urldecode_loop s)"

text \<open>The text up to the first character to decode is kept as it is; decoding then ends at a zero byte.\<close>

definition urldecode :: "cstring \<Rightarrow> cstring" where
  "urldecode s =
     (let plain = takeWhile (\<lambda>c. c \<noteq> CHR ''+'' \<and> c \<noteq> CHR 0x25) s
      in takeWhile (\<lambda>c. c \<noteq> CHR 0x00) (plain @ urldecode_loop (drop (length plain) s)))"

subsection \<open>Base64\<close>

definition base64 :: cstring where
  "base64 = ''ABCDEFGHIJKLMNOPQRSTUVWXYZabcdefghijklmnopqrstuvwxyz0123456789+/''"

definition b64char :: "32 word \<Rightarrow> char" where
  "b64char i = base64 ! unat i"

fun b64encode_loop :: "byte list \<Rightarrow> cstring" where
  "b64encode_loop (x # y # z # r) =
     [b64char (drop_bit 2 (ucast x)),
      b64char ((push_bit 4 (ucast x) OR drop_bit 4 (ucast y)) AND 63),
      b64char ((push_bit 2 (ucast y) OR drop_bit 6 (ucast z)) AND 63),
      b64char (ucast z AND 63)] @ b64encode_loop r"
| "b64encode_loop [x, y] =
     [b64char (drop_bit 2 (ucast x)),
      b64char ((push_bit 4 (ucast x) OR drop_bit 4 (ucast y)) AND 63),
      b64char (push_bit 2 (ucast y) AND 63), CHR ''='']"
| "b64encode_loop [x] =
     [b64char (drop_bit 2 (ucast x)), b64char (push_bit 4 (ucast x) AND 63), CHR ''='', CHR ''='']"
| "b64encode_loop [] = []"

text \<open>The result with its size bounded by the allocation (the terminator excluded).\<close>

definition b64encode :: "byte list \<Rightarrow> cstring option" where
  "b64encode str =
     (let len = length str; remain = len mod 3;
          b64len = len div 3 * 4 + (if remain \<noteq> 0 then 4 else 0);
          r = b64encode_loop str
      in if length r \<le> b64len then Some r else None)"

definition b64value :: "char \<Rightarrow> 64 word option" where
  "b64value c = (let n = of_char c :: nat in
     if 65 \<le> n \<and> n \<le> 90 then Some (of_nat (n - 65))
     else if 97 \<le> n \<and> n \<le> 122 then Some (of_nat (n - 97 + 26))
     else if 48 \<le> n \<and> n \<le> 57 then Some (of_nat (n - 48 + 52))
     else if n = 43 then Some 62
     else if n = 47 then Some 63
     else None)"

text \<open>
  The loop of \<open>b64decode\<close>: the accumulator \<open>i\<close> starts with a marker bit; outer \<^const>\<open>None\<close> is a
  write past the result, inner \<^const>\<open>None\<close> an invalid character.
\<close>

definition put_bytes :: "nat \<Rightarrow> byte list \<Rightarrow> byte list \<Rightarrow> byte list option" where
  "put_bytes result_len r bs = (if length (r @ bs) \<le> result_len then Some (r @ bs) else None)"

fun b64decode_loop :: "nat \<Rightarrow> 64 word \<Rightarrow> byte list \<Rightarrow> cstring \<Rightarrow> byte list option option" where
  "b64decode_loop result_len i r [] =
     (if bit i 18 then map_option Some (put_bytes result_len r [ucast (drop_bit 10 i), ucast (drop_bit 2 i)])
      else if bit i 12 then map_option Some (put_bytes result_len r [ucast (drop_bit 4 i)])
      else Some (Some r))"
| "b64decode_loop result_len i r (c # s) =
     (case b64value c of
        None \<Rightarrow> Some None
      | Some b6 \<Rightarrow>
          let i = push_bit 6 i + b6
          in if bit i 24 then do {
               r \<leftarrow> put_bytes result_len r [ucast (drop_bit 16 i), ucast (drop_bit 8 i), ucast i];
               b64decode_loop result_len 1 r s
             }
             else b64decode_loop result_len i r s)"

definition b64decode :: "cstring \<Rightarrow> byte list option option" where
  "b64decode str =
     (let len = length str in
      if len mod 4 \<noteq> 0 then Some None
      else
        let result_len = len div 4 * 3;
            pad = (if len \<ge> 4 \<and> str ! (len - 1) = CHR ''=''
                   then (if str ! (len - 2) = CHR ''='' then 2 else 1) else 0)
        in b64decode_loop (result_len - pad) 1 [] (take (len - pad) str))"

subsection \<open>Header lines and searches\<close>

definition host_port_str :: "cstring \<Rightarrow> nat \<Rightarrow> cstring" where
  "host_port_str host port =
     (if CHR '':'' \<in> set host then ''['' @ host @ '']:'' @ c_show_nat port
      else host @ '':'' @ c_show_nat port)"

definition is_blank :: "char \<Rightarrow> bool" where
  "is_blank c \<longleftrightarrow> c = CHR '' '' \<or> c = CHR 0x09"

text \<open>The key and the value of a header line; \<^const>\<open>None\<close> if there is no colon.\<close>

definition parse_header :: "cstring \<Rightarrow> (cstring \<times> cstring) option" where
  "parse_header line =
     (case split_at_first (\<lambda>c. c = CHR '':'') line of
        (_, None) \<Rightarrow> None
      | (key, Some p) \<Rightarrow> Some (key, rev (dropWhile is_blank (rev (dropWhile is_blank p)))))"

text \<open>\<open>strncasecmp(s, find, len) == 0\<close> with \<open>len\<close> the length of \<open>find\<close>.\<close>

definition caseless_prefix :: "cstring \<Rightarrow> cstring \<Rightarrow> bool" where
  "caseless_prefix pat s \<longleftrightarrow> length pat \<le> length s \<and> c_strcaseeq (take (length pat) s) pat"

fun mystrcasestr_loop :: "char \<Rightarrow> cstring \<Rightarrow> cstring \<Rightarrow> cstring option" where
  "mystrcasestr_loop c pat [] = None"
| "mystrcasestr_loop c pat (sc # s) =
     (if c_tolower sc = c \<and> caseless_prefix pat s then Some (sc # s)
      else mystrcasestr_loop c pat s)"

definition mystrcasestr :: "cstring \<Rightarrow> cstring \<Rightarrow> cstring option" where
  "mystrcasestr s pat = (case pat of [] \<Rightarrow> Some s | c # r \<Rightarrow> mystrcasestr_loop (c_tolower c) r s)"

subsection \<open>Dates\<close>

text \<open>
  \<open>timeval_from_iso_date\<close>; \<open>strptime\<close> is the conversion of the date and time part by \<open>strptime\<close>
  followed by \<open>timegm\<close>.
\<close>

definition timeval_from_iso_date :: "(cstring \<Rightarrow> int option) \<Rightarrow> cstring \<Rightarrow> (int \<times> int) option" where
  "timeval_from_iso_date strptime iso_date =
     (let len = length iso_date in
      if len < 20 \<or> iso_date ! (len - 1) \<noteq> CHR ''Z'' then None
      else case strptime iso_date of
        None \<Rightarrow> None
      | Some tv_sec \<Rightarrow>
          if len = 20 then Some (tv_sec, 0)
          else if iso_date ! 19 = CHR ''.'' then
            let ndigits = len - 21 in
            if ndigits < 1 \<or> ndigits > 9 then None
            else
              let frac = take (min 6 ndigits) (drop 20 iso_date)
              in if \<not> list_all c_isdigit frac then None
                 else Some (tv_sec, int (digits_val (frac @ replicate (6 - length frac) CHR ''0'')))
          else None)"

text \<open>
  \<open>iso_date_from_timeval\<close>; \<open>strftime\<close> is the text that \<open>gmtime_r\<close> and \<open>strftime\<close> make of the seconds with the
  format \<open>%Y-%m-%dT%H:%M:%S\<close>. Every caller passes a buffer of 30 or 40 bytes, so that the final \<open>Z\<close> is
  overwritten by the milliseconds from the position 19 on; \<open>snprintf\<close> writes at most 5 characters there. A
  text that is shorter than that keeps its own end.
\<close>

definition iso_date_from_timeval :: "(int \<Rightarrow> cstring) \<Rightarrow> int \<times> int \<Rightarrow> cstring" where
  "iso_date_from_timeval strftime t =
     (let s = strftime (fst t) @ ''Z''; ms = c_show_nat (nat (snd t div 1000))
      in if length s < 19 then s
         else take 19 s @ take 5 (''.'' @ replicate (3 - length ms) CHR ''0'' @ ms @ ''Z''))"

text \<open>A date that is printed and parsed again is the time with its microseconds cut to milliseconds.\<close>

lemma digits_val_zeros: "digits_val (replicate n CHR ''0'' @ s) = digits_val s"
  by (induction n) (simp_all add: digits_val_def digit_val_def)

lemma show_nat_3: "n < 1000 \<Longrightarrow> length (c_show_nat n) \<le> 3"
  by (subst c_show_nat.simps, subst c_show_nat.simps, subst c_show_nat.simps) simp

lemma iso_date_roundtrip:
  assumes s: "length (strftime sec) = 19" "\<And>rest. strptime (strftime sec @ rest) = Some sec" and u: "0 \<le> usec" "usec < 10 ^ 6"
  shows "timeval_from_iso_date strptime (iso_date_from_timeval strftime (sec, usec)) = Some (sec, usec div 1000 * 1000)"
proof -
  define n where "n = nat (usec div 1000)"
  define d where "d = replicate (3 - length (c_show_nat n)) CHR ''0'' @ c_show_nat n"
  have "n < 1000" using u by (simp add: n_def)
  then have d: "length d = 3" "digits_val d = n" "list_all c_isdigit d"
    using show_nat_3[of n] c_show_nat_isdigit[of _ n] by (auto simp: d_def digits_val_zeros list_all_iff c_isdigit_def)
  have iso: "iso_date_from_timeval strftime (sec, usec) = strftime sec @ ''.'' @ d @ ''Z''"
    using s(1) d(1) by (simp add: iso_date_from_timeval_def Let_def d_def n_def)
  have "digits_val (d @ ''000'') = n * 1000"
    using d(2) by (simp add: digits_val_def digit_val_def)
  moreover have "int n = usec div 1000" using u by (simp add: n_def)
  moreover have "length (strftime sec @ ''.'' @ d @ ''Z'') = 24" "(strftime sec @ ''.'' @ d @ ''Z'') ! 23 = CHR ''Z''"
    "(strftime sec @ ''.'' @ d @ ''Z'') ! 19 = CHR ''.''" "take 3 (drop 20 (strftime sec @ ''.'' @ d @ ''Z'')) = d"
    "replicate 3 CHR ''0'' = ''000''"
    using s(1) d(1) by (simp_all add: nth_append numeral_3_eq_3)
  ultimately show ?thesis
    unfolding iso timeval_from_iso_date_def Let_def using s(2) d(1,3) by simp
qed

subsection \<open>Field files\<close>

text \<open>
  \<open>file_parse\<close> on the contents of the file: \<open>getline\<close> cuts at line feeds, the line end is
  removed, empty lines and lines that start with \<open>#\<close> are skipped, every other line must have
  exactly \<open>nfields\<close> fields; \<^const>\<open>None\<close> is the NULL result.
\<close>

definition strip_eol :: "cstring \<Rightarrow> cstring" where
  "strip_eol line = rev (dropWhile (\<lambda>c. c = CHR 0x0A \<or> c = CHR 0x0D) (rev line))"

definition line_fields :: "cstring \<Rightarrow> bool \<Rightarrow> cstring \<Rightarrow> cstring list" where
  "line_fields seps skipempty line =
     filter (\<lambda>token. \<not> skipempty \<or> token \<noteq> []) (strsep_tokens (\<lambda>c. c \<in> set seps) line)"

fun parse_lines :: "nat \<Rightarrow> cstring \<Rightarrow> bool \<Rightarrow> cstring list \<Rightarrow> cstring list list option" where
  "parse_lines nfields seps skipempty [] = Some []"
| "parse_lines nfields seps skipempty (l # ls) =
     (let line = strip_eol l in
      if line = [] \<or> hd line = CHR ''#'' then parse_lines nfields seps skipempty ls
      else
        let fields = line_fields seps skipempty line
        in if length fields \<noteq> nfields then None
           else map_option (\<lambda>r. fields # r) (parse_lines nfields seps skipempty ls))"

definition file_parse :: "cstring option \<Rightarrow> nat \<Rightarrow> cstring \<Rightarrow> bool \<Rightarrow> cstring list list option" where
  "file_parse contents nfields seps skipempty =
     (case contents of
        None \<Rightarrow> None
      | Some s \<Rightarrow> parse_lines nfields seps skipempty (strsep_tokens (\<lambda>c. c = CHR 0x0A) s))"

subsection \<open>Forms\<close>

text \<open>
  \<open>hash_from_urlencoding\<close>: fields are separated by ampersands or semicolons; a field is a key with
  an optional value; a repeated key is an error.
\<close>

definition form_field :: "cstring \<Rightarrow> cstring \<times> cstring" where
  "form_field keyval =
     (case split_at_first (\<lambda>c. c = CHR ''='') keyval of
        (k, None) \<Rightarrow> (urldecode k, [])
      | (k, Some v) \<Rightarrow> (urldecode k, urldecode v))"

fun add_form_fields :: "cstring hash_table \<Rightarrow> cstring list \<Rightarrow> cstring hash_table option" where
  "add_form_fields h [] = Some h"
| "add_form_fields h (keyval # r) =
     (let (k, v) = form_field keyval; (e, h') = hash_table_add True h k v
      in if e < 0 then None else add_form_fields h' r)"

definition hash_from_urlencoding :: "cstring \<Rightarrow> cstring hash_table option" where
  "hash_from_urlencoding urlencoding = do {
     h \<leftarrow> hash_table_new True 37;
     add_form_fields h (strsep_tokens (\<lambda>c. c = CHR ''&'' \<or> c = CHR '';'') urlencoding)
   }"

subsection \<open>NMEA sentences\<close>

text \<open>
  \<open>%wf\<close> of \<open>sscanf\<close>: white space, then at most \<open>w\<close> characters of a decimal number with optional
  sign and fraction; the value and the rest of the text. Exponents, hexadecimal numbers, infinities
  and NaN are not accepted by the model; values are exact.
\<close>

definition c_scan_f :: "nat \<Rightarrow> cstring \<Rightarrow> (real \<times> cstring) option" where
  "c_scan_f w s =
     (let t = dropWhile c_isspace s;
          u = take w t;
          (neg, v) = (case u of [] \<Rightarrow> (False, []) | c # r \<Rightarrow>
                        if c = CHR ''-'' then (True, r)
                        else if c = CHR ''+'' then (False, r) else (False, u));
          ip = takeWhile c_isdigit v;
          v' = drop (length ip) v;
          fp = (case v' of c # r \<Rightarrow> if c = CHR ''.'' then takeWhile c_isdigit r else [] | [] \<Rightarrow> []);
          dot = (v' \<noteq> [] \<and> hd v' = CHR ''.'');
          used = (length u - length v) + length ip + (if dot then 1 + length fp else 0);
          x = real (digits_val (ip @ fp)) / 10 ^ length fp
      in if ip = [] \<and> fp = [] then None
         else Some (if neg then - x else x, drop used t))"

text \<open>\<open>sscanf(token, "%wf%f", &s1, &s2) == 2\<close>.\<close>

definition scan_deg_min :: "nat \<Rightarrow> cstring \<Rightarrow> (real \<times> real) option" where
  "scan_deg_min w token = do {
     (s1, r) \<leftarrow> c_scan_f w token;
     (s2, _) \<leftarrow> c_scan_f (length r) r;
     Some (s1, s2)
   }"

record gga =
  gga_lat :: real
  gga_lon :: real
  gga_time :: cstring
  gga_quality :: int
  gga_nsats :: int
  gga_hdop :: real
  gga_alt :: real
  gga_geoid_sep :: real
  gga_diff_age :: real
  gga_diff_station :: int

definition gga_init :: gga where
  "gga_init = \<lparr>gga_lat = 0, gga_lon = 0, gga_time = [], gga_quality = 0, gga_nsats = - 1, gga_hdop = - 1,
     gga_alt = 0, gga_geoid_sep = 0, gga_diff_age = - 1, gga_diff_station = - 1\<rparr>"

definition scan_f_or :: "real \<Rightarrow> cstring \<Rightarrow> real" where
  "scan_f_or d token = (case c_scan_f (length token) token of None \<Rightarrow> d | Some (x, _) \<Rightarrow> x)"

definition scan_d_or :: "int \<Rightarrow> cstring \<Rightarrow> int" where
  "scan_d_or d token = (case c_sscanf_d token of None \<Rightarrow> d | Some x \<Rightarrow> x)"

text \<open>
  Degrees and minutes of a coordinate that is at most \<open>max_deg\<close>, and the hemisphere letter that keeps
  or negates it; \<^const>\<open>None\<close> sets the error flag.
\<close>

definition gga_degrees :: "nat \<Rightarrow> real \<Rightarrow> cstring \<Rightarrow> real option" where
  "gga_degrees w max_deg token =
     (case scan_deg_min w token of
        None \<Rightarrow> None
      | Some (s1, s2) \<Rightarrow>
          if s1 < 0 \<or> s2 < 0 \<or> s1 > max_deg \<or> s2 \<ge> 60 \<or> s1 + s2 / 60 > max_deg then None
          else Some (s1 + s2 / 60))"

definition gga_hemisphere :: "cstring \<Rightarrow> cstring \<Rightarrow> cstring \<Rightarrow> real \<Rightarrow> real option" where
  "gga_hemisphere neg keep token v =
     (if token = neg then Some (- v) else if token \<noteq> keep then None else Some v)"

definition set_or_err :: "(real \<Rightarrow> gga \<Rightarrow> gga) \<Rightarrow> real option \<Rightarrow> gga \<times> bool \<Rightarrow> gga \<times> bool" where
  "set_or_err upd v = (\<lambda>(g, err). case v of None \<Rightarrow> (g, True) | Some x \<Rightarrow> (upd x g, err))"

definition set_lat :: "real \<Rightarrow> gga \<Rightarrow> gga" where "set_lat x g = g\<lparr>gga_lat := x\<rparr>"
definition set_lon :: "real \<Rightarrow> gga \<Rightarrow> gga" where "set_lon x g = g\<lparr>gga_lon := x\<rparr>"

text \<open>The cases of the \<open>switch\<close> that follow the position.\<close>

definition gga_other :: "nat \<Rightarrow> cstring \<Rightarrow> gga \<Rightarrow> gga" where
  "gga_other n token g =
     (if n = 1 then g\<lparr>gga_time := take 15 token\<rparr>
      else if n = 7 then g\<lparr>gga_nsats := scan_d_or (gga_nsats g) token\<rparr>
      else if n = 8 then g\<lparr>gga_hdop := scan_f_or (gga_hdop g) token\<rparr>
      else if n = 9 then g\<lparr>gga_alt := scan_f_or (gga_alt g) token\<rparr>
      else if n = 11 then g\<lparr>gga_geoid_sep := scan_f_or (gga_geoid_sep g) token\<rparr>
      else if n = 13 then g\<lparr>gga_diff_age := scan_f_or (gga_diff_age g) token\<rparr>
      else if n = 14 then
        g\<lparr>gga_diff_station := scan_d_or (gga_diff_station g) (takeWhile (\<lambda>c. c \<noteq> CHR ''*'') token)\<rparr>
      else g)"

text \<open>The \<open>switch\<close> on the number of the field: sentence so far and error flag.\<close>

definition gga_field :: "nat \<Rightarrow> cstring \<Rightarrow> gga \<times> bool \<Rightarrow> gga \<times> bool" where
  "gga_field n token s =
     (if n = 2 then set_or_err set_lat (gga_degrees 2 90 token) s
      else if n = 3 then set_or_err set_lat (gga_hemisphere ''S'' ''N'' token (gga_lat (fst s))) s
      else if n = 4 then set_or_err set_lon (gga_degrees 3 180 token) s
      else if n = 5 then set_or_err set_lon (gga_hemisphere ''W'' ''E'' token (gga_lon (fst s))) s
      else if n = 6 then
        (case c_sscanf_d token of
           None \<Rightarrow> (fst s, True)
         | Some q \<Rightarrow> ((fst s)\<lparr>gga_quality := q\<rparr>, snd s \<or> q = 0))
      else (gga_other n token (fst s), snd s))"

fun gga_fields :: "nat \<Rightarrow> cstring list \<Rightarrow> gga \<times> bool \<Rightarrow> gga \<times> bool" where
  "gga_fields n [] s = s"
| "gga_fields n (token # r) s = gga_fields (Suc n) r (gga_field n token s)"

definition parse_gga :: "cstring \<Rightarrow> gga option" where
  "parse_gga text =
     (let line = dropWhile (\<lambda>c. c \<noteq> CHR ''$'') text in
      if line = [] then None
      else if length line < 20 then None
      else if line ! 1 \<noteq> CHR ''G'' then None
      else if line ! 3 \<noteq> CHR ''G'' \<or> line ! 4 \<noteq> CHR ''G'' \<or> line ! 5 \<noteq> CHR ''A'' then None
      else
        let tokens = strsep_tokens (\<lambda>c. c = CHR '','') line;
            (g, err) = gga_fields 0 tokens (gga_init, False)
        in if err \<or> length tokens \<noteq> 15 then None else Some g)"

subsection \<open>Base64 inverts\<close>

lemma b64value_table: "map b64value base64 = map (\<lambda>i. Some (of_nat i)) [0..<64]"
  by (simp add: base64_def b64value_def upt_rec)

lemma b64value_char:
  assumes "(v :: 32 word) < 64"
  shows "b64value (b64char v) = Some (ucast v)"
proof -
  have "unat v < 64" using assms by (simp add: word_less_nat_alt)
  moreover have "length base64 = 64" by (simp add: base64_def)
  ultimately have "b64value (base64 ! unat v) = Some (of_nat (unat v))"
    using arg_cong[OF b64value_table, of "\<lambda>l. l ! unat v"] by simp
  then show ?thesis by (simp add: b64char_def unsigned_of_nat)
qed

text \<open>The four six-bit groups of three bytes.\<close>

definition g0 :: "byte \<Rightarrow> 32 word" where "g0 x = drop_bit 2 (ucast x)"
definition g1 :: "byte \<Rightarrow> byte \<Rightarrow> 32 word" where "g1 x y = (push_bit 4 (ucast x) OR drop_bit 4 (ucast y)) AND 63"
definition g2 :: "byte \<Rightarrow> byte \<Rightarrow> 32 word" where "g2 y z = (push_bit 2 (ucast y) OR drop_bit 6 (ucast z)) AND 63"
definition g3 :: "byte \<Rightarrow> 32 word" where "g3 z = ucast z AND 63"

lemma bit_63: "bit (63 :: 32 word) k \<longleftrightarrow> k < 6"
proof -
  have "(63 :: 32 word) = mask 6" by (simp add: mask_eq_exp_minus_1)
  then show ?thesis by (simp only: bit_mask_iff) auto
qed

lemma bit_groups:
  "bit (g0 x) k \<longleftrightarrow> k < 6 \<and> bit x (k + 2)"
  "bit (g1 x y) k \<longleftrightarrow> k < 6 \<and> (if k < 4 then bit y (k + 4) else bit x (k - 4))"
  "bit (g2 y z) k \<longleftrightarrow> k < 6 \<and> (if k < 2 then bit z (k + 6) else bit y (k - 2))"
  "bit (g3 z) k \<longleftrightarrow> k < 6 \<and> bit z k"
  using bit_byte_less[of x "k + 2"] bit_byte_less[of y "k + 4"] bit_byte_less[of z "k + 6"]
  unfolding g0_def g1_def g2_def g3_def bit_and_iff bit_63
  by (auto simp: bit_simps add.commute)

lemma group_small: "(\<And>k. bit v k \<Longrightarrow> k < 6) \<Longrightarrow> (v :: 32 word) < 64"
proof -
  assume "\<And>k. bit v k \<Longrightarrow> k < 6"
  then have "v = v AND 63" unfolding bit_eq_iff bit_and_iff bit_63 by auto
  then have "v \<le> 63" using word_and_le1[of v 63] by simp
  also have "(63 :: 32 word) < 64" by simp
  finally show "v < 64" .
qed

lemmas groups_small = group_small[of "g0 x" for x] group_small[of "g1 x y" for x y]
  group_small[of "g2 y z" for y z] group_small[of "g3 z" for z]

lemma b64value_groups [simp]:
  "b64value (b64char (g0 x)) = Some (ucast (g0 x))" "b64value (b64char (g1 x y)) = Some (ucast (g1 x y))"
  "b64value (b64char (g2 y z)) = Some (ucast (g2 y z))" "b64value (b64char (g3 z)) = Some (ucast (g3 z))"
  by (rule b64value_char, rule groups_small, simp add: bit_groups)+

lemma push_add_group:
  assumes "\<And>k. bit (v :: 32 word) k \<Longrightarrow> k < 6"
  shows "push_bit 6 i + (ucast v :: 64 word) = push_bit 6 i OR ucast v"
proof (rule disjunctive_add_eq_or)
  show "push_bit 6 i AND (ucast v :: 64 word) = 0"
    by (rule bit_word_eqI) (use assms in \<open>fastforce simp: bit_and_iff bit_push_bit_iff bit_ucast_iff\<close>)
qed

lemma push_groups:
  "push_bit 6 i + ucast (g0 x) = push_bit 6 i OR (ucast (g0 x) :: 64 word)"
  "push_bit 6 i + ucast (g1 x y) = push_bit 6 i OR (ucast (g1 x y) :: 64 word)"
  "push_bit 6 i + ucast (g2 y z) = push_bit 6 i OR (ucast (g2 y z) :: 64 word)"
  "push_bit 6 i + ucast (g3 z) = push_bit 6 i OR (ucast (g3 z) :: 64 word)"
  by (rule push_add_group, simp add: bit_groups)+

text \<open>The accumulator after one to four characters of a group.\<close>

definition acc1 :: "byte \<Rightarrow> 64 word" where "acc1 x = push_bit 6 1 OR ucast (g0 x)"
definition acc2 :: "byte \<Rightarrow> byte \<Rightarrow> 64 word" where "acc2 x y = push_bit 6 (acc1 x) OR ucast (g1 x y)"
definition acc3 :: "byte \<Rightarrow> byte \<Rightarrow> byte \<Rightarrow> 64 word" where "acc3 x y z = push_bit 6 (acc2 x y) OR ucast (g2 y z)"
definition acc4 :: "byte \<Rightarrow> byte \<Rightarrow> byte \<Rightarrow> 64 word" where "acc4 x y z = push_bit 6 (acc3 x y z) OR ucast (g3 z)"

lemma bit_acc1: "k < 64 \<Longrightarrow> bit (acc1 x) k \<longleftrightarrow> k = 6 \<or> bit (g0 x) k"
  unfolding acc1_def bit_or_iff bit_push_bit_iff bit_ucast_iff bit_1_iff by (auto simp: bit_groups)

lemma bit_acc2: "k < 64 \<Longrightarrow> bit (acc2 x y) k \<longleftrightarrow> k = 12 \<or> (if k < 6 then bit (g1 x y) k else bit (g0 x) (k - 6))"
  unfolding acc2_def bit_or_iff bit_push_bit_iff bit_ucast_iff by (auto simp: bit_acc1 bit_groups)

lemma bit_acc3: "k < 64 \<Longrightarrow> bit (acc3 x y z) k \<longleftrightarrow> k = 18 \<or>
     (if k < 6 then bit (g2 y z) k else if k < 12 then bit (g1 x y) (k - 6) else bit (g0 x) (k - 12))"
  unfolding acc3_def bit_or_iff bit_push_bit_iff bit_ucast_iff by (auto simp: bit_acc2 bit_groups)

lemma bit_acc4: "k < 64 \<Longrightarrow> bit (acc4 x y z) k \<longleftrightarrow> k = 24 \<or> (if k < 6 then bit (g3 z) k else if k < 12 then bit (g2 y z) (k - 6)
     else if k < 18 then bit (g1 x y) (k - 12) else bit (g0 x) (k - 18))"
  unfolding acc4_def bit_or_iff bit_push_bit_iff bit_ucast_iff by (auto simp: bit_acc3 bit_groups)

lemmas bit_accs = bit_acc1 bit_acc2 bit_acc3 bit_acc4

lemma bits_below_8:
  assumes "bit a 0 = bit b 0" "bit a 1 = bit b 1" "bit a 2 = bit b 2" "bit a 3 = bit b 3"
    "bit a 4 = bit b 4" "bit a 5 = bit b 5" "bit a 6 = bit b 6" "bit a 7 = bit b 7"
  shows "a = (b :: byte)"
proof (rule bit_word_eqI)
  fix k assume "k < LENGTH(8)"
  then have "k < 8" by simp
  then consider "k = 0" | "k = 1" | "k = 2" | "k = 3" | "k = 4" | "k = 5" | "k = 6" | "k = 7" by linarith
  then show "bit a k = bit b k" by cases (simp_all only: assms)
qed

lemma acc_bytes:
  "ucast (drop_bit 16 (acc4 x y z)) = x" "ucast (drop_bit 8 (acc4 x y z)) = y" "ucast (acc4 x y z) = z"
  "ucast (drop_bit 10 (acc3 x y 0)) = x" "ucast (drop_bit 2 (acc3 x y 0)) = y"
  "ucast (drop_bit 4 (acc2 x 0)) = x"
  by (rule bits_below_8; (simp add: bit_ucast_iff bit_drop_bit_eq bit_accs bit_groups del: bit_0);
      (simp add: eval_nat_numeral del: bit_0)?)+

lemma decode_step:
  "b64value c = Some b6 \<Longrightarrow> b64decode_loop n i r (c # s) =
     (if bit (push_bit 6 i + b6) 24 then
        do { r \<leftarrow> put_bytes n r [ucast (drop_bit 16 (push_bit 6 i + b6)), ucast (drop_bit 8 (push_bit 6 i + b6)), ucast (push_bit 6 i + b6)];
             b64decode_loop n 1 r s }
      else b64decode_loop n (push_bit 6 i + b6) r s)"
  by (simp add: Let_def)

lemma decode_groups:
  "b64decode_loop n 1 r (b64char (g0 x) # s) = b64decode_loop n (acc1 x) r s"
  "b64decode_loop n (acc1 x) r (b64char (g1 x y) # s) = b64decode_loop n (acc2 x y) r s"
  "b64decode_loop n (acc2 x y) r (b64char (g2 y z) # s) = b64decode_loop n (acc3 x y z) r s"
  "b64decode_loop n (acc3 x y z) r (b64char (g3 z) # s) =
     do { r \<leftarrow> put_bytes n r [x, y, z]; b64decode_loop n 1 r s }"
  unfolding decode_step[OF b64value_groups(1)] decode_step[OF b64value_groups(2)]
    decode_step[OF b64value_groups(3)] decode_step[OF b64value_groups(4)] push_groups
    acc1_def[symmetric] acc2_def[symmetric] acc3_def[symmetric] acc4_def[symmetric] acc_bytes
  by (simp_all add: bit_accs bit_groups)

lemma encode_groups:
  "b64encode_loop (x # y # z # r) = b64char (g0 x) # b64char (g1 x y) # b64char (g2 y z) # b64char (g3 z) # b64encode_loop r"
  "b64encode_loop [x, y] = [b64char (g0 x), b64char (g1 x y), b64char (g2 y 0), CHR ''='']"
  "b64encode_loop [x] = [b64char (g0 x), b64char (g1 x 0), CHR ''='', CHR ''='']"
  by (simp_all add: g0_def g1_def g2_def g3_def)

lemma length_encode: "length (b64encode_loop bs) = (length bs + 2) div 3 * 4"
proof (induction bs rule: b64encode_loop.induct)
  case (1 x y z r)
  have "(length (x # y # z # r) + 2) div 3 = Suc ((length r + 2) div 3)"
    using div_add_self1[of 3 "length r + 2"] by simp
  with 1 show ?case by simp
qed simp_all

text \<open>The padding of an encoded text.\<close>

definition b64pad :: "'a list \<Rightarrow> nat" where
  "b64pad bs = (3 - length bs mod 3) mod 3"

lemma decode_encode_loop:
  "length r + length bs \<le> n \<Longrightarrow>
   b64decode_loop n 1 r (take (length (b64encode_loop bs) - b64pad bs) (b64encode_loop bs)) = Some (Some (r @ bs))"
proof (induction bs arbitrary: r rule: b64encode_loop.induct)
  case (1 x y z bs)
  have "b64pad (x # y # z # bs) = b64pad bs" by (simp add: b64pad_def)
  moreover have "b64pad bs \<le> length (b64encode_loop bs)" unfolding length_encode b64pad_def by (cases bs) auto
  ultimately have "take (length (b64encode_loop (x # y # z # bs)) - b64pad (x # y # z # bs)) (b64encode_loop (x # y # z # bs)) =
    b64char (g0 x) # b64char (g1 x y) # b64char (g2 y z) # b64char (g3 z) #
      take (length (b64encode_loop bs) - b64pad bs) (b64encode_loop bs)"
    unfolding encode_groups by (simp add: Suc_diff_le)
  with 1 show ?case by (simp add: decode_groups put_bytes_def del: b64decode_loop.simps(2))
next
  case (2 x y)
  have "bit (acc3 x y 0) 18" by (simp add: bit_accs)
  with 2 show ?case unfolding encode_groups by (simp add: b64pad_def decode_groups put_bytes_def acc_bytes del: b64decode_loop.simps(2))
next
  case (3 x)
  have "bit (acc2 x 0) 12" "\<not> bit (acc2 x 0) 18" by (simp_all add: bit_accs bit_groups)
  with 3 show ?case unfolding encode_groups by (simp add: b64pad_def decode_groups put_bytes_def acc_bytes del: b64decode_loop.simps(2))
qed simp

lemma b64char_not_pad:
  "b64char (g1 x y) \<noteq> CHR ''=''" "b64char (g2 y z) \<noteq> CHR ''=''" "b64char (g3 z) \<noteq> CHR ''=''"
proof -
  have "b64value CHR ''='' = None" by (simp add: b64value_def)
  then show "b64char (g1 x y) \<noteq> CHR ''=''" "b64char (g2 y z) \<noteq> CHR ''=''" "b64char (g3 z) \<noteq> CHR ''=''"
    using b64value_groups(2)[of x y] b64value_groups(3)[of y z] b64value_groups(4)[of z] by force+
qed

definition pad_chars :: "cstring \<Rightarrow> nat" where
  "pad_chars s = (if 4 \<le> length s \<and> s ! (length s - 1) = CHR ''=''
    then (if s ! (length s - 2) = CHR ''='' then 2 else 1) else 0)"

lemma pad_chars_append: "4 \<le> length s \<Longrightarrow> pad_chars (r @ s) = pad_chars s"
  by (auto simp: pad_chars_def nth_append)

lemma pad_chars_encode: "pad_chars (b64encode_loop bs) = b64pad bs"
proof (induction bs rule: b64encode_loop.induct)
  case (1 x y z bs)
  show ?case
  proof (cases bs)
    case Nil
    then show ?thesis
      by (simp add: encode_groups(1) pad_chars_def b64pad_def b64char_not_pad del: b64encode_loop.simps(1))
  next
    case (Cons b bs')
    have "length bs \<ge> 1" using Cons by simp
    then have "4 \<le> length (b64encode_loop bs)" unfolding length_encode by simp
    from pad_chars_append[OF this, of "[b64char (g0 x), b64char (g1 x y), b64char (g2 y z), b64char (g3 z)]"] 1
    show ?thesis unfolding encode_groups(1) by (simp add: b64pad_def)
  qed
qed (simp_all add: encode_groups pad_chars_def b64pad_def b64char_not_pad del: b64encode_loop.simps(2,3))

lemma b64_inverse: "b64encode bs = Some (b64encode_loop bs)" "b64decode (b64encode_loop bs) = Some (Some bs)"
proof -
  define q r where "q = length bs div 3" and "r = length bs mod 3"
  have l: "length bs = 3 * q + r" "r < 3" by (simp_all add: q_def r_def)
  consider "r = 0" | "r = 1" | "r = 2" using l(2) by linarith
  then have "(length bs + 2) div 3 = q + (if r = 0 then 0 else 1)" by cases (simp_all add: l(1))
  then have e: "length (b64encode_loop bs) = q * 4 + (if r = 0 then 0 else 4)" unfolding length_encode by simp
  show "b64encode bs = Some (b64encode_loop bs)"
    using e by (simp add: b64encode_def Let_def q_def r_def)
  have pad: "b64pad bs = (3 - r) mod 3" by (simp add: b64pad_def r_def)
  have "length bs \<le> length (b64encode_loop bs) div 4 * 3 - b64pad bs"
    using \<open>r < 3\<close> unfolding e pad l(1) by (cases "r = 0"; cases "r = 1") auto
  then have d: "b64decode_loop (length (b64encode_loop bs) div 4 * 3 - b64pad bs) 1 []
      (take (length (b64encode_loop bs) - b64pad bs) (b64encode_loop bs)) = Some (Some bs)"
    using decode_encode_loop[of "[]" bs "length (b64encode_loop bs) div 4 * 3 - b64pad bs"] by simp
  have "length (b64encode_loop bs) mod 4 = 0" by (simp add: length_encode)
  then show "b64decode (b64encode_loop bs) = Some (Some bs)"
    unfolding b64decode_def Let_def pad_chars_def[symmetric] pad_chars_encode d by (simp only: simp_thms if_False)
qed

subsection \<open>Properties of the text utilities\<close>

text \<open>
  Encoding any byte string in base64 fits the allocated buffer, and decoding the result
  never writes past its own buffer and gives the byte string back.
\<close>

lemma b64_roundtrip:
  "\<exists>s. b64encode bs = Some s \<and> length s = (length bs + 2) div 3 * 4 \<and> b64decode s = Some (Some bs)"
  using b64_inverse length_encode by blast

text \<open>Percent encoding of every character, as a reference.\<close>

definition hex_digit :: "nat \<Rightarrow> char" where
  "hex_digit n = char_of (if n < 10 then 48 + n else 55 + n)"

definition percent_encode :: "cstring \<Rightarrow> cstring" where
  "percent_encode s = concat (map (\<lambda>c. let n = of_char c in [CHR 0x25, hex_digit (n div 16), hex_digit (n mod 16)]) s)"

lemma hex_digit_value: "n < 16 \<Longrightarrow> c_isxdigit (hex_digit n) \<and> xdigit_val (hex_digit n) = n"
proof -
  have "\<forall>n \<in> set [0..<16]. c_isxdigit (hex_digit n) \<and> xdigit_val (hex_digit n) = n"
    by (simp add: upt_rec hex_digit_def c_isxdigit_def xdigit_val_def c_tolower_def c_isdigit_def Let_def)
  then show "n < 16 \<Longrightarrow> c_isxdigit (hex_digit n) \<and> xdigit_val (hex_digit n) = n" by simp
qed

lemma urldecode_loop_encoded: "urldecode_loop (percent_encode s) = s"
proof (induction s)
  case (Cons c s)
  have "of_char c < (256 :: nat)" by (rule nat_of_char_less_256)
  then have "of_char c div 16 < (16 :: nat)" "of_char c mod 16 < (16 :: nat)" by (auto simp: less_mult_imp_div_less)
  with hex_digit_value Cons show ?case by (simp add: percent_encode_def Let_def)
qed (simp add: percent_encode_def)

text \<open>
  Decoding the percent encoding of a text without zero bytes gives the text back, and a
  text without percent and plus signs is left as it is.
\<close>

lemma urldecode_correct:
  "CHR 0x00 \<notin> set s \<Longrightarrow> urldecode (percent_encode s) = s \<and>
   (CHR 0x25 \<notin> set s \<and> CHR ''+'' \<notin> set s \<longrightarrow> urldecode s = s)"
proof
  assume z: "CHR 0x00 \<notin> set s"
  have e: "takeWhile (\<lambda>c. c \<noteq> CHR ''+'' \<and> c \<noteq> CHR 0x25) (percent_encode s) = []"
    by (cases s) (simp_all add: percent_encode_def Let_def)
  have t: "takeWhile (\<lambda>c. c \<noteq> CHR 0x00) s = s" using z by (subst takeWhile_eq_all_conv) auto
  show "urldecode (percent_encode s) = s"
    unfolding urldecode_def Let_def e by (simp add: urldecode_loop_encoded t)
  show "CHR 0x25 \<notin> set s \<and> CHR ''+'' \<notin> set s \<longrightarrow> urldecode s = s"
  proof
    assume "CHR 0x25 \<notin> set s \<and> CHR ''+'' \<notin> set s"
    then have p: "takeWhile (\<lambda>c. c \<noteq> CHR ''+'' \<and> c \<noteq> CHR 0x25) s = s" by (subst takeWhile_eq_all_conv) auto
    show "urldecode s = s" unfolding urldecode_def Let_def p by (simp add: t)
  qed
qed

text \<open>A sentence that is still valid has coordinates in range.\<close>

definition gga_ok :: "gga \<times> bool \<Rightarrow> bool" where
  "gga_ok s \<longleftrightarrow> (snd s \<or> (\<bar>gga_lat (fst s)\<bar> \<le> 90 \<and> \<bar>gga_lon (fst s)\<bar> \<le> 180))"

lemma gga_other_keeps:
  "gga_lat (gga_other n t g) = gga_lat g" "gga_lon (gga_other n t g) = gga_lon g"
  "gga_quality (gga_other n t g) = gga_quality g"
  by (simp_all add: gga_other_def)

lemma set_or_err_ok:
  assumes "gga_ok s" "\<And>x. v = Some x \<Longrightarrow> gga_ok (upd x (fst s), snd s)"
  shows "gga_ok (set_or_err upd v s)"
  using assms by (cases s; cases v) (simp_all add: set_or_err_def gga_ok_def)

lemma gga_degrees_range: "gga_degrees w max_deg token = Some x \<Longrightarrow> \<bar>x\<bar> \<le> max_deg"
  by (auto simp: gga_degrees_def split: option.splits if_splits)

lemma gga_hemisphere_abs: "gga_hemisphere neg keep token v = Some x \<Longrightarrow> \<bar>x\<bar> = \<bar>v\<bar>"
  by (auto simp: gga_hemisphere_def split: if_splits)

lemma gga_field_ok:
  assumes "gga_ok s"
  shows "gga_ok (gga_field n token s)"
proof -
  have lat: "gga_ok (set_lat x (fst s), snd s)" if "\<bar>x\<bar> \<le> 90" for x
    using assms that by (auto simp: gga_ok_def set_lat_def)
  have lon: "gga_ok (set_lon x (fst s), snd s)" if "\<bar>x\<bar> \<le> 180" for x
    using assms that by (auto simp: gga_ok_def set_lon_def)
  have "gga_ok (set_or_err set_lat (gga_degrees 2 90 token) s)" "gga_ok (set_or_err set_lon (gga_degrees 3 180 token) s)"
    by (auto intro!: set_or_err_ok assms lat lon dest: gga_degrees_range)
  moreover have "gga_ok (set_or_err set_lat (gga_hemisphere ''S'' ''N'' token (gga_lat (fst s))) s)"
    by (rule set_or_err_ok[OF assms]) (use assms in \<open>auto simp: gga_ok_def set_lat_def dest!: gga_hemisphere_abs\<close>)
  moreover have "gga_ok (set_or_err set_lon (gga_hemisphere ''W'' ''E'' token (gga_lon (fst s))) s)"
    by (rule set_or_err_ok[OF assms]) (use assms in \<open>auto simp: gga_ok_def set_lon_def dest!: gga_hemisphere_abs\<close>)
  moreover have "gga_ok (case c_sscanf_d token of None \<Rightarrow> (fst s, True)
      | Some q \<Rightarrow> ((fst s)\<lparr>gga_quality := q\<rparr>, snd s \<or> q = 0))"
    using assms by (auto simp: gga_ok_def split: option.split)
  moreover have "gga_ok (gga_other n token (fst s), snd s)" using assms by (simp add: gga_ok_def gga_other_keeps)
  ultimately show ?thesis by (simp only: gga_field_def split: if_split) simp
qed

lemma gga_fields_ok: "gga_ok s \<Longrightarrow> gga_ok (gga_fields n tokens s)"
  by (induction tokens arbitrary: n s) (simp_all add: gga_field_ok)

lemma set_or_err_keeps:
  "snd s \<Longrightarrow> snd (set_or_err upd v s)"
  "(\<And>x g. gga_quality (upd x g) = gga_quality g) \<Longrightarrow> gga_quality (fst (set_or_err upd v s)) = gga_quality (fst s)"
  by (cases s; cases v; simp add: set_or_err_def)+

lemma gga_field_err: "snd s \<Longrightarrow> snd (gga_field n token s)"
  by (simp add: gga_field_def set_or_err_keeps split: option.split)

lemma gga_fields_err: "snd s \<Longrightarrow> snd (gga_fields n tokens s)"
  by (induction tokens arbitrary: n s) (simp_all add: gga_field_err)

lemma gga_field_other: "n \<noteq> 6 \<Longrightarrow> gga_quality (fst (gga_field n token s)) = gga_quality (fst s)"
  by (simp add: gga_field_def set_or_err_keeps set_lat_def set_lon_def gga_other_keeps)

lemma gga_fields_after: "6 < n \<Longrightarrow> gga_quality (fst (gga_fields n tokens s)) = gga_quality (fst s)"
  by (induction tokens arbitrary: n s) (simp_all add: gga_field_other)

lemma gga_fields_quality:
  "n \<le> 6 \<Longrightarrow> 6 < n + length tokens \<Longrightarrow> \<not> snd (gga_fields n tokens s) \<Longrightarrow>
   gga_quality (fst (gga_fields n tokens s)) \<noteq> 0"
proof (induction tokens arbitrary: n s)
  case (Cons t ts)
  show ?case
  proof (cases "n = 6")
    case False
    with Cons show ?thesis by simp
  next
    case True
    have "\<not> snd (gga_field n t s)" using Cons.prems gga_fields_err[of "gga_field n t s" "Suc n" ts] by auto
    with True have "gga_quality (fst (gga_field n t s)) \<noteq> 0"
      by (auto simp: gga_field_def split: option.splits)
    with True show ?thesis by (simp add: gga_fields_after)
  qed
qed simp

text \<open>
  A GGA sentence is accepted only if it has 15 fields after some dollar sign; the position
  that is decoded from an accepted sentence is a valid one (latitude within 90 degrees, longitude
  within 180 degrees of zero) and its fix quality is not 0, the value of an invalid fix.
\<close>

lemma parse_gga_valid:
  assumes "parse_gga line = Some g"
  shows "\<bar>gga_lat g\<bar> \<le> 90 \<and> \<bar>gga_lon g\<bar> \<le> 180 \<and> gga_quality g \<noteq> 0 \<and>
    (\<exists>pre rest. line = pre @ CHR ''$'' # rest \<and> length (filter (\<lambda>c. c = CHR '','') rest) = 14)"
proof -
  define l where "l = dropWhile (\<lambda>c. c \<noteq> CHR ''$'') line"
  define ts where "ts = strsep_tokens (\<lambda>c. c = CHR '','') l"
  from assms have l: "l \<noteq> []" and n: "length ts = 15" and g: "gga_fields 0 ts (gga_init, False) = (g, False)"
    by (auto simp: parse_gga_def Let_def l_def[symmetric] ts_def[symmetric] split: if_splits prod.splits)
  have "gga_ok (gga_fields 0 ts (gga_init, False))" by (rule gga_fields_ok) (simp add: gga_ok_def gga_init_def)
  then have "\<bar>gga_lat g\<bar> \<le> 90 \<and> \<bar>gga_lon g\<bar> \<le> 180" by (simp add: g gga_ok_def)
  moreover have "gga_quality g \<noteq> 0" using gga_fields_quality[of 0 ts "(gga_init, False)"] n g by simp
  moreover have hd: "hd l = CHR ''$''" using hd_dropWhile[of "\<lambda>c. c \<noteq> CHR ''$''" line] l by (simp add: l_def)
  then obtain rest where rest: "l = CHR ''$'' # rest" using l by (cases l) auto
  moreover have "line = takeWhile (\<lambda>c. c \<noteq> CHR ''$'') line @ l" by (simp add: l_def)
  moreover have "length (filter (\<lambda>c. c = CHR '','') rest) = 14"
    using n unfolding ts_def length_strsep_tokens rest by simp
  ultimately show ?thesis by metis
qed

lemma map_add_first: "k \<notin> dom m' \<Longrightarrow> m(k \<mapsto> v) ++ m' = m ++ (m'(k \<mapsto> v))"
  by (rule ext) (auto simp: map_add_def dom_def split: option.split)

text \<open>The fields of a form, as a map; the later ones of equal keys are not reached.\<close>

lemma add_form_fields_correct:
  "hash_inv h \<Longrightarrow>
   (if distinct (map (fst \<circ> form_field) kvs) \<and> (\<forall>kv \<in> set kvs. hash_table_get h (fst (form_field kv)) = None)
    then \<exists>h'. add_form_fields h kvs = Some h' \<and> hash_inv h' \<and>
      hash_table_get h' = hash_table_get h ++ map_of (map form_field kvs)
    else add_form_fields h kvs = None)"
proof (induction kvs arbitrary: h)
  case (Cons kv kvs)
  obtain k v where kv: "form_field kv = (k, v)" by fastforce
  let ?h = "snd (hash_table_add True h k v)"
  show ?case
  proof (cases "hash_table_get h k = None")
    case True
    have add: "hash_table_add True h k v = (0, ?h)"
      using hash.add_status[OF Cons.prems, of k v] True by (metis prod.collapse)
    have get: "hash_table_get ?h = (hash_table_get h)(k \<mapsto> v)"
      using hash.add_lookup[OF Cons.prems, of k v] True by simp
    have cond: "distinct (map (fst \<circ> form_field) (kv # kvs)) \<and>
        (\<forall>x \<in> set (kv # kvs). hash_table_get h (fst (form_field x)) = None) \<longleftrightarrow>
      distinct (map (fst \<circ> form_field) kvs) \<and> (\<forall>x \<in> set kvs. hash_table_get ?h (fst (form_field x)) = None)"
      using True kv by (auto simp: get)
    have fresh: "k \<notin> dom (map_of (map form_field kvs))" if "distinct (map (fst \<circ> form_field) (kv # kvs))"
      using that kv by (simp add: dom_map_of_conv_image_fst image_image)
    have upd: "hash_table_get ?h ++ map_of (map form_field kvs) = hash_table_get h ++ map_of (map form_field (kv # kvs))"
      if "distinct (map (fst \<circ> form_field) (kv # kvs))"
    proof -
      have "map_of (map form_field (kv # kvs)) = (map_of (map form_field kvs))(k \<mapsto> v)" using kv by simp
      then show ?thesis using map_add_first[OF fresh[OF that], of "hash_table_get h" v] get by metis
    qed
    obtain h1 where h1: "hash_table_add True h k v = (0, h1)" using add by blast
    then have step: "add_form_fields h (kv # kvs) = add_form_fields ?h kvs" by (simp add: kv)
    note ih = Cons.IH[OF hash.add_invar[OF Cons.prems, of k v], folded cond]
    show ?thesis
    proof (cases "distinct (map (fst \<circ> form_field) (kv # kvs)) \<and>
        (\<forall>x \<in> set (kv # kvs). hash_table_get h (fst (form_field x)) = None)")
      case True
      from ih[unfolded if_P[OF True]] upd True show ?thesis unfolding if_P[OF True] step by auto
    next
      case False
      from ih[unfolded if_not_P[OF False]] show ?thesis unfolding if_not_P[OF False] step .
    qed
  next
    case False
    then have "hash_table_add True h k v = (- 1, h)" by (rule hash.add_present[OF Cons.prems])
    with False kv show ?thesis by auto
  qed
qed simp

text \<open>
  A URL-encoded form is read completely: if the decoded keys of its fields are pairwise
  different the resulting table holds exactly the decoded fields, and if a key is repeated the form
  is refused.
\<close>

lemma hash_from_urlencoding_correct:
  "let fields = map form_field (strsep_tokens (\<lambda>c. c = CHR ''&'' \<or> c = CHR '';'') s)
   in if distinct (map fst fields)
      then \<exists>h. hash_from_urlencoding s = Some h \<and> hash_inv h \<and> hash_table_get h = map_of fields
      else hash_from_urlencoding s = None"
proof -
  obtain h0 :: "cstring hash_table" where h0: "hash_table_new True 37 = Some h0" by (simp add: hash_table_new_def)
  from hash_table_new_correct[OF this] have "hash_inv h0" "hash_table_get h0 = Map.empty" by simp_all
  with add_form_fields_correct[of h0 "strsep_tokens (\<lambda>c. c = CHR ''&'' \<or> c = CHR '';'') s"] h0
  show ?thesis by (auto simp: hash_from_urlencoding_def Let_def comp_def split: if_splits)
qed

lemma parse_lines_fields:
  "parse_lines nfields seps skipempty ls = Some rows \<Longrightarrow>
   \<forall>row \<in> set rows. length row = nfields \<and> (\<forall>f \<in> set row. (skipempty \<longrightarrow> f \<noteq> []) \<and> (\<forall>c \<in> set f. c \<notin> set seps))"
proof (induction ls arbitrary: rows)
  case (Cons l ls)
  show ?case
  proof (cases "strip_eol l = [] \<or> hd (strip_eol l) = CHR ''#''")
    case True
    with Cons show ?thesis by (simp add: Let_def)
  next
    case False
    let ?f = "line_fields seps skipempty (strip_eol l)"
    from False Cons.prems obtain r where r: "length ?f = nfields" "parse_lines nfields seps skipempty ls = Some r" "rows = ?f # r"
      by (auto simp: Let_def split: if_splits)
    moreover have "\<forall>f \<in> set ?f. (skipempty \<longrightarrow> f \<noteq> []) \<and> (\<forall>c \<in> set f. c \<notin> set seps)"
      using strsep_tokens_no_sep[of "\<lambda>c. c \<in> set seps"] by (auto simp: line_fields_def)
    ultimately show ?thesis using Cons.IH by simp
  qed
qed simp

lemma file_parse_length: "file_parse contents nfields seps skipempty = Some rows \<Longrightarrow> \<forall>row \<in> set rows. length row = nfields"
  using parse_lines_fields by (auto simp: file_parse_def split: option.splits)

text \<open>
  In a field file that is accepted every row has exactly the expected number of fields, no
  field contains a separator, and none is empty when empty fields are skipped.
\<close>

lemma file_parse_rows:
  assumes "file_parse contents nfields seps skipempty = Some rows"
  shows "\<forall>row \<in> set rows. length row = nfields \<and>
    (\<forall>f \<in> set row. (skipempty \<longrightarrow> f \<noteq> []) \<and> (\<forall>c \<in> set f. c \<notin> set seps))"
  using assms parse_lines_fields by (auto simp: file_parse_def split: option.splits)

text \<open>
  A relative path that is not preceded by a slash overflows the buffer of \<open>path_join\<close>: the
  separator that is added after the directory is not counted in the size that is allocated.
\<close>

lemma path_join_relative_overflow:
  "dir \<noteq> [] \<Longrightarrow> last dir \<noteq> CHR ''/'' \<Longrightarrow> c \<noteq> CHR ''/'' \<Longrightarrow> path_join dir [c # d # r] = None"
  by (simp add: path_join_def strcat_buf_def)

end
