(* ===== verification/Ip_Prefix.thy ===== *)
theory Ip_Prefix
  imports Util_Text
begin

text \<open>
  Addresses, prefixes and connection quotas (\<^verbatim>\<open>caster/ip.c\<close>, \<^verbatim>\<open>caster/ip.h\<close>). A
  \<open>union sock\<close> is a value of one of its families with the bytes of the address and the port in
  network order. The conversions of the system library, \<open>inet_pton\<close> for the two families, are
  arguments. Accesses outside an address or a local buffer are \<^const>\<open>None\<close>.
\<close>

subsection \<open>Addresses\<close>

datatype sock = Sock_v4 "byte list" "16 word" | Sock_v6 "byte list" "16 word" | Sock_other nat

datatype family = AF_INET | AF_INET6 | AF_OTHER nat

fun sa_family :: "sock \<Rightarrow> family" where
  "sa_family (Sock_v4 _ _) = AF_INET"
| "sa_family (Sock_v6 _ _) = AF_INET6"
| "sa_family (Sock_other n) = AF_OTHER n"

text \<open>The numbers of the families on Linux.\<close>

fun family_num :: "family \<Rightarrow> int" where
  "family_num AF_INET = 2"
| "family_num AF_INET6 = 10"
| "family_num (AF_OTHER n) = int n"

fun sock_addr :: "sock \<Rightarrow> byte list" where
  "sock_addr (Sock_v4 a _) = a"
| "sock_addr (Sock_v6 a _) = a"
| "sock_addr (Sock_other _) = []"

definition sock_wf :: "sock \<Rightarrow> bool" where
  "sock_wf s = (case s of Sock_v4 a _ \<Rightarrow> length a = 4 | Sock_v6 a _ \<Rightarrow> length a = 16
     | Sock_other n \<Rightarrow> n \<noteq> 2 \<and> n \<noteq> 10)"

text \<open>\<open>ntohs\<close> on a little-endian machine exchanges the two bytes.\<close>

definition ntohs :: "16 word \<Rightarrow> 16 word" where
  "ntohs w = push_bit 8 w OR drop_bit 8 w"

definition ip_port :: "sock \<Rightarrow> 16 word" where
  "ip_port sa = (case sa of Sock_v4 _ p \<Rightarrow> ntohs p | Sock_v6 _ p \<Rightarrow> ntohs p | Sock_other _ \<Rightarrow> 0)"

text \<open>
  \<open>inet_ntop\<close> is the argument \<open>ntop\<close>; the result is cut to the size of the destination.
\<close>

definition ip_str :: "(sock \<Rightarrow> cstring) \<Rightarrow> sock \<Rightarrow> cstring option" where
  "ip_str ntop sa = (case sa of Sock_other _ \<Rightarrow> None | _ \<Rightarrow> Some (ntop sa))"

definition ip_str_port :: "(sock \<Rightarrow> cstring) \<Rightarrow> sock \<Rightarrow> nat \<Rightarrow> cstring option" where
  "ip_str_port ntop sa size_dest =
     (case sa of
        Sock_v4 _ p \<Rightarrow> Some (take (size_dest - 1) (ntop sa @ '':'' @ c_show_nat (unat (ntohs p))))
      | Sock_v6 _ p \<Rightarrow> Some (take (size_dest - 1) (ntop sa @ ''.'' @ c_show_nat (unat (ntohs p))))
      | Sock_other _ \<Rightarrow> None)"

text \<open>
  \<open>s_addr\<close> is the address read as a little-endian 32-bit number; the difference of two is
  converted to \<open>int\<close>. \<open>memcmp\<close> is specified up to its sign.
\<close>

definition s_addr :: "byte list \<Rightarrow> 32 word" where
  "s_addr a = (\<Sum>i \<leftarrow> [0..<4]. push_bit (8 * i) (ucast (a ! i)))"

definition memcmp :: "byte list \<Rightarrow> byte list \<Rightarrow> int" where
  "memcmp a b = (if a = b then 0 else if a < b then - 1 else 1)"

definition ip_cmp :: "sock \<Rightarrow> sock \<Rightarrow> int" where
  "ip_cmp s1 s2 =
     (let r = family_num (sa_family s1) - family_num (sa_family s2) in
      if r \<noteq> 0 then r
      else case (s1, s2) of
        (Sock_v4 a1 p1, Sock_v4 a2 p2) \<Rightarrow>
          (let r = sint (s_addr a1 - s_addr a2) in if r \<noteq> 0 then r else uint p1 - uint p2)
      | (Sock_v6 a1 p1, Sock_v6 a2 p2) \<Rightarrow>
          (let r = memcmp a1 a2 in if r \<noteq> 0 then r else uint p1 - uint p2)
      | _ \<Rightarrow> - 1)"

subsection \<open>Prefixes\<close>

type_synonym pton = "cstring \<Rightarrow> byte list option"

definition ip_convert :: "pton \<Rightarrow> pton \<Rightarrow> cstring \<Rightarrow> sock option" where
  "ip_convert pton6 pton4 ipstr =
     (case pton6 ipstr of
        Some a \<Rightarrow> Some (Sock_v6 a 0)
      | None \<Rightarrow> map_option (\<lambda>a. Sock_v4 a 0) (pton4 ipstr))"

text \<open>
  \<open>ip_prefix_parse\<close>: the address part is copied to a buffer of 40 bytes, then terminated. Inner
  \<^const>\<open>None\<close> is the return code \<open>0\<close>.
\<close>

definition ip_prefix_parse :: "pton \<Rightarrow> pton \<Rightarrow> cstring \<Rightarrow> (sock \<times> int) option option" where
  "ip_prefix_parse pton6 pton4 ipstr =
     (let (ip, p) = split_at_first (\<lambda>c. c = CHR ''/'') ipstr;
          len = length ip;
          MAX_IP_LEN = 40
      in if len > MAX_IP_LEN then Some None
         else if \<not> len < MAX_IP_LEN then None
         else
           let scanned = (case p of None \<Rightarrow> Some None | Some s \<Rightarrow> map_option Some (c_sscanf_d s))
           in case scanned of
                None \<Rightarrow> Some None
              | Some prefixlen \<Rightarrow>
                  (case ip_convert pton6 pton4 ip of
                     None \<Rightarrow> Some None
                   | Some sock \<Rightarrow>
                       let pmax = (case sock of Sock_v6 _ _ \<Rightarrow> 128 | _ \<Rightarrow> 32)
                       in case prefixlen of
                            None \<Rightarrow> Some (Some (sock, pmax))
                          | Some l \<Rightarrow> Some (if l \<ge> 0 \<and> l \<le> pmax then Some (sock, l) else None)))"

text \<open>\<open>while (nfull0--) if (*last--) return -1\<close> from the last byte; the index of the next byte.\<close>

fun zero_bytes_from :: "byte list \<Rightarrow> nat \<Rightarrow> int \<Rightarrow> (bool \<times> int) option" where
  "zero_bytes_from a 0 i = Some (True, i)"
| "zero_bytes_from a (Suc n) i =
     (if i < 0 then None
      else do {
        b \<leftarrow> buf_get a (nat i);
        if b \<noteq> 0 then Some (False, i - 1) else zero_bytes_from a n (i - 1)
      })"

definition prefix_check_ip :: "sock \<Rightarrow> int \<Rightarrow> int option" where
  "prefix_check_ip sock prefixlen = do {
     let a = sock_addr sock;
     let len = (case sock of Sock_v6 _ _ \<Rightarrow> 16 | _ \<Rightarrow> 4);
     let bits0 = nat (len * 8 - prefixlen);
     (ok, i) \<leftarrow> zero_bytes_from a (bits0 div 8) (len - 1);
     if \<not> ok then Some (- 1)
     else if bits0 mod 8 \<noteq> 0 then
       if i < 0 then None
       else do {
         b \<leftarrow> buf_get a (nat i);
         let mask_remain = push_bit (bits0 mod 8) 1 - 1;
         Some (if b AND mask_remain \<noteq> 0 then - 1 else 0)
       }
     else Some 0
   }"

record prefix_quota =
  prefix_addr :: sock
  prefix_len :: int
  quota :: int

text \<open>\<open>%u\<close> into an \<open>int\<close>: the unsigned value saturates at 64 bits and is cut to 32 bits.\<close>

definition c_sscanf_u :: "cstring \<Rightarrow> int option" where
  "c_sscanf_u s = map_option (\<lambda>v. if \<bar>v\<bar> < 2 ^ 64 then signed_take_bit 31 v else - 1) (c_scan_d s)"

definition prefix_quota_parse :: "pton \<Rightarrow> pton \<Rightarrow> cstring \<Rightarrow> cstring \<Rightarrow> prefix_quota option option" where
  "prefix_quota_parse pton6 pton4 ip_prefix quota_str =
     (case c_sscanf_u quota_str of
        None \<Rightarrow> Some None
      | Some q \<Rightarrow>
          if q < - 1 then Some None
          else do {
            pp \<leftarrow> ip_prefix_parse pton6 pton4 ip_prefix;
            case pp of
              None \<Rightarrow> Some None
            | Some (addr, plen) \<Rightarrow> do {
                c \<leftarrow> prefix_check_ip addr plen;
                Some (if c < 0 then None else Some \<lparr>prefix_addr = addr, prefix_len = plen, quota = q\<rparr>)
              }
          })"

definition prefix_quota_str :: "(sock \<Rightarrow> cstring) \<Rightarrow> prefix_quota \<Rightarrow> cstring option" where
  "prefix_quota_str ntop ppq =
     map_option (\<lambda>ip. take 64 (ip @ ''/'' @ c_show_nat (nat (prefix_len ppq)) @ '' '' @
       (if quota ppq < 0 then ''-'' @ c_show_nat (nat (- quota ppq)) else c_show_nat (nat (quota ppq)))))
     (ip_str ntop (prefix_addr ppq))"

subsection \<open>Tables\<close>

text \<open>The entries in use and the allocated size of a table for one family.\<close>

record monofamily_table =
  entries :: "prefix_quota list"
  maxentries :: nat

record prefix_table =
  v6_table :: monofamily_table
  v4_table :: monofamily_table

definition cmp_prefix :: "prefix_quota \<Rightarrow> prefix_quota \<Rightarrow> int" where
  "cmp_prefix p1 p2 =
     (if prefix_len p1 < prefix_len p2 then - 1 else if prefix_len p1 > prefix_len p2 then 1 else 0)"

text \<open>\<open>qsort\<close> with that comparison: an ascending order of the lengths; equal lengths keep their order.\<close>

definition prefix_table_sort :: "prefix_table \<Rightarrow> prefix_table" where
  "prefix_table_sort this =
     this\<lparr>v6_table := (v6_table this)\<lparr>entries := sort_key prefix_len (entries (v6_table this))\<rparr>,
          v4_table := (v4_table this)\<lparr>entries := sort_key prefix_len (entries (v4_table this))\<rparr>\<rparr>"

definition monofamily_prefix_table_add ::
  "bool \<Rightarrow> monofamily_table \<Rightarrow> prefix_quota \<Rightarrow> (int \<times> monofamily_table) option" where
  "monofamily_prefix_table_add mem this new_entry =
     (let grow = (length (entries this) + 1 \<ge> maxentries this);
          new_size = (if maxentries this \<noteq> 0 then maxentries this * 2 else 2)
      in if grow \<and> \<not> mem then Some (- 1, this)
         else
           let this = (if grow then this\<lparr>maxentries := new_size\<rparr> else this)
           in if length (entries this) < maxentries this
              then Some (0, this\<lparr>entries := entries this @ [new_entry]\<rparr>)
              else None)"

definition prefix_table_add :: "bool \<Rightarrow> prefix_table \<Rightarrow> prefix_quota \<Rightarrow> (int \<times> prefix_table) option" where
  "prefix_table_add mem this new_entry =
     (if sa_family (prefix_addr new_entry) = AF_INET6
      then do { (r, t) \<leftarrow> monofamily_prefix_table_add mem (v6_table this) new_entry; Some (r, this\<lparr>v6_table := t\<rparr>) }
      else do { (r, t) \<leftarrow> monofamily_prefix_table_add mem (v4_table this) new_entry; Some (r, this\<lparr>v4_table := t\<rparr>) })"

definition ip_in_prefix :: "sock \<Rightarrow> int \<Rightarrow> sock \<Rightarrow> bool option" where
  "ip_in_prefix paddr plen addr =
     (let lenfull = nat (plen div 8);
          remain = nat (plen mod 8);
          lastmask = NOT (drop_bit remain (0xff :: byte))
      in if sa_family paddr \<noteq> sa_family addr then Some False
         else case sa_family addr of
           AF_OTHER _ \<Rightarrow> Some False
         | _ \<Rightarrow>
             let a = sock_addr addr; ap = sock_addr paddr
             in if lenfull > length a \<or> lenfull > length ap then None
                else if lenfull \<noteq> 0 \<and> take lenfull a \<noteq> take lenfull ap then Some False
                else if lastmask \<noteq> 0 then do {
                  x \<leftarrow> buf_get a lenfull;
                  y \<leftarrow> buf_get ap lenfull;
                  Some ((x XOR y) AND lastmask = 0)
                }
                else Some True)"

text \<open>The scan of a table from its end.\<close>

fun scan_quota :: "prefix_quota list \<Rightarrow> sock \<Rightarrow> int option" where
  "scan_quota [] addr = Some (- 1)"
| "scan_quota (e # es) addr = do {
     b \<leftarrow> ip_in_prefix (prefix_addr e) (prefix_len e) addr;
     if b then Some (quota e) else scan_quota es addr
   }"

definition monofamily_prefix_table_get_quota :: "monofamily_table \<Rightarrow> sock \<Rightarrow> int option" where
  "monofamily_prefix_table_get_quota this addr = scan_quota (rev (entries this)) addr"

definition prefix_table_get_quota :: "prefix_table \<Rightarrow> sock \<Rightarrow> int option" where
  "prefix_table_get_quota this addr =
     (case sa_family addr of
        AF_INET6 \<Rightarrow> monofamily_prefix_table_get_quota (v6_table this) addr
      | AF_INET \<Rightarrow> monofamily_prefix_table_get_quota (v4_table this) addr
      | AF_OTHER _ \<Rightarrow> Some (- 1))"

definition prefix_table_new :: prefix_table where
  "prefix_table_new = \<lparr>v6_table = \<lparr>entries = [], maxentries = 0\<rparr>, v4_table = \<lparr>entries = [], maxentries = 0\<rparr>\<rparr>"

text \<open>The rows of the file, each added if it parses; then the tables are sorted.\<close>

fun add_rows :: "pton \<Rightarrow> pton \<Rightarrow> prefix_table \<Rightarrow> cstring list list \<Rightarrow> prefix_table option" where
  "add_rows pton6 pton4 this [] = Some this"
| "add_rows pton6 pton4 this (row # rows) = do {
     f0 \<leftarrow> buf_get row 0;
     f1 \<leftarrow> buf_get row 1;
     pq \<leftarrow> prefix_quota_parse pton6 pton4 f0 f1;
     this \<leftarrow> (case pq of
        Some e \<Rightarrow> map_option snd (prefix_table_add True this e)
      | None \<Rightarrow> Some this);
     add_rows pton6 pton4 this rows
   }"

definition prefix_table_read ::
  "pton \<Rightarrow> pton \<Rightarrow> prefix_table \<Rightarrow> cstring option \<Rightarrow> (int \<times> prefix_table) option" where
  "prefix_table_read pton6 pton4 this contents =
     (case file_parse contents 2 [CHR 0x09, CHR '' ''] True of
        None \<Rightarrow> Some (- 1, this)
      | Some rows \<Rightarrow> do {
          this \<leftarrow> add_rows pton6 pton4 this rows;
          Some (0, prefix_table_sort this)
        })"

definition prefix_table_free :: "prefix_table \<Rightarrow> prefix_quota list" where
  "prefix_table_free this = entries (v4_table this) @ entries (v6_table this)"

subsection \<open>Prefixes as leading bits\<close>

definition same_bits :: "byte list \<Rightarrow> byte list \<Rightarrow> nat \<Rightarrow> bool" where
  "same_bits a b n \<longleftrightarrow> (\<forall>i < n. bit_at a i = bit_at b i)"

lemma byte_eq_bit_at:
  "a ! q = b ! q \<longleftrightarrow> (\<forall>j < 8. bit_at a (8 * q + j) = bit_at b (8 * q + j))"
proof
  assume e: "\<forall>j < 8. bit_at a (8 * q + j) = bit_at b (8 * q + j)"
  show "a ! q = b ! q"
  proof (rule bit_word_eqI)
    fix k assume "k < LENGTH(8)"
    then have "7 - k < 8" "7 - (7 - k) = k" by auto
    with e show "bit (a ! q) k = bit (b ! q) k" by (metis bit_at_byte)
  qed
qed (simp add: bit_at_byte)

lemma same_bits_add:
  "same_bits a b (m + n) \<longleftrightarrow> same_bits a b m \<and> (\<forall>j < n. bit_at a (m + j) = bit_at b (m + j))"
proof
  assume r: "same_bits a b m \<and> (\<forall>j < n. bit_at a (m + j) = bit_at b (m + j))"
  show "same_bits a b (m + n)"
    unfolding same_bits_def
  proof (intro allI impI)
    fix i assume "i < m + n"
    then show "bit_at a i = bit_at b i"
      using r spec[of "\<lambda>j. j < n \<longrightarrow> bit_at a (m + j) = bit_at b (m + j)" "i - m"]
      by (cases "i < m") (simp_all add: same_bits_def)
  qed
qed (simp add: same_bits_def)

lemma same_bits_bytes:
  "n \<le> length a \<Longrightarrow> n \<le> length b \<Longrightarrow> take n a = take n b \<longleftrightarrow> same_bits a b (8 * n)"
proof (induction n)
  case (Suc n)
  then have "take (Suc n) a = take (Suc n) b \<longleftrightarrow> take n a = take n b \<and> a ! n = b ! n"
    by (simp add: take_Suc_conv_app_nth)
  moreover have "8 * Suc n = 8 * n + 8" by simp
  ultimately show ?case using Suc byte_eq_bit_at[of a n b] by (simp add: same_bits_add del: mult_Suc_right)
qed (simp add: same_bits_def)

lemma bit_lastmask: "r < 8 \<Longrightarrow> k < 8 \<Longrightarrow> bit (NOT (drop_bit r (0xff :: byte))) k \<longleftrightarrow> 7 - k < r"
  unfolding bit_not_iff by (subst bit_mask_right) auto

lemma lastmask_zero: "r < 8 \<Longrightarrow> NOT (drop_bit r (0xff :: byte)) = 0 \<longleftrightarrow> r = 0"
proof
  assume r: "r < 8" and z: "NOT (drop_bit r (0xff :: byte)) = 0"
  then have "\<not> bit (NOT (drop_bit r (0xff :: byte))) 7" by simp
  with bit_lastmask[OF r, of 7] show "r = 0" by simp
next
  have "(0xff :: byte) = - 1" by simp
  then show "r = 0 \<Longrightarrow> NOT (drop_bit r (0xff :: byte)) = 0" by (simp only: drop_bit_0 id_apply) simp
qed

lemma masked_xor_zero:
  assumes "r < 8"
  shows "(a ! q XOR b ! q) AND NOT (drop_bit r (0xff :: byte)) = 0 \<longleftrightarrow>
    (\<forall>j < r. bit_at a (8 * q + j) = bit_at b (8 * q + j))" (is "?L \<longleftrightarrow> ?R")
proof -
  have b: "bit ((a ! q XOR b ! q) AND NOT (drop_bit r (0xff :: byte))) (7 - j) \<longleftrightarrow>
      j < r \<and> bit_at a (8 * q + j) \<noteq> bit_at b (8 * q + j)" if "j < 8" for j
    using that bit_lastmask[OF assms, of "7 - j"] by (auto simp: bit_and_iff bit_xor_iff bit_at_byte)
  show ?thesis
  proof
    assume ?L
    then show ?R using b assms by (metis bit_0_eq bot_apply bot_bool_def less_trans)
  next
    assume r: ?R
    show ?L
    proof (rule bit_word_eqI)
      fix k assume "k < LENGTH(8)"
      then have "k = 7 - (7 - k)" "7 - k < 8" by auto
      with b[of "7 - k"] r show "bit ((a ! q XOR b ! q) AND NOT (drop_bit r (0xff :: byte))) k = bit 0 k" by auto
    qed
  qed
qed

text \<open>An address is in a prefix if the families agree and the leading bits are the same.\<close>

definition in_prefix :: "sock \<Rightarrow> int \<Rightarrow> sock \<Rightarrow> bool" where
  "in_prefix paddr plen addr \<longleftrightarrow>
     sa_family paddr = sa_family addr \<and> sa_family addr \<in> {AF_INET, AF_INET6} \<and>
     same_bits (sock_addr addr) (sock_addr paddr) (nat plen)"

definition addr_bits :: "sock \<Rightarrow> int" where
  "addr_bits s = (case s of Sock_v6 _ _ \<Rightarrow> 128 | _ \<Rightarrow> 32)"

lemma ip_in_prefix_bits:
  assumes wf: "sock_wf paddr" "sock_wf addr" and l: "0 \<le> plen" "plen \<le> addr_bits paddr"
  shows "ip_in_prefix paddr plen addr = Some (in_prefix paddr plen addr)"
proof (cases "sa_family paddr = sa_family addr \<and> sa_family addr \<in> {AF_INET, AF_INET6}")
  case False
  then show ?thesis by (auto simp: ip_in_prefix_def in_prefix_def Let_def split: family.split)
next
  case True
  let ?a = "sock_addr addr" and ?b = "sock_addr paddr"
  define q r where "q = nat (plen div 8)" and "r = nat (plen mod 8)"
  have len: "length ?a = length ?b" "8 * int (length ?b) = addr_bits paddr"
    using True wf by (cases paddr; cases addr; simp add: sock_wf_def addr_bits_def)+
  have n: "nat plen = 8 * q + r" "r < 8" using l by (auto simp: q_def r_def nat_eq_iff)
  have le: "8 * q + r \<le> 8 * length ?b" using n(1) l len(2) by linarith
  then have q: "q \<le> length ?b" "r \<noteq> 0 \<Longrightarrow> q < length ?b" by linarith+
  have fam: "sa_family addr = AF_INET \<or> sa_family addr = AF_INET6" using True by auto
  have eq: "ip_in_prefix paddr plen addr =
    (if q \<noteq> 0 \<and> take q ?a \<noteq> take q ?b then Some False
     else if r \<noteq> 0 then Some ((?a ! q XOR ?b ! q) AND NOT (drop_bit r 0xff) = 0) else Some True)"
    using True fam q len by (auto simp: ip_in_prefix_def Let_def q_def[symmetric] r_def[symmetric] lastmask_zero[OF n(2)])
  have "same_bits ?a ?b (nat plen) \<longleftrightarrow> take q ?a = take q ?b \<and> (\<forall>j < r. bit_at ?a (8 * q + j) = bit_at ?b (8 * q + j))"
    unfolding n(1) same_bits_add using same_bits_bytes[of q ?a ?b] q len by simp
  with eq True masked_xor_zero[OF n(2), of ?a q ?b] show ?thesis by (auto simp: in_prefix_def)
qed

subsection \<open>Zero bits after the prefix\<close>

definition zero_after :: "byte list \<Rightarrow> nat \<Rightarrow> bool" where
  "zero_after a n \<longleftrightarrow> (\<forall>i. n \<le> i \<and> i < 8 * length a \<longrightarrow> \<not> bit_at a i)"

lemma zero_bytes_from_correct:
  "n \<le> m \<Longrightarrow> m \<le> length a \<Longrightarrow>
   (if \<forall>k. m - n \<le> k \<and> k < m \<longrightarrow> a ! k = 0 then zero_bytes_from a n (int m - 1) = Some (True, int m - 1 - int n)
    else \<exists>j. zero_bytes_from a n (int m - 1) = Some (False, j))"
proof (induction n arbitrary: m)
  case (Suc n)
  then obtain m' where m: "m = Suc m'" by (cases m) auto
  then have b: "buf_get a (nat (int m - 1)) = Some (a ! m')" "\<not> int m - 1 < 0" using Suc.prems by simp_all
  show ?case
  proof (cases "a ! m' = 0")
    case True
    have "(\<forall>k. m - Suc n \<le> k \<and> k < m \<longrightarrow> a ! k = 0) \<longleftrightarrow> (\<forall>k. m' - n \<le> k \<and> k < m' \<longrightarrow> a ! k = 0)"
      using True m less_Suc_eq by auto
    with Suc.IH[of m'] Suc.prems m b True show ?thesis by simp
  next
    case False
    have "m - Suc n \<le> m' \<and> m' < m" using m by simp
    with False have "\<not> (\<forall>k. m - Suc n \<le> k \<and> k < m \<longrightarrow> a ! k = 0)" by blast
    with b False show ?thesis by simp
  qed
qed auto

lemma byte_zero_bits: "a ! q = (0 :: byte) \<longleftrightarrow> (\<forall>j < 8. \<not> bit_at a (8 * q + j))"
proof
  assume e: "\<forall>j < 8. \<not> bit_at a (8 * q + j)"
  show "a ! q = 0"
  proof (rule bit_word_eqI)
    fix k assume "k < LENGTH(8)"
    then have "7 - k < 8" "7 - (7 - k) = k" by auto
    with e show "bit (a ! q) k = bit 0 k" by (metis bit_at_byte bit_0_eq bot_apply bot_bool_def)
  qed
qed (simp add: bit_at_byte)

lemma zero_after_bytes:
  "q \<le> length a \<Longrightarrow> zero_after a (8 * q) \<longleftrightarrow> (\<forall>k. q \<le> k \<and> k < length a \<longrightarrow> a ! k = 0)"
proof
  assume z: "zero_after a (8 * q)"
  show "\<forall>k. q \<le> k \<and> k < length a \<longrightarrow> a ! k = 0"
    unfolding byte_zero_bits
  proof (intro allI impI)
    fix k j :: nat assume "q \<le> k \<and> k < length a" "j < 8"
    then have "8 * q \<le> 8 * k + j" "8 * k + j < 8 * length a" by linarith+
    with z show "\<not> bit_at a (8 * k + j)" by (simp add: zero_after_def)
  qed
next
  assume z: "\<forall>k. q \<le> k \<and> k < length a \<longrightarrow> a ! k = 0"
  show "zero_after a (8 * q)"
    unfolding zero_after_def
  proof (intro allI impI)
    fix i assume i: "8 * q \<le> i \<and> i < 8 * length a"
    obtain k j where k: "i = 8 * k + j" "j < 8" by (metis byte_split)
    with i have "q \<le> k \<and> k < length a" by linarith
    with z have "a ! k = 0" by blast
    then show "\<not> bit_at a i" using k by (simp add: byte_zero_bits)
  qed
qed

lemma zero_after_mono: "zero_after a m \<Longrightarrow> m \<le> n \<Longrightarrow> zero_after a n"
  by (auto simp: zero_after_def)

lemma zero_after_split:
  assumes "r < 8" "q < length a"
  shows "zero_after a (8 * q + r) \<longleftrightarrow> zero_after a (8 * (q + 1)) \<and> (\<forall>j. r \<le> j \<and> j < 8 \<longrightarrow> \<not> bit_at a (8 * q + j))"
proof
  assume z: "zero_after a (8 * q + r)"
  have "zero_after a (8 * (q + 1))" by (rule zero_after_mono[OF z]) (use assms(1) in simp)
  then show "zero_after a (8 * (q + 1)) \<and> (\<forall>j. r \<le> j \<and> j < 8 \<longrightarrow> \<not> bit_at a (8 * q + j))"
    using z assms by (auto simp: zero_after_def)
next
  assume z: "zero_after a (8 * (q + 1)) \<and> (\<forall>j. r \<le> j \<and> j < 8 \<longrightarrow> \<not> bit_at a (8 * q + j))"
  show "zero_after a (8 * q + r)"
    unfolding zero_after_def
  proof (intro allI impI)
    fix i assume i: "8 * q + r \<le> i \<and> i < 8 * length a"
    show "\<not> bit_at a i"
    proof (cases "i < 8 * (q + 1)")
      case True
      then have "r \<le> i - 8 * q \<and> i - 8 * q < 8" "i = 8 * q + (i - 8 * q)" using i by auto
      with z show ?thesis by metis
    next
      case False
      with z i show ?thesis by (auto simp: zero_after_def)
    qed
  qed
qed

lemma masked_low_zero:
  assumes "0 < k" "k < 8"
  shows "a ! q AND (push_bit k 1 - 1) = (0 :: byte) \<longleftrightarrow> (\<forall>j. 8 - k \<le> j \<and> j < 8 \<longrightarrow> \<not> bit_at a (8 * q + j))"
proof -
  have m: "push_bit k 1 - 1 = (mask k :: byte)" by (simp add: mask_eq_exp_minus_1)
  have b: "bit (a ! q AND mask k) (7 - j) \<longleftrightarrow> 8 - k \<le> j \<and> bit_at a (8 * q + j)" if "j < 8" for j
    using that assms by (auto simp: bit_and_iff bit_mask_iff bit_at_byte)
  show ?thesis unfolding m
  proof
    assume "a ! q AND mask k = 0"
    then show "\<forall>j. 8 - k \<le> j \<and> j < 8 \<longrightarrow> \<not> bit_at a (8 * q + j)" using b by (metis bit_0_eq bot_apply bot_bool_def)
  next
    assume z: "\<forall>j. 8 - k \<le> j \<and> j < 8 \<longrightarrow> \<not> bit_at a (8 * q + j)"
    show "a ! q AND mask k = 0"
    proof (rule bit_word_eqI)
      fix i assume "i < LENGTH(8)"
      then have "i = 7 - (7 - i)" "7 - i < 8" by auto
      with b[of "7 - i"] z show "bit (a ! q AND mask k) i = bit 0 i" by auto
    qed
  qed
qed

lemma prefix_check_ip_correct:
  assumes wf: "sock_wf s" "sa_family s \<in> {AF_INET, AF_INET6}" and l: "0 \<le> plen" "plen \<le> addr_bits s"
  shows "prefix_check_ip s plen = Some (if zero_after (sock_addr s) (nat plen) then 0 else - 1)"
proof -
  let ?a = "sock_addr s"
  define m where "m = length ?a"
  define bits0 where "bits0 = 8 * m - nat plen"
  have len: "(case s of Sock_v6 _ _ \<Rightarrow> 16 | _ \<Rightarrow> 4) = int m" "addr_bits s = 8 * int m"
    using wf by (cases s; simp add: sock_wf_def addr_bits_def m_def)+
  have nb: "nat (int m * 8 - plen) = bits0" and pl: "nat plen = 8 * m - bits0" "bits0 \<le> 8 * m"
    using l len(2) by (auto simp: bits0_def nat_diff_distrib)
  define n k where "n = bits0 div 8" and "k = bits0 mod 8"
  have nk: "bits0 = 8 * n + k" "k < 8" by (simp_all add: n_def k_def)
  then have nm: "n \<le> m" "k \<noteq> 0 \<Longrightarrow> n < m" using pl by linarith+
  note z = zero_bytes_from_correct[OF nm(1), of ?a, folded m_def]
  have zb: "(\<forall>i. m - n \<le> i \<and> i < m \<longrightarrow> ?a ! i = 0) \<longleftrightarrow> zero_after ?a (8 * (m - n))"
    using zero_after_bytes[of "m - n" ?a] by (simp add: m_def)
  have def: "prefix_check_ip s plen = do {
     (ok, i) \<leftarrow> zero_bytes_from ?a n (int m - 1);
     if \<not> ok then Some (- 1)
     else if k \<noteq> 0 then
       if i < 0 then None
       else do { b \<leftarrow> buf_get ?a (nat i); Some (if b AND (push_bit k 1 - 1) \<noteq> 0 then - 1 else 0) }
     else Some 0 }"
    unfolding prefix_check_ip_def Let_def len(1) nb n_def k_def ..
  show ?thesis
  proof (cases "zero_after ?a (8 * (m - n))")
    case False
    have "nat plen \<le> 8 * (m - n)" unfolding pl(1) nk(1) by (simp add: diff_mult_distrib2)
    with False have "\<not> zero_after ?a (nat plen)" using zero_after_mono by blast
    with False z show ?thesis by (auto simp: def zb)
  next
    case True
    with z zb have zt: "zero_bytes_from ?a n (int m - 1) = Some (True, int m - 1 - int n)" by (simp add: m_def)
    show ?thesis
    proof (cases "k = 0")
      case k0: True
      then have "nat plen = 8 * (m - n)" using pl nk by (simp add: diff_mult_distrib2)
      with k0 True zt show ?thesis by (simp add: def)
    next
      case False
      define q where "q = m - n - 1"
      have q: "q < m" "nat (int m - 1 - int n) = q" "m - n = q + 1" "\<not> int m - 1 - int n < 0" "nat plen = 8 * q + (8 - k)"
        using nm(2)[OF False] pl nk by (auto simp: q_def)
      have za: "zero_after ?a (nat plen) \<longleftrightarrow> (\<forall>j. 8 - k \<le> j \<and> j < 8 \<longrightarrow> \<not> bit_at ?a (8 * q + j))"
        unfolding q(5) using zero_after_split[of "8 - k" q ?a] True q False by (simp add: m_def)
      have g: "buf_get ?a (nat (int m - 1 - int n)) = Some (?a ! q)" unfolding q(2) using q(1) by (simp add: m_def)
      have "prefix_check_ip s plen = Some (if ?a ! q AND (push_bit k 1 - 1) \<noteq> 0 then - 1 else 0)"
        unfolding def zt using False q(4) by (simp add: g del: push_bit_of_1)
      then show ?thesis unfolding za using masked_low_zero[of k ?a q] False nk by simp
    qed
  qed
qed

subsection \<open>Tables of quotas\<close>

definition entry_ok :: "family \<Rightarrow> prefix_quota \<Rightarrow> bool" where
  "entry_ok fam e \<longleftrightarrow> sa_family (prefix_addr e) = fam \<and> sock_wf (prefix_addr e) \<and>
     0 \<le> prefix_len e \<and> prefix_len e \<le> addr_bits (prefix_addr e) \<and> - 1 \<le> quota e \<and>
     zero_after (sock_addr (prefix_addr e)) (nat (prefix_len e))"

text \<open>The allocated size leaves room for the entry that is added.\<close>

definition mono_ok :: "family \<Rightarrow> monofamily_table \<Rightarrow> bool" where
  "mono_ok fam t \<longleftrightarrow> (\<forall>e \<in> set (entries t). entry_ok fam e) \<and>
     (entries t = [] \<or> length (entries t) < maxentries t)"

definition table_ok :: "prefix_table \<Rightarrow> bool" where
  "table_ok t \<longleftrightarrow> mono_ok AF_INET6 (v6_table t) \<and> mono_ok AF_INET (v4_table t)"

definition table_entries :: "prefix_table \<Rightarrow> prefix_quota set" where
  "table_entries t = set (entries (v6_table t)) \<union> set (entries (v4_table t))"

definition table_sorted :: "prefix_table \<Rightarrow> bool" where
  "table_sorted t \<longleftrightarrow> sorted (map prefix_len (entries (v6_table t))) \<and> sorted (map prefix_len (entries (v4_table t)))"

definition entry_matches :: "sock \<Rightarrow> prefix_quota \<Rightarrow> bool" where
  "entry_matches addr e \<longleftrightarrow> in_prefix (prefix_addr e) (prefix_len e) addr"

text \<open>The quota of a longest matching prefix, or \<open>-1\<close> if there is none.\<close>

definition longest_match :: "prefix_quota list \<Rightarrow> sock \<Rightarrow> int \<Rightarrow> bool" where
  "longest_match es addr q \<longleftrightarrow>
     (if \<exists>e \<in> set es. entry_matches addr e
      then \<exists>e \<in> set es. entry_matches addr e \<and> q = quota e \<and>
        (\<forall>e' \<in> set es. entry_matches addr e' \<longrightarrow> prefix_len e' \<le> prefix_len e)
      else q = - 1)"

lemma entry_in_prefix:
  "entry_ok fam e \<Longrightarrow> sock_wf addr \<Longrightarrow> ip_in_prefix (prefix_addr e) (prefix_len e) addr = Some (entry_matches addr e)"
  by (simp add: entry_ok_def entry_matches_def ip_in_prefix_bits)

lemma scan_quota_longest:
  "\<forall>e \<in> set es. entry_ok fam e \<Longrightarrow> sock_wf addr \<Longrightarrow> sorted_wrt (\<lambda>a b. prefix_len b \<le> prefix_len a) es \<Longrightarrow>
   \<exists>q. scan_quota es addr = Some q \<and> longest_match es addr q"
proof (induction es)
  case (Cons e es)
  show ?case
  proof (cases "entry_matches addr e")
    case True
    with Cons.prems have "longest_match (e # es) addr (quota e)" by (auto simp: longest_match_def)
    moreover have "scan_quota (e # es) addr = Some (quota e)"
      using True Cons.prems entry_in_prefix[of fam e addr] by simp
    ultimately show ?thesis by blast
  next
    case False
    with Cons obtain q where "scan_quota es addr = Some q" "longest_match es addr q" by auto
    with False Cons.prems entry_in_prefix[of fam e addr] show ?thesis
      by (auto simp: longest_match_def split: if_splits)
  qed
qed (simp add: longest_match_def)

lemma longest_match_cong: "set es = set es' \<Longrightarrow> longest_match es = longest_match es'"
  by (simp add: longest_match_def fun_eq_iff)

lemma mono_get_quota:
  assumes "mono_ok fam t" "sock_wf addr" "sorted (map prefix_len (entries t))"
  shows "\<exists>q. monofamily_prefix_table_get_quota t addr = Some q \<and> longest_match (entries t) addr q"
proof -
  have "sorted_wrt (\<lambda>a b. prefix_len b \<le> prefix_len a) (rev (entries t))"
    using assms(3) by (simp add: sorted_wrt_rev sorted_map)
  from scan_quota_longest[OF _ assms(2) this, of fam] assms(1) show ?thesis
    by (auto simp: mono_ok_def monofamily_prefix_table_get_quota_def longest_match_cong[of "rev (entries t)" "entries t"])
qed

lemma prefix_table_sort_ok: "table_ok t \<Longrightarrow> table_ok (prefix_table_sort t) \<and> table_sorted (prefix_table_sort t)"
  by (simp add: table_ok_def mono_ok_def table_sorted_def prefix_table_sort_def) (metis length_0_conv length_sort)

lemma monofamily_add_ok:
  assumes "mono_ok fam t" "entry_ok fam e"
  shows "\<exists>t'. monofamily_prefix_table_add True t e = Some (0, t') \<and> mono_ok fam t' \<and> entries t' = entries t @ [e]"
  using assms by (auto simp: monofamily_prefix_table_add_def mono_ok_def Let_def)

lemma prefix_table_add_ok:
  assumes "table_ok t" "entry_ok fam e" "fam \<in> {AF_INET, AF_INET6}"
  shows "\<exists>t'. prefix_table_add True t e = Some (0, t') \<and> table_ok t' \<and> table_entries t' = insert e (table_entries t)"
proof -
  have "sa_family (prefix_addr e) = fam" using assms(2) by (simp add: entry_ok_def)
  with assms monofamily_add_ok[of AF_INET6 "v6_table t" e] monofamily_add_ok[of AF_INET "v4_table t" e]
  show ?thesis by (auto simp: prefix_table_add_def table_ok_def table_entries_def)
qed

text \<open>What the conversions of the system library promise: addresses of 16 and 4 bytes.\<close>

definition pton_ok :: "pton \<Rightarrow> pton \<Rightarrow> bool" where
  "pton_ok pton6 pton4 \<longleftrightarrow> (\<forall>s a. pton6 s = Some a \<longrightarrow> length a = 16) \<and> (\<forall>s a. pton4 s = Some a \<longrightarrow> length a = 4)"

lemma ip_prefix_parse_ok:
  assumes "pton_ok pton6 pton4" "ip_prefix_parse pton6 pton4 s = Some (Some (addr, plen))"
  shows "sock_wf addr \<and> sa_family addr \<in> {AF_INET, AF_INET6} \<and> 0 \<le> plen \<and> plen \<le> addr_bits addr"
  using assms
  by (auto simp: ip_prefix_parse_def ip_convert_def pton_ok_def sock_wf_def addr_bits_def Let_def
      split: if_splits option.splits prod.splits sock.splits)

lemma ip_prefix_parse_safe:
  "length (fst (split_at_first (\<lambda>c. c = CHR ''/'') s)) \<noteq> 40 \<Longrightarrow> ip_prefix_parse pton6 pton4 s \<noteq> None"
  by (auto simp: ip_prefix_parse_def Let_def split: option.split prod.split)

lemma prefix_quota_parse_ok:
  assumes "pton_ok pton6 pton4" "length (fst (split_at_first (\<lambda>c. c = CHR ''/'') s)) \<noteq> 40"
  shows "\<exists>r. prefix_quota_parse pton6 pton4 s qs = Some r \<and>
    (\<forall>e. r = Some e \<longrightarrow> (\<exists>fam \<in> {AF_INET, AF_INET6}. entry_ok fam e))"
proof -
  obtain pp where pp: "ip_prefix_parse pton6 pton4 s = Some pp" using ip_prefix_parse_safe[OF assms(2)] by blast
  show ?thesis
  proof (cases pp)
    case None
    with pp show ?thesis by (auto simp: prefix_quota_parse_def split: option.split)
  next
    case (Some ap)
    obtain addr plen where ap: "ap = (addr, plen)" by fastforce
    from ip_prefix_parse_ok[OF assms(1)] pp Some ap
    have ok: "sock_wf addr" "sa_family addr \<in> {AF_INET, AF_INET6}" "0 \<le> plen" "plen \<le> addr_bits addr" by auto
    with pp Some ap prefix_check_ip_correct[OF ok] show ?thesis
      by (auto simp: prefix_quota_parse_def entry_ok_def split: option.split)
  qed
qed

text \<open>The entries of the rows that parse.\<close>

definition row_entry :: "pton \<Rightarrow> pton \<Rightarrow> cstring list \<Rightarrow> prefix_quota option" where
  "row_entry pton6 pton4 row = Option.bind (prefix_quota_parse pton6 pton4 (row ! 0) (row ! 1)) id"

definition rows_entries :: "pton \<Rightarrow> pton \<Rightarrow> cstring list list \<Rightarrow> prefix_quota list" where
  "rows_entries pton6 pton4 rows = List.map_filter (row_entry pton6 pton4) rows"

definition short_addresses :: "cstring list list \<Rightarrow> bool" where
  "short_addresses rows \<longleftrightarrow> (\<forall>row \<in> set rows. length (fst (split_at_first (\<lambda>c. c = CHR ''/'') (row ! 0))) \<noteq> 40)"

lemma add_rows_ok:
  assumes "pton_ok pton6 pton4"
  shows "table_ok t \<Longrightarrow> short_addresses rows \<Longrightarrow> \<forall>row \<in> set rows. length row = 2 \<Longrightarrow>
    \<exists>t'. add_rows pton6 pton4 t rows = Some t' \<and> table_ok t' \<and>
      table_entries t' = table_entries t \<union> set (rows_entries pton6 pton4 rows)"
proof (induction rows arbitrary: t)
  case (Cons row rows)
  from Cons.prems have s: "short_addresses rows" "length (fst (split_at_first (\<lambda>c. c = CHR ''/'') (row ! 0))) \<noteq> 40"
    and g: "buf_get row 0 = Some (row ! 0)" "buf_get row 1 = Some (row ! 1)"
    by (auto simp: short_addresses_def)
  from prefix_quota_parse_ok[OF assms s(2), of "row ! 1"] obtain r where
    r: "prefix_quota_parse pton6 pton4 (row ! 0) (row ! 1) = Some r"
       "\<forall>e. r = Some e \<longrightarrow> (\<exists>fam \<in> {AF_INET, AF_INET6}. entry_ok fam e)" by blast
  have re: "set (rows_entries pton6 pton4 (row # rows)) = set_option r \<union> set (rows_entries pton6 pton4 rows)"
    using r(1) by (cases r) (auto simp: rows_entries_def row_entry_def List.map_filter_simps)
  show ?case
  proof (cases r)
    case None
    with Cons.IH[OF Cons.prems(1) s(1)] Cons.prems(3) r(1) g re show ?thesis by simp
  next
    case (Some e)
    with r(2) obtain fam where f: "fam \<in> {AF_INET, AF_INET6}" "entry_ok fam e" by blast
    from prefix_table_add_ok[OF Cons.prems(1) f(2,1)] obtain t1 where
      t1: "prefix_table_add True t e = Some (0, t1)" "table_ok t1" "table_entries t1 = insert e (table_entries t)" by blast
    from Cons.IH[OF t1(2) s(1)] Cons.prems(3) obtain t2 where
      "add_rows pton6 pton4 t1 rows = Some t2" "table_ok t2"
      "table_entries t2 = table_entries t1 \<union> set (rows_entries pton6 pton4 rows)" by auto
    with t1 Some r(1) g re show ?thesis by simp
  qed
qed (simp add: rows_entries_def List.map_filter_simps)

lemma longest_match_family:
  assumes "set fs = set es" "\<forall>e \<in> set fs - set gs. sa_family (prefix_addr e) \<noteq> sa_family addr" "set gs \<subseteq> set fs"
  shows "longest_match fs addr = longest_match gs addr"
proof -
  have "(e \<in> set fs \<and> entry_matches addr e) \<longleftrightarrow> (e \<in> set gs \<and> entry_matches addr e)" for e
    using assms by (auto simp: entry_matches_def in_prefix_def)
  then have m: "{e \<in> set fs. entry_matches addr e} = {e \<in> set gs. entry_matches addr e}" by blast
  have "longest_match xs addr q \<longleftrightarrow> (let M = {e \<in> set xs. entry_matches addr e} in
      if M = {} then q = - 1 else \<exists>e \<in> M. q = quota e \<and> (\<forall>e' \<in> M. prefix_len e' \<le> prefix_len e))" for xs q
    by (auto simp: longest_match_def Let_def)
  then show ?thesis unfolding fun_eq_iff by (simp only: m simp_thms)
qed

lemma get_quota_longest:
  assumes ok: "table_ok t" "table_sorted t" and wf: "sock_wf addr" and es: "set es = table_entries t"
  shows "\<exists>q. prefix_table_get_quota t addr = Some q \<and> longest_match es addr q"
proof (cases addr)
  case (Sock_v4 a p)
  from mono_get_quota[of AF_INET "v4_table t" addr] ok wf obtain q where
    q: "monofamily_prefix_table_get_quota (v4_table t) addr = Some q" "longest_match (entries (v4_table t)) addr q"
    by (auto simp: table_ok_def table_sorted_def)
  have "longest_match es addr = longest_match (entries (v4_table t)) addr"
    by (rule longest_match_family[OF refl])
      (use ok es Sock_v4 in \<open>auto simp: table_entries_def table_ok_def mono_ok_def entry_ok_def\<close>)
  with q Sock_v4 show ?thesis by (simp add: prefix_table_get_quota_def)
next
  case (Sock_v6 a p)
  from mono_get_quota[of AF_INET6 "v6_table t" addr] ok wf obtain q where
    q: "monofamily_prefix_table_get_quota (v6_table t) addr = Some q" "longest_match (entries (v6_table t)) addr q"
    by (auto simp: table_ok_def table_sorted_def)
  have "longest_match es addr = longest_match (entries (v6_table t)) addr"
    by (rule longest_match_family[OF refl])
      (use ok es Sock_v6 in \<open>auto simp: table_entries_def table_ok_def mono_ok_def entry_ok_def\<close>)
  with q Sock_v6 show ?thesis by (simp add: prefix_table_get_quota_def)
next
  case (Sock_other n)
  then show ?thesis by (simp add: prefix_table_get_quota_def longest_match_def entry_matches_def in_prefix_def)
qed

lemma table_entries_sort [simp]: "table_entries (prefix_table_sort t) = table_entries t"
  by (simp add: table_entries_def prefix_table_sort_def)

lemma table_ok_new [simp]: "table_ok prefix_table_new" "table_entries prefix_table_new = {}"
  by (simp_all add: table_ok_def mono_ok_def prefix_table_new_def table_entries_def)

text \<open>
  C19: a quota file whose rows have address parts of any length but 40 characters is read without
  an access outside a buffer, and afterwards the quota of any address is that of a longest prefix
  among the rows that parse and that contains the address, or \<open>-1\<close> if no prefix does. The
  hypothesis on the conversions of the system library is that they give 16 and 4 bytes.
\<close>

theorem prefix_table_read_longest_match:
  assumes "pton_ok pton6 pton4" "file_parse contents 2 [CHR 0x09, CHR '' ''] True = Some rows"
    and "short_addresses rows" "sock_wf addr"
  shows "\<exists>t q. prefix_table_read pton6 pton4 prefix_table_new contents = Some (0, t) \<and>
    prefix_table_get_quota t addr = Some q \<and> longest_match (rows_entries pton6 pton4 rows) addr q"
proof -
  from add_rows_ok[OF assms(1) table_ok_new(1) assms(3) file_parse_length[OF assms(2)]] obtain t where
    t: "add_rows pton6 pton4 prefix_table_new rows = Some t" "table_ok t"
       "table_entries t = set (rows_entries pton6 pton4 rows)" by auto
  from get_quota_longest[of "prefix_table_sort t" addr "rows_entries pton6 pton4 rows"] prefix_table_sort_ok[OF t(2)]
    t(3) assms(4) show ?thesis by (simp add: prefix_table_read_def assms(2) t(1))
qed

definition demo_pton4 :: pton where
  "demo_pton4 s = (if s = ''10.0.0.0'' then Some [10, 0, 0, 0] else if s = ''10.1.0.0'' then Some [10, 1, 0, 0] else None)"

theorem prefix_table_read_longest_match_witness:
  "\<exists>t q. prefix_table_read (\<lambda>_. None) demo_pton4 prefix_table_new (Some ''10.1.0.0/16 3'') = Some (0, t) \<and>
    prefix_table_get_quota t (Sock_v4 [10, 1, 2, 3] 0) = Some q \<and>
    longest_match (rows_entries (\<lambda>_. None) demo_pton4 [[''10.1.0.0/16'', ''3'']]) (Sock_v4 [10, 1, 2, 3] 0) q"
  by (rule prefix_table_read_longest_match)
    (simp_all add: pton_ok_def demo_pton4_def file_parse_def line_fields_def strip_eol_def Let_def short_addresses_def
      split_at_first_def sock_wf_def)

subsection \<open>Comparison of addresses\<close>

lemma digit256_inj: "a < 256 \<Longrightarrow> a' < 256 \<Longrightarrow> a + 256 * x = a' + 256 * y \<longleftrightarrow> a = a' \<and> x = (y :: nat)"
proof
  assume l: "a < 256" "a' < 256" and e: "a + 256 * x = a' + 256 * y"
  have m: "(c + 256 * z) mod 256 = c" if "c < 256" for c z :: nat using that by simp
  from arg_cong[OF e, of "\<lambda>n. n mod 256"] have "a = a'" by (simp only: m[OF l(1)] m[OF l(2)])
  with e show "a = a' \<and> x = y" by simp
qed simp

lemma s_addr_nat:
  "s_addr [a, b, c, d] = of_nat (unat a + 256 * (unat b + 256 * (unat c + 256 * unat d)))"
proof -
  have "[0..<4] = [0, 1, 2, 3 :: nat]" by (simp add: upt_rec)
  moreover have "push_bit n w = 2 ^ n * w" for n and w :: "32 word" by (simp add: push_bit_eq_mult)
  ultimately show ?thesis by (simp add: s_addr_def)
qed

lemma s_addr_inj:
  assumes "length x = 4" "length y = 4"
  shows "s_addr x = s_addr y \<longleftrightarrow> x = y"
proof -
  obtain a b c d where x: "x = [a, b, c, d]" using assms(1) by (auto simp: length_Suc_conv eval_nat_numeral)
  obtain a' b' c' d' where y: "y = [a', b', c', d']" using assms(2) by (auto simp: length_Suc_conv eval_nat_numeral)
  have lt: "unat (w :: byte) < 256" for w using unsigned_less[of w, where ?'a = nat] by simp
  note l = lt[of a] lt[of b] lt[of c] lt[of d] lt[of a'] lt[of b'] lt[of c'] lt[of d']
  have u: "unat (s_addr [a, b, c, d]) = unat a + 256 * (unat b + 256 * (unat c + 256 * unat d))"
    if "unat a < 256" "unat b < 256" "unat c < 256" "unat d < 256" for a b c d
    unfolding s_addr_nat unat_of_nat using that by simp
  show ?thesis
  proof
    assume "s_addr x = s_addr y"
    then have "unat (s_addr [a, b, c, d]) = unat (s_addr [a', b', c', d'])" by (simp add: x y)
    then have "unat a = unat a' \<and> unat b = unat b' \<and> unat c = unat c' \<and> unat d = unat d'"
      unfolding u[OF l(1-4)] u[OF l(5-8)] by (simp only: digit256_inj l)
    then show "x = y" unfolding x y using unsigned_word_eqI by blast
  qed simp
qed

text \<open>
  Two addresses of the supported families compare equal exactly if family, address and port
  are the same; the comparison of IPv4 addresses by a wrapped 32-bit difference loses nothing.
\<close>

lemma ip_cmp_correct:
  assumes "sock_wf s1" "sock_wf s2" "sa_family s1 \<in> {AF_INET, AF_INET6}"
  shows "ip_cmp s1 s2 = 0 \<longleftrightarrow> s1 = s2"
proof -
  have z: "sint (a - b) = 0 \<longleftrightarrow> a = b" for a b :: "32 word" by (simp add: signed_eq_0_iff)
  have u: "uint a = uint b \<longleftrightarrow> a = b" for a b :: "16 word" by (rule word_uint_eq_iff[symmetric])
  show ?thesis using assms s_addr_inj
    by (cases s1; cases s2) (auto simp: ip_cmp_def sock_wf_def memcmp_def Let_def z u)
qed

text \<open>
  An address part of exactly 40 characters passes the length check of \<open>ip_prefix_parse\<close> and the
  terminating zero is written past the end of the 40-byte buffer.
\<close>

lemma ip_prefix_parse_overflow:
  "length (fst (split_at_first (\<lambda>c. c = CHR ''/'') s)) = 40 \<Longrightarrow> ip_prefix_parse pton6 pton4 s = None"
  by (auto simp: ip_prefix_parse_def Let_def split: prod.split)

end
