(* ===== verification/Json_Data.thy ===== *)
theory Json_Data
  imports Complex_Main Prelude
begin

text \<open>
  JSON documents as the code builds and reads them. The document a call of a constructor of the
  JSON library gives is a value of \<open>json\<close>; an object is its fields in the order they were added.
  The readers of the library convert between types in their own way and are the fields of a record
  \<open>json_api\<close> that the definitions take as an argument; \<open>json_api_ok\<close> states what the
  documentation of the library says about a reader applied to a document of the matching type.
\<close>

datatype json =
    JNull
  | JBool bool
  | JInt int
  | JDouble real
  | JString cstring
  | JArray "json list"
  | JObject "(cstring \<times> json) list"

text \<open>
  \<open>json_object_object_get\<close>, \<open>json_object_get_string\<close>, \<open>json_object_get_int\<close>,
  \<open>json_object_get_int64\<close>, \<open>json_object_get_boolean\<close>, the values an object iterator and
  an array index visit.
\<close>

record json_api =
  obj_get :: "json \<Rightarrow> cstring \<Rightarrow> json option"
  get_string :: "json \<Rightarrow> cstring option"
  get_int :: "json \<Rightarrow> int"
  get_int64 :: "json \<Rightarrow> int"
  get_boolean :: "json \<Rightarrow> bool"
  obj_fields :: "json \<Rightarrow> (cstring \<times> json) list"
  array_items :: "json \<Rightarrow> json list"

definition json_api_ok :: "json_api \<Rightarrow> bool" where
  "json_api_ok api \<longleftrightarrow>
     (\<forall>fs k. obj_get api (JObject fs) k = map_of fs k) \<and>
     (\<forall>s. get_string api (JString s) = Some s) \<and>
     (\<forall>i. - (2 ^ 31) \<le> i \<longrightarrow> i < 2 ^ 31 \<longrightarrow> get_int api (JInt i) = i) \<and>
     (\<forall>i. - (2 ^ 63) \<le> i \<longrightarrow> i < 2 ^ 63 \<longrightarrow> get_int64 api (JInt i) = i) \<and>
     (\<forall>b. get_boolean api (JBool b) = b) \<and>
     (\<forall>fs. obj_fields api (JObject fs) = fs) \<and>
     (\<forall>xs. array_items api (JArray xs) = xs)"

named_theorems json_read \<open>what the readers return on documents of the matching type\<close>

lemma json_api_readers [json_read]:
  assumes "json_api_ok api"
  shows "obj_get api (JObject fs) k = map_of fs k" "get_string api (JString s) = Some s"
    "- (2 ^ 31) \<le> i \<Longrightarrow> i < 2 ^ 31 \<Longrightarrow> get_int api (JInt i) = i"
    "- (2 ^ 63) \<le> i \<Longrightarrow> i < 2 ^ 63 \<Longrightarrow> get_int64 api (JInt i) = i"
    "get_boolean api (JBool b) = b" "obj_fields api (JObject fs) = fs" "array_items api (JArray xs) = xs"
  using assms by (simp_all add: json_api_ok_def)

text \<open>Readers that give a fixed value on documents of another type, for the witnesses.\<close>

definition plain_api :: json_api where
  "plain_api = \<lparr>
     obj_get = (\<lambda>j k. case j of JObject fs \<Rightarrow> map_of fs k | _ \<Rightarrow> None),
     get_string = (\<lambda>j. case j of JString s \<Rightarrow> Some s | _ \<Rightarrow> None),
     get_int = (\<lambda>j. case j of JInt i \<Rightarrow> max (- (2 ^ 31)) (min (2 ^ 31 - 1) i) | _ \<Rightarrow> 0),
     get_int64 = (\<lambda>j. case j of JInt i \<Rightarrow> max (- (2 ^ 63)) (min (2 ^ 63 - 1) i) | _ \<Rightarrow> 0),
     get_boolean = (\<lambda>j. case j of JBool b \<Rightarrow> b | _ \<Rightarrow> False),
     obj_fields = (\<lambda>j. case j of JObject fs \<Rightarrow> fs | _ \<Rightarrow> []),
     array_items = (\<lambda>j. case j of JArray xs \<Rightarrow> xs | _ \<Rightarrow> [])\<rparr>"

lemma plain_api_ok: "json_api_ok plain_api"
  by (simp add: json_api_ok_def plain_api_def)

end
