(* ===== verification/Auth.thy ===== *)
theory Auth
  imports Util_Text Json_Data
begin

text \<open>
  Accounts and credentials: the account files and the decisions based on them
  (\<^verbatim>\<open>caster/auth.c\<close>, \<open>check_password\<close> and \<open>check_rover_password\<close> of \<^verbatim>\<open>caster/ntripsrv.c\<close>), the
  authorization header (\<^verbatim>\<open>caster/http.c\<close>), the settings per mountpoint of a remote caster
  (\<^verbatim>\<open>caster/json.c\<close>). The arrays of the code end with an entry without user; here they are lists.
  Allocations succeed; reading past a row of a file is \<^const>\<open>None\<close>.
\<close>

subsection \<open>Account files\<close>

record auth_entry =
  ae_key :: cstring
  ae_user :: cstring
  ae_password :: cstring

record rover_auth_entry =
  ra_user :: cstring
  ra_password :: cstring
  ra_enabled :: bool

record user_auth_entry =
  ua_user :: cstring
  ua_password :: cstring
  ua_role :: cstring
  ua_enabled :: bool

text \<open>\<open>rows f rs\<close> is the loop over the rows of the parsed file.\<close>

fun rows :: "(cstring list \<Rightarrow> 'a option) \<Rightarrow> cstring list list \<Rightarrow> 'a list option" where
  "rows f [] = Some []"
| "rows f (r # rs) = do { x \<leftarrow> f r; xs \<leftarrow> rows f rs; Some (x # xs) }"

definition auth_row :: "cstring list \<Rightarrow> auth_entry option" where
  "auth_row r = do {
     key \<leftarrow> buf_get r 0;
     user \<leftarrow> buf_get r 1;
     password \<leftarrow> buf_get r 2;
     Some \<lparr>ae_key = key, ae_user = user, ae_password = password\<rparr>
   }"

text \<open>Outer \<^const>\<open>None\<close> is a read past a row, inner \<^const>\<open>None\<close> the NULL result.\<close>

definition auth_parse :: "cstring option \<Rightarrow> auth_entry list option option" where
  "auth_parse contents =
     (case file_parse contents 3 '':'' False of
        None \<Rightarrow> Some None
      | Some p \<Rightarrow> map_option Some (rows auth_row p))"

fun auth_lookup_by :: "(cstring \<Rightarrow> cstring \<Rightarrow> bool) \<Rightarrow> auth_entry list \<Rightarrow> cstring \<Rightarrow> auth_entry option" where
  "auth_lookup_by eq [] key = None"
| "auth_lookup_by eq (e # es) key = (if eq (ae_key e) key then Some e else auth_lookup_by eq es key)"

definition auth_lookup :: "auth_entry list \<Rightarrow> cstring \<Rightarrow> auth_entry option" where
  "auth_lookup auth key = auth_lookup_by (\<lambda>a b. c_strcmp a b = 0) auth key"

definition auth_lookupi :: "auth_entry list \<Rightarrow> cstring \<Rightarrow> auth_entry option" where
  "auth_lookupi auth key = auth_lookup_by c_strcaseeq auth key"

definition flag_enabled :: "cstring \<Rightarrow> bool" where
  "flag_enabled e \<longleftrightarrow> c_strcaseeq e ''Y'' \<or> c_strcaseeq e ''yes'' \<or> c_strcaseeq e ''true'' \<or> e = ''1''"

definition rover_auth_row :: "cstring list \<Rightarrow> rover_auth_entry option" where
  "rover_auth_row r = do {
     user \<leftarrow> buf_get r 0;
     password \<leftarrow> buf_get r 1;
     e \<leftarrow> buf_get r 2;
     Some \<lparr>ra_user = user, ra_password = password, ra_enabled = flag_enabled e\<rparr>
   }"

definition rover_auth_parse :: "cstring option \<Rightarrow> rover_auth_entry list option option" where
  "rover_auth_parse contents =
     (case file_parse contents 3 '':'' False of
        None \<Rightarrow> Some None
      | Some p \<Rightarrow> map_option Some (rows rover_auth_row p))"

fun rover_auth_lookup :: "rover_auth_entry list \<Rightarrow> cstring \<Rightarrow> rover_auth_entry option" where
  "rover_auth_lookup [] user = None"
| "rover_auth_lookup (e # es) user = (if ra_user e = user then Some e else rover_auth_lookup es user)"

definition user_auth_row :: "cstring list \<Rightarrow> user_auth_entry option" where
  "user_auth_row r = do {
     user \<leftarrow> buf_get r 0;
     password \<leftarrow> buf_get r 1;
     role \<leftarrow> buf_get r 2;
     e \<leftarrow> buf_get r 3;
     Some \<lparr>ua_user = user, ua_password = password, ua_role = role, ua_enabled = flag_enabled e\<rparr>
   }"

definition user_auth_parse :: "cstring option \<Rightarrow> user_auth_entry list option option" where
  "user_auth_parse contents =
     (case file_parse contents 4 '':'' False of
        None \<Rightarrow> Some None
      | Some p \<Rightarrow> map_option Some (rows user_auth_row p))"

fun user_auth_lookup :: "user_auth_entry list \<Rightarrow> cstring \<Rightarrow> user_auth_entry option" where
  "user_auth_lookup [] user = None"
| "user_auth_lookup (e # es) user = (if ua_user e = user then Some e else user_auth_lookup es user)"

subsection \<open>Decisions\<close>

text \<open>The part of the configuration that the decisions read; a list is \<^const>\<open>None\<close> if it was not loaded.\<close>

record auth_config =
  source_auth :: "auth_entry list option"
  rover_auth :: "rover_auth_entry list option"
  user_auth :: "user_auth_entry list option"
  admin_user :: cstring
  rover_auth_filename :: "cstring option"

datatype checkpw = CHECKPW_MOUNTPOINT_INVALID | CHECKPW_MOUNTPOINT_VALID | CHECKPW_MOUNTPOINT_WILDCARD

definition check_password :: "auth_config \<Rightarrow> cstring \<Rightarrow> cstring option \<Rightarrow> cstring \<Rightarrow> checkpw" where
  "check_password config mountpoint user passwd =
     (case source_auth config of
        None \<Rightarrow> CHECKPW_MOUNTPOINT_INVALID
      | Some auth \<Rightarrow>
          (case auth_lookup auth mountpoint of
             Some e \<Rightarrow>
               if (user = None \<or> user = Some (ae_user e)) \<and> ae_password e = passwd
               then CHECKPW_MOUNTPOINT_VALID else CHECKPW_MOUNTPOINT_INVALID
           | None \<Rightarrow>
               (case auth_lookup auth ''*'' of
                  Some w \<Rightarrow> if ae_password w = passwd then CHECKPW_MOUNTPOINT_WILDCARD else CHECKPW_MOUNTPOINT_INVALID
                | None \<Rightarrow> CHECKPW_MOUNTPOINT_INVALID)))"

definition check_rover_password :: "auth_config \<Rightarrow> cstring option \<Rightarrow> cstring option \<Rightarrow> bool" where
  "check_rover_password config user passwd =
     (case (rover_auth config, user, passwd) of
        (Some auth, Some user, Some passwd) \<Rightarrow>
          (case rover_auth_lookup auth user of
             None \<Rightarrow> False
           | Some e \<Rightarrow> if \<not> ra_enabled e then False else ra_password e = passwd)
      | _ \<Rightarrow> False)"

definition rover_auth_exempt_peer :: "cstring \<Rightarrow> bool" where
  "rover_auth_exempt_peer remote_addr \<longleftrightarrow> remote_addr = ''127.0.0.1'' \<or> remote_addr = ''::1''"

datatype admin_role = ADMIN_ROLE_NONE | ADMIN_ROLE_VIEWER | ADMIN_ROLE_ADMIN

definition resolve_admin_role :: "auth_config \<Rightarrow> cstring option \<Rightarrow> cstring option \<Rightarrow> admin_role" where
  "resolve_admin_role config user password =
     (case (user, password) of
        (Some u, Some p) \<Rightarrow>
          if check_password config (admin_user config) (Some u) p \<noteq> CHECKPW_MOUNTPOINT_INVALID then ADMIN_ROLE_ADMIN
          else
            (case user_auth config of
               None \<Rightarrow> ADMIN_ROLE_NONE
             | Some auth \<Rightarrow>
                 (case user_auth_lookup auth u of
                    Some e \<Rightarrow>
                      if ua_enabled e \<and> ua_password e = p
                      then (if ua_role e = ''admin'' then ADMIN_ROLE_ADMIN else ADMIN_ROLE_VIEWER)
                      else ADMIN_ROLE_NONE
                  | None \<Rightarrow> ADMIN_ROLE_NONE))
      | _ \<Rightarrow> ADMIN_ROLE_NONE)"

definition admin_role_name :: "admin_role \<Rightarrow> cstring" where
  "admin_role_name role =
     (if role = ADMIN_ROLE_ADMIN then ''admin'' else if role = ADMIN_ROLE_VIEWER then ''viewer'' else ''none'')"

subsection \<open>The authorization header\<close>

text \<open>The value of the header that is added; \<^const>\<open>None\<close> is a write past a buffer.\<close>

definition http_headers_add_auth :: "cstring \<Rightarrow> cstring \<Rightarrow> cstring option" where
  "http_headers_add_auth user password =
     map_option (\<lambda>b64. ''Basic '' @ b64) (b64encode (bytes_of (user @ '':'' @ password)))"

text \<open>
  The scheme (\<open>Basic\<close> or not), the user and the password; inner \<^const>\<open>None\<close> is the result \<open>-1\<close>. The
  decoded text ends at its first zero byte.
\<close>

definition http_decode_auth :: "cstring \<Rightarrow> (bool \<times> cstring \<times> cstring) option option" where
  "http_decode_auth value =
     (case split_at_first c_isspace value of
        (_, None) \<Rightarrow> Some None
      | (scheme, Some r) \<Rightarrow>
          if \<not> c_strcaseeq scheme ''Basic'' \<and> \<not> c_strcaseeq scheme ''internal'' then Some None
          else
            let p = dropWhile c_isspace r in
            if p = [] then Some None
            else if \<not> c_strcaseeq scheme ''Basic'' then
              let auth = takeWhile (\<lambda>c. \<not> c_isspace c) p in Some (Some (False, auth, auth))
            else do {
              d \<leftarrow> b64decode p;
              case d of
                None \<Rightarrow> Some None
              | Some bs \<Rightarrow>
                  let auth = takeWhile (\<lambda>c. c \<noteq> CHR 0x00) (string_of bs) in
                  Some (case split_at_first (\<lambda>c. c = CHR '':'') auth of
                    (user, Some password) \<Rightarrow> Some (True, user, password)
                  | (_, None) \<Rightarrow> None)
            })"

subsection \<open>Settings per mountpoint\<close>

definition json_get_source_action :: "json_api \<Rightarrow> cstring \<Rightarrow> json option \<Rightarrow> bool" where
  "json_get_source_action api line sources =
     (case sources of
        None \<Rightarrow> True
      | Some sources \<Rightarrow>
          if length line \<le> 15 \<or> take 4 line \<noteq> ''STR;'' then True
          else
            (case split_at_first (\<lambda>c. c = CHR '';'') (drop 4 line) of
               (_, None) \<Rightarrow> True
             | (key, Some _) \<Rightarrow>
                 let mountpoint = (case obj_get api sources key of None \<Rightarrow> obj_get api sources ''*'' | m \<Rightarrow> m);
                     action = Option.bind (Option.bind mountpoint (\<lambda>m. obj_get api m ''action'')) (get_string api)
                 in action = None \<or> action = Some ''keep''))"

definition json_get_authentication ::
  "json_api \<Rightarrow> json \<Rightarrow> cstring \<Rightarrow> int \<times> cstring option \<times> cstring option" where
  "json_get_authentication api json_config mountpoint =
     (case obj_get api json_config ''sources'' of
        None \<Rightarrow> (0, None, None)
      | Some sources \<Rightarrow>
          (case (case obj_get api sources mountpoint of None \<Rightarrow> obj_get api sources ''*'' | a \<Rightarrow> a) of
             None \<Rightarrow> (0, None, None)
           | Some auth \<Rightarrow> (1, Option.bind (obj_get api auth ''user'') (get_string api),
                             Option.bind (obj_get api auth ''password'') (get_string api))))"

subsection \<open>Properties\<close>

text \<open>The first entry of a file with a key.\<close>

lemma auth_lookup_find: "auth_lookup auth key = List.find (\<lambda>e. ae_key e = key) auth"
  unfolding auth_lookup_def by (induction auth) simp_all

lemma rover_auth_lookup_find: "rover_auth_lookup auth user = List.find (\<lambda>e. ra_user e = user) auth"
  by (induction auth) simp_all

lemma user_auth_lookup_find: "user_auth_lookup auth user = List.find (\<lambda>e. ua_user e = user) auth"
  by (induction auth) simp_all

lemma find_entry_None: "List.find (\<lambda>e. f e = k) xs = None \<longleftrightarrow> k \<notin> f ` set xs"
  by (auto simp: find_None_iff)

text \<open>Every row of a parsed file has the fields that the loop reads.\<close>

lemma rows_total: "\<forall>r \<in> set rs. f r \<noteq> None \<Longrightarrow> rows f rs = Some (map (the \<circ> f) rs)"
  by (induction rs) auto

lemma auth_parse_total:
  "auth_parse contents = Some (map_option (map (\<lambda>r. \<lparr>ae_key = r ! 0, ae_user = r ! 1, ae_password = r ! 2\<rparr>))
     (file_parse contents 3 '':'' False))"
proof (cases "file_parse contents 3 '':'' False")
  case (Some p)
  from file_parse_length[OF this] have l: "\<forall>r \<in> set p. length r = 3" .
  then have "rows auth_row p = Some (map (the \<circ> auth_row) p)" by (intro rows_total) (simp add: auth_row_def)
  also have "map (the \<circ> auth_row) p = map (\<lambda>r. \<lparr>ae_key = r ! 0, ae_user = r ! 1, ae_password = r ! 2\<rparr>) p"
    using l by (simp add: auth_row_def)
  finally show ?thesis using Some by (simp add: auth_parse_def)
qed (simp add: auth_parse_def)

text \<open>The password decides: the three results of \<open>check_password\<close>.\<close>

lemma check_password_valid:
  "check_password config m u p = CHECKPW_MOUNTPOINT_VALID \<longleftrightarrow>
    (\<exists>auth e. source_auth config = Some auth \<and> auth_lookup auth m = Some e \<and> (u = None \<or> u = Some (ae_user e)) \<and> ae_password e = p)"
  by (auto simp: check_password_def split: option.split)

lemma check_password_wildcard:
  "check_password config m u p = CHECKPW_MOUNTPOINT_WILDCARD \<longleftrightarrow>
    (\<exists>auth w. source_auth config = Some auth \<and> m \<notin> ae_key ` set auth \<and> auth_lookup auth ''*'' = Some w \<and> ae_password w = p)"
  unfolding find_entry_None[of ae_key m, symmetric] auth_lookup_find[symmetric]
  by (auto simp: check_password_def split: option.split)

text \<open>A file without an entry for the administrator: the password of the wildcard entry opens the console to any user.\<close>

lemma wildcard_password_is_admin:
  assumes "source_auth config = Some auth" "admin_user config \<notin> ae_key ` set auth" "auth_lookup auth ''*'' = Some w"
  shows "resolve_admin_role config (Some user) (Some (ae_password w)) = ADMIN_ROLE_ADMIN"
proof -
  have "check_password config (admin_user config) (Some user) (ae_password w) = CHECKPW_MOUNTPOINT_WILDCARD"
    using assms by (simp add: check_password_wildcard)
  then show ?thesis by (simp add: resolve_admin_role_def)
qed

lemma base64_no_space: "c \<in> set base64 \<Longrightarrow> \<not> c_isspace c"
  by (auto simp: base64_def c_isspace_def)

lemma b64encode_head:
  assumes "bs \<noteq> []"
  shows "\<exists>c r. b64encode_loop bs = c # r \<and> \<not> c_isspace c"
proof -
  have "\<not> c_isspace (b64char (drop_bit 2 (ucast (x :: byte))))" for x
  proof -
    have "unat (g0 x) < length base64" using groups_small(1)[of x] bit_groups(1)[of x] by (simp add: base64_def word_less_nat_alt)
    then show ?thesis using base64_no_space nth_mem unfolding b64char_def g0_def by blast
  qed
  with assms show ?thesis by (cases bs rule: b64encode_loop.cases) auto
qed

text \<open>
  C32: A user name without a colon and a password, sent by the client part of the caster as an
  authorization header, are what the server part decodes from the header.
\<close>
theorem basic_auth_roundtrip:
  assumes "CHR '':'' \<notin> set user" "CHR 0x00 \<notin> set user" "CHR 0x00 \<notin> set password"
  shows "\<exists>value. http_headers_add_auth user password = Some value \<and>
    http_decode_auth value = Some (Some (True, user, password))"
proof -
  let ?bs = "bytes_of (user @ '':'' @ password)"
  obtain c r where e: "b64encode_loop ?bs = c # r" "\<not> c_isspace c"
    using b64encode_head[of ?bs] by (auto simp: bytes_of_def)
  have v: "http_headers_add_auth user password = Some (''Basic'' @ CHR '' '' # b64encode_loop ?bs)"
    by (simp add: http_headers_add_auth_def b64_inverse(1))
  have sp: "split_at_first c_isspace (''Basic'' @ CHR '' '' # b64encode_loop ?bs) = (''Basic'', Some (b64encode_loop ?bs))"
    by (rule split_at_first_append) (simp_all add: c_isspace_def)
  have tw: "takeWhile (\<lambda>c. c \<noteq> CHR 0x00) (user @ CHR '':'' # password) = user @ CHR '':'' # password"
    using assms(2,3) by (auto simp: takeWhile_eq_all_conv)
  have "split_at_first (\<lambda>c. c = CHR '':'') (user @ CHR '':'' # password) = (user, Some password)"
    using assms(1) by (intro split_at_first_append) auto
  then have "http_decode_auth (''Basic'' @ CHR '' '' # b64encode_loop ?bs) = Some (Some (True, user, password))"
    unfolding http_decode_auth_def sp using e b64_inverse(2)[of ?bs] by (simp add: c_strcaseeq_def tw del: takeWhile_append)
  with v show ?thesis by blast
qed

theorem basic_auth_roundtrip_witness:
  "\<exists>value. http_headers_add_auth ''base1'' ''a:b'' = Some value \<and> http_decode_auth value = Some (Some (True, ''base1'', ''a:b''))"
  by (rule basic_auth_roundtrip) simp_all

end
