(* ===== verification/Rtcm_Info.thy ===== *)
theory Rtcm_Info
  imports Complex_Main Rtcm_Msm
begin

text \<open>
  What the caster keeps of an RTCM source (\<^verbatim>\<open>struct rtcm_info\<close> of \<^verbatim>\<open>caster/rtcm.h\<close>): the types
  seen, the last position messages, the decoded position and the running averages of its drift;
  and the RTCM filters of \<^verbatim>\<open>caster/rtcm.c\<close>. Floating point values are reals, without
  rounding; the conversion of ECEF coordinates, which rests on the mathematical library, is the
  argument \<open>ecef\<close>. A time is a pair of seconds and microseconds.
\<close>

subsection \<open>Filters\<close>

datatype rtcm_conversion = RTCM_CONV_MSM7_3 | RTCM_CONV_MSM7_4

record rtcm_filter =
  filter_pass :: rtcm_typeset
  filter_convert :: rtcm_typeset
  conversion :: rtcm_conversion

definition rtcm_filter_pass :: "rtcm_filter \<Rightarrow> packet \<Rightarrow> bool option" where
  "rtcm_filter_pass this packet =
     (if rtcm_state packet = PACKET_RAW then Some False
      else do { type \<leftarrow> rtcm_get_type packet; rtcm_typeset_check (filter_pass this) type })"

text \<open>
  The result is the converted packet, if any, and the packet itself, which the checksum test may
  mark. The filter may be NULL.
\<close>

definition rtcm_filter_convert ::
  "(nat \<Rightarrow> byte) \<Rightarrow> rtcm_filter option \<Rightarrow> packet \<Rightarrow> (packet option \<times> packet) option" where
  "rtcm_filter_convert junk this packet =
     (if rtcm_state packet = PACKET_RAW then Some (None, packet)
      else case this of None \<Rightarrow> Some (None, packet)
      | Some f \<Rightarrow> do {
          type \<leftarrow> rtcm_get_type packet;
          b \<leftarrow> rtcm_typeset_check (filter_convert f) type;
          if \<not> b then Some (None, packet)
          else do {
            (ok, packet') \<leftarrow> rtcm_crc_check packet;
            if \<not> ok then Some (None, packet')
            else do {
              p \<leftarrow> (if conversion f = RTCM_CONV_MSM7_4 then rtcm_convert_msm7 junk packet' 4
                    else if conversion f = RTCM_CONV_MSM7_3 then rtcm_convert_msm7 junk packet' 3
                    else Some None);
              Some (p, packet')
            }
          }
        })"

definition rtcm_filter_new ::
  "cstring \<Rightarrow> cstring option \<Rightarrow> rtcm_conversion \<Rightarrow> rtcm_filter option option" where
  "rtcm_filter_new pass convert conv = do {
     (r, pass_set) \<leftarrow> rtcm_typeset_parse rtcm_typeset_init pass;
     (r, convert_set) \<leftarrow>
       (case convert of
          Some c \<Rightarrow> if r \<ge> 0 then rtcm_typeset_parse rtcm_typeset_init c else Some (r, rtcm_typeset_init)
        | None \<Rightarrow> Some (r, rtcm_typeset_init));
     Some (if r < 0 then None
           else Some \<lparr>filter_pass = pass_set, filter_convert = convert_set, conversion = conv\<rparr>)
   }"

text \<open>
  \<open>rtcm_filter_dict_parse\<close>: the mountpoints a filter applies to, keys of a table of 5 buckets.
  One turn of its loop reads a key up to a comma and trims it; an empty key is an error.
\<close>

definition trim_end :: "cstring \<Rightarrow> cstring" where
  "trim_end s = rev (dropWhile c_isspace (rev s))"

function dict_parse_loop :: "unit hash_table \<Rightarrow> cstring \<Rightarrow> unit hash_table option" where
  "dict_parse_loop h p =
     (let p = dropWhile c_isspace p;
          key = takeWhile (\<lambda>c. c \<noteq> CHR '','') p;
          rest = drop 1 (dropWhile (\<lambda>c. c \<noteq> CHR '','') p)
      in if key = [] then None
         else let k = trim_end key in
           if k = [] then None
           else let h' = snd (hash_table_add True h k ())
             in if rest = [] then Some h' else dict_parse_loop h' rest)"
  by auto
termination
proof (relation "measure (\<lambda>(h, p). length p)")
  fix h :: "unit hash_table" and p p' key rest k h'
  assume p': "p' = dropWhile c_isspace p" and key: "key = takeWhile (\<lambda>c. c \<noteq> CHR '','') p'"
    and rest: "rest = drop 1 (dropWhile (\<lambda>c. c \<noteq> CHR '','') p')" and ne: "key \<noteq> []"
  have "length p' \<le> length p" unfolding p' by (rule length_dropWhile_le)
  moreover have "length rest \<le> length p' - length key"
    unfolding rest key by (simp add: dropWhile_eq_drop)
  moreover have "0 < length key" "length key \<le> length p'"
    using ne length_takeWhile_le unfolding key by blast+
  ultimately have "length rest < length p" by linarith
  then show "((h', rest), h, p) \<in> measure (\<lambda>(h, p). length p)" by simp
qed simp

declare dict_parse_loop.simps [simp del]

definition rtcm_filter_dict_parse :: "cstring \<Rightarrow> unit hash_table option" where
  "rtcm_filter_dict_parse apply_str = do { h \<leftarrow> hash_table_new True 5; dict_parse_loop h apply_str }"

definition rtcm_filter_check_mountpoint :: "unit hash_table \<Rightarrow> cstring \<Rightarrow> bool" where
  "rtcm_filter_check_mountpoint rtcm_filter_dict mountpoint \<longleftrightarrow>
     hash_table_get_element rtcm_filter_dict mountpoint \<noteq> None"

subsection \<open>State of a source\<close>

type_synonym timeval = "int \<times> int"

record pos_t =
  pos_lat :: real
  pos_lon :: real

record rtcm_info =
  ecef_x :: "64 word"
  ecef_y :: "64 word"
  ecef_z :: "64 word"
  typeset :: rtcm_typeset
  copy1005 :: "packet option"
  copy1006 :: "packet option"
  date1005 :: timeval
  date1006 :: timeval
  posdate :: timeval
  drift_samples :: int
  has_lat_lon_drift :: bool
  avg_lat_drift_mm :: real
  avg_lon_drift_mm :: real
  avg_alt_drift_mm :: real
  has_baseline_alt :: bool
  baseline_alt :: real
  last_observed_pos :: pos_t
  last_observed_alt :: real
  last_declared_pos :: pos_t

text \<open>The coordinates and \<open>posdate\<close> are not initialised by the code: they are arguments.\<close>

definition rtcm_info_new :: "64 word \<Rightarrow> 64 word \<Rightarrow> 64 word \<Rightarrow> timeval \<Rightarrow> rtcm_info" where
  "rtcm_info_new x0 y0 z0 date0 =
     \<lparr>ecef_x = x0, ecef_y = y0, ecef_z = z0, typeset = rtcm_typeset_init,
      copy1005 = None, copy1006 = None, date1005 = (0, 0), date1006 = (0, 0), posdate = date0,
      drift_samples = 0, has_lat_lon_drift = False,
      avg_lat_drift_mm = 0, avg_lon_drift_mm = 0, avg_alt_drift_mm = 0,
      has_baseline_alt = False, baseline_alt = 0,
      last_observed_pos = \<lparr>pos_lat = 0, pos_lon = 0\<rparr>, last_observed_alt = 0,
      last_declared_pos = \<lparr>pos_lat = 0, pos_lon = 0\<rparr>\<rparr>"

text \<open>The freed copies of a source that is released: the references they hold are dropped.\<close>

definition rtcm_info_free :: "rtcm_info \<Rightarrow> packet list" where
  "rtcm_info_free this = (case copy1005 this of Some p \<Rightarrow> [p] | None \<Rightarrow> [])
     @ (case copy1006 this of Some p \<Rightarrow> [p] | None \<Rightarrow> [])"

text \<open>The most recent position packet; equal dates prefer type 1006.\<close>

definition rtcm_info_pos_packet :: "rtcm_info \<Rightarrow> packet option" where
  "rtcm_info_pos_packet this =
     (let (p, date) = (case copy1006 this of Some q \<Rightarrow> (Some q, Some (date1006 this)) | None \<Rightarrow> (None, None))
      in case copy1005 this of
           Some q \<Rightarrow> (case date of
                        None \<Rightarrow> Some q
                      | Some d \<Rightarrow> if fst d < fst (date1005 this) then Some q else p)
         | None \<Rightarrow> p)"

definition handle_1005_1006 :: "timeval \<Rightarrow> rtcm_info \<Rightarrow> int \<Rightarrow> packet \<Rightarrow> rtcm_info option" where
  "handle_1005_1006 now rp type p = do {
     let data = drop 3 (pkt_data p);
     x \<leftarrow> get_int38 data 34;
     y \<leftarrow> get_int38 data 74;
     z \<leftarrow> get_int38 data 114;
     let rp = (if type = 1005 then rp\<lparr>posdate := now, date1005 := now, copy1005 := Some p\<rparr>
               else if type = 1006 then rp\<lparr>posdate := now, date1006 := now, copy1006 := Some p\<rparr>
               else rp);
     Some (rp\<lparr>ecef_x := x, ecef_y := y, ecef_z := z\<rparr>)
   }"

definition METERS_PER_DEG_LAT :: real where
  "METERS_PER_DEG_LAT = 111320"

type_synonym ecef_conv = "int \<Rightarrow> int \<Rightarrow> int \<Rightarrow> pos_t \<times> real"

definition rtcm_info_get_pos :: "ecef_conv \<Rightarrow> rtcm_info \<Rightarrow> pos_t option option" where
  "rtcm_info_get_pos ecef this = do {
     a \<leftarrow> rtcm_typeset_check (typeset this) 1005;
     b \<leftarrow> rtcm_typeset_check (typeset this) 1006;
     Some (if \<not> a \<and> \<not> b then None
           else Some (fst (ecef (sint (ecef_x this)) (sint (ecef_y this)) (sint (ecef_z this)))))
   }"

text \<open>The update of the averages from one observation, with the declared position if there is one.\<close>

definition rtcm_info_update_drift :: "ecef_conv \<Rightarrow> rtcm_info \<Rightarrow> pos_t option \<Rightarrow> rtcm_info option" where
  "rtcm_info_update_drift ecef this declared_pos = do {
     a \<leftarrow> rtcm_typeset_check (typeset this) 1005;
     b \<leftarrow> rtcm_typeset_check (typeset this) 1006;
     if \<not> a \<and> \<not> b then Some this
     else do {
       let (observed, alt) = ecef (sint (ecef_x this)) (sint (ecef_y this)) (sint (ecef_z this));
       let this = this\<lparr>last_observed_pos := observed, last_observed_alt := alt\<rparr>;
       let this =
         (case declared_pos of
            None \<Rightarrow> this
          | Some dp \<Rightarrow>
              let lat_diff_mm = (pos_lat observed - pos_lat dp) * METERS_PER_DEG_LAT * 1000;
                  lon_diff_mm = (pos_lon observed - pos_lon dp) * METERS_PER_DEG_LAT
                    * cos (pos_lat dp * pi / 180) * 1000;
                  n = (if has_lat_lon_drift this then drift_samples this + 1 else 1)
              in this\<lparr>last_declared_pos := dp,
                   avg_lat_drift_mm := avg_lat_drift_mm this + (\<bar>lat_diff_mm\<bar> - avg_lat_drift_mm this) / real_of_int n,
                   avg_lon_drift_mm := avg_lon_drift_mm this + (\<bar>lon_diff_mm\<bar> - avg_lon_drift_mm this) / real_of_int n,
                   has_lat_lon_drift := True\<rparr>);
       let this =
         (if \<not> has_baseline_alt this then this\<lparr>baseline_alt := alt, has_baseline_alt := True\<rparr>
          else
            let alt_diff_mm = (alt - baseline_alt this) * 1000
            in this\<lparr>avg_alt_drift_mm := avg_alt_drift_mm this
                 + (\<bar>alt_diff_mm\<bar> - avg_alt_drift_mm this) / real_of_int (drift_samples this + 1)\<rparr>);
       Some (this\<lparr>drift_samples := drift_samples this + 1\<rparr>)
     }
   }"

text \<open>Whether a packet is a position packet; the checksum test may mark it.\<close>

definition rtcm_packet_is_pos :: "packet \<Rightarrow> (bool \<times> packet) option" where
  "rtcm_packet_is_pos p =
     (let len = datalen p in
      if rtcm_state p = PACKET_RAW \<or> len < 25 then Some (False, p)
      else do {
        type \<leftarrow> rtcm_get_type p;
        (ok, p') \<leftarrow> rtcm_crc_check p;
        Some (ok \<and> ((type = 1005 \<and> len = 25) \<or> (type = 1006 \<and> len = 27)), p')
      })"

text \<open>
  The work of the job that a position packet queues: \<open>declared\<close> is the position of the
  mountpoint's sourceline in the local tables, if there is one.
\<close>

definition rtcm_handler_pos ::
  "ecef_conv \<Rightarrow> timeval \<Rightarrow> pos_t option \<Rightarrow> rtcm_info \<Rightarrow> packet \<Rightarrow> rtcm_info option" where
  "rtcm_handler_pos ecef now declared rp p = do {
     type \<leftarrow> rtcm_get_type p;
     rp \<leftarrow> handle_1005_1006 now rp type p;
     rtcm_info_update_drift ecef rp declared
   }"

subsection \<open>The mountpoints of a filter\<close>

text \<open>A name as it appears in the list: not empty, no comma, no white space at its ends.\<close>

definition plain_name :: "cstring \<Rightarrow> bool" where
  "plain_name s \<longleftrightarrow> s \<noteq> [] \<and> CHR '','' \<notin> set s \<and> \<not> c_isspace (hd s) \<and> \<not> c_isspace (last s)"

fun join_comma :: "cstring list \<Rightarrow> cstring" where
  "join_comma [] = []"
| "join_comma [s] = s"
| "join_comma (s # t # r) = s @ '','' @ join_comma (t # r)"

lemma plain_name_scan:
  assumes "plain_name s" "r = [] \<or> hd r = CHR '',''"
  shows "dropWhile c_isspace (s @ r) = s @ r" "takeWhile (\<lambda>c. c \<noteq> CHR '','') (s @ r) = s"
    "dropWhile (\<lambda>c. c \<noteq> CHR '','') (s @ r) = r" "trim_end s = s"
proof -
  have c: "c \<noteq> CHR '',''" if "c \<in> set s" for c using assms that by (auto simp: plain_name_def)
  show "dropWhile c_isspace (s @ r) = s @ r" using assms by (cases s) (auto simp: plain_name_def)
  show "takeWhile (\<lambda>c. c \<noteq> CHR '','') (s @ r) = s" "dropWhile (\<lambda>c. c \<noteq> CHR '','') (s @ r) = r"
    using c assms(2) by (cases r; auto simp: takeWhile_append dropWhile_append)+
  show "trim_end s = s"
    using assms by (cases s rule: rev_cases) (auto simp: plain_name_def trim_end_def)
qed

lemma dict_parse_names:
  "hash_inv h \<Longrightarrow> ns \<noteq> [] \<Longrightarrow> \<forall>n \<in> set ns. plain_name n \<Longrightarrow>
   \<exists>h'. dict_parse_loop h (join_comma ns) = Some h' \<and> hash_inv h' \<and>
     dom (hash_table_get h') = dom (hash_table_get h) \<union> set ns"
proof (induction ns arbitrary: h)
  case (Cons n ns)
  let ?h = "snd (hash_table_add True h n ())"
  have inv: "hash_inv ?h" by (rule hash.add_invar[OF Cons.prems(1)])
  have d: "dom (hash_table_get ?h) = insert n (dom (hash_table_get h))"
    unfolding hash.add_lookup[OF Cons.prems(1), of n "()"] by auto
  have n: "plain_name n" "n \<noteq> []" using Cons.prems by (auto simp: plain_name_def)
  show ?case
  proof (cases ns)
    case Nil
    note sc = plain_name_scan[OF n(1), of "[]", unfolded append_Nil2]
    from n inv d Nil show ?thesis
      by (subst dict_parse_loop.simps) (simp add: Let_def sc)
  next
    case (Cons m ms)
    have rest: "join_comma ns \<noteq> []" using Cons Cons.prems by (cases ms) (auto simp: plain_name_def)
    note sc = plain_name_scan[OF n(1), of "CHR '','' # join_comma ns"]
    have "join_comma (n # ns) = n @ CHR '','' # join_comma ns" using Cons by simp
    then have "dict_parse_loop h (join_comma (n # ns)) = dict_parse_loop ?h (join_comma ns)"
      using n rest by (subst dict_parse_loop.simps) (simp add: Let_def sc)
    with Cons.IH[OF inv] Cons Cons.prems d show ?thesis by auto
  qed
qed simp

subsection \<open>Averages\<close>

definition lat_drift :: "pos_t \<Rightarrow> pos_t \<Rightarrow> real" where
  "lat_drift observed declared = \<bar>(pos_lat observed - pos_lat declared) * METERS_PER_DEG_LAT * 1000\<bar>"

definition lon_drift :: "pos_t \<Rightarrow> pos_t \<Rightarrow> real" where
  "lon_drift observed declared =
     \<bar>(pos_lon observed - pos_lon declared) * METERS_PER_DEG_LAT * cos (pos_lat declared * pi / 180) * 1000\<bar>"

text \<open>A sequence of observations of a source whose position is declared.\<close>

fun observe_all ::
  "ecef_conv \<Rightarrow> rtcm_info \<Rightarrow> ((64 word \<times> 64 word \<times> 64 word) \<times> pos_t) list \<Rightarrow> rtcm_info option" where
  "observe_all ecef this [] = Some this"
| "observe_all ecef this (((x, y, z), dp) # os) = do {
     this \<leftarrow> rtcm_info_update_drift ecef (this\<lparr>ecef_x := x, ecef_y := y, ecef_z := z\<rparr>) (Some dp);
     observe_all ecef this os
   }"

definition observed :: "ecef_conv \<Rightarrow> (64 word \<times> 64 word \<times> 64 word) \<times> pos_t \<Rightarrow> pos_t" where
  "observed ecef = (\<lambda>((x, y, z), dp). fst (ecef (sint x) (sint y) (sint z)))"

definition drift_means :: "real list \<Rightarrow> real list \<Rightarrow> rtcm_info \<Rightarrow> bool" where
  "drift_means lats lons this \<longleftrightarrow>
     drift_samples this = int (length lats) \<and> length lons = length lats \<and>
     has_lat_lon_drift this = (lats \<noteq> []) \<and>
     avg_lat_drift_mm this * real (length lats) = sum_list lats \<and>
     avg_lon_drift_mm this * real (length lats) = sum_list lons"

lemma mean_step: "a * real n = s \<Longrightarrow> (a + (x - a) / real (Suc n)) * real (Suc n) = s + x"
  by (simp add: field_simps)

lemma update_drift_means:
  assumes ty: "rtcm_typeset_check (typeset this) 1005 = Some a" "rtcm_typeset_check (typeset this) 1006 = Some b" "a \<or> b"
    and m: "drift_means lats lons this"
    and e: "ecef (sint (ecef_x this)) (sint (ecef_y this)) (sint (ecef_z this)) = (obs, alt)"
  shows "returns (rtcm_info_update_drift ecef this (Some dp)) (\<lambda>t. typeset t = typeset this \<and>
    drift_means (lats @ [lat_drift obs dp]) (lons @ [lon_drift obs dp]) t)"
proof -
  let ?n = "if has_lat_lon_drift this then drift_samples this + 1 else 1"
  have n: "real_of_int ?n = real (Suc (length lats))" using m by (auto simp: drift_means_def)
  have "(avg_lat_drift_mm this + (lat_drift obs dp - avg_lat_drift_mm this) / real_of_int ?n) * real (Suc (length lats))
      = sum_list lats + lat_drift obs dp"
    "(avg_lon_drift_mm this + (lon_drift obs dp - avg_lon_drift_mm this) / real_of_int ?n) * real (Suc (length lats))
      = sum_list lons + lon_drift obs dp"
    unfolding n using m by (intro mean_step, simp add: drift_means_def)+
  then show ?thesis using m ty e
    by (auto simp: rtcm_info_update_drift_def drift_means_def lat_drift_def lon_drift_def Let_def)
qed

lemma observe_all_means:
  "drift_means lats lons this \<Longrightarrow> rtcm_typeset_check (typeset this) 1005 = Some a \<Longrightarrow>
   rtcm_typeset_check (typeset this) 1006 = Some b \<Longrightarrow> a \<or> b \<Longrightarrow>
   returns (observe_all ecef this os)
     (drift_means (lats @ map (\<lambda>o'. lat_drift (observed ecef o') (snd o')) os)
        (lons @ map (\<lambda>o'. lon_drift (observed ecef o') (snd o')) os))"
proof (induction os arbitrary: this lats lons)
  case (Cons o' os)
  obtain x y z dp where o': "o' = ((x, y, z), dp)" by (metis surj_pair)
  obtain obs alt where e: "ecef (sint x) (sint y) (sint z) = (obs, alt)" by fastforce
  let ?t = "this\<lparr>ecef_x := x, ecef_y := y, ecef_z := z\<rparr>"
  have m: "drift_means lats lons ?t" using Cons.prems by (simp add: drift_means_def)
  show ?case
    unfolding o' observe_all.simps
  proof (rule returns_bind[OF update_drift_means[OF _ _ Cons.prems(4) m]])
    fix t assume t: "typeset t = typeset ?t \<and> drift_means (lats @ [lat_drift obs dp]) (lons @ [lon_drift obs dp]) t"
    show "returns (observe_all ecef t os)
     (drift_means (lats @ map (\<lambda>o'. lat_drift (observed ecef o') (snd o')) (((x, y, z), dp) # os))
        (lons @ map (\<lambda>o'. lon_drift (observed ecef o') (snd o')) (((x, y, z), dp) # os)))"
      using Cons.IH[of "lats @ [lat_drift obs dp]" "lons @ [lon_drift obs dp]" t] t Cons.prems e
      by (simp add: observed_def)
  qed (use Cons.prems e in simp_all)
qed simp

subsection \<open>Properties\<close>

text \<open>
  The list of mountpoints a filter applies to, written as names separated by commas, is
  parsed into a table that answers exactly for those names; repeated names are ignored.
\<close>

lemma rtcm_filter_dict_correct:
  assumes "ns \<noteq> []" "\<forall>n \<in> set ns. plain_name n"
  shows "\<exists>h. rtcm_filter_dict_parse (join_comma ns) = Some h \<and>
    (\<forall>m. rtcm_filter_check_mountpoint h m \<longleftrightarrow> m \<in> set ns)"
proof -
  obtain h0 :: "unit hash_table" where h0: "hash_table_new True 5 = Some h0" by (simp add: hash_table_new_def)
  from hash_table_new_correct[OF this] have i: "hash_inv h0" "hash_table_get h0 = Map.empty" by simp_all
  from dict_parse_names[OF i(1) assms] i(2) obtain h where
    h: "dict_parse_loop h0 (join_comma ns) = Some h" "dom (hash_table_get h) = set ns" by auto
  have "rtcm_filter_check_mountpoint h m \<longleftrightarrow> m \<in> dom (hash_table_get h)" for m
    by (auto simp: rtcm_filter_check_mountpoint_def hash_table_get_def dom_def split: option.split)
  with h h0 show ?thesis by (simp add: rtcm_filter_dict_parse_def)
qed

lemma rtcm_filter_dict_correct_witness:
  "\<exists>h. rtcm_filter_dict_parse (join_comma [''ABCD'', ''EF 1'', ''ABCD'']) = Some h \<and>
    (\<forall>m. rtcm_filter_check_mountpoint h m \<longleftrightarrow> m \<in> set [''ABCD'', ''EF 1'', ''ABCD''])"
  by (rule rtcm_filter_dict_correct) (simp_all add: plain_name_def c_isspace_def)

text \<open>
  for a source with a declared position, the latitude and longitude drifts that are kept
  after any sequence of observations are the arithmetic means of the absolute differences between
  observed and declared positions, over all the observations.
\<close>

lemma drift_is_mean:
  assumes "rtcm_typeset_check ts 1005 = Some True" "rtcm_typeset_check ts 1006 = Some b" "os \<noteq> []"
  shows "\<exists>t. observe_all ecef ((rtcm_info_new x y z d)\<lparr>typeset := ts\<rparr>) os = Some t \<and>
    drift_samples t = int (length os) \<and>
    avg_lat_drift_mm t = (\<Sum>o' \<leftarrow> os. lat_drift (observed ecef o') (snd o')) / real (length os) \<and>
    avg_lon_drift_mm t = (\<Sum>o' \<leftarrow> os. lon_drift (observed ecef o') (snd o')) / real (length os)"
proof -
  let ?i = "(rtcm_info_new x y z d)\<lparr>typeset := ts\<rparr>"
  have "drift_means [] [] ?i" by (simp add: drift_means_def rtcm_info_new_def)
  from observe_all_means[OF this, of True b ecef os] assms
  obtain t where "observe_all ecef ?i os = Some t"
    "drift_means (map (\<lambda>o'. lat_drift (observed ecef o') (snd o')) os) (map (\<lambda>o'. lon_drift (observed ecef o') (snd o')) os) t"
    by (auto elim!: returnsE)
  then show ?thesis using assms(3) by (auto simp: drift_means_def field_simps)
qed

definition ecef_example :: ecef_conv where
  "ecef_example = (\<lambda>x y z. (\<lparr>pos_lat = real_of_int x, pos_lon = real_of_int y\<rparr>, real_of_int z))"

definition observations_example :: "((64 word \<times> 64 word \<times> 64 word) \<times> pos_t) list" where
  "observations_example = [((1, 2, 3), \<lparr>pos_lat = 0, pos_lon = 0\<rparr>), ((4, 2, 3), \<lparr>pos_lat = 1, pos_lon = 0\<rparr>)]"

end
