(* ===== verification/Livesource.thy ===== *)
theory Livesource
  imports Rtcm_Info
begin

text \<open>
  Live sources and their subscribers (\<^verbatim>\<open>caster/livesource.c\<close>). A live source has a queue of
  subscribers; a client session points to its subscription. Sources and sessions are in stores
  indexed by numbers, so that the two directions of a subscription are explicit.

  An operation runs under the locks that the code takes and is one step; an assertion that fails is
  \<^const>\<open>None\<close>. Where the code of an operation has two locked sections, the model has one step: \<open>livesource_add_subscriber\<close> sets the
  subscription under the lock of the session and links it under that of the source, and an
  operation of another thread between the two is not modelled. Of a session the model keeps what these operations use: whether it has ended, its
  subscription, the amount of data in its output buffer, its packet filter, the packets it was
  sent and the jobs queued to look for another source.
\<close>

subsection \<open>Sources, subscribers, sessions\<close>

datatype livesource_state = LIVESOURCE_INIT | LIVESOURCE_FETCH_PENDING | LIVESOURCE_RUNNING
datatype livesource_type = LIVESOURCE_TYPE_DIRECT | LIVESOURCE_TYPE_FETCHED

record subscriber =
  sub_client :: nat
  backlog_len :: nat
  sub_virtual :: int

record livesource =
  ls_mountpoint :: cstring
  subscribers :: "subscriber list"
  nsubs :: int
  npackets :: int
  ls_state :: livesource_state
  ls_type :: livesource_type
  ls_refcnt :: int

datatype rtcm_client_state = NTRIP_RTCM_POS_WAIT | NTRIP_RTCM_POS_OK

record client =
  cl_ended :: bool
  subscription :: "nat option"
  output_len :: nat
  client_state :: rtcm_client_state
  use_rtcm_filter :: bool
  cl_filter :: rtcm_filter
  cl_sent :: "packet list"
  redo_jobs :: nat

record live_world =
  sources :: "nat \<Rightarrow> livesource"
  clients :: "nat \<Rightarrow> client"

definition livesource_new :: "cstring \<Rightarrow> livesource_type \<Rightarrow> livesource_state \<Rightarrow> livesource" where
  "livesource_new mountpoint type state = \<lparr>ls_mountpoint = mountpoint, subscribers = [], nsubs = 0, npackets = 0,
     ls_state = state, ls_type = type, ls_refcnt = refcnt_init\<rparr>"

definition set_source :: "nat \<Rightarrow> livesource \<Rightarrow> live_world \<Rightarrow> live_world" where
  "set_source i l w = w\<lparr>sources := (sources w)(i := l)\<rparr>"

definition set_client :: "nat \<Rightarrow> client \<Rightarrow> live_world \<Rightarrow> live_world" where
  "set_client c x w = w\<lparr>clients := (clients w)(c := x)\<rparr>"

subsection \<open>Subscribing and unsubscribing\<close>

definition livesource_add_subscriber :: "live_world \<Rightarrow> nat \<Rightarrow> nat \<Rightarrow> int \<Rightarrow> live_world option" where
  "livesource_add_subscriber w c i virt =
     (let x = clients w c; this = sources w i in
      if cl_ended x then Some w
      else if subscription x \<noteq> None then None
      else do {
        n \<leftarrow> refcnt_incref (ls_refcnt this);
        let this = this\<lparr>subscribers := subscribers this @ [\<lparr>sub_client = c, backlog_len = 0, sub_virtual = virt\<rparr>],
                        nsubs := nsubs this + 1, ls_refcnt := n\<rparr>;
        Some (set_source i this (set_client c (x\<lparr>subscription := Some i\<rparr>) w))
      })"

text \<open>\<open>TAILQ_REMOVE\<close> unlinks the subscriber; it is not there if the links are inconsistent.\<close>

definition del_subscriber_unlocked :: "live_world \<Rightarrow> nat \<Rightarrow> live_world option" where
  "del_subscriber_unlocked w c =
     (case subscription (clients w c) of
        None \<Rightarrow> Some w
      | Some i \<Rightarrow>
          let l = sources w i in
          if c \<notin> sub_client ` set (subscribers l) then None
          else do {
            (n, freed) \<leftarrow> refcnt_decref (ls_refcnt l);
            Some (set_client c ((clients w c)\<lparr>subscription := None\<rparr>)
              (set_source i (l\<lparr>subscribers := filter (\<lambda>s. sub_client s \<noteq> c) (subscribers l), nsubs := nsubs l - 1, ls_refcnt := n\<rparr>) w))
          })"

definition livesource_del_subscriber :: "live_world \<Rightarrow> nat \<Rightarrow> live_world option" where
  "livesource_del_subscriber w c = del_subscriber_unlocked w c"

text \<open>\<open>ntrip_decref_end\<close> for a session that owns no live source: its output is discarded.\<close>

definition end_client :: "client \<Rightarrow> client" where
  "end_client x = (if cl_ended x then x else x\<lparr>cl_ended := True, output_len := 0\<rparr>)"

text \<open>The body of the loop of \<open>livesource_kill_subscribers_unlocked\<close> for one subscriber.\<close>

definition kill_subscriber :: "bool \<Rightarrow> nat \<Rightarrow> subscriber \<Rightarrow> int \<times> live_world \<Rightarrow> (int \<times> live_world) option" where
  "kill_subscriber kill_backlogged backlog_evbuffer np = (\<lambda>(killed, w).
     let c = sub_client np;
         virt = (sub_virtual np \<noteq> 0);
         backlogged = (backlog_len np > backlog_evbuffer);
         killed = (if (if kill_backlogged then backlogged else \<not> virt) then killed + 1 else killed);
         w = (if \<not> kill_backlogged \<and> virt
              then set_client c ((clients w c)\<lparr>redo_jobs := redo_jobs (clients w c) + 1\<rparr>) w else w)
     in if \<not> kill_backlogged \<or> backlogged then do {
          w \<leftarrow> del_subscriber_unlocked w c;
          Some (killed, if \<not> backlogged \<and> \<not> virt then set_client c (end_client (clients w c)) w else w)
        }
        else Some (killed, w))"

fun kill_loop :: "bool \<Rightarrow> nat \<Rightarrow> subscriber list \<Rightarrow> int \<times> live_world \<Rightarrow> (int \<times> live_world) option" where
  "kill_loop kb blim [] s = Some s"
| "kill_loop kb blim (np # nps) s = do { s \<leftarrow> kill_subscriber kb blim np s; kill_loop kb blim nps s }"

definition kill_subscribers_unlocked :: "live_world \<Rightarrow> nat \<Rightarrow> bool \<Rightarrow> nat \<Rightarrow> (int \<times> live_world) option" where
  "kill_subscribers_unlocked w i kill_backlogged backlog_evbuffer =
     kill_loop kill_backlogged backlog_evbuffer (subscribers (sources w i)) (0, w)"

definition livesource_end :: "live_world \<Rightarrow> nat \<Rightarrow> live_world option" where
  "livesource_end w i = do {
     (_, w) \<leftarrow> kill_subscribers_unlocked w i False 0;
     if nsubs (sources w i) = 0 then Some w else None
   }"

subsection \<open>Sending a packet\<close>

text \<open>The packet is appended to the output buffer of the session.\<close>

definition packet_send :: "packet \<Rightarrow> client \<Rightarrow> client" where
  "packet_send p x = x\<lparr>cl_sent := cl_sent x @ [p], output_len := output_len x + datalen p\<rparr>"

record send_state =
  ss_clients :: "nat \<Rightarrow> client"
  ss_packet :: packet
  ss_pconv :: "packet option"
  ss_backlogged :: int
  ss_n :: int

text \<open>
  The packet that a session gets: the packet itself, or, if the session uses a filter that does not
  pass it, the converted packet, which is computed once and kept.
\<close>

definition choose_packet :: "(nat \<Rightarrow> byte) \<Rightarrow> client \<Rightarrow> send_state \<Rightarrow> (packet option \<times> send_state) option" where
  "choose_packet junk x s =
     (if use_rtcm_filter x then do {
        pass \<leftarrow> rtcm_filter_pass (cl_filter x) (ss_packet s);
        if pass then Some (Some (ss_packet s), s)
        else if ss_pconv s \<noteq> None then Some (ss_pconv s, s)
        else do {
          (pconv, packet) \<leftarrow> rtcm_filter_convert junk (Some (cl_filter x)) (ss_packet s);
          Some (pconv, s\<lparr>ss_pconv := pconv, ss_packet := packet\<rparr>)
        }
      }
      else Some (Some (ss_packet s), s))"

definition send_one ::
  "(nat \<Rightarrow> byte) \<Rightarrow> nat \<Rightarrow> bool \<Rightarrow> subscriber \<Rightarrow> send_state \<Rightarrow> (subscriber \<times> send_state) option" where
  "send_one junk backlog_evbuffer is_pos np s =
     (let c = sub_client np; x = ss_clients s c; s = s\<lparr>ss_n := ss_n s + 1\<rparr> in
      if cl_ended x then Some (np, s)
      else
        let np = np\<lparr>backlog_len := output_len x\<rparr> in
        if output_len x > backlog_evbuffer then Some (np, s\<lparr>ss_backlogged := ss_backlogged s + 1\<rparr>)
        else if client_state x = NTRIP_RTCM_POS_WAIT \<and> \<not> is_pos then Some (np, s)
        else do {
          let x = x\<lparr>client_state := NTRIP_RTCM_POS_OK\<rparr>;
          (p, s) \<leftarrow> choose_packet junk x s;
          Some (np, s\<lparr>ss_clients := (ss_clients s)(c := (case p of Some p \<Rightarrow> packet_send p x | None \<Rightarrow> x))\<rparr>)
        })"

fun send_loop ::
  "(nat \<Rightarrow> byte) \<Rightarrow> nat \<Rightarrow> bool \<Rightarrow> subscriber list \<Rightarrow> send_state \<Rightarrow> (subscriber list \<times> send_state) option" where
  "send_loop junk blim is_pos [] s = Some ([], s)"
| "send_loop junk blim is_pos (np # nps) s = do {
     (np, s) \<leftarrow> send_one junk blim is_pos np s;
     (nps, s) \<leftarrow> send_loop junk blim is_pos nps s;
     Some (np # nps, s)
   }"

definition livesource_send_subscribers ::
  "(nat \<Rightarrow> byte) \<Rightarrow> nat \<Rightarrow> live_world \<Rightarrow> nat \<Rightarrow> packet \<Rightarrow> (int \<times> live_world) option" where
  "livesource_send_subscribers junk backlog_evbuffer w i packet = do {
     (is_pos, packet) \<leftarrow> rtcm_packet_is_pos packet;
     let this = (sources w i)\<lparr>npackets := npackets (sources w i) + 1\<rparr>;
     (subs, s) \<leftarrow> send_loop junk backlog_evbuffer is_pos (subscribers this)
       \<lparr>ss_clients = clients w, ss_packet = packet, ss_pconv = None, ss_backlogged = 0, ss_n = 0\<rparr>;
     if ss_n s \<noteq> nsubs this \<or> pkt_refcnt (ss_packet s) \<le> 0 then None
     else do {
       let w = (set_source i (this\<lparr>subscribers := subs\<rparr>) w)\<lparr>clients := ss_clients s\<rparr>;
       w \<leftarrow> (if ss_backlogged s \<noteq> 0
             then map_option snd (kill_subscribers_unlocked w i True backlog_evbuffer) else Some w);
       Some (ss_n s, w)
     }
   }"

subsection \<open>The two directions of a subscription agree\<close>

text \<open>
  \<open>ext i\<close> is the number of references to source \<open>i\<close> that are not those of its subscribers: the
  table of sources and the session that owns it.
\<close>

definition source_ok :: "int \<Rightarrow> livesource \<Rightarrow> bool" where
  "source_ok e l \<longleftrightarrow> nsubs l = int (length (subscribers l)) \<and> ls_refcnt l = e + nsubs l \<and>
     distinct (map sub_client (subscribers l))"

definition live_inv :: "(nat \<Rightarrow> int) \<Rightarrow> live_world \<Rightarrow> bool" where
  "live_inv ext w \<longleftrightarrow> (\<forall>i. 1 \<le> ext i \<and> source_ok (ext i) (sources w i)) \<and>
     (\<forall>i c. c \<in> sub_client ` set (subscribers (sources w i)) \<longleftrightarrow> subscription (clients w c) = Some i)"

lemma world_simps [simp]:
  "sources (set_source i l w) = (sources w)(i := l)" "clients (set_source i l w) = clients w"
  "sources (set_client c x w) = sources w" "clients (set_client c x w) = (clients w)(c := x)"
  by (simp_all add: set_source_def set_client_def)

lemma live_inv_source: "live_inv ext w \<Longrightarrow> source_ok (ext i) (sources w i) \<and> 1 \<le> ext i"
  by (simp add: live_inv_def)

lemma live_inv_sub: "live_inv ext w \<Longrightarrow> c \<in> sub_client ` set (subscribers (sources w i)) \<longleftrightarrow> subscription (clients w c) = Some i"
  unfolding live_inv_def by blast

text \<open>A change of a session that keeps its subscription.\<close>

lemma live_inv_client:
  "live_inv ext w \<Longrightarrow> subscription x = subscription (clients w c) \<Longrightarrow> live_inv ext (set_client c x w)"
  by (simp add: live_inv_def)

lemma add_subscriber_ok:
  assumes inv: "live_inv ext w" and g: "cl_ended (clients w c) \<or> subscription (clients w c) = None"
  shows "\<exists>w'. livesource_add_subscriber w c i v = Some w' \<and> live_inv ext w' \<and>
    (\<not> cl_ended (clients w c) \<longrightarrow> subscription (clients w' c) = Some i)"
proof (cases "cl_ended (clients w c)")
  case True
  with inv show ?thesis by (simp add: livesource_add_subscriber_def)
next
  case False
  let ?l = "sources w i"
  have ok: "source_ok (ext i) ?l" "1 \<le> ext i" using live_inv_source[OF inv] by auto
  have none: "subscription (clients w c) = None" using g False by simp
  have notin: "c \<notin> sub_client ` set (subscribers (sources w k))" for k using live_inv_sub[OF inv, of c k] none by simp
  have r: "refcnt_incref (ls_refcnt ?l) = Some (ls_refcnt ?l + 1)" using ok by (simp add: refcnt_incref_def source_ok_def)
  let ?l' = "?l\<lparr>subscribers := subscribers ?l @ [\<lparr>sub_client = c, backlog_len = 0, sub_virtual = v\<rparr>], nsubs := nsubs ?l + 1, ls_refcnt := ls_refcnt ?l + 1\<rparr>"
  have "source_ok (ext i) ?l'" using ok notin[of i] by (auto simp: source_ok_def)
  then have "live_inv ext (set_source i ?l' (set_client c ((clients w c)\<lparr>subscription := Some i\<rparr>) w))"
    using inv notin by (auto simp: live_inv_def)
  with False none r show ?thesis by (simp add: livesource_add_subscriber_def Let_def)
qed

lemma filter_other_subs: "c \<notin> sub_client ` set xs \<Longrightarrow> filter (\<lambda>s. sub_client s \<noteq> c) xs = xs"
  by (auto simp: filter_id_conv)

lemma length_filter_sub:
  "distinct (map sub_client xs) \<Longrightarrow> c \<in> sub_client ` set xs \<Longrightarrow> length xs = Suc (length (filter (\<lambda>s. sub_client s \<noteq> c) xs))"
proof (induction xs)
  case (Cons x xs)
  then show ?case by (cases "sub_client x = c") (auto simp: filter_other_subs)
qed simp

lemma del_subscriber_ok:
  assumes inv: "live_inv ext w"
  shows "\<exists>w'. del_subscriber_unlocked w c = Some w' \<and> live_inv ext w' \<and>
    clients w' = (clients w)(c := (clients w c)\<lparr>subscription := None\<rparr>) \<and>
    (\<forall>i. subscribers (sources w' i) = filter (\<lambda>s. sub_client s \<noteq> c) (subscribers (sources w i)))"
proof (cases "subscription (clients w c)")
  case None
  then have "c \<notin> sub_client ` set (subscribers (sources w i))" for i using live_inv_sub[OF inv, of c i] by simp
  moreover have "(clients w)(c := (clients w c)\<lparr>subscription := None\<rparr>) = clients w" using None by (auto simp: fun_eq_iff)
  ultimately show ?thesis using None inv by (simp add: del_subscriber_unlocked_def filter_other_subs)
next
  case (Some i)
  let ?l = "sources w i"
  have c: "c \<in> sub_client ` set (subscribers ?l)" using live_inv_sub[OF inv, of c i] Some by simp
  have ok: "source_ok (ext i) ?l" "1 \<le> ext i" using live_inv_source[OF inv] by auto
  have d: "refcnt_decref (ls_refcnt ?l) = Some (ls_refcnt ?l - 1, ls_refcnt ?l = 1)"
    using ok by (simp add: refcnt_decref_def source_ok_def)
  let ?l' = "?l\<lparr>subscribers := filter (\<lambda>s. sub_client s \<noteq> c) (subscribers ?l), nsubs := nsubs ?l - 1, ls_refcnt := ls_refcnt ?l - 1\<rparr>"
  let ?w = "set_client c ((clients w c)\<lparr>subscription := None\<rparr>) (set_source i ?l' w)"
  have r: "del_subscriber_unlocked w c = Some ?w" using Some c d by (simp add: del_subscriber_unlocked_def Let_def)
  have "source_ok (ext i) ?l'" using ok length_filter_sub[OF _ c] by (auto simp: source_ok_def distinct_map_filter)
  moreover have other: "c \<notin> sub_client ` set (subscribers (sources w k))" if "k \<noteq> i" for k
    using live_inv_sub[OF inv, of c k] Some that by simp
  moreover have "c' \<in> sub_client ` set (subscribers (sources ?w k)) \<longleftrightarrow> subscription (clients ?w c') = Some k" for k c'
    using live_inv_sub[OF inv, of c' k] other[of k] by (cases "k = i") auto
  ultimately have "live_inv ext ?w"
    using live_inv_source[OF inv] unfolding live_inv_def by simp
  with r other show ?thesis by (auto simp: filter_other_subs)
qed

text \<open>
  The subscribers that the loop drops, and what it does to the session of a subscriber: it loses its
  subscription; the connection is closed unless the source is virtual or there was a backlog.
\<close>

abbreviation dropped :: "bool \<Rightarrow> nat \<Rightarrow> subscriber list \<Rightarrow> nat set" where
  "dropped kb blim nps \<equiv> sub_client ` {np \<in> set nps. \<not> kb \<or> backlog_len np > blim}"

definition kill_client :: "bool \<Rightarrow> nat \<Rightarrow> subscriber \<Rightarrow> client \<Rightarrow> client" where
  "kill_client kb blim np x =
     (let x = (if \<not> kb \<and> sub_virtual np \<noteq> 0 then x\<lparr>redo_jobs := redo_jobs x + 1\<rparr> else x)
      in if \<not> kb \<or> backlog_len np > blim then
           let x = x\<lparr>subscription := None\<rparr>
           in if \<not> backlog_len np > blim \<and> sub_virtual np = 0 then end_client x else x
         else x)"

lemma kill_subscriber_ok:
  assumes inv: "live_inv ext w"
  shows "\<exists>k' w'. kill_subscriber kb blim np (k, w) = Some (k', w') \<and> live_inv ext w' \<and>
    clients w' = (clients w)(sub_client np := kill_client kb blim np (clients w (sub_client np))) \<and>
    (\<forall>i. subscribers (sources w' i) = filter (\<lambda>s. sub_client s \<notin> dropped kb blim [np]) (subscribers (sources w i)))"
proof -
  let ?c = "sub_client np"
  define w0 where "w0 = (if \<not> kb \<and> sub_virtual np \<noteq> 0
     then set_client ?c ((clients w ?c)\<lparr>redo_jobs := redo_jobs (clients w ?c) + 1\<rparr>) w else w)"
  define k0 where "k0 = (if (if kb then backlog_len np > blim else sub_virtual np = 0) then k + 1 else k)"
  have w0: "live_inv ext w0" "sources w0 = sources w"
    "clients w0 = (clients w)(?c := (if \<not> kb \<and> sub_virtual np \<noteq> 0 then (clients w ?c)\<lparr>redo_jobs := redo_jobs (clients w ?c) + 1\<rparr> else clients w ?c))"
    using inv live_inv_client[OF inv] by (auto simp: w0_def)
  show ?thesis
  proof (cases "\<not> kb \<or> backlog_len np > blim")
    case False
    then have "kill_subscriber kb blim np (k, w) = Some (k0, w0)"
      unfolding kill_subscriber_def Let_def prod.case w0_def k0_def by simp
    moreover have e: "dropped kb blim [np] = {}" using False by auto
    ultimately show ?thesis unfolding e using False w0 by (simp add: kill_client_def Let_def)
  next
    case True
    from del_subscriber_ok[OF w0(1), of ?c] obtain w1 where
      w1: "del_subscriber_unlocked w0 ?c = Some w1" "live_inv ext w1"
        "clients w1 = (clients w0)(?c := (clients w0 ?c)\<lparr>subscription := None\<rparr>)"
        "\<forall>i. subscribers (sources w1 i) = filter (\<lambda>s. sub_client s \<noteq> ?c) (subscribers (sources w0 i))" by blast
    let ?w2 = "if \<not> backlog_len np > blim \<and> sub_virtual np = 0 then set_client ?c (end_client (clients w1 ?c)) w1 else w1"
    have "kill_subscriber kb blim np (k, w) = Some (k0, ?w2)"
      using True w1(1) unfolding kill_subscriber_def Let_def prod.case w0_def[symmetric] k0_def by simp
    moreover have "live_inv ext ?w2" using w1(2) live_inv_client[OF w1(2)] by (simp add: end_client_def)
    moreover have "clients ?w2 = (clients w)(?c := kill_client kb blim np (clients w ?c))"
      using True w1(3) w0(3) by (auto simp: kill_client_def Let_def fun_eq_iff)
    moreover have e: "dropped kb blim [np] = {?c}" using True by auto
    ultimately show ?thesis unfolding e using w1(4) w0(2) by auto
  qed
qed

lemma kill_loop_ok:
  assumes "live_inv ext w" "distinct (map sub_client nps)"
  shows "\<exists>k' w'. kill_loop kb blim nps (k, w) = Some (k', w') \<and> live_inv ext w' \<and>
    (\<forall>np \<in> set nps. clients w' (sub_client np) = kill_client kb blim np (clients w (sub_client np))) \<and>
    (\<forall>c. c \<notin> sub_client ` set nps \<longrightarrow> clients w' c = clients w c) \<and>
    (\<forall>i. subscribers (sources w' i) = filter (\<lambda>s. sub_client s \<notin> dropped kb blim nps) (subscribers (sources w i)))"
  using assms
proof (induction nps arbitrary: w k)
  case (Cons np nps)
  from kill_subscriber_ok[OF Cons.prems(1), of kb blim np k] obtain k1 w1 where
    w1: "kill_subscriber kb blim np (k, w) = Some (k1, w1)" "live_inv ext w1"
      "clients w1 = (clients w)(sub_client np := kill_client kb blim np (clients w (sub_client np)))"
      "\<forall>i. subscribers (sources w1 i) = filter (\<lambda>s. sub_client s \<notin> dropped kb blim [np]) (subscribers (sources w i))" by blast
  have d: "distinct (map sub_client nps)" "sub_client np \<notin> sub_client ` set nps" using Cons.prems(2) by auto
  from Cons.IH[OF w1(2) d(1), of k1] obtain k2 w2 where
    w2: "kill_loop kb blim nps (k1, w1) = Some (k2, w2)" "live_inv ext w2"
      "\<forall>np \<in> set nps. clients w2 (sub_client np) = kill_client kb blim np (clients w1 (sub_client np))"
      "\<forall>c. c \<notin> sub_client ` set nps \<longrightarrow> clients w2 c = clients w1 c"
      "\<forall>i. subscribers (sources w2 i) = filter (\<lambda>s. sub_client s \<notin> dropped kb blim nps) (subscribers (sources w1 i))" by blast
  have "subscribers (sources w2 i) = filter (\<lambda>s. sub_client s \<notin> dropped kb blim (np # nps)) (subscribers (sources w i))" for i
    unfolding w2(5)[rule_format] w1(4)[rule_format] filter_filter by (rule filter_cong[OF refl]) auto
  moreover have "clients w2 (sub_client m) = kill_client kb blim m (clients w (sub_client m))" if "m \<in> set (np # nps)" for m
  proof (cases "m = np")
    case True
    with w2(4)[rule_format, OF d(2)] w1(3) show ?thesis by simp
  next
    case False
    then have m: "m \<in> set nps" using that by simp
    then have "sub_client m \<noteq> sub_client np" using d(2) by (metis imageI)
    with w2(3)[rule_format, OF m] w1(3) show ?thesis by simp
  qed
  moreover have "clients w2 c = clients w c" if "c \<notin> sub_client ` set (np # nps)" for c
    using that w2(4) w1(3) by simp
  moreover have "kill_loop kb blim (np # nps) (k, w) = Some (k2, w2)" using w1(1) w2(1) by simp
  ultimately show ?case using w2(2) by blast
qed simp

lemma livesource_end_ok:
  assumes inv: "live_inv ext w"
  shows "\<exists>w'. livesource_end w i = Some w' \<and> live_inv ext w' \<and> subscribers (sources w' i) = [] \<and>
    (\<forall>c. subscription (clients w c) = Some i \<longrightarrow> subscription (clients w' c) = None) \<and>
    (\<forall>c. subscription (clients w c) \<noteq> Some i \<longrightarrow> clients w' c = clients w c)"
proof -
  let ?nps = "subscribers (sources w i)"
  have d: "distinct (map sub_client ?nps)" using live_inv_source[OF inv] by (simp add: source_ok_def)
  from kill_loop_ok[OF inv d, of False 0 0] obtain k' w' where
    w': "kill_loop False 0 ?nps (0, w) = Some (k', w')" "live_inv ext w'"
      "\<forall>np \<in> set ?nps. clients w' (sub_client np) = kill_client False 0 np (clients w (sub_client np))"
      "\<forall>c. c \<notin> sub_client ` set ?nps \<longrightarrow> clients w' c = clients w c"
      "\<forall>i'. subscribers (sources w' i') = filter (\<lambda>s. sub_client s \<notin> dropped False 0 ?nps) (subscribers (sources w i'))" by blast
  have e: "subscribers (sources w' i) = []" using w'(5) by (auto simp: filter_empty_conv)
  then have "nsubs (sources w' i) = 0" using live_inv_source[OF w'(2), of i] by (simp add: source_ok_def)
  moreover have "subscription (kill_client False 0 np x) = None" for np x
    by (simp add: kill_client_def Let_def end_client_def)
  then have "subscription (clients w' c) = None" if "subscription (clients w c) = Some i" for c
    using live_inv_sub[OF inv, of c i] that w'(3) by auto
  ultimately show ?thesis using w' e live_inv_sub[OF inv]
    by (auto simp: livesource_end_def kill_subscribers_unlocked_def)
qed

subsection \<open>What a packet does to the subscribers\<close>

text \<open>
  A packet as the reception of frames makes it: it holds a reference, and a packet that is not raw
  is a frame with its header and its checksum. The types of a filter are sets as the code builds
  them.
\<close>

definition packet_ok :: "packet \<Rightarrow> bool" where
  "packet_ok p \<longleftrightarrow> pkt_refcnt p > 0 \<and> (rtcm_state p = PACKET_RAW \<or> 6 \<le> datalen p)"

definition filter_ok :: "rtcm_filter \<Rightarrow> bool" where
  "filter_ok f \<longleftrightarrow> typeset_wf (filter_pass f) \<and> typeset_wf (filter_convert f)"

text \<open>A session gets a packet if it is open, has no backlog and knows the position of the source.\<close>

definition receives :: "nat \<Rightarrow> bool \<Rightarrow> client \<Rightarrow> bool" where
  "receives blim is_pos x \<longleftrightarrow> \<not> cl_ended x \<and> output_len x \<le> blim \<and> (client_state x = NTRIP_RTCM_POS_OK \<or> is_pos)"

text \<open>A packet with the position of the source: a message 1005 or 1006 of the right length and checksum.\<close>

definition has_pos :: "packet \<Rightarrow> bool" where
  "has_pos p \<longleftrightarrow> map_option fst (rtcm_packet_is_pos p) = Some True"

text \<open>
  What such a session is to be sent: the packet, if it uses no filter or if its filter passes it;
  otherwise the packet that its filter makes of it, if there is one.
\<close>

definition converted :: "(nat \<Rightarrow> byte) \<Rightarrow> rtcm_filter \<Rightarrow> packet \<Rightarrow> packet option" where
  "converted junk f p = Option.bind (rtcm_filter_convert junk (Some f) p) fst"

definition content_for :: "(nat \<Rightarrow> byte) \<Rightarrow> client \<Rightarrow> packet \<Rightarrow> byte list list" where
  "content_for junk x p =
     (if \<not> use_rtcm_filter x \<or> rtcm_filter_pass (cl_filter x) p = Some True then [pkt_data p]
      else case converted junk (cl_filter x) p of Some q \<Rightarrow> [pkt_data q] | None \<Rightarrow> [])"

definition same_session :: "client \<Rightarrow> client \<Rightarrow> bool" where
  "same_session x y \<longleftrightarrow> cl_ended x = cl_ended y \<and> subscription x = subscription y \<and> use_rtcm_filter x = use_rtcm_filter y \<and>
     cl_filter x = cl_filter y \<and> redo_jobs x = redo_jobs y"

definition delivered :: "byte list list \<Rightarrow> client \<Rightarrow> client \<Rightarrow> bool" where
  "delivered ds x y \<longleftrightarrow> (\<exists>ps. cl_sent y = cl_sent x @ ps \<and> map pkt_data ps = ds)"

text \<open>The checksum test may mark a packet that is not raw; nothing that is sent depends on the mark.\<close>

definition crc_marked :: "packet \<Rightarrow> packet \<Rightarrow> bool" where
  "crc_marked p p' \<longleftrightarrow> p' = p \<or> rtcm_state p \<noteq> PACKET_RAW \<and> rtcm_crc_check p = Some (True, p')"

lemma crc_check_cases:
  "rtcm_crc_check p = Some (True, p\<lparr>rtcm_state := PACKET_RTCM_CHECKED\<rparr>) \<or> rtcm_crc_check p = Some (False, p)"
proof (cases "rtcm_state p = PACKET_RTCM_CHECKED")
  case True
  then have "p\<lparr>rtcm_state := PACKET_RTCM_CHECKED\<rparr> = p" by (cases p) simp
  with True show ?thesis by (simp add: rtcm_crc_check_def)
qed (simp add: rtcm_crc_check_unchecked)

lemma crc_marked_refl [simp]: "crc_marked p p"
  by (simp add: crc_marked_def)

lemma crc_marked_cases:
  assumes "crc_marked p p'"
  obtains "p' = p" | "rtcm_state p \<noteq> PACKET_RAW" "p' = p\<lparr>rtcm_state := PACKET_RTCM_CHECKED\<rparr>" "rtcm_crc_check p = Some (True, p')"
  using assms crc_check_cases[of p] unfolding crc_marked_def by auto

lemma crc_marked_keeps:
  assumes "crc_marked p p'"
  shows "pkt_data p' = pkt_data p" "pkt_refcnt p' = pkt_refcnt p" "rtcm_state p' = PACKET_RAW \<longleftrightarrow> rtcm_state p = PACKET_RAW"
    "rtcm_crc_check p' = rtcm_crc_check p" "rtcm_get_type p' = rtcm_get_type p"
  using assms by (cases rule: crc_marked_cases; simp add: rtcm_crc_check_def rtcm_get_type_def)+

lemma crc_check_marks:
  assumes "crc_marked p p'" "rtcm_state p \<noteq> PACKET_RAW" "rtcm_crc_check p = Some (b, q)"
  shows "crc_marked p q" "crc_marked p' q"
  using assms crc_check_cases[of p] by (auto simp: crc_marked_def rtcm_crc_check_def)

lemma filter_pass_marked:
  assumes "crc_marked p p'"
  shows "rtcm_filter_pass f p' = rtcm_filter_pass f p"
  by (simp add: rtcm_filter_pass_def crc_marked_keeps[OF assms])

lemma filter_pass_total:
  assumes "packet_ok p" "filter_ok f"
  shows "\<exists>b. rtcm_filter_pass f p = Some b"
proof (cases "rtcm_state p = PACKET_RAW")
  case False
  with assms(1) have "rtcm_get_type p \<noteq> None" using get_type_slice by (simp add: packet_ok_def)
  then show ?thesis using assms(2) False by (auto simp: rtcm_filter_pass_def filter_ok_def typeset_wf_def typeset_check_eq)
qed (simp add: rtcm_filter_pass_def, blast)

text \<open>The conversion of a frame returns, with the same result whether the frame has been marked before or not.\<close>

lemma filter_convert_frame:
  assumes "packet_ok p" "filter_ok f" "rtcm_state p \<noteq> PACKET_RAW"
  shows "\<exists>b ok q r. \<forall>p'. crc_marked p p' \<longrightarrow>
    rtcm_filter_convert junk (Some f) p' = Some (if \<not> b then (None, p') else if \<not> ok then (None, q) else (r, q)) \<and> crc_marked p q"
proof -
  have l: "6 \<le> datalen p" using assms by (simp add: packet_ok_def)
  obtain type b where t: "rtcm_get_type p = Some type" "rtcm_typeset_check (filter_convert f) type = Some b"
    using get_type_slice[OF assms(3) l] assms(2) by (auto simp: filter_ok_def typeset_wf_def typeset_check_eq)
  obtain ok q where q: "rtcm_crc_check p = Some (ok, q)" using crc_check_cases[of p] by blast
  note m = crc_check_marks(1)[OF crc_marked_refl assms(3) q]
  have "rtcm_state q \<noteq> PACKET_RAW" "6 \<le> datalen q" using crc_marked_keeps[OF m] assms(3) l by simp_all
  then have "\<exists>r. rtcm_convert_msm7 junk q v = Some r" for v using convert_msm7_frame[of q junk v] by (auto split: if_splits)
  then obtain r3 r4 where r: "rtcm_convert_msm7 junk q 3 = Some r3" "rtcm_convert_msm7 junk q 4 = Some r4" by blast
  have "rtcm_filter_convert junk (Some f) p' =
      Some (if \<not> b then (None, p') else if \<not> ok then (None, q) else (if conversion f = RTCM_CONV_MSM7_4 then r4 else r3, q))"
    if "crc_marked p p'" for p'
    using crc_marked_keeps[OF that] assms(3) t q r by (cases "conversion f") (auto simp: rtcm_filter_convert_def)
  with m show ?thesis by blast
qed

lemma filter_convert_marked:
  assumes "packet_ok p" "filter_ok f" "crc_marked p p'"
  shows "\<exists>q. rtcm_filter_convert junk (Some f) p' = Some (converted junk f p, q) \<and> crc_marked p q"
proof (cases "rtcm_state p = PACKET_RAW")
  case True
  with crc_marked_keeps(3)[OF assms(3)] assms(3) show ?thesis by (simp add: rtcm_filter_convert_def converted_def)
next
  case False
  from filter_convert_frame[OF assms(1,2) False, of junk] obtain b ok q r where
    "\<forall>p'. crc_marked p p' \<longrightarrow> rtcm_filter_convert junk (Some f) p' =
      Some (if \<not> b then (None, p') else if \<not> ok then (None, q) else (r, q)) \<and> crc_marked p q" by blast
  from this[rule_format, OF assms(3)] this[rule_format, OF crc_marked_refl] assms(3) show ?thesis by (auto simp: converted_def)
qed

lemma is_pos_marked:
  assumes "packet_ok p"
  shows "\<exists>p'. rtcm_packet_is_pos p = Some (has_pos p, p') \<and> crc_marked p p'"
proof (cases "rtcm_state p = PACKET_RAW \<or> datalen p < 25")
  case True
  then show ?thesis by (auto simp: rtcm_packet_is_pos_def has_pos_def)
next
  case False
  obtain ok q where q: "rtcm_crc_check p = Some (ok, q)" using crc_check_cases[of p] by blast
  moreover have "rtcm_get_type p \<noteq> None" using get_type_slice[of p] False by simp
  ultimately show ?thesis using crc_check_marks(1)[OF crc_marked_refl _ q] False
    by (auto simp: rtcm_packet_is_pos_def has_pos_def Let_def)
qed

text \<open>
  The loop over the subscribers keeps the packet, up to its mark, and the result of the filter that
  its sessions share.
\<close>

definition sending :: "(nat \<Rightarrow> byte) \<Rightarrow> rtcm_filter \<Rightarrow> packet \<Rightarrow> send_state \<Rightarrow> bool" where
  "sending junk flt p s \<longleftrightarrow> packet_ok p \<and> filter_ok flt \<and> crc_marked p (ss_packet s) \<and>
     (ss_pconv s = None \<or> ss_pconv s = converted junk flt p)"

abbreviation filtered_by :: "rtcm_filter \<Rightarrow> client \<Rightarrow> bool" where
  "filtered_by flt x \<equiv> use_rtcm_filter x \<longrightarrow> cl_filter x = flt"

lemma choose_packet_ok:
  assumes "sending junk flt p s" "filtered_by flt x"
  shows "\<exists>r s'. choose_packet junk x s = Some (r, s') \<and> sending junk flt p s' \<and>
    ss_clients s' = ss_clients s \<and> ss_n s' = ss_n s \<and> ss_backlogged s' = ss_backlogged s \<and>
    (case r of Some q \<Rightarrow> [pkt_data q] | None \<Rightarrow> []) = content_for junk x p"
proof (cases "use_rtcm_filter x")
  case True
  have s: "packet_ok p" "filter_ok flt" "crc_marked p (ss_packet s)" "ss_pconv s = None \<or> ss_pconv s = converted junk flt p"
    using assms(1) by (simp_all add: sending_def)
  obtain b where b: "rtcm_filter_pass flt p = Some b" using filter_pass_total[OF s(1,2)] by blast
  obtain q where q: "rtcm_filter_convert junk (Some flt) (ss_packet s) = Some (converted junk flt p, q)" "crc_marked p q"
    using filter_convert_marked[OF s(1-3)] by blast
  show ?thesis
    using True assms s b q filter_pass_marked[OF s(3), of flt] crc_marked_keeps(1)[OF s(3)]
    by (cases b; cases "ss_pconv s") (auto simp: choose_packet_def content_for_def sending_def)
next
  case False
  with assms show ?thesis by (auto simp: choose_packet_def content_for_def sending_def crc_marked_keeps)
qed

lemma send_one_ok:
  assumes s: "sending junk flt p s" and x: "x = ss_clients s (sub_client np)" "filtered_by flt x"
  shows "\<exists>np' s' y. send_one junk blim is_pos np s = Some (np', s') \<and> sending junk flt p s' \<and>
    ss_n s' = ss_n s + 1 \<and> sub_client np' = sub_client np \<and> (\<not> cl_ended x \<longrightarrow> backlog_len np' = output_len x) \<and>
    ss_backlogged s' = ss_backlogged s + (if \<not> cl_ended x \<and> output_len x > blim then 1 else 0) \<and>
    ss_clients s' = (ss_clients s)(sub_client np := y) \<and> same_session y x \<and>
    delivered (if receives blim is_pos x then content_for junk x p else []) x y"
proof -
  let ?c = "sub_client np"
  have keep: "(ss_clients s)(?c := x) = ss_clients s" using x by simp
  have refl: "same_session x x" "delivered [] x x" by (simp_all add: same_session_def delivered_def)
  show ?thesis
  proof (cases "cl_ended x \<or> output_len x > blim \<or> (client_state x = NTRIP_RTCM_POS_WAIT \<and> \<not> is_pos)")
    case True
    then have r: "\<not> receives blim is_pos x" by (auto simp: receives_def)
    let ?np = "if cl_ended x then np else np\<lparr>backlog_len := output_len x\<rparr>"
    let ?s = "s\<lparr>ss_n := ss_n s + 1, ss_backlogged := ss_backlogged s + (if \<not> cl_ended x \<and> output_len x > blim then 1 else 0)\<rparr>"
    have "send_one junk blim is_pos np s = Some (?np, ?s)" using True x by (auto simp: send_one_def Let_def)
    moreover have "sending junk flt p ?s" using s by (simp add: sending_def)
    ultimately show ?thesis using keep refl r by (intro exI[of _ ?np] exI[of _ ?s] exI[of _ x]) simp
  next
    case False
    let ?x = "x\<lparr>client_state := NTRIP_RTCM_POS_OK\<rparr>"
    let ?s = "s\<lparr>ss_n := ss_n s + 1\<rparr>"
    have "client_state x = NTRIP_RTCM_POS_OK \<or> is_pos" using False by (cases "client_state x") auto
    then have r: "receives blim is_pos x" using False by (auto simp: receives_def)
    have "sending junk flt p ?s" "filtered_by flt ?x" using s x(2) by (simp_all add: sending_def)
    from choose_packet_ok[OF this] obtain pr s' where
      ch: "choose_packet junk ?x ?s = Some (pr, s')" "sending junk flt p s'" "ss_clients s' = ss_clients s"
        "ss_n s' = ss_n s + 1" "ss_backlogged s' = ss_backlogged s"
        "(case pr of Some q \<Rightarrow> [pkt_data q] | None \<Rightarrow> []) = content_for junk x p"
      by (auto simp: content_for_def)
    define y where "y = (case pr of Some p \<Rightarrow> packet_send p ?x | None \<Rightarrow> ?x)"
    have "same_session y x" by (simp add: y_def same_session_def packet_send_def split: option.split)
    moreover have "delivered (content_for junk x p) x y"
      unfolding ch(6)[symmetric] by (cases pr) (auto simp: y_def delivered_def packet_send_def)
    moreover have "send_one junk blim is_pos np s = Some (np\<lparr>backlog_len := output_len x\<rparr>, s'\<lparr>ss_clients := (ss_clients s')(?c := y)\<rparr>)"
      using False x ch(1) by (auto simp: send_one_def Let_def y_def)
    moreover have "sending junk flt p (s'\<lparr>ss_clients := cs\<rparr>)" for cs using ch(2) by (simp add: sending_def)
    ultimately show ?thesis using ch(3-5) r False
      by (intro exI[of _ "np\<lparr>backlog_len := output_len x\<rparr>"] exI[of _ "s'\<lparr>ss_clients := (ss_clients s')(?c := y)\<rparr>"] exI[of _ y]) simp
  qed
qed

lemma send_loop_ok:
  assumes "sending junk flt p s" "\<forall>np \<in> set nps. filtered_by flt (ss_clients s (sub_client np))" "distinct (map sub_client nps)"
  shows "\<exists>nps' s'. send_loop junk blim is_pos nps s = Some (nps', s') \<and> sending junk flt p s' \<and>
    ss_n s' = ss_n s + int (length nps) \<and> map sub_client nps' = map sub_client nps \<and>
    (\<forall>np \<in> set nps'. \<not> cl_ended (ss_clients s (sub_client np)) \<longrightarrow> backlog_len np = output_len (ss_clients s (sub_client np))) \<and>
    ss_backlogged s' = ss_backlogged s +
      int (length (filter (\<lambda>np. \<not> cl_ended (ss_clients s (sub_client np)) \<and> output_len (ss_clients s (sub_client np)) > blim) nps)) \<and>
    (\<forall>c \<in> sub_client ` set nps. same_session (ss_clients s' c) (ss_clients s c) \<and>
      delivered (if receives blim is_pos (ss_clients s c) then content_for junk (ss_clients s c) p else [])
        (ss_clients s c) (ss_clients s' c)) \<and>
    (\<forall>c. c \<notin> sub_client ` set nps \<longrightarrow> ss_clients s' c = ss_clients s c)"
  using assms
proof (induction nps arbitrary: s)
  case (Cons np nps)
  let ?c = "sub_client np"
  let ?due = "\<lambda>x. if receives blim is_pos x then content_for junk x p else []"
  have "filtered_by flt (ss_clients s ?c)" using Cons.prems(2) by simp
  from send_one_ok[OF Cons.prems(1) refl this, where blim = blim and is_pos = is_pos] obtain np' s1 y where
    o: "send_one junk blim is_pos np s = Some (np', s1)" "sending junk flt p s1" "ss_n s1 = ss_n s + 1"
      "sub_client np' = ?c" "\<not> cl_ended (ss_clients s ?c) \<longrightarrow> backlog_len np' = output_len (ss_clients s ?c)"
      "ss_backlogged s1 = ss_backlogged s + (if \<not> cl_ended (ss_clients s ?c) \<and> output_len (ss_clients s ?c) > blim then 1 else 0)"
      "ss_clients s1 = (ss_clients s)(?c := y)" "same_session y (ss_clients s ?c)"
      "delivered (?due (ss_clients s ?c)) (ss_clients s ?c) y" by blast
  have d: "distinct (map sub_client nps)" "?c \<notin> sub_client ` set nps" using Cons.prems(3) by auto
  have same: "ss_clients s1 c = ss_clients s c" if "c \<in> sub_client ` set nps" for c
    using that d(2) unfolding o(7) by (cases "c = ?c") auto
  then have "\<forall>np \<in> set nps. filtered_by flt (ss_clients s1 (sub_client np))" using Cons.prems(2) by simp
  from Cons.IH[OF o(2) this d(1)] obtain nps' s2 where
    l: "send_loop junk blim is_pos nps s1 = Some (nps', s2)" "sending junk flt p s2"
      "ss_n s2 = ss_n s1 + int (length nps)" "map sub_client nps' = map sub_client nps"
      "\<forall>np \<in> set nps'. \<not> cl_ended (ss_clients s1 (sub_client np)) \<longrightarrow> backlog_len np = output_len (ss_clients s1 (sub_client np))"
      "ss_backlogged s2 = ss_backlogged s1 +
        int (length (filter (\<lambda>np. \<not> cl_ended (ss_clients s1 (sub_client np)) \<and> output_len (ss_clients s1 (sub_client np)) > blim) nps))"
      "\<forall>c \<in> sub_client ` set nps. same_session (ss_clients s2 c) (ss_clients s1 c) \<and>
        delivered (?due (ss_clients s1 c)) (ss_clients s1 c) (ss_clients s2 c)"
      "\<forall>c. c \<notin> sub_client ` set nps \<longrightarrow> ss_clients s2 c = ss_clients s1 c" by blast
  have set': "sub_client ` set nps' = sub_client ` set nps" using l(4) by (metis set_map)
  have f: "filter (\<lambda>np. \<not> cl_ended (ss_clients s1 (sub_client np)) \<and> output_len (ss_clients s1 (sub_client np)) > blim) nps =
      filter (\<lambda>np. \<not> cl_ended (ss_clients s (sub_client np)) \<and> output_len (ss_clients s (sub_client np)) > blim) nps"
    by (rule filter_cong[OF refl]) (simp add: same)
  have b: "\<forall>np \<in> set (np' # nps'). \<not> cl_ended (ss_clients s (sub_client np)) \<longrightarrow> backlog_len np = output_len (ss_clients s (sub_client np))"
    using o(4,5) l(5) same set' by (metis image_eqI set_ConsD)
  have ds: "same_session (ss_clients s2 c) (ss_clients s c) \<and> delivered (?due (ss_clients s c)) (ss_clients s c) (ss_clients s2 c)"
    if "c \<in> sub_client ` set (np # nps)" for c
  proof (cases "c \<in> sub_client ` set nps")
    case True
    with l(7) same show ?thesis by metis
  next
    case False
    with that l(8) o(7-9) show ?thesis by auto
  qed
  show ?case
    using o(1,3,4,6) l(1-4,6) b ds d(2) l(8) o(7) f by (intro exI[of _ "np' # nps'"] exI[of _ s2]) auto
qed auto

lemma sent_live_inv:
  assumes inv: "live_inv ext w" and subs: "map sub_client subs = map sub_client (subscribers (sources w i))"
    and cs: "\<And>c. subscription (cs c) = subscription (clients w c)"
  shows "live_inv ext ((set_source i ((sources w i)\<lparr>npackets := npackets (sources w i) + 1, subscribers := subs\<rparr>) w)\<lparr>clients := cs\<rparr>)"
proof -
  have set: "sub_client ` set subs = sub_client ` set (subscribers (sources w i))" using subs by (metis set_map)
  have "c \<in> sub_client ` set subs \<longleftrightarrow> subscription (clients w c) = Some i" for c unfolding set using live_inv_sub[OF inv] by blast
  moreover have "length subs = length (subscribers (sources w i))" using subs by (metis length_map)
  then have "source_ok (ext i) ((sources w i)\<lparr>npackets := npackets (sources w i) + 1, subscribers := subs\<rparr>)"
    using live_inv_source[OF inv, of i] subs by (simp add: source_ok_def)
  ultimately show ?thesis using inv cs unfolding live_inv_def by simp
qed

text \<open>The subscribers with too much output waiting lose their subscription, the others stay as they are.\<close>

lemma kill_backlogged_ok:
  assumes "live_inv ext w" "distinct (map sub_client (subscribers (sources w i)))"
  shows "\<exists>w'. map_option snd (kill_subscribers_unlocked w i True blim) = Some w' \<and> live_inv ext w' \<and>
    (\<forall>np \<in> set (subscribers (sources w i)). clients w' (sub_client np) =
      (if backlog_len np > blim then (clients w (sub_client np))\<lparr>subscription := None\<rparr> else clients w (sub_client np))) \<and>
    (\<forall>c. c \<notin> sub_client ` set (subscribers (sources w i)) \<longrightarrow> clients w' c = clients w c)"
proof -
  have "kill_client True blim np x = (if backlog_len np > blim then x\<lparr>subscription := None\<rparr> else x)" for np x
    by (simp add: kill_client_def Let_def)
  with kill_loop_ok[OF assms, of True blim 0] show ?thesis by (auto simp: kill_subscribers_unlocked_def)
qed

lemma send_subscribers_ok:
  assumes inv: "live_inv ext w" and p: "packet_ok p" "filter_ok flt"
    and flt: "\<forall>c. subscription (clients w c) = Some i \<longrightarrow> filtered_by flt (clients w c)"
  shows "\<exists>w'. livesource_send_subscribers junk blim w i p = Some (nsubs (sources w i), w') \<and> live_inv ext w' \<and>
    (\<forall>c. let x = clients w c; y = clients w' c in
      if subscription x = Some i
      then delivered (if receives blim (has_pos p) x then content_for junk x p else []) x y \<and>
        (\<not> cl_ended x \<longrightarrow> subscription y = (if output_len x > blim then None else Some i)) \<and>
        (output_len x \<le> blim \<longrightarrow> cl_ended y = cl_ended x)
      else y = x)"
proof -
  let ?l = "sources w i"
  let ?due = "\<lambda>x. if receives blim (has_pos p) x then content_for junk x p else []"
  obtain p1 where pos: "rtcm_packet_is_pos p = Some (has_pos p, p1)" "crc_marked p p1" using is_pos_marked[OF p(1)] by blast
  let ?s = "\<lparr>ss_clients = clients w, ss_packet = p1, ss_pconv = None, ss_backlogged = 0, ss_n = 0\<rparr>"
  have d: "distinct (map sub_client (subscribers ?l))" using live_inv_source[OF inv] by (simp add: source_ok_def)
  have c_iff: "c \<in> sub_client ` set (subscribers ?l) \<longleftrightarrow> subscription (clients w c) = Some i" for c using live_inv_sub[OF inv] by blast
  have start: "sending junk flt p ?s" using p pos(2) by (simp add: sending_def)
  have "\<forall>np \<in> set (subscribers ?l). filtered_by flt (ss_clients ?s (sub_client np))" using c_iff flt by auto
  from send_loop_ok[OF start this d, of blim "has_pos p", unfolded send_state.simps add_0] obtain subs s where
    l: "send_loop junk blim (has_pos p) (subscribers ?l) ?s = Some (subs, s)" "sending junk flt p s"
      "ss_n s = int (length (subscribers ?l))" "map sub_client subs = map sub_client (subscribers ?l)"
      "\<forall>np \<in> set subs. \<not> cl_ended (clients w (sub_client np)) \<longrightarrow> backlog_len np = output_len (clients w (sub_client np))"
      "ss_backlogged s = int (length (filter (\<lambda>np. \<not> cl_ended (clients w (sub_client np)) \<and> output_len (clients w (sub_client np)) > blim) (subscribers ?l)))"
      "\<forall>c \<in> sub_client ` set (subscribers ?l). same_session (ss_clients s c) (clients w c) \<and>
        delivered (?due (clients w c)) (clients w c) (ss_clients s c)"
      "\<forall>c. c \<notin> sub_client ` set (subscribers ?l) \<longrightarrow> ss_clients s c = clients w c" by blast
  have set': "sub_client ` set subs = sub_client ` set (subscribers ?l)" using l(4) by (metis set_map)
  define w1 where "w1 = (set_source i (?l\<lparr>npackets := npackets ?l + 1, subscribers := subs\<rparr>) w)\<lparr>clients := ss_clients s\<rparr>"
  have sub_same: "subscription (ss_clients s c) = subscription (clients w c)" "cl_ended (ss_clients s c) = cl_ended (clients w c)" for c
    using l(7,8) by (cases "c \<in> sub_client ` set (subscribers ?l)", auto simp: same_session_def)+
  have inv1: "live_inv ext w1" unfolding w1_def by (rule sent_live_inv[OF inv l(4) sub_same(1)])
  have n: "ss_n s = nsubs ?l" "pkt_refcnt (ss_packet s) > 0"
    using live_inv_source[OF inv, of i] l(2,3) crc_marked_keeps(2)[of p "ss_packet s"]
    by (simp_all add: source_ok_def sending_def packet_ok_def)
  have send: "livesource_send_subscribers junk blim w i p =
      Option.bind (if ss_backlogged s \<noteq> 0 then map_option snd (kill_subscribers_unlocked w1 i True blim) else Some w1)
        (\<lambda>w. Some (nsubs ?l, w))"
    using pos(1) l(1) n by (simp add: livesource_send_subscribers_def Let_def w1_def)
  have subs1: "subscribers (sources w1 i) = subs" "clients w1 = ss_clients s" by (simp_all add: w1_def)
  have deliv: "delivered (?due (clients w c)) (clients w c) (ss_clients s c)" if "subscription (clients w c) = Some i" for c
    using l(7) c_iff that by blast
  show ?thesis
  proof (cases "ss_backlogged s = 0")
    case True
    have "\<not> output_len (clients w c) > blim" if "subscription (clients w c) = Some i" "\<not> cl_ended (clients w c)" for c
      using True l(6) c_iff[of c] that by (auto simp: filter_empty_conv)
    moreover have "ss_clients s c = clients w c" if "subscription (clients w c) \<noteq> Some i" for c using l(8) c_iff that by blast
    ultimately show ?thesis using True send inv1 sub_same subs1(2) deliv by (intro exI[of _ w1]) (simp add: Let_def)
  next
    case False
    have "distinct (map sub_client (subscribers (sources w1 i)))" using d l(4) subs1(1) by simp
    from kill_backlogged_ok[OF inv1 this, of blim] obtain w2 where
      k: "map_option snd (kill_subscribers_unlocked w1 i True blim) = Some w2" "live_inv ext w2"
        "\<forall>np \<in> set subs. clients w2 (sub_client np) =
          (if backlog_len np > blim then (clients w1 (sub_client np))\<lparr>subscription := None\<rparr> else clients w1 (sub_client np))"
        "\<forall>c. c \<notin> sub_client ` set subs \<longrightarrow> clients w2 c = clients w1 c" unfolding subs1(1) by blast
    have "delivered (?due (clients w c)) (clients w c) (clients w2 c) \<and> cl_ended (clients w2 c) = cl_ended (clients w c) \<and>
        (\<not> cl_ended (clients w c) \<longrightarrow> subscription (clients w2 c) = (if output_len (clients w c) > blim then None else Some i))"
      if c: "subscription (clients w c) = Some i" for c
    proof -
      obtain np where np: "np \<in> set subs" "c = sub_client np" using c c_iff set' by blast
      have "clients w2 c = (if backlog_len np > blim then (ss_clients s c)\<lparr>subscription := None\<rparr> else ss_clients s c)"
        using k(3) np subs1(2) by simp
      then show ?thesis using deliv[OF c] l(5) np c sub_same[of c] by (auto simp: delivered_def)
    qed
    moreover have "clients w2 c = clients w c" if "subscription (clients w c) \<noteq> Some i" for c
      using that c_iff set' k(4) l(8) subs1(2) by auto
    moreover have "livesource_send_subscribers junk blim w i p = Some (nsubs ?l, w2)"
      using send False k(1) by simp
    ultimately show ?thesis using k(2) by (intro exI[of _ w2]) (auto simp: Let_def)
  qed
qed

text \<open>
  C2: a packet is offered to every subscriber of the source. A session that is open, has no backlog and
  has its position (or gets it with this packet) is sent exactly one thing: the packet, if the session uses no filter
  or its filter passes the packet, otherwise the packet that its filter makes of it, and nothing if
  the filter makes none; no other session is sent anything. The open sessions whose output exceeds the limit lose
  their subscription, the other ones keep it, the assertion on the number of subscribers holds, and the
  subscriptions stay consistent. The packet holds a reference and, unless it is raw, has at
  least the 6 bytes of a frame; the sessions of the source that use a filter use the same one, as they do
  while the configuration is not reloaded (a conversion made for one session is sent to all of them, lemma
  \<open>conversion_shared\<close> below). A backlogged session is only unsubscribed here: that the comments
  of the code call this killing it is the subject of \<open>backlogged_left_open\<close> below, and the theorem does not say
  whether its connection stays open.
\<close>

theorem livesource_send_subscribers_correct:
  assumes "live_inv ext w" "packet_ok p" "filter_ok flt"
    and "\<forall>c. subscription (clients w c) = Some i \<longrightarrow> filtered_by flt (clients w c)"
  shows "\<exists>w'. livesource_send_subscribers junk blim w i p = Some (nsubs (sources w i), w') \<and> live_inv ext w' \<and>
    (\<forall>c. let x = clients w c; y = clients w' c in
      if subscription x = Some i
      then delivered (if receives blim (has_pos p) x then content_for junk x p else []) x y \<and>
        (\<not> cl_ended x \<longrightarrow> subscription y = (if output_len x > blim then None else Some i)) \<and>
        (output_len x \<le> blim \<longrightarrow> cl_ended y = cl_ended x)
      else y = x)"
  by (rule send_subscribers_ok[OF assms])

text \<open>
  The conversion is kept for the rest of the subscribers: a session whose own filter neither passes nor converts a packet is
  sent what the filter of an earlier session made of it.
\<close>

lemma conversion_shared:
  assumes "use_rtcm_filter x" "rtcm_filter_pass (cl_filter x) (ss_packet s) = Some False" "ss_pconv s = Some q"
  shows "choose_packet junk x s = Some (Some q, s)"
  using assms by (simp add: choose_packet_def)

text \<open>A source with a subscriber whose output is empty, and a packet.\<close>

definition demo_client :: client where
  "demo_client = \<lparr>cl_ended = False, subscription = None, output_len = 0, client_state = NTRIP_RTCM_POS_OK,
     use_rtcm_filter = False, cl_filter = undefined, cl_sent = [], redo_jobs = 0\<rparr>"

definition demo_world :: live_world where
  "demo_world = \<lparr>sources = (\<lambda>_. livesource_new ''A'' LIVESOURCE_TYPE_DIRECT LIVESOURCE_RUNNING), clients = (\<lambda>_. demo_client)\<rparr>"

lemma demo_world_inv: "live_inv (\<lambda>_. 1) demo_world"
  by (simp add: live_inv_def source_ok_def demo_world_def livesource_new_def demo_client_def refcnt_init_def)

lemma demo_subscribed:
  "\<exists>w. livesource_add_subscriber demo_world 0 0 0 = Some w \<and> live_inv (\<lambda>_. 1) w \<and> subscription (clients w 0) = Some 0 \<and>
    clients w = (clients demo_world)(0 := demo_client\<lparr>subscription := Some 0\<rparr>)"
proof -
  from add_subscriber_ok[OF demo_world_inv, of 0 0 0] obtain w where
    w: "livesource_add_subscriber demo_world 0 0 0 = Some w" "live_inv (\<lambda>_. 1) w" "subscription (clients w 0) = Some 0"
    by (auto simp: demo_world_def demo_client_def)
  moreover have "clients w = (clients demo_world)(0 := demo_client\<lparr>subscription := Some 0\<rparr>)"
    using w(1) by (auto simp: livesource_add_subscriber_def demo_world_def demo_client_def Let_def bind_eq_Some_conv)
  ultimately show ?thesis by blast
qed

theorem livesource_send_subscribers_correct_witness:
  "\<exists>w w' n. livesource_add_subscriber demo_world 0 0 0 = Some w \<and>
    livesource_send_subscribers (\<lambda>_. 0) 10 w 0 (packet_new [1, 2]) = Some (n, w') \<and> live_inv (\<lambda>_. 1) w' \<and>
    map pkt_data (cl_sent (clients w' 0)) = [[1, 2]]"
proof -
  obtain w where w: "livesource_add_subscriber demo_world 0 0 0 = Some w" "live_inv (\<lambda>_. 1) w"
      "clients w = (clients demo_world)(0 := demo_client\<lparr>subscription := Some 0\<rparr>)"
    using demo_subscribed by blast
  let ?flt = "\<lparr>filter_pass = rtcm_typeset_init, filter_convert = rtcm_typeset_init, conversion = RTCM_CONV_MSM7_4\<rparr>"
  have p: "packet_ok (packet_new [1, 2])" "filter_ok ?flt"
    by (simp_all add: packet_ok_def filter_ok_def packet_new_def refcnt_init_def typeset_init_wf)
  have flt: "\<forall>c. subscription (clients w c) = Some 0 \<longrightarrow> filtered_by ?flt (clients w c)"
    by (simp add: w(3) demo_world_def demo_client_def)
  from livesource_send_subscribers_correct[OF w(2) p flt, of "\<lambda>_. 0" 10] obtain w' where
    w': "livesource_send_subscribers (\<lambda>_. 0) 10 w 0 (packet_new [1, 2]) = Some (nsubs (sources w 0), w')" "live_inv (\<lambda>_. 1) w'"
      "\<forall>c. let x = clients w c; y = clients w' c in
        if subscription x = Some 0
        then delivered (if receives 10 (has_pos (packet_new [1, 2])) x then content_for (\<lambda>_. 0) x (packet_new [1, 2]) else []) x y \<and>
          (\<not> cl_ended x \<longrightarrow> subscription y = (if output_len x > 10 then None else Some 0)) \<and>
          (output_len x \<le> 10 \<longrightarrow> cl_ended y = cl_ended x)
        else y = x" by blast
  have "map pkt_data (cl_sent (clients w' 0)) = [[1, 2]]"
    using w'(3)[rule_format, of 0]
    by (auto simp: delivered_def receives_def content_for_def w(3) demo_client_def packet_new_def Let_def)
  with w(1) w'(1,2) show ?thesis
    by (intro exI[of _ w] exI[of _ w'] exI[of _ "nsubs (sources w 0)"] conjI)
qed

subsection \<open>Reachable subscriptions\<close>

inductive live_reachable :: "(nat \<Rightarrow> int) \<Rightarrow> live_world \<Rightarrow> bool" for ext where
  start: "\<forall>i. 1 \<le> ext i \<and> subscribers (sources w i) = [] \<and> nsubs (sources w i) = 0 \<and> ls_refcnt (sources w i) = ext i \<Longrightarrow>
    \<forall>c. subscription (clients w c) = None \<Longrightarrow> live_reachable ext w"
| subscribe: "live_reachable ext w \<Longrightarrow> subscription (clients w c) = None \<Longrightarrow>
    livesource_add_subscriber w c i v = Some w' \<Longrightarrow> live_reachable ext w'"
| unsubscribe: "live_reachable ext w \<Longrightarrow> livesource_del_subscriber w c = Some w' \<Longrightarrow> live_reachable ext w'"
| send: "live_reachable ext w \<Longrightarrow> livesource_send_subscribers junk blim w i p = Some (n, w') \<Longrightarrow> live_reachable ext w'"
| source_end: "live_reachable ext w \<Longrightarrow> livesource_end w i = Some w' \<Longrightarrow> live_reachable ext w'"
| client_end: "live_reachable ext w \<Longrightarrow> live_reachable ext (set_client c (end_client (clients w c)) w)"
| written: "live_reachable ext w \<Longrightarrow> live_reachable ext (set_client c ((clients w c)\<lparr>output_len := n\<rparr>) w)"

text \<open>Whatever the packet and the filters are, a packet that is sent keeps the subscriptions consistent.\<close>

lemma send_one_keeps:
  assumes "send_one junk blim is_pos np s = Some (np', s')"
  shows "sub_client np' = sub_client np \<and> subscription (ss_clients s' c) = subscription (ss_clients s c)"
proof -
  have "ss_clients s2 = ss_clients s1" if "choose_packet junk x s1 = Some (q, s2)" for x s1 q s2
    using that by (auto simp: choose_packet_def bind_eq_Some_conv split: if_splits)
  then show ?thesis using assms
    by (fastforce simp: send_one_def Let_def bind_eq_Some_conv packet_send_def split: if_splits option.splits)
qed

lemma send_loop_keeps:
  "send_loop junk blim is_pos nps s = Some (nps', s') \<Longrightarrow>
    map sub_client nps' = map sub_client nps \<and> (\<forall>c. subscription (ss_clients s' c) = subscription (ss_clients s c))"
proof (induction nps arbitrary: s nps' s')
  case (Cons np nps)
  then obtain np1 s1 nps1 where s1: "send_one junk blim is_pos np s = Some (np1, s1)"
    "send_loop junk blim is_pos nps s1 = Some (nps1, s')" "nps' = np1 # nps1" by (auto simp: bind_eq_Some_conv)
  with Cons.IH[OF s1(2)] send_one_keeps[OF s1(1)] show ?case by simp
qed simp

lemma sent_keeps_inv:
  assumes inv: "live_inv ext w" and send: "livesource_send_subscribers junk blim w i p = Some (n, w')"
  shows "live_inv ext w'"
proof -
  let ?l = "sources w i"
  from send obtain is_pos p1 subs s where
    l: "send_loop junk blim is_pos (subscribers ?l)
      \<lparr>ss_clients = clients w, ss_packet = p1, ss_pconv = None, ss_backlogged = 0, ss_n = 0\<rparr> = Some (subs, s)"
    and e: "(if ss_backlogged s \<noteq> 0 then map_option snd (kill_subscribers_unlocked
        ((set_source i (?l\<lparr>npackets := npackets ?l + 1, subscribers := subs\<rparr>) w)\<lparr>clients := ss_clients s\<rparr>) i True blim)
      else Some ((set_source i (?l\<lparr>npackets := npackets ?l + 1, subscribers := subs\<rparr>) w)\<lparr>clients := ss_clients s\<rparr>)) = Some w'"
    by (auto simp: livesource_send_subscribers_def Let_def bind_eq_Some_conv split: if_splits)
  from send_loop_keeps[OF l] have inv1: "live_inv ext ((set_source i (?l\<lparr>npackets := npackets ?l + 1, subscribers := subs\<rparr>) w)\<lparr>clients := ss_clients s\<rparr>)"
    and d: "distinct (map sub_client subs)"
    using sent_live_inv[OF inv] live_inv_source[OF inv, of i] by (simp_all add: source_ok_def)
  with e kill_backlogged_ok[OF inv1, of i blim] show ?thesis by (auto split: if_splits)
qed

lemma live_reachable_inv: "live_reachable ext w \<Longrightarrow> live_inv ext w"
proof (induction rule: live_reachable.induct)
  case (start w)
  then show ?case by (simp add: live_inv_def source_ok_def)
next
  case (subscribe w c i v w')
  with add_subscriber_ok[of ext w c i v] show ?case by auto
next
  case (unsubscribe w c w')
  with del_subscriber_ok[of ext w c] show ?case by (auto simp: livesource_del_subscriber_def)
next
  case (send w junk blim i p n w')
  then show ?case by (metis sent_keeps_inv)
next
  case (source_end w i w')
  with livesource_end_ok[of ext w i] show ?case by auto
next
  case (client_end w c)
  then show ?case by (intro live_inv_client) (simp_all add: end_client_def)
next
  case (written w c n)
  then show ?case by (intro live_inv_client) simp_all
qed

text \<open>
  C23: whatever clients subscribe, leave and close and whatever packets are sent, a session points to a
  source exactly if it is in its queue of subscribers, once; the number of subscribers and the
  references to a source are right; a session can always be unsubscribed, and ending a source leaves
  it without subscribers, so that the assertion there holds.
\<close>

theorem subscriptions_consistent:
  assumes "live_reachable ext w"
  shows "(\<forall>i c. c \<in> sub_client ` set (subscribers (sources w i)) \<longleftrightarrow> subscription (clients w c) = Some i) \<and>
    (\<forall>i. distinct (map sub_client (subscribers (sources w i))) \<and> nsubs (sources w i) = int (length (subscribers (sources w i))) \<and>
      ls_refcnt (sources w i) = ext i + nsubs (sources w i)) \<and>
    (\<forall>c. \<exists>w'. livesource_del_subscriber w c = Some w' \<and> subscription (clients w' c) = None) \<and>
    (\<forall>i. \<exists>w'. livesource_end w i = Some w' \<and> subscribers (sources w' i) = [])"
proof -
  note inv = live_reachable_inv[OF assms]
  have "\<exists>w'. livesource_del_subscriber w c = Some w' \<and> subscription (clients w' c) = None" for c
    using del_subscriber_ok[OF inv, of c] by (auto simp: livesource_del_subscriber_def)
  moreover have "\<exists>w'. livesource_end w i = Some w' \<and> subscribers (sources w' i) = []" for i
    using livesource_end_ok[OF inv, of i] by blast
  moreover have "\<forall>i c. c \<in> sub_client ` set (subscribers (sources w i)) \<longleftrightarrow> subscription (clients w c) = Some i"
    using live_inv_sub[OF inv] by blast
  ultimately show ?thesis using live_inv_source[OF inv] by (simp add: source_ok_def)
qed

theorem subscriptions_consistent_witness:
  "\<exists>w. livesource_add_subscriber demo_world 0 0 0 = Some w \<and> 0 \<in> sub_client ` set (subscribers (sources w 0)) \<and>
    nsubs (sources w 0) = int (length (subscribers (sources w 0)))"
proof -
  obtain w where w: "livesource_add_subscriber demo_world 0 0 0 = Some w" "subscription (clients w 0) = Some 0"
    using demo_subscribed by blast
  have "live_reachable (\<lambda>_. 1) demo_world"
    by (rule live_reachable.start) (simp_all add: demo_world_def livesource_new_def demo_client_def refcnt_init_def)
  then have "live_reachable (\<lambda>_. 1) w"
    by (rule live_reachable.subscribe[OF _ _ w(1)]) (simp add: demo_world_def demo_client_def)
  from subscriptions_consistent[OF this] w show ?thesis by blast
qed

text \<open>
  A subscriber that is dropped because of its backlog loses its subscription, but its connection is
  not closed; the same holds for a subscriber that had data in its output buffer when the
  source was closed.
\<close>

lemma backlogged_left_open: "backlog_len np > blim \<Longrightarrow> cl_ended (kill_client kb blim np x) = cl_ended x"
  by (simp add: kill_client_def Let_def)

end
