(* ===== verification/Ntrip_Session.thy ===== *)
theory Ntrip_Session
  imports Ip_Prefix Auth Livesource
begin

text \<open>
  The state of a connection (\<open>struct ntrip_state\<close> of \<^verbatim>\<open>caster/ntrip_common.h\<close>) with the operations of
  \<^verbatim>\<open>caster/ntrip_common.c\<close> that change only it. Its buffers are lists of bytes. \<open>nt_input\<close> says which
  buffer the pointer \<open>input\<close> refers to: the raw input of the connection, or the buffer of decoded
  chunks, which is \<^const>\<open>None\<close> when it is not allocated, so that a read through a pointer to a freed
  buffer is \<^const>\<open>None\<close>.
\<close>

datatype ntrip_session_state =
    NTRIP_INIT | NTRIP_WAIT_HTTP_METHOD | NTRIP_WAIT_HTTP_STATUS | NTRIP_WAIT_HTTP_HEADER
  | NTRIP_REGISTER_SOURCE | NTRIP_WAIT_STREAM_GET | NTRIP_WAIT_STREAM_SOURCE | NTRIP_WAIT_CALLBACK_LINE
  | NTRIP_WAIT_CLIENT_INPUT | NTRIP_WAIT_CLIENT_CONTENT | NTRIP_WAIT_SERVER_CONTENT
  | NTRIP_WAIT_CHUNKED_CONTENT | NTRIP_WAIT_CLOSE | NTRIP_FORCE_CLOSE | NTRIP_IDLE_CLIENT | NTRIP_END

datatype ntrip_chunk_state =
    CHUNK_NONE | CHUNK_INIT | CHUNK_WAIT_LEN | CHUNK_IN_PROGRESS | CHUNK_WAITING_TRAILER | CHUNK_LAST | CHUNK_ERR | CHUNK_END

datatype input_ref = Raw_input | Chunk_buf

definition POS_HISTORY_SIZE :: nat where "POS_HISTORY_SIZE = 20"
definition SIZE_HTTP_ARGS :: nat where "SIZE_HTTP_ARGS = 3"

record ntrip_state =
  nt_state :: ntrip_session_state
  nt_id :: int
  nt_refcnt :: int
  nt_received :: nat
  raw_input :: "byte list"
  nt_input :: input_ref
  in_filter :: bool
  chunk_buf :: "byte list option"
  chunk_len :: nat
  chunk_state :: ntrip_chunk_state
  connection_keepalive :: bool
  received_keepalive :: bool
  content_length :: nat
  content_done :: nat
  content :: "byte list option"
  content_type :: "cstring option"
  http_args :: "cstring list"
  n_http_args :: nat
  nt_mountpoint :: "cstring option"
  client_version :: int
  scheme_basic :: bool
  nt_user :: "cstring option"
  nt_password :: "cstring option"
  user_agent :: "cstring option"
  user_agent_ntrip :: bool
  query_string :: "cstring option"
  wildcard :: bool
  nt_type :: cstring
  source_virtual :: int
  source_on_demand :: int
  nt_use_filter :: bool
  last_pos :: "pos_t option"
  pos_history :: "pos_t list"
  pos_history_count :: nat
  pos_history_next :: nat
  peeraddr :: sock
  remote_addr :: cstring
  counted :: bool
  server_version :: int
  nt_sent :: nat
  nt_output :: cstring
  nt_admin_role :: admin_role
  own_livesource :: "cstring option"
  nt_subscription :: "cstring option"
  nt_rtcm_state :: rtcm_client_state
  last_gga :: "gga option"
  last_gga_date :: timeval
  virtual_mountpoint :: "cstring option"
  mountpoint_pos :: pos_t
  tmp_pos :: pos_t
  max_min_dist :: real
  lookup_dist :: real
  last_recompute_date :: timeval
  last_recompute_pos :: pos_t

text \<open>
  \<open>ntrip_new\<close> for a server connection. The fields that it does not set, like the ring of positions,
  are those of \<open>junk\<close>; the address is set afterwards, \<open>lookup\<close> is the configured maximum distance.
\<close>

definition ntrip_new :: "ntrip_state \<Rightarrow> sock \<Rightarrow> real \<Rightarrow> ntrip_state" where
  "ntrip_new junk zero_addr lookup = junk\<lparr>nt_state := NTRIP_INIT, nt_id := 0, nt_refcnt := refcnt_init, nt_received := 0, raw_input := [],
     nt_input := Raw_input, in_filter := False, chunk_buf := None, chunk_state := CHUNK_NONE, connection_keepalive := False,
     received_keepalive := False, content_length := 0, content_done := 0, content := None, content_type := None, http_args := [],
     n_http_args := 0, nt_mountpoint := Some [], client_version := 0, scheme_basic := False, nt_user := None, nt_password := None,
     user_agent := None, user_agent_ntrip := False, query_string := None, wildcard := False, nt_type := ''starting'',
     source_virtual := 0, source_on_demand := 0, nt_use_filter := False, last_pos := None,
     pos_history_count := 0, pos_history_next := 0, peeraddr := zero_addr, remote_addr := [], counted := False,
     server_version := 2, nt_sent := 0, nt_output := [], own_livesource := None, nt_subscription := None,
     nt_rtcm_state := NTRIP_RTCM_POS_WAIT, virtual_mountpoint := None, max_min_dist := 0, lookup_dist := lookup,
     last_recompute_date := (0, 0)\<rparr>"

text \<open>What \<open>input\<close> points to.\<close>

definition input_data :: "ntrip_state \<Rightarrow> byte list option" where
  "input_data st = (case nt_input st of Raw_input \<Rightarrow> Some (raw_input st) | Chunk_buf \<Rightarrow> chunk_buf st)"

definition set_input_data :: "byte list \<Rightarrow> ntrip_state \<Rightarrow> ntrip_state" where
  "set_input_data bs st = (case nt_input st of Raw_input \<Rightarrow> st\<lparr>raw_input := bs\<rparr> | Chunk_buf \<Rightarrow> st\<lparr>chunk_buf := Some bs\<rparr>)"

text \<open>The next request of a connection that is kept alive; \<open>input\<close> and the filter stay as they are.\<close>

definition ntrip_clear_request :: "ntrip_state \<Rightarrow> ntrip_state" where
  "ntrip_clear_request st = st\<lparr>http_args := [], n_http_args := 0, chunk_state := CHUNK_NONE, chunk_buf := None,
     content := None, content_type := None, user_agent := None, nt_user := None, nt_password := None,
     query_string := None, received_keepalive := False, content_length := 0, content_done := 0\<rparr>"

text \<open>A session in memory filled with zeros, and one made in it, for the witnesses.\<close>

definition zero_pos :: pos_t where "zero_pos = \<lparr>pos_lat = 0, pos_lon = 0\<rparr>"

definition zero_session :: ntrip_state where
  "zero_session = \<lparr>nt_state = NTRIP_INIT, nt_id = 0, nt_refcnt = 0, nt_received = 0, raw_input = [], nt_input = Raw_input, in_filter = False,
     chunk_buf = None, chunk_len = 0, chunk_state = CHUNK_NONE, connection_keepalive = False, received_keepalive = False,
     content_length = 0, content_done = 0, content = None, content_type = None, http_args = [], n_http_args = 0,
     nt_mountpoint = None, client_version = 0, scheme_basic = False, nt_user = None, nt_password = None,
     user_agent = None, user_agent_ntrip = False, query_string = None, wildcard = False, nt_type = [],
     source_virtual = 0, source_on_demand = 0, nt_use_filter = False, last_pos = None, pos_history = replicate POS_HISTORY_SIZE zero_pos,
     pos_history_count = 0, pos_history_next = 0, peeraddr = Sock_other 0, remote_addr = [], counted = False,
     server_version = 0, nt_sent = 0, nt_output = [], nt_admin_role = ADMIN_ROLE_NONE, own_livesource = None, nt_subscription = None,
     nt_rtcm_state = NTRIP_RTCM_POS_WAIT, last_gga = None, last_gga_date = (0, 0), virtual_mountpoint = None,
     mountpoint_pos = zero_pos, tmp_pos = zero_pos, max_min_dist = 0, lookup_dist = 0, last_recompute_date = (0, 0),
     last_recompute_pos = zero_pos\<rparr>"

definition new_session :: ntrip_state where
  "new_session = ntrip_new zero_session (Sock_other 0) 1000000"

subsection \<open>The trail of positions\<close>

definition ntrip_push_pos_history :: "ntrip_state \<Rightarrow> pos_t \<Rightarrow> ntrip_state option" where
  "ntrip_push_pos_history this pos = do {
     ring \<leftarrow> buf_set (pos_history this) (pos_history_next this) pos;
     Some (this\<lparr>pos_history := ring, pos_history_next := (pos_history_next this + 1) mod POS_HISTORY_SIZE,
       pos_history_count := (if pos_history_count this < POS_HISTORY_SIZE then pos_history_count this + 1
                             else pos_history_count this)\<rparr>)
   }"

text \<open>The positions from the oldest to the newest, as the comment of the code says they are stored.\<close>

definition pos_trail :: "ntrip_state \<Rightarrow> pos_t list" where
  "pos_trail st = map (\<lambda>i. pos_history st !
      ((pos_history_next st + POS_HISTORY_SIZE - pos_history_count st + i) mod POS_HISTORY_SIZE)) [0..<pos_history_count st]"

definition ring_ok :: "ntrip_state \<Rightarrow> bool" where
  "ring_ok st \<longleftrightarrow> length (pos_history st) = POS_HISTORY_SIZE \<and> pos_history_count st \<le> POS_HISTORY_SIZE \<and>
     pos_history_next st < POS_HISTORY_SIZE"

lemma pos_trail_ring: "ring_ok st \<Longrightarrow> pos_trail st = ring_list (pos_history st) (pos_history_next st) (pos_history_count st)"
  by (simp add: pos_trail_def ring_list_def ring_ok_def)

text \<open>A position is recorded in the ring without an access out of it; the trail is that of the last twenty.\<close>

lemma push_pos_history_correct:
  assumes "ring_ok st"
  shows "\<exists>st'. ntrip_push_pos_history st pos = Some st' \<and> ring_ok st' \<and> pos_trail st' = last_n POS_HISTORY_SIZE (pos_trail st @ [pos])"
proof -
  let ?n = "pos_history_next st" and ?c = "pos_history_count st" and ?r = "pos_history st"
  let ?st = "st\<lparr>pos_history := ?r[?n := pos], pos_history_next := (?n + 1) mod POS_HISTORY_SIZE,
    pos_history_count := (if ?c < POS_HISTORY_SIZE then ?c + 1 else ?c)\<rparr>"
  have b: "length ?r = POS_HISTORY_SIZE" "?c \<le> POS_HISTORY_SIZE" "?n < POS_HISTORY_SIZE" using assms by (simp_all add: ring_ok_def)
  have "ntrip_push_pos_history st pos = Some ?st" using b by (simp add: ntrip_push_pos_history_def)
  moreover have ok: "ring_ok ?st" using b by (simp add: ring_ok_def)
  moreover have "pos_trail ?st = last_n POS_HISTORY_SIZE (pos_trail st @ [pos])"
    unfolding pos_trail_ring[OF ok] pos_trail_ring[OF assms] using ring_push[OF b] by simp
  ultimately show ?thesis by blast
qed

end
