(* ===== verification/Sourcetable.thy ===== *)
theory Sourcetable
  imports Rtcm_Info Util_Text
begin

text \<open>
  Sourcetables (\<^verbatim>\<open>caster/sourceline.c\<close>, \<^verbatim>\<open>caster/sourcetable.c\<close>) and the distance
  of \<^verbatim>\<open>caster/util.c\<close>. A sourcetable maps mountpoint names to source lines in a hash table.

  A source line does not change once it is in a table: reference counts and locks do not show.
  Allocations succeed. The contents of freshly allocated memory are the argument \<open>uninit\<close>. Messages
  of the log are values where they carry a result. A write past an allocated array is \<^const>\<open>None\<close>.
\<close>

subsection \<open>Distance\<close>

definition c_atan2 :: "real \<Rightarrow> real \<Rightarrow> real" where
  "c_atan2 y x =
     (if x > 0 then arctan (y / x)
      else if x < 0 then (if y \<ge> 0 then arctan (y / x) + pi else arctan (y / x) - pi)
      else if y > 0 then pi / 2 else if y < 0 then - (pi / 2) else 0)"

definition haversine :: "pos_t \<Rightarrow> pos_t \<Rightarrow> real" where
  "haversine p1 p2 =
     (let dLat = (pos_lat p2 - pos_lat p1) * (pi / 180);
          dLon = (pos_lon p2 - pos_lon p1) * (pi / 180);
          sindlo = sin (dLon / 2);
          sindla = sin (dLat / 2)
      in sindla * sindla + cos (pos_lat p1 * (pi / 180)) * cos (pos_lat p2 * (pi / 180)) * sindlo * sindlo)"

text \<open>The distance in metres, with real numbers where the code has \<^verbatim>\<open>float\<close>.\<close>

definition distance :: "pos_t \<Rightarrow> pos_t \<Rightarrow> real" where
  "distance p1 p2 =
     (let R = 6371000; a = haversine p1 p2; c = 2 * c_atan2 (sqrt a) (sqrt (1 - a))
      in R * c)"

subsection \<open>Source lines\<close>

record sourceline =
  sl_key :: cstring
  sl_value :: cstring
  sl_pos :: pos_t
  sl_bps :: int
  sl_virtual :: int
  sl_on_demand :: int
  sl_host :: cstring
  sl_port :: "16 word"
  sl_tls :: int

definition sourceline_new :: "sourceline \<Rightarrow> cstring \<Rightarrow> 16 word \<Rightarrow> int \<Rightarrow> cstring \<Rightarrow> cstring \<Rightarrow> sourceline" where
  "sourceline_new uninit host port tls key value =
     uninit\<lparr>sl_host := host, sl_key := key, sl_value := value, sl_port := port, sl_tls := tls\<rparr>"

text \<open>
  One field of the line: the line so far, the position and the error flag. \<open>virtual\<close> and
  \<open>on_demand\<close> are of type \<open>char\<close>.
\<close>

definition c_char :: "int \<Rightarrow> int" where
  "c_char v = signed_take_bit 7 v"

definition source_field :: "nat \<Rightarrow> cstring \<Rightarrow> sourceline \<times> pos_t \<times> bool \<Rightarrow> sourceline \<times> pos_t \<times> bool" where
  "source_field n token = (\<lambda>(n1, pos, err).
     if n = 9 then
       (case c_scan_f (length token) token of
          None \<Rightarrow> (n1, pos, True) | Some (x, _) \<Rightarrow> (n1, pos\<lparr>pos_lat := x\<rparr>, err))
     else if n = 10 then
       (case c_scan_f (length token) token of
          None \<Rightarrow> (n1, pos, True) | Some (x, _) \<Rightarrow> (n1, pos\<lparr>pos_lon := x\<rparr>, err))
     else if n = 11 then
       (case c_sscanf_d token of None \<Rightarrow> (n1, pos, err) | Some v \<Rightarrow> (n1\<lparr>sl_virtual := c_char v\<rparr>, pos, err))
     else if n = 17 then
       (case c_sscanf_d token of None \<Rightarrow> (n1, pos, err) | Some v \<Rightarrow> (n1\<lparr>sl_bps := v\<rparr>, pos, err))
     else (n1, pos, err))"

fun source_fields :: "nat \<Rightarrow> cstring list \<Rightarrow> sourceline \<times> pos_t \<times> bool \<Rightarrow> sourceline \<times> pos_t \<times> bool" where
  "source_fields n [] s = s"
| "source_fields n (token # r) s = source_fields (Suc n) r (source_field n token s)"

definition sourceline_new_parse ::
  "sourceline \<Rightarrow> cstring \<Rightarrow> cstring \<Rightarrow> 16 word \<Rightarrow> int \<Rightarrow> int \<Rightarrow> sourceline option" where
  "sourceline_new_parse uninit entry caster port tls on_demand =
     (if take 4 entry \<noteq> ''STR;'' then None
      else
        let (key, rest) = split_at_first (\<lambda>c. c = CHR '';'') (drop 4 entry)
        in if rest = None then None
           else
             let n1 = (sourceline_new uninit caster port tls key entry)\<lparr>sl_virtual := 0, sl_on_demand := c_char on_demand\<rparr>;
                 tokens = strsep_tokens (\<lambda>c. c = CHR '';'') entry;
                 (n1, pos, err) = source_fields 0 tokens (n1, sl_pos uninit, False)
             in if err \<or> length tokens \<noteq> 19 then None else Some (n1\<lparr>sl_pos := pos\<rparr>))"

subsection \<open>Tables\<close>

text \<open>The host of a table is NULL only for the table that \<open>stack_flatten_dist\<close> builds.\<close>

record sourcetable =
  st_caster :: "cstring option"
  st_port :: "16 word"
  st_tls :: int
  st_header :: cstring
  key_val :: "sourceline hash_table"
  st_pullable :: bool
  st_local :: bool
  st_filename :: "cstring option"
  st_priority :: int
  nvirtual :: int
  fetch_time :: timeval

definition is_LOCAL :: "sourcetable \<Rightarrow> bool" where
  "is_LOCAL s \<longleftrightarrow> st_caster s = Some ''LOCAL''"

definition sourcetable_new :: "cstring option \<Rightarrow> 16 word \<Rightarrow> int \<Rightarrow> sourcetable option" where
  "sourcetable_new host port tls = do {
     kv \<leftarrow> hash_table_new True 509;
     Some \<lparr>st_caster = host, st_port = port, st_tls = tls, st_header = [], key_val = kv,
       st_pullable = False, st_local = False, st_filename = None, st_priority = 0, nvirtual = 0,
       fetch_time = (0, 0)\<rparr>
   }"

definition sourcetable_add_direct :: "sourcetable \<Rightarrow> sourceline \<Rightarrow> int \<times> sourcetable" where
  "sourcetable_add_direct this s =
     (let (r, kv) = hash_table_add True (key_val this) (sl_key s) s;
          this = this\<lparr>key_val := kv\<rparr>
      in if r \<ge> 0 \<and> sl_virtual s \<noteq> 0 then (r, this\<lparr>nvirtual := nvirtual this + 1\<rparr>) else (r, this))"

text \<open>A line that is no source line is appended to the header.\<close>

definition crlf :: cstring where
  "crlf = [CHR 0x0D, CHR 0x0A]"

definition sourcetable_add_unlocked :: "sourceline \<Rightarrow> sourcetable \<Rightarrow> cstring \<Rightarrow> int \<Rightarrow> int \<times> sourcetable" where
  "sourcetable_add_unlocked uninit this entry on_demand =
     (if take 4 entry = ''STR;'' then
        (case sourceline_new_parse uninit entry (case_option [] id (st_caster this)) (st_port this) (st_tls this) on_demand of
           None \<Rightarrow> (- 1, this)
         | Some n1 \<Rightarrow> sourcetable_add_direct this n1)
      else (0, this\<lparr>st_header := st_header this @ entry @ crlf\<rparr>))"

definition sourcetable_add :: "sourceline \<Rightarrow> sourcetable \<Rightarrow> cstring \<Rightarrow> int \<Rightarrow> int \<times> sourcetable" where
  "sourcetable_add uninit this entry on_demand = sourcetable_add_unlocked uninit this entry on_demand"

text \<open>\<open>sourcetable_read\<close> on the contents of the file; empty lines and comments are skipped.\<close>

fun read_lines :: "sourceline \<Rightarrow> sourcetable \<Rightarrow> cstring list \<Rightarrow> sourcetable option" where
  "read_lines uninit t [] = Some t"
| "read_lines uninit t (l # ls) =
     (let line = strip_eol l; p = dropWhile c_isspace line in
      if line = [] then read_lines uninit t ls
      else if p \<noteq> [] \<and> hd p = CHR ''#'' then read_lines uninit t ls
      else
        let (r, t') = sourcetable_add_unlocked uninit t line 0
        in if r < 0 then None else read_lines uninit t' ls)"

definition sourcetable_read :: "sourceline \<Rightarrow> cstring \<Rightarrow> cstring option \<Rightarrow> int \<Rightarrow> sourcetable option" where
  "sourcetable_read uninit filename contents priority = do {
     s \<leftarrow> contents;
     t \<leftarrow> sourcetable_new (Some ''LOCAL'') 0 0;
     read_lines uninit (t\<lparr>st_local := True, st_filename := Some filename, st_priority := priority\<rparr>)
       (strsep_tokens (\<lambda>c. c = CHR 0x0A) s)
   }"

text \<open>
  \<open>sourcetable_get\<close>: the size is computed in a first pass, then the text is built with
  \<open>strcat\<close> in a buffer of that size. The text and the length given to \<open>mime_new\<close>.
\<close>

definition ENDSOURCETABLE :: cstring where
  "ENDSOURCETABLE = ''ENDSOURCETABLE'' @ crlf"

fun append_lines :: "nat \<Rightarrow> cstring \<Rightarrow> sourceline element list \<Rightarrow> cstring option" where
  "append_lines len s [] = strcat_buf len s ENDSOURCETABLE"
| "append_lines len s (e # es) = do {
     s \<leftarrow> strcat_buf len s (sl_value (elem_value e));
     s \<leftarrow> strcat_buf len s crlf;
     append_lines len s es
   }"

definition sourcetable_get :: "sourcetable \<Rightarrow> (cstring \<times> nat) option" where
  "sourcetable_get this = do {
     es \<leftarrow> hash_foreach (key_val this);
     let len = length (st_header this) + 17 + (\<Sum>e \<leftarrow> es. length (sl_value (elem_value e)) + 2);
     ep \<leftarrow> hash_array (key_val this);
     s \<leftarrow> strcat_buf len [] (st_header this);
     s \<leftarrow> append_lines len s ep;
     Some (s, len - 1)
   }"

definition sourcetable_nentries :: "sourcetable \<Rightarrow> bool \<Rightarrow> int" where
  "sourcetable_nentries this omit_virtual = hash_len (key_val this) - (if omit_virtual then nvirtual this else 0)"

subsection \<open>Differences\<close>

datatype diff_log = Removed cstring | Added cstring

fun diff_loop :: "cstring list \<Rightarrow> cstring list \<Rightarrow> diff_log list" where
  "diff_loop (a # as) (b # bs) =
     (let c = c_strcmp a b in
      if c < 0 then Removed a # diff_loop as (b # bs)
      else if c > 0 then Added b # diff_loop (a # as) bs
      else diff_loop as bs)"
| "diff_loop as [] = map Removed as"
| "diff_loop [] bs = map Added bs"

definition sourcetable_diff :: "sourcetable \<Rightarrow> sourcetable \<Rightarrow> diff_log list option" where
  "sourcetable_diff t1 t2 = do {
     keys1 \<leftarrow> hash_array (key_val t1);
     keys2 \<leftarrow> hash_array (key_val t2);
     Some (diff_loop (map elem_key keys1) (map elem_key keys2))
   }"

subsection \<open>Distances to the bases of a table\<close>

record spos =
  sp_dist :: real
  sp_mountpoint :: cstring
  sp_pos :: pos_t
  sp_on_demand :: int

record dist_table =
  dt_pos :: pos_t
  dist_array :: "spos list"
  dt_capacity :: int
  dt_host :: "cstring option"
  dt_port :: "16 word"

definition dist_table_new :: "pos_t \<Rightarrow> int \<Rightarrow> cstring option \<Rightarrow> 16 word \<Rightarrow> dist_table" where
  "dist_table_new uninit_pos n host port =
     \<lparr>dt_pos = uninit_pos, dist_array = [], dt_capacity = n, dt_host = host, dt_port = port\<rparr>"

definition dist_table_add :: "dist_table \<Rightarrow> real \<Rightarrow> pos_t \<Rightarrow> cstring \<Rightarrow> int \<Rightarrow> dist_table option" where
  "dist_table_add this d pos mountpoint on_demand =
     (if int (length (dist_array this)) < dt_capacity this
      then Some (this\<lparr>dist_array := dist_array this @
        [\<lparr>sp_dist = d, sp_mountpoint = mountpoint, sp_pos = pos, sp_on_demand = on_demand\<rparr>]\<rparr>)
      else None)"

definition cmp_dist :: "spos \<Rightarrow> spos \<Rightarrow> int" where
  "cmp_dist p1 p2 = (if sp_dist p1 > sp_dist p2 then 1 else if sp_dist p1 < sp_dist p2 then - 1 else 0)"

fun add_distances :: "pos_t \<Rightarrow> dist_table \<Rightarrow> sourceline element list \<Rightarrow> dist_table option" where
  "add_distances pos d [] = Some d"
| "add_distances pos d (e # es) =
     (let np = elem_value e in
      if sl_virtual np = 0 then do {
        d \<leftarrow> dist_table_add d (distance (sl_pos np) pos) (sl_pos np) (sl_key np) (sl_on_demand np);
        add_distances pos d es
      }
      else add_distances pos d es)"

text \<open>\<open>qsort\<close> with \<open>_cmp_dist\<close>: an ascending order of the distances.\<close>

definition sourcetable_find_pos :: "sourcetable \<Rightarrow> pos_t \<Rightarrow> dist_table option" where
  "sourcetable_find_pos this pos = do {
     let n = sourcetable_nentries this True;
     let d = dist_table_new pos n (st_caster this) (st_port this);
     es \<leftarrow> hash_foreach (key_val this);
     d \<leftarrow> add_distances pos d es;
     Some (d\<lparr>dt_pos := pos, dist_array := sort_key sp_dist (dist_array d)\<rparr>)
   }"

definition sourcetable_find_mountpoint :: "sourcetable \<Rightarrow> cstring \<Rightarrow> sourceline option" where
  "sourcetable_find_mountpoint this mountpoint = hash_table_get (key_val this) mountpoint"

subsection \<open>The distance is a bounded symmetric function\<close>

lemma haversine_range: "0 \<le> haversine p1 p2 \<and> haversine p1 p2 \<le> 1"
proof -
  define a b where "a = pos_lat p1 * (pi / 180)" and "b = pos_lat p2 * (pi / 180)"
  define s where "s = sin ((pos_lon p2 - pos_lon p1) * (pi / 180) / 2) ^ 2"
  define h where "h = sin ((b - a) / 2) ^ 2"
  have e: "haversine p1 p2 = h + cos a * cos b * s"
    unfolding haversine_def Let_def h_def a_def b_def s_def power2_eq_square left_diff_distrib by (simp only: mult.assoc)
  have s: "0 \<le> s" "s \<le> 1" by (simp_all add: s_def abs_square_le_1)
  have h: "0 \<le> h" "h \<le> 1" by (simp_all add: h_def abs_square_le_1)
  have "2 * ((b - a) / 2) = b - a" by simp
  then have "cos (b - a) = 1 - 2 * h" using cos_double_sin[of "(b - a) / 2"] by (simp only: h_def)
  then have "2 * (h + cos a * cos b) = 1 + cos (a + b)" by (simp add: cos_add cos_diff algebra_simps)
  then have v: "h + cos a * cos b = (1 + cos (a + b)) / 2" by simp
  have "0 \<le> (1 + c) / 2 \<and> (1 + c) / 2 \<le> 1" if "c \<le> 1" "- 1 \<le> c" for c :: real using that by simp
  from this[OF cos_le_one cos_ge_minus_one] have one: "0 \<le> h + cos a * cos b" "h + cos a * cos b \<le> 1"
    unfolding v by blast+
  have c: "h + cos a * cos b * s = (1 - s) * h + s * (h + cos a * cos b)" by (simp add: algebra_simps)
  have "(1 - s) * h + s * (h + cos a * cos b) \<le> (1 - s) * 1 + s * 1"
    by (intro add_mono mult_left_mono) (use s h one in auto)
  moreover have "0 \<le> (1 - s) * h + s * (h + cos a * cos b)" using s h one by simp
  ultimately show ?thesis by (simp add: e c)
qed

lemma haversine_sym: "haversine p1 p2 = haversine p2 p1"
proof -
  have m: "sin ((x - y) * c / 2) = - sin ((y - x) * c / 2)" for x y c :: real
    by (metis minus_diff_eq mult_minus_left minus_divide_left sin_minus)
  show ?thesis
    unfolding haversine_def Let_def m[of "pos_lat p2"] m[of "pos_lon p2"] by (simp add: mult.commute)
qed

text \<open>
  the distance of two points is symmetric, zero for a point and itself, and between zero and
  half the circumference of the earth: the arguments of the square roots are never negative.
\<close>

lemma distance_bounds:
  "distance p1 p2 = distance p2 p1 \<and> distance p p = 0 \<and>
   0 \<le> distance p1 p2 \<and> distance p1 p2 \<le> pi * 6371000 \<and> 0 \<le> haversine p1 p2 \<and> 0 \<le> 1 - haversine p1 p2"
proof -
  define a where "a = haversine p1 p2"
  have a: "0 \<le> a" "a \<le> 1" using haversine_range by (simp_all add: a_def)
  have "0 \<le> c_atan2 (sqrt a) (sqrt (1 - a)) \<and> c_atan2 (sqrt a) (sqrt (1 - a)) \<le> pi / 2"
    using a arctan_bounded[of "sqrt a / sqrt (1 - a)"] by (auto simp: c_atan2_def)
  moreover have "distance p p = 0" by (simp add: distance_def haversine_def c_atan2_def)
  ultimately show ?thesis using a haversine_sym[of p1 p2]
    by (simp add: distance_def Let_def a_def[symmetric])
qed

subsection \<open>Well-formed tables\<close>

abbreviation lines_of :: "sourcetable \<Rightarrow> cstring \<Rightarrow> sourceline option" where
  "lines_of t \<equiv> hash_table_get (key_val t)"

definition virtual_keys :: "sourcetable \<Rightarrow> cstring set" where
  "virtual_keys t = {k. \<exists>n. lines_of t k = Some n \<and> sl_virtual n \<noteq> 0}"

definition st_inv :: "sourcetable \<Rightarrow> bool" where
  "st_inv t \<longleftrightarrow> hash_inv (key_val t) \<and> (\<forall>k n. lines_of t k = Some n \<longrightarrow> sl_key n = k) \<and>
     nvirtual t = int (card (virtual_keys t))"

lemma st_inv_hash [simp]: "st_inv t \<Longrightarrow> hash_inv (key_val t)"
  by (simp add: st_inv_def)

lemma st_inv_key: "st_inv t \<Longrightarrow> lines_of t k = Some n \<Longrightarrow> sl_key n = k"
  unfolding st_inv_def by blast

lemma st_inv_nvirtual: "st_inv t \<Longrightarrow> nvirtual t = int (card (virtual_keys t))"
  unfolding st_inv_def by blast

lemma virtual_keys_finite [simp]: "st_inv t \<Longrightarrow> finite (virtual_keys t)"
  by (rule finite_subset[OF _ hash.finite_keys[OF st_inv_hash]]) (auto simp: virtual_keys_def)

lemma sourcetable_new_ok:
  "\<exists>t. sourcetable_new host port tls = Some t \<and> st_inv t \<and> lines_of t = Map.empty \<and> st_caster t = host \<and>
     st_port t = port \<and> st_tls t = tls \<and> nvirtual t = 0 \<and> st_header t = []"
proof -
  obtain h :: "sourceline hash_table" where h: "hash_table_new True 509 = Some h" by (auto simp: hash_table_new_def)
  then have "hash_inv h" "hash_table_get h = Map.empty" using hash_table_new_correct by blast+
  with h show ?thesis by (simp add: sourcetable_new_def st_inv_def virtual_keys_def)
qed

text \<open>What adding a line gives: the table with the new line, or an error and the same table.\<close>

lemma add_direct_fresh:
  assumes inv: "st_inv t" and new: "lines_of t (sl_key s) = None"
  shows "\<exists>t'. sourcetable_add_direct t s = (0, t') \<and> st_inv t' \<and> lines_of t' = (lines_of t)(sl_key s \<mapsto> s) \<and>
    st_caster t' = st_caster t \<and> st_port t' = st_port t \<and> st_tls t' = st_tls t \<and> st_pullable t' = st_pullable t \<and>
    st_header t' = st_header t \<and> st_priority t' = st_priority t \<and> fetch_time t' = fetch_time t"
proof -
  obtain kv where kv: "hash_table_add True (key_val t) (sl_key s) s = (0, kv)" "hash_inv kv"
      "hash_table_get kv = (lines_of t)(sl_key s \<mapsto> s)"
    using hash.add_fresh[OF st_inv_hash[OF inv] new, of s] by (metis prod.collapse)
  have notin: "sl_key s \<notin> virtual_keys t" using new by (simp add: virtual_keys_def)
  have vk: "{k. \<exists>n. ((lines_of t)(sl_key s \<mapsto> s)) k = Some n \<and> sl_virtual n \<noteq> 0} =
      (if sl_virtual s \<noteq> 0 then insert (sl_key s) (virtual_keys t) else virtual_keys t)"
    using new by (auto simp: virtual_keys_def split: if_splits)
  show ?thesis
    using kv inv notin vk virtual_keys_finite[OF inv]
    by (auto simp: sourcetable_add_direct_def Let_def st_inv_def virtual_keys_def)
qed

lemma add_direct_present:
  "st_inv t \<Longrightarrow> lines_of t (sl_key s) \<noteq> None \<Longrightarrow> sourcetable_add_direct t s = (- 1, t)"
  using hash.add_present[of "key_val t" "sl_key s" s] by (simp add: sourcetable_add_direct_def Let_def)

lemma lines_of_iff:
  assumes "st_inv t"
  shows "lines_of t k = Some n \<longleftrightarrow> (\<exists>e \<in> set (hash_elements (key_val t)). elem_key e = k \<and> elem_value e = n)"
proof -
  have d: "distinct (map fst (map kv_pair (hash_elements (key_val t))))"
    using hash_keys_distinct[OF st_inv_hash[OF assms]] by simp
  show ?thesis
    unfolding hash_table_get_elements[OF st_inv_hash[OF assms]] map_of_eq_Some_iff[OF d]
    by (auto simp: kv_pair_def)
qed

lemma element_lines:
  assumes "st_inv t" "e \<in> set (hash_elements (key_val t))"
  shows "lines_of t (elem_key e) = Some (elem_value e) \<and> sl_key (elem_value e) = elem_key e"
proof -
  have "lines_of t (elem_key e) = Some (elem_value e)"
    unfolding lines_of_iff[OF assms(1)] by (rule bexI[OF _ assms(2)]) simp
  with st_inv_key[OF assms(1)] show ?thesis by blast
qed

subsection \<open>The text of a table\<close>

definition table_text :: "sourceline element list \<Rightarrow> cstring" where
  "table_text es = concat (map (\<lambda>e. sl_value (elem_value e) @ crlf) es)"

lemma length_crlf [simp]: "length crlf = 2" and length_ENDSOURCETABLE [simp]: "length ENDSOURCETABLE = 16"
  by (simp_all add: crlf_def ENDSOURCETABLE_def)

lemma append_lines_fits:
  "length s + length (table_text es) + 16 < len \<Longrightarrow> append_lines len s es = Some (s @ table_text es @ ENDSOURCETABLE)"
  by (induction es arbitrary: s) (simp_all add: table_text_def strcat_buf_def)

lemma length_table_text: "length (table_text es) = (\<Sum>e \<leftarrow> es. length (sl_value (elem_value e)) + 2)"
  by (induction es) (simp_all add: table_text_def)

text \<open>A table with one line, used by the witnesses.\<close>

definition demo_line :: "cstring \<Rightarrow> int \<Rightarrow> sourceline" where
  "demo_line key v = \<lparr>sl_key = key, sl_value = ''STR;'' @ key, sl_pos = \<lparr>pos_lat = 48, pos_lon = 2\<rparr>, sl_bps = 9600,
     sl_virtual = v, sl_on_demand = 0, sl_host = ''LOCAL'', sl_port = 0, sl_tls = 0\<rparr>"

definition demo_table :: "cstring \<Rightarrow> sourcetable" where
  "demo_table key = snd (sourcetable_add_direct (the (sourcetable_new (Some ''LOCAL'') 0 0)) (demo_line key 0))"

lemma demo_table_ok: "st_inv (demo_table key)" "lines_of (demo_table key) = [key \<mapsto> demo_line key 0]"
proof -
  obtain t where t: "sourcetable_new (Some ''LOCAL'') 0 0 = Some t" "st_inv t" "lines_of t = Map.empty"
    using sourcetable_new_ok by blast
  with add_direct_fresh[of t "demo_line key 0"]
  show "st_inv (demo_table key)" "lines_of (demo_table key) = [key \<mapsto> demo_line key 0]"
    by (auto simp: demo_table_def demo_line_def)
qed

text \<open>
  The text of a table is its header, the source lines in the order of the mountpoint names, each
  ended by CR LF, and the end mark; it fills the buffer whose size was computed before exactly, and
  the length that is announced is the length of the text.
\<close>

lemma sourcetable_get_correct:
  assumes "st_inv t"
  shows "\<exists>es. sourcetable_get t = Some (st_header t @ table_text es @ ENDSOURCETABLE, length (st_header t @ table_text es @ ENDSOURCETABLE)) \<and>
    sorted (map elem_key es) \<and> distinct (map elem_key es) \<and>
    (\<forall>k n. lines_of t k = Some n \<longleftrightarrow> (\<exists>e \<in> set es. elem_key e = k \<and> elem_value e = n))"
proof -
  let ?h = "hash_elements (key_val t)" and ?s = "sort_key elem_key (hash_elements (key_val t))"
  have m: "mset ?s = mset ?h" by simp
  have sum: "(\<Sum>e \<leftarrow> ?h. length (sl_value (elem_value e)) + 2) = length (table_text ?s)"
    unfolding length_table_text sum_mset_sum_list[symmetric] mset_map m ..
  have "distinct (map elem_key ?s)"
    using hash_keys_distinct[OF st_inv_hash[OF assms]] by (metis m mset_eq_imp_distinct_iff mset_map)
  moreover have "sourcetable_get t = Some (st_header t @ table_text ?s @ ENDSOURCETABLE, length (st_header t @ table_text ?s @ ENDSOURCETABLE))"
    unfolding sourcetable_get_def hash_foreach_eq[OF st_inv_hash[OF assms]] hash_array_eq[OF st_inv_hash[OF assms]]
      Option.bind_lunit Let_def sum
    by (simp add: strcat_buf_def append_lines_fits)
  ultimately show ?thesis using lines_of_iff[OF assms] by (intro exI[of _ ?s]) simp
qed

subsection \<open>Distances in a table\<close>

definition line_spos :: "pos_t \<Rightarrow> sourceline \<Rightarrow> spos" where
  "line_spos pos n = \<lparr>sp_dist = distance (sl_pos n) pos, sp_mountpoint = sl_key n, sp_pos = sl_pos n, sp_on_demand = sl_on_demand n\<rparr>"

abbreviation real_lines :: "sourceline element list \<Rightarrow> sourceline list" where
  "real_lines es \<equiv> filter (\<lambda>n. sl_virtual n = 0) (map elem_value es)"

lemma add_distances_fits:
  "int (length (dist_array d)) + int (length (real_lines es)) \<le> dt_capacity d \<Longrightarrow>
   add_distances pos d es = Some (d\<lparr>dist_array := dist_array d @ map (line_spos pos) (real_lines es)\<rparr>)"
proof (induction es arbitrary: d)
  case (Cons e es)
  show ?case
  proof (cases "sl_virtual (elem_value e) = 0")
    case True
    let ?n = "elem_value e"
    let ?d = "d\<lparr>dist_array := dist_array d @ [line_spos pos ?n]\<rparr>"
    have "dist_table_add d (distance (sl_pos ?n) pos) (sl_pos ?n) (sl_key ?n) (sl_on_demand ?n) = Some ?d"
      using Cons.prems True by (simp add: dist_table_add_def line_spos_def)
    moreover have "add_distances pos ?d es = Some (?d\<lparr>dist_array := dist_array ?d @ map (line_spos pos) (real_lines es)\<rparr>)"
      by (rule Cons.IH) (use Cons.prems True in simp)
    ultimately show ?thesis using True by (simp add: Let_def)
  next
    case False
    with Cons.IH[of d] Cons.prems show ?thesis by (simp add: Let_def)
  qed
qed simp

lemma real_lines_count:
  assumes "st_inv t"
  shows "int (length (real_lines (hash_elements (key_val t)))) = sourcetable_nentries t True"
proof -
  let ?es = "hash_elements (key_val t)"
  have d: "distinct (map elem_key (filter P ?es))" for P
    using hash_keys_distinct[OF st_inv_hash[OF assms]] by (simp add: distinct_map_filter)
  have "virtual_keys t = elem_key ` set (filter (\<lambda>e. sl_virtual (elem_value e) \<noteq> 0) ?es)"
    using lines_of_iff[OF assms] by (auto simp: virtual_keys_def)
  then have "card (virtual_keys t) = length (filter (\<lambda>e. sl_virtual (elem_value e) \<noteq> 0) ?es)"
    using distinct_card[OF d, of "\<lambda>e. sl_virtual (elem_value e) \<noteq> 0"] by simp
  moreover have "length ?es = length (filter (\<lambda>e. sl_virtual (elem_value e) \<noteq> 0) ?es) + length (real_lines ?es)"
    using sum_length_filter_compl[of "\<lambda>e. sl_virtual (elem_value e) \<noteq> 0" ?es] by (simp add: filter_map comp_def)
  moreover have "nentries (key_val t) = int (length ?es)" using hash_invD(4)[OF st_inv_hash[OF assms]] by simp
  ultimately show ?thesis by (simp add: sourcetable_nentries_def hash_len_def st_inv_nvirtual[OF assms])
qed

text \<open>
  The table of distances has room for every entry that is not virtual; it holds exactly these
  entries with their distances from the position and is in ascending order, so that its first
  entry is a closest base.
\<close>

lemma find_pos_sorted_lines:
  assumes "st_inv t"
  shows "\<exists>d. sourcetable_find_pos t pos = Some d \<and> dt_pos d = pos \<and>
    sorted (map sp_dist (dist_array d)) \<and> distinct (map sp_mountpoint (dist_array d)) \<and>
    set (dist_array d) = {line_spos pos n | n k. lines_of t k = Some n \<and> sl_virtual n = 0}"
proof -
  let ?es = "hash_elements (key_val t)"
  let ?a = "map (line_spos pos) (real_lines ?es)"
  let ?d = "(dist_table_new pos (sourcetable_nentries t True) (st_caster t) (st_port t))\<lparr>dt_pos := pos, dist_array := sort_key sp_dist ?a\<rparr>"
  have r: "sourcetable_find_pos t pos = Some ?d"
    using real_lines_count[OF assms]
    by (simp add: sourcetable_find_pos_def hash_foreach_eq[OF st_inv_hash[OF assms]] add_distances_fits dist_table_new_def)
  have "map sp_mountpoint ?a = map elem_key (filter (\<lambda>e. sl_virtual (elem_value e) = 0) ?es)"
    using element_lines[OF assms] by (auto simp: line_spos_def filter_map comp_def)
  then have "distinct (map sp_mountpoint ?a)"
    using hash_keys_distinct[OF st_inv_hash[OF assms]] by (simp add: distinct_map_filter)
  then have "distinct (map sp_mountpoint (sort_key sp_dist ?a))"
    by (metis mset_eq_imp_distinct_iff mset_map mset_sort)
  moreover have "set ?a = {line_spos pos n | n k. lines_of t k = Some n \<and> sl_virtual n = 0}"
    using lines_of_iff[OF assms] by auto
  ultimately show ?thesis using r by (intro exI[of _ ?d]) (simp add: dist_table_new_def)
qed

subsection \<open>Differences of tables\<close>

lemma diff_loop_correct:
  "sorted as \<Longrightarrow> distinct as \<Longrightarrow> sorted bs \<Longrightarrow> distinct bs \<Longrightarrow>
   set (diff_loop as bs) = Removed ` (set as - set bs) \<union> Added ` (set bs - set as) \<and> distinct (diff_loop as bs)"
proof (induction as bs rule: diff_loop.induct)
  case (1 a as b bs)
  consider "a < b" | "b < a" | "a = b" using less_linear by blast
  then show ?case
  proof cases
    case 1
    then have n: "a \<notin> set (b # bs)" "c_strcmp a b < 0" using "1.prems" by auto
    with "1.IH"(1)[OF refl n(2)] "1.prems" show ?thesis by (auto simp: Let_def)
  next
    case 2
    then have n: "b \<notin> set (a # as)" "\<not> c_strcmp a b < 0" "c_strcmp a b > 0" using "1.prems" by auto
    with "1.IH"(2)[OF refl n(2,3)] "1.prems" show ?thesis by (auto simp: Let_def)
  next
    case 3
    then have n: "\<not> c_strcmp a b < 0" "\<not> c_strcmp a b > 0" by auto
    with 3 "1.IH"(3)[OF refl n] "1.prems" show ?thesis by (auto simp: Let_def)
  qed
qed (auto simp: distinct_map inj_on_def)

text \<open>
  C38: the merge of the sorted mountpoint names reports each name that only the first table has as
  removed, each name that only the second has as added, and nothing else, each once.
\<close>

theorem sourcetable_diff_correct:
  assumes "st_inv t1" "st_inv t2"
  shows "\<exists>l. sourcetable_diff t1 t2 = Some l \<and> distinct l \<and>
    set l = Removed ` (dom (lines_of t1) - dom (lines_of t2)) \<union> Added ` (dom (lines_of t2) - dom (lines_of t1))"
proof -
  have k: "sorted (map elem_key (sort_key elem_key (hash_elements (key_val t))))
      \<and> distinct (map elem_key (sort_key elem_key (hash_elements (key_val t))))
      \<and> elem_key ` set (hash_elements (key_val t)) = dom (lines_of t)" if "st_inv t" for t
    using hash_keys_distinct[OF st_inv_hash[OF that]] hash_dom[OF st_inv_hash[OF that]]
    by (metis mset_eq_imp_distinct_iff mset_map mset_sort sorted_sort_key)
  show ?thesis
    using k[OF assms(1)] k[OF assms(2)]
      diff_loop_correct[of "map elem_key (sort_key elem_key (hash_elements (key_val t1)))"
        "map elem_key (sort_key elem_key (hash_elements (key_val t2)))"]
    by (simp add: sourcetable_diff_def hash_array_eq assms)
qed

theorem sourcetable_diff_correct_witness:
  "\<exists>l. sourcetable_diff (demo_table ''A'') (demo_table ''B'') = Some l \<and> distinct l \<and> set l = {Added ''B'', Removed ''A''}"
  using sourcetable_diff_correct[OF demo_table_ok(1) demo_table_ok(1), of "''A''" "''B''"] by (simp add: demo_table_ok)

end
