(* ===== verification/Source_Stack.thy ===== *)
theory Source_Stack
  imports Json_Data Sourcetable
begin

text \<open>
  The stack of sourcetables of \<^verbatim>\<open>caster/sourcetable.c\<close>. The caster keeps its tables in the order
  of decreasing priority, searches them for a mountpoint, flattens them into the table it serves and
  replaces a table when a new version is read, fetched or received from another node as JSON.

  Whether a mountpoint is live is the argument \<open>live\<close> of the operations that ask for it
  (\<open>livesource_exists\<close>). The differences that \<open>_stack_replace\<close> writes to the log are those of
  \<open>sourcetable_diff\<close>.
\<close>

subsection \<open>The stack\<close>

type_synonym live_test = "cstring \<Rightarrow> pos_t \<Rightarrow> bool"

fun stack_find_loop :: "live_test \<Rightarrow> sourcetable list \<Rightarrow> cstring \<Rightarrow> bool \<Rightarrow> sourceline option" where
  "stack_find_loop live [] mountpoint lcl = None"
| "stack_find_loop live (s # ss) mountpoint lcl =
     (if lcl \<and> \<not> is_LOCAL s then stack_find_loop live ss mountpoint lcl
      else case sourcetable_find_mountpoint s mountpoint of
        None \<Rightarrow> stack_find_loop live ss mountpoint lcl
      | Some np \<Rightarrow>
          if lcl \<or> \<not> is_LOCAL s \<or> sl_virtual np \<noteq> 0 \<or> live (sl_key np) (sl_pos np) then Some np
          else stack_find_loop live ss mountpoint lcl)"

definition stack_find :: "live_test \<Rightarrow> sourcetable list \<Rightarrow> cstring \<Rightarrow> bool \<Rightarrow> sourceline option" where
  "stack_find live stack mountpoint lcl = (if mountpoint = [] then None else stack_find_loop live stack mountpoint lcl)"

definition stack_find_mountpoint :: "live_test \<Rightarrow> sourcetable list \<Rightarrow> cstring \<Rightarrow> sourceline option" where
  "stack_find_mountpoint live stack mountpoint = stack_find live stack mountpoint False"

definition stack_find_local_mountpoint :: "live_test \<Rightarrow> sourcetable list \<Rightarrow> cstring \<Rightarrow> sourceline option" where
  "stack_find_local_mountpoint live stack mountpoint = stack_find live stack mountpoint True"

fun stack_find_pullable :: "sourcetable list \<Rightarrow> cstring \<Rightarrow> (sourceline \<times> sourcetable) option" where
  "stack_find_pullable [] mountpoint = None"
| "stack_find_pullable (s # ss) mountpoint =
     (if st_pullable s then
        (case sourcetable_find_mountpoint s mountpoint of
           Some np \<Rightarrow> Some (np, s)
         | None \<Rightarrow> stack_find_pullable ss mountpoint)
      else stack_find_pullable ss mountpoint)"

text \<open>\<open>_stack_replace\<close>: the first table that matches is removed, the new one inserted by priority.\<close>

definition replace_match :: "cstring option \<Rightarrow> 16 word \<Rightarrow> bool \<Rightarrow> sourcetable \<Rightarrow> bool" where
  "replace_match host port lcl s \<longleftrightarrow>
     (lcl \<and> st_local s \<and> st_filename s \<noteq> None) \<or> (host \<noteq> None \<and> st_caster s = host \<and> st_port s = port)"

fun remove_first :: "('a \<Rightarrow> bool) \<Rightarrow> 'a list \<Rightarrow> 'a list" where
  "remove_first p [] = []"
| "remove_first p (x # xs) = (if p x then xs else x # remove_first p xs)"

fun insert_priority :: "sourcetable \<Rightarrow> sourcetable list \<Rightarrow> sourcetable list" where
  "insert_priority t [] = [t]"
| "insert_priority t (s # ss) = (if st_priority t \<ge> st_priority s then t # s # ss else s # insert_priority t ss)"

definition timercmp_less :: "timeval \<Rightarrow> timeval \<Rightarrow> bool" where
  "timercmp_less a b \<longleftrightarrow> (if fst a = fst b then snd a < snd b else fst a < fst b)"

definition stack_replace ::
  "sourcetable list \<Rightarrow> cstring option \<Rightarrow> 16 word \<Rightarrow> sourcetable option \<Rightarrow> bool \<Rightarrow> bool \<Rightarrow> sourcetable list" where
  "stack_replace stack host port new compare_tv lcl =
     (let m = replace_match host port lcl;
          (stack, new) =
            (case find m stack of
               None \<Rightarrow> (stack, new)
             | Some r \<Rightarrow>
                 (case new of
                    None \<Rightarrow> (remove_first m stack, new)
                  | Some t \<Rightarrow>
                      if \<not> compare_tv \<or> timercmp_less (fetch_time r) (fetch_time t)
                      then (remove_first m stack, new) else (stack, None)))
      in case new of None \<Rightarrow> stack | Some t \<Rightarrow> insert_priority t stack)"

definition stack_replace_host ::
  "sourcetable list \<Rightarrow> cstring \<Rightarrow> 16 word \<Rightarrow> sourcetable option \<Rightarrow> sourcetable list" where
  "stack_replace_host stack host port new = stack_replace stack (Some host) port new False False"

definition stack_replace_local :: "sourcetable list \<Rightarrow> sourcetable option \<Rightarrow> sourcetable list" where
  "stack_replace_local stack new = stack_replace stack None 0 new False True"

subsection \<open>Flattening the stack\<close>

fun flatten_table ::
  "live_test \<Rightarrow> pos_t option \<Rightarrow> real \<Rightarrow> bool \<Rightarrow> sourcetable \<Rightarrow> sourceline element list \<Rightarrow> sourcetable option" where
  "flatten_table live pos max_dist local_table r [] = Some r"
| "flatten_table live pos max_dist local_table r (e # es) =
     (let sp = elem_value e in
      if local_table \<and> sl_virtual sp = 0 \<and> \<not> live (sl_key sp) (sl_pos sp)
      then flatten_table live pos max_dist local_table r es
      else if hash_table_get_element (key_val r) (sl_key sp) = None
        \<and> (case pos of None \<Rightarrow> True | Some p \<Rightarrow> distance (sl_pos sp) p < max_dist)
      then
        let (st, r') = sourcetable_add_direct r sp
        in if st < 0 then None else flatten_table live pos max_dist local_table r' es
      else flatten_table live pos max_dist local_table r es)"

fun flatten_stack ::
  "live_test \<Rightarrow> pos_t option \<Rightarrow> real \<Rightarrow> sourcetable \<Rightarrow> sourcetable list \<Rightarrow> sourcetable option" where
  "flatten_stack live pos max_dist r [] = Some r"
| "flatten_stack live pos max_dist r (s # ss) = do {
     es \<leftarrow> hash_foreach (key_val s);
     let r = (if is_LOCAL s then r\<lparr>st_header := st_header s\<rparr> else r);
     r \<leftarrow> flatten_table live pos max_dist (is_LOCAL s) r es;
     flatten_stack live pos max_dist r ss
   }"

definition stack_flatten_dist ::
  "live_test \<Rightarrow> sourcetable list \<Rightarrow> pos_t option \<Rightarrow> real \<Rightarrow> sourcetable option" where
  "stack_flatten_dist live stack pos max_dist = do {
     r \<leftarrow> sourcetable_new None 0 0;
     flatten_stack live pos max_dist r stack
   }"

definition stack_flatten :: "live_test \<Rightarrow> sourcetable list \<Rightarrow> sourcetable option" where
  "stack_flatten live stack = stack_flatten_dist live stack None 0"

subsection \<open>Tables as JSON\<close>

text \<open>\<open>strftime\<close> is the date and time that \<open>gmtime_r\<close> and \<open>strftime\<close> make of the seconds, see \<open>iso_date_from_timeval\<close>.\<close>

definition bool_int :: "bool \<Rightarrow> int" where
  "bool_int b = (if b then 1 else 0)"

text \<open>The field that \<open>timeval_to_json\<close> adds to an object.\<close>

definition timeval_to_json :: "(int \<Rightarrow> cstring) \<Rightarrow> timeval \<Rightarrow> cstring \<Rightarrow> cstring \<times> json" where
  "timeval_to_json strftime t json_key = (json_key, JString (iso_date_from_timeval strftime t))"

definition sourceline_json :: "sourceline \<Rightarrow> json" where
  "sourceline_json n = JObject [(''str'', JString (sl_value n)), (''lat'', JDouble (pos_lat (sl_pos n))),
     (''lon'', JDouble (pos_lon (sl_pos n))), (''virtual'', JBool (sl_virtual n \<noteq> 0))]"

definition sourcetable_json :: "(int \<Rightarrow> cstring) \<Rightarrow> sourcetable \<Rightarrow> json option" where
  "sourcetable_json strftime this = do {
     host \<leftarrow> st_caster this;
     es \<leftarrow> hash_foreach (key_val this);
     Some (JObject (
       [(''host'', JString host), (''port'', JInt (uint (st_port this))), (''tls'', JBool (st_tls this \<noteq> 0)),
        (''pullable'', JBool (st_pullable this)), (''priority'', JInt (st_priority this))] @
       (if \<not> is_LOCAL this then [timeval_to_json strftime (fetch_time this) ''fetch_time''] else []) @
       [(''mountpoints'', JObject (map (\<lambda>e. (sl_key (elem_value e), sourceline_json (elem_value e))) es))]))
   }"

definition sourcetable_list_json :: "(int \<Rightarrow> cstring) \<Rightarrow> sourcetable list \<Rightarrow> json option" where
  "sourcetable_list_json strftime stack =
     map_option JArray (those (map (sourcetable_json strftime) stack))"

fun add_sources :: "json_api \<Rightarrow> sourceline \<Rightarrow> sourcetable \<Rightarrow> json list \<Rightarrow> sourcetable option" where
  "add_sources api uninit t [] = Some t"
| "add_sources api uninit t (source # r) =
     (case Option.bind (obj_get api source ''str'') (get_string api) of
        None \<Rightarrow> None
      | Some str \<Rightarrow>
          let (st, t') = sourcetable_add_unlocked uninit t str (bool_int (st_pullable t))
          in if st < 0 then None else add_sources api uninit t' r)"

definition sourcetable_from_json ::
  "json_api \<Rightarrow> (cstring \<Rightarrow> int option) \<Rightarrow> sourceline \<Rightarrow> json \<Rightarrow> sourcetable option" where
  "sourcetable_from_json api strptime uninit j = do {
     jhost \<leftarrow> obj_get api j ''host'';
     jport \<leftarrow> obj_get api j ''port'';
     jdate \<leftarrow> obj_get api j ''fetch_time'';
     jpull \<leftarrow> obj_get api j ''pullable'';
     tlist \<leftarrow> obj_get api j ''mountpoints'';
     date \<leftarrow> get_string api jdate;
     t \<leftarrow> sourcetable_new (get_string api jhost) (word_of_int (get_int api jport))
            (case obj_get api j ''tls'' of None \<Rightarrow> 0 | Some b \<Rightarrow> bool_int (get_boolean api b));
     let t = t\<lparr>st_pullable := get_boolean api jpull,
               st_priority := (case obj_get api j ''priority'' of None \<Rightarrow> 0 | Some p \<Rightarrow> get_int api p),
               fetch_time := (case timeval_from_iso_date strptime date of None \<Rightarrow> fetch_time t | Some tv \<Rightarrow> tv)\<rparr>;
     add_sources api uninit t (map snd (obj_fields api tlist))
   }"

text \<open>The received table replaces an older one of the same host and port.\<close>

definition sourcetable_update_execute ::
  "json_api \<Rightarrow> (cstring \<Rightarrow> int option) \<Rightarrow> sourceline \<Rightarrow> sourcetable list \<Rightarrow> json \<Rightarrow> int \<times> sourcetable list" where
  "sourcetable_update_execute api strptime uninit stack j =
     (case sourcetable_from_json api strptime uninit j of
        None \<Rightarrow> (200, stack)
      | Some s \<Rightarrow> (200, stack_replace stack (st_caster s) (st_port s) (Some s) True False))"

subsection \<open>Replacing a table\<close>

definition table_id :: "sourcetable \<Rightarrow> cstring option \<times> 16 word" where
  "table_id s = (st_caster s, st_port s)"

text \<open>The stack is in the order of decreasing priority and has one table for a host and port.\<close>

definition stack_ok :: "sourcetable list \<Rightarrow> bool" where
  "stack_ok stack \<longleftrightarrow> sorted_wrt (\<lambda>s t. st_priority t \<le> st_priority s) stack \<and> distinct (map table_id stack)"

lemma set_insert_priority [simp]: "set (insert_priority t ss) = insert t (set ss)"
  by (induction ss) auto

lemma insert_priority_sorted:
  "sorted_wrt (\<lambda>s t. st_priority t \<le> st_priority s) ss \<Longrightarrow>
   sorted_wrt (\<lambda>s t. st_priority t \<le> st_priority s) (insert_priority t ss)"
  by (induction ss) auto

lemma insert_priority_distinct:
  "distinct (map table_id ss) \<Longrightarrow> table_id t \<notin> table_id ` set ss \<Longrightarrow> distinct (map table_id (insert_priority t ss))"
  by (induction ss) auto

lemma insert_priority_others: "\<not> P t \<Longrightarrow> filter P (insert_priority t ss) = filter P ss"
  by (induction ss) auto

lemma insert_priority_only: "P t \<Longrightarrow> filter P ss = [] \<Longrightarrow> filter P (insert_priority t ss) = [t]"
  by (induction ss) (auto split: if_splits)

lemma remove_first_others: "filter (\<lambda>s. \<not> P s) (remove_first P ss) = filter (\<lambda>s. \<not> P s) ss"
  by (induction ss) auto

lemma remove_first_sublist: "sorted_wrt R ss \<Longrightarrow> sorted_wrt R (remove_first P ss)" "set (remove_first P ss) \<subseteq> set ss"
  by (induction ss) auto

lemma remove_first_distinct: "distinct (map f ss) \<Longrightarrow> distinct (map f (remove_first P ss))"
  by (induction ss) (use remove_first_sublist(2) in fastforce)+

lemma remove_first_match:
  "distinct (map table_id ss) \<Longrightarrow> filter (\<lambda>s. table_id s = i) (remove_first (\<lambda>s. table_id s = i) ss) = []"
  by (induction ss) (auto simp: filter_empty_conv image_iff)

lemma replace_match_host: "replace_match (Some host) port False = (\<lambda>s. table_id s = (Some host, port))"
  by (auto simp: replace_match_def table_id_def fun_eq_iff)

lemma find_match:
  assumes "distinct (map table_id ss)" "find (\<lambda>s. table_id s = i) ss = Some r"
  shows "filter (\<lambda>s. table_id s = i) ss = [r]"
proof -
  have "(\<forall>r. find (\<lambda>s. table_id s = i) ss = Some r \<longrightarrow> filter (\<lambda>s. table_id s = i) ss = [r])"
    using assms(1) by (induction ss) (auto simp: filter_empty_conv image_iff)
  with assms(2) show ?thesis by blast
qed

text \<open>
  C30: replacing the table of a host and port keeps the stack in the order of decreasing priority with
  one table for a host and port; the other tables and their order do not change; the new table takes
  the place of the old one, except that a table that is not older than the received one is kept
  when fetch times are compared.
\<close>

theorem stack_replace_correct:
  assumes "stack_ok stack" "\<forall>t. new = Some t \<longrightarrow> table_id t = (Some host, port)"
  shows "stack_ok (stack_replace stack (Some host) port new cmp False) \<and>
    filter (\<lambda>s. table_id s \<noteq> (Some host, port)) (stack_replace stack (Some host) port new cmp False) =
      filter (\<lambda>s. table_id s \<noteq> (Some host, port)) stack \<and>
    filter (\<lambda>s. table_id s = (Some host, port)) (stack_replace stack (Some host) port new cmp False) =
      (case (find (\<lambda>s. table_id s = (Some host, port)) stack, new) of
         (_, None) \<Rightarrow> []
       | (None, Some t) \<Rightarrow> [t]
       | (Some r, Some t) \<Rightarrow> [if cmp \<and> \<not> timercmp_less (fetch_time r) (fetch_time t) then r else t])"
proof -
  let ?m = "\<lambda>s. table_id s = (Some host, port)"
  from assms(1) have ok: "sorted_wrt (\<lambda>s t. st_priority t \<le> st_priority s) stack" "distinct (map table_id stack)"
    by (simp_all add: stack_ok_def)
  have ins: "stack_ok (insert_priority t ss) \<and> filter (\<lambda>s. \<not> ?m s) (insert_priority t ss) = filter (\<lambda>s. \<not> ?m s) ss \<and>
      filter ?m (insert_priority t ss) = [t]"
    if "new = Some t" "stack_ok ss" "filter ?m ss = []" for t ss
  proof -
    have t: "table_id t = (Some host, port)" using assms(2) that(1) by blast
    then have "table_id t \<notin> table_id ` set ss" using that(3) by (auto simp: filter_empty_conv)
    then show ?thesis
      using t that(2,3) insert_priority_sorted insert_priority_distinct[of ss t]
      by (simp add: stack_ok_def insert_priority_others insert_priority_only)
  qed
  have rem: "stack_ok (remove_first ?m stack)"
    using ok remove_first_sublist(1) remove_first_distinct by (auto simp: stack_ok_def)
  note parts = remove_first_others[of ?m stack] remove_first_match[OF ok(2), of "(Some host, port)"]
  show ?thesis
  proof (cases "find ?m stack")
    case None
    then have "filter ?m stack = []" by (auto simp: find_None_iff filter_empty_conv)
    with None ins[OF _ assms(1)] assms(1) show ?thesis
      by (cases new) (simp_all add: stack_replace_def replace_match_host Let_def)
  next
    case (Some r)
    note f = find_match[OF ok(2) Some]
    show ?thesis
    proof (cases new)
      case None
      with Some rem parts show ?thesis by (simp add: stack_replace_def replace_match_host Let_def)
    next
      case n: (Some t)
      show ?thesis
      proof (cases "cmp \<and> \<not> timercmp_less (fetch_time r) (fetch_time t)")
        case True
        with n Some f assms(1) show ?thesis by (simp add: stack_replace_def replace_match_host Let_def)
      next
        case False
        with n Some ins[OF n rem parts(2)] parts show ?thesis
          by (auto simp: stack_replace_def replace_match_host Let_def)
      qed
    qed
  qed
qed

lemma demo_table_head:
  "st_caster (demo_table key) = Some ''LOCAL''" "st_port (demo_table key) = 0" "st_priority (demo_table key) = 0"
  "fetch_time (demo_table key) = (0, 0)"
  by (simp_all add: demo_table_def sourcetable_add_direct_def sourcetable_new_def hash_table_new_def Let_def split_beta)

theorem stack_replace_correct_witness:
  "let new = (demo_table ''B'')\<lparr>fetch_time := (1, 0), st_priority := 1\<rparr>;
       other = (demo_table ''C'')\<lparr>st_port := 2101\<rparr>;
       stack = stack_replace [demo_table ''A'', other] (Some ''LOCAL'') 0 (Some new) True False
   in stack_ok stack \<and> filter (\<lambda>s. table_id s \<noteq> (Some ''LOCAL'', 0)) stack = [other] \<and>
     filter (\<lambda>s. table_id s = (Some ''LOCAL'', 0)) stack = [new]"
  using stack_replace_correct[of "[demo_table ''A'', (demo_table ''C'')\<lparr>st_port := 2101\<rparr>]"
      "Some ((demo_table ''B'')\<lparr>fetch_time := (1, 0), st_priority := 1\<rparr>)" "''LOCAL''" 0 True]
  by (simp add: Let_def stack_ok_def table_id_def demo_table_head timercmp_less_def)

subsection \<open>The flattened table\<close>

text \<open>
  A line of the table is served if the table is not the local one, or the line is virtual or live,
  and it is near enough.
\<close>

definition served :: "live_test \<Rightarrow> pos_t option \<Rightarrow> real \<Rightarrow> bool \<Rightarrow> sourceline \<Rightarrow> bool" where
  "served live pos max_dist local_table sp \<longleftrightarrow>
     (local_table \<longrightarrow> sl_virtual sp \<noteq> 0 \<or> live (sl_key sp) (sl_pos sp)) \<and>
     (case pos of None \<Rightarrow> True | Some p \<Rightarrow> distance (sl_pos sp) p < max_dist)"

text \<open>The line of the first table of the stack that serves the mountpoint.\<close>

fun first_served :: "live_test \<Rightarrow> pos_t option \<Rightarrow> real \<Rightarrow> sourcetable list \<Rightarrow> cstring \<Rightarrow> sourceline option" where
  "first_served live pos max_dist [] k = None"
| "first_served live pos max_dist (s # ss) k =
     (case lines_of s k of
        Some n \<Rightarrow> if served live pos max_dist (is_LOCAL s) n then Some n else first_served live pos max_dist ss k
      | None \<Rightarrow> first_served live pos max_dist ss k)"

lemma flatten_table_step:
  "flatten_table live pos max_dist lt r (e # es) =
     (if served live pos max_dist lt (elem_value e) \<and> lines_of r (sl_key (elem_value e)) = None
      then (case sourcetable_add_direct r (elem_value e) of
              (st, r') \<Rightarrow> if st < 0 then None else flatten_table live pos max_dist lt r' es)
      else flatten_table live pos max_dist lt r es)"
proof -
  have "(hash_table_get_element h k = None) = (hash_table_get h k = None)" for h :: "sourceline hash_table" and k
    by (simp add: hash_table_get_def split: option.split)
  then show ?thesis by (auto simp: served_def Let_def split: option.splits)
qed

lemma flatten_table_correct:
  assumes "st_inv r" "\<forall>e \<in> set es. sl_key (elem_value e) = elem_key e"
  shows "\<exists>r'. flatten_table live pos max_dist lt r es = Some r' \<and> st_inv r' \<and>
    lines_of r' = map_of (map kv_pair (filter (\<lambda>e. served live pos max_dist lt (elem_value e)) es)) ++ lines_of r"
  using assms
proof (induction es arbitrary: r)
  case (Cons e es)
  let ?n = "elem_value e"
  have key: "sl_key ?n = elem_key e" using Cons.prems(2) by simp
  show ?case
  proof (cases "served live pos max_dist lt ?n \<and> lines_of r (sl_key ?n) = None")
    case True
    then obtain r1 where r1: "sourcetable_add_direct r ?n = (0, r1)" "st_inv r1" "lines_of r1 = (lines_of r)(sl_key ?n \<mapsto> ?n)"
      using add_direct_fresh[OF Cons.prems(1), of ?n] by blast
    have es: "\<forall>e \<in> set es. sl_key (elem_value e) = elem_key e" using Cons.prems(2) by simp
    from Cons.IH[OF r1(2) es] obtain r2 where
      r2: "flatten_table live pos max_dist lt r1 es = Some r2" "st_inv r2"
        "lines_of r2 = map_of (map kv_pair (filter (\<lambda>e. served live pos max_dist lt (elem_value e)) es)) ++ lines_of r1" by blast
    have "lines_of r2 k = (map_of (map kv_pair (filter (\<lambda>e. served live pos max_dist lt (elem_value e)) (e # es))) ++ lines_of r) k" for k
      using True key by (auto simp: r1(3) r2(3) map_add_def split: option.split)
    then have "lines_of r2 = map_of (map kv_pair (filter (\<lambda>e. served live pos max_dist lt (elem_value e)) (e # es))) ++ lines_of r" by blast
    moreover have "flatten_table live pos max_dist lt r (e # es) = Some r2"
      using True r1(1) r2(1) by (simp add: flatten_table_step del: flatten_table.simps)
    ultimately show ?thesis using r2(2) by blast
  next
    case False
    have es: "\<forall>e \<in> set es. sl_key (elem_value e) = elem_key e" using Cons.prems(2) by simp
    have "(map_of (map kv_pair (filter (\<lambda>e. served live pos max_dist lt (elem_value e)) (e # es))) ++ lines_of r) k =
        (map_of (map kv_pair (filter (\<lambda>e. served live pos max_dist lt (elem_value e)) es)) ++ lines_of r) k" for k
      using False key by (auto simp: map_add_def split: option.split)
    then have m: "map_of (map kv_pair (filter (\<lambda>e. served live pos max_dist lt (elem_value e)) (e # es))) ++ lines_of r =
        map_of (map kv_pair (filter (\<lambda>e. served live pos max_dist lt (elem_value e)) es)) ++ lines_of r" by blast
    have "flatten_table live pos max_dist lt r (e # es) = flatten_table live pos max_dist lt r es"
      unfolding flatten_table_step if_not_P[OF False] ..
    with Cons.IH[OF Cons.prems(1) es] show ?thesis unfolding m by (simp only:)
  qed
qed simp

lemma map_of_served:
  assumes "st_inv s"
  shows "map_of (map kv_pair (filter (\<lambda>e. P (elem_value e)) (hash_elements (key_val s)))) k =
    (case lines_of s k of Some n \<Rightarrow> if P n then Some n else None | None \<Rightarrow> None)"
proof -
  have "distinct (map elem_key es) \<Longrightarrow> map_of (map kv_pair (filter (\<lambda>e. P (elem_value e)) es)) k =
    (case map_of (map kv_pair es) k of Some n \<Rightarrow> if P n then Some n else None | None \<Rightarrow> None)" for es :: "sourceline element list"
  proof (induction es)
    case (Cons e es)
    then have "elem_key e = k \<Longrightarrow> map_of (map kv_pair es) k = None" using map_of_kv_None[of es k] by simp
    with Cons show ?case by auto
  qed simp
  from this[OF hash_keys_distinct[OF st_inv_hash[OF assms]]] show ?thesis
    by (simp add: hash_table_get_elements[OF st_inv_hash[OF assms]])
qed

lemma flatten_stack_correct:
  assumes "st_inv r" "\<forall>s \<in> set ss. st_inv s"
  shows "\<exists>r'. flatten_stack live pos max_dist r ss = Some r' \<and> st_inv r' \<and>
    (\<forall>k. lines_of r' k = (case lines_of r k of Some n \<Rightarrow> Some n | None \<Rightarrow> first_served live pos max_dist ss k))"
  using assms
proof (induction ss arbitrary: r)
  case (Cons s ss)
  from Cons.prems have s: "st_inv s" and ss: "\<forall>s \<in> set ss. st_inv s" by auto
  define r0 where "r0 = (if is_LOCAL s then r\<lparr>st_header := st_header s\<rparr> else r)"
  have r0: "st_inv r0" "lines_of r0 = lines_of r" using Cons.prems(1) by (auto simp: r0_def st_inv_def virtual_keys_def)
  from flatten_table_correct[OF r0(1), of "hash_elements (key_val s)" live pos max_dist "is_LOCAL s"] element_lines[OF s]
  obtain r1 where r1: "flatten_table live pos max_dist (is_LOCAL s) r0 (hash_elements (key_val s)) = Some r1" "st_inv r1"
    "lines_of r1 = map_of (map kv_pair (filter (\<lambda>e. served live pos max_dist (is_LOCAL s) (elem_value e)) (hash_elements (key_val s)))) ++ lines_of r0"
    by blast
  from Cons.IH[OF r1(2) ss] obtain r2 where
    r2: "flatten_stack live pos max_dist r1 ss = Some r2" "st_inv r2"
      "\<forall>k. lines_of r2 k = (case lines_of r1 k of Some n \<Rightarrow> Some n | None \<Rightarrow> first_served live pos max_dist ss k)" by blast
  have "flatten_stack live pos max_dist r (s # ss) = Some r2"
    using r1(1) r2(1) by (simp add: hash_foreach_eq[OF st_inv_hash[OF s]] r0_def Let_def)
  moreover have "lines_of r2 k = (case lines_of r k of Some n \<Rightarrow> Some n | None \<Rightarrow> first_served live pos max_dist (s # ss) k)" for k
    using r2(3) unfolding r1(3) map_add_def map_of_served[OF s] r0(2) by (auto split: option.split)
  ultimately show ?case using r2(2) by blast
qed (auto split: option.split)

lemma first_served_find: "first_served live None d ss k = stack_find_loop live ss k False"
  by (induction ss) (auto simp: served_def sourcetable_find_mountpoint_def split: option.split)

text \<open>
  C8: flattening a stack of well-formed tables succeeds and gives a well-formed table that has, for
  every mountpoint, the line that the search of the stack finds for a client: the line of the
  table of highest priority that serves it. With a position, the line is that of the first table that
  serves the mountpoint within the maximal distance.
\<close>

theorem stack_flatten_correct:
  assumes "\<forall>s \<in> set stack. st_inv s"
  shows "(\<exists>r. stack_flatten live stack = Some r \<and> st_inv r \<and>
      (\<forall>k. k \<noteq> [] \<longrightarrow> sourcetable_find_mountpoint r k = stack_find_mountpoint live stack k)) \<and>
    (\<exists>r. stack_flatten_dist live stack (Some p) max_dist = Some r \<and> st_inv r \<and>
      (\<forall>k. sourcetable_find_mountpoint r k = first_served live (Some p) max_dist stack k))"
proof -
  obtain r0 where r0: "sourcetable_new None 0 0 = Some r0" "st_inv r0" "lines_of r0 = Map.empty"
    using sourcetable_new_ok by blast
  from flatten_stack_correct[OF r0(2) assms, of live None 0] flatten_stack_correct[OF r0(2) assms, of live "Some p" max_dist]
  show ?thesis
    by (auto simp: stack_flatten_def stack_flatten_dist_def r0 sourcetable_find_mountpoint_def stack_find_mountpoint_def
        stack_find_def first_served_find)
qed

theorem stack_flatten_correct_witness:
  "\<exists>r. stack_flatten (\<lambda>_ _. True) [demo_table ''A''] = Some r \<and> st_inv r \<and>
      sourcetable_find_mountpoint r ''A'' = stack_find_mountpoint (\<lambda>_ _. True) [demo_table ''A''] ''A''"
proof -
  have "\<forall>s \<in> set [demo_table ''A'']. st_inv s" by (simp add: demo_table_ok)
  from stack_flatten_correct[OF this, of "\<lambda>_ _. True"] obtain r where
    "stack_flatten (\<lambda>_ _. True) [demo_table ''A''] = Some r" "st_inv r"
    "\<forall>k. k \<noteq> [] \<longrightarrow> sourcetable_find_mountpoint r k = stack_find_mountpoint (\<lambda>_ _. True) [demo_table ''A''] k" by blast
  then show ?thesis by (metis list.distinct(1))
qed

subsection \<open>A table sent to another node\<close>

text \<open>
  Every line of the table is what its text parses to on the node that receives it.
\<close>

definition lines_canonical :: "sourceline \<Rightarrow> sourcetable \<Rightarrow> bool" where
  "lines_canonical uninit t \<longleftrightarrow> (\<forall>k n. lines_of t k = Some n \<longrightarrow>
     sourceline_new_parse uninit (sl_value n) (case_option [] id (st_caster t)) (st_port t) (st_tls t) (bool_int (st_pullable t)) = Some n)"

lemma add_unlocked_parsed:
  "sourceline_new_parse uninit entry (case_option [] id (st_caster t)) (st_port t) (st_tls t) od = Some n \<Longrightarrow>
   sourcetable_add_unlocked uninit t entry od = sourcetable_add_direct t n"
  by (auto simp: sourcetable_add_unlocked_def sourceline_new_parse_def)

abbreviation same_attrs :: "sourcetable \<Rightarrow> sourcetable \<Rightarrow> bool" where
  "same_attrs t' t \<equiv> st_caster t' = st_caster t \<and> st_port t' = st_port t \<and> st_tls t' = st_tls t \<and>
     st_pullable t' = st_pullable t \<and> st_priority t' = st_priority t \<and> fetch_time t' = fetch_time t"

lemma add_sources_correct:
  assumes api: "json_api_ok api"
  shows "st_inv t \<Longrightarrow> distinct (map sl_key ns) \<Longrightarrow> \<forall>n \<in> set ns. lines_of t (sl_key n) = None \<Longrightarrow>
    \<forall>n \<in> set ns. sourceline_new_parse uninit (sl_value n) (case_option [] id (st_caster t)) (st_port t) (st_tls t)
      (bool_int (st_pullable t)) = Some n \<Longrightarrow>
    \<exists>t'. add_sources api uninit t (map sourceline_json ns) = Some t' \<and> st_inv t' \<and> same_attrs t' t \<and>
      lines_of t' = lines_of t ++ map_of (map (\<lambda>n. (sl_key n, n)) ns)"
proof (induction ns arbitrary: t)
  case (Cons n ns)
  have str: "Option.bind (obj_get api (sourceline_json n) ''str'') (get_string api) = Some (sl_value n)"
    by (simp add: sourceline_json_def json_read[OF api])
  have n: "lines_of t (sl_key n) = None" using Cons.prems(3) by simp
  from add_direct_fresh[OF Cons.prems(1) n] obtain t1 where
    t1: "sourcetable_add_direct t n = (0, t1)" "st_inv t1" "lines_of t1 = (lines_of t)(sl_key n \<mapsto> n)" "same_attrs t1 t"
    by blast
  have add: "sourcetable_add_unlocked uninit t (sl_value n) (bool_int (st_pullable t)) = (0, t1)"
    using add_unlocked_parsed t1(1) Cons.prems(4) by (metis list.set_intros(1))
  have "\<exists>t'. add_sources api uninit t1 (map sourceline_json ns) = Some t' \<and> st_inv t' \<and> same_attrs t' t1 \<and>
      lines_of t' = lines_of t1 ++ map_of (map (\<lambda>n. (sl_key n, n)) ns)"
  proof (rule Cons.IH[OF t1(2)])
    show "distinct (map sl_key ns)" using Cons.prems(2) by simp
    show "\<forall>n \<in> set ns. lines_of t1 (sl_key n) = None" using Cons.prems(2,3) by (auto simp: t1(3) image_iff)
    show "\<forall>n \<in> set ns. sourceline_new_parse uninit (sl_value n) (case_option [] id (st_caster t1)) (st_port t1) (st_tls t1)
      (bool_int (st_pullable t1)) = Some n" using Cons.prems(4) t1(4) by simp
  qed
  then obtain t2 where t2: "add_sources api uninit t1 (map sourceline_json ns) = Some t2" "st_inv t2" "same_attrs t2 t1"
      "lines_of t2 = lines_of t1 ++ map_of (map (\<lambda>n. (sl_key n, n)) ns)" by blast
  have fresh: "map_of (map (\<lambda>n. (sl_key n, n)) ns) (sl_key n) = None"
    using Cons.prems(2) by (auto simp: map_of_eq_None_iff)
  have "lines_of t2 = lines_of t ++ map_of (map (\<lambda>n. (sl_key n, n)) (n # ns))"
    using fresh by (auto simp: t2(4) t1(3) fun_eq_iff map_add_def split: option.split)
  moreover have "add_sources api uninit t (map sourceline_json (n # ns)) = Some t2" by (simp add: str add t2(1))
  moreover have "same_attrs t2 t" using t1(4) t2(3) by simp
  ultimately show ?case using t2(2) by blast
qed simp

text \<open>
  C31: a fetched table that a node sends as JSON is rebuilt by the node that receives it: the same
  lines under the same mountpoints, the same host, port, TLS and pull flags and priority, and the fetch time cut to
  milliseconds, which is all that the text of a date holds. Assumed are: for this
  fetch time, that \<open>strftime\<close> gives 19 characters (a year of four digits) that \<open>strptime\<close> reads back
  whatever follows them; that the microseconds of the time are less than a million and the priority is
  an int; and that every line of the table is what its text parses to for the host, port and flags
  of the table (\<open>lines_canonical\<close>), since only the text of a line is read by the receiver.
\<close>

theorem sourcetable_json_roundtrip:
  assumes "json_api_ok api" "st_inv t" "st_caster t = Some host" "\<not> is_LOCAL t" "st_tls t \<in> {0, 1}"
    and "- (2 ^ 31) \<le> st_priority t" "st_priority t < 2 ^ 31"
    and time: "fetch_time t = (sec, usec)" "0 \<le> usec" "usec < 10 ^ 6" "length (strftime sec) = 19"
      "\<And>rest. strptime (strftime sec @ rest) = Some sec"
    and canon: "lines_canonical uninit t"
  shows "\<exists>j t'. sourcetable_json strftime t = Some j \<and> sourcetable_from_json api strptime uninit j = Some t' \<and>
    st_inv t' \<and> lines_of t' = lines_of t \<and> nvirtual t' = nvirtual t \<and>
    same_attrs t' (t\<lparr>fetch_time := (sec, usec div 1000 * 1000)\<rparr>)"
proof -
  let ?es = "hash_elements (key_val t)"
  let ?ns = "map elem_value ?es"
  obtain j where j: "sourcetable_json strftime t = Some j" by (auto simp: sourcetable_json_def assms hash_foreach_eq)
  have jeq: "j = JObject ([(''host'', JString host), (''port'', JInt (uint (st_port t))), (''tls'', JBool (st_tls t \<noteq> 0)),
        (''pullable'', JBool (st_pullable t)), (''priority'', JInt (st_priority t)),
        (''fetch_time'', JString (iso_date_from_timeval strftime (fetch_time t))),
        (''mountpoints'', JObject (map (\<lambda>e. (sl_key (elem_value e), sourceline_json (elem_value e))) ?es))])"
    using j by (simp add: sourcetable_json_def timeval_to_json_def assms(3,4) hash_foreach_eq[OF st_inv_hash[OF assms(2)]])
  have get: "obj_get api j ''host'' = Some (JString host)" "obj_get api j ''port'' = Some (JInt (uint (st_port t)))"
    "obj_get api j ''tls'' = Some (JBool (st_tls t \<noteq> 0))" "obj_get api j ''pullable'' = Some (JBool (st_pullable t))"
    "obj_get api j ''priority'' = Some (JInt (st_priority t))" "obj_get api j ''fetch_time'' = Some (JString (iso_date_from_timeval strftime (fetch_time t)))"
    "obj_get api j ''mountpoints'' = Some (JObject (map (\<lambda>e. (sl_key (elem_value e), sourceline_json (elem_value e))) ?es))"
    by (simp_all add: jeq json_read[OF assms(1)])
  obtain t0 where t0: "sourcetable_new (Some host) (st_port t) (st_tls t) = Some t0" "st_inv t0" "lines_of t0 = Map.empty"
      "st_caster t0 = Some host" "st_port t0 = st_port t" "st_tls t0 = st_tls t"
    using sourcetable_new_ok by blast
  define t1 where "t1 = t0\<lparr>st_pullable := st_pullable t, st_priority := st_priority t, fetch_time := (sec, usec div 1000 * 1000)\<rparr>"
  let ?t = "t\<lparr>fetch_time := (sec, usec div 1000 * 1000)\<rparr>"
  have t1: "st_inv t1" "lines_of t1 = Map.empty" "same_attrs t1 ?t"
    using t0 assms(3) by (simp_all add: t1_def st_inv_def virtual_keys_def)
  have "- (2 ^ 31) \<le> uint (st_port t)" by (rule order_trans[of _ 0]) simp_all
  moreover have "uint (st_port t) < 2 ^ 31" using uint_bounded[of "st_port t"] by simp
  ultimately have port: "word_of_int (get_int api (JInt (uint (st_port t)))) = st_port t"
    by (simp only: json_api_readers(3)[OF assms(1)] word_of_int_uint)
  have keys: "map sl_key ?ns = map elem_key ?es" using element_lines[OF assms(2)] by simp
  have "distinct (map sl_key ?ns)" unfolding keys by (rule hash_keys_distinct[OF st_inv_hash[OF assms(2)]])
  moreover have "\<forall>n \<in> set ?ns. sourceline_new_parse uninit (sl_value n) (case_option [] id (st_caster t1)) (st_port t1) (st_tls t1)
      (bool_int (st_pullable t1)) = Some n"
    using canon element_lines[OF assms(2)] t1(3) by (auto simp: lines_canonical_def)
  ultimately obtain t2 where t2: "add_sources api uninit t1 (map sourceline_json ?ns) = Some t2" "st_inv t2" "same_attrs t2 t1"
      "lines_of t2 = map_of (map (\<lambda>n. (sl_key n, n)) ?ns)"
    using add_sources_correct[OF assms(1) t1(1), of ?ns uninit] t1(2) by auto
  have kv: "map (\<lambda>n. (sl_key n, n)) ?ns = map kv_pair ?es" using element_lines[OF assms(2)] by (simp add: kv_pair_def)
  then have lines: "lines_of t2 = lines_of t"
    unfolding t2(4) kv fun_eq_iff using hash_table_get_elements[OF st_inv_hash[OF assms(2)]] by simp
  then have "nvirtual t2 = nvirtual t"
    by (simp add: st_inv_nvirtual[OF t2(2)] st_inv_nvirtual[OF assms(2)] virtual_keys_def)
  moreover have "sourcetable_from_json api strptime uninit j = Some t2"
    using t0(1) t2(1) assms(5,6,7) iso_date_roundtrip[of strftime sec strptime usec, OF time(4,5,2,3)]
    by (auto simp: sourcetable_from_json_def get time(1) json_read[OF assms(1)] port t1_def bool_int_def comp_def)
  ultimately show ?thesis using j t2(2,3) t1(3) lines by auto
qed

text \<open>A fetched table with one line.\<close>

definition demo_entry :: cstring where
  "demo_entry = ''STR;A;I;R;D;2;G;N;F;48.5;2.5;0;0;g;n;B;N;9600;m''"

definition demo_uninit :: sourceline where
  "demo_uninit = demo_line [] 1"

definition demo_fetched :: sourcetable where
  "demo_fetched = snd (sourcetable_add_direct (the (sourcetable_new (Some ''c'') 2101 0))
     (the (sourceline_new_parse demo_uninit demo_entry ''c'' 2101 0 0)))"

lemma demo_entry_parsed:
  "sourceline_new_parse demo_uninit demo_entry ''c'' 2101 0 0 = Some \<lparr>sl_key = ''A'', sl_value = demo_entry,
     sl_pos = \<lparr>pos_lat = 485 / 10, pos_lon = 25 / 10\<rparr>, sl_bps = 9600, sl_virtual = 0, sl_on_demand = 0,
     sl_host = ''c'', sl_port = 2101, sl_tls = 0\<rparr>"
  by (simp add: sourceline_new_parse_def demo_entry_def demo_uninit_def demo_line_def split_at_first_def Let_def
      sourceline_new_def source_field_def c_scan_f_def c_sscanf_d_def c_scan_d_def c_isdigit_def c_isspace_def
      digits_val_def digit_val_def c_int_def c_char_def)

lemma demo_fetched_ok:
  "st_inv demo_fetched" "lines_of demo_fetched = [''A'' \<mapsto> the (sourceline_new_parse demo_uninit demo_entry ''c'' 2101 0 0)]"
  "st_caster demo_fetched = Some ''c''" "st_port demo_fetched = 2101" "st_tls demo_fetched = 0" "\<not> st_pullable demo_fetched"
  "st_priority demo_fetched = 0" "fetch_time demo_fetched = (0, 0)"
proof -
  obtain t where t: "sourcetable_new (Some ''c'') 2101 0 = Some t" "st_inv t" "lines_of t = Map.empty" "st_caster t = Some ''c''"
      "st_port t = 2101" "st_tls t = 0"
    using sourcetable_new_ok by blast
  from t(1) have p: "\<not> st_pullable t" "st_priority t = 0" "fetch_time t = (0, 0)"
    by (auto simp: sourcetable_new_def split: bind_splits)
  let ?n = "the (sourceline_new_parse demo_uninit demo_entry ''c'' 2101 0 0)"
  have k: "sl_key ?n = ''A''" by (simp add: demo_entry_parsed)
  have "lines_of t (sl_key ?n) = None" by (simp add: t)
  from add_direct_fresh[OF t(2) this] t p k
  show "st_inv demo_fetched" "lines_of demo_fetched = [''A'' \<mapsto> ?n]"
    "st_caster demo_fetched = Some ''c''" "st_port demo_fetched = 2101" "st_tls demo_fetched = 0" "\<not> st_pullable demo_fetched"
    "st_priority demo_fetched = 0" "fetch_time demo_fetched = (0, 0)"
    by (auto simp: demo_fetched_def)
qed

definition demo_time :: timeval where
  "demo_time = (0, 123456)"

theorem sourcetable_json_roundtrip_witness:
  "\<exists>j t'. sourcetable_json (\<lambda>_. ''1970-01-01T00:00:00'') (demo_fetched\<lparr>fetch_time := demo_time\<rparr>) = Some j \<and>
    sourcetable_from_json plain_api (\<lambda>_. Some 0) demo_uninit j = Some t' \<and> lines_of t' = lines_of demo_fetched \<and>
    fetch_time t' = (0, 123000)"
proof -
  let ?t = "demo_fetched\<lparr>fetch_time := demo_time\<rparr>"
  have "st_inv ?t" using demo_fetched_ok(1) unfolding st_inv_def virtual_keys_def by simp
  then have f: "st_inv ?t" "st_caster ?t = Some ''c''" "\<not> is_LOCAL ?t" "st_tls ?t \<in> {0, 1}" "- (2 ^ 31) \<le> st_priority ?t" "st_priority ?t < 2 ^ 31"
    by (simp_all add: demo_fetched_ok(3-7) is_LOCAL_def)
  have d: "fetch_time ?t = (0, 123456)" "(0::int) \<le> 123456" "(123456::int) < 10 ^ 6"
    "length ((\<lambda>_. ''1970-01-01T00:00:00'') (0::int)) = 19" by (simp_all add: demo_time_def)
  have c: "lines_canonical demo_uninit ?t"
    by (auto simp: lines_canonical_def demo_fetched_ok bool_int_def demo_entry_parsed split: if_splits)
  from sourcetable_json_roundtrip[where strptime = "\<lambda>_. Some 0" and strftime = "\<lambda>_. ''1970-01-01T00:00:00''", OF plain_api_ok f d refl c]
  show ?thesis by auto
qed

end
