(* ===== verification/Ntrip_Reply.thy ===== *)
theory Ntrip_Reply
  imports Ntrip_Session Source_Stack
begin

text \<open>
  The replies of the server (\<^verbatim>\<open>caster/ntripsrv.c\<close>) and the contents it sends (\<open>struct mime_content\<close> of
  \<^verbatim>\<open>caster/util.c\<close>). The output buffer of the connection is the field \<open>nt_output\<close>; the text of the
  date, from \<open>gmtime_r\<close> and \<open>strftime\<close>, is an argument. Allocations succeed; reading past the end of a
  buffer is \<^const>\<open>None\<close>.
\<close>

subsection \<open>Contents\<close>

record mime_content =
  mime_s :: cstring
  mime_type :: "cstring option"
  mime_len :: nat

definition c_strlen :: "cstring \<Rightarrow> nat" where
  "c_strlen s = length (takeWhile (\<lambda>c. c \<noteq> CHR 0x00) s)"

definition mime_new :: "cstring \<Rightarrow> int \<Rightarrow> cstring option \<Rightarrow> mime_content" where
  "mime_new s len type = \<lparr>mime_s = s, mime_type = type, mime_len = (if len \<ge> 0 then nat len else c_strlen s)\<rparr>"

definition mime_set_type :: "mime_content \<Rightarrow> cstring \<Rightarrow> mime_content" where
  "mime_set_type this type = this\<lparr>mime_type := Some type\<rparr>"

text \<open>A file: what \<open>open\<close>, \<open>fstat\<close> and \<open>read\<close> give for a path that can be opened.\<close>

datatype file_at = Regular cstring | Not_regular | Read_error

definition mime_file_read :: "file_at \<Rightarrow> mime_content option" where
  "mime_file_read f = (case f of Regular s \<Rightarrow> Some (mime_new s (int (length s)) None) | _ \<Rightarrow> None)"

subsection \<open>The reply\<close>

type_synonym headers = "(cstring \<times> cstring) list"

definition httpcodes :: "(nat \<times> cstring) list" where
  "httpcodes = [(200, ''OK''), (400, ''Bad Request''), (401, ''Unauthorized''), (404, ''Not Found''),
     (405, ''Method Not Allowed''), (409, ''Conflict''), (413, ''Content Too Large''),
     (431, ''Request Header Fields Too Large''), (500, ''Internal Server Error''), (501, ''Not Implemented''),
     (503, ''Service Unavailable''), (0, ''Unknown Error'')]"

fun code_message :: "(nat \<times> cstring) list \<Rightarrow> nat \<Rightarrow> cstring option" where
  "code_message [] status = None"
| "code_message ((s, message) # r) status = (if s \<noteq> 0 \<and> s \<noteq> status then code_message r status else Some message)"

definition server_headers :: cstring where
  "server_headers = ''Server: NTRIP Chilopod Server 0.8.1'' @ crlf"

text \<open>
  An output buffer with the count of the bytes: formatted text counts what was added, a constant
  text the length that the code gives for it.
\<close>

type_synonym counted_out = "cstring \<times> nat"

definition add_printf :: "cstring \<Rightarrow> counted_out \<Rightarrow> counted_out" where
  "add_printf s = (\<lambda>(ev, sent). (ev @ s, sent + length s))"

definition add_reference :: "cstring \<Rightarrow> nat \<Rightarrow> counted_out \<Rightarrow> counted_out option" where
  "add_reference s n = (\<lambda>(ev, sent). if n \<le> length s then Some (ev @ take n s, sent + n) else None)"

fun add_headers :: "headers \<Rightarrow> counted_out \<Rightarrow> counted_out" where
  "add_headers [] o' = o'"
| "add_headers ((k, v) # r) o' = add_headers r (add_printf (k @ '': '' @ v @ crlf) o')"

definition mime_headers :: "mime_content option \<Rightarrow> counted_out \<Rightarrow> counted_out" where
  "mime_headers m o' =
     (case m of
        None \<Rightarrow> o'
      | Some m \<Rightarrow>
          (case mime_type m of
             Some t \<Rightarrow> add_printf (''Content-Length: '' @ c_show_nat (mime_len m) @ crlf @ ''Content-Type: '' @ t @ crlf) o'
           | None \<Rightarrow> add_printf (''Content-Length: '' @ c_show_nat (mime_len m) @ crlf) o'))"

definition send_server_reply ::
  "cstring \<Rightarrow> ntrip_state \<Rightarrow> nat \<Rightarrow> headers option \<Rightarrow> cstring option \<Rightarrow> mime_content option \<Rightarrow> ntrip_state option" where
  "send_server_reply date this status_code headers firstword m = do {
     msg \<leftarrow> code_message httpcodes status_code;
     let word = (case firstword of Some w \<Rightarrow> if client_version this = 1 \<and> user_agent_ntrip this then w else ''HTTP/1.1''
                 | None \<Rightarrow> ''HTTP/1.1'');
     let out = add_printf (word @ '' '' @ c_show_nat status_code @ '' '' @ msg @ crlf @ server_headers @ ''Date: '' @ date @ crlf)
                 (nt_output this, 0);
     out \<leftarrow> (if server_version this = 2 then add_reference (''Ntrip-Version: Ntrip/2.0'' @ crlf) 26 out else Some out);
     let out = mime_headers m out;
     out \<leftarrow> (if connection_keepalive this \<and> received_keepalive this
             then add_reference (''Connection: keep-alive'' @ crlf) 24 out
             else add_reference (''Connection: close'' @ crlf) 19 out);
     let out = (case headers of None \<Rightarrow> out | Some hs \<Rightarrow> add_headers hs out);
     out \<leftarrow> add_reference crlf 2 out;
     out \<leftarrow> (case m of None \<Rightarrow> Some out | Some m \<Rightarrow> add_reference (mime_s m) (mime_len m) out);
     Some (this\<lparr>nt_output := fst out, nt_sent := nt_sent this + snd out\<rparr>)
   }"

text \<open>Result 503 if the table cannot be built; outer \<^const>\<open>None\<close> is an access out of bounds.\<close>

definition ntripsrv_send_sourcetable ::
  "cstring \<Rightarrow> live_test \<Rightarrow> sourcetable list \<Rightarrow> ntrip_state \<Rightarrow> (int \<times> ntrip_state) option" where
  "ntripsrv_send_sourcetable date live stack this =
     (case stack_flatten live stack of
        None \<Rightarrow> Some (503, this)
      | Some t \<Rightarrow> do {
          (s, len) \<leftarrow> sourcetable_get t;
          let m = mime_new s (int len) (Some ''gnss/sourcetable'');
          let m = (if client_version this \<noteq> 2 then mime_set_type m ''text/plain'' else m);
          this \<leftarrow> send_server_reply date this 200 None (Some ''SOURCETABLE'') (Some m);
          Some (0, this)
        })"

definition send_result_ok ::
  "cstring \<Rightarrow> ntrip_state \<Rightarrow> cstring option \<Rightarrow> mime_content option \<Rightarrow> headers option \<Rightarrow> ntrip_state option" where
  "send_result_ok date this type m opt_headers =
     (if client_version this = 1 then do {
        (ev, n) \<leftarrow> add_reference (''ICY 200 OK'' @ crlf @ ''Content-Length: 0'' @ crlf @ ''Connection: close'' @ crlf @ crlf) 52 (nt_output this, 0);
        Some (this\<lparr>nt_output := ev, nt_sent := nt_sent this + n\<rparr>)
      }
      else
        let hs = (case (m, type) of (None, Some t) \<Rightarrow> [(''Content-Type'', t)] | _ \<Rightarrow> []) @
              [(''Cache-Control'', ''no-store, no-cache, max-age=0''), (''Pragma'', ''no-cache'')] @
              (case opt_headers of None \<Rightarrow> [] | Some hs \<Rightarrow> hs)
        in send_server_reply date this 200 (Some hs) None m)"

definition ntripsrv_send_result_ok ::
  "cstring \<Rightarrow> ntrip_state \<Rightarrow> mime_content option \<Rightarrow> headers option \<Rightarrow> ntrip_state option" where
  "ntripsrv_send_result_ok date this m opt_headers = send_result_ok date this None m opt_headers"

definition ntripsrv_send_stream_result_ok ::
  "cstring \<Rightarrow> ntrip_state \<Rightarrow> cstring option \<Rightarrow> headers option \<Rightarrow> ntrip_state option" where
  "ntripsrv_send_stream_result_ok date this type opt_headers = send_result_ok date this type None opt_headers"

text \<open>\<open>status\<close> and \<open>m\<close> are what the content callback computed.\<close>

definition ntripsrv_deferred_output :: "cstring \<Rightarrow> ntrip_state \<Rightarrow> nat \<Rightarrow> mime_content option \<Rightarrow> ntrip_state option" where
  "ntripsrv_deferred_output date st status m =
     (if nt_state st \<noteq> NTRIP_END then do {
        st \<leftarrow> send_server_reply date st status None None m;
        Some (st\<lparr>nt_state := (if connection_keepalive st \<and> received_keepalive st then NTRIP_WAIT_HTTP_METHOD else NTRIP_WAIT_CLOSE)\<rparr>)
      }
      else Some st)"

subsection \<open>What a reader finds in a reply\<close>

text \<open>The lines of a head, up to the empty line, and what follows it.\<close>

fun http_head :: "cstring \<Rightarrow> cstring \<Rightarrow> (cstring list \<times> cstring) option" where
  "http_head cur (c # d # r) =
     (if c = CHR 0x0D \<and> d = CHR 0x0A then
        (if cur = [] then Some ([], r) else map_option (\<lambda>(ls, body). (cur # ls, body)) (http_head [] r))
      else http_head (cur @ [c]) (d # r))"
| "http_head cur _ = None"

definition plain_line :: "cstring \<Rightarrow> bool" where
  "plain_line l \<longleftrightarrow> CHR 0x0D \<notin> set l"

text \<open>A header field that is written as one line and read back: no colon in the key, no blanks around the value.\<close>

definition plain_field :: "cstring \<times> cstring \<Rightarrow> bool" where
  "plain_field f \<longleftrightarrow> plain_line (fst f) \<and> plain_line (snd f) \<and> CHR '':'' \<notin> set (fst f) \<and>
     (snd f \<noteq> [] \<longrightarrow> \<not> is_blank (hd (snd f)) \<and> \<not> is_blank (last (snd f)))"

definition field_line :: "cstring \<times> cstring \<Rightarrow> cstring" where
  "field_line f = fst f @ '': '' @ snd f"

definition lines_text :: "cstring list \<Rightarrow> cstring" where
  "lines_text ls = concat (map (\<lambda>l. l @ crlf) ls)"

definition reply_word :: "ntrip_state \<Rightarrow> cstring option \<Rightarrow> cstring" where
  "reply_word st firstword = (case firstword of
     Some w \<Rightarrow> if client_version st = 1 \<and> user_agent_ntrip st then w else ''HTTP/1.1'' | None \<Rightarrow> ''HTTP/1.1'')"

definition reply_message :: "nat \<Rightarrow> cstring" where
  "reply_message code = (case map_of httpcodes code of Some m \<Rightarrow> m | None \<Rightarrow> ''Unknown Error'')"

definition status_line :: "ntrip_state \<Rightarrow> nat \<Rightarrow> cstring option \<Rightarrow> cstring" where
  "status_line st code firstword = reply_word st firstword @ '' '' @ c_show_nat code @ '' '' @ reply_message code"

definition mime_fields :: "mime_content option \<Rightarrow> headers" where
  "mime_fields m = (case m of None \<Rightarrow> [] | Some m \<Rightarrow>
     (''Content-Length'', c_show_nat (mime_len m)) # (case mime_type m of Some t \<Rightarrow> [(''Content-Type'', t)] | None \<Rightarrow> []))"

definition reply_fields :: "cstring \<Rightarrow> ntrip_state \<Rightarrow> headers option \<Rightarrow> mime_content option \<Rightarrow> headers" where
  "reply_fields date st hs m = [(''Server'', ''NTRIP Chilopod Server 0.8.1''), (''Date'', date)] @
     (if server_version st = 2 then [(''Ntrip-Version'', ''Ntrip/2.0'')] else []) @ mime_fields m @
     [(''Connection'', if connection_keepalive st \<and> received_keepalive st then ''keep-alive'' else ''close'')] @
     (case hs of None \<Rightarrow> [] | Some hs \<Rightarrow> hs)"

definition reply_body :: "mime_content option \<Rightarrow> cstring" where
  "reply_body m = (case m of None \<Rightarrow> [] | Some m \<Rightarrow> take (mime_len m) (mime_s m))"

definition mime_ok :: "mime_content option \<Rightarrow> bool" where
  "mime_ok m = (case m of None \<Rightarrow> True | Some m \<Rightarrow> mime_len m \<le> length (mime_s m))"

definition reply_text :: "cstring \<Rightarrow> ntrip_state \<Rightarrow> nat \<Rightarrow> headers option \<Rightarrow> cstring option \<Rightarrow> mime_content option \<Rightarrow> cstring" where
  "reply_text date st code hs firstword m =
     lines_text (status_line st code firstword # map field_line (reply_fields date st hs m)) @ crlf @ reply_body m"

lemma lines_text_simps [simp]:
  "lines_text [] = []" "lines_text (l # ls) = l @ crlf @ lines_text ls" "lines_text (ls @ ls') = lines_text ls @ lines_text ls'"
  by (simp_all add: lines_text_def)

lemma code_message_eq: "code_message httpcodes code = Some (reply_message code)"
  by (simp add: httpcodes_def reply_message_def)

text \<open>What is added is counted.\<close>

lemma add_printf_append: "add_printf s (add_printf r o') = add_printf (r @ s) o'"
  by (cases o') (simp add: add_printf_def)

lemma add_printf_nil: "add_printf [] o' = o'"
  by (cases o') (simp add: add_printf_def)

lemma add_reference_printf: "n = length s \<Longrightarrow> add_reference s n o' = Some (add_printf s o')"
  by (cases o') (simp add: add_reference_def add_printf_def)

lemma add_headers_printf: "add_headers hs o' = add_printf (lines_text (map field_line hs)) o'"
  by (induction hs o' rule: add_headers.induct) (simp_all add: add_printf_append add_printf_nil field_line_def)

lemma mime_headers_printf: "mime_headers m o' = add_printf (lines_text (map field_line (mime_fields m))) o'"
  by (auto simp: mime_headers_def mime_fields_def add_printf_nil field_line_def split: option.split)

lemma body_printf:
  "mime_ok m \<Longrightarrow> (case m of None \<Rightarrow> Some o' | Some m \<Rightarrow> add_reference (mime_s m) (mime_len m) o') = Some (add_printf (reply_body m) o')"
  by (cases o') (auto simp: reply_body_def mime_ok_def add_reference_def add_printf_def split: option.split)

lemma head_printf:
  "(if server_version st = 2 then add_reference (''Ntrip-Version: Ntrip/2.0'' @ crlf) 26 o' else Some o') =
     Some (add_printf (lines_text (map field_line (if server_version st = 2 then [(''Ntrip-Version'', ''Ntrip/2.0'')] else []))) o')"
  "(if k then add_reference (''Connection: keep-alive'' @ crlf) 24 o' else add_reference (''Connection: close'' @ crlf) 19 o') =
     Some (add_printf (field_line (''Connection'', if k then ''keep-alive'' else ''close'') @ crlf) o')"
  "add_reference crlf 2 o' = Some (add_printf crlf o')"
  "(case hs of None \<Rightarrow> o' | Some hs \<Rightarrow> add_headers hs o') =
     add_printf (lines_text (map field_line (case hs of None \<Rightarrow> [] | Some hs \<Rightarrow> hs))) o'"
  by (simp_all add: add_reference_printf add_printf_nil field_line_def crlf_def add_headers_printf split: option.split)

lemma reply_sent:
  assumes "mime_ok m"
  shows "send_server_reply date st code hs firstword m =
    Some (st\<lparr>nt_output := nt_output st @ reply_text date st code hs firstword m,
             nt_sent := nt_sent st + length (reply_text date st code hs firstword m)\<rparr>)"
  unfolding send_server_reply_def code_message_eq reply_word_def[symmetric] Let_def Option.bind_lunit head_printf
    mime_headers_printf body_printf[OF assms] add_printf_append
  by (simp add: add_printf_def reply_text_def status_line_def reply_fields_def server_headers_def field_line_def
      split del: if_split)

lemma http_head_line:
  "plain_line l \<Longrightarrow> cur @ l \<noteq> [] \<Longrightarrow> http_head cur (l @ crlf @ r) = map_option (\<lambda>(ls, body). ((cur @ l) # ls, body)) (http_head [] r)"
proof (induction l arbitrary: cur)
  case (Cons c l)
  then have "c \<noteq> CHR 0x0D" "plain_line l" by (auto simp: plain_line_def)
  with Cons.IH[of "cur @ [c]"] show ?case by (cases l) (simp_all add: crlf_def)
qed (simp add: crlf_def)

lemma http_head_lines:
  "\<forall>l \<in> set ls. plain_line l \<and> l \<noteq> [] \<Longrightarrow> http_head [] (lines_text ls @ crlf @ body) = Some (ls, body)"
proof (induction ls)
  case Nil
  then show ?case by (simp add: crlf_def)
next
  case (Cons l ls)
  then show ?case using http_head_line[of l "[]" "lines_text ls @ crlf @ body"] by simp
qed

lemma field_read_back: "plain_field f \<Longrightarrow> parse_header (field_line f) = Some f"
proof -
  assume a: "plain_field f"
  have "split_at_first (\<lambda>c. c = CHR '':'') (fst f @ CHR '':'' # CHR '' '' # snd f) = (fst f, Some (CHR '' '' # snd f))"
    using a by (intro split_at_first_append) (auto simp: plain_field_def)
  moreover have "dropWhile is_blank (CHR '' '' # snd f) = snd f"
    using a by (cases "snd f") (auto simp: plain_field_def is_blank_def)
  moreover have "dropWhile is_blank (rev (snd f)) = rev (snd f)"
    using a by (cases "snd f" rule: rev_cases) (auto simp: plain_field_def is_blank_def)
  ultimately show ?thesis by (simp add: parse_header_def field_line_def)
qed

lemma plain_line_append [simp]: "plain_line (a @ b) \<longleftrightarrow> plain_line a \<and> plain_line b"
  by (simp add: plain_line_def)

lemma digits_plain: "plain_line (c_show_nat n)" "CHR '':'' \<notin> set (c_show_nat n)"
    "\<not> is_blank (hd (c_show_nat n))" "\<not> is_blank (last (c_show_nat n))"
proof -
  have d: "c_isdigit c \<Longrightarrow> c \<noteq> CHR 0x0D \<and> c \<noteq> CHR '':'' \<and> \<not> is_blank c" for c
    by (auto simp: c_isdigit_def is_blank_def Let_def)
  with c_show_nat_isdigit[of _ n] show "plain_line (c_show_nat n)" "CHR '':'' \<notin> set (c_show_nat n)"
    by (auto simp: plain_line_def)
  show "\<not> is_blank (hd (c_show_nat n))" "\<not> is_blank (last (c_show_nat n))"
    by (simp_all add: d c_show_nat_isdigit[of _ n])
qed

lemma message_plain: "plain_line (reply_message code)"
proof -
  have "list_all (plain_line \<circ> snd) httpcodes" by (simp add: httpcodes_def plain_line_def)
  then show ?thesis
    unfolding reply_message_def by (auto simp: list_all_iff plain_line_def split: option.split dest!: map_of_SomeD)
qed

lemma plain_field_line: "plain_field f \<Longrightarrow> plain_line (field_line f) \<and> field_line f \<noteq> []"
  by (simp add: plain_field_def field_line_def) (simp add: plain_line_def)

lemma reply_fields_plain:
  assumes "plain_field (''Date'', date)" "\<forall>h \<in> set (case hs of None \<Rightarrow> [] | Some hs \<Rightarrow> hs). plain_field h"
    "\<forall>t. Option.bind m mime_type = Some t \<longrightarrow> plain_field (''Content-Type'', t)"
  shows "\<forall>f \<in> set (reply_fields date st hs m). plain_field f"
proof -
  have "plain_field (''Content-Length'', c_show_nat n)" for n
    unfolding plain_field_def fst_conv snd_conv using digits_plain[of n] by (simp add: plain_line_def)
  then have "\<forall>f \<in> set (mime_fields m). plain_field f"
    using assms(3) by (auto simp: mime_fields_def split: option.split)
  moreover have "plain_field (''Server'', ''NTRIP Chilopod Server 0.8.1'')" "plain_field (''Ntrip-Version'', ''Ntrip/2.0'')"
    "plain_field (''Connection'', ''keep-alive'')" "plain_field (''Connection'', ''close'')"
    by (simp_all add: plain_field_def plain_line_def is_blank_def)
  ultimately show ?thesis using assms(1,2) by (auto simp: reply_fields_def)
qed

text \<open>
  C29: A reply of the server can be read back. For a date, header fields, a content type and a first
  word that are plain text (no carriage return, no colon in the key of a field, no blank at the ends of a value), the bytes appended to the output are a
  head and a body. The first line of the head is the status line with the code and its message. Its
  other lines parse, with the header parser of the caster, to exactly these fields, in this order:
  Server, Date, Ntrip-Version (only in a session of version 2), Content-Length and, where the content
  has a type, Content-Type (both only with a content), Connection, and then the fields given by the caller. The body is
  the content, of exactly the announced length. The number of bytes counted as sent is the number
  of bytes appended.
\<close>
theorem reply_roundtrip:
  assumes "mime_ok m" "plain_field (''Date'', date)" "\<forall>h \<in> set (case hs of None \<Rightarrow> [] | Some hs \<Rightarrow> hs). plain_field h"
    "\<forall>t. Option.bind m mime_type = Some t \<longrightarrow> plain_field (''Content-Type'', t)"
    "\<forall>w. firstword = Some w \<longrightarrow> plain_line w"
  shows "\<exists>st' text lines. send_server_reply date st code hs firstword m = Some st' \<and>
    nt_output st' = nt_output st @ text \<and> nt_sent st' = nt_sent st + length text \<and> nt_state st' = nt_state st \<and>
    http_head [] text = Some (status_line st code firstword # lines, reply_body m) \<and>
    map parse_header lines = map Some (reply_fields date st hs m) \<and>
    (\<forall>mm. m = Some mm \<longrightarrow> (''Content-Length'', c_show_nat (length (reply_body m))) \<in> set (reply_fields date st hs m))"
proof -
  let ?lines = "map field_line (reply_fields date st hs m)"
  have f: "\<forall>f \<in> set (reply_fields date st hs m). plain_field f" by (rule reply_fields_plain[OF assms(2-4)])
  have "plain_line (status_line st code firstword)"
    using assms(5) digits_plain(1)[of code] message_plain[of code]
    by (auto simp: status_line_def reply_word_def plain_line_def split: option.split)
  moreover have "status_line st code firstword \<noteq> []" by (simp add: status_line_def)
  ultimately have "http_head [] (reply_text date st code hs firstword m) = Some (status_line st code firstword # ?lines, reply_body m)"
    unfolding reply_text_def by (intro http_head_lines) (use f plain_field_line in auto)
  moreover have "map parse_header ?lines = map Some (reply_fields date st hs m)" using f field_read_back by simp
  moreover have "m = Some mm \<Longrightarrow> (''Content-Length'', c_show_nat (length (reply_body m))) \<in> set (reply_fields date st hs m)" for mm
    using assms(1) by (simp add: reply_fields_def mime_fields_def reply_body_def mime_ok_def)
  ultimately show ?thesis unfolding reply_sent[OF assms(1)] by auto
qed

theorem reply_roundtrip_witness:
  "\<exists>st' text lines. send_server_reply ''Thu, 01 Jan 1970 00:00:00 GMT'' new_session 200 (Some [(''Pragma'', ''no-cache'')]) None
      (Some (mime_new ''{}'' 2 (Some ''application/json''))) = Some st' \<and>
    nt_output st' = nt_output new_session @ text \<and> nt_sent st' = nt_sent new_session + length text \<and> nt_state st' = nt_state new_session \<and>
    http_head [] text = Some (status_line new_session 200 None # lines, reply_body (Some (mime_new ''{}'' 2 (Some ''application/json'')))) \<and>
    map parse_header lines = map Some (reply_fields ''Thu, 01 Jan 1970 00:00:00 GMT'' new_session (Some [(''Pragma'', ''no-cache'')])
      (Some (mime_new ''{}'' 2 (Some ''application/json'')))) \<and>
    (\<forall>mm. Some (mime_new ''{}'' 2 (Some ''application/json'')) = Some mm \<longrightarrow>
      (''Content-Length'', c_show_nat (length (reply_body (Some (mime_new ''{}'' 2 (Some ''application/json'')))))) \<in>
      set (reply_fields ''Thu, 01 Jan 1970 00:00:00 GMT'' new_session (Some [(''Pragma'', ''no-cache'')])
        (Some (mime_new ''{}'' 2 (Some ''application/json'')))))"
  by (rule reply_roundtrip) (simp_all add: mime_ok_def mime_new_def plain_field_def plain_line_def is_blank_def)

text \<open>The table of messages has no entry for the code 403 that the console uses.\<close>

lemma forbidden_unknown: "reply_message 403 = ''Unknown Error''"
  by (simp add: reply_message_def httpcodes_def)

text \<open>The sourcetable that is sent, and the short replies.\<close>

lemma send_sourcetable_total:
  assumes "stack_flatten live stack = Some t" "sourcetable_get t = Some (s, length s)"
  shows "\<exists>ev n. ntripsrv_send_sourcetable date live stack st = Some (0, st\<lparr>nt_output := ev, nt_sent := n\<rparr>)"
  using assms by (auto simp: ntripsrv_send_sourcetable_def mime_new_def mime_set_type_def reply_sent mime_ok_def Let_def)

lemma send_result_ok_total:
  assumes "mime_ok m"
  shows "\<exists>ev n. send_result_ok date st type m hs = Some (st\<lparr>nt_output := ev, nt_sent := n\<rparr>)"
  using reply_sent[OF assms] by (auto simp: send_result_ok_def add_reference_def crlf_def Let_def)

end
