(* ===== verification/Livesource_Sync.thy ===== *)
theory Livesource_Sync
  imports Livesource Json_Data
begin

text \<open>
  The table of live sources of a node, and its copies on other nodes
  (\<^verbatim>\<open>caster/livesource.c\<close>, \<^verbatim>\<open>caster/nodes.c\<close>, \<^verbatim>\<open>caster/endpoints.c\<close>). Every change of the
  table has a serial number and is sent as a JSON message; a node that receives it applies it to its
  copy if the serial number is the one it expects, else it answers an error and gets the full
  table. The table maps a mountpoint to its source. Allocations succeed; an assertion that fails is
  \<^const>\<open>None\<close>.
\<close>

subsection \<open>Endpoints and nodes\<close>

record endpoint =
  ep_host :: "cstring option"
  ep_port :: "16 word"
  ep_tls :: int

definition endpoint_init :: "cstring option \<Rightarrow> 16 word \<Rightarrow> int \<Rightarrow> endpoint" where
  "endpoint_init host port tls = \<lparr>ep_host = host, ep_port = port, ep_tls = tls\<rparr>"

definition endpoint_copy :: "endpoint \<Rightarrow> endpoint" where
  "endpoint_copy orig = endpoint_init (ep_host orig) (ep_port orig) (ep_tls orig)"

fun endpoints_items :: "json_api \<Rightarrow> json list \<Rightarrow> endpoint list option" where
  "endpoints_items api [] = Some []"
| "endpoints_items api (ji # js) = do {
     host \<leftarrow> Option.bind (obj_get api ji ''host'') (get_string api);
     jtls \<leftarrow> obj_get api ji ''tls'';
     jport \<leftarrow> obj_get api ji ''port'';
     r \<leftarrow> endpoints_items api js;
     Some (endpoint_init (Some host) (word_of_int (get_int api jport)) (if get_boolean api jtls then 1 else 0) # r)
   }"

definition endpoints_from_json :: "json_api \<Rightarrow> json \<Rightarrow> endpoint list option" where
  "endpoints_from_json api j = endpoints_items api (array_items api j)"

definition endpoint_json :: "endpoint \<Rightarrow> json" where
  "endpoint_json e = JObject [(''host'', case ep_host e of None \<Rightarrow> JNull | Some h \<Rightarrow> JString h),
     (''tls'', JBool (ep_tls e \<noteq> 0)), (''port'', JInt (uint (ep_port e)))]"

definition endpoints_to_json :: "endpoint list \<Rightarrow> json" where
  "endpoints_to_json es = JArray (map endpoint_json es)"

datatype node_state = NODE_INIT | NODE_DOWN | NODE_UP

record node =
  node_j :: "json option"
  last_update :: timeval
  n_state :: node_state

definition node_set_state :: "timeval \<Rightarrow> node hash_table \<Rightarrow> cstring \<Rightarrow> node_state \<Rightarrow> node hash_table" where
  "node_set_state now this hostname state =
     (case hash_table_get this hostname of
        None \<Rightarrow> this
      | Some n \<Rightarrow> hash_table_set_value this hostname (n\<lparr>last_update := now, n_state := state\<rparr>))"

definition nodes_add_node :: "timeval \<Rightarrow> node hash_table \<Rightarrow> cstring \<Rightarrow> json option \<Rightarrow> node hash_table option" where
  "nodes_add_node now this hostname j =
     (case hash_table_get this hostname of
        Some n \<Rightarrow> Some (hash_table_set_value this hostname
          (n\<lparr>node_j := (if j \<noteq> None then j else node_j n), last_update := now\<rparr>))
      | None \<Rightarrow>
          let (e, this) = hash_table_add True this hostname \<lparr>node_j = j, last_update = now, n_state = NODE_UP\<rparr>
          in if e = - 1 then None else Some this)"

definition nodes_new :: "node hash_table option" where
  "nodes_new = hash_table_new True 509"

fun node_status :: "node_state \<Rightarrow> cstring" where
  "node_status NODE_INIT = ''INIT''"
| "node_status NODE_DOWN = ''DOWN''"
| "node_status NODE_UP = ''UP''"

definition node_json :: "cstring \<Rightarrow> json \<Rightarrow> json" where
  "node_json hostname endpoints_json = JObject [(''hostname'', JString hostname), (''endpoints'', endpoints_json)]"

text \<open>\<open>date_json\<close> is the field that \<open>timeval_to_json\<close> adds (\<open>iso_date_from_timeval\<close> of \<open>Util_Text\<close>); nothing is assumed of it.\<close>

definition nodes_json :: "(timeval \<Rightarrow> cstring \<times> json) \<Rightarrow> node hash_table \<Rightarrow> json option" where
  "nodes_json date_json this =
     map_option (\<lambda>es. JObject (map (\<lambda>e. (elem_key e, let n = elem_value e in
         JObject [(''endpoints'', case node_j n of Some j \<Rightarrow> j | None \<Rightarrow> JNull), (''status'', JString (node_status (n_state n))),
           date_json (last_update n)])) es))
       (hash_foreach this)"

subsection \<open>Tables\<close>

datatype update_type = LIVESOURCE_UPDATE_NONE | LIVESOURCE_UPDATE_ADD | LIVESOURCE_UPDATE_DEL | LIVESOURCE_UPDATE_STATUS

text \<open>The state and type of a remote source are the numbers that the conversions give, \<open>-1\<close> for an unknown name.\<close>

record livesource_remote =
  rl_mountpoint :: cstring
  rl_state :: int
  rl_type :: int

record livesources_remote =
  lr_hash :: "livesource_remote hash_table"
  lr_serial :: "64 word"
  lr_start_date :: cstring
  lr_hostname :: cstring
  lr_endpoints :: "endpoint list"

record livesources =
  lt_hash :: "livesource hash_table"
  lt_remote :: "livesources_remote hash_table"
  lt_serial :: "64 word"
  lt_start_date :: cstring
  lt_hostname :: cstring

definition livesource_remote_new :: "cstring \<Rightarrow> int \<Rightarrow> int \<Rightarrow> livesource_remote" where
  "livesource_remote_new mountpoint state type = \<lparr>rl_mountpoint = mountpoint, rl_state = state, rl_type = type\<rparr>"

definition livesources_remote_new :: "cstring \<Rightarrow> cstring \<Rightarrow> 64 word \<Rightarrow> livesources_remote option" where
  "livesources_remote_new hostname start_date serial = do {
     h \<leftarrow> hash_table_new True 509;
     Some \<lparr>lr_hash = h, lr_serial = serial, lr_start_date = start_date, lr_hostname = hostname, lr_endpoints = []\<rparr>
   }"

definition livesource_table_new :: "cstring \<Rightarrow> cstring \<Rightarrow> livesources option" where
  "livesource_table_new hostname start_date = do {
     h \<leftarrow> hash_table_new True 509;
     r \<leftarrow> hash_table_new True 113;
     Some \<lparr>lt_hash = h, lt_remote = r, lt_serial = 0, lt_start_date = start_date, lt_hostname = hostname\<rparr>
   }"

subsection \<open>Messages\<close>

fun state_name :: "livesource_state \<Rightarrow> cstring" where
  "state_name LIVESOURCE_INIT = ''INIT''"
| "state_name LIVESOURCE_FETCH_PENDING = ''FETCH_PENDING''"
| "state_name LIVESOURCE_RUNNING = ''RUNNING''"

fun type_name :: "livesource_type \<Rightarrow> cstring" where
  "type_name LIVESOURCE_TYPE_DIRECT = ''DIRECT''"
| "type_name LIVESOURCE_TYPE_FETCHED = ''FETCHED''"

fun update_name :: "update_type \<Rightarrow> cstring" where
  "update_name LIVESOURCE_UPDATE_NONE = ''none''"
| "update_name LIVESOURCE_UPDATE_ADD = ''add''"
| "update_name LIVESOURCE_UPDATE_DEL = ''del''"
| "update_name LIVESOURCE_UPDATE_STATUS = ''update''"

definition convert_state :: "cstring \<Rightarrow> int" where
  "convert_state s = (if s = ''INIT'' then 0 else if s = ''FETCH_PENDING'' then 1 else if s = ''RUNNING'' then 2 else - 1)"

definition convert_type :: "cstring \<Rightarrow> int" where
  "convert_type s = (if s = ''DIRECT'' then 0 else if s = ''FETCHED'' then 1 else - 1)"

definition livesource_common_json :: "cstring \<Rightarrow> cstring \<Rightarrow> cstring \<Rightarrow> bool \<Rightarrow> (cstring \<times> json) list" where
  "livesource_common_json mountpoint state type add_state_type =
     [(''mountpoint'', JString mountpoint)] @
     (if add_state_type then [(''state'', JString state), (''type'', JString type)] else [])"

definition livesource_json :: "livesource \<Rightarrow> update_type \<Rightarrow> json" where
  "livesource_json this utype =
     JObject (livesource_common_json (ls_mountpoint this) (state_name (ls_state this)) (type_name (ls_type this))
         (utype \<noteq> LIVESOURCE_UPDATE_DEL) @
       (if utype = LIVESOURCE_UPDATE_NONE then [(''nsubscribers'', JInt (nsubs this)), (''npackets'', JInt (npackets this))] else []))"

definition list_base_json :: "livesources \<Rightarrow> (cstring \<times> json) list" where
  "list_base_json this = [(''hostname'', JString (lt_hostname this)), (''serial'', JInt (sint (lt_serial this))),
     (''start_date'', JString (lt_start_date this))]"

text \<open>
  The code reads the serial number before it takes the lock of the table for the list; the model reads both in
  one step, so that a change of the table between the two is not modelled.
\<close>

definition livesource_list_local_json :: "json \<Rightarrow> livesources \<Rightarrow> (cstring \<times> json) list option" where
  "livesource_list_local_json endpoints_json this = do {
     es \<leftarrow> hash_foreach (lt_hash this);
     Some (list_base_json this @ [(''endpoints'', endpoints_json),
       (''livesources'', JObject (map (\<lambda>e. (elem_key e, livesource_json (elem_value e) LIVESOURCE_UPDATE_NONE)) es))])
   }"

definition livesource_full_update_json :: "json \<Rightarrow> livesources \<Rightarrow> json option" where
  "livesource_full_update_json endpoints_json this =
     map_option (\<lambda>l. JObject (l @ [(''type'', JString ''fulltable'')])) (livesource_list_local_json endpoints_json this)"

definition livesource_checkserial_json :: "livesources \<Rightarrow> json" where
  "livesource_checkserial_json this = JObject (list_base_json this @ [(''type'', JString ''checkserial'')])"

definition livesource_update_json :: "livesource \<Rightarrow> livesources \<Rightarrow> update_type \<Rightarrow> json" where
  "livesource_update_json this tbl utype =
     JObject [(''livesource'', livesource_json this utype), (''start_date'', JString (lt_start_date tbl)),
       (''hostname'', JString (lt_hostname tbl)), (''serial'', JInt (sint (lt_serial tbl))),
       (''type'', JString (update_name utype))]"

text \<open>
  What a node shows of its copies. The names are read from arrays by the numbers: outside of them
  is \<^const>\<open>None\<close>.
\<close>

definition livesource_states :: "cstring list" where
  "livesource_states = [''INIT'', ''FETCH_PENDING'', ''RUNNING'']"

definition livesource_types :: "cstring list" where
  "livesource_types = [''DIRECT'', ''FETCHED'']"

definition name_at :: "cstring list \<Rightarrow> int \<Rightarrow> cstring option" where
  "name_at names i = (if 0 \<le> i \<and> i < int (length names) then Some (names ! nat i) else None)"

definition livesource_remote_json :: "livesource_remote \<Rightarrow> json option" where
  "livesource_remote_json this = do {
     state \<leftarrow> name_at livesource_states (rl_state this);
     type \<leftarrow> name_at livesource_types (rl_type this);
     Some (JObject (livesource_common_json (rl_mountpoint this) state type True))
   }"

fun remote_fields :: "livesource_remote element list \<Rightarrow> (cstring \<times> json) list option" where
  "remote_fields [] = Some []"
| "remote_fields (e # es) = do {
     j \<leftarrow> livesource_remote_json (elem_value e);
     r \<leftarrow> remote_fields es;
     Some ((elem_key e, j) # r)
   }"

definition livesource_list_remote_json :: "livesources_remote \<Rightarrow> json option" where
  "livesource_list_remote_json thisr = do {
     es \<leftarrow> hash_foreach (lr_hash thisr);
     new_list \<leftarrow> remote_fields es;
     Some (JObject [(''hostname'', JString (lr_hostname thisr)), (''serial'', JInt (sint (lr_serial thisr))),
       (''start_date'', JString (lr_start_date thisr)), (''endpoints'', endpoints_to_json (lr_endpoints thisr)),
       (''livesources'', JObject new_list)])
   }"

fun remote_tables :: "livesources_remote element list \<Rightarrow> (cstring \<times> json) list option" where
  "remote_tables [] = Some []"
| "remote_tables (e # es) = do {
     j \<leftarrow> livesource_list_remote_json (elem_value e);
     r \<leftarrow> remote_tables es;
     Some ((elem_key e, j) # r)
   }"

definition livesource_list_json :: "json \<Rightarrow> livesources \<Rightarrow> json option" where
  "livesource_list_json endpoints_json this = do {
     l \<leftarrow> livesource_list_local_json endpoints_json this;
     es \<leftarrow> hash_foreach (lt_remote this);
     r \<leftarrow> remote_tables es;
     Some (JObject ((''LOCAL'', JObject l) # r))
   }"

subsection \<open>Changes of the table of a node\<close>

text \<open>Each change gives the message for the other nodes, if any, and the new table.\<close>

definition livesource_set_state :: "livesources \<Rightarrow> cstring \<Rightarrow> livesource_state \<Rightarrow> (json option \<times> livesources) option" where
  "livesource_set_state tbl mountpoint state = do {
     this \<leftarrow> hash_table_get (lt_hash tbl) mountpoint;
     if ls_state this \<noteq> state then
       let this = this\<lparr>ls_state := state\<rparr>
       in Some (Some (livesource_update_json this tbl LIVESOURCE_UPDATE_STATUS),
            tbl\<lparr>lt_hash := hash_table_set_value (lt_hash tbl) mountpoint this, lt_serial := lt_serial tbl + 1\<rparr>)
     else Some (None, tbl)
   }"

text \<open>
  \<open>livesource_del\<close>: the source leaves the table, then its subscribers are dropped. The table gives its
  name, state and type, the store of \<open>live_world\<close> its subscribers.
\<close>

definition livesource_unregister :: "livesources \<Rightarrow> cstring \<Rightarrow> (json option \<times> livesources) option" where
  "livesource_unregister tbl mountpoint = do {
     this \<leftarrow> hash_table_get (lt_hash tbl) mountpoint;
     let j = livesource_update_json this tbl LIVESOURCE_UPDATE_DEL;
     let (e, _, h) = hash_table_del (lt_hash tbl) (ls_mountpoint this);
     if e = 0 then Some (Some j, tbl\<lparr>lt_hash := h, lt_serial := lt_serial tbl + 1\<rparr>) else None
   }"

definition livesource_del :: "livesources \<Rightarrow> live_world \<Rightarrow> nat \<Rightarrow> (json option \<times> livesources \<times> live_world) option" where
  "livesource_del tbl w i = do {
     (j, tbl) \<leftarrow> livesource_unregister tbl (ls_mountpoint (sources w i));
     w \<leftarrow> livesource_end w i;
     Some (j, tbl, w)
   }"

text \<open>An endpoint of a node that has the source running.\<close>

fun find_remote_endpoint_loop :: "cstring \<Rightarrow> livesources_remote element list \<Rightarrow> endpoint option" where
  "find_remote_endpoint_loop mountpoint [] = None"
| "find_remote_endpoint_loop mountpoint (e # es) =
     (let rem = elem_value e in
      case lr_endpoints rem of
        [] \<Rightarrow> find_remote_endpoint_loop mountpoint es
      | ep # _ \<Rightarrow>
          (case hash_table_get (lr_hash rem) mountpoint of
             Some rl \<Rightarrow> if rl_state rl = 2 then Some (endpoint_copy ep) else find_remote_endpoint_loop mountpoint es
           | None \<Rightarrow> find_remote_endpoint_loop mountpoint es))"

definition livesource_find_remote_endpoint :: "livesources \<Rightarrow> cstring \<Rightarrow> endpoint option option" where
  "livesource_find_remote_endpoint tbl mountpoint =
     map_option (find_remote_endpoint_loop mountpoint) (hash_foreach (lt_remote tbl))"

text \<open>
  \<open>livesource_find_unlocked\<close>: the source that is found; a new one to fetch on demand is added with the
  job that fetches it (the endpoint, without host if the source table gives it). \<open>*jp\<close> was set to
  NULL before it is tested, so that no message is made.
\<close>

definition livesource_find_unlocked ::
  "livesources \<Rightarrow> bool \<Rightarrow> cstring \<Rightarrow> bool \<Rightarrow> bool \<Rightarrow> bool \<Rightarrow>
   (livesource option \<times> json option \<times> endpoint option \<times> livesources) option" where
  "livesource_find_unlocked tbl has_st mountpoint find_on_demand create_on_demand sourceline_on_demand =
     (let np = hash_table_get (lt_hash tbl) mountpoint;
          result = (case np of
             Some l \<Rightarrow> if ls_state l = LIVESOURCE_RUNNING \<or> (find_on_demand \<and> ls_state l = LIVESOURCE_FETCH_PENDING)
                       then Some l else None
           | None \<Rightarrow> None)
      in if result = None \<and> find_on_demand \<and> create_on_demand \<and> has_st then do {
           re \<leftarrow> livesource_find_remote_endpoint tbl mountpoint;
           if re = None \<and> \<not> sourceline_on_demand then Some (None, None, None, tbl)
           else do {
             let np = livesource_new mountpoint LIVESOURCE_TYPE_FETCHED LIVESOURCE_FETCH_PENDING;
             let (r, h) = hash_table_add True (lt_hash tbl) mountpoint np;
             if r = - 1 then None
             else Some (Some np, None, Some (case re of Some e \<Rightarrow> e | None \<Rightarrow> endpoint_init None 0 0),
                    tbl\<lparr>lt_hash := h, lt_serial := lt_serial tbl + 1\<rparr>)
           }
         }
         else Some (result, None, None, tbl))"

text \<open>\<open>livesource_find_on_demand\<close> without the request of a client never creates a source.\<close>

definition livesource_find_on_demand ::
  "livesources \<Rightarrow> bool \<Rightarrow> cstring \<Rightarrow> bool \<Rightarrow> bool \<Rightarrow>
   (livesource option \<times> json option \<times> endpoint option \<times> livesources) option" where
  "livesource_find_on_demand tbl has_st mountpoint on_demand sourceline_on_demand =
     livesource_find_unlocked tbl has_st mountpoint on_demand on_demand sourceline_on_demand"

definition livesource_exists :: "livesources \<Rightarrow> cstring \<Rightarrow> bool" where
  "livesource_exists tbl mountpoint =
     (case livesource_find_on_demand tbl False mountpoint False False of Some (Some _, _) \<Rightarrow> True | _ \<Rightarrow> False)"

text \<open>The result, the source the client is subscribed to by a job, the message, the fetching job, the table.\<close>

definition livesource_find_and_subscribe ::
  "livesources \<Rightarrow> cstring \<Rightarrow> bool \<Rightarrow> bool \<Rightarrow>
   (int \<times> cstring option \<times> json option \<times> endpoint option \<times> livesources) option" where
  "livesource_find_and_subscribe tbl mountpoint on_demand sourceline_on_demand = do {
     (lv, j, e, tbl) \<leftarrow> livesource_find_on_demand tbl True mountpoint on_demand sourceline_on_demand;
     Some (case lv of Some l \<Rightarrow> (1, Some (ls_mountpoint l), j, e, tbl) | None \<Rightarrow> (0, None, j, e, tbl))
   }"

text \<open>
  A source connects: \<open>1\<close> if it is new, \<open>0\<close> if there is one under that name. The session has
  no source of its own and no subscription (\<open>st_free\<close>); it owns the new source.
\<close>

definition livesource_connected :: "livesources \<Rightarrow> bool \<Rightarrow> cstring \<Rightarrow> (int \<times> json option \<times> livesources) option" where
  "livesource_connected tbl st_free mountpoint = (if \<not> st_free then None else do {
     (existing, _, _, tbl) \<leftarrow> livesource_find_unlocked tbl True mountpoint True False False;
     if existing \<noteq> None then Some (0, None, tbl)
     else do {
       let np = livesource_new mountpoint LIVESOURCE_TYPE_DIRECT LIVESOURCE_RUNNING;
       let (e, h) = hash_table_add True (lt_hash tbl) mountpoint np;
       if e \<noteq> 0 then None
       else do {
         n \<leftarrow> refcnt_incref (ls_refcnt np);
         let np = np\<lparr>ls_refcnt := n\<rparr>;
         let h = hash_table_set_value h mountpoint np;
         let tbl' = tbl\<lparr>lt_hash := h\<rparr>;
         Some (1, Some (livesource_update_json np tbl' LIVESOURCE_UPDATE_ADD), tbl'\<lparr>lt_serial := lt_serial tbl + 1\<rparr>)
       }
     }
   })"

subsection \<open>Receiving messages\<close>

text \<open>The body of \<open>livesource_update_execute_diff\<close> on the copy: the kind of change, the source it names.\<close>

definition get_str :: "json_api \<Rightarrow> json \<Rightarrow> cstring \<Rightarrow> cstring option" where
  "get_str api j k = Option.bind (obj_get api j k) (get_string api)"

definition apply_diff :: "json_api \<Rightarrow> livesources_remote \<Rightarrow> cstring \<Rightarrow> json \<Rightarrow> (int \<times> livesources_remote) option" where
  "apply_diff api lrlist type ls = do {
     mountpoint \<leftarrow> get_str api ls ''mountpoint'';
     let lr = hash_table_get (lr_hash lrlist) mountpoint;
     if type = ''add'' then
       if lr \<noteq> None then Some (404, lrlist)
       else do {
         lstype \<leftarrow> get_str api ls ''type'';
         lsstate \<leftarrow> get_str api ls ''state'';
         let (r, h) = hash_table_add True (lr_hash lrlist) mountpoint
           (livesource_remote_new mountpoint (convert_state lsstate) (convert_type lstype));
         if r = - 1 then None else Some (200, lrlist\<lparr>lr_hash := h, lr_serial := lr_serial lrlist + 1\<rparr>)
       }
     else if type = ''del'' then
       if lr = None then Some (503, lrlist)
       else Some (200, lrlist\<lparr>lr_hash := snd (snd (hash_table_del (lr_hash lrlist) mountpoint)), lr_serial := lr_serial lrlist + 1\<rparr>)
     else if type = ''update'' then
       (case lr of
          None \<Rightarrow> Some (503, lrlist)
        | Some l \<Rightarrow> do {
            lstype \<leftarrow> get_str api ls ''type'';
            lsstate \<leftarrow> get_str api ls ''state'';
            Some (200, lrlist\<lparr>lr_hash := hash_table_set_value (lr_hash lrlist) mountpoint
              (l\<lparr>rl_state := convert_state lsstate, rl_type := convert_type lstype\<rparr>), lr_serial := lr_serial lrlist + 1\<rparr>)
          })
     else Some (503, lrlist)
   }"

definition livesource_update_execute_diff ::
  "json_api \<Rightarrow> livesources_remote hash_table \<Rightarrow> json \<Rightarrow> cstring \<Rightarrow> (int \<times> livesources_remote hash_table) option" where
  "livesource_update_execute_diff api remote j hostname =
     (case (get_str api j ''type'', obj_get api j ''serial'', obj_get api j ''start_date'') of
        (Some type, Some jserial, Some jstart_date) \<Rightarrow>
          (case hash_table_get remote hostname of
             None \<Rightarrow> Some (404, remote)
           | Some lrlist \<Rightarrow> do {
               start_date \<leftarrow> get_string api jstart_date;
               if start_date \<noteq> lr_start_date lrlist then Some (404, remote)
               else if word_of_int (get_int64 api jserial) \<noteq> lr_serial lrlist then Some (404, remote)
               else if type = ''checkserial'' then Some (200, remote)
               else case obj_get api j ''livesource'' of
                 None \<Rightarrow> Some (404, remote)
               | Some ls \<Rightarrow> do {
                   (r, l) \<leftarrow> apply_diff api lrlist type ls;
                   Some (r, hash_table_set_value remote hostname l)
                 }
             })
      | _ \<Rightarrow> Some (503, remote))"

fun add_remotes :: "json_api \<Rightarrow> livesource_remote hash_table \<Rightarrow> (cstring \<times> json) list \<Rightarrow> livesource_remote hash_table option" where
  "add_remotes api h [] = Some h"
| "add_remotes api h ((mountpoint, ls) # r) = do {
     lstype \<leftarrow> get_str api ls ''type'';
     lsstate \<leftarrow> get_str api ls ''state'';
     let (e, h) = hash_table_add True h mountpoint (livesource_remote_new mountpoint (convert_state lsstate) (convert_type lstype));
     if e = - 1 then None else add_remotes api h r
   }"

text \<open>Outer \<^const>\<open>None\<close> is a failed assertion or a NULL string, inner \<^const>\<open>None\<close> the NULL result.\<close>

definition livesource_process_fulltable ::
  "json_api \<Rightarrow> json \<Rightarrow> cstring \<Rightarrow> livesources_remote option option" where
  "livesource_process_fulltable api j hostname =
     (case (obj_get api j ''livesources'', obj_get api j ''serial'', get_str api j ''start_date'', obj_get api j ''endpoints'') of
        (Some lslist, Some jserial, Some start_date, Some jendpoints) \<Rightarrow>
          (case endpoints_from_json api jendpoints of
             None \<Rightarrow> Some None
           | Some pe \<Rightarrow> do {
               remote \<leftarrow> livesources_remote_new hostname start_date (word_of_int (get_int64 api jserial));
               h \<leftarrow> add_remotes api (lr_hash remote) (obj_fields api lslist);
               Some (Some (remote\<lparr>lr_endpoints := pe, lr_hash := h\<rparr>))
             })
      | _ \<Rightarrow> Some None)"

record sync_state =
  sy_remote :: "livesources_remote hash_table"
  sy_nodes :: "node hash_table"
  req_node :: "json option"
  syncer_id :: "cstring option"

definition livesources_remote_replace ::
  "timeval \<Rightarrow> sync_state \<Rightarrow> cstring \<Rightarrow> livesources_remote option \<Rightarrow> sync_state option" where
  "livesources_remote_replace now s hostname new_remote =
     (let (_, h) = hash_table_get_del (sy_remote s) hostname;
          (r, h) = (case new_remote of None \<Rightarrow> (0, h) | Some n \<Rightarrow> hash_table_add True h hostname n)
      in if r = - 1 then None
         else Some (s\<lparr>sy_remote := h,
           sy_nodes := node_set_state now (sy_nodes s) hostname (if new_remote \<noteq> None then NODE_UP else NODE_DOWN)\<rparr>))"

definition livesource_update_execute_fulltable ::
  "json_api \<Rightarrow> timeval \<Rightarrow> sync_state \<Rightarrow> json \<Rightarrow> cstring \<Rightarrow> (int \<times> sync_state) option" where
  "livesource_update_execute_fulltable api now s j hostname = do {
     remote \<leftarrow> livesource_process_fulltable api j hostname;
     case remote of
       None \<Rightarrow> Some (503, s)
     | Some r \<Rightarrow> do {
         s \<leftarrow> livesources_remote_replace now s hostname (Some r);
         Some (200, s\<lparr>req_node := obj_get api j ''endpoints'', syncer_id := Some hostname\<rparr>)
       }
   }"

definition livesource_update_execute :: "json_api \<Rightarrow> timeval \<Rightarrow> sync_state \<Rightarrow> json \<Rightarrow> (int \<times> sync_state) option" where
  "livesource_update_execute api now s j =
     (case (get_str api j ''type'', get_str api j ''hostname'') of
        (Some type, Some hostname) \<Rightarrow> do {
          nodes \<leftarrow> nodes_add_node now (sy_nodes s) hostname (obj_get api j ''endpoints'');
          let s = s\<lparr>sy_nodes := nodes\<rparr>;
          if type = ''fulltable'' then livesource_update_execute_fulltable api now s j hostname
          else do {
            (r, h) \<leftarrow> livesource_update_execute_diff api (sy_remote s) j hostname;
            Some (r, s\<lparr>sy_remote := h\<rparr>)
          }
        }
      | _ \<Rightarrow> Some (503, s))"

subsection \<open>Histories of a node\<close>

text \<open>What the tasks of a node do to its table, and the messages that are queued for another node, in order.\<close>

datatype local_change = Connect cstring | Disconnect cstring | Set_state cstring livesource_state

fun apply_change :: "livesources \<Rightarrow> local_change \<Rightarrow> (json option \<times> livesources) option" where
  "apply_change L (Connect m) = map_option snd (livesource_connected L True m)"
| "apply_change L (Disconnect m) = livesource_unregister L m"
| "apply_change L (Set_state m st) = livesource_set_state L m st"

fun run_changes :: "livesources \<Rightarrow> local_change list \<Rightarrow> (json list \<times> livesources) option" where
  "run_changes L [] = Some ([], L)"
| "run_changes L (c # cs) = do {
     (mj, L) \<leftarrow> apply_change L c;
     (js, L) \<leftarrow> run_changes L cs;
     Some ((case mj of None \<Rightarrow> js | Some j \<Rightarrow> j # js), L)
   }"

text \<open>The receiving node: \<^const>\<open>None\<close> as soon as a message is not answered by 200.\<close>

fun receive_all :: "json_api \<Rightarrow> timeval \<Rightarrow> sync_state \<Rightarrow> json list \<Rightarrow> sync_state option" where
  "receive_all api now s [] = Some s"
| "receive_all api now s (j # js) = do {
     (r, s) \<leftarrow> livesource_update_execute api now s j;
     if r = 200 then receive_all api now s js else None
   }"

subsection \<open>A copy in step with the table\<close>

definition table_ok :: "livesources \<Rightarrow> bool" where
  "table_ok L \<longleftrightarrow> hash_inv (lt_hash L) \<and> (\<forall>m l. hash_table_get (lt_hash L) m = Some l \<longrightarrow> ls_mountpoint l = m)"

definition local_view :: "livesource \<Rightarrow> int \<times> int" where
  "local_view l = (convert_state (state_name (ls_state l)), convert_type (type_name (ls_type l)))"

definition remote_view :: "livesource_remote \<Rightarrow> int \<times> int" where
  "remote_view r = (rl_state r, rl_type r)"

definition in_sync :: "livesources \<Rightarrow> livesources_remote \<Rightarrow> bool" where
  "in_sync L R \<longleftrightarrow> lr_serial R = lt_serial L \<and> lr_start_date R = lt_start_date L \<and> hash_inv (lr_hash R) \<and>
     (\<forall>m. map_option remote_view (hash_table_get (lr_hash R) m) = map_option local_view (hash_table_get (lt_hash L) m))"

definition replica_ok :: "livesources_remote hash_table \<Rightarrow> livesources \<Rightarrow> bool" where
  "replica_ok h L \<longleftrightarrow> hash_inv h \<and> (\<exists>R. hash_table_get h (lt_hostname L) = Some R \<and> in_sync L R)"

lemma table_ok_key: "table_ok L \<Longrightarrow> hash_table_get (lt_hash L) m = Some l \<Longrightarrow> ls_mountpoint l = m"
  unfolding table_ok_def by blast

lemma serial_read: "json_api_ok api \<Longrightarrow> word_of_int (get_int64 api (JInt (sint (w :: 64 word)))) = w"
proof -
  assume api: "json_api_ok api"
  have "- (2 ^ 63) \<le> sint w" "sint w < 2 ^ 63" using sint_greater_eq[of w] sint_less[of w] by simp_all
  then have "get_int64 api (JInt (sint w)) = sint w" by (rule json_api_readers(4)[OF api])
  then show ?thesis by simp
qed

text \<open>A message about a source is handled by the change of the copy if the copy is in step.\<close>

lemma diff_in_sync:
  assumes api: "json_api_ok api" and rep: "hash_inv h" "hash_table_get h (lt_hostname L) = Some R" "in_sync L R"
    and u: "utype \<noteq> LIVESOURCE_UPDATE_NONE"
    and a: "apply_diff api R (update_name utype) (livesource_json l utype) = Some (200, R')"
    and R': "in_sync L' R'" "lt_hostname L' = lt_hostname L"
  shows "\<exists>h'. livesource_update_execute_diff api h (livesource_update_json l L utype) (lt_hostname L) = Some (200, h') \<and> replica_ok h' L'"
proof -
  let ?j = "livesource_update_json l L utype"
  have g: "get_str api ?j ''type'' = Some (update_name utype)" "obj_get api ?j ''serial'' = Some (JInt (sint (lt_serial L)))"
    "obj_get api ?j ''start_date'' = Some (JString (lt_start_date L))" "obj_get api ?j ''livesource'' = Some (livesource_json l utype)"
    by (simp_all add: livesource_update_json_def get_str_def json_read[OF api])
  have "lr_serial R = lt_serial L" "lr_start_date R = lt_start_date L" using rep(3) by (simp_all add: in_sync_def)
  moreover have "update_name utype \<noteq> ''checkserial''" by (cases utype) simp_all
  ultimately have "livesource_update_execute_diff api h ?j (lt_hostname L) = Some (200, hash_table_set_value h (lt_hostname L) R')"
    unfolding livesource_update_execute_diff_def g prod.case option.case rep(2)
    by (simp add: json_read[OF api] serial_read[OF api] a)
  moreover have "replica_ok (hash_table_set_value h (lt_hostname L) R') L'"
    using hash_table_set_value_correct[OF rep(1), of "lt_hostname L" R'] rep(2) R' by (auto simp: replica_ok_def)
  ultimately show ?thesis by blast
qed

lemma source_json_read:
  assumes "json_api_ok api"
  shows "get_str api (livesource_json l u) ''mountpoint'' = Some (ls_mountpoint l)"
    "u \<noteq> LIVESOURCE_UPDATE_DEL \<Longrightarrow> get_str api (livesource_json l u) ''type'' = Some (type_name (ls_type l))"
    "u \<noteq> LIVESOURCE_UPDATE_DEL \<Longrightarrow> get_str api (livesource_json l u) ''state'' = Some (state_name (ls_state l))"
  by (simp_all add: get_str_def livesource_json_def livesource_common_json_def json_read[OF assms])

lemma sync_set_state:
  assumes api: "json_api_ok api" and ok: "table_ok L" "replica_ok h L" and c: "livesource_set_state L m st = Some (mj, L')"
  shows "table_ok L' \<and> lt_hostname L' = lt_hostname L \<and>
    (case mj of None \<Rightarrow> L' = L
     | Some j \<Rightarrow> \<exists>h'. livesource_update_execute_diff api h j (lt_hostname L) = Some (200, h') \<and> replica_ok h' L')"
proof -
  from c obtain l where l: "hash_table_get (lt_hash L) m = Some l" by (auto simp: livesource_set_state_def bind_eq_Some_conv)
  show ?thesis
  proof (cases "ls_state l = st")
    case True
    with c l ok(1) show ?thesis by (simp add: livesource_set_state_def)
  next
    case False
    let ?l = "l\<lparr>ls_state := st\<rparr>"
    have e: "mj = Some (livesource_update_json ?l L LIVESOURCE_UPDATE_STATUS)"
      "L' = L\<lparr>lt_hash := hash_table_set_value (lt_hash L) m ?l, lt_serial := lt_serial L + 1\<rparr>"
      using c l False by (simp_all add: livesource_set_state_def Let_def)
    have inv: "hash_inv (lt_hash L)" and key: "ls_mountpoint l = m" using ok(1) table_ok_key[OF ok(1) l] by (simp_all add: table_ok_def)
    have pres: "hash_table_get (lt_hash L) m \<noteq> None" using l by simp
    note sv = hash_table_set_value_correct[OF inv pres, of ?l]
    have t': "table_ok L'" using ok(1) sv key unfolding e(2) table_ok_def by auto
    obtain R where R: "hash_inv h" "hash_table_get h (lt_hostname L) = Some R" "in_sync L R" using ok(2) by (auto simp: replica_ok_def)
    obtain r where r: "hash_table_get (lr_hash R) m = Some r" using R(3) l unfolding in_sync_def by (metis map_option_eq_Some option.simps(9))
    let ?R = "R\<lparr>lr_hash := hash_table_set_value (lr_hash R) m (r\<lparr>rl_state := convert_state (state_name st), rl_type := convert_type (type_name (ls_type l))\<rparr>),
        lr_serial := lr_serial R + 1\<rparr>"
    have a: "apply_diff api R (update_name LIVESOURCE_UPDATE_STATUS) (livesource_json ?l LIVESOURCE_UPDATE_STATUS) = Some (200, ?R)"
      using r by (simp add: apply_diff_def source_json_read[OF api] key)
    have hr: "hash_inv (lr_hash R)" "hash_table_get (lr_hash R) m \<noteq> None" using R(3) r by (simp_all add: in_sync_def)
    have "in_sync L' ?R"
      using R(3) hash_table_set_value_correct[OF hr] sv unfolding e(2) in_sync_def by (simp add: remote_view_def local_view_def)
    from diff_in_sync[OF api R _ a this] t' e show ?thesis by simp
  qed
qed

lemma livesource_unregister_present:
  assumes ok: "table_ok L" and l: "hash_table_get (lt_hash L) m = Some l"
  shows "livesource_unregister L m = Some (Some (livesource_update_json l L LIVESOURCE_UPDATE_DEL),
      L\<lparr>lt_hash := without_key m (lt_hash L), lt_serial := lt_serial L + 1\<rparr>)"
  using l table_ok_key[OF ok l] by (simp add: livesource_unregister_def Let_def hash_table_del_eq)

lemma sync_del:
  assumes api: "json_api_ok api" and ok: "table_ok L" "replica_ok h L" and c: "livesource_unregister L m = Some (mj, L')"
  shows "table_ok L' \<and> lt_hostname L' = lt_hostname L \<and>
    (\<exists>j h'. mj = Some j \<and> livesource_update_execute_diff api h j (lt_hostname L) = Some (200, h') \<and> replica_ok h' L')"
proof -
  from c obtain l where l: "hash_table_get (lt_hash L) m = Some l" by (auto simp: livesource_unregister_def bind_eq_Some_conv)
  have inv: "hash_inv (lt_hash L)" and key: "ls_mountpoint l = m" using ok(1) table_ok_key[OF ok(1) l] by (simp_all add: table_ok_def)
  have e: "mj = Some (livesource_update_json l L LIVESOURCE_UPDATE_DEL)"
    "L' = L\<lparr>lt_hash := without_key m (lt_hash L), lt_serial := lt_serial L + 1\<rparr>"
    using c livesource_unregister_present[OF ok(1) l] by simp_all
  note wk = without_key_correct[OF inv, of m]
  have t': "table_ok L'" using ok(1) wk unfolding e(2) table_ok_def by auto
  obtain R where R: "hash_inv h" "hash_table_get h (lt_hostname L) = Some R" "in_sync L R" using ok(2) by (auto simp: replica_ok_def)
  obtain r where r: "hash_table_get (lr_hash R) m = Some r" using R(3) l unfolding in_sync_def by (metis map_option_eq_Some option.simps(9))
  let ?R = "R\<lparr>lr_hash := without_key m (lr_hash R), lr_serial := lr_serial R + 1\<rparr>"
  have a: "apply_diff api R (update_name LIVESOURCE_UPDATE_DEL) (livesource_json l LIVESOURCE_UPDATE_DEL) = Some (200, ?R)"
    using r by (simp add: apply_diff_def source_json_read[OF api] key hash_table_del_eq)
  have hr: "hash_inv (lr_hash R)" using R(3) by (simp add: in_sync_def)
  have "in_sync L' ?R"
    using R(3) without_key_correct[OF hr, of m] wk unfolding e(2) in_sync_def by simp
  from diff_in_sync[OF api R _ a this] t' e show ?thesis by simp
qed

text \<open>The source that \<open>livesource_connected\<close> registers, and what it does if there is none under that name.\<close>

definition direct_source :: "cstring \<Rightarrow> livesource" where
  "direct_source m = livesource_new m LIVESOURCE_TYPE_DIRECT LIVESOURCE_RUNNING\<lparr>ls_refcnt := 2\<rparr>"

lemma direct_source_fields [simp]:
  "ls_mountpoint (direct_source m) = m" "ls_state (direct_source m) = LIVESOURCE_RUNNING"
  "ls_type (direct_source m) = LIVESOURCE_TYPE_DIRECT"
  by (simp_all add: direct_source_def livesource_new_def)

lemma livesource_connected_fresh:
  assumes ok: "table_ok L" and none: "hash_table_get (lt_hash L) m = None"
  shows "\<exists>H. livesource_connected L True m = Some (1, Some (livesource_update_json (direct_source m) L LIVESOURCE_UPDATE_ADD),
      L\<lparr>lt_hash := H, lt_serial := lt_serial L + 1\<rparr>) \<and>
    hash_inv H \<and> hash_table_get H = (hash_table_get (lt_hash L))(m \<mapsto> direct_source m)"
proof -
  let ?new = "livesource_new m LIVESOURCE_TYPE_DIRECT LIVESOURCE_RUNNING"
  have inv: "hash_inv (lt_hash L)" using ok by (simp add: table_ok_def)
  obtain H where H: "hash_table_add True (lt_hash L) m ?new = (0, H)" "hash_inv H" "hash_table_get H = (hash_table_get (lt_hash L))(m \<mapsto> ?new)"
    using hash.add_fresh[OF inv none, of ?new] by (metis prod.collapse)
  have pres: "hash_table_get H m \<noteq> None" using H(3) by simp
  have j: "livesource_update_json y (L\<lparr>lt_hash := x\<rparr>) u = livesource_update_json y L u" for x y u
    by (simp add: livesource_update_json_def)
  have f: "livesource_find_unlocked L True m True False False = Some (None, None, None, L)"
    using none by (simp add: livesource_find_unlocked_def)
  have n: "refcnt_incref (ls_refcnt ?new) = Some 2" by (simp add: livesource_new_def refcnt_init_def refcnt_incref_def)
  have "livesource_connected L True m = Some (1, Some (livesource_update_json (direct_source m) L LIVESOURCE_UPDATE_ADD),
      L\<lparr>lt_hash := hash_table_set_value H m (direct_source m), lt_serial := lt_serial L + 1\<rparr>)"
    using f H(1) n by (simp add: livesource_connected_def Let_def direct_source_def j)
  moreover have "hash_inv (hash_table_set_value H m (direct_source m))"
    "hash_table_get (hash_table_set_value H m (direct_source m)) = (hash_table_get (lt_hash L))(m \<mapsto> direct_source m)"
    using hash_table_set_value_correct[OF H(2) pres, of "direct_source m"] H(3) by simp_all
  ultimately show ?thesis by blast
qed

lemma livesource_exists_iff:
  "livesource_exists L m \<longleftrightarrow> (\<exists>l. hash_table_get (lt_hash L) m = Some l \<and> ls_state l = LIVESOURCE_RUNNING)"
  by (simp add: livesource_exists_def livesource_find_on_demand_def livesource_find_unlocked_def split: option.split)

text \<open>A name that is taken: nothing changes, or the assertion on the insertion fails.\<close>

lemma livesource_connected_taken:
  assumes ok: "table_ok L" and l: "hash_table_get (lt_hash L) m = Some l" and c: "livesource_connected L True m = Some (n, mj, L')"
  shows "n = 0 \<and> mj = None \<and> L' = L"
proof -
  have "hash_inv (lt_hash L)" "hash_table_get (lt_hash L) m \<noteq> None" using ok l by (simp_all add: table_ok_def)
  then have "hash_table_add True (lt_hash L) m x = (- 1, lt_hash L)" for x by (rule hash.add_present)
  with l c show ?thesis
    by (simp add: livesource_connected_def livesource_find_unlocked_def Let_def split: if_splits)
qed

lemma sync_connected:
  assumes api: "json_api_ok api" and ok: "table_ok L" "replica_ok h L" and c: "livesource_connected L True m = Some (n, mj, L')"
  shows "table_ok L' \<and> lt_hostname L' = lt_hostname L \<and>
    (case mj of None \<Rightarrow> L' = L
     | Some j \<Rightarrow> \<exists>h'. livesource_update_execute_diff api h j (lt_hostname L) = Some (200, h') \<and> replica_ok h' L')"
proof (cases "hash_table_get (lt_hash L) m")
  case (Some l)
  with livesource_connected_taken[OF ok(1) Some c] ok(1) show ?thesis by simp
next
  case None
  let ?l = "direct_source m"
  from livesource_connected_fresh[OF ok(1) None] c obtain H where
    e: "mj = Some (livesource_update_json ?l L LIVESOURCE_UPDATE_ADD)" "L' = L\<lparr>lt_hash := H, lt_serial := lt_serial L + 1\<rparr>"
    and H: "hash_inv H" "hash_table_get H = (hash_table_get (lt_hash L))(m \<mapsto> ?l)" by auto
  have t': "table_ok L'" using ok(1) H unfolding e(2) table_ok_def by auto
  obtain R where R: "hash_inv h" "hash_table_get h (lt_hostname L) = Some R" "in_sync L R" using ok(2) by (auto simp: replica_ok_def)
  have hr: "hash_inv (lr_hash R)" "hash_table_get (lr_hash R) m = None"
    using R(3) None unfolding in_sync_def by (auto simp: map_option_is_None dest: spec[of _ m])
  let ?r = "livesource_remote_new m (convert_state (state_name LIVESOURCE_RUNNING)) (convert_type (type_name LIVESOURCE_TYPE_DIRECT))"
  obtain K where K: "hash_table_add True (lr_hash R) m ?r = (0, K)" "hash_inv K" "hash_table_get K = (hash_table_get (lr_hash R))(m \<mapsto> ?r)"
    using hash.add_fresh[OF hr, of ?r] by (metis prod.collapse)
  let ?R = "R\<lparr>lr_hash := K, lr_serial := lr_serial R + 1\<rparr>"
  have a: "apply_diff api R (update_name LIVESOURCE_UPDATE_ADD) (livesource_json ?l LIVESOURCE_UPDATE_ADD) = Some (200, ?R)"
    using hr(2) K(1) by (simp add: apply_diff_def source_json_read[OF api])
  have "in_sync L' ?R"
    using R(3) K H unfolding e(2) in_sync_def by (simp add: remote_view_def local_view_def livesource_remote_new_def)
  from diff_in_sync[OF api R _ a this] t' e show ?thesis by simp
qed

text \<open>The full table.\<close>

lemma nodes_add_ok:
  assumes "hash_inv ns"
  shows "\<exists>ns'. nodes_add_node now ns host j = Some ns' \<and> hash_inv ns'"
proof (cases "hash_table_get ns host")
  case None
  then obtain h where "hash_table_add True ns host \<lparr>node_j = j, last_update = now, n_state = NODE_UP\<rparr> = (0, h)" "hash_inv h"
    using hash.add_fresh[OF assms None, of "\<lparr>node_j = j, last_update = now, n_state = NODE_UP\<rparr>"] by (metis prod.collapse)
  with None show ?thesis by (simp add: nodes_add_node_def)
next
  case (Some n)
  with hash_table_set_value_correct(1)[OF assms] show ?thesis by (simp add: nodes_add_node_def)
qed

lemma add_remotes_correct:
  assumes api: "json_api_ok api"
  shows "hash_inv h \<Longrightarrow> distinct (map elem_key es) \<Longrightarrow> \<forall>e \<in> set es. hash_table_get h (elem_key e) = None \<Longrightarrow>
    \<exists>h'. add_remotes api h (map (\<lambda>e. (elem_key e, livesource_json (elem_value e) LIVESOURCE_UPDATE_NONE)) es) = Some h' \<and> hash_inv h' \<and>
      (\<forall>m. map_option remote_view (hash_table_get h' m) =
        (case map_of (map kv_pair es) m of Some l \<Rightarrow> Some (local_view l) | None \<Rightarrow> map_option remote_view (hash_table_get h m)))"
proof (induction es arbitrary: h)
  case (Cons e es)
  let ?l = "elem_value e"
  let ?r = "livesource_remote_new (elem_key e) (convert_state (state_name (ls_state ?l))) (convert_type (type_name (ls_type ?l)))"
  have none: "hash_table_get h (elem_key e) = None" using Cons.prems(3) by simp
  obtain h1 where h1: "hash_table_add True h (elem_key e) ?r = (0, h1)" "hash_inv h1" "hash_table_get h1 = (hash_table_get h)(elem_key e \<mapsto> ?r)"
    using hash.add_fresh[OF Cons.prems(1) none, of ?r] by (metis prod.collapse)
  have "\<forall>x \<in> set es. hash_table_get h1 (elem_key x) = None" using Cons.prems(2,3) h1(3) by (auto simp: image_iff)
  from Cons.IH[OF h1(2) _ this] Cons.prems(2) obtain h2 where
    h2: "add_remotes api h1 (map (\<lambda>e. (elem_key e, livesource_json (elem_value e) LIVESOURCE_UPDATE_NONE)) es) = Some h2" "hash_inv h2"
      "\<forall>m. map_option remote_view (hash_table_get h2 m) =
        (case map_of (map kv_pair es) m of Some l \<Rightarrow> Some (local_view l) | None \<Rightarrow> map_option remote_view (hash_table_get h1 m))" by auto
  have "map_of (map kv_pair es) (elem_key e) = None" using Cons.prems(2) map_of_kv_None[of es "elem_key e"] by simp
  moreover have g: "hash_table_get h1 m = (if m = elem_key e then Some ?r else hash_table_get h m)" for m using h1(3) by simp
  moreover have "remote_view ?r = local_view ?l" by (simp add: remote_view_def local_view_def livesource_remote_new_def)
  ultimately have "map_option remote_view (hash_table_get h2 m) =
      (case map_of (map kv_pair (e # es)) m of Some l \<Rightarrow> Some (local_view l) | None \<Rightarrow> map_option remote_view (hash_table_get h m))" for m
    unfolding h2(3)[rule_format] g by (cases "m = elem_key e") (simp_all split: option.split)
  with h1(1) h2(1,2) show ?case by (simp add: source_json_read[OF api])
qed auto

lemma sync_fulltable:
  assumes api: "json_api_ok api" and ok: "table_ok L" and ep: "endpoints_from_json api ep = Some pe"
    and s: "hash_inv (sy_remote s)" "hash_inv (sy_nodes s)"
  shows "\<exists>j s'. livesource_full_update_json ep L = Some j \<and> livesource_update_execute api now s j = Some (200, s') \<and>
    replica_ok (sy_remote s') L \<and> hash_inv (sy_nodes s')"
proof -
  let ?es = "hash_elements (lt_hash L)"
  have inv: "hash_inv (lt_hash L)" using ok by (simp add: table_ok_def)
  define fs where "fs = map (\<lambda>e. (elem_key e, livesource_json (elem_value e) LIVESOURCE_UPDATE_NONE)) ?es"
  define j where "j = JObject (list_base_json L @ [(''endpoints'', ep), (''livesources'', JObject fs), (''type'', JString ''fulltable'')])"
  have jf: "livesource_full_update_json ep L = Some j"
    by (simp add: livesource_full_update_json_def livesource_list_local_json_def hash_foreach_eq[OF inv] j_def fs_def)
  have g: "get_str api j ''type'' = Some ''fulltable''" "get_str api j ''hostname'' = Some (lt_hostname L)"
    "obj_get api j ''endpoints'' = Some ep" "obj_get api j ''livesources'' = Some (JObject fs)"
    "obj_get api j ''serial'' = Some (JInt (sint (lt_serial L)))" "get_str api j ''start_date'' = Some (lt_start_date L)"
    by (simp_all add: j_def list_base_json_def get_str_def json_read[OF api])
  obtain h0 :: "livesource_remote hash_table" where h0: "hash_table_new True 509 = Some h0" by (auto simp: hash_table_new_def)
  then have h0_ok: "hash_inv h0" "hash_table_get h0 = Map.empty" using hash_table_new_correct by blast+
  from add_remotes_correct[OF api h0_ok(1) hash_keys_distinct[OF inv]] h0_ok(2) obtain h1 where
    h1: "add_remotes api h0 fs = Some h1" "hash_inv h1"
      "\<forall>m. map_option remote_view (hash_table_get h1 m) = map_option local_view (map_of (map kv_pair ?es) m)"
    by (auto simp: fs_def option.case_eq_if map_option_case)
  let ?R = "\<lparr>lr_hash = h1, lr_serial = lt_serial L, lr_start_date = lt_start_date L, lr_hostname = lt_hostname L, lr_endpoints = pe\<rparr>"
  have sync: "in_sync L ?R" using h1 by (simp add: in_sync_def hash_table_get_elements[OF inv])
  have pf: "livesource_process_fulltable api j (lt_hostname L) = Some (Some ?R)"
    unfolding livesource_process_fulltable_def g prod.case option.case ep
    by (simp add: livesources_remote_new_def h0 json_read[OF api] serial_read[OF api] h1(1))
  obtain ns where ns: "nodes_add_node now (sy_nodes s) (lt_hostname L) (Some ep) = Some ns" "hash_inv ns"
    using nodes_add_ok[OF s(2)] by blast
  note wk = without_key_correct[OF s(1), of "lt_hostname L"]
  obtain H where H: "hash_table_add True (without_key (lt_hostname L) (sy_remote s)) (lt_hostname L) ?R = (0, H)" "hash_inv H"
      "hash_table_get H (lt_hostname L) = Some ?R"
    using hash.add_fresh[of "without_key (lt_hostname L) (sy_remote s)" "lt_hostname L" ?R] wk by (metis fun_upd_same prod.collapse)
  have "hash_inv (node_set_state now ns (lt_hostname L) NODE_UP)"
    using hash_table_set_value_correct(1)[OF ns(2)] ns(2) by (simp add: node_set_state_def split: option.split)
  moreover have "livesources_remote_replace now (s\<lparr>sy_nodes := ns\<rparr>) (lt_hostname L) (Some ?R) =
      Some (s\<lparr>sy_nodes := node_set_state now ns (lt_hostname L) NODE_UP, sy_remote := H\<rparr>)"
    using H(1) by (simp add: livesources_remote_replace_def hash_table_get_del_eq)
  moreover have "replica_ok H L" using H(2,3) sync by (auto simp: replica_ok_def)
  ultimately show ?thesis using jf pf ns(1)
    by (simp add: livesource_update_execute_def g livesource_update_execute_fulltable_def)
qed

text \<open>Any change, with its message if there is one.\<close>

lemma sync_change:
  assumes "json_api_ok api" "table_ok L" "replica_ok h L" "apply_change L c = Some (mj, L')"
  shows "table_ok L' \<and> lt_hostname L' = lt_hostname L \<and>
    (case mj of None \<Rightarrow> L' = L
     | Some j \<Rightarrow> \<exists>h'. livesource_update_execute_diff api h j (lt_hostname L) = Some (200, h') \<and> replica_ok h' L')"
proof (cases c)
  case (Connect m)
  with assms(4) obtain n where "livesource_connected L True m = Some (n, mj, L')" by auto
  from sync_connected[OF assms(1-3) this] show ?thesis .
next
  case (Disconnect m)
  with assms(4) have "livesource_unregister L m = Some (mj, L')" by simp
  from sync_del[OF assms(1-3) this] show ?thesis by auto
next
  case (Set_state m st)
  with assms(4) have "livesource_set_state L m st = Some (mj, L')" by simp
  from sync_set_state[OF assms(1-3) this] show ?thesis .
qed

text \<open>The messages name their node and are not full tables.\<close>

lemma change_message:
  assumes "json_api_ok api" "apply_change L c = Some (Some j, L')"
  shows "get_str api j ''hostname'' = Some (lt_hostname L)" "\<exists>ty. get_str api j ''type'' = Some ty \<and> ty \<noteq> ''fulltable''"
    "obj_get api j ''endpoints'' = None"
proof -
  have t: "update_name u \<noteq> ''fulltable''" for u by (cases u) simp_all
  have u: "get_str api (livesource_update_json l L u) ''hostname'' = Some (lt_hostname L) \<and>
      (\<exists>ty. get_str api (livesource_update_json l L u) ''type'' = Some ty \<and> ty \<noteq> ''fulltable'') \<and>
      obj_get api (livesource_update_json l L u) ''endpoints'' = None" for l u
    using t by (simp add: livesource_update_json_def get_str_def json_read[OF assms(1)])
  have h: "livesource_update_json l (L\<lparr>lt_hash := x\<rparr>) w = livesource_update_json l L w" for l x w
    by (simp add: livesource_update_json_def)
  have "\<exists>l u. j = livesource_update_json l L u"
  proof (cases c)
    case (Connect m)
    then show ?thesis using assms(2)
      by (auto simp: livesource_connected_def livesource_find_unlocked_def bind_eq_Some_conv Let_def h split: if_splits prod.splits)
  next
    case (Disconnect m)
    then show ?thesis using assms(2)
      by (cases "hash_table_get (lt_hash L) m") (auto simp: livesource_unregister_def Let_def case_prod_beta split: if_splits)
  next
    case (Set_state m st)
    then show ?thesis using assms(2)
      by (auto simp: livesource_set_state_def bind_eq_Some_conv Let_def split: if_splits)
  qed
  then obtain l v where "j = livesource_update_json l L v" by blast
  with u[of l v] show "get_str api j ''hostname'' = Some (lt_hostname L)" "\<exists>ty. get_str api j ''type'' = Some ty \<and> ty \<noteq> ''fulltable''"
    "obj_get api j ''endpoints'' = None" by simp_all
qed

lemma receive_changes:
  assumes api: "json_api_ok api"
  shows "table_ok L \<Longrightarrow> replica_ok (sy_remote s) L \<Longrightarrow> hash_inv (sy_nodes s) \<Longrightarrow> run_changes L cs = Some (js, L') \<Longrightarrow>
    \<exists>s'. receive_all api now s js = Some s' \<and> replica_ok (sy_remote s') L'"
proof (induction cs arbitrary: L s js)
  case Nil
  then show ?case by auto
next
  case (Cons c cs)
  from Cons.prems(4) obtain mj L1 js1 where c: "apply_change L c = Some (mj, L1)" "run_changes L1 cs = Some (js1, L')"
      "js = (case mj of None \<Rightarrow> js1 | Some j \<Rightarrow> j # js1)" by (auto simp: bind_eq_Some_conv)
  note st = sync_change[OF api Cons.prems(1,2) c(1)]
  show ?case
  proof (cases mj)
    case None
    with st Cons.IH[of L1 s js1] Cons.prems c show ?thesis by simp
  next
    case (Some j)
    from st Some obtain h' where h': "livesource_update_execute_diff api (sy_remote s) j (lt_hostname L) = Some (200, h')" "replica_ok h' L1"
      by auto
    obtain ns where ns: "nodes_add_node now (sy_nodes s) (lt_hostname L) None = Some ns" "hash_inv ns"
      using nodes_add_ok[OF Cons.prems(3)] by blast
    let ?s = "s\<lparr>sy_nodes := ns, sy_remote := h'\<rparr>"
    obtain ty where ty: "get_str api j ''type'' = Some ty" "ty \<noteq> ''fulltable''"
      using change_message(2)[OF api] c(1) Some by blast
    have "livesource_update_execute api now s j = Some (200, ?s)"
      using ty h'(1) ns(1) change_message(1,3)[OF api] c(1) Some by (simp add: livesource_update_execute_def)
    moreover have "\<exists>s'. receive_all api now ?s js1 = Some s' \<and> replica_ok (sy_remote s') L'"
      using st h'(2) ns(2) c(2) by (intro Cons.IH) simp_all
    ultimately show ?thesis using c(3) Some by simp
  qed
qed

text \<open>
  C4: A node that gets the full table of another node and then every message of the changes that are
  made to it (sources connect, disconnect, change state), in order, answers 200 to each of them, and
  its copy has then the sources, states, types, serial number and start date of the table at the end.
  The JSON library writes and reads back the values it is given.
\<close>
theorem replica_follows:
  assumes "json_api_ok api" "table_ok L" "hash_inv (sy_remote s)" "hash_inv (sy_nodes s)"
    "endpoints_from_json api ep = Some pe" "run_changes L cs = Some (js, L')"
  shows "\<exists>full s'. livesource_full_update_json ep L = Some full \<and> receive_all api now s (full # js) = Some s' \<and>
    replica_ok (sy_remote s') L'"
proof -
  from sync_fulltable[OF assms(1,2,5,3,4)] obtain full s1 where
    f: "livesource_full_update_json ep L = Some full" "livesource_update_execute api now s full = Some (200, s1)"
      "replica_ok (sy_remote s1) L" "hash_inv (sy_nodes s1)" by blast
  from receive_changes[OF assms(1,2) f(3,4) assms(6)] obtain s' where
    "receive_all api now s1 js = Some s'" "replica_ok (sy_remote s') L'" by blast
  with f(1,2) show ?thesis by simp
qed

definition example_table :: livesources where
  "example_table = \<lparr>lt_hash = the (hash_table_new True 5), lt_remote = the (hash_table_new True 5), lt_serial = 0,
     lt_start_date = ''d'', lt_hostname = ''a''\<rparr>"

definition example_endpoints :: json where
  "example_endpoints = JArray [JObject [(''host'', JString ''h''), (''tls'', JBool False), (''port'', JInt 2101)]]"

definition example_sync :: sync_state where
  "example_sync = \<lparr>sy_remote = the (hash_table_new True 5), sy_nodes = the (hash_table_new True 5), req_node = None, syncer_id = None\<rparr>"

definition example_changes :: "local_change list" where
  "example_changes = [Connect ''M'', Set_state ''M'' LIVESOURCE_INIT, Disconnect ''M'']"

lemma example_sync_ok:
  "table_ok example_table" "hash_inv (sy_remote example_sync)" "hash_inv (sy_nodes example_sync)"
  by (simp_all add: table_ok_def example_table_def example_sync_def hash_fresh_5)

lemma example_changes_run: "run_changes example_table example_changes \<noteq> None"
proof -
  have none: "hash_table_get (lt_hash example_table) ''M'' = None" by (simp add: example_table_def hash_fresh_5)
  from livesource_connected_fresh[OF example_sync_ok(1) none] obtain H where
    H: "livesource_connected example_table True ''M'' = Some (1, Some (livesource_update_json (direct_source ''M'') example_table LIVESOURCE_UPDATE_ADD),
        example_table\<lparr>lt_hash := H, lt_serial := lt_serial example_table + 1\<rparr>)"
      "hash_inv H" "hash_table_get H ''M'' = Some (direct_source ''M'')" by auto
  have "hash_table_get H ''M'' \<noteq> None" using H(3) by simp
  note sv = hash_table_set_value_correct[OF H(2) this, of "direct_source ''M''\<lparr>ls_state := LIVESOURCE_INIT\<rparr>"]
  show ?thesis
    using H(1,3) sv by (simp add: example_changes_def livesource_set_state_def livesource_unregister_def Let_def hash_table_del_eq)
qed

theorem replica_follows_witness:
  "\<exists>js L' full s'. run_changes example_table example_changes = Some (js, L') \<and>
     livesource_full_update_json example_endpoints example_table = Some full \<and>
     receive_all plain_api (0, 0) example_sync (full # js) = Some s' \<and> replica_ok (sy_remote s') L'"
proof -
  obtain js L' where r: "run_changes example_table example_changes = Some (js, L')" using example_changes_run by auto
  have "endpoints_from_json plain_api example_endpoints = Some [endpoint_init (Some ''h'') 2101 0]"
    by (simp add: endpoints_from_json_def example_endpoints_def json_read[OF plain_api_ok])
  from replica_follows[OF plain_api_ok example_sync_ok this r, of "(0, 0)"] r show ?thesis by blast
qed

text \<open>A copy in step can be shown: its numbers are names of states and types.\<close>

lemma name_at_convert [simp]:
  "name_at livesource_states (convert_state (state_name st)) = Some (state_name st)"
  "name_at livesource_types (convert_type (type_name ty)) = Some (type_name ty)"
  by (cases st; simp add: name_at_def livesource_states_def convert_state_def)
     (cases ty; simp add: name_at_def livesource_types_def convert_type_def)

lemma in_sync_shown:
  assumes "in_sync L R" "hash_table_get (lr_hash R) m = Some r"
  shows "\<exists>l. hash_table_get (lt_hash L) m = Some l \<and> livesource_remote_json r =
    Some (JObject (livesource_common_json (rl_mountpoint r) (state_name (ls_state l)) (type_name (ls_type l)) True))"
proof -
  from assms have "map_option local_view (hash_table_get (lt_hash L) m) = Some (remote_view r)"
    unfolding in_sync_def by (metis option.simps(9))
  then obtain l where l: "hash_table_get (lt_hash L) m = Some l" "rl_state r = convert_state (state_name (ls_state l))"
    "rl_type r = convert_type (type_name (ls_type l))" by (auto simp: local_view_def remote_view_def)
  then show ?thesis by (simp add: livesource_remote_json_def)
qed

text \<open>A name of a state or type that the node does not know is kept as \<open>-1\<close>, and cannot be shown.\<close>

lemma unknown_state_not_shown:
  "s \<notin> set livesource_states \<Longrightarrow> livesource_remote_json (livesource_remote_new m (convert_state s) t) = None"
  by (simp add: livesource_remote_json_def livesource_remote_new_def convert_state_def livesource_states_def name_at_def)

text \<open>The endpoints of a node are read back as they were written.\<close>

lemma endpoints_json_roundtrip:
  assumes api: "json_api_ok api"
  shows "\<forall>e \<in> set es. ep_host e \<noteq> None \<and> ep_tls e \<in> {0, 1} \<Longrightarrow> endpoints_from_json api (endpoints_to_json es) = Some es"
proof (induction es)
  case (Cons e es)
  have "- (2 ^ 31) \<le> uint (ep_port e)" by (rule order_trans[of _ 0]) simp_all
  moreover have "uint (ep_port e) < 2 ^ 31" by (rule order_less_le_trans[OF uint_lt2p]) simp
  ultimately have "get_int api (JInt (uint (ep_port e))) = uint (ep_port e)" using json_api_readers(3)[OF api] by blast
  with Cons show ?case
    by (cases e) (auto simp: endpoints_from_json_def endpoints_to_json_def endpoint_json_def endpoint_init_def json_read[OF api])
qed (simp add: endpoints_from_json_def endpoints_to_json_def json_read[OF api])

text \<open>
  A source created on demand changes the serial number and is not announced: the next message,
  whatever it is, is refused by a copy that was in step.
\<close>

lemma on_demand_unannounced:
  assumes "livesource_find_unlocked L st m d c od = Some (r, mj, Some e, L')"
  shows "mj = None \<and> lt_serial L' = lt_serial L + 1 \<and> lt_hostname L' = lt_hostname L \<and> lt_start_date L' = lt_start_date L"
  using assms unfolding livesource_find_unlocked_def Let_def
  by (auto simp: bind_eq_Some_conv case_prod_beta split: if_splits)

lemma on_demand_breaks_sync:
  assumes "json_api_ok api" "replica_ok h L" "livesource_find_unlocked L st m d c od = Some (r, mj, Some e, L')"
  shows "livesource_update_execute_diff api h (livesource_checkserial_json L') (lt_hostname L') = Some (404, h)"
proof -
  note u = on_demand_unannounced[OF assms(3)]
  let ?j = "livesource_checkserial_json L'"
  obtain R where R: "hash_table_get h (lt_hostname L) = Some R" "lr_serial R = lt_serial L" "lr_start_date R = lt_start_date L"
    using assms(2) by (auto simp: replica_ok_def in_sync_def)
  have "get_str api ?j ''type'' = Some ''checkserial''" "obj_get api ?j ''serial'' = Some (JInt (sint (lt_serial L')))"
    "obj_get api ?j ''start_date'' = Some (JString (lt_start_date L'))"
    by (simp_all add: livesource_checkserial_json_def list_base_json_def get_str_def json_read[OF assms(1)])
  then show ?thesis using u R
    by (simp add: livesource_update_execute_diff_def serial_read[OF assms(1)] json_read[OF assms(1)])
qed

end
