(* ===== verification/Adm.thy ===== *)
theory Adm
  imports Ntrip_Reply Livesource_Sync
begin

text \<open>
  The console (\<^verbatim>\<open>caster/adm.c\<close>), the requests it makes (\<^verbatim>\<open>caster/request.c\<close>), the files it and the web
  roots serve (\<^verbatim>\<open>caster/file.c\<close>) and the entry point of the replication (\<open>api_sync_json\<close> of
  \<^verbatim>\<open>caster/api.c\<close>). The file system is an argument \<open>fs\<close> that gives what can be read at a path; the JSON
  tokener is an argument \<open>parse\<close>. A content callback that is queued is a value of \<open>content_cb\<close>; what is
  queued or done besides the changes of the session is an \<open>adm_action\<close>.
\<close>

subsection \<open>Configuration and requests\<close>

record webroot =
  wr_path :: cstring
  wr_uri :: cstring

record adm_config =
  cfg_auth :: auth_config
  syncer_auth :: "cstring option"
  ui_dir :: "cstring option"
  webroots :: "webroot list"
  config_dir :: cstring

type_synonym file_system = "cstring \<Rightarrow> file_at option"

record request =
  req_hash :: "cstring hash_table option"
  req_json :: "json option"
  req_status :: nat

definition request_new :: request where
  "request_new = \<lparr>req_hash = None, req_json = None, req_status = 200\<rparr>"

subsection \<open>Files of the console\<close>

definition c_strrchr :: "char \<Rightarrow> cstring \<Rightarrow> cstring option" where
  "c_strrchr c s = (if c \<in> set s then Some (c # rev (takeWhile (\<lambda>x. x \<noteq> c) (rev s))) else None)"

definition ui_mime_type :: "cstring \<Rightarrow> cstring" where
  "ui_mime_type path =
     (case c_strrchr CHR ''.'' path of
        None \<Rightarrow> ''application/octet-stream''
      | Some dot \<Rightarrow>
          if dot = ''.html'' then ''text/html''
          else if dot = ''.js'' then ''application/javascript''
          else if dot = ''.css'' then ''text/css''
          else if dot = ''.json'' then ''application/json''
          else if dot = ''.svg'' then ''image/svg+xml''
          else if dot = ''.ico'' then ''image/x-icon''
          else ''application/octet-stream'')"

text \<open>The text after the first slash, the empty text if there is none: the end of an iteration of the path checks.\<close>

definition next_component :: "cstring \<Rightarrow> cstring" where
  "next_component p = (case dropWhile (\<lambda>c. c \<noteq> CHR ''/'') p of [] \<Rightarrow> [] | _ # r \<Rightarrow> r)"

lemma next_component_less: "p \<noteq> [] \<Longrightarrow> length (next_component p) < length p"
  using length_dropWhile_le[of "\<lambda>c. c \<noteq> CHR ''/''" p]
  by (auto simp: next_component_def split: list.split)

function ui_unsafe :: "cstring \<Rightarrow> bool" where
  "ui_unsafe p = (if p = [] then False else if take 2 p = ''..'' then True else ui_unsafe (next_component p))"
  by pat_completeness auto
termination by (relation "measure length") (use next_component_less in auto)

function check_safe_uri :: "cstring \<Rightarrow> bool" where
  "check_safe_uri p =
     (if p = [] then True
      else if take 2 p = ''./'' then False
      else if take 3 p = ''../'' then False
      else check_safe_uri (next_component p))"
  by pat_completeness auto
termination by (relation "measure length") (use next_component_less in auto)

declare ui_unsafe.simps [simp del] check_safe_uri.simps [simp del]

text \<open>Whether the request was handled, the error and the session.\<close>

definition ui_serve :: "adm_config \<Rightarrow> file_system \<Rightarrow> cstring \<Rightarrow> ntrip_state \<Rightarrow> cstring \<Rightarrow> (bool \<times> int \<times> ntrip_state) option" where
  "ui_serve config fs date st uri =
     (if uri \<noteq> ''/ui'' \<and> take 4 uri \<noteq> ''/ui/'' then Some (False, 0, st)
      else case ui_dir config of
        None \<Rightarrow> Some (True, 404, st)
      | Some dir \<Rightarrow>
          let rel = (if uri = ''/ui'' \<or> uri = ''/ui/'' then ''index.html'' else drop 4 uri) in
          if ui_unsafe rel then Some (True, 404, st)
          else
            (case fs (dir @ ''/'' @ rel) of
               None \<Rightarrow> Some (True, 404, st)
             | Some Not_regular \<Rightarrow> Some (True, 404, st)
             | Some Read_error \<Rightarrow> Some (True, 503, st)
             | Some (Regular s) \<Rightarrow> do {
                 let m = mime_new s (int (length s)) (Some (ui_mime_type rel));
                 st \<leftarrow> ntripsrv_send_result_ok date (st\<lparr>client_version := 0\<rparr>) (Some m) None;
                 Some (True, 0, st\<lparr>nt_state := NTRIP_WAIT_CLOSE\<rparr>)
               }))"

subsection \<open>Files of the web roots\<close>

text \<open>The result, the error and the session; \<open>-1\<close> with error 0 if no web root matches.\<close>

definition find_webroot :: "webroot list \<Rightarrow> cstring \<Rightarrow> webroot option" where
  "find_webroot wrs uri = List.find (\<lambda>w. wr_uri w \<noteq> [] \<and> length (wr_uri w) \<le> length uri \<and> take (length (wr_uri w)) uri = wr_uri w) wrs"

definition filesrv :: "adm_config \<Rightarrow> file_system \<Rightarrow> cstring \<Rightarrow> ntrip_state \<Rightarrow> cstring \<Rightarrow> (int \<times> int \<times> ntrip_state) option" where
  "filesrv config fs date st uri =
     (case find_webroot (webroots config) uri of
        None \<Rightarrow> Some (- 1, 0, st)
      | Some wr \<Rightarrow>
          if \<not> check_safe_uri uri then Some (- 1, 404, st)
          else do {
            let st = st\<lparr>client_version := 0, nt_type := ''file''\<rparr>;
            path \<leftarrow> path_join (config_dir config) [wr_path wr, uri];
            case fs path of
              None \<Rightarrow> Some (- 1, 404, st)
            | Some f \<Rightarrow>
                (case mime_file_read f of
                   None \<Rightarrow> Some (- 1, 503, st)
                 | Some m \<Rightarrow> do {
                     st \<leftarrow> ntripsrv_send_result_ok date st (Some m) None;
                     Some (0, 0, st\<lparr>nt_state := NTRIP_WAIT_CLOSE\<rparr>)
                   })
          })"

subsection \<open>Calls\<close>

datatype content_cb =
    Api_ntrip_list_json | Api_rtcm_json | Api_mem_json | Api_nodes_json | Api_log_json | Api_auth_list_json
  | Api_settings_get_json | Livesource_list_json | Sourcetable_list_json | Api_near_json | Api_alarms_json
  | Api_whoami_json | Api_reload_json | Api_drop_json | Api_add_source_json | Api_remove_source_json
  | Api_detect_source_json | Api_edit_source_json | Api_auth_set_json | Api_settings_set_json

datatype adm_action = No_action | Queue_content content_cb request | Sync_content request

definition calls :: "(cstring \<times> cstring \<times> content_cb) list" where
  "calls = [
     (''/api/v1/net'', ''GET'', Api_ntrip_list_json),
     (''/api/v1/rtcm'', ''GET'', Api_rtcm_json),
     (''/api/v1/mem'', ''GET'', Api_mem_json),
     (''/api/v1/nodes'', ''GET'', Api_nodes_json),
     (''/api/v1/log'', ''GET'', Api_log_json),
     (''/api/v1/auth'', ''GET'', Api_auth_list_json),
     (''/api/v1/settings'', ''GET'', Api_settings_get_json),
     (''/api/v1/livesources'', ''GET'', Livesource_list_json),
     (''/api/v1/sourcetables'', ''GET'', Sourcetable_list_json),
     (''/api/v1/near'', ''GET'', Api_near_json),
     (''/api/v1/alarms'', ''GET'', Api_alarms_json),
     (''/api/v1/whoami'', ''GET'', Api_whoami_json),
     (''/api/v1/reload'', ''POST'', Api_reload_json),
     (''/api/v1/drop'', ''POST'', Api_drop_json),
     (''/api/v1/sources'', ''POST'', Api_add_source_json),
     (''/api/v1/sources/remove'', ''POST'', Api_remove_source_json),
     (''/api/v1/sources/detect'', ''POST'', Api_detect_source_json),
     (''/api/v1/sources/edit'', ''POST'', Api_edit_source_json),
     (''/api/v1/auth'', ''POST'', Api_auth_set_json),
     (''/api/v1/settings'', ''POST'', Api_settings_set_json)]"

fun find_call :: "(cstring \<times> cstring \<times> content_cb) list \<Rightarrow> cstring \<Rightarrow> cstring \<Rightarrow> bool \<Rightarrow> bool \<times> content_cb option" where
  "find_call [] uri meth uri_matched = (uri_matched, None)"
| "find_call ((u, m, cb) # r) uri meth uri_matched =
     (if uri \<noteq> u then find_call r uri meth uri_matched
      else if meth = m then (True, Some cb)
      else find_call r uri meth True)"

text \<open>A reply of the console: the result, the error, the session, the extra headers, the action.\<close>

record adm_out =
  ao_ret :: int
  ao_err :: int
  ao_st :: ntrip_state
  ao_headers :: headers
  ao_action :: adm_action

abbreviation adm_fail :: "int \<Rightarrow> ntrip_state \<Rightarrow> adm_out" where
  "adm_fail err st \<equiv> \<lparr>ao_ret = - 1, ao_err = err, ao_st = st, ao_headers = [], ao_action = No_action\<rparr>"

abbreviation adm_ok :: "ntrip_state \<Rightarrow> adm_action \<Rightarrow> adm_out" where
  "adm_ok st a \<equiv> \<lparr>ao_ret = 0, ao_err = 0, ao_st = st, ao_headers = [], ao_action = a\<rparr>"

text \<open>The body of a request as a text; it is terminated by a zero byte.\<close>

definition content_text :: "ntrip_state \<Rightarrow> cstring option" where
  "content_text st = map_option (\<lambda>bs. takeWhile (\<lambda>c. c \<noteq> CHR 0x00) (string_of bs)) (content st)"

text \<open>\<open>hash_from_urlencoding\<close> with a pointer that may be NULL, which gives an empty table.\<close>

definition hash_from_text :: "cstring option \<Rightarrow> cstring hash_table option" where
  "hash_from_text s = (case s of None \<Rightarrow> hash_table_new True 37 | Some s \<Rightarrow> hash_from_urlencoding s)"

text \<open>
  The arguments of the request: \<open>Inl\<close> an error, \<open>Inr\<close> the table of form fields, if there is one,
  and whether the body is JSON.
\<close>

definition adm_arguments :: "ntrip_state \<Rightarrow> cstring \<Rightarrow> cstring \<Rightarrow> int + cstring hash_table option \<times> bool" where
  "adm_arguments st meth uri =
     (if meth = ''POST'' then
        (case content_type st of
           Some t \<Rightarrow>
             if t \<noteq> ''application/x-www-form-urlencoded'' \<and> t \<noteq> ''application/json'' then Inl 503
             else if t = ''application/json'' then (if content st = None then Inl 400 else Inr (None, True))
             else (case hash_from_text (content_text st) of None \<Rightarrow> Inl 503 | Some h \<Rightarrow> Inr (Some h, False))
         | None \<Rightarrow> (case hash_from_text (content_text st) of None \<Rightarrow> Inl 503 | Some h \<Rightarrow> Inr (Some h, False)))
      else if meth = ''GET'' \<and> (query_string st \<noteq> None \<or> take 8 uri = ''/api/v1/'') then
        (case hash_from_text (query_string st) of None \<Rightarrow> Inl 503 | Some h \<Rightarrow> Inr (Some h, False))
      else Inr (None, False))"

text \<open>The credentials: those of the header if its scheme is \<open>Basic\<close>, else the fields of the form.\<close>

definition adm_credentials :: "ntrip_state \<Rightarrow> cstring hash_table \<Rightarrow> cstring option \<times> cstring option" where
  "adm_credentials st h =
     (if scheme_basic st \<and> nt_user st \<noteq> None \<and> nt_password st \<noteq> None then (nt_user st, nt_password st)
      else (hash_table_get h ''user'', hash_table_get h ''password''))"

definition adm_call :: "adm_config \<Rightarrow> ntrip_state \<Rightarrow> cstring \<Rightarrow> cstring \<Rightarrow> request \<Rightarrow> cstring hash_table \<Rightarrow> adm_out" where
  "adm_call config st meth uri req h =
     (let (user, password) = adm_credentials st h;
          role = resolve_admin_role (cfg_auth config) user password;
          st = st\<lparr>nt_admin_role := role\<rparr>
      in if role = ADMIN_ROLE_NONE then adm_fail 401 st
         else case find_call calls uri meth False of
           (False, _) \<Rightarrow> adm_fail 404 st
         | (True, None) \<Rightarrow> adm_fail 405 st
         | (True, Some cb) \<Rightarrow>
             if meth = ''POST'' \<and> role \<noteq> ADMIN_ROLE_ADMIN then adm_fail 403 st
             else adm_ok st (Queue_content cb (req\<lparr>req_hash := Some h\<rparr>)))"

definition adm_json :: "(cstring \<Rightarrow> json option) \<Rightarrow> adm_config \<Rightarrow> ntrip_state \<Rightarrow> cstring \<Rightarrow> cstring \<Rightarrow> request \<Rightarrow> adm_out" where
  "adm_json parse config st meth uri req =
     (case Option.bind (content_text st) parse of
        None \<Rightarrow> adm_fail 400 st
      | Some j \<Rightarrow>
          if uri = ''/api/v1/sync'' \<and> meth = ''POST'' then
            (if syncer_auth config = None \<or> nt_password st = None \<or> scheme_basic st \<or> syncer_auth config \<noteq> nt_password st
             then adm_fail 401 st
             else adm_ok st (Sync_content (req\<lparr>req_json := Some j\<rparr>)))
          else adm_fail 404 st)"

text \<open>The routes without arguments; \<open>stats\<close> stands for \<open>malloc_stats_dump\<close>.\<close>

definition adm_legacy ::
  "adm_config \<Rightarrow> (bool \<Rightarrow> mime_content) \<Rightarrow> cstring \<Rightarrow> ntrip_state \<Rightarrow> cstring \<Rightarrow> cstring \<Rightarrow> request \<Rightarrow> adm_out option" where
  "adm_legacy config stats date st root_uri uri req =
     (let role = (case nt_user st of None \<Rightarrow> ADMIN_ROLE_NONE
            | Some u \<Rightarrow> resolve_admin_role (cfg_auth config) (Some u) (nt_password st));
          st = st\<lparr>nt_admin_role := role\<rparr>
      in if role = ADMIN_ROLE_NONE then
           Some \<lparr>ao_ret = 0, ao_err = 401, ao_st = st, ao_headers = [(''WWW-Authenticate'', ''Basic realm=\"'' @ root_uri @ ''\"'')], ao_action = No_action\<rparr>
         else if uri = ''/mem'' \<or> uri = ''/mem.json'' then do {
           st \<leftarrow> ntripsrv_send_result_ok date st (Some (stats (length uri \<ge> 5 \<and> drop (length uri - 5) uri = ''.json''))) None;
           Some (adm_ok (st\<lparr>nt_state := NTRIP_WAIT_CLOSE\<rparr>) No_action)
         }
         else if uri = ''/net'' then Some (adm_ok st (Queue_content Api_ntrip_list_json req))
         else Some (adm_fail 404 st))"

definition admsrv ::
  "(cstring \<Rightarrow> json option) \<Rightarrow> adm_config \<Rightarrow> file_system \<Rightarrow> (bool \<Rightarrow> mime_content) \<Rightarrow> cstring \<Rightarrow> ntrip_state \<Rightarrow> cstring \<Rightarrow> cstring \<Rightarrow> cstring \<Rightarrow>
   adm_out option" where
  "admsrv parse config fs stats date st meth root_uri uri = do {
     (handled, err, st) \<leftarrow> (if meth = ''GET'' then ui_serve config fs date st uri else Some (False, 0, st));
     if handled then Some \<lparr>ao_ret = (if err \<noteq> 0 then - 1 else 0), ao_err = err, ao_st = st, ao_headers = [], ao_action = No_action\<rparr>
     else do {
       let st = st\<lparr>client_version := 0\<rparr>;
       case adm_arguments st meth uri of
         Inl err \<Rightarrow> Some (adm_fail err st)
       | Inr (Some h, _) \<Rightarrow> Some (adm_call config st meth uri request_new h)
       | Inr (None, True) \<Rightarrow> Some (adm_json parse config st meth uri request_new)
       | Inr (None, False) \<Rightarrow> adm_legacy config stats date st root_uri uri request_new
     }
   }"

subsection \<open>Replication requests\<close>

definition api_sync_json ::
  "json_api \<Rightarrow> (cstring \<Rightarrow> int option) \<Rightarrow> sourceline \<Rightarrow> timeval \<Rightarrow> json \<Rightarrow> sourcetable list \<times> sync_state \<Rightarrow>
   (nat \<times> mime_content \<times> sourcetable list \<times> sync_state) option" where
  "api_sync_json api strptime uninit now j = (\<lambda>(stack, sync). do {
     (status, stack, sync) \<leftarrow>
       (case Option.bind (obj_get api j ''type'') (get_string api) of
          None \<Rightarrow> Some (400, stack, sync)
        | Some type \<Rightarrow>
            if type = ''sourcetable'' then
              (let (r, stack) = sourcetable_update_execute api strptime uninit stack j in Some (r, stack, sync))
            else do { (r, sync) \<leftarrow> livesource_update_execute api now sync j; Some (r, stack, sync) });
     Some (nat status, mime_new [] (- 1) (Some ''application/json''), stack, sync)
   })"

subsection \<open>Access to the console\<close>

text \<open>The callbacks of the second half of the table change the caster; all of them need the method \<open>POST\<close>.\<close>

definition cb_mutates :: "content_cb \<Rightarrow> bool" where
  "cb_mutates cb \<longleftrightarrow> cb \<in> {Api_reload_json, Api_drop_json, Api_add_source_json, Api_remove_source_json,
     Api_detect_source_json, Api_edit_source_json, Api_auth_set_json, Api_settings_set_json}"

lemma find_call_in: "find_call cs uri meth b = (b', Some cb) \<Longrightarrow> (uri, meth, cb) \<in> set cs"
  by (induction cs uri meth b rule: find_call.induct) (auto split: if_splits)

lemma calls_methods: "(uri, meth, cb) \<in> set calls \<Longrightarrow> (meth = ''POST'') = cb_mutates cb"
proof -
  have "list_all (\<lambda>(u, m, cb). (m = ''POST'') = cb_mutates cb) calls" by (simp add: calls_def cb_mutates_def)
  then show "(uri, meth, cb) \<in> set calls \<Longrightarrow> (meth = ''POST'') = cb_mutates cb" by (auto simp: list_all_iff)
qed

text \<open>The credentials that a request carries.\<close>

definition request_credentials :: "ntrip_state \<Rightarrow> cstring \<Rightarrow> cstring \<Rightarrow> cstring option \<times> cstring option \<Rightarrow> bool" where
  "request_credentials st meth uri c \<longleftrightarrow>
     c = (nt_user st, nt_password st) \<or>
     (\<exists>h j. adm_arguments st meth uri = Inr (Some h, j) \<and> c = (hash_table_get h ''user'', hash_table_get h ''password''))"

definition may_queue :: "adm_config \<Rightarrow> (cstring option \<times> cstring option \<Rightarrow> bool) \<Rightarrow> content_cb \<Rightarrow> admin_role \<Rightarrow> bool" where
  "may_queue config cred cb role \<longleftrightarrow> role \<noteq> ADMIN_ROLE_NONE \<and> (cb_mutates cb \<longrightarrow> role = ADMIN_ROLE_ADMIN) \<and>
     (\<exists>c. cred c \<and> role = resolve_admin_role (cfg_auth config) (fst c) (snd c))"

lemma arguments_cong: "adm_arguments (st\<lparr>client_version := v\<rparr>) meth uri = adm_arguments st meth uri"
proof -
  have c: "content (st\<lparr>client_version := v\<rparr>) = content st" "content_type (st\<lparr>client_version := v\<rparr>) = content_type st"
    "query_string (st\<lparr>client_version := v\<rparr>) = query_string st" by simp_all
  show ?thesis unfolding adm_arguments_def content_text_def c ..
qed

lemma adm_call_access:
  assumes "ao_action (adm_call config st meth uri req h) = Queue_content cb r" "adm_arguments st meth uri = Inr (Some h, j)"
  shows "may_queue config (request_credentials st meth uri) cb (nt_admin_role (ao_st (adm_call config st meth uri req h)))"
proof -
  obtain user pw where c: "adm_credentials st h = (user, pw)" by fastforce
  let ?role = "resolve_admin_role (cfg_auth config) user pw"
  have r: "?role \<noteq> ADMIN_ROLE_NONE" using assms(1) c by (auto simp: adm_call_def)
  obtain b cb' where f: "find_call calls uri meth False = (b, cb')" by fastforce
  with assms(1) c r have b: "b" "cb' = Some cb" "meth = ''POST'' \<longrightarrow> ?role = ADMIN_ROLE_ADMIN"
    by (auto simp: adm_call_def Let_def split: bool.splits option.splits if_splits)
  then have "cb_mutates cb \<longrightarrow> ?role = ADMIN_ROLE_ADMIN" using calls_methods find_call_in f by blast
  moreover have "request_credentials st meth uri (user, pw)"
    using c assms(2) by (auto simp: request_credentials_def adm_credentials_def split: if_splits)
  moreover have "nt_admin_role (ao_st (adm_call config st meth uri req h)) = ?role"
    using c r b f by (simp add: adm_call_def Let_def)
  ultimately show ?thesis using r unfolding may_queue_def by auto
qed

lemma adm_call_not_sync: "ao_action (adm_call config st meth uri req h) \<noteq> Sync_content r"
  by (auto simp: adm_call_def Let_def split: prod.split bool.split option.split)

lemma adm_json_access:
  "ao_action (adm_json parse config st meth uri req) \<noteq> Queue_content cb r"
  "ao_action (adm_json parse config st meth uri req) = Sync_content r \<Longrightarrow>
     uri = ''/api/v1/sync'' \<and> meth = ''POST'' \<and> \<not> scheme_basic st \<and> syncer_auth config \<noteq> None \<and> nt_password st = syncer_auth config"
  by (auto simp: adm_json_def split: option.splits if_splits)

lemma adm_legacy_access:
  assumes "adm_legacy config stats date st ruri uri req = Some out"
  shows "ao_action out = Queue_content cb r \<Longrightarrow> may_queue config (request_credentials st meth uri') cb (nt_admin_role (ao_st out))"
    and "ao_action out \<noteq> Sync_content r"
  using assms
  by (auto simp: adm_legacy_def Let_def may_queue_def cb_mutates_def request_credentials_def
      split: if_splits option.splits Option.bind_splits) blast

lemma ui_serve_pass: "ui_serve config fs date st uri = Some (False, e, st') \<Longrightarrow> st' = st"
  by (auto simp: ui_serve_def Let_def split: if_splits option.splits file_at.splits Option.bind_splits)

text \<open>The ways to a reply: none that queues or stores anything, a handler with arguments, the JSON interface or the old pages.\<close>

lemma admsrv_dispatch:
  assumes "admsrv parse config fs stats date st meth root_uri uri = Some out"
  defines "st0 \<equiv> st\<lparr>client_version := 0\<rparr>"
  shows "(\<forall>cb r. ao_action out \<noteq> Queue_content cb r) \<and> (\<forall>r. ao_action out \<noteq> Sync_content r) \<or>
    (\<exists>h j. adm_arguments st0 meth uri = Inr (Some h, j) \<and> out = adm_call config st0 meth uri request_new h) \<or>
    out = adm_json parse config st0 meth uri request_new \<or> adm_legacy config stats date st0 root_uri uri request_new = Some out"
proof -
  from assms obtain handled err st1 where u: "(if meth = ''GET'' then ui_serve config fs date st uri else Some (False, 0, st)) = Some (handled, err, st1)"
    by (auto simp: admsrv_def bind_eq_Some_conv)
  show ?thesis
  proof (cases handled)
    case True
    then show ?thesis using assms u by (auto simp: admsrv_def)
  next
    case False
    then have "st1 = st" using u ui_serve_pass by (fastforce split: if_splits)
    with False u assms(1) have "(case adm_arguments st0 meth uri of
         Inl err \<Rightarrow> Some (adm_fail err st0)
       | Inr (Some h, _) \<Rightarrow> Some (adm_call config st0 meth uri request_new h)
       | Inr (None, True) \<Rightarrow> Some (adm_json parse config st0 meth uri request_new)
       | Inr (None, False) \<Rightarrow> adm_legacy config stats date st0 root_uri uri request_new) = Some out"
      unfolding st0_def by (simp add: admsrv_def Let_def)
    then show ?thesis by (auto split: sum.splits option.splits bool.splits)
  qed
qed

text \<open>
  C6: Access to the console. A call is queued only if the credentials of the request, those of the
  authorization header or those of the form, resolve to a role that is not \<open>ADMIN_ROLE_NONE\<close>, and a call
  that changes the caster only if they resolve to \<open>ADMIN_ROLE_ADMIN\<close>. A replication message is
  accepted only as a \<open>POST\<close> with the configured key under the internal scheme; without a configured
  key none is accepted.
\<close>
theorem adm_access:
  assumes "admsrv parse config fs stats date st meth root_uri uri = Some out"
  shows "(\<forall>cb r. ao_action out = Queue_content cb r \<longrightarrow>
      may_queue config (request_credentials st meth uri) cb (nt_admin_role (ao_st out))) \<and>
    (\<forall>r. ao_action out = Sync_content r \<longrightarrow> uri = ''/api/v1/sync'' \<and> meth = ''POST'' \<and> \<not> scheme_basic st \<and>
      syncer_auth config \<noteq> None \<and> nt_password st = syncer_auth config)"
proof -
  let ?st = "st\<lparr>client_version := 0\<rparr>"
  have cred: "request_credentials ?st = request_credentials st"
    by (intro ext) (simp add: request_credentials_def arguments_cong)
  from admsrv_dispatch[OF assms] show ?thesis
  proof (elim disjE exE conjE)
    fix h j assume a: "adm_arguments ?st meth uri = Inr (Some h, j)" and e: "out = adm_call config ?st meth uri request_new h"
    show ?thesis unfolding e using adm_call_access[OF _ a] adm_call_not_sync unfolding cred by blast
  next
    assume e: "out = adm_json parse config ?st meth uri request_new"
    show ?thesis unfolding e using adm_json_access[of parse config ?st meth uri request_new] by auto
  next
    assume "adm_legacy config stats date ?st root_uri uri request_new = Some out"
    from adm_legacy_access[OF this] show ?thesis unfolding cred[symmetric] by blast
  qed simp
qed

definition demo_adm :: adm_config where
  "demo_adm = \<lparr>cfg_auth = \<lparr>source_auth = Some [\<lparr>ae_key = ''console'', ae_user = ''root'', ae_password = ''pw''\<rparr>], rover_auth = None,
      user_auth = None, admin_user = ''console'', rover_auth_filename = None\<rparr>,
    syncer_auth = None, ui_dir = Some ''ui'', webroots = [], config_dir = ''/etc''\<rparr>"

definition demo_request :: ntrip_state where
  "demo_request = new_session\<lparr>scheme_basic := True, nt_user := Some ''root'', nt_password := Some ''pw''\<rparr>"

lemma demo_adm_role: "resolve_admin_role (cfg_auth demo_adm) (Some ''root'') (Some ''pw'') = ADMIN_ROLE_ADMIN"
  by (simp add: demo_adm_def resolve_admin_role_def check_password_def auth_lookup_def)

theorem adm_access_witness:
  "\<exists>out r. admsrv (\<lambda>_. None) demo_adm (\<lambda>_. None) (\<lambda>_. mime_new [] 0 None) ''now'' demo_request ''POST'' ''/adm'' ''/api/v1/reload'' = Some out \<and>
    ao_action out = Queue_content Api_reload_json r \<and>
    may_queue demo_adm (request_credentials demo_request ''POST'' ''/api/v1/reload'') Api_reload_json (nt_admin_role (ao_st out))"
proof -
  obtain h :: "cstring hash_table" where h: "hash_table_new True 37 = Some h" by (simp add: hash_table_new_def)
  let ?out = "adm_ok (demo_request\<lparr>client_version := 0, nt_admin_role := ADMIN_ROLE_ADMIN\<rparr>) (Queue_content Api_reload_json (request_new\<lparr>req_hash := Some h\<rparr>))"
  let ?st = "demo_request\<lparr>client_version := 0\<rparr>"
  have "adm_arguments ?st ''POST'' ''/api/v1/reload'' = Inr (Some h, False)"
    using h by (simp add: adm_arguments_def demo_request_def new_session_def ntrip_new_def hash_from_text_def content_text_def)
  moreover have "adm_credentials ?st h = (Some ''root'', Some ''pw'')" by (simp add: adm_credentials_def demo_request_def)
  moreover have "find_call calls ''/api/v1/reload'' ''POST'' False = (True, Some Api_reload_json)" by (simp add: calls_def)
  ultimately have e: "admsrv (\<lambda>_. None) demo_adm (\<lambda>_. None) (\<lambda>_. mime_new [] 0 None) ''now'' demo_request ''POST'' ''/adm'' ''/api/v1/reload'' = Some ?out"
    by (simp add: admsrv_def Let_def adm_call_def demo_adm_role)
  with adm_access[OF e] show ?thesis by auto
qed

subsection \<open>The files that can be read\<close>

lemma strsep_tokens_first:
  "strsep_tokens sep p = takeWhile (\<lambda>c. \<not> sep c) p # (case dropWhile (\<lambda>c. \<not> sep c) p of [] \<Rightarrow> [] | _ # r \<Rightarrow> strsep_tokens sep r)"
proof (induction p)
  case (Cons c p)
  show ?case
  proof (cases "sep c")
    case False
    then show ?thesis by (simp only: strsep_tokens.simps if_False Cons.IH list.case dropWhile.simps takeWhile.simps not_False_eq_True if_True)
  qed simp
qed simp

abbreviation components :: "cstring \<Rightarrow> cstring list" where
  "components p \<equiv> strsep_tokens (\<lambda>c. c = CHR ''/'') p"

lemma drop_to_slash:
  "CHR ''/'' \<notin> set p \<Longrightarrow> dropWhile (\<lambda>c. c \<noteq> CHR ''/'') p = []"
  "CHR ''/'' \<in> set p \<Longrightarrow> \<exists>r. dropWhile (\<lambda>c. c \<noteq> CHR ''/'') p = CHR ''/'' # r"
  by (induction p) auto

lemma next_component_last: "CHR ''/'' \<notin> set p \<Longrightarrow> next_component p = []"
  by (drule drop_to_slash(1)) (simp only: next_component_def list.case)

lemma components_next:
  "components p = takeWhile (\<lambda>c. c \<noteq> CHR ''/'') p # (if CHR ''/'' \<in> set p then components (next_component p) else [])"
proof (cases "CHR ''/'' \<in> set p")
  case True
  from drop_to_slash(2)[OF this] obtain r where "dropWhile (\<lambda>c. c \<noteq> CHR ''/'') p = CHR ''/'' # r" by blast
  with True show ?thesis by (subst strsep_tokens_first) (simp add: next_component_def)
next
  case False
  then show ?thesis unfolding strsep_tokens_first[of "\<lambda>c. c = CHR ''/''" p] drop_to_slash(1)[OF False] by simp
qed

lemma take2_first: "a \<noteq> CHR ''/'' \<Longrightarrow> b \<noteq> CHR ''/'' \<Longrightarrow> take 2 p = [a, b] \<longleftrightarrow> take 2 (takeWhile (\<lambda>c. c \<noteq> CHR ''/'') p) = [a, b]"
  by (cases p; cases "tl p") (auto simp: numeral_2_eq_2)

text \<open>The check of the console forbids a component that starts with two dots.\<close>

lemma ui_unsafe_iff: "ui_unsafe p \<longleftrightarrow> (\<exists>t \<in> set (components p). take 2 t = ''..'')"
proof (induction p rule: ui_unsafe.induct)
  case (1 p)
  note last = next_component_last[of p]
  show ?case
  proof (cases "p = [] \<or> take 2 p = ''..''")
    case True
    then show ?thesis using take2_first[of "CHR ''.''" "CHR ''.''" p]
      by (subst ui_unsafe.simps, subst components_next) auto
  next
    case False
    then have n: "take 2 (takeWhile (\<lambda>c. c \<noteq> CHR ''/'') p) \<noteq> ''..''" using take2_first[of "CHR ''.''" "CHR ''.''" p] by simp
    from False 1 have "ui_unsafe (next_component p) \<longleftrightarrow> (\<exists>t \<in> set (components (next_component p)). take 2 t = ''..'')" by simp
    with False n last show ?thesis
      by (subst ui_unsafe.simps, subst components_next) (cases "CHR ''/'' \<in> set p", auto)
  qed
qed

text \<open>The check of the web roots forbids one and two dots as a component before the last.\<close>

lemma butlast_components:
  "CHR ''/'' \<in> set p \<Longrightarrow> butlast (components p) = takeWhile (\<lambda>c. c \<noteq> CHR ''/'') p # butlast (components (next_component p))"
  by (subst components_next) simp

lemma take_first_component:
  assumes "CHR ''/'' \<notin> set t"
  shows "take (Suc (length t)) p = t @ ''/'' \<longleftrightarrow> CHR ''/'' \<in> set p \<and> takeWhile (\<lambda>c. c \<noteq> CHR ''/'') p = t"
  using assms
proof (induction t arbitrary: p)
  case Nil
  then show ?case by (cases p) auto
next
  case (Cons a t)
  then show ?case by (cases p) auto
qed

lemma check_safe_uri_iff: "check_safe_uri p \<longleftrightarrow> (\<forall>t \<in> set (butlast (components p)). t \<noteq> ''.'' \<and> t \<noteq> ''..'')"
proof (induction p rule: check_safe_uri.induct)
  case (1 p)
  have c: "take 2 p = ''./'' \<longleftrightarrow> CHR ''/'' \<in> set p \<and> takeWhile (\<lambda>c. c \<noteq> CHR ''/'') p = ''.''"
    "take 3 p = ''../'' \<longleftrightarrow> CHR ''/'' \<in> set p \<and> takeWhile (\<lambda>c. c \<noteq> CHR ''/'') p = ''..''"
    using take_first_component[of "''.''" p] take_first_component[of "''..''" p] by (simp_all add: numeral_2_eq_2 numeral_3_eq_3)
  show ?case
  proof (cases "CHR ''/'' \<in> set p")
    case False
    then have n: "next_component p = []" by (rule next_component_last)
    have "check_safe_uri []" by (simp add: check_safe_uri.simps)
    with False n c show ?thesis by (subst check_safe_uri.simps, subst components_next) auto
  next
    case True
    with 1 c show ?thesis by (subst check_safe_uri.simps) (auto simp: butlast_components)
  qed
qed

lemma ui_serve_confined:
  assumes "\<And>dir rel. ui_dir config = Some dir \<Longrightarrow> \<forall>t \<in> set (components rel). t \<noteq> ''..'' \<Longrightarrow> fs (dir @ ''/'' @ rel) = fs' (dir @ ''/'' @ rel)"
  shows "ui_serve config fs date st uri = ui_serve config fs' date st uri"
proof (cases "ui_dir config")
  case (Some dir)
  define rel where "rel = (if uri = ''/ui'' \<or> uri = ''/ui/'' then ''index.html'' else drop 4 uri)"
  have "\<not> ui_unsafe rel \<Longrightarrow> fs (dir @ ''/'' @ rel) = fs' (dir @ ''/'' @ rel)"
    unfolding ui_unsafe_iff by (intro assms[OF Some]) fastforce
  then show ?thesis unfolding ui_serve_def Let_def rel_def[symmetric] using Some by (cases "ui_unsafe rel") simp_all
qed (simp add: ui_serve_def)

lemma filesrv_confined:
  assumes "\<And>wr uri path. wr \<in> set (webroots config) \<Longrightarrow> \<forall>t \<in> set (butlast (components uri)). t \<noteq> ''..'' \<Longrightarrow>
      path_join (config_dir config) [wr_path wr, uri] = Some path \<Longrightarrow> fs path = fs' path"
  shows "filesrv config fs date st uri = filesrv config fs' date st uri"
proof (cases "find_webroot (webroots config) uri")
  case (Some wr)
  then have "wr \<in> set (webroots config)" by (auto simp: find_webroot_def find_Some_iff)
  from assms[OF this] have "check_safe_uri uri \<Longrightarrow> path_join (config_dir config) [wr_path wr, uri] = Some path \<Longrightarrow> fs path = fs' path" for path
    unfolding check_safe_uri_iff by blast
  with Some show ?thesis unfolding filesrv_def Let_def by (auto split: option.split Option.bind_split)
qed (simp add: filesrv_def)

text \<open>
  C28: The files that requests can reach. What the console answers depends on the file system only
  through paths that are the directory of the user interface followed by a relative path without a
  component \<open>..\<close>, and what the file service answers only through paths that are joined from a web root
  and a request path in which no component before the last is \<open>..\<close>: two file systems that agree
  on these give the same answers.
\<close>
theorem served_files_confined:
  assumes "\<forall>dir rel. ui_dir config = Some dir \<longrightarrow> (\<forall>t \<in> set (components rel). t \<noteq> ''..'') \<longrightarrow>
      fs (dir @ ''/'' @ rel) = fs' (dir @ ''/'' @ rel)"
    "\<forall>wr \<in> set (webroots config). \<forall>uri path. (\<forall>t \<in> set (butlast (components uri)). t \<noteq> ''..'') \<longrightarrow>
      path_join (config_dir config) [wr_path wr, uri] = Some path \<longrightarrow> fs path = fs' path"
  shows "admsrv parse config fs stats date st meth root_uri uri = admsrv parse config fs' stats date st meth root_uri uri \<and>
    filesrv config fs date st uri = filesrv config fs' date st uri"
proof
  have "ui_serve config fs date st uri = ui_serve config fs' date st uri" using assms(1) by (intro ui_serve_confined) blast
  then show "admsrv parse config fs stats date st meth root_uri uri = admsrv parse config fs' stats date st meth root_uri uri"
    by (simp add: admsrv_def)
  show "filesrv config fs date st uri = filesrv config fs' date st uri" using assms(2) by (intro filesrv_confined) blast
qed

definition demo_fs :: file_system where
  "demo_fs p = (if p = ''ui/index.html'' then Some (Regular ''hello'') else None)"

theorem served_files_confined_witness:
  "admsrv (\<lambda>_. None) demo_adm demo_fs (\<lambda>_. mime_new [] 0 None) ''now'' demo_request ''GET'' ''/adm'' ''/ui/../secret'' =
     admsrv (\<lambda>_. None) demo_adm (demo_fs(''ui/../secret'' \<mapsto> Regular ''key'')) (\<lambda>_. mime_new [] 0 None) ''now'' demo_request ''GET'' ''/adm'' ''/ui/../secret'' \<and>
   filesrv demo_adm demo_fs ''now'' demo_request ''/ui/../secret'' =
     filesrv demo_adm (demo_fs(''ui/../secret'' \<mapsto> Regular ''key'')) ''now'' demo_request ''/ui/../secret''"
proof (rule served_files_confined)
  show "\<forall>dir rel. ui_dir demo_adm = Some dir \<longrightarrow> (\<forall>t \<in> set (components rel). t \<noteq> ''..'') \<longrightarrow>
    demo_fs (dir @ ''/'' @ rel) = (demo_fs(''ui/../secret'' \<mapsto> Regular ''key'')) (dir @ ''/'' @ rel)"
    by (auto simp: demo_adm_def)
qed (simp add: demo_adm_def)

end
