(* ===== verification/Ntrip_Chunk.thy ===== *)
theory Ntrip_Chunk
  imports Ntrip_Session
begin

text \<open>
  The decoder of HTTP chunks of \<^verbatim>\<open>caster/ntrip_common.c\<close>. It is installed as a filter between the raw
  input of a connection and the buffer that the rest of the code reads, and is called each time data
  arrive. \<^const>\<open>None\<close> stands for a call that does not return and for an access to a freed buffer.
  Buffers hold less than two to the 31 bytes, so that the lengths the code keeps in an \<open>int\<close> are right.
\<close>

datatype filter_result = BEV_OK | BEV_NEED_MORE | BEV_ERROR

text \<open>\<open>evbuffer_readln\<close> with \<open>EVBUFFER_EOL_CRLF_STRICT\<close>: the line before the first CR LF and the rest.\<close>

fun readln_strict :: "byte list \<Rightarrow> (byte list \<times> byte list) option" where
  "readln_strict (x # y # r) =
     (if x = 13 \<and> y = 10 then Some ([], r) else map_option (\<lambda>(l, t). (x # l, t)) (readln_strict (y # r)))"
| "readln_strict _ = None"

text \<open>
  \<open>sscanf(s, "%zx")\<close>: white space, an optional sign, an optional \<open>0x\<close>, hexadecimal digits; the value
  saturates at 64 bits, a minus sign negates it modulo two to the 64.
\<close>

definition hex_val :: "cstring \<Rightarrow> nat" where
  "hex_val s = foldl (\<lambda>a c. a * 16 + xdigit_val c) 0 s"

definition drop_0x :: "cstring \<Rightarrow> cstring" where
  "drop_0x s = (case s of z # x # d # r \<Rightarrow>
     if z = CHR ''0'' \<and> (x = CHR ''x'' \<or> x = CHR ''X'') \<and> c_isxdigit d then d # r else s | _ \<Rightarrow> s)"

definition c_sscanf_zx :: "cstring \<Rightarrow> nat option" where
  "c_sscanf_zx s =
     (let t = dropWhile c_isspace s;
          (neg, u) = (case t of [] \<Rightarrow> (False, []) | c # r \<Rightarrow>
                        if c = CHR ''-'' then (True, r)
                        else if c = CHR ''+'' then (False, r) else (False, t));
          ds = takeWhile c_isxdigit (drop_0x u);
          v = hex_val ds
      in if ds = [] then None
         else if v \<ge> 2 ^ 64 then Some (2 ^ 64 - 1)
         else Some (if neg then (2 ^ 64 - v) mod 2 ^ 64 else v))"

text \<open>The length on a line: extensions after a semicolon are cut off.\<close>

definition chunk_size :: "byte list \<Rightarrow> nat option" where
  "chunk_size line =
     c_sscanf_zx (takeWhile (\<lambda>c. c \<noteq> CHR 0x00 \<and> c \<noteq> CHR '';'' \<and> c \<noteq> CHR 0x0A \<and> c \<noteq> CHR 0x0D) (string_of line))"

definition ok_or :: "filter_result \<Rightarrow> nat \<Rightarrow> filter_result" where
  "ok_or r len_done = (if len_done \<noteq> 0 then BEV_OK else r)"

text \<open>
  One round of the loop of \<open>ntrip_chunk_decode\<close>: \<^const>\<open>Inl\<close> the result the function returns, \<^const>\<open>Inr\<close> the
  amount of data decoded so far. A state that has no branch leaves everything as it is.
\<close>

definition chunk_step :: "nat \<Rightarrow> ntrip_state \<Rightarrow> ((filter_result + nat) \<times> ntrip_state) option" where
  "chunk_step len_done st =
     (let input = raw_input st; len_raw = length input in
      if len_raw = 0 then Some (Inl (ok_or BEV_NEED_MORE len_done), st)
      else if chunk_state st = CHUNK_WAIT_LEN then
        (case readln_strict input of
           None \<Rightarrow> Some (Inl (ok_or BEV_NEED_MORE len_done), st)
         | Some (line, rest) \<Rightarrow>
             let st = st\<lparr>raw_input := rest\<rparr> in
             (case chunk_size line of
                None \<Rightarrow>
                  let st = st\<lparr>chunk_state := CHUNK_ERR\<rparr>;
                      st = (if len_done = 0 then st\<lparr>nt_state := NTRIP_FORCE_CLOSE\<rparr> else st)
                  in Some (Inl (ok_or BEV_ERROR len_done), st)
              | Some len \<Rightarrow>
                  Some (Inr len_done, st\<lparr>chunk_state := (if len = 0 then CHUNK_LAST else CHUNK_IN_PROGRESS), chunk_len := len\<rparr>)))
      else if chunk_state st = CHUNK_ERR then Some (Inl BEV_ERROR, st\<lparr>nt_state := NTRIP_FORCE_CLOSE\<rparr>)
      else if chunk_state st = CHUNK_IN_PROGRESS then do {
        dst \<leftarrow> chunk_buf st;
        let len_used = min len_raw (chunk_len st);
        let st = st\<lparr>raw_input := drop len_used input, chunk_buf := Some (dst @ take len_used input), chunk_len := chunk_len st - len_used\<rparr>;
        let st = (if chunk_len st = 0 then st\<lparr>chunk_state := CHUNK_WAITING_TRAILER\<rparr> else st);
        Some (Inr (len_done + len_used), st\<lparr>nt_received := nt_received st + len_used\<rparr>)
      }
      else if chunk_state st = CHUNK_WAITING_TRAILER \<or> chunk_state st = CHUNK_LAST then
        if len_raw < 2 then Some (Inl (ok_or BEV_NEED_MORE len_done), st)
        else
          let last = (chunk_state st = CHUNK_LAST); st = st\<lparr>raw_input := drop 2 input\<rparr> in
          if last then Some (Inl BEV_OK, st\<lparr>chunk_state := CHUNK_END, in_filter := False, chunk_buf := None, nt_input := Raw_input\<rparr>)
          else Some (Inr len_done, st\<lparr>chunk_state := CHUNK_WAIT_LEN\<rparr>)
      else if chunk_state st = CHUNK_END then Some (Inl BEV_ERROR, st)
      else Some (Inr len_done, st))"

partial_function (option) chunk_loop :: "nat \<Rightarrow> ntrip_state \<Rightarrow> (filter_result \<times> ntrip_state) option" where
  "chunk_loop len_done st = do {
     (r, st) \<leftarrow> chunk_step len_done st;
     (case r of Inl res \<Rightarrow> Some (res, st) | Inr n \<Rightarrow> chunk_loop n st)
   }"

definition ntrip_chunk_decode :: "ntrip_state \<Rightarrow> (filter_result \<times> ntrip_state) option" where
  "ntrip_chunk_decode st = chunk_loop 0 st"

text \<open>\<open>-1\<close> if there is nothing to read; \<open>ended\<close> if the session was put in its final state.\<close>

definition ntrip_filter_run_input :: "ntrip_state \<Rightarrow> (int \<times> bool \<times> ntrip_state) option" where
  "ntrip_filter_run_input st =
     (if in_filter st then do {
        (r, st) \<leftarrow> ntrip_chunk_decode st;
        Some (if r = BEV_NEED_MORE then (- 1, False, st) else if r \<noteq> BEV_OK then (- 1, True, st) else (0, False, st))
      }
      else Some (0, False, st))"

definition ntrip_chunk_decode_init :: "ntrip_state \<Rightarrow> ntrip_state option" where
  "ntrip_chunk_decode_init st =
     (let st = (if chunk_buf st = None then st\<lparr>chunk_buf := Some []\<rparr> else st);
          st = st\<lparr>in_filter := True, chunk_state := CHUNK_WAIT_LEN, nt_input := Chunk_buf\<rparr>
      in if raw_input st \<noteq> [] then map_option snd (ntrip_chunk_decode st) else Some st)"

subsection \<open>The loop ends\<close>

text \<open>A bound of the number of rounds: each one consumes input or leaves a state that is entered by consuming.\<close>

definition chunk_work :: "ntrip_state \<Rightarrow> nat" where
  "chunk_work st = 2 * length (raw_input st) + (if chunk_state st = CHUNK_IN_PROGRESS then 1 else 0)"

text \<open>What the decoder needs: a state of its own, and the buffer while there are data to put in it.\<close>

definition chunk_ok :: "ntrip_state \<Rightarrow> bool" where
  "chunk_ok st \<longleftrightarrow> chunk_state st \<noteq> CHUNK_NONE \<and> chunk_state st \<noteq> CHUNK_INIT \<and> (chunk_state st \<noteq> CHUNK_END \<longrightarrow> chunk_buf st \<noteq> None)"

lemma readln_strict_length: "readln_strict bs = Some (l, r) \<Longrightarrow> length bs = length l + length r + 2"
  by (induction bs arbitrary: l r rule: readln_strict.induct) (auto split: if_splits)

lemma chunk_step_progress:
  assumes "chunk_ok st"
  shows "returns (chunk_step n st) (\<lambda>(r, st'). chunk_ok st' \<and> (\<forall>k. r = Inr k \<longrightarrow> chunk_work st' < chunk_work st))"
proof (cases "raw_input st = []")
  case True
  with assms show ?thesis by (simp add: chunk_step_def)
next
  case False
  then have pos: "0 < length (raw_input st)" by simp
  show ?thesis
  proof (cases "chunk_state st")
    case CHUNK_WAIT_LEN
    show ?thesis
    proof (cases "readln_strict (raw_input st)")
      case None
      with CHUNK_WAIT_LEN pos assms show ?thesis by (simp add: chunk_step_def)
    next
      case (Some p)
      obtain l rest where p: "p = (l, rest)" by (cases p)
      have "length rest + 2 \<le> length (raw_input st)" using readln_strict_length Some p by fastforce
      with CHUNK_WAIT_LEN pos assms Some p show ?thesis
        by (auto simp: chunk_step_def chunk_ok_def chunk_work_def Let_def split: option.split)
    qed
  next
    case CHUNK_IN_PROGRESS
    then obtain d where d: "chunk_buf st = Some d" using assms by (auto simp: chunk_ok_def)
    with CHUNK_IN_PROGRESS pos show ?thesis
      by (auto simp: chunk_step_def chunk_ok_def chunk_work_def Let_def)
  qed (use assms pos in \<open>auto simp: chunk_step_def chunk_ok_def chunk_work_def Let_def\<close>)
qed

lemma chunk_loop_returns:
  "chunk_ok st \<Longrightarrow> returns (chunk_loop n st) (\<lambda>(r, st'). chunk_ok st')"
proof (induction "chunk_work st" arbitrary: n st rule: less_induct)
  case less
  from chunk_step_progress[OF less.prems, of n] obtain r st' where
    s: "chunk_step n st = Some (r, st')" "chunk_ok st'" "\<forall>k. r = Inr k \<longrightarrow> chunk_work st' < chunk_work st"
    by (auto simp: returns_def)
  show ?case
  proof (cases r)
    case (Inl res)
    with s show ?thesis by (subst chunk_loop.simps) simp
  next
    case (Inr k)
    with less.hyps[of st' k] s show ?thesis by (subst chunk_loop.simps) simp
  qed
qed

text \<open>In a state that is not of the decoder the loop never ends if there are data.\<close>

lemma chunk_loop_stuck:
  assumes "chunk_state st = CHUNK_NONE \<or> chunk_state st = CHUNK_INIT" "raw_input st \<noteq> []"
  shows "chunk_loop n st = None"
proof -
  have s: "chunk_step n st = Some (Inr n, st)" using assms by (auto simp: chunk_step_def)
  have "m = n \<and> x = st \<longrightarrow> False" if "chunk_loop m x = Some y" for m x y
    using that
  proof (rule chunk_loop.raw_induct[rotated])
    fix f m x y
    assume f: "\<And>m x y. f m x = Some y \<Longrightarrow> m = n \<and> x = st \<longrightarrow> False"
      and e: "Option.bind (chunk_step m x) (\<lambda>(r, st). case r of Inl res \<Rightarrow> Some (res, st) | Inr n \<Rightarrow> f n st) = Some y"
    show "m = n \<and> x = st \<longrightarrow> False"
    proof
      assume "m = n \<and> x = st"
      with e s have "f n st = Some y" by simp
      from f[OF this] show False by simp
    qed
  qed
  then show ?thesis by (cases "chunk_loop n st") auto
qed

subsection \<open>Decoding a stream\<close>

text \<open>
  A stream of chunks: each has a line with its length and data of that length. What the decoder
  still expects is the rest of such a stream, from the point it has reached, with the data that are
  still to come.
\<close>

abbreviation CRLF :: "byte list" where "CRLF \<equiv> [13, 10]"

definition chunk_valid :: "byte list \<times> byte list \<Rightarrow> bool" where
  "chunk_valid c \<longleftrightarrow> readln_strict (fst c) = None \<and> chunk_size (fst c) = Some (length (snd c)) \<and> snd c \<noteq> []"

definition chunk_text :: "byte list \<times> byte list \<Rightarrow> byte list" where
  "chunk_text c = fst c @ CRLF @ snd c @ CRLF"

definition chunks_text :: "(byte list \<times> byte list) list \<Rightarrow> byte list" where
  "chunks_text cs = concat (map chunk_text cs)"

definition chunks_data :: "(byte list \<times> byte list) list \<Rightarrow> byte list" where
  "chunks_data cs = concat (map snd cs)"

definition expects :: "ntrip_state \<Rightarrow> byte list \<Rightarrow> byte list \<Rightarrow> bool" where
  "expects st stream rest_data \<longleftrightarrow> (\<exists>cs. list_all chunk_valid cs \<and>
     (chunk_state st = CHUNK_WAIT_LEN \<and> stream = chunks_text cs \<and> rest_data = chunks_data cs \<or>
      chunk_state st = CHUNK_WAITING_TRAILER \<and> stream = CRLF @ chunks_text cs \<and> rest_data = chunks_data cs \<or>
      chunk_state st = CHUNK_IN_PROGRESS \<and> (\<exists>d. length d = chunk_len st \<and> d \<noteq> [] \<and>
        stream = d @ CRLF @ chunks_text cs \<and> rest_data = d @ chunks_data cs)))"

lemma readln_strict_append: "readln_strict a = Some (l, r) \<Longrightarrow> readln_strict (a @ b) = Some (l, r @ b)"
proof (induction a arbitrary: l r rule: readln_strict.induct)
  case (1 x y s)
  then show ?case by (auto split: if_splits)
qed auto

lemma readln_strict_line: "readln_strict l = None \<Longrightarrow> readln_strict (l @ CRLF @ r) = Some (l, r)"
proof (induction l rule: readln_strict.induct)
  case (1 x y s)
  then show ?case by (auto split: if_splits)
qed simp_all

lemma append_eq_split: "xs @ ys = us @ vs \<Longrightarrow> length us \<le> length xs \<Longrightarrow> \<exists>ws. xs = us @ ws \<and> vs = ws @ ys"
  by (auto simp: append_eq_append_conv2)

text \<open>One round keeps the expectation, whatever part of the stream has arrived; only data are appended.\<close>

definition advanced :: "ntrip_state \<Rightarrow> byte list \<Rightarrow> ntrip_state \<Rightarrow> byte list \<Rightarrow> byte list \<Rightarrow> bool" where
  "advanced st rest_data st' future new \<longleftrightarrow> (\<exists>d rest'. chunk_buf st = Some d \<and> chunk_buf st' = Some (d @ new) \<and>
     rest_data = new @ rest' \<and> expects st' (raw_input st' @ future) rest' \<and> in_filter st' = in_filter st \<and>
     nt_input st' = nt_input st \<and> nt_state st' = nt_state st \<and> nt_received st' = nt_received st + length new)"

definition waiting :: "ntrip_state \<Rightarrow> bool" where
  "waiting st \<longleftrightarrow> raw_input st = [] \<or> chunk_state st = CHUNK_WAIT_LEN \<and> readln_strict (raw_input st) = None \<or>
     chunk_state st = CHUNK_WAITING_TRAILER \<and> length (raw_input st) < 2"

lemma chunk_step_length:
  assumes nw: "\<not> waiting st" and buf: "chunk_buf st = Some d" and cs: "list_all chunk_valid cs"
    and w: "chunk_state st = CHUNK_WAIT_LEN" "raw_input st @ future = chunks_text cs" "rest_data = chunks_data cs"
  shows "\<exists>st' new. chunk_step n st = Some (Inr (n + length new), st') \<and> advanced st rest_data st' future new"
proof -
  have ne: "raw_input st \<noteq> []" using nw by (simp add: waiting_def)
  from w(2) ne obtain c cs' where c: "cs = c # cs'" by (cases cs) (auto simp: chunks_text_def)
  from nw w(1) obtain l r where r: "readln_strict (raw_input st) = Some (l, r)" by (auto simp: waiting_def)
  have "readln_strict (raw_input st @ future) = Some (fst c, snd c @ CRLF @ chunks_text cs')"
    unfolding w(2) using readln_strict_line cs c by (simp add: chunks_text_def chunk_text_def chunk_valid_def)
  with readln_strict_append[OF r] have l: "l = fst c" "r @ future = snd c @ CRLF @ chunks_text cs'" by auto
  have size: "chunk_size l = Some (length (snd c))" "snd c \<noteq> []" using cs c l by (simp_all add: chunk_valid_def)
  let ?st = "st\<lparr>raw_input := r, chunk_state := CHUNK_IN_PROGRESS, chunk_len := length (snd c)\<rparr>"
  have "chunk_step n st = Some (Inr n, ?st)" using w(1) ne r size by (simp add: chunk_step_def)
  moreover have "expects ?st (r @ future) rest_data"
    unfolding expects_def using cs c l size(2) w(3) by (intro exI[of _ cs']) (simp add: chunks_data_def)
  ultimately show ?thesis using buf by (intro exI[of _ ?st] exI[of _ "[]"]) (simp add: advanced_def)
qed

lemma chunk_step_trailer:
  assumes nw: "\<not> waiting st" and buf: "chunk_buf st = Some d" and cs: "list_all chunk_valid cs"
    and w: "chunk_state st = CHUNK_WAITING_TRAILER" "raw_input st @ future = CRLF @ chunks_text cs" "rest_data = chunks_data cs"
  shows "\<exists>st' new. chunk_step n st = Some (Inr (n + length new), st') \<and> advanced st rest_data st' future new"
proof -
  from nw w(1) have "2 \<le> length (raw_input st)" by (auto simp: waiting_def)
  with append_eq_split[OF w(2)] obtain ws where ws: "raw_input st = CRLF @ ws" "chunks_text cs = ws @ future" by auto
  let ?st = "st\<lparr>raw_input := ws, chunk_state := CHUNK_WAIT_LEN\<rparr>"
  have "chunk_step n st = Some (Inr n, ?st)" using w(1) ws(1) by (simp add: chunk_step_def)
  moreover have "expects ?st (ws @ future) rest_data" unfolding expects_def using cs ws(2) w(3) by (intro exI[of _ cs]) simp
  ultimately show ?thesis using buf by (intro exI[of _ ?st] exI[of _ "[]"]) (simp add: advanced_def)
qed

lemma chunk_step_data:
  assumes nw: "\<not> waiting st" and buf: "chunk_buf st = Some d" and cs: "list_all chunk_valid cs"
    and w: "chunk_state st = CHUNK_IN_PROGRESS" "length x = chunk_len st" "x \<noteq> []"
      "raw_input st @ future = x @ CRLF @ chunks_text cs" "rest_data = x @ chunks_data cs"
  shows "\<exists>st' new. chunk_step n st = Some (Inr (n + length new), st') \<and> advanced st rest_data st' future new"
proof -
  have ne: "raw_input st \<noteq> []" using nw by (simp add: waiting_def)
  let ?k = "min (length (raw_input st)) (chunk_len st)"
  let ?new = "take ?k (raw_input st)"
  let ?st = "st\<lparr>raw_input := drop ?k (raw_input st), chunk_buf := Some (d @ ?new), chunk_len := chunk_len st - ?k,
    chunk_state := (if chunk_len st - ?k = 0 then CHUNK_WAITING_TRAILER else CHUNK_IN_PROGRESS), nt_received := nt_received st + ?k\<rparr>"
  have len: "length ?new = ?k" by simp
  have step: "chunk_step n st = Some (Inr (n + ?k), ?st)" using w(1) ne buf by (simp add: chunk_step_def Let_def)
  have "\<exists>rest'. rest_data = ?new @ rest' \<and> expects ?st (drop ?k (raw_input st) @ future) rest'"
  proof (cases "length x \<le> length (raw_input st)")
    case True
    with append_eq_split[OF w(4)] obtain ws where ws: "raw_input st = x @ ws" "CRLF @ chunks_text cs = ws @ future" by auto
    have k: "?k = length x" using True w(2) by simp
    have "expects ?st (ws @ future) (chunks_data cs)" unfolding expects_def using cs ws(2) w(2) k by (intro exI[of _ cs]) simp
    with ws(1) w(5) k show ?thesis by simp
  next
    case False
    with append_eq_split[OF w(4)[symmetric]] obtain ws where ws: "x = raw_input st @ ws" "future = ws @ CRLF @ chunks_text cs" by auto
    have k: "?k = length (raw_input st)" "ws \<noteq> []" "chunk_len st - ?k = length ws" using False w(2) ws(1) by auto
    have "expects ?st future (ws @ chunks_data cs)"
      unfolding expects_def using cs ws(2) k by (intro exI[of _ cs]) simp
    with ws(1) w(5) k show ?thesis by simp
  qed
  then obtain rest' where rest': "rest_data = ?new @ rest'" "expects ?st (drop ?k (raw_input st) @ future) rest'" by blast
  have "advanced st rest_data ?st future ?new"
    unfolding advanced_def using buf rest' len by (intro exI[of _ d] exI[of _ rest']) simp
  then show ?thesis using step len by (intro exI[of _ ?st] exI[of _ ?new]) simp
qed

lemma chunk_step_expects:
  assumes "expects st (raw_input st @ future) rest_data" "chunk_buf st = Some d"
  shows "(waiting st \<and> chunk_step n st = Some (Inl (ok_or BEV_NEED_MORE n), st)) \<or>
    (\<exists>st' new. chunk_step n st = Some (Inr (n + length new), st') \<and> advanced st rest_data st' future new)"
proof (cases "waiting st")
  case True
  then have "chunk_step n st = Some (Inl (ok_or BEV_NEED_MORE n), st)"
    by (auto simp: waiting_def chunk_step_def Let_def)
  with True show ?thesis by simp
next
  case False
  from assms(1) obtain cs where cs: "list_all chunk_valid cs" and
    e: "chunk_state st = CHUNK_WAIT_LEN \<and> raw_input st @ future = chunks_text cs \<and> rest_data = chunks_data cs \<or>
      chunk_state st = CHUNK_WAITING_TRAILER \<and> raw_input st @ future = CRLF @ chunks_text cs \<and> rest_data = chunks_data cs \<or>
      chunk_state st = CHUNK_IN_PROGRESS \<and> (\<exists>d. length d = chunk_len st \<and> d \<noteq> [] \<and>
        raw_input st @ future = d @ CRLF @ chunks_text cs \<and> rest_data = d @ chunks_data cs)"
    unfolding expects_def by blast
  from e show ?thesis
    using chunk_step_length[OF False assms(2) cs] chunk_step_trailer[OF False assms(2) cs] chunk_step_data[OF False assms(2) cs] by blast
qed

lemma expects_chunk_ok: "expects st stream rest_data \<Longrightarrow> chunk_buf st = Some d \<Longrightarrow> chunk_ok st"
  by (auto simp: expects_def chunk_ok_def)

lemma advanced_refl: "expects st (raw_input st @ future) rest_data \<Longrightarrow> chunk_buf st = Some d \<Longrightarrow> advanced st rest_data st future []"
  by (simp add: advanced_def)

lemma advanced_trans:
  assumes "advanced st rest_data st' future new"
    "\<And>rest' d. rest_data = new @ rest' \<Longrightarrow> chunk_buf st' = Some d \<Longrightarrow> expects st' (raw_input st' @ future) rest' \<Longrightarrow> advanced st' rest' st'' future' new'"
  shows "advanced st rest_data st'' future' (new @ new')"
proof -
  from assms(1) obtain d rest' where a: "chunk_buf st = Some d" "chunk_buf st' = Some (d @ new)" "rest_data = new @ rest'"
      "expects st' (raw_input st' @ future) rest'" "in_filter st' = in_filter st" "nt_input st' = nt_input st"
      "nt_state st' = nt_state st" "nt_received st' = nt_received st + length new"
    unfolding advanced_def by blast
  from assms(2)[OF a(3,2,4)] a show ?thesis unfolding advanced_def by auto
qed

lemma chunk_loop_expects:
  "expects st (raw_input st @ future) rest_data \<Longrightarrow> chunk_buf st = Some d \<Longrightarrow>
    \<exists>r st' new. chunk_loop n st = Some (r, st') \<and> r \<noteq> BEV_ERROR \<and> advanced st rest_data st' future new \<and> waiting st'"
proof (induction "chunk_work st" arbitrary: n st rest_data d rule: less_induct)
  case less
  from chunk_step_expects[OF less.prems, of n]
  show ?case
  proof (elim disjE conjE exE)
    assume "waiting st" "chunk_step n st = Some (Inl (ok_or BEV_NEED_MORE n), st)"
    moreover have "ok_or BEV_NEED_MORE n \<noteq> BEV_ERROR" by (simp add: ok_or_def)
    ultimately show ?thesis using advanced_refl[OF less.prems]
      by (subst chunk_loop.simps) auto
  next
    fix st1 new1
    assume s: "chunk_step n st = Some (Inr (n + length new1), st1)" and a: "advanced st rest_data st1 future new1"
    have w: "chunk_work st1 < chunk_work st"
      using chunk_step_progress[OF expects_chunk_ok[OF less.prems], of n] s by simp
    from a obtain d' rest' where a1: "chunk_buf st1 = Some d'" "rest_data = new1 @ rest'" "expects st1 (raw_input st1 @ future) rest'"
      unfolding advanced_def by blast
    from less.hyps[OF w a1(3,1), of "n + length new1"] obtain r st' new where
      l: "chunk_loop (n + length new1) st1 = Some (r, st')" "r \<noteq> BEV_ERROR" "advanced st1 rest' st' future new" "waiting st'" by blast
    have "advanced st rest_data st' future (new1 @ new)"
      using l(3) a1(2) by (intro advanced_trans[OF a]) simp
    moreover have "chunk_loop n st = Some (r, st')" using s l(1) by (subst chunk_loop.simps) simp
    ultimately show ?thesis using l(2,4) by blast
  qed
qed

text \<open>All that was expected has been decoded when there is nothing more to come.\<close>

lemma expects_done:
  assumes "expects st (raw_input st) rest_data" "waiting st"
  shows "rest_data = [] \<and> raw_input st = [] \<and> chunk_state st = CHUNK_WAIT_LEN"
proof -
  from assms(1) obtain cs where cs: "list_all chunk_valid cs" and
    e: "chunk_state st = CHUNK_WAIT_LEN \<and> raw_input st = chunks_text cs \<and> rest_data = chunks_data cs \<or>
      chunk_state st = CHUNK_WAITING_TRAILER \<and> raw_input st = CRLF @ chunks_text cs \<and> rest_data = chunks_data cs \<or>
      chunk_state st = CHUNK_IN_PROGRESS \<and> (\<exists>d. length d = chunk_len st \<and> d \<noteq> [] \<and>
        raw_input st = d @ CRLF @ chunks_text cs \<and> rest_data = d @ chunks_data cs)"
    unfolding expects_def by blast
  have "cs = []" if "waiting st" "chunk_state st = CHUNK_WAIT_LEN" "raw_input st = chunks_text cs"
  proof (cases cs)
    case (Cons c cs')
    then have "readln_strict (raw_input st) = Some (fst c, snd c @ CRLF @ chunks_text cs')" "raw_input st \<noteq> []"
      using that(3) cs readln_strict_line[of "fst c" "snd c @ CRLF @ chunks_text cs'"]
      by (simp_all add: chunks_text_def chunk_text_def chunk_valid_def)
    with that show ?thesis by (simp add: waiting_def)
  qed simp
  with e assms(2) show ?thesis by (auto simp: chunks_text_def chunks_data_def waiting_def)
qed

text \<open>The filter is run each time bytes arrive; \<^const>\<open>None\<close> also if the session is ended by an error.\<close>

fun receive_chunks :: "ntrip_state \<Rightarrow> byte list list \<Rightarrow> ntrip_state option" where
  "receive_chunks st [] = Some st"
| "receive_chunks st (b # bs) = do {
     (r, ended, st) \<leftarrow> ntrip_filter_run_input (st\<lparr>raw_input := raw_input st @ b\<rparr>);
     if ended then None else receive_chunks st bs
   }"

lemma receive_chunks_expects:
  "expects st (raw_input st @ concat frs) rest_data \<Longrightarrow> chunk_buf st = Some d \<Longrightarrow> in_filter st \<Longrightarrow> waiting st \<Longrightarrow>
    \<exists>st' new. receive_chunks st frs = Some st' \<and> advanced st rest_data st' [] new \<and> waiting st'"
proof (induction frs arbitrary: st rest_data d)
  case Nil
  then show ?case using advanced_refl[of st "[]" rest_data d] by auto
next
  case (Cons b frs)
  let ?st = "st\<lparr>raw_input := raw_input st @ b\<rparr>"
  have e: "expects ?st (raw_input ?st @ concat frs) rest_data" using Cons.prems(1) by (simp add: expects_def)
  from chunk_loop_expects[OF e, of d 0] Cons.prems(2) obtain r st1 new1 where
    l: "chunk_loop 0 ?st = Some (r, st1)" "r \<noteq> BEV_ERROR" "advanced ?st rest_data st1 (concat frs) new1" "waiting st1" by auto
  have a: "advanced st rest_data st1 (concat frs) new1" using l(3) by (simp add: advanced_def)
  have "\<exists>i. ntrip_filter_run_input ?st = Some (i, False, st1)"
    using l(1,2) Cons.prems(3) by (cases r) (simp_all add: ntrip_filter_run_input_def ntrip_chunk_decode_def)
  then obtain i where i: "ntrip_filter_run_input ?st = Some (i, False, st1)" by blast
  from a obtain d1 rest1 where a1: "chunk_buf st1 = Some d1" "rest_data = new1 @ rest1" "expects st1 (raw_input st1 @ concat frs) rest1"
      "in_filter st1" using Cons.prems(3) unfolding advanced_def by auto
  from Cons.IH[OF a1(3,1,4) l(4)] obtain st' new where
    st': "receive_chunks st1 frs = Some st'" "advanced st1 rest1 st' [] new" "waiting st'" by blast
  have "advanced st rest_data st' [] (new1 @ new)" using st'(2) a1(2) by (intro advanced_trans[OF a]) simp
  with st'(1,3) i show ?case by auto
qed

text \<open>
  C25: The chunks of a stream before its end are decoded to their data. For chunks that each carry at
  least one byte, however their bytes are cut into the pieces that arrive: every piece is
  accepted, no byte of the input is left over, the data of all these chunks, in order, are what is
  added to the buffer that the session reads, and the decoder waits for the length of the next chunk.
  The chunk of length zero that ends a stream is not among them: when it arrives
  before the session has read the data decoded so far, the code frees the buffer with these data
  (lemma last_chunk_discards_data below).
\<close>
theorem chunked_stream_decoded:
  assumes "list_all chunk_valid cs" "concat pieces = chunks_text cs" "chunk_state st = CHUNK_WAIT_LEN" "raw_input st = []"
    "in_filter st" "chunk_buf st = Some d"
  shows "\<exists>st'. receive_chunks st pieces = Some st' \<and> chunk_buf st' = Some (d @ chunks_data cs) \<and> raw_input st' = [] \<and>
    chunk_state st' = CHUNK_WAIT_LEN \<and> nt_received st' = nt_received st + length (chunks_data cs) \<and> nt_state st' = nt_state st"
proof -
  have "expects st (raw_input st @ concat pieces) (chunks_data cs)" using assms(1-4) by (auto simp: expects_def)
  moreover have "waiting st" using assms(4) by (simp add: waiting_def)
  ultimately obtain st' new where
    r: "receive_chunks st pieces = Some st'" "advanced st (chunks_data cs) st' [] new" "waiting st'"
    using receive_chunks_expects[of st pieces _ d] assms(5,6) by blast
  from r(2) assms(6) obtain rest' where
    a: "chunk_buf st' = Some (d @ new)" "chunks_data cs = new @ rest'" "expects st' (raw_input st') rest'"
      "nt_state st' = nt_state st" "nt_received st' = nt_received st + length new"
    unfolding advanced_def by auto
  from expects_done[OF a(3) r(3)] a r(1) show ?thesis by auto
qed

definition chunk_session :: ntrip_state where
  "chunk_session = new_session\<lparr>in_filter := True, chunk_state := CHUNK_WAIT_LEN, nt_input := Chunk_buf, chunk_buf := Some []\<rparr>"

lemma demo_chunk_lines: "string_of [50] = ''2''" "string_of [48] = ''0''" "string_of [49, 59, 120] = ''1;x''"
  by code_simp+

lemma demo_chunk_sizes: "chunk_size [50] = Some 2" "chunk_size [48] = Some 0" "chunk_size [49, 59, 120] = Some 1"
  by (simp_all add: chunk_size_def demo_chunk_lines c_sscanf_zx_def drop_0x_def c_isspace_def c_isxdigit_def hex_val_def xdigit_val_def c_isdigit_def c_tolower_def Let_def)

theorem chunked_stream_decoded_witness:
  "\<exists>st'. receive_chunks chunk_session [[50], [13, 10, 7], [8, 13], [10, 49, 59, 120, 13, 10, 9, 13, 10]] = Some st' \<and>
    chunk_buf st' = Some [7, 8, 9] \<and> raw_input st' = []"
proof -
  have v: "list_all chunk_valid [([50], [7, 8]), ([49, 59, 120], [9])]" by (simp add: chunk_valid_def demo_chunk_sizes)
  have t: "concat [[50], [13, 10, 7], [8, 13], [10, 49, 59, 120, 13, 10, 9, 13, 10]] = chunks_text [([50], [7, 8]), ([49, 59, 120], [9])]"
    by (simp add: chunks_text_def chunk_text_def)
  from chunked_stream_decoded[OF v t, of chunk_session "[]"] show ?thesis
    by (auto simp: chunk_session_def new_session_def ntrip_new_def zero_session_def chunks_data_def)
qed

text \<open>
  C33: The decoder ends on every input, in every state that is its own: it returns a result and
  leaves a state in which it can be called again. The states are its own from its
  initialisation on.
\<close>
theorem ntrip_chunk_decode_total:
  "(chunk_ok st \<longrightarrow> (\<exists>r st'. ntrip_chunk_decode st = Some (r, st') \<and> chunk_ok st')) \<and>
    (\<exists>st'. ntrip_chunk_decode_init st = Some st' \<and> chunk_ok st')"
proof -
  have d: "\<exists>r st'. ntrip_chunk_decode st = Some (r, st') \<and> chunk_ok st'" if "chunk_ok st" for st
    using chunk_loop_returns[OF that, of 0] by (auto simp: returns_def ntrip_chunk_decode_def)
  let ?st = "(if chunk_buf st = None then st\<lparr>chunk_buf := Some []\<rparr> else st)\<lparr>in_filter := True, chunk_state := CHUNK_WAIT_LEN, nt_input := Chunk_buf\<rparr>"
  have "chunk_ok ?st" by (simp add: chunk_ok_def)
  with d[of ?st] have "\<exists>st'. ntrip_chunk_decode_init st = Some st' \<and> chunk_ok st'"
    by (auto simp: ntrip_chunk_decode_init_def Let_def)
  with d show ?thesis by blast
qed

theorem ntrip_chunk_decode_total_witness:
  "\<exists>r st'. ntrip_chunk_decode (chunk_session\<lparr>raw_input := [50, 13, 10, 7]\<rparr>) = Some (r, st') \<and> chunk_ok st'"
  using ntrip_chunk_decode_total[of "chunk_session\<lparr>raw_input := [50, 13, 10, 7]\<rparr>"]
  by (simp add: chunk_ok_def chunk_session_def)

text \<open>
  The end of the stream: the last chunk frees the buffer of decoded data, with the data that arrived
  together with it and have not been read.
\<close>

definition session_at :: "byte list \<Rightarrow> byte list \<Rightarrow> nat \<Rightarrow> ntrip_chunk_state \<Rightarrow> ntrip_state" where
  "session_at input decoded n cs = chunk_session\<lparr>raw_input := input, chunk_buf := Some decoded, chunk_len := n,
     chunk_state := cs, nt_received := length decoded\<rparr>"

lemma last_chunk_discards_data:
  "\<exists>st'. ntrip_chunk_decode (session_at [50, 13, 10, 7, 8, 13, 10, 48, 13, 10, 13, 10] [] 0 CHUNK_WAIT_LEN) = Some (BEV_OK, st') \<and>
    chunk_buf st' = None \<and> input_data st' = Some [] \<and> nt_received st' = 2"
proof -
  have "chunk_step 0 (session_at [50, 13, 10, 7, 8, 13, 10, 48, 13, 10, 13, 10] [] 0 CHUNK_WAIT_LEN) =
      Some (Inr 0, session_at [7, 8, 13, 10, 48, 13, 10, 13, 10] [] 2 CHUNK_IN_PROGRESS)"
    by (simp add: chunk_step_def session_at_def demo_chunk_sizes)
  moreover have "chunk_step 0 (session_at [7, 8, 13, 10, 48, 13, 10, 13, 10] [] 2 CHUNK_IN_PROGRESS) =
      Some (Inr 2, session_at [13, 10, 48, 13, 10, 13, 10] [7, 8] 0 CHUNK_WAITING_TRAILER)"
    by (simp add: chunk_step_def session_at_def Let_def)
  moreover have "chunk_step 2 (session_at [13, 10, 48, 13, 10, 13, 10] [7, 8] 0 CHUNK_WAITING_TRAILER) =
      Some (Inr 2, session_at [48, 13, 10, 13, 10] [7, 8] 0 CHUNK_WAIT_LEN)"
    by (simp add: chunk_step_def session_at_def)
  moreover have "chunk_step 2 (session_at [48, 13, 10, 13, 10] [7, 8] 0 CHUNK_WAIT_LEN) =
      Some (Inr 2, session_at [13, 10] [7, 8] 0 CHUNK_LAST)"
    by (simp add: chunk_step_def session_at_def demo_chunk_sizes)
  moreover have "chunk_step 2 (session_at [13, 10] [7, 8] 0 CHUNK_LAST) =
      Some (Inl BEV_OK, (session_at [] [7, 8] 0 CHUNK_END)\<lparr>in_filter := False, chunk_buf := None, nt_input := Raw_input\<rparr>)"
    by (simp add: chunk_step_def session_at_def)
  ultimately have "ntrip_chunk_decode (session_at [50, 13, 10, 7, 8, 13, 10, 48, 13, 10, 13, 10] [] 0 CHUNK_WAIT_LEN) =
      Some (BEV_OK, (session_at [] [7, 8] 0 CHUNK_END)\<lparr>in_filter := False, chunk_buf := None, nt_input := Raw_input\<rparr>)"
    by (simp add: ntrip_chunk_decode_def chunk_loop.simps)
  then show ?thesis by (simp add: session_at_def input_data_def)
qed

text \<open>
  A request that follows a request with chunks on the same connection: the buffer is freed, but the
  session still reads from it and the filter is still installed, in a state that is not its own.
\<close>

lemma clear_request_dangling:
  assumes "nt_input st = Chunk_buf" "in_filter st"
  shows "input_data (ntrip_clear_request st) = None"
    "raw_input st \<noteq> [] \<Longrightarrow> ntrip_filter_run_input (ntrip_clear_request st) = None"
proof -
  show "input_data (ntrip_clear_request st) = None" using assms by (simp add: input_data_def ntrip_clear_request_def)
  assume "raw_input st \<noteq> []"
  then have "ntrip_chunk_decode (ntrip_clear_request st) = None"
    unfolding ntrip_chunk_decode_def by (intro chunk_loop_stuck) (simp_all add: ntrip_clear_request_def)
  then show "ntrip_filter_run_input (ntrip_clear_request st) = None"
    using assms by (simp add: ntrip_filter_run_input_def ntrip_clear_request_def)
qed

end
