(* ===== verification/Ntrip_Conns.thy ===== *)
theory Ntrip_Conns
  imports Ntrip_Session
begin

text \<open>
  The connections of the caster (\<^verbatim>\<open>caster/ntrip_common.c\<close>): the queue of connections, the counts of
  connections per address and their quotas, the end of a connection and its deferred freeing in
  threaded mode. Sessions are in a store indexed by numbers. An assertion that fails is \<^const>\<open>None\<close>.
  The jobs that \<open>ntrip_deferred_free\<close> appends are kept in \<open>deferred\<close>; whether a session is still
  in a queue of the workers (\<open>newjobs\<close> is \<open>-1\<close>) is an argument of \<open>ntrip_deferred_run\<close>.
\<close>

record conns =
  ntrips :: "nat list"
  ntrips_n :: int
  free_queue :: "nat list"
  nfree :: int
  next_id :: int
  ipcount :: "int hash_table"
  conn :: "nat \<Rightarrow> ntrip_state"
  deferred :: "nat list"

definition set_conn :: "nat \<Rightarrow> ntrip_state \<Rightarrow> conns \<Rightarrow> conns" where
  "set_conn c x w = w\<lparr>conn := (conn w)(c := x)\<rparr>"

subsection \<open>Counts and quotas\<close>

definition ntrip_quota_incr :: "conns \<Rightarrow> nat \<Rightarrow> int \<times> conns" where
  "ntrip_quota_incr w c =
     (let x = conn w c; (n, h) = hash_table_incr True True (ipcount w) (remote_addr x)
      in (n, set_conn c (x\<lparr>counted := True\<rparr>) (w\<lparr>ipcount := h\<rparr>)))"

definition ntrip_quota_decr :: "conns \<Rightarrow> nat \<Rightarrow> conns option" where
  "ntrip_quota_decr w c =
     (let x = conn w c in
      if \<not> counted x then Some w
      else do {
        h \<leftarrow> hash_table_decr (ipcount w) (remote_addr x);
        Some (set_conn c (x\<lparr>counted := False\<rparr>) (w\<lparr>ipcount := h\<rparr>))
      })"

text \<open>An address of an unknown family leaves the text of the old address.\<close>

definition ntrip_quota_change :: "(sock \<Rightarrow> cstring) \<Rightarrow> conns \<Rightarrow> nat \<Rightarrow> sock \<Rightarrow> (int \<times> conns) option" where
  "ntrip_quota_change ntop w c addr = do {
     w \<leftarrow> (if counted (conn w c) then ntrip_quota_decr w c else Some w);
     let x = conn w c;
     let w = set_conn c (x\<lparr>remote_addr := (case ip_str ntop addr of Some s \<Rightarrow> s | None \<Rightarrow> remote_addr x)\<rparr>) w;
     Some (ntrip_quota_incr w c)
   }"

definition ntrip_quota_get :: "prefix_table option \<Rightarrow> sock \<Rightarrow> int option" where
  "ntrip_quota_get blocklist addr = (case blocklist of None \<Rightarrow> Some (- 1) | Some t \<Rightarrow> prefix_table_get_quota t addr)"

definition ntrip_quota_check :: "int \<Rightarrow> int \<Rightarrow> int" where
  "ntrip_quota_check max_count n = (if max_count \<ge> 0 \<and> n > max_count then - 1 else 0)"

definition register_conn :: "prefix_table option \<Rightarrow> bool \<Rightarrow> conns \<Rightarrow> nat \<Rightarrow> (int \<times> conns) option" where
  "register_conn blocklist quota_check w c = do {
     let (n, w) = (if quota_check then ntrip_quota_incr w c else (- 1, w));
     let w = set_conn c ((conn w c)\<lparr>nt_id := next_id w\<rparr>) w;
     let w = w\<lparr>next_id := next_id w + 1, ntrips := ntrips w @ [c], ntrips_n := ntrips_n w + 1\<rparr>;
     max_count \<leftarrow> (if quota_check then ntrip_quota_get blocklist (peeraddr (conn w c)) else Some (- 1));
     Some (if ntrip_quota_check max_count n < 0 then - 1 else 0, w)
   }"

definition ntrip_register :: "conns \<Rightarrow> nat \<Rightarrow> conns option" where
  "ntrip_register w c = map_option snd (register_conn None False w c)"

definition ntrip_register_check :: "prefix_table option \<Rightarrow> conns \<Rightarrow> nat \<Rightarrow> (int \<times> conns) option" where
  "ntrip_register_check blocklist w c = register_conn blocklist True w c"

subsection \<open>The end of a connection\<close>

definition ntrip_deferred_free :: "conns \<Rightarrow> nat \<Rightarrow> conns option" where
  "ntrip_deferred_free w c =
     (if nt_state (conn w c) = NTRIP_END then Some (w\<lparr>deferred := deferred w @ [c]\<rparr>) else None)"

definition ntrip_incref :: "conns \<Rightarrow> nat \<Rightarrow> conns option" where
  "ntrip_incref w c = do {
     n \<leftarrow> refcnt_incref (nt_refcnt (conn w c));
     Some (set_conn c ((conn w c)\<lparr>nt_refcnt := n\<rparr>) w)
   }"

definition ntrip_decref :: "conns \<Rightarrow> nat \<Rightarrow> conns option" where
  "ntrip_decref w c = do {
     (n, freed) \<leftarrow> refcnt_decref (nt_refcnt (conn w c));
     let w = set_conn c ((conn w c)\<lparr>nt_refcnt := n\<rparr>) w;
     if freed then ntrip_deferred_free w c else Some w
   }"

text \<open>For a session that owns no live source; its output is discarded.\<close>

definition ntrip_decref_end :: "conns \<Rightarrow> nat \<Rightarrow> conns option" where
  "ntrip_decref_end w c =
     (if nt_state (conn w c) = NTRIP_END then Some w
      else
        let x = (conn w c)\<lparr>nt_state := NTRIP_END\<rparr>;
            x = (if chunk_buf x \<noteq> None then x\<lparr>chunk_buf := None, chunk_state := CHUNK_NONE\<rparr> else x)
        in ntrip_decref (set_conn c x w) c)"

text \<open>The job of a deferred end, \<open>TAILQ_REMOVE\<close> of a session that is not in the queue is \<^const>\<open>None\<close>.\<close>

definition ntrip_deferred_free2 :: "conns \<Rightarrow> nat \<Rightarrow> conns option" where
  "ntrip_deferred_free2 w c = do {
     w \<leftarrow> ntrip_quota_decr w c;
     if c \<notin> set (ntrips w) then None
     else Some (w\<lparr>ntrips := remove1 c (ntrips w), ntrips_n := ntrips_n w - 1,
            free_queue := free_queue w @ [c], nfree := nfree w + 1\<rparr>)
   }"

text \<open>The sessions that are freed, in order; a session that is still in a queue of jobs ends the loop.\<close>

fun deferred_loop :: "(nat \<Rightarrow> bool) \<Rightarrow> nat list \<Rightarrow> nat list \<times> nat list" where
  "deferred_loop in_jobq [] = ([], [])"
| "deferred_loop in_jobq (c # cs) =
     (if in_jobq c then ([], cs @ [c]) else let (freed, q) = deferred_loop in_jobq cs in (c # freed, q))"

definition ntrip_deferred_run :: "(nat \<Rightarrow> bool) \<Rightarrow> conns \<Rightarrow> nat list \<times> conns" where
  "ntrip_deferred_run in_jobq w =
     (let (freed, q) = deferred_loop in_jobq (free_queue w)
      in (freed, w\<lparr>free_queue := q, nfree := nfree w - int (length freed)\<rparr>))"

text \<open>The unlinking of \<open>_ntrip_free\<close>, used without threads.\<close>

definition ntrip_free_unlink :: "conns \<Rightarrow> nat \<Rightarrow> conns option" where
  "ntrip_free_unlink w c =
     (if c \<notin> set (ntrips w) then None
      else ntrip_quota_decr (w\<lparr>ntrips := remove1 c (ntrips w), ntrips_n := ntrips_n w - 1\<rparr>) c)"

text \<open>\<open>ntrip_drop_by_id\<close> for one connection: the queue is in the order of the identifiers.\<close>

fun find_by_id :: "(nat \<Rightarrow> int) \<Rightarrow> int \<Rightarrow> nat list \<Rightarrow> nat option" where
  "find_by_id ids i [] = None"
| "find_by_id ids i (c # cs) = (if ids c > i then None else if ids c = i then Some c else find_by_id ids i cs)"

definition drop_one :: "conns \<Rightarrow> int \<Rightarrow> (int \<times> conns) option" where
  "drop_one w i =
     (case find_by_id (\<lambda>c. nt_id (conn w c)) i (ntrips w) of
        None \<Rightarrow> Some (0, w)
      | Some c \<Rightarrow> map_option (\<lambda>w. (1, w)) (ntrip_decref_end w c))"

text \<open>All of them (\<open>id\<close> is \<open>0\<close>): the first one is ended, then the loop starts again.\<close>

partial_function (option) drop_all :: "int \<Rightarrow> conns \<Rightarrow> (int \<times> conns) option" where
  "drop_all r w =
     (case ntrips w of
        [] \<Rightarrow> Some (r, w)
      | c # _ \<Rightarrow> do { w \<leftarrow> ntrip_decref_end w c; drop_all (r + 1) w })"

definition ntrip_drop_by_id :: "conns \<Rightarrow> int \<Rightarrow> (int \<times> conns) option" where
  "ntrip_drop_by_id w i = (if i = 0 then drop_all 0 w else drop_one w i)"

subsection \<open>The invariant\<close>

definition counted_at :: "conns \<Rightarrow> cstring \<Rightarrow> nat set" where
  "counted_at w ip = {c \<in> set (ntrips w). counted (conn w c) \<and> remote_addr (conn w c) = ip}"

definition queue_inv :: "conns \<Rightarrow> bool" where
  "queue_inv w \<longleftrightarrow> distinct (ntrips w @ free_queue w) \<and> ntrips_n w = int (length (ntrips w)) \<and>
     nfree w = int (length (free_queue w)) \<and>
     sorted_wrt (\<lambda>c d. nt_id (conn w c) < nt_id (conn w d)) (ntrips w) \<and> (\<forall>c \<in> set (ntrips w). nt_id (conn w c) < next_id w)"

definition count_inv :: "conns \<Rightarrow> bool" where
  "count_inv w \<longleftrightarrow> counter_inv (ipcount w) \<and> (\<forall>ip. counter_of (ipcount w) ip = int (card (counted_at w ip))) \<and>
     (\<forall>c. c \<notin> set (ntrips w) \<longrightarrow> \<not> counted (conn w c))"

definition life_inv :: "conns \<Rightarrow> bool" where
  "life_inv w \<longleftrightarrow> distinct (deferred w) \<and> set (deferred w) \<subseteq> set (ntrips w) \<and>
     (\<forall>c \<in> set (deferred w). nt_state (conn w c) = NTRIP_END \<and> nt_refcnt (conn w c) = 0) \<and>
     (\<forall>c \<in> set (ntrips w) - set (deferred w). nt_refcnt (conn w c) > 0)"

definition conns_inv :: "conns \<Rightarrow> bool" where
  "conns_inv w \<longleftrightarrow> queue_inv w \<and> count_inv w \<and> life_inv w"

lemma set_conn_simps [simp]:
  "conn (set_conn c x w) = (conn w)(c := x)" "ntrips (set_conn c x w) = ntrips w" "ntrips_n (set_conn c x w) = ntrips_n w"
  "free_queue (set_conn c x w) = free_queue w" "nfree (set_conn c x w) = nfree w" "next_id (set_conn c x w) = next_id w"
  "ipcount (set_conn c x w) = ipcount w" "deferred (set_conn c x w) = deferred w"
  by (simp_all add: set_conn_def)

text \<open>Changes of a session that keep what a part of the invariant is about.\<close>

lemma queue_inv_conn: "queue_inv w \<Longrightarrow> nt_id x = nt_id (conn w c) \<Longrightarrow> queue_inv (set_conn c x w)"
  by (auto simp: queue_inv_def elim!: sorted_wrt_mono_rel[rotated])

lemma count_inv_conn:
  assumes "count_inv w" "counted x = counted (conn w c)" "counted x \<longrightarrow> remote_addr x = remote_addr (conn w c)"
  shows "count_inv (set_conn c x w)"
proof -
  have "counted_at (set_conn c x w) ip = counted_at w ip" for ip using assms(2,3) by (auto simp: counted_at_def)
  with assms show ?thesis by (auto simp: count_inv_def)
qed

lemma life_inv_conn: "life_inv w \<Longrightarrow> nt_state x = nt_state (conn w c) \<Longrightarrow> nt_refcnt x = nt_refcnt (conn w c) \<Longrightarrow> life_inv (set_conn c x w)"
  by (auto simp: life_inv_def)

lemma counted_at_finite [simp]: "finite (counted_at w ip)"
  by (rule finite_subset[of _ "set (ntrips w)"]) (auto simp: counted_at_def)

lemma quota_incr_ok:
  assumes inv: "count_inv w" and c: "c \<in> set (ntrips w)" "\<not> counted (conn w c)"
  shows "\<exists>h. ntrip_quota_incr w c = (int (card (counted_at w (remote_addr (conn w c)))) + 1,
      set_conn c ((conn w c)\<lparr>counted := True\<rparr>) (w\<lparr>ipcount := h\<rparr>)) \<and>
    count_inv (set_conn c ((conn w c)\<lparr>counted := True\<rparr>) (w\<lparr>ipcount := h\<rparr>))"
proof -
  let ?ip = "remote_addr (conn w c)"
  have ci: "counter_inv (ipcount w)" "counter_of (ipcount w) ip = int (card (counted_at w ip))" for ip
    using inv by (simp_all add: count_inv_def)
  note i = hash_table_incr_correct[OF ci(1), of ?ip]
  let ?h = "snd (hash_table_incr True True (ipcount w) ?ip)"
  let ?w = "set_conn c ((conn w c)\<lparr>counted := True\<rparr>) (w\<lparr>ipcount := ?h\<rparr>)"
  have e: "counted_at ?w ip = (if ip = ?ip then insert c (counted_at w ip) else counted_at w ip)" for ip
    using c by (auto simp: counted_at_def)
  have "c \<notin> counted_at w ?ip" using c by (simp add: counted_at_def)
  then have "count_inv ?w" using inv i ci c(1) by (auto simp: count_inv_def e)
  moreover have "ntrip_quota_incr w c = (int (card (counted_at w ?ip)) + 1, ?w)"
    using i(1) ci(2) by (simp add: ntrip_quota_incr_def Let_def case_prod_beta)
  ultimately show ?thesis by blast
qed

lemma quota_decr_ok:
  assumes inv: "count_inv w"
  shows "\<exists>h. ntrip_quota_decr w c = Some (set_conn c ((conn w c)\<lparr>counted := False\<rparr>) (w\<lparr>ipcount := h\<rparr>)) \<and>
    count_inv (set_conn c ((conn w c)\<lparr>counted := False\<rparr>) (w\<lparr>ipcount := h\<rparr>))"
proof (cases "counted (conn w c)")
  case False
  then have x: "(conn w c)\<lparr>counted := False\<rparr> = conn w c" by simp
  then have "set_conn c ((conn w c)\<lparr>counted := False\<rparr>) (w\<lparr>ipcount := ipcount w\<rparr>) = w"
    unfolding x by (simp add: set_conn_def)
  with False inv show ?thesis by (intro exI[of _ "ipcount w"]) (simp add: ntrip_quota_decr_def)
next
  case True
  let ?ip = "remote_addr (conn w c)"
  have c: "c \<in> counted_at w ?ip" using True inv by (auto simp: counted_at_def count_inv_def)
  have ci: "counter_inv (ipcount w)" "counter_of (ipcount w) ip = int (card (counted_at w ip))" for ip
    using inv by (simp_all add: count_inv_def)
  from hash_table_decr_correct[OF ci(1), of ?ip] obtain h where
    h: "hash_table_decr (ipcount w) ?ip = Some h" "counter_inv h"
      "counter_of h = (counter_of (ipcount w))(?ip := max 0 (counter_of (ipcount w) ?ip - 1))" by blast
  let ?w = "set_conn c ((conn w c)\<lparr>counted := False\<rparr>) (w\<lparr>ipcount := h\<rparr>)"
  have e: "counted_at ?w ip = (if ip = ?ip then counted_at w ip - {c} else counted_at w ip)" for ip
    by (auto simp: counted_at_def)
  have "0 < card (counted_at w ?ip)" using c by (auto simp: card_gt_0_iff)
  then have "int (card (counted_at w ?ip - {c})) = max 0 (int (card (counted_at w ?ip)) - 1)" using c by simp
  then have "count_inv ?w" using inv h ci by (auto simp: count_inv_def e)
  with True h(1) show ?thesis by (intro exI[of _ h]) (simp add: ntrip_quota_decr_def)
qed

lemma queue_inv_ipcount [simp]: "queue_inv (w\<lparr>ipcount := h\<rparr>) = queue_inv w" "life_inv (w\<lparr>ipcount := h\<rparr>) = life_inv w"
  by (simp_all add: queue_inv_def life_inv_def)

text \<open>Registration: the session is put in the queue, then counted.\<close>

definition insert_conn :: "nat \<Rightarrow> conns \<Rightarrow> conns" where
  "insert_conn c w = (set_conn c ((conn w c)\<lparr>nt_id := next_id w\<rparr>) w)
     \<lparr>next_id := next_id w + 1, ntrips := ntrips w @ [c], ntrips_n := ntrips_n w + 1\<rparr>"

lemma insert_conn_simps [simp]:
  "conn (insert_conn c w) = (conn w)(c := (conn w c)\<lparr>nt_id := next_id w\<rparr>)" "ntrips (insert_conn c w) = ntrips w @ [c]"
  "ipcount (insert_conn c w) = ipcount w" "deferred (insert_conn c w) = deferred w" "free_queue (insert_conn c w) = free_queue w"
  by (simp_all add: insert_conn_def)

lemma count_insert_swap:
  "(set_conn c (x\<lparr>counted := True, nt_id := n\<rparr>) (w\<lparr>ipcount := h\<rparr>))\<lparr>next_id := i, ntrips := q, ntrips_n := k\<rparr> =
    set_conn c (x\<lparr>nt_id := n, counted := True\<rparr>) ((set_conn c (x\<lparr>nt_id := n\<rparr>) w)\<lparr>next_id := i, ntrips := q, ntrips_n := k, ipcount := h\<rparr>)"
proof -
  have e: "x\<lparr>counted := True, nt_id := n\<rparr> = x\<lparr>nt_id := n, counted := True\<rparr>" by simp
  show ?thesis unfolding e by (cases w) (simp add: set_conn_def)
qed

lemma register_conn_eq:
  "register_conn bl True w c =
     (case ntrip_quota_incr (insert_conn c w) c of (n, w') \<Rightarrow>
        map_option (\<lambda>q. (if ntrip_quota_check q n < 0 then - 1 else 0, w')) (ntrip_quota_get bl (peeraddr (conn w c))))"
  "register_conn bl False w c = Some (0, insert_conn c w)"
proof -
  obtain n h where h: "hash_table_incr True True (ipcount w) (remote_addr (conn w c)) = (n, h)" by force
  have "ntrip_quota_incr (insert_conn c w) c =
      (n, set_conn c ((conn w c)\<lparr>nt_id := next_id w, counted := True\<rparr>) (insert_conn c w\<lparr>ipcount := h\<rparr>))"
    using h by (simp add: ntrip_quota_incr_def)
  moreover have "register_conn bl True w c = map_option (\<lambda>q. (if ntrip_quota_check q n < 0 then - 1 else 0,
      (set_conn c ((conn w c)\<lparr>counted := True, nt_id := next_id w\<rparr>) (w\<lparr>ipcount := h\<rparr>))
        \<lparr>next_id := next_id w + 1, ntrips := ntrips w @ [c], ntrips_n := ntrips_n w + 1\<rparr>)) (ntrip_quota_get bl (peeraddr (conn w c)))"
    using h by (simp add: register_conn_def ntrip_quota_incr_def set_conn_def Let_def map_option_case split: option.split)
  ultimately show "register_conn bl True w c =
     (case ntrip_quota_incr (insert_conn c w) c of (n, w') \<Rightarrow>
        map_option (\<lambda>q. (if ntrip_quota_check q n < 0 then - 1 else 0, w')) (ntrip_quota_get bl (peeraddr (conn w c))))"
    by (simp add: count_insert_swap insert_conn_def)
  show "register_conn bl False w c = Some (0, insert_conn c w)"
    by (simp add: register_conn_def insert_conn_def ntrip_quota_check_def)
qed

definition fresh_conn :: "conns \<Rightarrow> nat \<Rightarrow> bool" where
  "fresh_conn w c \<longleftrightarrow> c \<notin> set (ntrips w) \<and> c \<notin> set (free_queue w) \<and> 0 < nt_refcnt (conn w c)"

lemma insert_conn_inv:
  assumes "conns_inv w" "fresh_conn w c"
  shows "conns_inv (insert_conn c w)" "\<not> counted (conn (insert_conn c w) c)" "counted_at (insert_conn c w) ip = counted_at w ip"
proof -
  have n: "\<not> counted (conn w c)" "c \<notin> set (ntrips w)" using assms by (auto simp: conns_inv_def count_inv_def fresh_conn_def)
  then show "\<not> counted (conn (insert_conn c w) c)" by simp
  have e: "counted_at (insert_conn c w) ip = counted_at w ip" for ip using n by (auto simp: counted_at_def)
  then show "counted_at (insert_conn c w) ip = counted_at w ip" .
  have "sorted_wrt (\<lambda>a b. nt_id (conn (insert_conn c w) a) < nt_id (conn (insert_conn c w) b)) (ntrips w)"
    using assms(1) n(2) by (auto simp: conns_inv_def queue_inv_def elim!: sorted_wrt_mono_rel[rotated])
  then have "queue_inv (insert_conn c w)"
    using assms n(2) by (auto simp: queue_inv_def conns_inv_def fresh_conn_def insert_conn_def sorted_wrt_append)
  moreover have "count_inv (insert_conn c w)" using assms(1) n by (auto simp: count_inv_def conns_inv_def e)
  moreover have "life_inv (insert_conn c w)" using assms n(2) by (auto simp: life_inv_def conns_inv_def fresh_conn_def)
  ultimately show "conns_inv (insert_conn c w)" by (simp add: conns_inv_def)
qed

lemma counted_conn_inv:
  assumes "conns_inv w" "count_inv (set_conn c ((conn w c)\<lparr>counted := b\<rparr>) (w\<lparr>ipcount := h\<rparr>))"
  shows "conns_inv (set_conn c ((conn w c)\<lparr>counted := b\<rparr>) (w\<lparr>ipcount := h\<rparr>))"
proof -
  have "queue_inv (set_conn c ((conn w c)\<lparr>counted := b\<rparr>) (w\<lparr>ipcount := h\<rparr>))"
    using assms(1) by (intro queue_inv_conn) (simp_all add: conns_inv_def)
  moreover have "life_inv (set_conn c ((conn w c)\<lparr>counted := b\<rparr>) (w\<lparr>ipcount := h\<rparr>))"
    using assms(1) by (intro life_inv_conn) (simp_all add: conns_inv_def)
  ultimately show ?thesis using assms(2) by (simp add: conns_inv_def)
qed

lemma register_check_ok:
  assumes inv: "conns_inv w" "fresh_conn w c" and q: "ntrip_quota_get bl (peeraddr (conn w c)) = Some q"
  shows "\<exists>w'. ntrip_register_check bl w c =
      Some (if q \<ge> 0 \<and> int (card (counted_at w (remote_addr (conn w c)))) + 1 > q then - 1 else 0, w') \<and>
    conns_inv w' \<and> c \<in> set (ntrips w') \<and> counted (conn w' c)"
proof -
  note ins = insert_conn_inv[OF inv]
  have "count_inv (insert_conn c w)" "c \<in> set (ntrips (insert_conn c w))" using ins(1) by (simp_all add: conns_inv_def)
  from quota_incr_ok[OF this ins(2)] obtain h where
    h: "ntrip_quota_incr (insert_conn c w) c = (int (card (counted_at w (remote_addr (conn w c)))) + 1,
        set_conn c ((conn (insert_conn c w) c)\<lparr>counted := True\<rparr>) (insert_conn c w\<lparr>ipcount := h\<rparr>))"
      "count_inv (set_conn c ((conn (insert_conn c w) c)\<lparr>counted := True\<rparr>) (insert_conn c w\<lparr>ipcount := h\<rparr>))"
    by (auto simp: ins(3))
  show ?thesis
    using counted_conn_inv[OF ins(1) h(2)] h(1) q
    by (simp add: ntrip_register_check_def register_conn_eq ntrip_quota_check_def)
qed

lemma quota_change_ok:
  assumes inv: "conns_inv w" and c: "c \<in> set (ntrips w)"
  shows "\<exists>n w'. ntrip_quota_change ntop w c addr = Some (n, w') \<and> conns_inv w' \<and> ntrips w' = ntrips w \<and>
    n = int (card (counted_at w' (remote_addr (conn w' c))))"
proof -
  have "count_inv w" using inv by (simp add: conns_inv_def)
  from quota_decr_ok[OF this, of c] obtain h where
    h: "ntrip_quota_decr w c = Some (set_conn c ((conn w c)\<lparr>counted := False\<rparr>) (w\<lparr>ipcount := h\<rparr>))"
      "count_inv (set_conn c ((conn w c)\<lparr>counted := False\<rparr>) (w\<lparr>ipcount := h\<rparr>))" by blast
  define w1 where "w1 = set_conn c ((conn w c)\<lparr>counted := False\<rparr>) (w\<lparr>ipcount := h\<rparr>)"
  have w1: "conns_inv w1" "ntrip_quota_decr w c = Some w1" unfolding w1_def using counted_conn_inv[OF inv h(2)] h(1) by simp_all
  have w1': "(if counted (conn w c) then ntrip_quota_decr w c else Some w) = Some w1"
    using w1(2) by (auto simp: ntrip_quota_decr_def)
  define x where "x = (conn w1 c)\<lparr>remote_addr := (case ip_str ntop addr of Some s \<Rightarrow> s | None \<Rightarrow> remote_addr (conn w1 c))\<rparr>"
  have x: "\<not> counted x" "nt_id x = nt_id (conn w1 c)" "nt_state x = nt_state (conn w1 c)" "nt_refcnt x = nt_refcnt (conn w1 c)"
    by (simp_all add: x_def w1_def)
  define w2 where "w2 = set_conn c x w1"
  have "count_inv w2" unfolding w2_def using w1(1) x by (intro count_inv_conn) (simp_all add: conns_inv_def w1_def)
  moreover have "queue_inv w2" "life_inv w2" unfolding w2_def using w1(1) x queue_inv_conn life_inv_conn by (simp_all add: conns_inv_def)
  ultimately have w2: "conns_inv w2" "count_inv w2" by (simp_all add: conns_inv_def)
  have c2: "c \<in> set (ntrips w2)" "\<not> counted (conn w2 c)" "ntrips w2 = ntrips w" using c x(1) by (simp_all add: w2_def w1_def)
  from quota_incr_ok[OF w2(2) c2(1,2)] obtain k where
    k: "ntrip_quota_incr w2 c = (int (card (counted_at w2 (remote_addr (conn w2 c)))) + 1, set_conn c ((conn w2 c)\<lparr>counted := True\<rparr>) (w2\<lparr>ipcount := k\<rparr>))"
      "count_inv (set_conn c ((conn w2 c)\<lparr>counted := True\<rparr>) (w2\<lparr>ipcount := k\<rparr>))" by blast
  let ?w = "set_conn c ((conn w2 c)\<lparr>counted := True\<rparr>) (w2\<lparr>ipcount := k\<rparr>)"
  have "counted_at ?w (remote_addr (conn ?w c)) = insert c (counted_at w2 (remote_addr (conn w2 c)))"
    using c2 by (auto simp: counted_at_def)
  moreover have "c \<notin> counted_at w2 (remote_addr (conn w2 c))" using c2 by (simp add: counted_at_def)
  ultimately have "int (card (counted_at w2 (remote_addr (conn w2 c)))) + 1 = int (card (counted_at ?w (remote_addr (conn ?w c))))" by simp
  moreover have "ntrip_quota_change ntop w c addr = Some (ntrip_quota_incr w2 c)"
    by (simp add: ntrip_quota_change_def w1' w2_def x_def Let_def)
  ultimately show ?thesis using counted_conn_inv[OF w2(1) k(2)] k(1) c2(3) by simp
qed

text \<open>References and the end of a session.\<close>

lemma life_inv_ref:
  assumes "life_inv w" "c \<notin> set (deferred w)" "0 < nt_refcnt x"
  shows "life_inv (set_conn c x w)"
  using assms by (auto simp: life_inv_def)

lemma decref_ok:
  assumes inv: "conns_inv w" and c: "c \<in> set (ntrips w)" "c \<notin> set (deferred w)" "nt_state (conn w c) = NTRIP_END \<or> 2 \<le> nt_refcnt (conn w c)"
  shows "\<exists>w'. ntrip_decref w c = Some w' \<and> conns_inv w' \<and> ntrips w' = ntrips w \<and> nt_state (conn w' c) = nt_state (conn w c)"
proof -
  let ?x = "(conn w c)\<lparr>nt_refcnt := nt_refcnt (conn w c) - 1\<rparr>"
  have pos: "0 < nt_refcnt (conn w c)" using inv c by (auto simp: conns_inv_def life_inv_def)
  then have d: "refcnt_decref (nt_refcnt (conn w c)) = Some (nt_refcnt (conn w c) - 1, nt_refcnt (conn w c) = 1)"
    by (simp add: refcnt_decref_def)
  have q: "queue_inv (set_conn c ?x w)" "count_inv (set_conn c ?x w)"
    using inv queue_inv_conn[of w ?x c] count_inv_conn[of w ?x c] by (simp_all add: conns_inv_def)
  show ?thesis
  proof (cases "nt_refcnt (conn w c) = 1")
    case False
    then have "life_inv (set_conn c ?x w)" using inv c pos by (intro life_inv_ref) (simp_all add: conns_inv_def)
    with q d False show ?thesis by (simp add: ntrip_decref_def conns_inv_def)
  next
    case True
    then have e: "nt_state (conn w c) = NTRIP_END" using c(3) by simp
    let ?w = "set_conn c ?x w\<lparr>deferred := deferred w @ [c]\<rparr>"
    have "life_inv ?w" using inv c True e by (auto simp: life_inv_def conns_inv_def)
    moreover have "queue_inv ?w" using q(1) by (simp add: queue_inv_def)
    moreover have "count_inv ?w" using q(2) by (simp add: count_inv_def counted_at_def)
    ultimately show ?thesis using d True e by (simp add: ntrip_decref_def ntrip_deferred_free_def conns_inv_def)
  qed
qed

lemma decref_end_ok:
  assumes inv: "conns_inv w" and c: "c \<in> set (ntrips w)"
  shows "\<exists>w'. ntrip_decref_end w c = Some w' \<and> conns_inv w' \<and> ntrips w' = ntrips w \<and> nt_state (conn w' c) = NTRIP_END"
proof (cases "nt_state (conn w c) = NTRIP_END")
  case True
  with inv show ?thesis by (simp add: ntrip_decref_end_def)
next
  case False
  have nd: "c \<notin> set (deferred w)" using inv False by (auto simp: conns_inv_def life_inv_def)
  define x where "x = (let x = (conn w c)\<lparr>nt_state := NTRIP_END\<rparr>
     in if chunk_buf x \<noteq> None then x\<lparr>chunk_buf := None, chunk_state := CHUNK_NONE\<rparr> else x)"
  have x: "nt_state x = NTRIP_END" "nt_id x = nt_id (conn w c)" "nt_refcnt x = nt_refcnt (conn w c)" "counted x = counted (conn w c)"
    "remote_addr x = remote_addr (conn w c)" by (simp_all add: x_def Let_def)
  have pos: "0 < nt_refcnt (conn w c)" using inv c nd by (auto simp: conns_inv_def life_inv_def)
  have "conns_inv (set_conn c x w)"
    using inv queue_inv_conn[of w x c] count_inv_conn[of w x c] life_inv_ref[of w c x] x nd pos by (simp add: conns_inv_def)
  from decref_ok[OF this, of c] x nd c show ?thesis using False by (auto simp: ntrip_decref_end_def x_def Let_def)
qed

lemma deferred_free2_ok:
  assumes inv: "conns_inv w" and c: "c \<in> set (deferred w)"
  shows "\<exists>w'. ntrip_deferred_free2 (w\<lparr>deferred := remove1 c (deferred w)\<rparr>) c = Some w' \<and> conns_inv w' \<and>
    c \<notin> set (ntrips w') \<and> c \<in> set (free_queue w')"
proof -
  have cq: "c \<in> set (ntrips w)" using inv c by (auto simp: conns_inv_def life_inv_def)
  have "count_inv (w\<lparr>deferred := remove1 c (deferred w)\<rparr>)" using inv by (simp add: conns_inv_def count_inv_def counted_at_def)
  from quota_decr_ok[OF this, of c] obtain h where
    h: "ntrip_quota_decr (w\<lparr>deferred := remove1 c (deferred w)\<rparr>) c =
        Some (set_conn c ((conn w c)\<lparr>counted := False\<rparr>) (w\<lparr>deferred := remove1 c (deferred w), ipcount := h\<rparr>))"
      "count_inv (set_conn c ((conn w c)\<lparr>counted := False\<rparr>) (w\<lparr>deferred := remove1 c (deferred w), ipcount := h\<rparr>))" by auto
  let ?w = "set_conn c ((conn w c)\<lparr>counted := False\<rparr>) (w\<lparr>deferred := remove1 c (deferred w), ipcount := h\<rparr>)
    \<lparr>ntrips := remove1 c (ntrips w), ntrips_n := ntrips_n w - 1, free_queue := free_queue w @ [c], nfree := nfree w + 1\<rparr>"
  have d: "distinct (ntrips w)" "distinct (deferred w)" using inv by (auto simp: conns_inv_def queue_inv_def life_inv_def)
  have "sorted_wrt (\<lambda>a b. nt_id (conn w a) < nt_id (conn w b)) (remove1 c (ntrips w))"
    using inv d(1) by (simp add: conns_inv_def queue_inv_def distinct_remove1_removeAll removeAll_filter_not_eq sorted_wrt_filter)
  then have "sorted_wrt (\<lambda>a b. nt_id (((conn w)(c := (conn w c)\<lparr>counted := False\<rparr>)) a) < nt_id (((conn w)(c := (conn w c)\<lparr>counted := False\<rparr>)) b)) (remove1 c (ntrips w))"
    by (auto elim!: sorted_wrt_mono_rel[rotated])
  moreover have "Suc (length (remove1 c (ntrips w))) = length (ntrips w)" using cq length_pos_if_in_set[OF cq] by (simp add: length_remove1)
  ultimately have "queue_inv ?w" using inv cq by (auto simp: conns_inv_def queue_inv_def dest: notin_set_remove1)
  moreover have "counted_at ?w ip = counted_at (set_conn c ((conn w c)\<lparr>counted := False\<rparr>) (w\<lparr>deferred := remove1 c (deferred w), ipcount := h\<rparr>)) ip" for ip
    using d(1) by (auto simp: counted_at_def)
  then have "count_inv ?w" using h(2) inv d(1) by (auto simp: count_inv_def)
  moreover have "life_inv ?w" using inv d by (auto simp: conns_inv_def life_inv_def)
  moreover have "ntrip_deferred_free2 (w\<lparr>deferred := remove1 c (deferred w)\<rparr>) c = Some ?w"
    using h(1) cq by (simp add: ntrip_deferred_free2_def)
  ultimately show ?thesis using d(1) by (simp add: conns_inv_def)
qed

lemma deferred_loop_perm: "deferred_loop p cs = (f, q) \<Longrightarrow> mset cs = mset f + mset q"
  by (induction cs arbitrary: f q) (auto split: if_splits prod.splits)

lemma deferred_run_ok:
  assumes inv: "conns_inv w" and r: "ntrip_deferred_run p w = (f, w')"
  shows "conns_inv w'" "\<forall>c \<in> set f. \<not> p c"
proof -
  obtain q where q: "deferred_loop p (free_queue w) = (f, q)" "w' = w\<lparr>free_queue := q, nfree := nfree w - int (length f)\<rparr>"
    using r by (auto simp: ntrip_deferred_run_def split: prod.splits)
  note m = deferred_loop_perm[OF q(1)]
  have l: "length (free_queue w) = length f + length q" using m by (metis size_mset size_union)
  have e: "mset (free_queue w) = mset (f @ q)" using m by simp
  have s: "set (free_queue w) = set (f @ q)" by (rule mset_eq_setD[OF e])
  have "distinct (free_queue w)" using inv by (simp add: conns_inv_def queue_inv_def)
  then have d: "distinct (f @ q)" using mset_eq_imp_distinct_iff[OF e] by blast
  have "queue_inv w'" unfolding q(2) using inv l s d by (auto simp: conns_inv_def queue_inv_def)
  then show "conns_inv w'" using inv unfolding q(2) by (simp add: conns_inv_def count_inv_def counted_at_def life_inv_def)
  have "deferred_loop p cs = (f, q) \<Longrightarrow> \<forall>c \<in> set f. \<not> p c" for cs
    by (induction cs arbitrary: f q) (auto split: if_splits prod.splits)
  with q(1) show "\<forall>c \<in> set f. \<not> p c" by blast
qed

text \<open>Without threads the session is unlinked at once.\<close>

lemma quota_decr_queue:
  "ntrip_quota_decr (w\<lparr>ntrips := q, ntrips_n := k\<rparr>) c = map_option (\<lambda>w. w\<lparr>ntrips := q, ntrips_n := k\<rparr>) (ntrip_quota_decr w c)"
  by (cases w; cases "hash_table_decr (ipcount w) (remote_addr (conn w c))") (simp_all add: ntrip_quota_decr_def set_conn_def Let_def)

lemma free_unlink_ok:
  assumes inv: "conns_inv w" and c: "c \<in> set (ntrips w)" "c \<notin> set (deferred w)"
  shows "\<exists>w'. ntrip_free_unlink w c = Some w' \<and> conns_inv w' \<and> c \<notin> set (ntrips w')"
proof -
  have "count_inv w" using inv by (simp add: conns_inv_def)
  from quota_decr_ok[OF this, of c] obtain h where
    h: "ntrip_quota_decr w c = Some (set_conn c ((conn w c)\<lparr>counted := False\<rparr>) (w\<lparr>ipcount := h\<rparr>))"
      "count_inv (set_conn c ((conn w c)\<lparr>counted := False\<rparr>) (w\<lparr>ipcount := h\<rparr>))" by blast
  let ?w1 = "set_conn c ((conn w c)\<lparr>counted := False\<rparr>) (w\<lparr>ipcount := h\<rparr>)"
  let ?w = "?w1\<lparr>ntrips := remove1 c (ntrips w), ntrips_n := ntrips_n w - 1\<rparr>"
  have inv1: "conns_inv ?w1" by (rule counted_conn_inv[OF inv h(2)])
  have d: "distinct (ntrips w)" using inv by (simp add: conns_inv_def queue_inv_def)
  have "sorted_wrt (\<lambda>a b. nt_id (conn ?w1 a) < nt_id (conn ?w1 b)) (remove1 c (ntrips w))"
    using inv1 d by (simp add: conns_inv_def queue_inv_def distinct_remove1_removeAll removeAll_filter_not_eq sorted_wrt_filter)
  moreover have "Suc (length (remove1 c (ntrips w))) = length (ntrips w)" using c(1) length_pos_if_in_set[OF c(1)] by (simp add: length_remove1)
  ultimately have "queue_inv ?w" using inv by (auto simp: conns_inv_def queue_inv_def dest: notin_set_remove1)
  moreover have "counted_at ?w ip = counted_at ?w1 ip" for ip using d by (auto simp: counted_at_def)
  then have "count_inv ?w" using h(2) inv d by (auto simp: count_inv_def)
  moreover have "life_inv ?w" using inv c d by (auto simp: conns_inv_def life_inv_def)
  moreover have "ntrip_free_unlink w c = Some ?w"
    using h(1) c by (simp add: ntrip_free_unlink_def quota_decr_queue)
  ultimately show ?thesis using d by (simp add: conns_inv_def)
qed

subsection \<open>Reachable states\<close>

text \<open>
  The steps of the caster on its connections. A new session has a number that is not in use; a
  reference is released only by one who holds it: a session that has not ended keeps its own.
\<close>

inductive conns_reachable :: "(sock \<Rightarrow> cstring) \<Rightarrow> conns \<Rightarrow> bool" for ntop :: "sock \<Rightarrow> cstring" where
  start: "ntrips w = [] \<Longrightarrow> ntrips_n w = 0 \<Longrightarrow> free_queue w = [] \<Longrightarrow> nfree w = 0 \<Longrightarrow> deferred w = [] \<Longrightarrow>
    hash_table_new True n = Some (ipcount w) \<Longrightarrow> \<forall>c. \<not> counted (conn w c) \<Longrightarrow> conns_reachable ntop w"
| new: "conns_reachable ntop w \<Longrightarrow> c \<notin> set (ntrips w) \<Longrightarrow> c \<notin> set (free_queue w) \<Longrightarrow> nt_refcnt x = refcnt_init \<Longrightarrow> \<not> counted x \<Longrightarrow>
    conns_reachable ntop (set_conn c x w)"
| accept: "conns_reachable ntop w \<Longrightarrow> fresh_conn w c \<Longrightarrow> ntrip_register_check bl w c = Some (r, w') \<Longrightarrow> conns_reachable ntop w'"
| connect: "conns_reachable ntop w \<Longrightarrow> fresh_conn w c \<Longrightarrow> ntrip_register w c = Some w' \<Longrightarrow> conns_reachable ntop w'"
| forwarded: "conns_reachable ntop w \<Longrightarrow> c \<in> set (ntrips w) \<Longrightarrow> ntrip_quota_change ntop w c addr = Some (n, w') \<Longrightarrow> conns_reachable ntop w'"
| incref: "conns_reachable ntop w \<Longrightarrow> c \<in> set (ntrips w) - set (deferred w) \<Longrightarrow> ntrip_incref w c = Some w' \<Longrightarrow> conns_reachable ntop w'"
| decref: "conns_reachable ntop w \<Longrightarrow> c \<in> set (ntrips w) - set (deferred w) \<Longrightarrow>
    nt_state (conn w c) = NTRIP_END \<or> 2 \<le> nt_refcnt (conn w c) \<Longrightarrow> ntrip_decref w c = Some w' \<Longrightarrow> conns_reachable ntop w'"
| finish: "conns_reachable ntop w \<Longrightarrow> c \<in> set (ntrips w) \<Longrightarrow> ntrip_decref_end w c = Some w' \<Longrightarrow> conns_reachable ntop w'"
| unlink: "conns_reachable ntop w \<Longrightarrow> c \<in> set (deferred w) \<Longrightarrow>
    ntrip_deferred_free2 (w\<lparr>deferred := remove1 c (deferred w)\<rparr>) c = Some w' \<Longrightarrow> conns_reachable ntop w'"
| release: "conns_reachable ntop w \<Longrightarrow> ntrip_deferred_run p w = (f, w') \<Longrightarrow> conns_reachable ntop w'"

lemma register_check_some:
  assumes "ntrip_register_check bl w c = Some (r, w')"
  shows "\<exists>q. ntrip_quota_get bl (peeraddr (conn w c)) = Some q"
  using assms by (auto simp: ntrip_register_check_def register_conn_eq case_prod_beta)

lemma conns_reachable_inv: "conns_reachable ntop w \<Longrightarrow> conns_inv w"
proof (induction rule: conns_reachable.induct)
  case (start w n)
  then have "counted_at w ip = {}" for ip by (simp add: counted_at_def)
  moreover have "counter_inv (ipcount w)" "counter_of (ipcount w) ip = 0" for ip
    using hash_table_new_correct[OF start(6)] by (simp_all add: counter_inv_def counter_of_def)
  ultimately show ?case using start by (simp add: conns_inv_def queue_inv_def count_inv_def life_inv_def)
next
  case (new w c x)
  have "counted_at (set_conn c x w) ip = counted_at w ip" for ip using new by (auto simp: counted_at_def)
  moreover have "queue_inv (set_conn c x w)" using new
    by (auto simp: conns_inv_def queue_inv_def elim!: sorted_wrt_mono_rel[rotated])
  ultimately show ?case using new by (auto simp: conns_inv_def count_inv_def life_inv_def)
next
  case (accept w c bl r w')
  from register_check_some[OF accept(3)] obtain q where "ntrip_quota_get bl (peeraddr (conn w c)) = Some q" by blast
  from register_check_ok[OF accept.IH accept(2) this] accept(3) show ?case by auto
next
  case (connect w c w')
  then show ?case using insert_conn_inv(1)[of w c] by (auto simp: ntrip_register_def register_conn_eq)
next
  case (forwarded w c addr n w')
  from quota_change_ok[OF forwarded.IH forwarded(2), of ntop addr] forwarded(3) show ?case by auto
next
  case (incref w c w')
  then have pos: "0 < nt_refcnt (conn w c)" by (auto simp: conns_inv_def life_inv_def)
  let ?x = "(conn w c)\<lparr>nt_refcnt := nt_refcnt (conn w c) + 1\<rparr>"
  have "w' = set_conn c ?x w" using incref(3) pos by (simp add: ntrip_incref_def refcnt_incref_def)
  then show ?case using incref pos queue_inv_conn[of w ?x c] count_inv_conn[of w ?x c] life_inv_ref[of w c ?x] by (simp add: conns_inv_def)
next
  case (decref w c w')
  with decref_ok[OF decref.IH, of c] show ?case by auto
next
  case (finish w c w')
  with decref_end_ok[OF finish.IH, of c] show ?case by auto
next
  case (unlink w c w')
  with deferred_free2_ok[OF unlink.IH unlink(2)] show ?case by auto
next
  case (release w p f w')
  from deferred_run_ok(1)[OF release.IH release(2)] show ?case .
qed

text \<open>
  C18: In every reachable state the counter of each address is the number of the connections in the
  queue that are counted for this address. So a new connection is refused exactly if its
  address has a quota and the number of its connections, this one included, exceeds it;
  a connection can always be ended, its job unlinks it, and it is then no longer counted.
\<close>
theorem quotas_enforced:
  assumes "conns_reachable ntop w"
  shows "(\<forall>ip. counter_of (ipcount w) ip = int (card (counted_at w ip))) \<and>
    (\<forall>bl c q. fresh_conn w c \<and> ntrip_quota_get bl (peeraddr (conn w c)) = Some q \<longrightarrow>
      (\<exists>r w'. ntrip_register_check bl w c = Some (r, w') \<and> c \<in> set (ntrips w') \<and>
        (r = - 1 \<longleftrightarrow> 0 \<le> q \<and> q < int (card (counted_at w (remote_addr (conn w c)))) + 1))) \<and>
    (\<forall>c \<in> set (ntrips w). \<exists>w'. ntrip_decref_end w c = Some w' \<and> nt_state (conn w' c) = NTRIP_END) \<and>
    (\<forall>c \<in> set (deferred w). \<exists>w'. ntrip_deferred_free2 (w\<lparr>deferred := remove1 c (deferred w)\<rparr>) c = Some w' \<and>
      c \<notin> set (ntrips w') \<and> (\<forall>ip. c \<notin> counted_at w' ip))"
proof -
  note inv = conns_reachable_inv[OF assms]
  have "\<exists>r w'. ntrip_register_check bl w c = Some (r, w') \<and> c \<in> set (ntrips w') \<and>
      (r = - 1 \<longleftrightarrow> 0 \<le> q \<and> q < int (card (counted_at w (remote_addr (conn w c)))) + 1)"
    if "fresh_conn w c" "ntrip_quota_get bl (peeraddr (conn w c)) = Some q" for bl c q
    using register_check_ok[OF inv that] by auto
  moreover have "\<exists>w'. ntrip_decref_end w c = Some w' \<and> nt_state (conn w' c) = NTRIP_END" if "c \<in> set (ntrips w)" for c
    using decref_end_ok[OF inv that] by blast
  moreover have "\<exists>w'. ntrip_deferred_free2 (w\<lparr>deferred := remove1 c (deferred w)\<rparr>) c = Some w' \<and>
      c \<notin> set (ntrips w') \<and> (\<forall>ip. c \<notin> counted_at w' ip)" if "c \<in> set (deferred w)" for c
    using deferred_free2_ok[OF inv that] by (auto simp: counted_at_def)
  ultimately show ?thesis using inv by (simp add: conns_inv_def count_inv_def)
qed

definition demo_conns :: conns where
  "demo_conns = \<lparr>ntrips = [], ntrips_n = 0, free_queue = [], nfree = 0, next_id = 1, ipcount = the (hash_table_new True 5),
     conn = (\<lambda>_. new_session), deferred = []\<rparr>"

theorem quotas_enforced_witness:
  "counter_of (ipcount demo_conns) ''127.0.0.1'' = 0 \<and>
    (\<exists>r w'. ntrip_register_check None demo_conns 7 = Some (r, w') \<and> 7 \<in> set (ntrips w') \<and> r \<noteq> - 1)"
proof -
  have r: "conns_reachable (\<lambda>_. []) demo_conns"
    by (rule conns_reachable.start[where n = 5]) (use hash_new_5 in \<open>simp_all add: demo_conns_def new_session_def ntrip_new_def zero_session_def\<close>)
  have f: "fresh_conn demo_conns 7" "ntrip_quota_get None (peeraddr (conn demo_conns 7)) = Some (- 1)"
    by (simp_all add: fresh_conn_def demo_conns_def new_session_def ntrip_new_def zero_session_def refcnt_init_def ntrip_quota_get_def)
  have "counted_at demo_conns ''127.0.0.1'' = {}" by (simp add: counted_at_def demo_conns_def)
  moreover from quotas_enforced[OF r] f obtain r' w' where
    "ntrip_register_check None demo_conns 7 = Some (r', w')" "7 \<in> set (ntrips w')" "r' = - 1 \<longleftrightarrow> 0 \<le> - (1 :: int) \<and> - 1 < int (card (counted_at demo_conns (remote_addr (conn demo_conns 7)))) + 1" by blast
  moreover from quotas_enforced[OF r] have "counter_of (ipcount demo_conns) ''127.0.0.1'' = int (card (counted_at demo_conns ''127.0.0.1''))" by blast
  ultimately show ?thesis by simp
qed

subsection \<open>Dropping connections\<close>

text \<open>The identifiers increase along the queue, so that the search may stop early.\<close>

lemma find_by_id_correct:
  "sorted_wrt (\<lambda>c d. ids c < (ids d :: int)) q \<Longrightarrow> find_by_id ids i q = Some c \<longleftrightarrow> c \<in> set q \<and> ids c = i"
  by (induction q) auto

lemma drop_one_correct:
  assumes "conns_inv w" "i \<noteq> 0"
  shows "if \<exists>c \<in> set (ntrips w). nt_id (conn w c) = i
    then \<exists>c w'. c \<in> set (ntrips w) \<and> nt_id (conn w c) = i \<and> ntrip_drop_by_id w i = Some (1, w') \<and> nt_state (conn w' c) = NTRIP_END
    else ntrip_drop_by_id w i = Some (0, w)"
proof -
  have s: "sorted_wrt (\<lambda>c d. nt_id (conn w c) < nt_id (conn w d)) (ntrips w)" using assms(1) by (simp add: conns_inv_def queue_inv_def)
  note f = find_by_id_correct[OF s, of i]
  show ?thesis
  proof (cases "find_by_id (\<lambda>c. nt_id (conn w c)) i (ntrips w)")
    case None
    then have "\<not> (\<exists>c \<in> set (ntrips w). nt_id (conn w c) = i)" using f by (metis option.distinct(1))
    with None assms(2) show ?thesis by (simp add: ntrip_drop_by_id_def drop_one_def)
  next
    case (Some c)
    with f have c: "c \<in> set (ntrips w)" "nt_id (conn w c) = i" by blast+
    from decref_end_ok[OF assms(1) c(1)] obtain w' where "ntrip_decref_end w c = Some w'" "nt_state (conn w' c) = NTRIP_END" by blast
    with c Some assms(2) show ?thesis by (auto simp: ntrip_drop_by_id_def drop_one_def)
  qed
qed

text \<open>
  Dropping all connections: in threaded mode a session leaves the queue only by its deferred job. The
  loop of one thread does not end by itself while there is a connection.
\<close>

lemma decref_end_ntrips: "ntrip_decref_end w c = Some w' \<Longrightarrow> ntrips w' = ntrips w"
  by (auto simp: ntrip_decref_end_def ntrip_decref_def ntrip_deferred_free_def bind_eq_Some_conv Let_def split: if_splits)

lemma drop_all_spins:
  assumes "ntrips w \<noteq> []"
  shows "ntrip_drop_by_id w 0 = None"
proof -
  have "ntrips v = []" if "drop_all r v = Some y" for r v y
    using that
  proof (rule drop_all.raw_induct[rotated])
    fix f r v y
    assume f: "\<And>r v y. f r v = Some y \<Longrightarrow> ntrips v = []"
      and e: "(case ntrips v of [] \<Rightarrow> Some (r, v) | c # _ \<Rightarrow> Option.bind (ntrip_decref_end v c) (f (r + 1))) = Some y"
    show "ntrips v = []"
    proof (cases "ntrips v")
      case (Cons c cs)
      with e obtain v' where v': "ntrip_decref_end v c = Some v'" "f (r + 1) v' = Some y" by (auto simp: bind_eq_Some_conv)
      from f[OF v'(2)] decref_end_ntrips[OF v'(1)] show ?thesis by simp
    qed
  qed
  with assms show ?thesis by (cases "drop_all 0 w") (auto simp: ntrip_drop_by_id_def)
qed

end
