(* ===== verification/Ntripsrv.thy ===== *)
theory Ntripsrv
  imports Adm Ntrip_Chunk Ntrip_Conns Rtcm_Stream
begin

text \<open>
  The server side of a connection (\<^verbatim>\<open>caster/ntripsrv.c\<close>): the read callback, which parses the request line
  and the headers, dispatches the request (console, files, sourcetable, subscription to a stream,
  registration of a source) and reads what follows, the other callbacks, the listener, and the search of
  the nearest base for a client of a virtual mountpoint.

  The state is \<open>srv\<close>: the connections with their sessions, the table of live sources, the stack of
  sourcetables, the nodes, and, in the order in which they were made, the jobs appended to the
  queue and the messages to other nodes. What the environment gives (file system, clock, JSON parser,
  address conversions, allocations) are the fields of \<open>srv_env\<close>; the configuration that a callback
  reads is \<open>srv_config\<close>. An access out of bounds or to a freed buffer and a failed assertion are \<^const>\<open>None\<close>.
\<close>

subsection \<open>State\<close>

record srv_config =
  cfg_adm :: adm_config
  http_header_max_size :: nat
  http_content_length_max :: nat
  trusted_http_proxy_prefixes :: "(sock \<times> int) list"
  trusted_http_ip_header :: "cstring option"
  cfg_blocklist :: "prefix_table option"
  cfg_rtcm_filter :: "unit hash_table option"
  idle_max_delay :: int
  min_nearest_recompute_interval :: int
  max_nearest_recompute_interval :: int
  min_nearest_recompute_pos_delta :: real
  nearest_base_count_target :: int
  max_nearest_lookup_distance_m :: real
  hysteresis_m :: real

record srv_env =
  se_parse :: "cstring \<Rightarrow> json option"
  se_fs :: file_system
  se_stats :: "bool \<Rightarrow> mime_content"
  se_date :: cstring
  se_now :: timeval
  se_ntop :: "sock \<Rightarrow> cstring"
  se_pton6 :: pton
  se_pton4 :: pton
  se_api :: json_api
  se_strptime :: "cstring \<Rightarrow> int option"
  se_uninit :: sourceline
  se_junk :: "nat \<Rightarrow> byte"
  se_mem :: "nat \<Rightarrow> bool"
  se_useful :: "packet \<Rightarrow> bool"

datatype srv_job =
    Job_content nat content_cb request
  | Job_redo_virtual_pos nat
  | Job_set_rtcm_cache nat
  | Job_subscribe nat cstring
  | Job_switch_source nat cstring
  | Job_fetch cstring endpoint
  | Job_livesource_del nat cstring

record srv =
  sv_conns :: conns
  sv_live :: livesources
  sv_stack :: "sourcetable list"
  sv_nodes :: "node hash_table"
  sv_syncer :: "nat \<Rightarrow> cstring option"
  sv_rtcm :: "nat \<Rightarrow> rtcm_conn"
  sv_cache :: "rtcm_info hash_table"
  sv_jobs :: "srv_job list"
  sv_messages :: "json list"
  sv_sent :: "(nat \<times> packet) list"

abbreviation sess :: "srv \<Rightarrow> nat \<Rightarrow> ntrip_state" where
  "sess w c \<equiv> conn (sv_conns w) c"

definition set_sess :: "nat \<Rightarrow> ntrip_state \<Rightarrow> srv \<Rightarrow> srv" where
  "set_sess c st w = w\<lparr>sv_conns := set_conn c st (sv_conns w)\<rparr>"

definition add_job :: "srv_job \<Rightarrow> srv \<Rightarrow> srv" where
  "add_job j w = w\<lparr>sv_jobs := sv_jobs w @ [j]\<rparr>"

text \<open>\<open>syncer_queue_json\<close> with a message that may be NULL.\<close>

definition add_message :: "json option \<Rightarrow> srv \<Rightarrow> srv" where
  "add_message m w = (case m of None \<Rightarrow> w | Some j \<Rightarrow> w\<lparr>sv_messages := sv_messages w @ [j]\<rparr>)"

abbreviation live_test_of :: "srv \<Rightarrow> live_test" where
  "live_test_of w \<equiv> \<lambda>mountpoint pos. livesource_exists (sv_live w) mountpoint"

text \<open>\<open>ntrip_decref_end\<close>, which queues the end of the live source of the session and drains its output.\<close>

definition srv_decref_end :: "srv \<Rightarrow> nat \<Rightarrow> srv option" where
  "srv_decref_end w c =
     (if nt_state (sess w c) = NTRIP_END then Some w
      else do {
        let w = (case own_livesource (sess w c) of
                   None \<Rightarrow> w
                 | Some m \<Rightarrow> add_job (Job_livesource_del c m) (set_sess c ((sess w c)\<lparr>own_livesource := None\<rparr>) w));
        let w = set_sess c ((sess w c)\<lparr>nt_output := []\<rparr>) w;
        cs \<leftarrow> ntrip_decref_end (sv_conns w) c;
        Some (w\<lparr>sv_conns := cs\<rparr>)
      })"

subsection \<open>Reading\<close>

text \<open>
  \<open>evbuffer_readln\<close> with \<open>EVBUFFER_EOL_CRLF\<close>: the line ends at a line feed, a carriage return before it
  is dropped. The rest of the buffer is returned; as a text a line ends at its first zero byte.
\<close>

definition readln :: "byte list \<Rightarrow> (byte list \<times> byte list) option" where
  "readln bs =
     (case dropWhile (\<lambda>b. b \<noteq> 0x0a) bs of
        [] \<Rightarrow> None
      | _ # r \<Rightarrow>
          let l = takeWhile (\<lambda>b. b \<noteq> 0x0a) bs
          in Some (if l \<noteq> [] \<and> last l = 0x0d then butlast l else l, r))"

definition line_text :: "byte list \<Rightarrow> cstring" where
  "line_text l = takeWhile (\<lambda>c. c \<noteq> CHR 0x00) (string_of l)"

text \<open>The conversion \<open>%lu\<close>: it saturates at 64 bits, a minus sign negates modulo two to the 64.\<close>

definition c_sscanf_lu :: "cstring \<Rightarrow> nat option" where
  "c_sscanf_lu s =
     (let t = dropWhile c_isspace s;
          (neg, u) = (case t of [] \<Rightarrow> (False, []) | c # r \<Rightarrow>
                        if c = CHR ''-'' then (True, r)
                        else if c = CHR ''+'' then (False, r) else (False, t));
          ds = takeWhile c_isdigit u;
          v = digits_val ds
      in if ds = [] then None
         else if v \<ge> 2 ^ 64 then Some (2 ^ 64 - 1)
         else Some (if neg then (2 ^ 64 - v) mod 2 ^ 64 else v))"

text \<open>
  What an iteration of the loop of \<open>ntripsrv_readcb\<close> does: it goes on, or it leaves the loop with an error
  code, extra headers for the reply and the flag \<open>method_post_source\<close>.
\<close>

datatype outcome = Go srv | Stop srv int headers bool

abbreviation stop :: "srv \<Rightarrow> int \<Rightarrow> outcome" where
  "stop w err \<equiv> Stop w err [] False"

text \<open>A line of at most the configured size, or the outcome of the iteration.\<close>

datatype line_read = Line "byte list" ntrip_state | No_line ntrip_state | Too_long ntrip_state

definition read_line :: "srv_config \<Rightarrow> ntrip_state \<Rightarrow> line_read option" where
  "read_line config st = do {
     bs \<leftarrow> input_data st;
     case readln bs of
       Some (l, r) \<Rightarrow>
         (let st = (set_input_data r st)\<lparr>nt_received := nt_received st + length l + 2\<rparr>
          in Some (if length l > http_header_max_size config then Too_long st else Line l st))
     | None \<Rightarrow> Some (if length bs > http_header_max_size config then Too_long st else No_line st)
   }"

definition request_line :: "cstring \<Rightarrow> ntrip_state \<Rightarrow> int \<times> ntrip_state" where
  "request_line line st =
     (let tokens = strsep_tokens is_blank line;
          i = min SIZE_HTTP_ARGS (length tokens);
          st = st\<lparr>http_args := take SIZE_HTTP_ARGS tokens, n_http_args := i\<rparr>
      in if i < 2 \<or> length tokens > SIZE_HTTP_ARGS then (400, st)
         else (0, (if i = 2 then st\<lparr>http_args := tokens @ [''HTTP/0.9'']\<rparr> else st)
                    \<lparr>nt_state := NTRIP_WAIT_HTTP_HEADER, received_keepalive := False\<rparr>))"

definition method_step :: "srv_config \<Rightarrow> nat \<Rightarrow> srv \<Rightarrow> outcome option" where
  "method_step config c w = do {
     let st = (ntrip_clear_request (sess w c))\<lparr>nt_mountpoint := None\<rparr>;
     l \<leftarrow> read_line config st;
     Some (case l of
       Too_long st \<Rightarrow> stop (set_sess c st w) 400
     | No_line st \<Rightarrow> stop (set_sess c st w) 0
     | Line l st \<Rightarrow> (let (err, st) = request_line (line_text l) st
                     in if err \<noteq> 0 then stop (set_sess c st w) err else Go (set_sess c st w)))
   }"

subsection \<open>Headers\<close>

definition pos_of_gga :: "gga \<Rightarrow> pos_t" where
  "pos_of_gga g = \<lparr>pos_lat = gga_lat g, pos_lon = gga_lon g\<rparr>"

definition record_gga :: "timeval \<Rightarrow> gga \<Rightarrow> ntrip_state \<Rightarrow> ntrip_state option" where
  "record_gga now g st =
     ntrip_push_pos_history (st\<lparr>last_pos := Some (pos_of_gga g), last_gga := Some g, last_gga_date := now\<rparr>) (pos_of_gga g)"

definition set_user_agent :: "cstring \<Rightarrow> ntrip_state \<Rightarrow> ntrip_state" where
  "set_user_agent value st =
     (let st = (if mystrcasestr value ''ntrip'' \<noteq> None
                then st\<lparr>user_agent_ntrip := True, client_version := (if client_version st = 0 then 1 else client_version st)\<rparr>
                else st)
      in st\<lparr>user_agent := Some value\<rparr>)"

definition set_authorization :: "cstring \<Rightarrow> ntrip_state \<Rightarrow> ntrip_state option" where
  "set_authorization value st = do {
     d \<leftarrow> http_decode_auth value;
     Some (case d of None \<Rightarrow> st
       | Some (basic, user, password) \<Rightarrow> st\<lparr>scheme_basic := basic, nt_user := Some user, nt_password := Some password\<rparr>)
   }"

text \<open>The headers that change only the session: an error and the session, or \<^const>\<open>None\<close> out of bounds.\<close>

definition header_field :: "srv_env \<Rightarrow> srv_config \<Rightarrow> cstring \<Rightarrow> cstring \<Rightarrow> ntrip_state \<Rightarrow> (int \<times> ntrip_state) option" where
  "header_field env config key value st =
     (if c_strcaseeq key ''host'' then Some (0, st)
      else if c_strcaseeq key ''transfer-encoding'' then
        Some (0, if c_strcaseeq value ''chunked'' then st\<lparr>chunk_state := CHUNK_INIT\<rparr> else st)
      else if c_strcaseeq key ''connection'' then
        Some (0, if c_strcaseeq value ''keep-alive'' then st\<lparr>received_keepalive := True\<rparr> else st)
      else if c_strcaseeq key ''content-length'' then
        Some (case c_sscanf_lu value of
          None \<Rightarrow> (0, st)
        | Some n \<Rightarrow> if n > http_content_length_max config then (413, st) else (0, st\<lparr>content_length := n, content_done := 0\<rparr>))
      else if c_strcaseeq key ''content-type'' then Some (0, st\<lparr>content_type := Some value\<rparr>)
      else if c_strcaseeq key ''ntrip-version'' then
        Some (0, if c_strcaseeq value ''ntrip/2.0'' then st\<lparr>client_version := 2\<rparr> else st)
      else if c_strcaseeq key ''user-agent'' \<or> c_strcaseeq key ''source-agent'' then Some (0, set_user_agent value st)
      else if c_strcaseeq key ''authorization'' then map_option (Pair 0) (set_authorization value st)
      else if c_strcaseeq key ''ntrip-gga'' then
        (case parse_gga value of
           None \<Rightarrow> Some (0, st)
         | Some g \<Rightarrow> map_option (Pair 0) (record_gga (se_now env) g st))
      else Some (0, st))"

fun in_prefixes :: "(sock \<times> int) list \<Rightarrow> sock \<Rightarrow> bool option" where
  "in_prefixes [] addr = Some False"
| "in_prefixes ((p, n) # ps) addr = do { b \<leftarrow> ip_in_prefix p n addr; if b then Some True else in_prefixes ps addr }"

text \<open>The address after the last comma of the value.\<close>

definition last_address :: "cstring \<Rightarrow> cstring" where
  "last_address value = dropWhile c_isspace (rev (takeWhile (\<lambda>c. c \<noteq> CHR '','') (rev value)))"

definition handle_forwarded_header :: "srv_env \<Rightarrow> srv_config \<Rightarrow> cstring \<Rightarrow> nat \<Rightarrow> srv \<Rightarrow> (int \<times> srv) option" where
  "handle_forwarded_header env config value c w = do {
     trust \<leftarrow> in_prefixes (trusted_http_proxy_prefixes config) (peeraddr (sess w c));
     if \<not> trust then Some (0, w)
     else
       (case ip_convert (se_pton6 env) (se_pton4 env) (last_address value) of
          None \<Rightarrow> Some (400, w)
        | Some realaddr \<Rightarrow> do {
            (n, cs) \<leftarrow> ntrip_quota_change (se_ntop env) (sv_conns w) c realaddr;
            let w = w\<lparr>sv_conns := cs\<rparr>;
            let w = set_sess c ((sess w c)\<lparr>peeraddr := realaddr\<rparr>) w;
            q \<leftarrow> ntrip_quota_get (cfg_blocklist config) realaddr;
            Some (if ntrip_quota_check q n < 0 then (1, w) else (0, w))
          })
   }"

text \<open>The header with the client address: it is looked up last.\<close>

definition known_headers :: "cstring list" where
  "known_headers = [''host'', ''transfer-encoding'', ''connection'', ''content-length'', ''content-type'', ''ntrip-version'',
     ''user-agent'', ''source-agent'', ''authorization'', ''ntrip-gga'']"

definition is_forwarded_header :: "srv_config \<Rightarrow> cstring \<Rightarrow> bool" where
  "is_forwarded_header config key \<longleftrightarrow> (\<forall>k \<in> set known_headers. \<not> c_strcaseeq key k) \<and>
     c_strcaseeq key (case trusted_http_ip_header config of Some h \<Rightarrow> h | None \<Rightarrow> ''x-forwarded-for'')"

definition header_line :: "srv_env \<Rightarrow> srv_config \<Rightarrow> cstring \<Rightarrow> nat \<Rightarrow> srv \<Rightarrow> outcome option" where
  "header_line env config line c w =
     (case parse_header line of
        None \<Rightarrow> Some (stop w 400)
      | Some (key, value) \<Rightarrow> do {
          (err, w) \<leftarrow> (if is_forwarded_header config key then handle_forwarded_header env config value c w
             else do { (err, st) \<leftarrow> header_field env config key value (sess w c); Some (err, set_sess c st w) });
          Some (if err \<noteq> 0 then stop w err else Go w)
        })"

subsection \<open>The end of the headers\<close>

text \<open>The body is allocated with an extra byte, the decoder of chunks is set up, the query string is cut off the path.\<close>

definition end_headers :: "srv_env \<Rightarrow> ntrip_state \<Rightarrow> ntrip_state option" where
  "end_headers env st = do {
     let st = (if content_length st \<noteq> 0 then st\<lparr>content := Some (map (se_junk env) [0..<content_length st + 1])\<rparr> else st);
     let st = (if client_version st = 1 then st\<lparr>connection_keepalive := False\<rparr> else st);
     st \<leftarrow> (if chunk_state st = CHUNK_INIT then ntrip_chunk_decode_init st else Some st);
     meth \<leftarrow> buf_get (http_args st) 0;
     path \<leftarrow> buf_get (http_args st) 1;
     Some (if meth = ''SOURCE'' then st
           else case split_at_first (\<lambda>c. c = CHR ''?'') path of
             (p, Some q) \<Rightarrow> st\<lparr>query_string := Some q, http_args := (http_args st)[1 := p]\<rparr>
           | _ \<Rightarrow> st)
   }"

text \<open>What the console asked for: a job, or a replication message that is executed at once.\<close>

definition perform_action :: "srv_env \<Rightarrow> nat \<Rightarrow> adm_action \<Rightarrow> srv \<Rightarrow> srv option" where
  "perform_action env c a w =
     (case a of
        No_action \<Rightarrow> Some w
      | Queue_content cb req \<Rightarrow> Some (add_job (Job_content c cb req) w)
      | Sync_content req \<Rightarrow> do {
          j \<leftarrow> req_json req;
          (status, m, stack, sync) \<leftarrow> api_sync_json (se_api env) (se_strptime env) (se_uninit env) (se_now env) j
             (sv_stack w, \<lparr>sy_remote = lt_remote (sv_live w), sy_nodes = sv_nodes w, req_node = None, syncer_id = sv_syncer w c\<rparr>);
          let w = w\<lparr>sv_stack := stack, sv_live := (sv_live w)\<lparr>lt_remote := sy_remote sync\<rparr>, sv_nodes := sy_nodes sync,
                    sv_syncer := (sv_syncer w)(c := syncer_id sync)\<rparr>;
          st \<leftarrow> ntripsrv_deferred_output (se_date env) (sess w c) status (Some m);
          Some (set_sess c st w)
        })"

definition is_adm_path :: "cstring \<Rightarrow> bool" where
  "is_adm_path path \<longleftrightarrow> take 5 path = ''/adm/''"

text \<open>A call of \<open>admsrv\<close>: the error, the headers, the new state.\<close>

definition adm_request :: "srv_env \<Rightarrow> srv_config \<Rightarrow> nat \<Rightarrow> cstring \<Rightarrow> cstring \<Rightarrow> srv \<Rightarrow> (int \<times> headers \<times> srv) option" where
  "adm_request env config c meth path w = do {
     let st = (sess w c)\<lparr>nt_type := ''adm''\<rparr>;
     r \<leftarrow> admsrv (se_parse env) (cfg_adm config) (se_fs env) (se_stats env) (se_date env) st meth ''/adm'' (drop 4 path);
     w \<leftarrow> perform_action env c (ao_action r) (set_sess c (ao_st r) w);
     Some (ao_err r, ao_headers r, w)
   }"

text \<open>The sourcetable as the reply: the loop goes on if the connection is kept.\<close>

definition sourcetable_reply :: "srv_env \<Rightarrow> nat \<Rightarrow> srv \<Rightarrow> outcome option" where
  "sourcetable_reply env c w = do {
     (err, st) \<leftarrow> ntripsrv_send_sourcetable (se_date env) (live_test_of w) (sv_stack w) ((sess w c)\<lparr>nt_type := ''client''\<rparr>);
     if connection_keepalive st \<and> received_keepalive st then do {
       let st = st\<lparr>nt_state := (if content_length st \<noteq> 0 then NTRIP_WAIT_CLIENT_CONTENT else NTRIP_WAIT_HTTP_METHOD)\<rparr>;
       Some (if err \<noteq> 0 then stop (set_sess c st w) err else Go (set_sess c st w))
     }
     else Some (stop (set_sess c (st\<lparr>nt_state := NTRIP_WAIT_CLOSE\<rparr>) w) err)
   }"

text \<open>\<open>livesource_find_and_subscribe\<close> with the jobs and the message that it makes.\<close>

definition find_and_subscribe :: "nat \<Rightarrow> cstring \<Rightarrow> bool \<Rightarrow> srv \<Rightarrow> (bool \<times> srv) option" where
  "find_and_subscribe c mountpoint on_demand w = do {
     (r, sub, j, e, tbl) \<leftarrow> livesource_find_and_subscribe (sv_live w) mountpoint True on_demand;
     let w = w\<lparr>sv_live := tbl\<rparr>;
     let w = (case e of Some e \<Rightarrow> add_job (Job_fetch mountpoint e) w | None \<Rightarrow> w);
     let w = add_message j w;
     let w = (case sub of Some m \<Rightarrow> add_job (Job_subscribe c m) w | None \<Rightarrow> w);
     Some (r = 1, w)
   }"

text \<open>The stream of a source, requested by a client whose credentials were checked.\<close>

definition start_stream :: "srv_env \<Rightarrow> nat \<Rightarrow> cstring \<Rightarrow> sourceline option \<Rightarrow> bool \<Rightarrow> srv \<Rightarrow> outcome option" where
  "start_stream env c mountpoint sourceline subscribe_ok w = do {
     let st = (sess w c)\<lparr>connection_keepalive := False\<rparr>;
     if sourceline = None \<and> \<not> subscribe_ok then Some (stop (set_sess c st w) 404)
     else do {
       let st = (case sourceline of
                   Some l \<Rightarrow> st\<lparr>source_virtual := sl_virtual l, source_on_demand := sl_on_demand l\<rparr>
                 | None \<Rightarrow> st\<lparr>source_virtual := 0, source_on_demand := 1\<rparr>);
       let st = st\<lparr>nt_type := ''client''\<rparr>;
       if source_virtual st = 0 \<and> \<not> subscribe_ok then
         (if client_version st = 1 then do {
            (err, st) \<leftarrow> ntripsrv_send_sourcetable (se_date env) (live_test_of w) (sv_stack w) st;
            Some (stop (set_sess c (st\<lparr>nt_state := NTRIP_WAIT_CLOSE\<rparr>) w) err)
          }
          else Some (stop (set_sess c st w) 404))
       else do {
         st \<leftarrow> ntripsrv_send_stream_result_ok (se_date env) (st\<lparr>nt_mountpoint := Some mountpoint\<rparr>) (Some ''gnss/data'') None;
         let st = st\<lparr>nt_state := NTRIP_WAIT_CLIENT_INPUT,
                     nt_rtcm_state := (if source_virtual st \<noteq> 0 then NTRIP_RTCM_POS_WAIT else NTRIP_RTCM_POS_OK)\<rparr>;
         let w = set_sess c st w;
         Some (Go (if last_pos st \<noteq> None then add_job (Job_redo_virtual_pos c) w else w))
       }
     }
   }"

text \<open>Whether the credentials of the session allow it to read streams.\<close>

definition rover_allowed :: "srv_config \<Rightarrow> ntrip_state \<Rightarrow> bool" where
  "rover_allowed config st \<longleftrightarrow>
     \<not> (rover_auth_filename (cfg_auth (cfg_adm config)) \<noteq> None \<and>
        \<not> check_rover_password (cfg_auth (cfg_adm config)) (nt_user st) (nt_password st) \<and>
        \<not> rover_auth_exempt_peer (remote_addr st))"

definition get_mountpoint :: "srv_env \<Rightarrow> srv_config \<Rightarrow> nat \<Rightarrow> cstring \<Rightarrow> srv \<Rightarrow> outcome option" where
  "get_mountpoint env config c mountpoint w =
     (if mountpoint = [] then sourcetable_reply env c w
      else if \<not> rover_allowed config (sess w c) then Some (stop w 401)
      else do {
        let w = (case cfg_rtcm_filter config of
                   Some d \<Rightarrow> if rtcm_filter_check_mountpoint d mountpoint then set_sess c ((sess w c)\<lparr>nt_use_filter := True\<rparr>) w else w
                 | None \<Rightarrow> w);
        let sourceline = stack_find_mountpoint (live_test_of w) (sv_stack w) mountpoint;
        (subscribe_ok, w) \<leftarrow>
          (if sourceline = None \<or> sl_virtual (the sourceline) = 0
           then find_and_subscribe c mountpoint (case sourceline of Some l \<Rightarrow> sl_on_demand l \<noteq> 0 | None \<Rightarrow> False) w
           else Some (False, w));
        if sourceline = None \<and> \<not> subscribe_ok \<and> client_version (sess w c) = 1 then sourcetable_reply env c w
        else start_stream env c mountpoint sourceline subscribe_ok w
      })"

definition get_request :: "srv_env \<Rightarrow> srv_config \<Rightarrow> nat \<Rightarrow> srv \<Rightarrow> outcome option" where
  "get_request env config c w = do {
     path \<leftarrow> buf_get (http_args (sess w c)) 1;
     if take 1 path \<noteq> ''/'' then Some (stop w 400)
     else if is_adm_path path then do {
       (err, hs, w) \<leftarrow> adm_request env config c ''GET'' path w;
       Some (Stop w err hs False)
     }
     else do {
       (r, err, st) \<leftarrow> (if webroots (cfg_adm config) \<noteq> []
          then filesrv (cfg_adm config) (se_fs env) (se_date env) (sess w c) path else Some (- 1, 0, sess w c));
       let w = set_sess c st w;
       if r \<ge> 0 \<or> err \<noteq> 0 then Some (stop w err) else get_mountpoint env config c (drop 1 path) w
     }
   }"

text \<open>The end of a \<open>POST\<close> or \<open>SOURCE\<close> request: a source with a mountpoint, a password and, for \<open>POST\<close>, a user.\<close>

definition register_source :: "srv_env \<Rightarrow> srv_config \<Rightarrow> nat \<Rightarrow> cstring \<Rightarrow> cstring option \<Rightarrow> cstring \<Rightarrow> srv \<Rightarrow> outcome option" where
  "register_source env config c mountpoint user password w =
     (let r = check_password (cfg_auth (cfg_adm config)) mountpoint user password in
      if r = CHECKPW_MOUNTPOINT_INVALID then Some (Stop w 401 [] True)
      else
        let sourceline = stack_find_local_mountpoint (live_test_of w) (sv_stack w) mountpoint in
        if sourceline \<noteq> None \<and> sl_virtual (the sourceline) \<noteq> 0 then Some (Stop w 404 [] True)
        else if sourceline = None \<and> r \<noteq> CHECKPW_MOUNTPOINT_WILDCARD then Some (Stop w 404 [] True)
        else do {
          let st = (sess w c)\<lparr>wildcard := (r = CHECKPW_MOUNTPOINT_WILDCARD), nt_type := ''source'', nt_mountpoint := Some mountpoint\<rparr>;
          (connected, j, tbl) \<leftarrow> livesource_connected (sv_live w) (own_livesource st = None \<and> nt_subscription st = None) mountpoint;
          let w = add_message j (w\<lparr>sv_live := tbl\<rparr>);
          if connected = 0 then Some (Stop (set_sess c st w) 409 [] True)
          else if connected < 0 then Some (Stop (set_sess c st w) 503 [] True)
          else do {
            let st = st\<lparr>own_livesource := Some mountpoint\<rparr>;
            st \<leftarrow> (if client_version st = 1 then do {
                     (ev, _) \<leftarrow> add_reference (''ICY 200 OK'' @ crlf @ crlf) 14 (nt_output st, 0);
                     Some (st\<lparr>nt_output := ev\<rparr>)
                   }
                   else ntripsrv_send_stream_result_ok (se_date env) st None None);
            Some (Go (add_job (Job_set_rtcm_cache c) (set_sess c (st\<lparr>nt_state := NTRIP_WAIT_STREAM_SOURCE\<rparr>) w)))
          }
        })"

definition post_request :: "srv_env \<Rightarrow> srv_config \<Rightarrow> nat \<Rightarrow> srv \<Rightarrow> outcome option" where
  "post_request env config c w = do {
     let st = sess w c;
     path \<leftarrow> buf_get (http_args st) 1;
     if is_adm_path path then
       (if content_length st = 0 then do {
          (err, hs, w) \<leftarrow> adm_request env config c ''POST'' path w;
          let w = set_sess c ((sess w c)\<lparr>nt_state := NTRIP_WAIT_HTTP_METHOD\<rparr>) w;
          Some (if err \<noteq> 0 then Stop w err hs False else Go w)
        }
        else Some (Go (set_sess c (st\<lparr>nt_type := ''adm'', nt_state := NTRIP_WAIT_CLIENT_CONTENT\<rparr>) w)))
     else if \<not> scheme_basic st then Some (stop w 401)
     else do {
       let w = set_sess c (st\<lparr>connection_keepalive := False, client_version := 2\<rparr>) w;
       if take 1 path \<noteq> ''/'' then Some (Stop w 400 [] True)
       else
         (case (nt_user st, nt_password st) of
            (Some user, Some password) \<Rightarrow> register_source env config c (drop 1 path) (Some user) password w
          | _ \<Rightarrow> Some (Stop w 401 [] True))
     }
   }"

definition source_request :: "srv_env \<Rightarrow> srv_config \<Rightarrow> nat \<Rightarrow> srv \<Rightarrow> outcome option" where
  "source_request env config c w = do {
     let st = sess w c;
     if n_http_args st = 2 then Some (stop w 400)
     else do {
       password \<leftarrow> buf_get (http_args st) 1;
       path \<leftarrow> buf_get (http_args st) 2;
       let mountpoint = (if take 1 path = ''/'' then drop 1 path else path);
       register_source env config c mountpoint None password (set_sess c (st\<lparr>connection_keepalive := False, client_version := 1\<rparr>) w)
     }
   }"

definition dispatch :: "srv_env \<Rightarrow> srv_config \<Rightarrow> nat \<Rightarrow> srv \<Rightarrow> outcome option" where
  "dispatch env config c w = do {
     st \<leftarrow> end_headers env (sess w c);
     let w = set_sess c st w;
     meth \<leftarrow> buf_get (http_args st) 0;
     if meth = ''GET'' then get_request env config c w
     else if meth = ''POST'' then post_request env config c w
     else if meth = ''SOURCE'' then source_request env config c w
     else Some (stop w 501)
   }"

definition header_step :: "srv_env \<Rightarrow> srv_config \<Rightarrow> nat \<Rightarrow> srv \<Rightarrow> outcome option" where
  "header_step env config c w = do {
     l \<leftarrow> read_line config (sess w c);
     case l of
       Too_long st \<Rightarrow> Some (stop (set_sess c st w) 431)
     | No_line st \<Rightarrow> Some (stop (set_sess c st w) 0)
     | Line l st \<Rightarrow> if l \<noteq> [] then header_line env config (line_text l) c (set_sess c st w)
                     else dispatch env config c (set_sess c st w)
   }"

subsection \<open>What follows a request\<close>

definition client_input_step :: "srv_env \<Rightarrow> nat \<Rightarrow> srv \<Rightarrow> outcome option" where
  "client_input_step env c w = do {
     let st = sess w c;
     bs \<leftarrow> input_data st;
     case readln bs of
       None \<Rightarrow> Some (stop w 0)
     | Some (l, r) \<Rightarrow> do {
         let st = (set_input_data r st)\<lparr>nt_received := nt_received st + length l + 2\<rparr>;
         case parse_gga (line_text l) of
           None \<Rightarrow> Some (Go (set_sess c st w))
         | Some g \<Rightarrow> do {
             st \<leftarrow> record_gga (se_now env) g st;
             Some (Go (add_job (Job_redo_virtual_pos c) (set_sess c st w)))
           }
       }
   }"

text \<open>\<open>memcpy\<close> into the body.\<close>

definition put_content :: "nat \<Rightarrow> byte list \<Rightarrow> byte list \<Rightarrow> byte list option" where
  "put_content n data buf = (if n + length data \<le> length buf then Some (take n buf @ data @ drop (n + length data) buf) else None)"

definition content_step :: "srv_env \<Rightarrow> srv_config \<Rightarrow> nat \<Rightarrow> srv \<Rightarrow> outcome option" where
  "content_step env config c w = do {
     let st = sess w c;
     bs \<leftarrow> input_data st;
     let n = min (length bs) (content_length st - content_done st);
     if n = 0 then Some (stop w 0)
     else do {
       buf \<leftarrow> content st;
       buf \<leftarrow> put_content (content_done st) (take n bs) buf;
       let st = (set_input_data (drop n bs) st)\<lparr>content := Some buf, content_done := content_done st + n, nt_received := nt_received st + n\<rparr>;
       if content_done st \<noteq> content_length st then Some (Go (set_sess c st w))
       else do {
         buf \<leftarrow> buf_set buf (content_length st) 0;
         let w = set_sess c (st\<lparr>content := Some buf\<rparr>) w;
         meth \<leftarrow> buf_get (http_args st) 0;
         path \<leftarrow> buf_get (http_args st) 1;
         (err, hs, w) \<leftarrow> (if is_adm_path path then adm_request env config c meth path w else Some (0, [], w));
         let w = set_sess c ((sess w c)\<lparr>nt_state := NTRIP_WAIT_HTTP_METHOD\<rparr>) w;
         Some (if err \<noteq> 0 then Stop w err hs False else Go w)
       }
     }
   }"

text \<open>The stream of a source; the packets are those that \<open>rtcm_packet_handle\<close> delivers.\<close>

definition stream_step :: "srv_env \<Rightarrow> nat \<Rightarrow> srv \<Rightarrow> outcome option" where
  "stream_step env c w = do {
     let st = sess w c;
     if chunk_state st = CHUNK_END then Some (stop (set_sess c (st\<lparr>nt_state := NTRIP_FORCE_CLOSE\<rparr>) w) 1)
     else do {
       bs \<leftarrow> input_data st;
       (rc, _) \<leftarrow> rtcm_packet_handle (se_mem env) (se_useful env) (fst (se_now env))
          ((sv_rtcm w c)\<lparr>conn_input := bs, received_bytes := nt_received st\<rparr>);
       let st = (set_input_data (conn_input rc) st)\<lparr>nt_received := received_bytes rc\<rparr>;
       Some (stop ((set_sess c st w)\<lparr>sv_rtcm := (sv_rtcm w)(c := rc)\<rparr>) 0)
     }
   }"

subsection \<open>The read callback\<close>

definition readcb_step :: "srv_env \<Rightarrow> srv_config \<Rightarrow> nat \<Rightarrow> srv \<Rightarrow> outcome option" where
  "readcb_step env config c w =
     (case nt_state (sess w c) of
        NTRIP_WAIT_HTTP_METHOD \<Rightarrow> method_step config c w
      | NTRIP_WAIT_HTTP_HEADER \<Rightarrow> header_step env config c w
      | NTRIP_WAIT_CLIENT_INPUT \<Rightarrow> client_input_step env c w
      | NTRIP_WAIT_CLIENT_CONTENT \<Rightarrow> content_step env config c w
      | NTRIP_WAIT_STREAM_SOURCE \<Rightarrow> stream_step env c w
      | NTRIP_FORCE_CLOSE \<Rightarrow> Some (stop w 1)
      | _ \<Rightarrow> Some (stop (set_sess c ((sess w c)\<lparr>nt_state := NTRIP_FORCE_CLOSE\<rparr>) w) 1))"

text \<open>The loop: its state when it is left, the error, the headers and the flag.\<close>

partial_function (option) readcb_loop ::
  "srv_env \<Rightarrow> srv_config \<Rightarrow> nat \<Rightarrow> srv \<Rightarrow> (srv \<times> int \<times> headers \<times> bool) option" where
  "readcb_loop env config c w =
     (if nt_state (sess w c) = NTRIP_WAIT_CLOSE then Some (w, 0, [], False)
      else do {
        bs \<leftarrow> input_data (sess w c);
        if bs = [] then Some (w, 0, [], False)
        else do {
          r \<leftarrow> readcb_step env config c w;
          case r of Stop w err hs p \<Rightarrow> Some (w, err, hs, p) | Go w \<Rightarrow> readcb_loop env config c w
        }
      })"

definition error_reply :: "srv_env \<Rightarrow> int \<Rightarrow> headers \<Rightarrow> bool \<Rightarrow> ntrip_state \<Rightarrow> ntrip_state option" where
  "error_reply env err hs method_post_source st =
     (if err = 401 \<and> client_version st = 1 \<and> method_post_source then do {
        (ev, _) \<leftarrow> add_reference (''ERROR - Bad Password'' @ crlf) 22 (nt_output st, 0);
        Some (st\<lparr>nt_output := ev\<rparr>)
      }
      else if (err = 404 \<or> err = 409) \<and> client_version st = 1 \<and> method_post_source then do {
        (ev, _) \<leftarrow> add_reference (''ERROR - Mount Point Taken or Invalid'' @ crlf) 38 (nt_output st, 0);
        Some (st\<lparr>nt_output := ev\<rparr>)
      }
      else if err \<ge> 100 then send_server_reply (se_date env) st (nat err) (Some hs) None None
      else Some st)"

definition readcb_end :: "srv_env \<Rightarrow> nat \<Rightarrow> srv \<times> int \<times> headers \<times> bool \<Rightarrow> srv option" where
  "readcb_end env c = (\<lambda>(w, err, hs, p). do {
     w \<leftarrow> (if err \<noteq> 0 then do {
             st \<leftarrow> error_reply env err hs p (sess w c);
             Some (set_sess c (st\<lparr>nt_state := NTRIP_WAIT_CLOSE\<rparr>) w)
           }
           else Some w);
     if nt_state (sess w c) = NTRIP_FORCE_CLOSE then srv_decref_end w c else Some w
   })"

definition ntripsrv_readcb :: "srv_env \<Rightarrow> srv_config \<Rightarrow> nat \<Rightarrow> srv \<Rightarrow> srv option" where
  "ntripsrv_readcb env config c w = do {
     (r, ended, st) \<leftarrow> ntrip_filter_run_input (sess w c);
     let w = set_sess c st w;
     if r < 0 then (if ended then srv_decref_end w c else Some w)
     else do {
       bs \<leftarrow> input_data st;
       r \<leftarrow> (if chunk_state st = CHUNK_END \<and> bs = []
             then Some (set_sess c (st\<lparr>nt_state := NTRIP_FORCE_CLOSE\<rparr>) w, 1, [], False)
             else readcb_loop env config c w);
       readcb_end env c r
     }
   }"

subsection \<open>The other callbacks\<close>

definition ntripsrv_writecb :: "nat \<Rightarrow> srv \<Rightarrow> srv option" where
  "ntripsrv_writecb c w =
     (if nt_state (sess w c) = NTRIP_WAIT_CLOSE \<and> nt_output (sess w c) = [] then srv_decref_end w c else Some w)"

text \<open>The events of a connection, with the time since data was last sent to the client.\<close>

datatype conn_event = Connected | Eof_or_error | Read_timeout int | Write_timeout

definition ntripsrv_eventcb :: "srv_env \<Rightarrow> srv_config \<Rightarrow> nat \<Rightarrow> conn_event \<Rightarrow> srv \<Rightarrow> srv option" where
  "ntripsrv_eventcb env config c ev w =
     (if ev = Connected then Some w
      else if (case ev of Read_timeout idle \<Rightarrow> nt_state (sess w c) = NTRIP_WAIT_CLIENT_INPUT \<and> idle \<le> idle_max_delay config | _ \<Rightarrow> False)
      then Some w
      else do {
        w \<leftarrow> (case sv_syncer w c of
                None \<Rightarrow> Some w
              | Some host \<Rightarrow> do {
                  s \<leftarrow> livesources_remote_replace (se_now env)
                     \<lparr>sy_remote = lt_remote (sv_live w), sy_nodes = sv_nodes w, req_node = None, syncer_id = sv_syncer w c\<rparr> host None;
                  Some (w\<lparr>sv_live := (sv_live w)\<lparr>lt_remote := sy_remote s\<rparr>, sv_nodes := sy_nodes s, sv_syncer := (sv_syncer w)(c := None)\<rparr>)
                });
        srv_decref_end w c
      })"

text \<open>
  A new connection: the session \<open>c\<close> was allocated in memory \<open>junk\<close>; an address over its quota ends it
  at once. \<open>incref\<close> and \<open>decref\<close> protect it meanwhile.
\<close>

definition ntripsrv_listener_cb :: "srv_env \<Rightarrow> srv_config \<Rightarrow> ntrip_state \<Rightarrow> sock \<Rightarrow> sock \<Rightarrow> nat \<Rightarrow> srv \<Rightarrow> srv option" where
  "ntripsrv_listener_cb env config junk zero_addr sa c w = do {
     let st = ntrip_new junk zero_addr (max_nearest_lookup_distance_m config);
     let st = st\<lparr>connection_keepalive := True, peeraddr := sa,
                 remote_addr := (case ip_str (se_ntop env) sa of Some s \<Rightarrow> s | None \<Rightarrow> []),
                 nt_state := NTRIP_WAIT_HTTP_METHOD\<rparr>;
     cs \<leftarrow> ntrip_incref (set_conn c st (sv_conns w)) c;
     (r, cs) \<leftarrow> ntrip_register_check (cfg_blocklist config) cs c;
     cs \<leftarrow> ntrip_decref cs c;
     let w = w\<lparr>sv_conns := cs\<rparr>;
     if r < 0 then srv_decref_end w c else Some w
   }"

subsection \<open>The nearest base\<close>

definition ntrip_get_rtcm_pos :: "srv \<Rightarrow> cstring \<Rightarrow> packet option" where
  "ntrip_get_rtcm_pos w mountpoint = Option.bind (hash_table_get (sv_cache w) mountpoint) rtcm_info_pos_packet"

text \<open>The distance within which bases are looked up next time; \<^const>\<open>None\<close> is a read past the list of distances.\<close>

definition next_lookup_dist :: "srv_config \<Rightarrow> spos list \<Rightarrow> real \<Rightarrow> real option" where
  "next_lookup_dist config bases d =
     (let target = nearest_base_count_target config in
      if target > 0 then
        (if int (length bases) < target
         then Some (min (2 * d) (max_nearest_lookup_distance_m config))
         else do { s \<leftarrow> buf_get bases (nat target - 1); Some (sp_dist s + 1000) })
      else Some d)"

text \<open>The switch to a base: the position that is known is sent at once, the job changes the subscription.\<close>

definition switch_to_base :: "nat \<Rightarrow> spos \<Rightarrow> srv \<Rightarrow> srv option" where
  "switch_to_base c s w = do {
     (lv, j, e, tbl) \<leftarrow> livesource_find_on_demand (sv_live w) True (sp_mountpoint s) True (sp_on_demand s \<noteq> 0);
     let w = w\<lparr>sv_live := tbl\<rparr>;
     let w = (case e of Some e \<Rightarrow> add_job (Job_fetch (sp_mountpoint s) e) w | None \<Rightarrow> w);
     let w = add_message j w;
     case lv of
       None \<Rightarrow> Some w
     | Some l \<Rightarrow>
         if ls_state l = LIVESOURCE_RUNNING \<or> (sp_on_demand s \<noteq> 0 \<and> ls_state l = LIVESOURCE_FETCH_PENDING) then
           (let p = ntrip_get_rtcm_pos w (sp_mountpoint s);
                st = (sess w c)\<lparr>nt_rtcm_state := (if p \<noteq> None then NTRIP_RTCM_POS_OK else NTRIP_RTCM_POS_WAIT), tmp_pos := sp_pos s\<rparr>;
                w = set_sess c st w;
                w = (case p of Some p \<Rightarrow> w\<lparr>sv_sent := sv_sent w @ [(c, p)]\<rparr> | None \<Rightarrow> w)
            in Some (add_job (Job_switch_source c (ls_mountpoint l)) w))
         else Some w
   }"

definition ntripsrv_redo_virtual_pos :: "srv_env \<Rightarrow> srv_config \<Rightarrow> nat \<Rightarrow> srv \<Rightarrow> srv option" where
  "ntripsrv_redo_virtual_pos env config c w =
     (let st = sess w c in
      case last_pos st of
        None \<Rightarrow> Some w
      | Some pos \<Rightarrow>
          if source_virtual st = 0 then Some w
          else
            (case stack_flatten_dist (live_test_of w) (sv_stack w) (Some pos) (lookup_dist st) of
               None \<Rightarrow> Some w
             | Some t \<Rightarrow> do {
                 s \<leftarrow> sourcetable_find_pos t pos;
                 d \<leftarrow> next_lookup_dist config (dist_array s) (lookup_dist st);
                 let st = st\<lparr>lookup_dist := d\<rparr>;
                 case dist_array s of
                   [] \<Rightarrow> Some (set_sess c st w)
                 | b # _ \<Rightarrow> do {
                     let st = st\<lparr>last_recompute_pos := pos, last_recompute_date := se_now env,
                                 max_min_dist := (if sp_dist b > max_min_dist st then sp_dist b else max_min_dist st)\<rparr>;
                     let w = set_sess c st w;
                     let live = (case virtual_mountpoint st of Some m \<Rightarrow> livesource_exists (sv_live w) m | None \<Rightarrow> False);
                     if \<not> live \<or> Some (sp_mountpoint b) \<noteq> virtual_mountpoint st then
                       (let current_dist = (if virtual_mountpoint st \<noteq> None then distance (mountpoint_pos st) pos - hysteresis_m config else 10 ^ 10)
                        in if live \<and> current_dist < sp_dist b then Some w else switch_to_base c b w)
                     else Some w
                   }
               }))"

definition ntripsrv_redo_virtual_pos_limited :: "srv_env \<Rightarrow> srv_config \<Rightarrow> nat \<Rightarrow> srv \<Rightarrow> srv option" where
  "ntripsrv_redo_virtual_pos_limited env config c w =
     (let st = sess w c in
      case last_pos st of
        None \<Rightarrow> Some w
      | Some pos \<Rightarrow>
          if source_virtual st = 0 then Some w
          else
            let (s0, u0) = se_now env; (s1, u1) = last_recompute_date st;
                elapsed = (if u0 - u1 < 0 then s0 - s1 - 1 else s0 - s1)
            in if elapsed < min_nearest_recompute_interval config then Some w
               else if s1 \<noteq> 0 \<and> elapsed < max_nearest_recompute_interval config
                 \<and> distance pos (last_recompute_pos st) < min_nearest_recompute_pos_delta config then Some w
               else ntripsrv_redo_virtual_pos env config c w)"

end
