(* ===== verification/Ntripsrv_Safety.thy ===== *)
theory Ntripsrv_Safety
  imports Ntripsrv
begin

text \<open>
  Properties of the server (\<open>Ntripsrv\<close>): what every branch of the registration of a source does, who
  may send and receive streams, and that the loop of the read callback ends.
\<close>

subsection \<open>What an operation leaves alone\<close>

lemma sess_set_sess [simp]: "sess (set_sess c st w) d = (if d = c then st else sess w d)"
  by (simp add: set_sess_def set_conn_def)

lemma set_sess_set_sess [simp]: "set_sess c a (set_sess c b w) = set_sess c a w"
  by (simp add: set_sess_def set_conn_def)

lemma set_sess_fields [simp]:
  "sv_live (set_sess c st w) = sv_live w" "sv_stack (set_sess c st w) = sv_stack w" "sv_jobs (set_sess c st w) = sv_jobs w"
  "sv_messages (set_sess c st w) = sv_messages w" "sv_nodes (set_sess c st w) = sv_nodes w" "sv_syncer (set_sess c st w) = sv_syncer w"
  "sv_rtcm (set_sess c st w) = sv_rtcm w"
  by (simp_all add: set_sess_def)

lemma add_job_fields [simp]:
  "sv_conns (add_job j w) = sv_conns w" "sv_live (add_job j w) = sv_live w" "sv_stack (add_job j w) = sv_stack w"
  "sv_jobs (add_job j w) = sv_jobs w @ [j]" "sv_messages (add_job j w) = sv_messages w"
  by (simp_all add: add_job_def)

lemma add_message_fields [simp]:
  "sv_conns (add_message m w) = sv_conns w" "sv_live (add_message m w) = sv_live w" "sv_jobs (add_message m w) = sv_jobs w"
  "sv_stack (add_message m w) = sv_stack w"
  by (simp_all add: add_message_def split: option.split)

text \<open>
  A quiet change of a session: its output, its type, its role and version change, and its state
  may become one of two that give access to nothing.
\<close>

definition erase :: "ntrip_state \<Rightarrow> ntrip_state" where
  "erase st = st\<lparr>nt_output := [], nt_sent := 0, nt_admin_role := ADMIN_ROLE_NONE, client_version := 0, nt_type := [], nt_state := NTRIP_INIT\<rparr>"

definition quiet :: "ntrip_state \<Rightarrow> ntrip_state \<Rightarrow> bool" where
  "quiet st st' \<longleftrightarrow> erase st' = erase st \<and> nt_state st' \<in> {nt_state st, NTRIP_WAIT_CLOSE, NTRIP_WAIT_HTTP_METHOD}"

lemma quiet_refl [simp]: "quiet st st"
  by (simp add: quiet_def)

lemma quiet_trans: "quiet st st' \<Longrightarrow> quiet st' st'' \<Longrightarrow> quiet st st''"
  unfolding quiet_def by auto

lemma quiet_updates [simp]:
  "quiet st (st'\<lparr>nt_output := out\<rparr>) = quiet st st'" "quiet st (st'\<lparr>nt_sent := n\<rparr>) = quiet st st'"
  "quiet st (st'\<lparr>nt_admin_role := role\<rparr>) = quiet st st'" "quiet st (st'\<lparr>client_version := v\<rparr>) = quiet st st'"
  "quiet st (st'\<lparr>nt_type := t\<rparr>) = quiet st st'"
  "quiet st st' \<Longrightarrow> quiet st (st'\<lparr>nt_state := NTRIP_WAIT_CLOSE\<rparr>)" "quiet st st' \<Longrightarrow> quiet st (st'\<lparr>nt_state := NTRIP_WAIT_HTTP_METHOD\<rparr>)"
  "quiet (st\<lparr>client_version := v\<rparr>) st' = quiet st st'" "quiet (st\<lparr>nt_type := t\<rparr>) st' = quiet st st'"
  "quiet (st\<lparr>nt_admin_role := role\<rparr>) st' = quiet st st'"
  by (simp_all add: quiet_def erase_def)

lemma quiet_keeps:
  assumes "quiet st st'"
  shows "raw_input st' = raw_input st" "nt_input st' = nt_input st" "chunk_buf st' = chunk_buf st" "http_args st' = http_args st"
    "nt_user st' = nt_user st" "nt_password st' = nt_password st" "remote_addr st' = remote_addr st"
    "nt_mountpoint st' = nt_mountpoint st" "own_livesource st' = own_livesource st" "wildcard st' = wildcard st"
    "input_data st' = input_data st"
    "nt_state st' \<in> {nt_state st, NTRIP_WAIT_CLOSE, NTRIP_WAIT_HTTP_METHOD}"
proof -
  have e: "erase st' = erase st" using assms by (simp add: quiet_def)
  have k: "f (erase x) = f x \<Longrightarrow> f (erase y) = f y \<Longrightarrow> erase x = erase y \<Longrightarrow> f x = f y" for f :: "ntrip_state \<Rightarrow> 'b" and x y by simp
  show r: "raw_input st' = raw_input st" "nt_input st' = nt_input st" "chunk_buf st' = chunk_buf st" and "http_args st' = http_args st"
    "nt_user st' = nt_user st" "nt_password st' = nt_password st" "remote_addr st' = remote_addr st"
    "nt_mountpoint st' = nt_mountpoint st" "own_livesource st' = own_livesource st" "wildcard st' = wildcard st"
    by (rule k[OF _ _ e]; simp add: erase_def)+
  show "input_data st' = input_data st" unfolding input_data_def r ..
  show "nt_state st' \<in> {nt_state st, NTRIP_WAIT_CLOSE, NTRIP_WAIT_HTTP_METHOD}" using assms by (simp add: quiet_def)
qed

lemma send_server_reply_quiet: "send_server_reply date st code hs fw m = Some st' \<Longrightarrow> quiet st st'"
  unfolding send_server_reply_def by (auto simp: Let_def bind_eq_Some_conv)

lemma send_result_ok_quiet: "send_result_ok date st type m hs = Some st' \<Longrightarrow> quiet st st'"
  unfolding send_result_ok_def by (auto simp: Let_def bind_eq_Some_conv send_server_reply_quiet split: if_splits)

lemma send_sourcetable_quiet: "ntripsrv_send_sourcetable date live stack st = Some (err, st') \<Longrightarrow> quiet st st'"
  unfolding ntripsrv_send_sourcetable_def
  by (auto simp: Let_def bind_eq_Some_conv send_server_reply_quiet split: option.splits)

lemma deferred_output_quiet: "ntripsrv_deferred_output date st code m = Some st' \<Longrightarrow> quiet st st'"
  unfolding ntripsrv_deferred_output_def
  by (auto simp: bind_eq_Some_conv dest!: send_server_reply_quiet split: if_splits)

lemmas reply_quiet = send_server_reply_quiet send_result_ok_quiet send_sourcetable_quiet deferred_output_quiet

lemma ui_serve_quiet: "ui_serve config fs date st uri = Some (h, err, st') \<Longrightarrow> quiet st st'"
  unfolding ui_serve_def ntripsrv_send_result_ok_def
  by (auto simp: Let_def bind_eq_Some_conv split: if_splits option.splits file_at.splits dest!: send_result_ok_quiet)

lemma mime_file_read_case: "(case mime_file_read f of None \<Rightarrow> a | Some m \<Rightarrow> g m) = (case f of Regular s \<Rightarrow> g (mime_new s (int (length s)) None) | _ \<Rightarrow> a)"
  by (simp add: mime_file_read_def split: file_at.split)

lemma filesrv_quiet:
  assumes "filesrv config fs date st uri = Some (r, err, st')"
  shows "quiet st st'"
proof (cases "find_webroot (webroots config) uri")
  case (Some wr)
  show ?thesis
  proof (cases "check_safe_uri uri")
    case True
    with assms Some obtain path where p: "path_join (config_dir config) [wr_path wr, uri] = Some path"
      by (auto simp: filesrv_def Let_def bind_eq_Some_conv)
    show ?thesis using assms Some True p
      unfolding filesrv_def ntripsrv_send_result_ok_def mime_file_read_case
      by (cases "fs path") (auto simp: Let_def bind_eq_Some_conv split: file_at.splits dest!: send_result_ok_quiet)
  qed (use assms Some in \<open>simp add: filesrv_def\<close>)
qed (use assms in \<open>simp add: filesrv_def\<close>)

lemma adm_call_quiet: "quiet st (ao_st (adm_call config st meth uri req h))"
  by (auto simp: adm_call_def Let_def split: prod.split option.split bool.split)

lemma adm_json_quiet: "quiet st (ao_st (adm_json parse config st meth uri req))"
  by (auto simp: adm_json_def split: option.split)

lemma adm_legacy_quiet: "adm_legacy config stats date st ruri uri req = Some out \<Longrightarrow> quiet st (ao_st out)"
  unfolding adm_legacy_def ntripsrv_send_result_ok_def
  by (auto simp: Let_def bind_eq_Some_conv split: if_splits option.splits dest!: send_result_ok_quiet)

lemma admsrv_quiet:
  assumes "admsrv parse config fs stats date st meth ruri uri = Some out"
  shows "quiet st (ao_st out)"
proof -
  from assms obtain h err st1 where u: "(if meth = ''GET'' then ui_serve config fs date st uri else Some (False, 0, st)) = Some (h, err, st1)"
    by (auto simp: admsrv_def bind_eq_Some_conv)
  then have q: "quiet st st1" using ui_serve_quiet by (fastforce split: if_splits)
  let ?st = "st1\<lparr>client_version := 0\<rparr>"
  have "ao_st out = st1 \<or> ao_st out = ?st \<or> (\<exists>h. out = adm_call config ?st meth uri request_new h) \<or>
      out = adm_json parse config ?st meth uri request_new \<or> adm_legacy config stats date ?st ruri uri request_new = Some out"
    using assms u by (auto simp: admsrv_def Let_def split: sum.splits prod.splits option.splits bool.splits if_splits)
  moreover have "quiet ?st (ao_st (adm_call config ?st meth uri request_new h))" for h by (rule adm_call_quiet)
  moreover have "quiet ?st (ao_st (adm_json parse config ?st meth uri request_new))" by (rule adm_json_quiet)
  moreover have "adm_legacy config stats date ?st ruri uri request_new = Some out \<Longrightarrow> quiet ?st (ao_st out)" by (rule adm_legacy_quiet)
  moreover have "quiet st1 ?st" by simp
  ultimately have "quiet st1 (ao_st out)" by (elim disjE exE) (auto intro: quiet_trans)
  with q show ?thesis by (rule quiet_trans)
qed

lemma perform_action_quiet:
  assumes "perform_action env c a w = Some w'"
  shows "quiet (sess w c) (sess w' c)"
  using assms unfolding perform_action_def
  by (auto simp: bind_eq_Some_conv Let_def split: adm_action.splits dest: deferred_output_quiet)

lemma adm_request_quiet: "adm_request env config c meth path w = Some (err, hs, w') \<Longrightarrow> quiet (sess w c) (sess w' c)"
  unfolding adm_request_def
  by (auto simp: bind_eq_Some_conv Let_def dest!: perform_action_quiet admsrv_quiet intro: quiet_trans)

subsection \<open>Who a session is, and what it has to read\<close>

text \<open>What authorisation depends on, and the number of bytes that are still buffered.\<close>

definition who :: "ntrip_state \<Rightarrow> cstring option \<times> cstring option \<times> cstring \<times> cstring option \<times> cstring option \<times> bool \<times> cstring list" where
  "who st = (nt_user st, nt_password st, remote_addr st, nt_mountpoint st, own_livesource st, wildcard st, http_args st)"

definition buffered :: "ntrip_state \<Rightarrow> nat" where
  "buffered st = length (raw_input st) + (case chunk_buf st of None \<Rightarrow> 0 | Some d \<Rightarrow> length d)"

lemma quiet_who: "quiet st st' \<Longrightarrow> who st' = who st"
  using quiet_keeps[of st st'] by (simp add: who_def)

lemma quiet_buffered: "quiet st st' \<Longrightarrow> buffered st' = buffered st"
  using quiet_keeps(1,3)[of st st'] by (simp add: buffered_def)

lemma chunk_step_frame:
  assumes "chunk_step n st = Some (r, st')"
  shows "who st' = who st \<and> buffered st' \<le> buffered st \<and> nt_state st' \<in> {nt_state st, NTRIP_FORCE_CLOSE}"
proof (cases "raw_input st = []")
  case True
  with assms show ?thesis by (simp add: chunk_step_def)
next
  case False
  then have pos: "raw_input st \<noteq> []" by simp
  show ?thesis
  proof (cases "chunk_state st")
    case CHUNK_WAIT_LEN
    show ?thesis
    proof (cases "readln_strict (raw_input st)")
      case (Some p)
      obtain l rest where p: "p = (l, rest)" by (cases p)
      have "length rest \<le> length (raw_input st)" using readln_strict_length Some p by fastforce
      with CHUNK_WAIT_LEN pos assms Some p show ?thesis
        by (auto simp: chunk_step_def Let_def who_def buffered_def split: option.splits if_splits)
    qed (use CHUNK_WAIT_LEN pos assms in \<open>simp add: chunk_step_def\<close>)
  next
    case CHUNK_IN_PROGRESS
    then obtain d where d: "chunk_buf st = Some d" using assms pos by (auto simp: chunk_step_def bind_eq_Some_conv Let_def)
    with CHUNK_IN_PROGRESS pos assms show ?thesis
      by (cases "chunk_len st \<le> length (raw_input st)") (auto simp: chunk_step_def Let_def who_def buffered_def)
  qed (use assms pos in \<open>auto simp: chunk_step_def Let_def who_def buffered_def split: if_splits\<close>)
qed

lemma chunk_decode_frame:
  assumes "chunk_loop n st = Some (r, st')"
  shows "who st' = who st \<and> buffered st' \<le> buffered st \<and> nt_state st' \<in> {nt_state st, NTRIP_FORCE_CLOSE}"
proof -
  have "who (snd y) = who x \<and> buffered (snd y) \<le> buffered x \<and> nt_state (snd y) \<in> {nt_state x, NTRIP_FORCE_CLOSE}" if "chunk_loop m x = Some y" for m x y
    using that
  proof (rule chunk_loop.raw_induct[rotated])
    fix f m x y
    assume f: "\<And>m x y. f m x = Some y \<Longrightarrow> who (snd y) = who x \<and> buffered (snd y) \<le> buffered x \<and> nt_state (snd y) \<in> {nt_state x, NTRIP_FORCE_CLOSE}"
      and e: "Option.bind (chunk_step m x) (\<lambda>(r, st). case r of Inl res \<Rightarrow> Some (res, st) | Inr n \<Rightarrow> f n st) = Some y"
    from e obtain q x' where s: "chunk_step m x = Some (q, x')" by (auto simp: bind_eq_Some_conv)
    note fr = chunk_step_frame[OF s]
    show "who (snd y) = who x \<and> buffered (snd y) \<le> buffered x \<and> nt_state (snd y) \<in> {nt_state x, NTRIP_FORCE_CLOSE}"
    proof (cases q)
      case (Inl res)
      with e s fr show ?thesis by auto
    next
      case (Inr k)
      with e s have "f k x' = Some y" by simp
      with f[OF this] fr show ?thesis by auto
    qed
  qed
  from this[OF assms] show ?thesis by simp
qed

lemma filter_frame:
  assumes "ntrip_filter_run_input st = Some (r, ended, st')"
  shows "who st' = who st \<and> buffered st' \<le> buffered st \<and> nt_state st' \<in> {nt_state st, NTRIP_FORCE_CLOSE}"
  using assms chunk_decode_frame[of 0 st]
  by (auto simp: ntrip_filter_run_input_def ntrip_chunk_decode_def bind_eq_Some_conv split: if_splits)

lemma decode_init_frame:
  assumes "ntrip_chunk_decode_init st = Some st'"
  shows "who st' = who st \<and> buffered st' \<le> buffered st \<and> nt_state st' \<in> {nt_state st, NTRIP_FORCE_CLOSE}"
proof -
  let ?st = "(if chunk_buf st = None then st\<lparr>chunk_buf := Some []\<rparr> else st)\<lparr>in_filter := True, chunk_state := CHUNK_WAIT_LEN, nt_input := Chunk_buf\<rparr>"
  have "who ?st = who st" "buffered ?st = buffered st" "nt_state ?st = nt_state st" by (auto simp: who_def buffered_def)
  then show ?thesis using assms chunk_decode_frame[of 0 ?st]
    by (auto simp: ntrip_chunk_decode_init_def ntrip_chunk_decode_def Let_def simp del: split_paired_Ex split: if_splits)
qed

text \<open>Lines that are read leave fewer bytes.\<close>

lemma readln_shorter: "readln bs = Some (l, r) \<Longrightarrow> length r < length bs"
  using length_dropWhile_le[of "\<lambda>b. b \<noteq> 0x0a" bs] by (auto simp: readln_def Let_def split: list.splits)

lemma set_input_data_frame:
  "who (set_input_data r st) = who st" "nt_state (set_input_data r st) = nt_state st"
  "input_data st = Some bs \<Longrightarrow> length r < length bs \<Longrightarrow> buffered (set_input_data r st) < buffered st"
  by (auto simp: set_input_data_def input_data_def who_def buffered_def split: input_ref.splits)

lemma who_updates [simp]:
  "who (st\<lparr>nt_received := n\<rparr>) = who st" "who (st\<lparr>nt_state := s\<rparr>) = who st" "who (st\<lparr>content := cn\<rparr>) = who st"
  "who (st\<lparr>content_done := k\<rparr>) = who st" "who (st\<lparr>last_pos := lp\<rparr>) = who st" "who (st\<lparr>last_gga := lg\<rparr>) = who st"
  "who (st\<lparr>last_gga_date := ld\<rparr>) = who st" "who (st\<lparr>nt_rtcm_state := rs\<rparr>) = who st"
  by (simp_all add: who_def)

lemma buffered_updates [simp]:
  "buffered (st\<lparr>nt_received := n\<rparr>) = buffered st" "buffered (st\<lparr>nt_state := s\<rparr>) = buffered st"
  "buffered (st\<lparr>content := cn\<rparr>) = buffered st" "buffered (st\<lparr>content_done := k\<rparr>) = buffered st"
  "buffered (st\<lparr>last_pos := lp\<rparr>) = buffered st" "buffered (st\<lparr>last_gga := lg\<rparr>) = buffered st"
  "buffered (st\<lparr>last_gga_date := ld\<rparr>) = buffered st" "buffered (st\<lparr>nt_rtcm_state := rs\<rparr>) = buffered st"
  "buffered (st\<lparr>http_args := ha\<rparr>) = buffered st" "buffered (st\<lparr>n_http_args := i\<rparr>) = buffered st"
  "buffered (st\<lparr>received_keepalive := rk\<rparr>) = buffered st" "buffered (st\<lparr>connection_keepalive := ck\<rparr>) = buffered st"
  "buffered (st\<lparr>nt_mountpoint := m\<rparr>) = buffered st" "buffered (st\<lparr>query_string := q\<rparr>) = buffered st"
  "buffered (st\<lparr>client_version := v\<rparr>) = buffered st" "buffered (st\<lparr>nt_type := t\<rparr>) = buffered st"
  "buffered (st\<lparr>chunk_state := cs\<rparr>) = buffered st" "buffered (st\<lparr>content_length := cl\<rparr>) = buffered st"
  "buffered (st\<lparr>content_type := ct\<rparr>) = buffered st" "buffered (st\<lparr>user_agent := ua\<rparr>) = buffered st"
  "buffered (st\<lparr>user_agent_ntrip := un\<rparr>) = buffered st" "buffered (st\<lparr>scheme_basic := sb\<rparr>) = buffered st"
  "buffered (st\<lparr>nt_user := us\<rparr>) = buffered st" "buffered (st\<lparr>nt_password := pw\<rparr>) = buffered st"
  "buffered (st\<lparr>source_virtual := sv\<rparr>) = buffered st" "buffered (st\<lparr>source_on_demand := so\<rparr>) = buffered st"
  "buffered (st\<lparr>nt_use_filter := uf\<rparr>) = buffered st" "buffered (st\<lparr>wildcard := wc\<rparr>) = buffered st"
  "buffered (st\<lparr>own_livesource := ol\<rparr>) = buffered st" "buffered (st\<lparr>nt_output := out\<rparr>) = buffered st"
  "buffered (st\<lparr>peeraddr := pa\<rparr>) = buffered st" "buffered (st\<lparr>remote_addr := ra\<rparr>) = buffered st" "buffered (st\<lparr>counted := cd\<rparr>) = buffered st"
  by (simp_all add: buffered_def)

lemma read_line_frame:
  assumes "read_line config st = Some r"
  shows "case r of Line l st' \<Rightarrow> who st' = who st \<and> nt_state st' = nt_state st \<and> buffered st' < buffered st
    | No_line st' \<Rightarrow> st' = st | Too_long st' \<Rightarrow> who st' = who st \<and> nt_state st' = nt_state st"
  using assms
  by (auto simp: read_line_def bind_eq_Some_conv Let_def set_input_data_frame readln_shorter split: option.splits)

lemma record_gga_frame: "record_gga now g st = Some st' \<Longrightarrow> who st' = who st \<and> nt_state st' = nt_state st \<and> buffered st' = buffered st"
  by (auto simp: record_gga_def ntrip_push_pos_history_def bind_eq_Some_conv Let_def who_def buffered_def)

subsection \<open>Authorised sessions\<close>

text \<open>
  The credentials that a session presented: those of its authorization header, or the password of the
  request line of the first version of the protocol, which has no user.
\<close>

definition presented :: "ntrip_state \<Rightarrow> cstring option \<Rightarrow> cstring \<Rightarrow> bool" where
  "presented st user password \<longleftrightarrow>
     user \<noteq> None \<and> nt_user st = user \<and> nt_password st = Some password \<or>
     user = None \<and> buf_get (http_args st) 1 = Some password"

definition authorised :: "srv_config \<Rightarrow> ntrip_state \<Rightarrow> bool" where
  "authorised config st \<longleftrightarrow>
     (nt_state st = NTRIP_WAIT_STREAM_SOURCE \<longrightarrow>
        (\<exists>m user password. nt_mountpoint st = Some m \<and> own_livesource st = Some m \<and> presented st user password \<and>
           check_password (cfg_auth (cfg_adm config)) m user password =
             (if wildcard st then CHECKPW_MOUNTPOINT_WILDCARD else CHECKPW_MOUNTPOINT_VALID))) \<and>
     (nt_state st = NTRIP_WAIT_CLIENT_INPUT \<longrightarrow> rover_allowed config st)"

definition outcome_ok :: "srv_config \<Rightarrow> nat \<Rightarrow> nat \<Rightarrow> outcome \<Rightarrow> bool" where
  "outcome_ok config c n r = (case r of
     Go w \<Rightarrow> authorised config (sess w c) \<and> buffered (sess w c) \<le> n
   | Stop w _ _ _ \<Rightarrow> authorised config (sess w c))"

lemma outcome_ok_simps [simp]:
  "outcome_ok config c n (Go w) \<longleftrightarrow> authorised config (sess w c) \<and> buffered (sess w c) \<le> n"
  "outcome_ok config c n (Stop w e hs p) \<longleftrightarrow> authorised config (sess w c)"
  by (simp_all add: outcome_ok_def)

lemma presented_state [simp]: "presented (st\<lparr>nt_state := s\<rparr>) user password = presented st user password"
  by (simp add: presented_def)

lemma outcome_ok_mono: "outcome_ok config c n r \<Longrightarrow> n \<le> k \<Longrightarrow> outcome_ok config c k r"
  by (cases r) simp_all

lemma authorised_other [simp]:
  "nt_state st \<noteq> NTRIP_WAIT_STREAM_SOURCE \<Longrightarrow> nt_state st \<noteq> NTRIP_WAIT_CLIENT_INPUT \<Longrightarrow> authorised config st"
  by (simp add: authorised_def)

lemma authorised_frame: "who st' = who st \<Longrightarrow> nt_state st' = nt_state st \<Longrightarrow> authorised config st \<Longrightarrow> authorised config st'"
  unfolding authorised_def presented_def rover_allowed_def who_def by fastforce

lemma quiet_other:
  "quiet st st' \<Longrightarrow> nt_state st \<noteq> NTRIP_WAIT_STREAM_SOURCE \<Longrightarrow> nt_state st \<noteq> NTRIP_WAIT_CLIENT_INPUT \<Longrightarrow> authorised config st'"
  using quiet_keeps(12)[of st st'] by auto

lemma method_step_ok:
  assumes "method_step config c w = Some r" "nt_state (sess w c) = NTRIP_WAIT_HTTP_METHOD"
  shows "outcome_ok config c (buffered (sess w c) - 1) r"
proof -
  let ?st = "(ntrip_clear_request (sess w c))\<lparr>nt_mountpoint := None\<rparr>"
  have b: "buffered ?st \<le> buffered (sess w c)" "nt_state ?st = NTRIP_WAIT_HTTP_METHOD"
    using assms(2) by (auto simp: ntrip_clear_request_def buffered_def)
  from assms(1) obtain l where l: "read_line config ?st = Some l" by (auto simp: method_step_def bind_eq_Some_conv)
  have rq: "request_line x st = (e, st') \<Longrightarrow> buffered st' = buffered st \<and> nt_state st' \<in> {nt_state st, NTRIP_WAIT_HTTP_HEADER}" for x e st st'
    by (auto simp: request_line_def Let_def split: if_splits)
  note fr = read_line_frame[OF l]
  show ?thesis
  proof (cases l)
    case (Line bs st1)
    obtain e st2 where s: "request_line (line_text bs) st1 = (e, st2)" by fastforce
    from rq[OF s] fr Line b have "buffered st2 < buffered (sess w c)" "nt_state st2 \<in> {NTRIP_WAIT_HTTP_METHOD, NTRIP_WAIT_HTTP_HEADER}" by auto
    with assms(1) l Line s show ?thesis by (auto simp: method_step_def)
  qed (use assms l fr b in \<open>auto simp: method_step_def\<close>)
qed

lemma header_field_frame:
  "header_field env config key value st = Some (err, st') \<Longrightarrow> nt_state st' = nt_state st \<and> buffered st' = buffered st"
  unfolding header_field_def set_authorization_def set_user_agent_def
  by (auto simp: Let_def bind_eq_Some_conv dest!: record_gga_frame split: if_splits option.splits)

lemma quota_frame:
  "ntrip_quota_incr cs c = (n, cs') \<Longrightarrow> conn cs' c = (conn cs c)\<lparr>counted := True\<rparr>"
  "ntrip_quota_decr cs c = Some cs' \<Longrightarrow> nt_state (conn cs' c) = nt_state (conn cs c) \<and> buffered (conn cs' c) = buffered (conn cs c)"
  by (auto simp: ntrip_quota_incr_def ntrip_quota_decr_def Let_def set_conn_def bind_eq_Some_conv split: prod.splits if_splits)

lemma quota_change_frame:
  assumes "ntrip_quota_change ntop cs c a = Some (n, cs')"
  shows "nt_state (conn cs' c) = nt_state (conn cs c) \<and> buffered (conn cs' c) = buffered (conn cs c)"
proof -
  from assms obtain cs1 x where
    d: "(if counted (conn cs c) then ntrip_quota_decr cs c else Some cs) = Some cs1"
    and i: "ntrip_quota_incr (set_conn c ((conn cs1 c)\<lparr>remote_addr := x\<rparr>) cs1) c = (n, cs')"
    by (auto simp: ntrip_quota_change_def bind_eq_Some_conv Let_def)
  have "nt_state (conn cs1 c) = nt_state (conn cs c) \<and> buffered (conn cs1 c) = buffered (conn cs c)"
    using d quota_frame(2)[of cs c cs1] by (auto split: if_splits)
  then show ?thesis using quota_frame(1)[OF i] by (simp add: set_conn_def)
qed

lemma forwarded_frame:
  assumes "handle_forwarded_header env config value c w = Some (err, w')"
  shows "nt_state (sess w' c) = nt_state (sess w c) \<and> buffered (sess w' c) = buffered (sess w c)"
  using assms unfolding handle_forwarded_header_def
  by (auto simp: bind_eq_Some_conv Let_def split: if_splits option.splits dest: quota_change_frame)

lemma header_line_ok:
  assumes "header_line env config line c w = Some r" "nt_state (sess w c) = NTRIP_WAIT_HTTP_HEADER"
  shows "outcome_ok config c (buffered (sess w c)) r"
  using assms unfolding header_line_def
  by (auto simp: bind_eq_Some_conv split: option.splits if_splits dest!: forwarded_frame header_field_frame)

lemma end_headers_frame:
  assumes "end_headers env st = Some st'"
  shows "buffered st' \<le> buffered st \<and> nt_state st' \<in> {nt_state st, NTRIP_FORCE_CLOSE}"
proof -
  let ?a = "if content_length st \<noteq> 0 then st\<lparr>content := Some (map (se_junk env) [0..<content_length st + 1])\<rparr> else st"
  let ?b = "if client_version ?a = 1 then ?a\<lparr>connection_keepalive := False\<rparr> else ?a"
  have b: "buffered ?b = buffered st" "nt_state ?b = nt_state st" by simp_all
  from assms obtain st2 where s: "(if chunk_state ?b = CHUNK_INIT then ntrip_chunk_decode_init ?b else Some ?b) = Some st2"
    and e: "\<exists>meth path. st' = (if meth = ''SOURCE'' then st2
           else case split_at_first (\<lambda>c. c = CHR ''?'') path of
             (p, Some q) \<Rightarrow> st2\<lparr>query_string := Some q, http_args := (http_args st2)[1 := p]\<rparr>
           | _ \<Rightarrow> st2)"
    unfolding end_headers_def Let_def bind_eq_Some_conv option.inject by blast
  have "(if chunk_state x = CHUNK_INIT then ntrip_chunk_decode_init x else Some x) = Some y \<Longrightarrow>
      buffered y \<le> buffered x \<and> nt_state y \<in> {nt_state x, NTRIP_FORCE_CLOSE}" for x y
    using decode_init_frame[of x y] by (auto split: if_split_asm)
  from this[OF s] have "buffered st2 \<le> buffered st \<and> nt_state st2 \<in> {nt_state st, NTRIP_FORCE_CLOSE}" unfolding b .
  moreover from e have "buffered st' = buffered st2" "nt_state st' = nt_state st2" by (auto split: prod.split option.split)
  ultimately show ?thesis by simp
qed

text \<open>States in which a request is being answered: they give access to nothing.\<close>

definition answering :: "ntrip_state \<Rightarrow> bool" where
  "answering st \<longleftrightarrow> nt_state st \<noteq> NTRIP_WAIT_STREAM_SOURCE \<and> nt_state st \<noteq> NTRIP_WAIT_CLIENT_INPUT"

lemma sourcetable_reply_ok:
  assumes "sourcetable_reply env c w = Some r" "answering (sess w c)"
  shows "outcome_ok config c (buffered (sess w c)) r"
  using assms unfolding sourcetable_reply_def
  by (auto simp: bind_eq_Some_conv Let_def answering_def dest!: send_sourcetable_quiet quiet_buffered split: if_splits)

lemma find_and_subscribe_frame: "find_and_subscribe c m od w = Some (ok, w') \<Longrightarrow> sv_conns w' = sv_conns w"
  unfolding find_and_subscribe_def by (auto simp: bind_eq_Some_conv Let_def split: option.splits)

text \<open>A stream starts with the user, the password and the address that were checked.\<close>

lemma send_stream_quiet: "ntripsrv_send_stream_result_ok date st type hs = Some st' \<Longrightarrow> quiet st st'"
  by (simp add: ntripsrv_send_stream_result_ok_def send_result_ok_quiet)

lemma start_stream_ok:
  assumes "start_stream env c mountpoint sl ok w = Some r" "answering (sess w c)" "rover_allowed config (sess w c)"
  shows "outcome_ok config c (buffered (sess w c)) r"
proof (cases "sl = None \<and> \<not> ok")
  case True
  with assms show ?thesis by (auto simp: start_stream_def answering_def Let_def)
next
  case False
  let ?st0 = "(sess w c)\<lparr>connection_keepalive := False\<rparr>"
  define st where "st = (case sl of Some l \<Rightarrow> ?st0\<lparr>source_virtual := sl_virtual l, source_on_demand := sl_on_demand l\<rparr>
      | None \<Rightarrow> ?st0\<lparr>source_virtual := 0, source_on_demand := 1\<rparr>)\<lparr>nt_type := ''client''\<rparr>"
  have st: "nt_state st = nt_state (sess w c)" "buffered st = buffered (sess w c)" "nt_user st = nt_user (sess w c)"
    "nt_password st = nt_password (sess w c)" "remote_addr st = remote_addr (sess w c)"
    by (auto simp: st_def split: option.split)
  show ?thesis
  proof (cases "source_virtual st = 0 \<and> \<not> ok")
    case True
    note r = assms(1)[unfolded start_stream_def Let_def st_def[symmetric] if_not_P[OF False] if_P[OF True]]
    with st(1) assms(2) show ?thesis by (auto simp: answering_def bind_eq_Some_conv split: if_splits)
  next
    case sub: False
    obtain st1 where s1: "ntripsrv_send_stream_result_ok (se_date env) (st\<lparr>nt_mountpoint := Some mountpoint\<rparr>) (Some ''gnss/data'') None = Some st1"
      using assms(1)[unfolded start_stream_def Let_def st_def[symmetric] if_not_P[OF False] if_not_P[OF sub] bind_eq_Some_conv] by blast
    let ?f = "st1\<lparr>nt_state := NTRIP_WAIT_CLIENT_INPUT, nt_rtcm_state := (if source_virtual st1 \<noteq> 0 then NTRIP_RTCM_POS_WAIT else NTRIP_RTCM_POS_OK)\<rparr>"
    have "r = Go (if last_pos ?f \<noteq> None then add_job (Job_redo_virtual_pos c) (set_sess c ?f w) else set_sess c ?f w)"
      using assms(1)[unfolded start_stream_def Let_def st_def[symmetric] if_not_P[OF False] if_not_P[OF sub] s1 Option.bind_lunit] by blast
    then obtain w' where r: "r = Go w'" "sess w' c = ?f" by simp
    note q = send_stream_quiet[OF s1]
    have "rover_allowed config ?f" using assms(3) quiet_keeps(5-7)[OF q] st by (simp add: rover_allowed_def)
    moreover have "buffered ?f = buffered (sess w c)" using quiet_buffered[OF q] st by simp
    ultimately show ?thesis using r by (simp add: authorised_def)
  qed
qed

lemma get_mountpoint_ok:
  assumes "get_mountpoint env config c mountpoint w = Some r" "answering (sess w c)"
  shows "outcome_ok config c (buffered (sess w c)) r"
proof (cases "mountpoint = [] \<or> \<not> rover_allowed config (sess w c)")
  case True
  with assms(1) sourcetable_reply_ok[OF _ assms(2)] assms(2) show ?thesis by (auto simp: get_mountpoint_def answering_def split: if_splits)
next
  case False
  define w1 where "w1 = (case cfg_rtcm_filter config of
      Some d \<Rightarrow> if rtcm_filter_check_mountpoint d mountpoint then set_sess c ((sess w c)\<lparr>nt_use_filter := True\<rparr>) w else w | None \<Rightarrow> w)"
  have w1: "answering (sess w1 c)" "rover_allowed config (sess w1 c)" "buffered (sess w1 c) = buffered (sess w c)"
    using assms(2) False by (auto simp: w1_def answering_def rover_allowed_def split: option.split)
  from False assms(1) obtain sl ok w2 where
    f: "sv_conns w2 = sv_conns w1" and r: "sourcetable_reply env c w2 = Some r \<or> start_stream env c mountpoint sl ok w2 = Some r"
    unfolding get_mountpoint_def Let_def w1_def[symmetric]
    by (auto simp: bind_eq_Some_conv dest!: find_and_subscribe_frame split: if_splits)
  from r show ?thesis using sourcetable_reply_ok[of env c w2 r config] start_stream_ok[of env c mountpoint sl ok w2 r config] w1 f by auto
qed

lemma get_request_ok:
  assumes "get_request env config c w = Some r" "answering (sess w c)"
  shows "outcome_ok config c (buffered (sess w c)) r"
proof -
  from assms(1) obtain path where p: "buf_get (http_args (sess w c)) 1 = Some path" by (auto simp: get_request_def bind_eq_Some_conv)
  consider "take 1 path \<noteq> ''/''" | "take 1 path = ''/''" "is_adm_path path" | "take 1 path = ''/''" "\<not> is_adm_path path" by blast
  then show ?thesis
  proof cases
    case 1
    with p assms show ?thesis by (auto simp: get_request_def answering_def)
  next
    case 2
    with p assms obtain err hs w' where "adm_request env config c ''GET'' path w = Some (err, hs, w')" "r = Stop w' err hs False"
      by (auto simp: get_request_def bind_eq_Some_conv)
    then show ?thesis using adm_request_quiet quiet_other assms(2) by (fastforce simp: answering_def)
  next
    case 3
    with p assms(1) obtain k err st where f: "(if webroots (cfg_adm config) \<noteq> []
          then filesrv (cfg_adm config) (se_fs env) (se_date env) (sess w c) path else Some (- 1, 0, sess w c)) = Some (k, err, st)"
      and r: "(if k \<ge> 0 \<or> err \<noteq> 0 then Some (stop (set_sess c st w) err) else get_mountpoint env config c (drop 1 path) (set_sess c st w)) = Some r"
      unfolding get_request_def Let_def by (auto simp: bind_eq_Some_conv)
    have q: "quiet (sess w c) st" using f filesrv_quiet by (fastforce split: if_splits)
    have st: "answering st" "buffered st = buffered (sess w c)"
      using quiet_keeps(12)[OF q] quiet_buffered[OF q] assms(2) by (auto simp: answering_def)
    with r show ?thesis using get_mountpoint_ok[of env config c "drop 1 path" "set_sess c st w" r] by (auto simp: answering_def split: if_splits)
  qed
qed

lemma register_source_ok:
  assumes "register_source env config c m user password w = Some r" "answering (sess w c)" "presented (sess w c) user password"
  shows "outcome_ok config c (buffered (sess w c)) r"
proof -
  let ?k = "check_password (cfg_auth (cfg_adm config)) m user password"
  let ?l = "stack_find_local_mountpoint (live_test_of w) (sv_stack w) m"
  show ?thesis
  proof (cases "?k = CHECKPW_MOUNTPOINT_INVALID \<or> (?l \<noteq> None \<and> sl_virtual (the ?l) \<noteq> 0) \<or> (?l = None \<and> ?k \<noteq> CHECKPW_MOUNTPOINT_WILDCARD)")
    case True
    then have "\<exists>e. register_source env config c m user password w = Some (Stop w e [] True)"
      unfolding register_source_def Let_def by (cases ?l) auto
    with assms(1,2) show ?thesis by (auto simp: answering_def)
  next
    case False
    then have g: "?k \<noteq> CHECKPW_MOUNTPOINT_INVALID" "\<not> (?l \<noteq> None \<and> sl_virtual (the ?l) \<noteq> 0)" "\<not> (?l = None \<and> ?k \<noteq> CHECKPW_MOUNTPOINT_WILDCARD)" by blast+
    let ?st = "(sess w c)\<lparr>wildcard := (?k = CHECKPW_MOUNTPOINT_WILDCARD), nt_type := ''source'', nt_mountpoint := Some m\<rparr>"
    note d = assms(1)[unfolded register_source_def Let_def if_not_P[OF g(1)] if_not_P[OF g(2)] if_not_P[OF g(3)]]
    obtain n j tbl where lc: "livesource_connected (sv_live w) (own_livesource ?st = None \<and> nt_subscription ?st = None) m = Some (n, j, tbl)"
      using d by (auto simp: bind_eq_Some_conv)
    note d = d[unfolded lc Option.bind_lunit prod.case]
    show ?thesis
    proof (cases "n = 0 \<or> n < 0")
      case True
      with d assms(2) show ?thesis by (auto simp: answering_def)
    next
      case False
      let ?st1 = "?st\<lparr>own_livesource := Some m\<rparr>"
      from False d obtain st2 where
        s: "(if client_version ?st1 = 1 then do { (ev, _) \<leftarrow> add_reference (''ICY 200 OK'' @ crlf @ crlf) 14 (nt_output ?st1, 0); Some (?st1\<lparr>nt_output := ev\<rparr>) }
             else ntripsrv_send_stream_result_ok (se_date env) ?st1 None None) = Some st2"
        and r: "\<exists>w'. r = Go w' \<and> sess w' c = st2\<lparr>nt_state := NTRIP_WAIT_STREAM_SOURCE\<rparr>"
        by (auto simp: bind_eq_Some_conv simp del: not_None_eq split: if_splits)
      have q: "quiet ?st1 st2" using s send_stream_quiet[of "se_date env" ?st1 None None st2]
        by (auto simp: bind_eq_Some_conv split: if_splits)
      have "presented st2 user password" using assms(3) quiet_keeps(4-6)[OF q] by (simp add: presented_def)
      moreover have "?k = (if wildcard st2 then CHECKPW_MOUNTPOINT_WILDCARD else CHECKPW_MOUNTPOINT_VALID)"
        using g(1) quiet_keeps(10)[OF q] by (cases ?k) simp_all
      ultimately have "authorised config (st2\<lparr>nt_state := NTRIP_WAIT_STREAM_SOURCE\<rparr>)"
        using quiet_keeps(8,9)[OF q] by (auto simp: authorised_def intro!: exI[of _ user] exI[of _ password])
      with r quiet_buffered[OF q] show ?thesis by auto
    qed
  qed
qed

lemma post_request_ok:
  assumes "post_request env config c w = Some r" "answering (sess w c)"
  shows "outcome_ok config c (buffered (sess w c)) r"
proof -
  let ?st = "sess w c"
  from assms(1) obtain path where p: "buf_get (http_args ?st) 1 = Some path" by (auto simp: post_request_def Let_def bind_eq_Some_conv)
  note d = assms(1)[unfolded post_request_def Let_def p Option.bind_lunit]
  consider "is_adm_path path" "content_length ?st = 0" | "is_adm_path path" "content_length ?st \<noteq> 0" | "\<not> is_adm_path path" by blast
  then show ?thesis
  proof cases
    case 1
    with d obtain err hs w' where a: "adm_request env config c ''POST'' path w = Some (err, hs, w')"
      by (auto simp: bind_eq_Some_conv)
    with 1 d quiet_buffered[OF adm_request_quiet[OF a]] show ?thesis by (auto split: if_splits)
  next
    case 2
    with d show ?thesis by auto
  next
    case 3
    let ?w = "set_sess c (?st\<lparr>connection_keepalive := False, client_version := 2\<rparr>) w"
    have "answering (sess ?w c)" "buffered (sess ?w c) = buffered ?st" using assms(2) by (simp_all add: answering_def)
    moreover have "nt_user ?st = Some u \<Longrightarrow> nt_password ?st = Some pw \<Longrightarrow> presented (sess ?w c) (Some u) pw" for u pw
      by (simp add: presented_def)
    ultimately show ?thesis using d 3 assms(2) register_source_ok[of env config c "drop 1 path" _ _ ?w r]
      by (auto simp: answering_def split: if_splits option.splits)
  qed
qed

lemma source_request_ok:
  assumes "source_request env config c w = Some r" "answering (sess w c)"
  shows "outcome_ok config c (buffered (sess w c)) r"
proof (cases "n_http_args (sess w c) = 2")
  case True
  with assms show ?thesis by (auto simp: source_request_def answering_def Let_def)
next
  case False
  let ?w = "set_sess c ((sess w c)\<lparr>connection_keepalive := False, client_version := 1\<rparr>) w"
  from False assms(1) obtain password m where p: "buf_get (http_args (sess w c)) 1 = Some password"
    and r: "register_source env config c m None password ?w = Some r"
    by (auto simp: source_request_def Let_def bind_eq_Some_conv)
  have "answering (sess ?w c)" "buffered (sess ?w c) = buffered (sess w c)" "presented (sess ?w c) None password"
    using assms(2) p by (simp_all add: answering_def presented_def)
  with register_source_ok[OF r] show ?thesis by simp
qed

lemma dispatch_ok:
  assumes "dispatch env config c w = Some r" "nt_state (sess w c) = NTRIP_WAIT_HTTP_HEADER"
  shows "outcome_ok config c (buffered (sess w c)) r"
proof -
  from assms(1) obtain st where e: "end_headers env (sess w c) = Some st" by (auto simp: dispatch_def bind_eq_Some_conv)
  let ?w = "set_sess c st w"
  from end_headers_frame[OF e] assms(2) have st: "answering (sess ?w c)" "buffered (sess ?w c) \<le> buffered (sess w c)"
    by (auto simp: answering_def)
  from assms(1) e have "get_request env config c ?w = Some r \<or> post_request env config c ?w = Some r \<or>
      source_request env config c ?w = Some r \<or> r = stop ?w 501"
    by (auto simp: dispatch_def Let_def bind_eq_Some_conv split: if_splits)
  then have "outcome_ok config c (buffered (sess ?w c)) r"
    using get_request_ok[OF _ st(1)] post_request_ok[OF _ st(1)] source_request_ok[OF _ st(1)] st(1) by (auto simp: answering_def)
  then show ?thesis using st(2) by (rule outcome_ok_mono)
qed

lemma header_step_ok:
  assumes "header_step env config c w = Some r" "nt_state (sess w c) = NTRIP_WAIT_HTTP_HEADER"
  shows "outcome_ok config c (buffered (sess w c) - 1) r"
proof -
  from assms(1) obtain l where l: "read_line config (sess w c) = Some l" by (auto simp: header_step_def bind_eq_Some_conv)
  note fr = read_line_frame[OF l]
  show ?thesis
  proof (cases l)
    case (Line bs st)
    with fr assms(2) have st: "nt_state (sess (set_sess c st w) c) = NTRIP_WAIT_HTTP_HEADER" "buffered (sess (set_sess c st w) c) \<le> buffered (sess w c) - 1"
      by auto
    from assms(1) l Line have "header_line env config (line_text bs) c (set_sess c st w) = Some r \<or> dispatch env config c (set_sess c st w) = Some r"
      by (auto simp: header_step_def split: if_splits)
    then show ?thesis using header_line_ok[OF _ st(1)] dispatch_ok[OF _ st(1)] outcome_ok_mono[OF _ st(2)] by blast
  qed (use assms l fr in \<open>auto simp: header_step_def\<close>)
qed

lemma client_input_step_ok:
  assumes "client_input_step env c w = Some r" "authorised config (sess w c)"
  shows "outcome_ok config c (buffered (sess w c) - 1) r"
proof -
  let ?st = "sess w c"
  from assms(1) obtain bs where b: "input_data ?st = Some bs" by (auto simp: client_input_step_def Let_def bind_eq_Some_conv)
  show ?thesis
  proof (cases "readln bs")
    case None
    with assms b show ?thesis by (auto simp: client_input_step_def Let_def)
  next
    case (Some p)
    obtain l rest where p: "p = (l, rest)" by (cases p)
    let ?st1 = "(set_input_data rest ?st)\<lparr>nt_received := nt_received ?st + length l + 2\<rparr>"
    have f: "who ?st1 = who ?st" "nt_state ?st1 = nt_state ?st" "buffered ?st1 < buffered ?st"
      using set_input_data_frame(1,2) set_input_data_frame(3)[OF b] readln_shorter Some p by auto
    note a = authorised_frame[OF f(1,2) assms(2)]
    from assms(1) b Some p have "r = Go (set_sess c ?st1 w) \<or>
        (\<exists>g st2. record_gga (se_now env) g ?st1 = Some st2 \<and> r = Go (add_job (Job_redo_virtual_pos c) (set_sess c st2 w)))"
      by (auto simp: client_input_step_def Let_def bind_eq_Some_conv split: option.splits)
    then show ?thesis
    proof
      assume "r = Go (set_sess c ?st1 w)"
      with a f show ?thesis by simp
    next
      assume "\<exists>g st2. record_gga (se_now env) g ?st1 = Some st2 \<and> r = Go (add_job (Job_redo_virtual_pos c) (set_sess c st2 w))"
      then obtain g st2 where g: "record_gga (se_now env) g ?st1 = Some st2" "r = Go (add_job (Job_redo_virtual_pos c) (set_sess c st2 w))" by blast
      from record_gga_frame[OF g(1)] have "who st2 = who ?st1" "nt_state st2 = nt_state ?st1" "buffered st2 = buffered ?st1" by simp_all
      with authorised_frame[OF this(1,2) a] f g show ?thesis by simp
    qed
  qed
qed

lemma content_step_ok:
  assumes "content_step env config c w = Some r" "nt_state (sess w c) = NTRIP_WAIT_CLIENT_CONTENT"
  shows "outcome_ok config c (buffered (sess w c) - 1) r"
proof -
  let ?st = "sess w c"
  from assms(1) obtain bs where b: "input_data ?st = Some bs" by (auto simp: content_step_def Let_def bind_eq_Some_conv)
  let ?n = "min (length bs) (content_length ?st - content_done ?st)"
  show ?thesis
  proof (cases "?n = 0")
    case True
    with assms(1) b have "r = stop w 0" by (simp add: content_step_def Let_def)
    with assms(2) show ?thesis by simp
  next
    case False
    note d = assms(1)[unfolded content_step_def Let_def b Option.bind_lunit if_not_P[OF False]]
    from d obtain buf0 buf where p: "content ?st = Some buf0" "put_content (content_done ?st) (take ?n bs) buf0 = Some buf"
      by (auto simp: bind_eq_Some_conv)
    let ?st1 = "(set_input_data (drop ?n bs) ?st)\<lparr>content := Some buf, content_done := content_done ?st + ?n, nt_received := nt_received ?st + ?n\<rparr>"
    note d = d[unfolded p Option.bind_lunit]
    have f: "nt_state ?st1 = NTRIP_WAIT_CLIENT_CONTENT" "buffered ?st1 < buffered ?st"
      using set_input_data_frame(2) set_input_data_frame(3)[OF b] False assms(2) by auto
    show ?thesis
    proof (cases "content_done ?st1 \<noteq> content_length ?st1")
      case True
      note d[unfolded if_P[OF True]]
      then have "r = Go (set_sess c ?st1 w)" by blast
      with f show ?thesis by simp
    next
      case fin: False
      note d = d[unfolded if_not_P[OF fin]]
      then obtain buf' meth path err hs w' where
        a: "(if is_adm_path path then adm_request env config c meth path (set_sess c (?st1\<lparr>content := Some buf'\<rparr>) w) else Some (0, [], set_sess c (?st1\<lparr>content := Some buf'\<rparr>) w)) = Some (err, hs, w')"
        and r: "r = (if err \<noteq> 0 then Stop (set_sess c ((sess w' c)\<lparr>nt_state := NTRIP_WAIT_HTTP_METHOD\<rparr>) w') err hs False
                     else Go (set_sess c ((sess w' c)\<lparr>nt_state := NTRIP_WAIT_HTTP_METHOD\<rparr>) w'))"
        unfolding bind_eq_Some_conv by auto
      have "buffered (sess w' c) = buffered ?st1"
        using a quiet_buffered[OF adm_request_quiet] by (fastforce split: if_splits)
      with f(2) r show ?thesis by auto
    qed
  qed
qed

lemma stream_step_ok:
  assumes "stream_step env c w = Some r" "authorised config (sess w c)"
  shows "outcome_ok config c n r"
proof (cases "chunk_state (sess w c) = CHUNK_END")
  case True
  with assms show ?thesis by (auto simp: stream_step_def Let_def)
next
  case False
  with assms(1) obtain rest k rt where "r = stop ((set_sess c ((set_input_data rest (sess w c))\<lparr>nt_received := k\<rparr>) w)\<lparr>sv_rtcm := rt\<rparr>) 0"
    by (auto simp: stream_step_def Let_def bind_eq_Some_conv)
  moreover have "authorised config ((set_input_data rest (sess w c))\<lparr>nt_received := k\<rparr>)"
    by (rule authorised_frame[OF _ _ assms(2)]) (simp_all add: set_input_data_frame)
  ultimately show ?thesis by (simp add: set_sess_def set_conn_def)
qed

lemma readcb_step_ok:
  assumes "readcb_step env config c w = Some r" "authorised config (sess w c)"
  shows "outcome_ok config c (buffered (sess w c) - 1) r"
  using assms method_step_ok header_step_ok client_input_step_ok content_step_ok stream_step_ok
  by (cases "nt_state (sess w c)") (auto simp: readcb_step_def)

subsection \<open>The read callback\<close>

lemma readcb_loop_authorised:
  assumes "readcb_loop env config c w = Some (w', err, hs, p)" "authorised config (sess w c)"
  shows "authorised config (sess w' c)"
proof -
  have "authorised config' (sess w d) \<longrightarrow> authorised config' (sess (fst y) d)" if "readcb_loop env config' d w = Some y" for env config' d w y
    using that
  proof (rule readcb_loop.raw_induct[rotated])
    fix f env config' d w y
    assume f: "\<And>env config' d w y. f env config' d w = Some y \<Longrightarrow> authorised config' (sess w d) \<longrightarrow> authorised config' (sess (fst y) d)"
      and e: "(if nt_state (sess w d) = NTRIP_WAIT_CLOSE then Some (w, 0, [], False)
        else Option.bind (input_data (sess w d)) (\<lambda>bs. if bs = [] then Some (w, 0, [], False)
          else Option.bind (readcb_step env config' d w) (\<lambda>r. case r of Go w \<Rightarrow> f env config' d w | Stop w err hs p \<Rightarrow> Some (w, err, hs, p)))) = Some y"
    show "authorised config' (sess w d) \<longrightarrow> authorised config' (sess (fst y) d)"
    proof
      assume a: "authorised config' (sess w d)"
      show "authorised config' (sess (fst y) d)"
      proof (cases "nt_state (sess w d) = NTRIP_WAIT_CLOSE \<or> input_data (sess w d) = Some []")
        case True
        with e have "fst y = w" by (auto split: if_splits)
        with a show ?thesis by simp
      next
        case False
        with e obtain r where s: "readcb_step env config' d w = Some r"
          and k: "(case r of Go w \<Rightarrow> f env config' d w | Stop w err hs p \<Rightarrow> Some (w, err, hs, p)) = Some y"
          by (auto simp: bind_eq_Some_conv split: if_splits)
        from readcb_step_ok[OF s a] k f show ?thesis by (cases r) auto
      qed
    qed
  qed
  from this[OF assms(1)] assms(2) show ?thesis by simp
qed

lemma srv_decref_end_state:
  assumes "srv_decref_end w c = Some w'"
  shows "nt_state (sess w' c) = NTRIP_END"
proof (cases "nt_state (sess w c) = NTRIP_END")
  case False
  have d: "ntrip_decref cs c = Some cs' \<Longrightarrow> nt_state (conn cs c) = NTRIP_END \<Longrightarrow> nt_state (conn cs' c) = NTRIP_END" for cs cs'
    by (auto simp: ntrip_decref_def ntrip_deferred_free_def bind_eq_Some_conv Let_def set_conn_def split: if_splits)
  have e: "ntrip_decref_end cs c = Some cs' \<Longrightarrow> nt_state (conn cs' c) = NTRIP_END" for cs cs'
    by (auto simp: ntrip_decref_end_def Let_def set_conn_def dest!: d split: if_splits)
  from assms False show ?thesis by (auto simp: srv_decref_end_def Let_def bind_eq_Some_conv dest: e split: option.splits)
qed (use assms in \<open>simp add: srv_decref_end_def\<close>)

lemma readcb_end_authorised:
  assumes "readcb_end env c (w, err, hs, p) = Some w'" "authorised config (sess w c)"
  shows "authorised config (sess w' c)"
  using assms srv_decref_end_state
  by (auto simp: readcb_end_def bind_eq_Some_conv split: if_splits)

text \<open>
  C1: Only authorised sessions send or receive streams. The read callback keeps this invariant of a
  session: if it is the stream of a source, it has a mountpoint for which the credentials that it
  presented (those of its authorization header, or the password of its request line) pass the check
  of the source passwords, as an entry of its own or as the wildcard entry, and it owns the live source
  of that name; if it receives a stream, its user and password are those of an enabled rover account,
  unless rover authentication is not configured or the client is on the local host.
\<close>
theorem streams_authorised:
  assumes "ntripsrv_readcb env config c w = Some w'" "authorised config (sess w c)"
  shows "authorised config (sess w' c)"
proof -
  from assms(1) obtain r ended st where f: "ntrip_filter_run_input (sess w c) = Some (r, ended, st)"
    by (auto simp: ntripsrv_readcb_def bind_eq_Some_conv)
  let ?w = "set_sess c st w"
  have a: "authorised config st"
    using filter_frame[OF f] authorised_frame[of st "sess w c" config] assms(2) by (cases "nt_state st = nt_state (sess w c)") auto
  note d = assms(1)[unfolded ntripsrv_readcb_def f Option.bind_lunit prod.case Let_def]
  show ?thesis
  proof (cases "r < 0")
    case True
    with d a srv_decref_end_state[of ?w c w'] show ?thesis by (auto split: if_splits)
  next
    case False
    with d obtain w1 err hs p where
      l: "w1 = set_sess c (st\<lparr>nt_state := NTRIP_FORCE_CLOSE\<rparr>) ?w \<or> readcb_loop env config c ?w = Some (w1, err, hs, p)"
      and e: "readcb_end env c (w1, err, hs, p) = Some w'"
      by (auto simp: bind_eq_Some_conv split: if_splits)
    from l a have "authorised config (sess w1 c)" using readcb_loop_authorised[of env config c ?w w1 err hs p] by auto
    with e show ?thesis by (rule readcb_end_authorised)
  qed
qed

subsection \<open>The loop ends\<close>

text \<open>The loop with a bound on its iterations: left, faulted, or out of iterations.\<close>

datatype loop_result = Left "srv \<times> int \<times> headers \<times> bool" | Fault | Exhausted

fun readcb_iter :: "nat \<Rightarrow> srv_env \<Rightarrow> srv_config \<Rightarrow> nat \<Rightarrow> srv \<Rightarrow> loop_result" where
  "readcb_iter n env config c w =
     (if nt_state (sess w c) = NTRIP_WAIT_CLOSE then Left (w, 0, [], False)
      else case input_data (sess w c) of
        None \<Rightarrow> Fault
      | Some bs \<Rightarrow>
          if bs = [] then Left (w, 0, [], False)
          else case n of
            0 \<Rightarrow> Exhausted
          | Suc n \<Rightarrow>
              (case readcb_step env config c w of
                 None \<Rightarrow> Fault
               | Some (Stop w err hs p) \<Rightarrow> Left (w, err, hs, p)
               | Some (Go w) \<Rightarrow> readcb_iter n env config c w))"

declare readcb_iter.simps [simp del]

lemma input_buffered: "input_data st = Some bs \<Longrightarrow> length bs \<le> buffered st"
  by (auto simp: input_data_def buffered_def split: input_ref.splits)

lemma client_input_consumes:
  assumes "client_input_step env c w = Some (Go w1)"
  shows "buffered (sess w1 c) < buffered (sess w c)"
proof -
  let ?st = "sess w c"
  from assms obtain bs where i: "input_data ?st = Some bs" by (auto simp: client_input_step_def Let_def bind_eq_Some_conv)
  with assms obtain l rest where b: "input_data ?st = Some bs" "readln bs = Some (l, rest)"
    by (cases "readln bs") (auto simp: client_input_step_def Let_def)
  let ?st1 = "(set_input_data rest ?st)\<lparr>nt_received := nt_received ?st + length l + 2\<rparr>"
  have "buffered ?st1 < buffered ?st"
    using set_input_data_frame(3)[OF b(1)] readln_shorter b(2) by auto
  moreover have "sess w1 c = ?st1 \<or> (\<exists>g. record_gga (se_now env) g ?st1 = Some (sess w1 c))"
    using assms b by (auto simp: client_input_step_def Let_def bind_eq_Some_conv split: option.splits)
  ultimately show ?thesis using record_gga_frame by fastforce
qed

text \<open>An iteration that goes on consumes a byte, in every state of the session and under every configuration.\<close>

lemma readcb_step_consumes:
  assumes "readcb_step env config c w = Some (Go w1)"
  shows "buffered (sess w1 c) \<le> buffered (sess w c) - 1"
proof (cases "nt_state (sess w c) = NTRIP_WAIT_CLIENT_INPUT \<or> nt_state (sess w c) = NTRIP_WAIT_STREAM_SOURCE")
  case True
  then show ?thesis
    using assms client_input_consumes[of env c w w1]
    by (auto simp: readcb_step_def stream_step_def Let_def bind_eq_Some_conv split: if_splits)
next
  case False
  then have "authorised config (sess w c)" by (simp add: authorised_def)
  from readcb_step_ok[OF assms this] show ?thesis by simp
qed

lemma readcb_iter_enough:
  assumes "buffered (sess w c) \<le> n"
  shows "readcb_iter n env config c w \<noteq> Exhausted \<and>
    readcb_loop env config c w = (case readcb_iter n env config c w of Left x \<Rightarrow> Some x | _ \<Rightarrow> None)"
  using assms
proof (induction n arbitrary: w)
  case 0
  then have "input_data (sess w c) = Some bs \<Longrightarrow> bs = []" for bs using input_buffered[of "sess w c" bs] by auto
  then show ?case
    by (subst (1 2) readcb_iter.simps, subst readcb_loop.simps) (cases "input_data (sess w c)", auto)
next
  case (Suc n)
  have "readcb_step env config c w = Some (Go w1) \<Longrightarrow> input_data (sess w c) = Some bs \<Longrightarrow> bs \<noteq> [] \<Longrightarrow>
      buffered (sess w1 c) \<le> n" for w1 bs
    using readcb_step_consumes[of env config c w w1] Suc.prems input_buffered[of "sess w c" bs] by (cases bs) auto
  with Suc.IH show ?case
    by (subst (1 2) readcb_iter.simps, subst readcb_loop.simps) (auto split: option.split outcome.split)
qed

text \<open>
  C24: The loop of the read callback ends, for every session, configuration and content of the
  buffers: every iteration that goes on consumes at least a byte, so that the loop makes at most as many
  iterations as there are bytes in the buffers of the connection. Within that bound the loop is
  left, or it comes to an iteration that has no result, and its result is that of the unbounded
  loop; it never runs out of iterations. That a single iteration has no result (Fault)
  stands for undefined behaviour in it, and also for a loop inside it that would not end. The bound
  is on the loop of the callback itself. That the reception of frames, the only loop over the input inside
  an iteration, ends is a theorem of \<open>Rtcm_Stream\<close>; the functions behind the JSON calls of the
  console are a parameter here (one of them, the request to drop all connections, does not end:
  lemma \<open>drop_all_spins\<close> of \<open>Ntrip_Conns\<close>).
\<close>
theorem readcb_terminates:
  "\<exists>r. r \<noteq> Exhausted \<and> readcb_iter (buffered (sess w c)) env config c w = r \<and>
    readcb_loop env config c w = (case r of Left x \<Rightarrow> Some x | _ \<Rightarrow> None)"
  using readcb_iter_enough[OF order_refl] by blast

subsection \<open>Registering a source\<close>

lemma connected_taken:
  assumes "hash_table_get (lt_hash L) m = Some l" "ls_state l \<noteq> LIVESOURCE_INIT"
  shows "livesource_connected L True m = Some (0, None, L)"
  using assms by (cases "ls_state l") (auto simp: livesource_connected_def livesource_find_unlocked_def)

text \<open>A source with a right password, a place and a free name is registered.\<close>

lemma register_source_registers:
  assumes "Livesource_Sync.table_ok (sv_live w)" "own_livesource (sess w c) = None" "nt_subscription (sess w c) = None"
    and k: "k = check_password (cfg_auth (cfg_adm config)) m user password"
    and line: "line = stack_find_local_mountpoint (live_test_of w) (sv_stack w) m"
    and g: "k \<noteq> CHECKPW_MOUNTPOINT_INVALID" "\<exists>l. line = Some l \<and> sl_virtual l = 0 \<or> line = None \<and> k = CHECKPW_MOUNTPOINT_WILDCARD"
    and none: "hash_table_get (lt_hash (sv_live w)) m = None"
  shows "\<exists>w'. register_source env config c m user password w = Some (Go w') \<and>
    hash_table_get (lt_hash (sv_live w')) = (hash_table_get (lt_hash (sv_live w)))(m \<mapsto> direct_source m) \<and>
    lt_serial (sv_live w') = lt_serial (sv_live w) + 1 \<and>
    sv_messages w' = sv_messages w @ [livesource_update_json (direct_source m) (sv_live w) LIVESOURCE_UPDATE_ADD] \<and>
    sv_jobs w' = sv_jobs w @ [Job_set_rtcm_cache c] \<and> nt_state (sess w' c) = NTRIP_WAIT_STREAM_SOURCE \<and>
    own_livesource (sess w' c) = Some m \<and> nt_mountpoint (sess w' c) = Some m \<and> input_data (sess w' c) = input_data (sess w c)"
proof -
  let ?st = "(sess w c)\<lparr>wildcard := (k = CHECKPW_MOUNTPOINT_WILDCARD), nt_type := ''source'', nt_mountpoint := Some m\<rparr>"
  have free: "(own_livesource ?st = None \<and> nt_subscription ?st = None) = True" using assms(2,3) by simp
  from g have n: "\<not> (line \<noteq> None \<and> sl_virtual (the line) \<noteq> 0)" "\<not> (line = None \<and> k \<noteq> CHECKPW_MOUNTPOINT_WILDCARD)" by auto
  note d = register_source_def[of env config c m user password w, folded k line, unfolded Let_def if_not_P[OF g(1)] if_not_P[OF n(1)] if_not_P[OF n(2)] free]
  from livesource_connected_fresh[OF assms(1) none] obtain H where
    t: "livesource_connected (sv_live w) True m = Some (1, Some (livesource_update_json (direct_source m) (sv_live w) LIVESOURCE_UPDATE_ADD),
      (sv_live w)\<lparr>lt_hash := H, lt_serial := lt_serial (sv_live w) + 1\<rparr>)"
    and H: "hash_table_get H = (hash_table_get (lt_hash (sv_live w)))(m \<mapsto> direct_source m)" by blast
  let ?st1 = "?st\<lparr>own_livesource := Some m\<rparr>"
  obtain st2 where s: "(if client_version ?st1 = 1 then do { (ev, _) \<leftarrow> add_reference (''ICY 200 OK'' @ crlf @ crlf) 14 (nt_output ?st1, 0); Some (?st1\<lparr>nt_output := ev\<rparr>) }
           else ntripsrv_send_stream_result_ok (se_date env) ?st1 None None) = Some st2" and q: "quiet ?st1 st2"
  proof (cases "client_version ?st1 = 1")
    case True
    then show ?thesis using that by (simp add: add_reference_def crlf_def)
  next
    case False
    have "mime_ok None" by (simp add: mime_ok_def)
    from send_result_ok_total[OF this, of "se_date env" ?st1 None None] False that send_result_ok_quiet[of "se_date env" ?st1 None None None]
    show ?thesis by (auto simp: ntripsrv_send_stream_result_ok_def)
  qed
  have i: "input_data (st2\<lparr>nt_state := NTRIP_WAIT_STREAM_SOURCE\<rparr>) = input_data (sess w c)"
    using quiet_keeps(1-3)[OF q] by (simp add: input_data_def split: input_ref.split)
  have "own_livesource st2 = Some m" "nt_mountpoint st2 = Some m" using quiet_keeps(8,9)[OF q] by simp_all
  then show ?thesis
    unfolding d t Option.bind_lunit prod.case s using H i by (simp add: add_message_def s)
qed

text \<open>
  C5: Every outcome of the request to be a source. A wrong password is answered 401 and a mountpoint that
  is virtual, or that has no local source line without a wildcard password, 404; nothing changes. A name
  that is taken is answered 409 and the table of live sources stays as it is. Otherwise the source is
  registered under its name, the serial number of the table grows by one, the other nodes get a
  message, and the session becomes the owner of the source and reads its stream.
\<close>
theorem register_source_correct:
  assumes "Livesource_Sync.table_ok (sv_live w)" "own_livesource (sess w c) = None" "nt_subscription (sess w c) = None"
    "\<forall>l. hash_table_get (lt_hash (sv_live w)) m = Some l \<longrightarrow> ls_state l \<noteq> LIVESOURCE_INIT"
    and k: "k = check_password (cfg_auth (cfg_adm config)) m user password"
    and line: "line = stack_find_local_mountpoint (live_test_of w) (sv_stack w) m"
  shows "(k = CHECKPW_MOUNTPOINT_INVALID \<longrightarrow> register_source env config c m user password w = Some (Stop w 401 [] True)) \<and>
    (k \<noteq> CHECKPW_MOUNTPOINT_INVALID \<and> (\<exists>l. line = Some l \<and> sl_virtual l \<noteq> 0 \<or> line = None \<and> k = CHECKPW_MOUNTPOINT_VALID) \<longrightarrow>
      register_source env config c m user password w = Some (Stop w 404 [] True)) \<and>
    (k \<noteq> CHECKPW_MOUNTPOINT_INVALID \<and> (\<exists>l. line = Some l \<and> sl_virtual l = 0 \<or> line = None \<and> k = CHECKPW_MOUNTPOINT_WILDCARD) \<longrightarrow>
      (hash_table_get (lt_hash (sv_live w)) m \<noteq> None \<longrightarrow>
        (\<exists>w'. register_source env config c m user password w = Some (Stop w' 409 [] True) \<and> sv_live w' = sv_live w \<and>
          sv_jobs w' = sv_jobs w \<and> nt_state (sess w' c) = nt_state (sess w c))) \<and>
      (hash_table_get (lt_hash (sv_live w)) m = None \<longrightarrow>
        (\<exists>w'. register_source env config c m user password w = Some (Go w') \<and>
          hash_table_get (lt_hash (sv_live w')) = (hash_table_get (lt_hash (sv_live w)))(m \<mapsto> direct_source m) \<and>
          lt_serial (sv_live w') = lt_serial (sv_live w) + 1 \<and>
          sv_messages w' = sv_messages w @ [livesource_update_json (direct_source m) (sv_live w) LIVESOURCE_UPDATE_ADD] \<and>
          sv_jobs w' = sv_jobs w @ [Job_set_rtcm_cache c] \<and> nt_state (sess w' c) = NTRIP_WAIT_STREAM_SOURCE \<and>
          own_livesource (sess w' c) = Some m \<and> nt_mountpoint (sess w' c) = Some m)))"
proof (intro conjI impI)
  assume "k = CHECKPW_MOUNTPOINT_INVALID"
  then show "register_source env config c m user password w = Some (Stop w 401 [] True)" using k by (simp add: register_source_def)
next
  assume "k \<noteq> CHECKPW_MOUNTPOINT_INVALID \<and> (\<exists>l. line = Some l \<and> sl_virtual l \<noteq> 0 \<or> line = None \<and> k = CHECKPW_MOUNTPOINT_VALID)"
  then show "register_source env config c m user password w = Some (Stop w 404 [] True)" using k line by (auto simp: register_source_def)
next
  assume g: "k \<noteq> CHECKPW_MOUNTPOINT_INVALID \<and> (\<exists>l. line = Some l \<and> sl_virtual l = 0 \<or> line = None \<and> k = CHECKPW_MOUNTPOINT_WILDCARD)"
  let ?st = "(sess w c)\<lparr>wildcard := (k = CHECKPW_MOUNTPOINT_WILDCARD), nt_type := ''source'', nt_mountpoint := Some m\<rparr>"
  have free: "(own_livesource ?st = None \<and> nt_subscription ?st = None) = True" using assms(2,3) by simp
  from g have n: "k \<noteq> CHECKPW_MOUNTPOINT_INVALID" "\<not> (line \<noteq> None \<and> sl_virtual (the line) \<noteq> 0)" "\<not> (line = None \<and> k \<noteq> CHECKPW_MOUNTPOINT_WILDCARD)"
    by auto
  note d = register_source_def[of env config c m user password w, folded k line, unfolded Let_def if_not_P[OF n(1)] if_not_P[OF n(2)] if_not_P[OF n(3)] free]
  {
    assume "hash_table_get (lt_hash (sv_live w)) m \<noteq> None"
    then obtain l where "hash_table_get (lt_hash (sv_live w)) m = Some l" by blast
    with assms(4) have t: "livesource_connected (sv_live w) True m = Some (0, None, sv_live w)" by (intro connected_taken) auto
    show "\<exists>w'. register_source env config c m user password w = Some (Stop w' 409 [] True) \<and> sv_live w' = sv_live w \<and>
          sv_jobs w' = sv_jobs w \<and> nt_state (sess w' c) = nt_state (sess w c)"
      unfolding d t by (simp add: add_message_def)
  }
  {
    assume "hash_table_get (lt_hash (sv_live w)) m = None"
    from register_source_registers[OF assms(1-3) k line _ _ this, of env] g
    show "\<exists>w'. register_source env config c m user password w = Some (Go w') \<and>
          hash_table_get (lt_hash (sv_live w')) = (hash_table_get (lt_hash (sv_live w)))(m \<mapsto> direct_source m) \<and>
          lt_serial (sv_live w') = lt_serial (sv_live w) + 1 \<and>
          sv_messages w' = sv_messages w @ [livesource_update_json (direct_source m) (sv_live w) LIVESOURCE_UPDATE_ADD] \<and>
          sv_jobs w' = sv_jobs w @ [Job_set_rtcm_cache c] \<and> nt_state (sess w' c) = NTRIP_WAIT_STREAM_SOURCE \<and>
          own_livesource (sess w' c) = Some m \<and> nt_mountpoint (sess w' c) = Some m" by blast
  }
qed

subsection \<open>Sessions that are to be closed\<close>

text \<open>
  The state \<open>NTRIP_FORCE_CLOSE\<close> never reaches the test at the end of the callback: every branch that
  sets it also sets an error, and the error handling replaces it by \<open>NTRIP_WAIT_CLOSE\<close>. A client that is
  over the quota of its forwarded address is not ended either: with nothing to send, it waits for
  an event of the connection.
\<close>

lemma force_close_waits:
  "err \<noteq> 0 \<Longrightarrow> readcb_end env c (w, err, hs, p) = Some w' \<Longrightarrow> nt_state (sess w' c) = NTRIP_WAIT_CLOSE"
  by (auto simp: readcb_end_def bind_eq_Some_conv)

lemma over_quota_not_ended:
  "readcb_end env c (w, 1, [], False) = Some (set_sess c ((sess w c)\<lparr>nt_state := NTRIP_WAIT_CLOSE\<rparr>) w)"
  by (simp add: readcb_end_def error_reply_def)

subsection \<open>A source that connects\<close>

definition demo_config :: srv_config where
  "demo_config = \<lparr>cfg_adm = \<lparr>cfg_auth = \<lparr>source_auth = Some [\<lparr>ae_key = ''*'', ae_user = [], ae_password = ''pw''\<rparr>], rover_auth = None,
        user_auth = None, admin_user = ''console'', rover_auth_filename = None\<rparr>,
      syncer_auth = None, ui_dir = None, webroots = [], config_dir = ''/etc''\<rparr>,
    http_header_max_size = 100, http_content_length_max = 100, trusted_http_proxy_prefixes = [], trusted_http_ip_header = None,
    cfg_blocklist = None, cfg_rtcm_filter = None, idle_max_delay = 60, min_nearest_recompute_interval = 10,
    max_nearest_recompute_interval = 60, min_nearest_recompute_pos_delta = 100, nearest_base_count_target = 10,
    max_nearest_lookup_distance_m = 1000000, hysteresis_m = 500\<rparr>"

definition demo_env :: srv_env where
  "demo_env = \<lparr>se_parse = \<lambda>_. None, se_fs = \<lambda>_. None, se_stats = \<lambda>_. mime_new [] 0 None, se_date = ''now'', se_now = (1000, 0),
    se_ntop = \<lambda>_. [], se_pton6 = \<lambda>_. None, se_pton4 = \<lambda>_. None, se_api = plain_api, se_strptime = \<lambda>_. None,
    se_uninit = demo_line [] 0, se_junk = \<lambda>_. 0, se_mem = \<lambda>_. True, se_useful = \<lambda>_. True\<rparr>"

definition source_session :: ntrip_state where
  "source_session = new_session\<lparr>nt_state := NTRIP_WAIT_HTTP_METHOD, raw_input := bytes_of (''SOURCE pw /M'' @ crlf @ crlf)\<rparr>"

definition demo_srv :: srv where
  "demo_srv = \<lparr>sv_conns = demo_conns\<lparr>conn := (\<lambda>_. source_session)\<rparr>, sv_live = example_table, sv_stack = [],
    sv_nodes = the (hash_table_new True 5), sv_syncer = \<lambda>_. None,
    sv_rtcm = \<lambda>_. \<lparr>conn_input = [], received_bytes = 0, delivered = [], last_useful = 0, info_types = None, pos_jobs = []\<rparr>,
    sv_cache = the (hash_table_new True 5), sv_jobs = [], sv_messages = [], sv_sent = []\<rparr>"

lemma source_bytes: "bytes_of (''SOURCE pw /M'' @ crlf @ crlf) = [83, 79, 85, 82, 67, 69, 32, 112, 119, 32, 47, 77, 13, 10, 13, 10]"
  by (simp add: bytes_of_def crlf_def)

lemma source_lines: "readln (bytes_of (''SOURCE pw /M'' @ crlf @ crlf)) = Some (bytes_of ''SOURCE pw /M'', [13, 10])" "readln [13, 10] = Some ([], [])"
  unfolding source_bytes by (simp_all add: readln_def bytes_of_def)

lemma source_text: "line_text (bytes_of ''SOURCE pw /M'') = ''SOURCE pw /M''"
  by (simp add: line_text_def string_of_bytes)

definition source_session1 :: ntrip_state where
  "source_session1 = source_session\<lparr>raw_input := [13, 10], nt_received := 14, http_args := [''SOURCE'', ''pw'', ''/M''], n_http_args := 3,
     nt_mountpoint := None, nt_state := NTRIP_WAIT_HTTP_HEADER\<rparr>"

lemma demo_sess [simp]: "sess demo_srv c = source_session"
  by (simp add: demo_srv_def)

lemma source_session_fields [simp]:
  "nt_state source_session = NTRIP_WAIT_HTTP_METHOD" "in_filter source_session = False" "chunk_state source_session = CHUNK_NONE"
  "nt_input source_session = Raw_input" "raw_input source_session = bytes_of (''SOURCE pw /M'' @ crlf @ crlf)" "nt_received source_session = 0"
  by (simp_all add: source_session_def new_session_def ntrip_new_def)

lemma request_args: "strsep_tokens is_blank ''SOURCE pw /M'' = [''SOURCE'', ''pw'', ''/M'']"
  by (simp add: is_blank_def)

lemma cleared: "(ntrip_clear_request source_session)\<lparr>nt_mountpoint := None\<rparr> = source_session\<lparr>nt_mountpoint := None\<rparr>"
  by (simp add: ntrip_clear_request_def source_session_def new_session_def ntrip_new_def zero_session_def)

lemma source_step1: "readcb_step demo_env demo_config 7 demo_srv = Some (Go (set_sess 7 source_session1 demo_srv))"
proof -
  let ?st = "source_session\<lparr>nt_mountpoint := None, raw_input := [13, 10], nt_received := 14\<rparr>"
  have r: "read_line demo_config (source_session\<lparr>nt_mountpoint := None\<rparr>) = Some (Line (bytes_of ''SOURCE pw /M'') ?st)"
    using source_lines(1) by (simp add: read_line_def input_data_def set_input_data_def Let_def bytes_of_def demo_config_def)
  have "?st\<lparr>http_args := [''SOURCE'', ''pw'', ''/M''], n_http_args := 3, nt_state := NTRIP_WAIT_HTTP_HEADER, received_keepalive := False\<rparr> = source_session1"
    by (simp add: source_session1_def source_session_def new_session_def ntrip_new_def zero_session_def)
  then have "request_line ''SOURCE pw /M'' ?st = (0, source_session1)"
    unfolding request_line_def request_args by (simp add: SIZE_HTTP_ARGS_def Let_def numeral_3_eq_3)
  then show ?thesis by (simp add: readcb_step_def method_step_def Let_def cleared r source_text)
qed

definition source_session2 :: ntrip_state where
  "source_session2 = source_session1\<lparr>raw_input := [], nt_received := 16\<rparr>"

lemma source_step2:
  "\<exists>w'. readcb_step demo_env demo_config 7 (set_sess 7 source_session1 demo_srv) = Some (Go w') \<and>
    nt_state (sess w' 7) = NTRIP_WAIT_STREAM_SOURCE \<and> input_data (sess w' 7) = Some []"
proof -
  let ?w = "set_sess 7 source_session2 (set_sess 7 source_session1 demo_srv)"
  let ?w2 = "set_sess 7 (source_session2\<lparr>connection_keepalive := False, client_version := 1\<rparr>) ?w"
  have f: "nt_state source_session1 = NTRIP_WAIT_HTTP_HEADER" "raw_input source_session1 = [13, 10]" "nt_input source_session1 = Raw_input"
    "nt_received source_session1 = 14" by (simp_all add: source_session1_def)
  have r: "read_line demo_config source_session1 = Some (Line [] source_session2)"
    using source_lines(2) by (simp add: read_line_def f input_data_def set_input_data_def Let_def source_session2_def demo_config_def)
  have g: "content_length source_session2 = 0" "client_version source_session2 = 0" "chunk_state source_session2 = CHUNK_NONE"
      "http_args source_session2 = [''SOURCE'', ''pw'', ''/M'']" "n_http_args source_session2 = 3"
      "own_livesource source_session2 = None" "nt_subscription source_session2 = None" "nt_state source_session2 = NTRIP_WAIT_HTTP_HEADER"
      "nt_input source_session2 = Raw_input" "raw_input source_session2 = []" "chunk_buf source_session2 = None"
    by (simp_all add: source_session2_def source_session1_def source_session_def new_session_def ntrip_new_def)
  have e: "end_headers demo_env source_session2 = Some source_session2"
    by (simp add: end_headers_def Let_def g buf_get_def)
  have s: "readcb_step demo_env demo_config 7 (set_sess 7 source_session1 demo_srv) =
      register_source demo_env demo_config 7 ''M'' None ''pw'' ?w2"
    by (simp add: readcb_step_def f header_step_def r dispatch_def e Let_def g buf_get_def source_request_def)
  have "Livesource_Sync.table_ok (sv_live ?w2)" "hash_table_get (lt_hash (sv_live ?w2)) ''M'' = None"
    using example_sync_ok(1) by (simp_all add: demo_srv_def example_table_def hash_fresh_5)
  moreover have "check_password (cfg_auth (cfg_adm demo_config)) ''M'' None ''pw'' = CHECKPW_MOUNTPOINT_WILDCARD"
    by (simp add: demo_config_def check_password_def auth_lookup_def)
  moreover have "stack_find_local_mountpoint (live_test_of ?w2) (sv_stack ?w2) ''M'' = None"
    by (simp add: demo_srv_def stack_find_local_mountpoint_def stack_find_def)
  moreover have "own_livesource (sess ?w2 7) = None" "nt_subscription (sess ?w2 7) = None" using g by simp_all
  ultimately show ?thesis
    unfolding s using register_source_registers[of ?w2 7 _ demo_config "''M''" None "''pw''" _ demo_env, OF _ _ _ refl refl] g
    by (fastforce simp: input_data_def)
qed

text \<open>The request \<open>SOURCE pw /M\<close> is read and the session becomes the source of the mountpoint.\<close>

lemma source_connects:
  "\<exists>w'. ntripsrv_readcb demo_env demo_config 7 demo_srv = Some w' \<and> nt_state (sess w' 7) = NTRIP_WAIT_STREAM_SOURCE"
proof -
  from source_step2 obtain w' where w': "readcb_step demo_env demo_config 7 (set_sess 7 source_session1 demo_srv) = Some (Go w')"
    "nt_state (sess w' 7) = NTRIP_WAIT_STREAM_SOURCE" "input_data (sess w' 7) = Some []" by blast
  have i: "input_data source_session = Some [83, 79, 85, 82, 67, 69, 32, 112, 119, 32, 47, 77, 13, 10, 13, 10]" "input_data source_session1 = Some [13, 10]"
    by (simp_all add: input_data_def source_session1_def source_bytes del: append_Cons)
  have s1: "nt_state source_session1 = NTRIP_WAIT_HTTP_HEADER" by (simp add: source_session1_def)
  have "readcb_loop demo_env demo_config 7 w' = Some (w', 0, [], False)" using w'(2,3) by (subst readcb_loop.simps) simp
  then have "readcb_loop demo_env demo_config 7 (set_sess 7 source_session1 demo_srv) = Some (w', 0, [], False)"
    using w'(1) i s1 by (subst readcb_loop.simps) simp
  then have l: "readcb_loop demo_env demo_config 7 demo_srv = Some (w', 0, [], False)"
    using source_step1 i by (subst readcb_loop.simps) simp
  have "set_sess 7 source_session demo_srv = demo_srv" by (simp add: set_sess_def set_conn_def demo_srv_def fun_upd_idem)
  with l i w'(2) show ?thesis by (simp add: ntripsrv_readcb_def ntrip_filter_run_input_def readcb_end_def)
qed

theorem streams_authorised_witness:
  "\<exists>w'. ntripsrv_readcb demo_env demo_config 7 demo_srv = Some w' \<and> nt_state (sess w' 7) = NTRIP_WAIT_STREAM_SOURCE \<and>
    authorised demo_config (sess w' 7)"
proof -
  from source_connects obtain w' where w': "ntripsrv_readcb demo_env demo_config 7 demo_srv = Some w'" "nt_state (sess w' 7) = NTRIP_WAIT_STREAM_SOURCE" by blast
  moreover have "authorised demo_config (sess demo_srv 7)" by simp
  ultimately show ?thesis using streams_authorised[OF w'(1)] by blast
qed

theorem register_source_correct_witness:
  "register_source demo_env demo_config 7 ''M'' None ''bad'' demo_srv = Some (Stop demo_srv 401 [] True) \<and>
    (\<exists>w'. register_source demo_env demo_config 7 ''M'' None ''pw'' demo_srv = Some (Go w') \<and>
      hash_table_get (lt_hash (sv_live w')) ''M'' = Some (direct_source ''M''))"
proof -
  have t: "Livesource_Sync.table_ok (sv_live demo_srv)" "own_livesource (sess demo_srv 7) = None" "nt_subscription (sess demo_srv 7) = None"
    "\<forall>l. hash_table_get (lt_hash (sv_live demo_srv)) ''M'' = Some l \<longrightarrow> ls_state l \<noteq> LIVESOURCE_INIT"
    "hash_table_get (lt_hash (sv_live demo_srv)) ''M'' = None"
    using example_sync_ok(1) by (simp_all add: demo_srv_def example_table_def hash_fresh_5 source_session_def new_session_def ntrip_new_def)
  have p: "check_password (cfg_auth (cfg_adm demo_config)) ''M'' None ''pw'' = CHECKPW_MOUNTPOINT_WILDCARD"
    "check_password (cfg_auth (cfg_adm demo_config)) ''M'' None ''bad'' = CHECKPW_MOUNTPOINT_INVALID"
    by (simp_all add: demo_config_def check_password_def auth_lookup_def)
  have l: "stack_find_local_mountpoint (live_test_of demo_srv) (sv_stack demo_srv) ''M'' = None"
    by (simp add: demo_srv_def stack_find_local_mountpoint_def stack_find_def)
  from register_source_correct[OF t(1-4) refl refl, of demo_config None "''bad''" demo_env] p(2)
  have "register_source demo_env demo_config 7 ''M'' None ''bad'' demo_srv = Some (Stop demo_srv 401 [] True)" by simp
  moreover from register_source_correct[OF t(1-4) refl refl, of demo_config None "''pw''" demo_env] p(1) l t(5)
  have "\<exists>w'. register_source demo_env demo_config 7 ''M'' None ''pw'' demo_srv = Some (Go w') \<and>
      hash_table_get (lt_hash (sv_live w')) ''M'' = Some (direct_source ''M'')" by fastforce
  ultimately show ?thesis by blast
qed

end
