(* ===== verification/Virtual_Base.thy ===== *)
theory Virtual_Base
  imports Ntripsrv_Safety
begin

text \<open>
  Clients of a virtual mountpoint: the choice of the nearest base (\<open>ntripsrv_redo_virtual_pos\<close> of
  \<^verbatim>\<open>caster/ntripsrv.c\<close>, defined in \<open>Ntripsrv\<close>) and the change of the subscription
  (\<open>redistribute_switch_source\<close> of \<^verbatim>\<open>caster/redistribute.c\<close>).
\<close>

subsection \<open>Changing the subscription\<close>

definition redistribute_switch_source :: "ntrip_state \<Rightarrow> live_world \<Rightarrow> nat \<Rightarrow> nat \<Rightarrow> (ntrip_state \<times> live_world) option" where
  "redistribute_switch_source this w c i = do {
     let new_mountpoint = ls_mountpoint (sources w i);
     w \<leftarrow> (if subscription (clients w c) \<noteq> None then livesource_del_subscriber w c else Some w);
     w \<leftarrow> livesource_add_subscriber w c i 1;
     Some (this\<lparr>virtual_mountpoint := Some new_mountpoint, mountpoint_pos := tmp_pos this\<rparr>, w)
   }"

text \<open>A session that has not ended is subscribed to the new source and to no other.\<close>

lemma switch_source_ok:
  assumes "live_inv ext w"
  shows "\<exists>w'. redistribute_switch_source st w c i =
      Some (st\<lparr>virtual_mountpoint := Some (ls_mountpoint (sources w i)), mountpoint_pos := tmp_pos st\<rparr>, w') \<and> live_inv ext w' \<and>
    (\<not> cl_ended (clients w c) \<longrightarrow> subscription (clients w' c) = Some i)"
proof (cases "subscription (clients w c)")
  case None
  with add_subscriber_ok[OF assms, of c i 1] show ?thesis by (auto simp: redistribute_switch_source_def)
next
  case (Some k)
  obtain w1 where w1: "del_subscriber_unlocked w c = Some w1" "live_inv ext w1"
      "clients w1 = (clients w)(c := (clients w c)\<lparr>subscription := None\<rparr>)" using del_subscriber_ok[OF assms] by blast
  from w1 add_subscriber_ok[OF w1(2), of c i 1] Some show ?thesis
    by (auto simp: redistribute_switch_source_def livesource_del_subscriber_def)
qed

subsection \<open>The nearest base\<close>

lemma next_lookup_dist_total: "\<exists>d. next_lookup_dist config bases x = Some d"
proof (cases "nearest_base_count_target config > 0 \<and> \<not> int (length bases) < nearest_base_count_target config")
  case True
  then have "nat (nearest_base_count_target config) - 1 < length bases" by linarith
  with True show ?thesis by (auto simp: next_lookup_dist_def Let_def buf_get_def)
qed (auto simp: next_lookup_dist_def Let_def)

lemma find_on_demand_ok:
  assumes "Livesource_Sync.table_ok L" "hash_inv (lt_remote L)" "\<forall>l. hash_table_get (lt_hash L) m = Some l \<longrightarrow> ls_state l \<noteq> LIVESOURCE_INIT"
  shows "\<exists>lv j e L'. livesource_find_on_demand L True m True od = Some (lv, j, e, L') \<and> (\<forall>l. lv = Some l \<longrightarrow> ls_mountpoint l = m)"
proof (cases "hash_table_get (lt_hash L) m")
  case (Some l)
  with assms(1,3) have "ls_mountpoint l = m" "ls_state l \<noteq> LIVESOURCE_INIT" by (auto simp: Livesource_Sync.table_ok_def)
  with Some show ?thesis
    by (cases "ls_state l") (auto simp: livesource_find_on_demand_def livesource_find_unlocked_def)
next
  case None
  have inv: "hash_inv (lt_hash L)" using assms(1) by (simp add: Livesource_Sync.table_ok_def)
  let ?np = "livesource_new m LIVESOURCE_TYPE_FETCHED LIVESOURCE_FETCH_PENDING"
  obtain re where re: "livesource_find_remote_endpoint L m = Some re"
    using hash_foreach_eq[OF assms(2)] by (simp add: livesource_find_remote_endpoint_def)
  obtain H where H: "hash_table_add True (lt_hash L) m ?np = (0, H)"
    using hash.add_fresh[OF inv None, of ?np] by (metis prod.collapse)
  have n: "ls_mountpoint ?np = m" by (simp add: livesource_new_def)
  show ?thesis using None re H n
    by (cases "re = None \<and> \<not> od") (auto simp: livesource_find_on_demand_def livesource_find_unlocked_def Let_def)
qed

text \<open>The jobs that a step adds.\<close>

definition new_jobs :: "srv \<Rightarrow> srv \<Rightarrow> srv_job list" where
  "new_jobs w w' = drop (length (sv_jobs w)) (sv_jobs w')"

lemma switch_to_base_ok:
  assumes "Livesource_Sync.table_ok (sv_live w)" "hash_inv (lt_remote (sv_live w))"
    "\<forall>l. hash_table_get (lt_hash (sv_live w)) (sp_mountpoint s) = Some l \<longrightarrow> ls_state l \<noteq> LIVESOURCE_INIT"
  shows "\<exists>w'. switch_to_base c s w = Some w' \<and>
    (\<exists>js. sv_jobs w' = sv_jobs w @ js \<and> (\<forall>d m. Job_switch_source d m \<in> set js \<longrightarrow> d = c \<and> m = sp_mountpoint s))"
proof -
  obtain lv j e L' where f: "livesource_find_on_demand (sv_live w) True (sp_mountpoint s) True (sp_on_demand s \<noteq> 0) = Some (lv, j, e, L')"
    "\<forall>l. lv = Some l \<longrightarrow> ls_mountpoint l = sp_mountpoint s" using find_on_demand_ok[OF assms] by blast
  show ?thesis
    unfolding switch_to_base_def f(1) Option.bind_lunit prod.case Let_def
    using f(2) by (auto split: option.split)
qed

text \<open>The bases that a client can get: the lines of the stack that are served near its position and are not virtual.\<close>

definition base_of :: "srv \<Rightarrow> pos_t \<Rightarrow> real \<Rightarrow> cstring \<Rightarrow> sourceline \<Rightarrow> bool" where
  "base_of w pos d m n \<longleftrightarrow> first_served (live_test_of w) (Some pos) d (sv_stack w) m = Some n \<and> sl_virtual n = 0"

lemma first_served_key: "\<forall>s \<in> set ss. st_inv s \<Longrightarrow> first_served live pos d ss k = Some n \<Longrightarrow> sl_key n = k"
proof (induction ss)
  case (Cons s ss)
  then show ?case using st_inv_key[of s] by (auto split: option.splits if_splits)
qed simp

lemma bases_sorted:
  assumes "\<forall>s \<in> set (sv_stack w). st_inv s"
  shows "\<exists>t s. stack_flatten_dist (live_test_of w) (sv_stack w) (Some pos) d = Some t \<and> sourcetable_find_pos t pos = Some s \<and>
    sorted (map sp_dist (dist_array s)) \<and>
    (\<forall>b. b \<in> set (dist_array s) \<longleftrightarrow> (\<exists>n. base_of w pos d (sp_mountpoint b) n \<and> b = line_spos pos n))"
proof -
  obtain r0 where r0: "sourcetable_new None 0 0 = Some r0" "st_inv r0" "lines_of r0 = Map.empty" using sourcetable_new_ok by blast
  from flatten_stack_correct[OF r0(2) assms, of "live_test_of w" "Some pos" d] r0(3) obtain t where
    t: "flatten_stack (live_test_of w) (Some pos) d r0 (sv_stack w) = Some t" "st_inv t"
      "\<forall>k. lines_of t k = first_served (live_test_of w) (Some pos) d (sv_stack w) k" by auto
  obtain s where s: "sourcetable_find_pos t pos = Some s" "sorted (map sp_dist (dist_array s))"
      "set (dist_array s) = {line_spos pos n | n k. lines_of t k = Some n \<and> sl_virtual n = 0}"
    using find_pos_sorted_lines[OF t(2), of pos] by blast
  have key: "lines_of t k = Some n \<Longrightarrow> sl_key n = k" for k n using st_inv_key[OF t(2)] by blast
  have "b \<in> set (dist_array s) \<longleftrightarrow> (\<exists>n. base_of w pos d (sp_mountpoint b) n \<and> b = line_spos pos n)" for b
  proof
    assume "b \<in> set (dist_array s)"
    then obtain n k where n: "b = line_spos pos n" "lines_of t k = Some n" "sl_virtual n = 0" using s(3) by blast
    then have "sp_mountpoint b = k" using key by (simp add: line_spos_def)
    with n t(3) show "\<exists>n. base_of w pos d (sp_mountpoint b) n \<and> b = line_spos pos n" by (auto simp: base_of_def)
  next
    assume "\<exists>n. base_of w pos d (sp_mountpoint b) n \<and> b = line_spos pos n"
    then obtain n where "lines_of t (sp_mountpoint b) = Some n" "sl_virtual n = 0" "b = line_spos pos n" using t(3) by (auto simp: base_of_def)
    then show "b \<in> set (dist_array s)" unfolding s(3) by blast
  qed
  with t s r0(1) show ?thesis by (auto simp: stack_flatten_dist_def)
qed

text \<open>The first of the sorted bases is a nearest one.\<close>

lemma nearest_first:
  assumes "\<forall>s \<in> set (sv_stack w). st_inv s" "sorted (map sp_dist (b # bs))"
    "\<forall>x. x \<in> set (b # bs) \<longleftrightarrow> (\<exists>n. base_of w pos d (sp_mountpoint x) n \<and> x = line_spos pos n)"
  shows "\<exists>n. base_of w pos d (sp_mountpoint b) n \<and> b = line_spos pos n \<and>
    (\<forall>m' n'. base_of w pos d m' n' \<longrightarrow> distance (sl_pos n) pos \<le> distance (sl_pos n') pos)"
proof -
  from assms(3) obtain n where n: "base_of w pos d (sp_mountpoint b) n" "b = line_spos pos n" by (metis list.set_intros(1))
  have "distance (sl_pos n) pos \<le> distance (sl_pos n') pos" if "base_of w pos d m' n'" for m' n'
  proof -
    have "sp_mountpoint (line_spos pos n') = m'" using that first_served_key[OF assms(1)] by (auto simp: line_spos_def base_of_def)
    with that assms(3) have "line_spos pos n' \<in> set (b # bs)" by metis
    then show ?thesis using assms(2) n(2) by (auto simp: line_spos_def)
  qed
  with n show ?thesis by blast
qed

text \<open>
  C17: A client of a virtual mountpoint gets the nearest base. Recomputing its base never fails. If it
  queues the switch to a source, the source is that of a base served within the lookup distance of the
  client, no such base is nearer to its position, and if the base that the client uses is live, it
  is another one and is farther than the new base by at least the configured hysteresis.
\<close>
theorem virtual_base_nearest:
  assumes "\<forall>s \<in> set (sv_stack w). st_inv s" "Livesource_Sync.table_ok (sv_live w)" "hash_inv (lt_remote (sv_live w))"
    "\<forall>m l. hash_table_get (lt_hash (sv_live w)) m = Some l \<longrightarrow> ls_state l \<noteq> LIVESOURCE_INIT"
    "last_pos (sess w c) = Some pos"
  shows "\<exists>w'. ntripsrv_redo_virtual_pos env config c w = Some w' \<and>
    (\<forall>d m. Job_switch_source d m \<in> set (new_jobs w w') \<longrightarrow> d = c \<and>
      (\<exists>n. base_of w pos (lookup_dist (sess w c)) m n \<and>
        (\<forall>m' n'. base_of w pos (lookup_dist (sess w c)) m' n' \<longrightarrow> distance (sl_pos n) pos \<le> distance (sl_pos n') pos) \<and>
        (\<forall>v. virtual_mountpoint (sess w c) = Some v \<longrightarrow> livesource_exists (sv_live w) v \<longrightarrow>
          m \<noteq> v \<and> distance (sl_pos n) pos + hysteresis_m config \<le> distance (mountpoint_pos (sess w c)) pos)))"
proof (cases "source_virtual (sess w c) = 0")
  case True
  with assms(5) show ?thesis by (auto simp: ntripsrv_redo_virtual_pos_def new_jobs_def)
next
  case False
  let ?st = "sess w c"
  obtain t s where t: "stack_flatten_dist (live_test_of w) (sv_stack w) (Some pos) (lookup_dist ?st) = Some t" "sourcetable_find_pos t pos = Some s"
    "sorted (map sp_dist (dist_array s))" "\<forall>b. b \<in> set (dist_array s) \<longleftrightarrow> (\<exists>n. base_of w pos (lookup_dist ?st) (sp_mountpoint b) n \<and> b = line_spos pos n)"
    using bases_sorted[OF assms(1)] by blast
  obtain nd where nd: "next_lookup_dist config (dist_array s) (lookup_dist ?st) = Some nd" using next_lookup_dist_total by blast
  show ?thesis
  proof (cases "dist_array s")
    case Nil
    with t nd False assms(5) show ?thesis by (auto simp: ntripsrv_redo_virtual_pos_def new_jobs_def)
  next
    case (Cons b bs)
    let ?st2 = "?st\<lparr>lookup_dist := nd, last_recompute_pos := pos, last_recompute_date := se_now env,
        max_min_dist := (if sp_dist b > max_min_dist ?st then sp_dist b else max_min_dist ?st)\<rparr>"
    let ?w2 = "set_sess c ?st2 w"
    let ?live = "case virtual_mountpoint ?st of Some m \<Rightarrow> livesource_exists (sv_live w) m | None \<Rightarrow> False"
    let ?cur = "if virtual_mountpoint ?st \<noteq> None then distance (mountpoint_pos ?st) pos - hysteresis_m config else 10 ^ 10"
    have e: "ntripsrv_redo_virtual_pos env config c w =
        (if \<not> ?live \<or> Some (sp_mountpoint b) \<noteq> virtual_mountpoint ?st
         then (if ?live \<and> ?cur < sp_dist b then Some ?w2 else switch_to_base c b ?w2) else Some ?w2)"
      by (cases "virtual_mountpoint ?st") (use t(1,2) nd False assms(5) Cons in \<open>simp_all add: ntripsrv_redo_virtual_pos_def Let_def\<close>)
    obtain w' js where sw: "switch_to_base c b ?w2 = Some w'" "sv_jobs w' = sv_jobs w @ js"
      "\<forall>d m. Job_switch_source d m \<in> set js \<longrightarrow> d = c \<and> m = sp_mountpoint b"
      using switch_to_base_ok[of ?w2 b c] assms(2-4) by auto
    from nearest_first[OF assms(1), of b bs pos "lookup_dist ?st"] t(3,4) obtain n where n: "base_of w pos (lookup_dist ?st) (sp_mountpoint b) n" "b = line_spos pos n"
      and nearest: "\<forall>m' n'. base_of w pos (lookup_dist ?st) m' n' \<longrightarrow> distance (sl_pos n) pos \<le> distance (sl_pos n') pos" unfolding Cons by blast
    show ?thesis
    proof (cases "(\<not> ?live \<or> Some (sp_mountpoint b) \<noteq> virtual_mountpoint ?st) \<and> \<not> (?live \<and> ?cur < sp_dist b)")
      case True
      then have r: "ntripsrv_redo_virtual_pos env config c w = Some w'" unfolding e using sw(1) by auto
      have "\<forall>v. virtual_mountpoint ?st = Some v \<longrightarrow> livesource_exists (sv_live w) v \<longrightarrow>
          sp_mountpoint b \<noteq> v \<and> distance (sl_pos n) pos + hysteresis_m config \<le> distance (mountpoint_pos ?st) pos"
        using True n(2) by (auto simp: line_spos_def)
      with r sw n nearest show ?thesis by (auto simp: new_jobs_def)
    next
      case False
      then have "ntripsrv_redo_virtual_pos env config c w = Some ?w2" unfolding e by auto
      then show ?thesis by (auto simp: new_jobs_def)
    qed
  qed
qed

definition rover_pos :: pos_t where "rover_pos = \<lparr>pos_lat = 48, pos_lon = 2\<rparr>"

definition rover_srv :: "livesources \<Rightarrow> srv" where
  "rover_srv L = (set_sess 7 (new_session\<lparr>last_pos := Some rover_pos, source_virtual := 1\<rparr>) demo_srv)\<lparr>sv_live := L, sv_stack := [demo_table ''A'']\<rparr>"

theorem virtual_base_nearest_witness:
  "\<exists>L w'. livesource_exists L ''A'' \<and> ntripsrv_redo_virtual_pos demo_env demo_config 7 (rover_srv L) = Some w' \<and>
    (\<forall>d m. Job_switch_source d m \<in> set (new_jobs (rover_srv L) w') \<longrightarrow> d = 7 \<and>
      (\<exists>n. base_of (rover_srv L) rover_pos 1000000 m n))"
proof -
  have none: "hash_table_get (lt_hash example_table) ''A'' = None" by (simp add: example_table_def hash_fresh_5)
  from livesource_connected_fresh[OF example_sync_ok(1) none] obtain H where
    H: "hash_inv H" "hash_table_get H = (hash_table_get (lt_hash example_table))(''A'' \<mapsto> direct_source ''A'')" by blast
  let ?L = "example_table\<lparr>lt_hash := H\<rparr>"
  have g: "hash_table_get H = [''A'' \<mapsto> direct_source ''A'']" unfolding H(2) by (simp add: example_table_def hash_fresh_5)
  have a: "\<forall>s \<in> set (sv_stack (rover_srv ?L)). st_inv s" by (simp add: rover_srv_def demo_table_ok)
  have b: "Livesource_Sync.table_ok (sv_live (rover_srv ?L))" using H(1) g by (simp add: rover_srv_def Livesource_Sync.table_ok_def)
  have d: "hash_inv (lt_remote (sv_live (rover_srv ?L)))" by (simp add: rover_srv_def example_table_def hash_fresh_5)
  have e: "\<forall>m l. hash_table_get (lt_hash (sv_live (rover_srv ?L))) m = Some l \<longrightarrow> ls_state l \<noteq> LIVESOURCE_INIT"
    using g by (simp add: rover_srv_def)
  have p: "last_pos (sess (rover_srv ?L) 7) = Some rover_pos" "lookup_dist (sess (rover_srv ?L) 7) = 1000000"
    by (simp_all add: rover_srv_def set_sess_def set_conn_def new_session_def ntrip_new_def)
  from virtual_base_nearest[OF a b d e p(1), of demo_env demo_config] obtain w' where "ntripsrv_redo_virtual_pos demo_env demo_config 7 (rover_srv ?L) = Some w'"
    "\<forall>d m. Job_switch_source d m \<in> set (new_jobs (rover_srv ?L) w') \<longrightarrow> d = 7 \<and> (\<exists>n. base_of (rover_srv ?L) rover_pos 1000000 m n)"
    unfolding p(2) by blast
  moreover have "livesource_exists ?L ''A''" using g by (simp add: livesource_exists_iff)
  ultimately show ?thesis by blast
qed

end
