(* ===== verification/C_Format.thy ===== *)
theory C_Format
  imports Complex_Main Prelude
begin

text \<open>
  Formatting into buffers as the console and the alarms do it: \<open>snprintf\<close> into a buffer of a given
  size, also behind a text that is already there, \<open>strncat\<close>, \<open>memcpy\<close> and reading a string from
  a buffer, and the conversions \<open>%d\<close> and \<open>%.<n>f\<close>. A write or a read outside the buffer is
  \<^const>\<open>None\<close>.
\<close>

subsection \<open>Conversions\<close>

definition c_show_int :: "int \<Rightarrow> cstring" where
  "c_show_int i = (if i < 0 then ''-'' @ c_show_nat (nat (- i)) else c_show_nat (nat i))"

text \<open>\<open>%.<k>f\<close>: the value is rounded to \<open>k\<close> digits, a tie goes to the even digit.\<close>

definition round_even :: "real \<Rightarrow> int" where
  "round_even y = (let f = \<lfloor>y\<rfloor>; r = y - of_int f
     in if r < 1 / 2 \<or> r = 1 / 2 \<and> even f then f else f + 1)"

definition c_show_fixed :: "nat \<Rightarrow> real \<Rightarrow> cstring" where
  "c_show_fixed k x =
     (let n = nat (round_even (\<bar>x\<bar> * 10 ^ k));
          digits = c_show_nat (n mod 10 ^ k);
          frac = replicate (k - length digits) CHR ''0'' @ digits
      in (if x < 0 then ''-'' else '''') @ c_show_nat (n div 10 ^ k) @ (if k = 0 then [] else ''.'' @ frac))"

subsection \<open>Buffers\<close>

text \<open>\<open>snprintf(buf, cap, ...)\<close> for a buffer that holds nothing yet.\<close>

definition c_snprintf :: "nat \<Rightarrow> cstring \<Rightarrow> cstring" where
  "c_snprintf cap s = take (cap - 1) s"

text \<open>
  \<open>snprintf(buf + len, cap - len, ...)\<close> where \<open>buf\<close> holds a text and \<open>len\<close> is the sum of the
  results so far. The difference is unsigned: behind the end of the buffer it is huge.
\<close>

definition snprintf_at :: "nat \<Rightarrow> cstring \<times> nat \<Rightarrow> cstring \<Rightarrow> (cstring \<times> nat) option" where
  "snprintf_at cap b s =
     (let (buf, len) = b in
      if len < cap then Some (take len buf @ take (cap - len - 1) s, len + length s)
      else if len = cap then Some (buf, len + length s)
      else None)"

text \<open>\<open>strncat(buf, s, cap - strlen(buf) - 1)\<close>.\<close>

definition c_strncat :: "nat \<Rightarrow> cstring \<Rightarrow> cstring \<Rightarrow> cstring option" where
  "c_strncat cap buf s =
     (if length buf < cap then Some (buf @ take (cap - length buf - 1) s) else None)"

text \<open>\<open>memcpy(buf + off, data, length data)\<close>.\<close>

definition buf_write :: "'a list \<Rightarrow> nat \<Rightarrow> 'a list \<Rightarrow> 'a list option" where
  "buf_write buf off data =
     (if off + length data \<le> length buf then Some (take off buf @ data @ drop (off + length data) buf) else None)"

text \<open>A string in a buffer ends at the first zero byte.\<close>

definition buf_string :: "cstring \<Rightarrow> cstring option" where
  "buf_string buf = (if CHR 0x00 \<in> set buf then Some (takeWhile (\<lambda>c. c \<noteq> CHR 0x00) buf) else None)"

named_theorems buffer_simps \<open>facts on writes into buffers\<close>

lemma length_c_snprintf [buffer_simps]: "length (c_snprintf cap s) = min (length s) (cap - 1)"
  by (simp add: c_snprintf_def min.commute)

lemma c_snprintf_fits [buffer_simps]: "length s < cap \<Longrightarrow> c_snprintf cap s = s"
  by (simp add: c_snprintf_def)

lemma c_strncat_Some [buffer_simps]:
  "length buf < cap \<Longrightarrow> c_strncat cap buf s = Some (buf @ take (cap - length buf - 1) s)"
  by (simp add: c_strncat_def)

lemma c_strncat_length: "c_strncat cap buf s = Some r \<Longrightarrow> length r < cap"
  by (auto simp: c_strncat_def split: if_splits)

lemma buf_write_Some [buffer_simps]:
  "off + length data \<le> length buf \<Longrightarrow>
    buf_write buf off data = Some (take off buf @ data @ drop (off + length data) buf)"
  by (simp add: buf_write_def)

lemma buf_write_length: "buf_write buf off data = Some buf' \<Longrightarrow> length buf' = length buf"
  by (auto simp: buf_write_def split: if_splits)

lemma buf_string_text:
  "CHR 0x00 \<notin> set s \<Longrightarrow> buf_string (s @ CHR 0x00 # r) = Some s"
  by (induction s) (auto simp: buf_string_def)

end
