(* ===== verification/Alarms.thy ===== *)
theory Alarms
  imports Source_Stack Livesource_Sync Auth C_Format
begin

text \<open>
  The alarms of \<^verbatim>\<open>caster/alarms.c\<close>: the periodic check of the mountpoints of the local sourcetable, the
  state kept per mountpoint, the mail that is handed to the helper program, the outcome of the helper
  and the ring of the last outcomes. The template of the mail, the clock, the text of a JSON document
  and the results of the system calls are in an environment record; allocations succeed where the
  environment does not say otherwise. A memory access outside a buffer, and a loop that does not end,
  is \<^const>\<open>None\<close>.
\<close>

subsection \<open>Configuration and state\<close>

datatype alarm_event_type = ALARM_STATION_OFFLINE | ALARM_STATION_ONLINE | ALARM_LOW_SV | ALARM_POSITION_DRIFT

fun alarm_event_names :: "alarm_event_type \<Rightarrow> cstring" where
  "alarm_event_names ALARM_STATION_OFFLINE = ''station_offline''"
| "alarm_event_names ALARM_STATION_ONLINE = ''station_online''"
| "alarm_event_names ALARM_LOW_SV = ''low_sv_count''"
| "alarm_event_names ALARM_POSITION_DRIFT = ''position_drift''"

datatype config_alarms_tls = CONFIG_ALARMS_TLS_NONE | CONFIG_ALARMS_TLS_STARTTLS | CONFIG_ALARMS_TLS_SMTPS

record config_alarms_smtp =
  smtp_host :: cstring
  smtp_port :: "16 word"
  smtp_tls :: config_alarms_tls
  smtp_auth_file :: "cstring option"

record config_alarms_recipient =
  rcpt_name :: "cstring option"
  rcpt_email :: cstring
  rcpt_alarm_types :: "cstring list option"

record config_alarms_low_sv =
  min_sats :: int
  low_sv_after_minutes :: int

record config_alarms_position_drift =
  lat_mm :: int
  lon_mm :: int
  alt_mm :: int
  drift_after_minutes :: int

record config_alarms_mountpoint =
  am_mountpoint :: cstring
  am_alarm_types :: "cstring list"

text \<open>The threshold of the first two alarms is a structure of one field, \<open>after_minutes\<close>.\<close>

record config_alarms =
  ca_smtp :: config_alarms_smtp
  ca_recipients :: "config_alarms_recipient list"
  ca_mountpoints :: "config_alarms_mountpoint list"
  ca_subject :: cstring
  min_interval_minutes :: int
  email_template :: cstring
  station_offline :: "int option"
  station_online :: "int option"
  low_sv_count :: "config_alarms_low_sv option"
  position_drift :: "config_alarms_position_drift option"

record alarm_mountpoint_state =
  was_live :: int
  offline_since :: timeval
  offline_crossed_threshold :: bool
  online_since :: timeval
  low_sv_since :: timeval
  drift_since :: timeval
  last_sent :: "alarm_event_type \<Rightarrow> timeval"

record alarm_send =
  as_pid :: int
  as_mountpoint :: cstring
  as_type :: alarm_event_type
  as_summary :: cstring
  errbuf :: cstring
  errlen :: nat

record alarm_ring_entry =
  re_time :: timeval
  re_mountpoint :: cstring
  re_type :: alarm_event_type
  re_summary :: cstring
  re_sent :: bool
  re_suppressed :: bool
  re_exitcode :: int
  re_error :: cstring

definition ALARM_RING_SIZE :: nat where "ALARM_RING_SIZE = 200"
definition ERRBUF_SIZE :: nat where "ERRBUF_SIZE = 512"

text \<open>\<open>ruckus_input\<close> is what was written to the standard input of every helper that was started.\<close>

record alarms_state =
  as_mountpoints :: "alarm_mountpoint_state hash_table"
  as_sends :: "alarm_send list"
  as_ring :: "alarm_ring_entry list"
  ring_head :: nat
  ring_count :: nat
  ruckus_input :: "(int \<times> cstring) list"

text \<open>
  The environment of one callback: the file contents by path, the current time as \<open>gettimeofday\<close> and
  as \<open>strftime\<close> give it, \<open>json_object_to_json_string\<close>, the contents of fresh memory, whether the copy of
  the payload can be allocated, and the outcome of starting the helper for an alarm: an error of
  \<open>pipe\<close> or \<open>fork\<close> with its text, or a process with the results of the writes to its input and of the
  allocation of its record.
\<close>

datatype write_result = Wrote nat | Write_eintr | Write_error

datatype spawn_result = Spawn_error cstring | Spawned int "write_result list" bool

record alarm_env =
  env_files :: "cstring \<Rightarrow> cstring option"
  env_config_dir :: cstring
  env_hostname :: cstring
  env_clock :: timeval
  env_local_time :: cstring
  env_json_text :: "json \<Rightarrow> cstring"
  env_junk :: "nat \<Rightarrow> char"
  env_mem :: bool
  env_spawn :: "cstring \<Rightarrow> alarm_event_type \<Rightarrow> spawn_result"

subsection \<open>Texts\<close>

definition timeval_diff_minutes :: "timeval \<Rightarrow> timeval \<Rightarrow> real" where
  "timeval_diff_minutes now since = of_int (fst now - fst since) / 60"

definition constellation_names :: "(cstring \<times> cstring) list" where
  "constellation_names = [(''GPS'', ''GPS''), (''GLONASS'', ''GLO''), (''Galileo'', ''GAL''),
     (''BeiDou'', ''BDS''), (''QZSS'', ''QZS''), (''SBAS'', ''SBAS'')]"

fun summary_parts :: "json_api \<Rightarrow> nat \<Rightarrow> json \<Rightarrow> (cstring \<times> cstring) list \<Rightarrow> cstring \<Rightarrow> cstring option" where
  "summary_parts api cap jconst [] out = Some out"
| "summary_parts api cap jconst ((json_name, abbrev) # ns) out =
     (case obj_get api jconst json_name of
        None \<Rightarrow> summary_parts api cap jconst ns out
      | Some jcount \<Rightarrow> do {
          let part = c_snprintf 24 ((if out \<noteq> [] then ''+'' else []) @ c_show_int (get_int api jcount) @ abbrev);
          out \<leftarrow> c_strncat cap out part;
          summary_parts api cap jconst ns out
        })"

definition build_constellation_summary :: "json_api \<Rightarrow> nat \<Rightarrow> json \<Rightarrow> cstring option" where
  "build_constellation_summary api cap sc =
     (case obj_get api sc ''constellations'' of
        None \<Rightarrow> Some []
      | Some jconst \<Rightarrow> summary_parts api cap jconst constellation_names [])"

definition append_drift_reason :: "nat \<Rightarrow> cstring \<Rightarrow> cstring \<Rightarrow> real \<Rightarrow> int \<Rightarrow> cstring option" where
  "append_drift_reason cap reason axis drift_mm limit_mm =
     c_strncat cap reason
       (c_snprintf 96 ((if reason \<noteq> [] then ''; '' else []) @ axis @ '' '' @ c_show_fixed 0 drift_mm @
          ''mm (limit '' @ c_show_int limit_mm @ ''mm)''))"

definition alarm_rate_ok :: "alarm_mountpoint_state \<Rightarrow> alarm_event_type \<Rightarrow> timeval \<Rightarrow> int \<Rightarrow> bool" where
  "alarm_rate_ok state type now min_interval \<longleftrightarrow>
     (let last_one = last_sent state type
      in fst last_one = 0 \<or> timeval_diff_minutes now last_one \<ge> of_int min_interval)"

definition recipient_wants :: "config_alarms_recipient \<Rightarrow> alarm_event_type \<Rightarrow> bool" where
  "recipient_wants r type =
     (case rcpt_alarm_types r of None \<Rightarrow> True | Some ts \<Rightarrow> alarm_event_names type \<in> set ts)"

fun mountpoint_wants_in :: "config_alarms_mountpoint list \<Rightarrow> cstring \<Rightarrow> alarm_event_type \<Rightarrow> bool" where
  "mountpoint_wants_in [] mountpoint type = True"
| "mountpoint_wants_in (m # ms) mountpoint type =
     (if am_mountpoint m \<noteq> mountpoint then mountpoint_wants_in ms mountpoint type
      else alarm_event_names type \<in> set (am_alarm_types m))"

definition mountpoint_wants :: "config_alarms \<Rightarrow> cstring \<Rightarrow> alarm_event_type \<Rightarrow> bool" where
  "mountpoint_wants alarms = mountpoint_wants_in (ca_mountpoints alarms)"

text \<open>The document for the helper: how to send, from whom, to whom, and the message.\<close>

definition smtp_tls_name :: "config_alarms_tls \<Rightarrow> cstring" where
  "smtp_tls_name t = (if t = CONFIG_ALARMS_TLS_STARTTLS then ''starttls'' else if t = CONFIG_ALARMS_TLS_SMTPS then ''smtps'' else ''none'')"

definition recipient_json :: "config_alarms_recipient \<Rightarrow> json" where
  "recipient_json r = JObject [(''name'', JString (case rcpt_name r of Some n \<Rightarrow> n | None \<Rightarrow> [])), (''email'', JString (rcpt_email r))]"

definition smtp_auth :: "alarm_env \<Rightarrow> config_alarms_smtp \<Rightarrow> auth_entry option option" where
  "smtp_auth env smtp =
     (case smtp_auth_file smtp of
        None \<Rightarrow> Some None
      | Some f \<Rightarrow> do {
          auth_entries \<leftarrow> auth_parse (env_files env (joinpath (env_config_dir env) f));
          Some (case auth_entries of None \<Rightarrow> None | Some es \<Rightarrow> auth_lookup es (smtp_host smtp))
        })"

definition ruckus_document :: "alarm_env \<Rightarrow> config_alarms \<Rightarrow> alarm_event_type \<Rightarrow> cstring \<Rightarrow> cstring \<Rightarrow> json option" where
  "ruckus_document env alarms type subject body = do {
     let smtp = ca_smtp alarms;
     e \<leftarrow> smtp_auth env smtp;
     let jsmtp = [(''host'', JString (smtp_host smtp)), (''port'', JInt (uint (smtp_port smtp))), (''tls'', JString (smtp_tls_name (smtp_tls smtp)))];
     let jauth = (case e of None \<Rightarrow> [] | Some e \<Rightarrow>
           [(''auth'', JObject [(''username'', JString (ae_user e)), (''password'', JString (ae_password e))])]);
     let from_buf = c_snprintf 256 (case e of
             Some e \<Rightarrow> ''Chilopod Alarms <'' @ ae_user e @ ''>''
           | None \<Rightarrow> ''Chilopod Alarms <chilopod@'' @ env_hostname env @ ''>'');
     let jto = map recipient_json (filter (\<lambda>r. recipient_wants r type) (ca_recipients alarms));
     Some (JObject [(''smtp'', JObject (jsmtp @ jauth)), (''from'', JString from_buf), (''to'', JArray jto),
       (''subject'', JString subject), (''body'', JString body), (''html'', JBool True)])
   }"

text \<open>Inner \<^const>\<open>None\<close> is the NULL result.\<close>

definition build_ruckus_payload :: "alarm_env \<Rightarrow> config_alarms \<Rightarrow> alarm_event_type \<Rightarrow> cstring \<Rightarrow> cstring \<Rightarrow> cstring option option" where
  "build_ruckus_payload env alarms type subject body = do {
     j \<leftarrow> ruckus_document env alarms type subject body;
     Some (if env_mem env then Some (env_json_text env j) else None)
   }"

subsection \<open>Replacing the placeholders\<close>

text \<open>\<open>strstr\<close>: the offset of the first occurrence.\<close>

fun c_strstr :: "cstring \<Rightarrow> cstring \<Rightarrow> nat option" where
  "c_strstr [] needle = (if needle = [] then Some 0 else None)"
| "c_strstr (c # cs) needle =
     (if take (length needle) (c # cs) = needle then Some 0 else map_option Suc (c_strstr cs needle))"

partial_function (option) count_matches :: "cstring \<Rightarrow> cstring \<Rightarrow> nat \<Rightarrow> nat option" where
  "count_matches needle p n =
     (case c_strstr p needle of
        None \<Rightarrow> Some n
      | Some i \<Rightarrow> count_matches needle (drop (i + length needle) p) (n + 1))"

partial_function (option) replace_loop :: "cstring \<Rightarrow> cstring \<Rightarrow> cstring \<Rightarrow> nat \<Rightarrow> cstring \<Rightarrow> (cstring \<times> nat \<times> cstring) option" where
  "replace_loop needle replacement out dst src =
     (case c_strstr src needle of
        None \<Rightarrow> Some (out, dst, src)
      | Some i \<Rightarrow> do {
          out \<leftarrow> buf_write out dst (take i src);
          out \<leftarrow> buf_write out (dst + i) replacement;
          replace_loop needle replacement out (dst + i + length replacement) (drop (i + length needle) src)
        })"

text \<open>The size is computed in \<open>size_t\<close>, where the difference of the lengths may wrap around.\<close>

definition str_replace_all :: "(nat \<Rightarrow> char) \<Rightarrow> cstring \<Rightarrow> cstring \<Rightarrow> cstring \<Rightarrow> cstring option" where
  "str_replace_all junk haystack needle replacement = do {
     n \<leftarrow> count_matches needle haystack 0;
     let out_len = (word_of_nat (length haystack) :: 64 word) + word_of_nat n * (word_of_nat (length replacement) - word_of_nat (length needle));
     let out = map junk [0..<unat (out_len + 1)];
     (out, dst, src) \<leftarrow> replace_loop needle replacement out 0 haystack;
     out \<leftarrow> buf_write out dst (src @ [CHR 0x00]);
     buf_string out
   }"

record alarm_type_style =
  style_label :: cstring
  style_accent :: cstring
  style_accent_bg :: cstring

fun alarm_type_styles :: "alarm_event_type \<Rightarrow> alarm_type_style" where
  "alarm_type_styles ALARM_STATION_OFFLINE = \<lparr>style_label = ''Station Offline'', style_accent = ''#ef4444'', style_accent_bg = ''#fef2f2''\<rparr>"
| "alarm_type_styles ALARM_STATION_ONLINE = \<lparr>style_label = ''Back Online'', style_accent = ''#22c55e'', style_accent_bg = ''#f0fdf4''\<rparr>"
| "alarm_type_styles ALARM_LOW_SV = \<lparr>style_label = ''Low Satellite Count'', style_accent = ''#d97706'', style_accent_bg = ''#fffbeb''\<rparr>"
| "alarm_type_styles ALARM_POSITION_DRIFT = \<lparr>style_label = ''Position Drift'', style_accent = ''#a855f7'', style_accent_bg = ''#faf5ff''\<rparr>"

text \<open>An empty file counts as missing; a zero byte ends the text.\<close>

definition read_whole_file :: "alarm_env \<Rightarrow> cstring \<Rightarrow> cstring option" where
  "read_whole_file env filename =
     (case env_files env (joinpath (env_config_dir env) filename) of
        None \<Rightarrow> None
      | Some s \<Rightarrow> if s = [] then None else Some (takeWhile (\<lambda>c. c \<noteq> CHR 0x00) s))"

definition build_html_body :: "alarm_env \<Rightarrow> config_alarms \<Rightarrow> alarm_event_type \<Rightarrow> cstring \<Rightarrow> cstring \<Rightarrow> cstring option option" where
  "build_html_body env alarms type mountpoint summary =
     (case read_whole_file env (email_template alarms) of
        None \<Rightarrow> Some None
      | Some tmpl \<Rightarrow> do {
          let style = alarm_type_styles type;
          s \<leftarrow> str_replace_all (env_junk env) tmpl ''{{ACCENT}}'' (style_accent style);
          s \<leftarrow> str_replace_all (env_junk env) s ''{{ACCENT_BG}}'' (style_accent_bg style);
          s \<leftarrow> str_replace_all (env_junk env) s ''{{MOUNTPOINT}}'' mountpoint;
          s \<leftarrow> str_replace_all (env_junk env) s ''{{TYPE_LABEL}}'' (style_label style);
          s \<leftarrow> str_replace_all (env_junk env) s ''{{SUMMARY}}'' summary;
          s \<leftarrow> str_replace_all (env_junk env) s ''{{TIME}}'' (env_local_time env);
          Some (Some s)
        })"

subsection \<open>Outcomes\<close>

definition alarm_ring_add ::
  "alarm_env \<Rightarrow> cstring \<Rightarrow> alarm_event_type \<Rightarrow> cstring \<Rightarrow> bool \<Rightarrow> bool \<Rightarrow> int \<Rightarrow> cstring \<Rightarrow> alarms_state \<Rightarrow> alarms_state option" where
  "alarm_ring_add env mountpoint type summary sent suppressed exitcode err w = do {
     let e = \<lparr>re_time = env_clock env, re_mountpoint = c_snprintf 64 mountpoint, re_type = type, re_summary = c_snprintf 256 summary,
              re_sent = sent, re_suppressed = suppressed, re_exitcode = exitcode, re_error = c_snprintf 512 err\<rparr>;
     r \<leftarrow> buf_set (as_ring w) (ring_head w) e;
     Some (w\<lparr>as_ring := r, ring_head := (ring_head w + 1) mod ALARM_RING_SIZE,
             ring_count := (if ring_count w < ALARM_RING_SIZE then ring_count w + 1 else ring_count w)\<rparr>)
   }"

text \<open>\<open>date_json\<close> is the text that \<open>timeval_to_json\<close> makes of a time (\<open>iso_date_from_timeval\<close> of \<open>Util_Text\<close>); nothing is assumed of it.\<close>

definition ring_entry_json :: "(timeval \<Rightarrow> cstring) \<Rightarrow> alarm_ring_entry \<Rightarrow> json" where
  "ring_entry_json date_json e = JObject (
     [(''mountpoint'', JString (re_mountpoint e)), (''type'', JString (alarm_event_names (re_type e))),
      (''summary'', JString (re_summary e)), (''sent'', JBool (re_sent e)), (''exit_code'', JInt (re_exitcode e))] @
     (if \<not> re_sent e then [(''suppressed'', JBool (re_suppressed e)), (''error'', JString (re_error e))] else []) @
     [(''time'', JString (date_json (re_time e)))])"

fun ring_walk :: "(timeval \<Rightarrow> cstring) \<Rightarrow> alarm_ring_entry list \<Rightarrow> nat \<Rightarrow> nat \<Rightarrow> json list option" where
  "ring_walk date_json r idx 0 = Some []"
| "ring_walk date_json r idx (Suc n) = do {
     e \<leftarrow> buf_get r idx;
     js \<leftarrow> ring_walk date_json r ((idx + ALARM_RING_SIZE - 1) mod ALARM_RING_SIZE) n;
     Some (ring_entry_json date_json e # js)
   }"

definition alarms_ring_json :: "(timeval \<Rightarrow> cstring) \<Rightarrow> alarms_state option \<Rightarrow> json option" where
  "alarms_ring_json date_json caster_alarms =
     (case caster_alarms of
        None \<Rightarrow> Some (JArray [])
      | Some w \<Rightarrow> map_option JArray
          (ring_walk date_json (as_ring w) ((ring_head w + ALARM_RING_SIZE - 1) mod ALARM_RING_SIZE) (ring_count w)))"

text \<open>The helper's error output; \<open>data\<close> is what one \<open>read\<close> of at most 512 bytes returned.\<close>

definition err_copy :: "alarm_send \<Rightarrow> cstring \<Rightarrow> nat" where
  "err_copy as data = (if errlen as + length data > ERRBUF_SIZE - 1 then ERRBUF_SIZE - 1 - errlen as else length data)"

definition alarm_send_stderr_cb :: "cstring \<Rightarrow> alarm_send \<Rightarrow> alarm_send option" where
  "alarm_send_stderr_cb data as =
     (if data = [] then Some as
      else
        let copy = err_copy as data
        in if copy > 0 then do {
             b \<leftarrow> buf_write (errbuf as) (errlen as) (take copy data);
             b \<leftarrow> buf_set b (errlen as + copy) CHR 0x00;
             Some (as\<lparr>errbuf := b, errlen := errlen as + copy\<rparr>)
           }
           else Some as)"

fun drain_stderr :: "cstring list \<Rightarrow> alarm_send \<Rightarrow> alarm_send option" where
  "drain_stderr [] as = Some as"
| "drain_stderr (data # reads) as =
     (if errlen as < ERRBUF_SIZE - 1 \<and> data \<noteq> [] then do {
        let copy = err_copy as data;
        b \<leftarrow> buf_write (errbuf as) (errlen as) (take copy data);
        drain_stderr reads (as\<lparr>errbuf := b, errlen := errlen as + copy\<rparr>)
      }
      else Some as)"

definition err_text :: "alarm_send \<Rightarrow> cstring option" where
  "err_text as = (if errlen as \<noteq> 0 then buf_string (errbuf as) else Some ''(no output)'')"

fun remove_send :: "int \<Rightarrow> alarm_send list \<Rightarrow> alarm_send list" where
  "remove_send pid [] = []"
| "remove_send pid (a # as) = (if as_pid a = pid then as else a # remove_send pid as)"

text \<open>
  The end of one helper: the exit status is \<^const>\<open>None\<close> if the process was killed by a signal, \<open>reads\<close> are
  the results of the last reads of its error output. The release of the event on that output is not
  modelled; the code does it even if the event could not be made.
\<close>

definition helper_ended :: "alarm_env \<Rightarrow> int option \<Rightarrow> cstring list \<Rightarrow> alarm_send \<Rightarrow> alarms_state \<Rightarrow> alarms_state option" where
  "helper_ended env status reads as w = do {
     as \<leftarrow> drain_stderr reads as;
     let exitcode = (case status of Some c \<Rightarrow> c | None \<Rightarrow> - 1);
     let w = (if exitcode = 0 then
                (case hash_table_get (as_mountpoints w) (as_mountpoint as) of
                   None \<Rightarrow> w
                 | Some state \<Rightarrow> w\<lparr>as_mountpoints := hash_table_set_value (as_mountpoints w) (as_mountpoint as)
                     (state\<lparr>last_sent := (last_sent state)(as_type as := env_clock env)\<rparr>)\<rparr>)
              else w);
     err \<leftarrow> err_text as;
     w \<leftarrow> alarm_ring_add env (as_mountpoint as) (as_type as) (as_summary as) (exitcode = 0) False exitcode err w;
     Some (w\<lparr>as_sends := remove_send (as_pid as) (as_sends w)\<rparr>)
   }"

text \<open>The processes that \<open>waitpid\<close> reports, with their statuses and last outputs.\<close>

fun alarms_sigchld_cb :: "alarm_env \<Rightarrow> (int \<times> int option \<times> cstring list) list \<Rightarrow> alarms_state \<Rightarrow> alarms_state option" where
  "alarms_sigchld_cb env [] w = Some w"
| "alarms_sigchld_cb env ((pid, status, reads) # ps) w = do {
     w \<leftarrow> (case List.find (\<lambda>a. as_pid a = pid) (as_sends w) of
             None \<Rightarrow> Some w
           | Some as \<Rightarrow> helper_ended env status reads as w);
     alarms_sigchld_cb env ps w
   }"

subsection \<open>Sending\<close>

text \<open>
  The loop that writes the payload to the pipe, with the results of the first writes; a later write
  takes all that is left. The result is what the helper gets.
\<close>

fun write_payload :: "cstring \<Rightarrow> nat \<Rightarrow> write_result list \<Rightarrow> cstring" where
  "write_payload payload nwritten [] = payload"
| "write_payload payload nwritten (r # rs) =
     (if nwritten < length payload then
        (case r of
           Wrote n \<Rightarrow> write_payload payload (nwritten + n) rs
         | Write_eintr \<Rightarrow> write_payload payload nwritten rs
         | Write_error \<Rightarrow> take nwritten payload)
      else payload)"

definition spawn_ruckus ::
  "alarm_env \<Rightarrow> cstring \<Rightarrow> alarm_event_type \<Rightarrow> cstring \<Rightarrow> cstring \<Rightarrow> alarms_state \<Rightarrow> alarms_state option" where
  "spawn_ruckus env mountpoint type payload summary w =
     (case env_spawn env mountpoint type of
        Spawn_error err \<Rightarrow> alarm_ring_add env mountpoint type summary False False (- 1) err w
      | Spawned pid writes mem \<Rightarrow>
          let w = w\<lparr>ruckus_input := ruckus_input w @ [(pid, write_payload payload 0 writes)]\<rparr>
          in Some (if \<not> mem then w
                else w\<lparr>as_sends := as_sends w @ [\<lparr>as_pid = pid, as_mountpoint = mountpoint, as_type = type, as_summary = summary,
                         errbuf = replicate ERRBUF_SIZE CHR 0x00, errlen = 0\<rparr>]\<rparr>))"

text \<open>The result is whether the outcome is final.\<close>

definition fire_alarm ::
  "alarm_env \<Rightarrow> config_alarms \<Rightarrow> cstring \<Rightarrow> alarm_event_type \<Rightarrow> cstring \<Rightarrow> cstring \<Rightarrow> alarms_state \<Rightarrow> (bool \<times> alarms_state) option" where
  "fire_alarm env alarms mountpoint type summary body w =
     (let subject = c_snprintf 256 (ca_subject alarms @ '': '' @ mountpoint @ '' - '' @ summary)
      in if \<not> list_ex (\<lambda>r. recipient_wants r type) (ca_recipients alarms) then do {
           w \<leftarrow> alarm_ring_add env mountpoint type summary False True (- 1) ''no recipients subscribed to this alarm type'' w;
           Some (True, w)
         }
         else do {
           html_body \<leftarrow> build_html_body env alarms type mountpoint body;
           payload \<leftarrow> build_ruckus_payload env alarms type subject (case html_body of Some h \<Rightarrow> h | None \<Rightarrow> body);
           w \<leftarrow> (case payload of
                   None \<Rightarrow> alarm_ring_add env mountpoint type summary False False (- 1) ''failed to build email payload'' w
                 | Some p \<Rightarrow> spawn_ruckus env mountpoint type p body w);
           Some (False, w)
         })"

subsection \<open>The check of a mountpoint\<close>

text \<open>\<open>if (fire_alarm(...)) state->last_sent[type] = *now;\<close>\<close>

definition fire_and_note ::
  "alarm_env \<Rightarrow> config_alarms \<Rightarrow> cstring \<Rightarrow> alarm_event_type \<Rightarrow> cstring \<Rightarrow> cstring \<Rightarrow> timeval \<Rightarrow>
     alarms_state \<Rightarrow> alarm_mountpoint_state \<Rightarrow> (alarms_state \<times> alarm_mountpoint_state) option" where
  "fire_and_note env alarms mountpoint type summary body now w state = do {
     (final, w) \<leftarrow> fire_alarm env alarms mountpoint type summary body w;
     Some (w, if final then state\<lparr>last_sent := (last_sent state)(type := now)\<rparr> else state)
   }"

definition clear_sec :: "timeval \<Rightarrow> timeval" where
  "clear_sec t = (0, snd t)"

definition online_body :: "cstring \<Rightarrow> real \<Rightarrow> real \<Rightarrow> cstring" where
  "online_body mountpoint minutes_outage minutes_up =
     c_snprintf 256 (''Station '' @ mountpoint @ '' is back online after an outage of '' @ c_show_fixed 0 minutes_outage @
       '' minutes, and has now been back online for '' @ c_show_fixed 0 minutes_up @ '' minutes.'')"

definition offline_body :: "cstring \<Rightarrow> real \<Rightarrow> cstring" where
  "offline_body mountpoint minutes_down =
     c_snprintf 256 (''Station '' @ mountpoint @ '' has been offline for '' @ c_show_fixed 0 minutes_down @ '' minutes.'')"

definition check_online ::
  "alarm_env \<Rightarrow> config_alarms \<Rightarrow> cstring \<Rightarrow> timeval \<Rightarrow> alarms_state \<Rightarrow> alarm_mountpoint_state \<Rightarrow> (alarms_state \<times> alarm_mountpoint_state) option" where
  "check_online env alarms mountpoint now w state = do {
     (w, state) \<leftarrow>
       (if was_live state \<noteq> 0 then Some (w, state)
        else do {
          let state = (if fst (online_since state) = 0 then state\<lparr>online_since := now\<rparr> else state);
          let outage_was_notable = (station_offline alarms = None \<or> offline_crossed_threshold state);
          let online_enabled = (station_online alarms \<noteq> None \<and> mountpoint_wants alarms mountpoint ALARM_STATION_ONLINE \<and> outage_was_notable);
          let minutes_up = (if online_enabled then timeval_diff_minutes now (online_since state) else 0);
          if \<not> online_enabled \<or> minutes_up \<ge> of_int (the (station_online alarms)) then do {
            (w, state) \<leftarrow>
              (if online_enabled \<and> alarm_rate_ok state ALARM_STATION_ONLINE now (min_interval_minutes alarms) then do {
                 let minutes_outage = (if fst (offline_since state) \<noteq> 0 then timeval_diff_minutes now (offline_since state) else 0);
                 fire_and_note env alarms mountpoint ALARM_STATION_ONLINE ''back online'' (online_body mountpoint minutes_outage minutes_up) now w state
               }
               else Some (w, state));
            Some (w, state\<lparr>was_live := 1\<rparr>)
          }
          else Some (w, state)
        });
     Some (w, state\<lparr>offline_since := clear_sec (offline_since state)\<rparr>)
   }"

definition check_offline ::
  "alarm_env \<Rightarrow> config_alarms \<Rightarrow> cstring \<Rightarrow> timeval \<Rightarrow> alarms_state \<Rightarrow> alarm_mountpoint_state \<Rightarrow> (alarms_state \<times> alarm_mountpoint_state) option" where
  "check_offline env alarms mountpoint now w state =
     (let state = state\<lparr>online_since := clear_sec (online_since state), was_live := 0\<rparr>;
          state = (if fst (offline_since state) = 0 then state\<lparr>offline_since := now, offline_crossed_threshold := False\<rparr> else state);
          minutes_down = timeval_diff_minutes now (offline_since state)
      in if station_offline alarms \<noteq> None \<and> mountpoint_wants alarms mountpoint ALARM_STATION_OFFLINE
           \<and> minutes_down \<ge> of_int (the (station_offline alarms)) then
           let state = state\<lparr>offline_crossed_threshold := True\<rparr>
           in if alarm_rate_ok state ALARM_STATION_OFFLINE now (min_interval_minutes alarms) then
                fire_and_note env alarms mountpoint ALARM_STATION_OFFLINE ''offline'' (offline_body mountpoint minutes_down) now w state
              else Some (w, state)
         else Some (w, state))"

definition check_station ::
  "alarm_env \<Rightarrow> config_alarms \<Rightarrow> cstring \<Rightarrow> timeval \<Rightarrow> bool \<Rightarrow> alarms_state \<Rightarrow> alarm_mountpoint_state \<Rightarrow> (alarms_state \<times> alarm_mountpoint_state) option" where
  "check_station env alarms mountpoint now is_live w state =
     (if is_live then check_online env alarms mountpoint now w state else check_offline env alarms mountpoint now w state)"

text \<open>The statistics of the side car program are a JSON document, read with the functions of \<open>api\<close>.\<close>

definition low_sv_body :: "json_api \<Rightarrow> config_alarms_low_sv \<Rightarrow> cstring \<Rightarrow> json \<Rightarrow> int \<Rightarrow> real \<Rightarrow> cstring option" where
  "low_sv_body api limit mountpoint sc sv minutes = do {
     constellations \<leftarrow> build_constellation_summary api 96 sc;
     let body = c_snprintf 350 (''Station '' @ mountpoint @ '' is tracking only '' @ c_show_int sv @ '' satellites'');
     (body, _) \<leftarrow> (if constellations \<noteq> [] then snprintf_at 350 (body, length body) ('' ('' @ constellations @ '')'') else Some (body, 0));
     (body, _) \<leftarrow> snprintf_at 350 (body, length body) ('' (threshold '' @ c_show_int (min_sats limit) @ '') for '' @ c_show_fixed 0 minutes @ '' minutes.'');
     (body, _) \<leftarrow> (case obj_get api sc ''latency_ms'' of
                 None \<Rightarrow> Some (body, 0)
               | Some jlat \<Rightarrow> snprintf_at 350 (body, length body) ('' Sidecar latency '' @ c_show_int (get_int64 api jlat) @ ''ms.''));
     Some body
   }"

definition check_low_sv ::
  "alarm_env \<Rightarrow> json_api \<Rightarrow> config_alarms \<Rightarrow> cstring \<Rightarrow> timeval \<Rightarrow> json option \<Rightarrow> alarms_state \<Rightarrow> alarm_mountpoint_state \<Rightarrow>
     (alarms_state \<times> alarm_mountpoint_state) option" where
  "check_low_sv env api alarms mountpoint now sidecar_stats w state =
     (case (low_sv_count alarms, sidecar_stats) of
        (Some limit, Some stats) \<Rightarrow>
          if \<not> mountpoint_wants alarms mountpoint ALARM_LOW_SV then Some (w, state)
          else (case obj_get api stats mountpoint of
            None \<Rightarrow> Some (w, state)
          | Some sc \<Rightarrow> (case obj_get api sc ''satellite_count'' of
              None \<Rightarrow> Some (w, state)
            | Some jsv \<Rightarrow>
                let sv = get_int api jsv in
                if sv < min_sats limit then
                  let state = (if fst (low_sv_since state) = 0 then state\<lparr>low_sv_since := now\<rparr> else state);
                      minutes = timeval_diff_minutes now (low_sv_since state)
                  in if minutes \<ge> of_int (low_sv_after_minutes limit) \<and> alarm_rate_ok state ALARM_LOW_SV now (min_interval_minutes alarms) then do {
                       body \<leftarrow> low_sv_body api limit mountpoint sc sv minutes;
                       fire_and_note env alarms mountpoint ALARM_LOW_SV ''low satellite count'' body now w state
                     }
                     else Some (w, state)
                else Some (w, state\<lparr>low_sv_since := clear_sec (low_sv_since state)\<rparr>)))
      | _ \<Rightarrow> Some (w, state))"

text \<open>The three thresholds in the order of the code: whether one is exceeded, and the reasons.\<close>

definition drift_axis :: "bool \<Rightarrow> cstring \<Rightarrow> int \<Rightarrow> real \<Rightarrow> bool \<times> cstring \<Rightarrow> (bool \<times> cstring) option" where
  "drift_axis known axis limit_mm drift_mm tr =
     (let (triggered, reason) = tr in
      if limit_mm > 0 \<and> known \<and> drift_mm > of_int limit_mm
      then map_option (Pair True) (append_drift_reason 256 reason axis drift_mm limit_mm)
      else Some (triggered, reason))"

definition drift_test :: "config_alarms_position_drift \<Rightarrow> rtcm_info option \<Rightarrow> (bool \<times> cstring) option" where
  "drift_test pd cached =
     (case cached of
        None \<Rightarrow> Some (False, [])
      | Some rp \<Rightarrow> do {
          tr \<leftarrow> drift_axis (has_lat_lon_drift rp) ''latitude'' (lat_mm pd) (avg_lat_drift_mm rp) (False, []);
          tr \<leftarrow> drift_axis (has_lat_lon_drift rp) ''longitude'' (lon_mm pd) (avg_lon_drift_mm rp) tr;
          drift_axis (has_baseline_alt rp) ''altitude'' (alt_mm pd) (avg_alt_drift_mm rp) tr
        })"

definition drift_body :: "cstring \<Rightarrow> cstring \<Rightarrow> real \<Rightarrow> rtcm_info option \<Rightarrow> cstring option" where
  "drift_body mountpoint reason minutes cached = do {
     let text = ''Station '' @ mountpoint @ '' position drift: '' @ reason @ ''. Ongoing for '' @ c_show_fixed 0 minutes @ '' minutes.'';
     let (body, len) = (c_snprintf 512 text, length text);
     (body, len) \<leftarrow>
       (case cached of
          None \<Rightarrow> Some (body, len)
        | Some rp \<Rightarrow>
            if has_lat_lon_drift rp \<and> len < 512 then
              snprintf_at 512 (body, len) ('' Received position: lat '' @ c_show_fixed 7 (pos_lat (last_observed_pos rp)) @ '', lon '' @
                c_show_fixed 7 (pos_lon (last_observed_pos rp)) @ ''. Reference position: lat '' @ c_show_fixed 7 (pos_lat (last_declared_pos rp)) @
                '', lon '' @ c_show_fixed 7 (pos_lon (last_declared_pos rp)) @ ''.'')
            else Some (body, len));
     (body, len) \<leftarrow>
       (case cached of
          None \<Rightarrow> Some (body, len)
        | Some rp \<Rightarrow>
            if has_baseline_alt rp \<and> len < 512 then
              snprintf_at 512 (body, len) ('' Received altitude: '' @ c_show_fixed 2 (last_observed_alt rp) @ ''m. Reference altitude: '' @
                c_show_fixed 2 (baseline_alt rp) @ ''m.'')
            else Some (body, len));
     Some body
   }"

definition check_drift ::
  "alarm_env \<Rightarrow> config_alarms \<Rightarrow> cstring \<Rightarrow> timeval \<Rightarrow> rtcm_info hash_table \<Rightarrow> alarms_state \<Rightarrow> alarm_mountpoint_state \<Rightarrow>
     (alarms_state \<times> alarm_mountpoint_state) option" where
  "check_drift env alarms mountpoint now cache w state =
     (case position_drift alarms of
        None \<Rightarrow> Some (w, state)
      | Some pd \<Rightarrow>
          if \<not> mountpoint_wants alarms mountpoint ALARM_POSITION_DRIFT then Some (w, state)
          else do {
            let cached = hash_table_get cache mountpoint;
            (triggered, reason) \<leftarrow> drift_test pd cached;
            if triggered then do {
              let state = (if fst (drift_since state) = 0 then state\<lparr>drift_since := now\<rparr> else state);
              let minutes = timeval_diff_minutes now (drift_since state);
              if minutes \<ge> of_int (drift_after_minutes pd) \<and> alarm_rate_ok state ALARM_POSITION_DRIFT now (min_interval_minutes alarms) then do {
                body \<leftarrow> drift_body mountpoint reason minutes cached;
                fire_and_note env alarms mountpoint ALARM_POSITION_DRIFT ''position drift'' body now w state
              }
              else Some (w, state)
            }
            else Some (w, state\<lparr>drift_since := clear_sec (drift_since state)\<rparr>)
          })"

definition new_mountpoint_state :: alarm_mountpoint_state where
  "new_mountpoint_state = \<lparr>was_live = - 1, offline_since = (0, 0), offline_crossed_threshold = False, online_since = (0, 0),
     low_sv_since = (0, 0), drift_since = (0, 0), last_sent = (\<lambda>_. (0, 0))\<rparr>"

text \<open>The caster as the alarms read it: the live sources, the positions in the RTCM cache, the statistics.\<close>

record alarm_view =
  av_live :: livesources
  av_cache :: "rtcm_info hash_table"
  av_stats :: "json option"

definition alarms_check_state ::
  "alarm_env \<Rightarrow> json_api \<Rightarrow> config_alarms \<Rightarrow> cstring \<Rightarrow> timeval \<Rightarrow> alarm_view \<Rightarrow> alarms_state \<Rightarrow> alarm_mountpoint_state \<Rightarrow>
     (alarms_state \<times> alarm_mountpoint_state) option" where
  "alarms_check_state env api alarms mountpoint now view w state = do {
     (w, state) \<leftarrow> check_station env alarms mountpoint now (livesource_exists (av_live view) mountpoint) w state;
     (w, state) \<leftarrow> check_low_sv env api alarms mountpoint now (av_stats view) w state;
     check_drift env alarms mountpoint now (av_cache view) w state
   }"

definition alarms_check_one ::
  "alarm_env \<Rightarrow> json_api \<Rightarrow> config_alarms \<Rightarrow> cstring \<Rightarrow> timeval \<Rightarrow> alarm_view \<Rightarrow> alarms_state \<Rightarrow> alarms_state option" where
  "alarms_check_one env api alarms mountpoint now view w = do {
     let (state, w) = (case hash_table_get (as_mountpoints w) mountpoint of
            Some state \<Rightarrow> (state, w)
          | None \<Rightarrow> (new_mountpoint_state, w\<lparr>as_mountpoints := snd (hash_table_add True (as_mountpoints w) mountpoint new_mountpoint_state)\<rparr>));
     (w, state) \<leftarrow> alarms_check_state env api alarms mountpoint now view w state;
     Some (w\<lparr>as_mountpoints := hash_table_set_value (as_mountpoints w) mountpoint state\<rparr>)
   }"

fun check_candidates ::
  "alarm_env \<Rightarrow> json_api \<Rightarrow> config_alarms \<Rightarrow> timeval \<Rightarrow> alarm_view \<Rightarrow> cstring list \<Rightarrow> alarms_state \<Rightarrow> alarms_state option" where
  "check_candidates env api alarms now view [] w = Some w"
| "check_candidates env api alarms now view (m # ms) w = do {
     w \<leftarrow> alarms_check_one env api alarms m now view w;
     check_candidates env api alarms now view ms w
   }"

text \<open>The names of the lines of the first local sourcetable that are not virtual.\<close>

definition alarm_candidates :: "sourcetable list \<Rightarrow> cstring list option" where
  "alarm_candidates stack =
     (case List.find is_LOCAL stack of
        None \<Rightarrow> Some []
      | Some s \<Rightarrow> do {
          es \<leftarrow> hash_foreach (key_val s);
          Some (map sl_key (filter (\<lambda>sl. sl_virtual sl = 0) (map elem_value es)))
        })"

definition alarms_tick_cb ::
  "alarm_env \<Rightarrow> json_api \<Rightarrow> config_alarms option \<Rightarrow> timeval \<Rightarrow> alarm_view \<Rightarrow> sourcetable list \<Rightarrow> alarms_state \<Rightarrow> alarms_state option" where
  "alarms_tick_cb env api config now view stack w =
     (case config of
        None \<Rightarrow> Some w
      | Some alarms \<Rightarrow> do {
          candidates \<leftarrow> alarm_candidates stack;
          check_candidates env api alarms now view candidates w
        })"

text \<open>\<open>alarms_init\<close>, with its memory cleared by \<open>calloc\<close>.\<close>

definition cleared_entry :: alarm_ring_entry where
  "cleared_entry = \<lparr>re_time = (0, 0), re_mountpoint = [], re_type = ALARM_STATION_OFFLINE, re_summary = [],
     re_sent = False, re_suppressed = False, re_exitcode = 0, re_error = []\<rparr>"

definition alarms_init :: "alarms_state option" where
  "alarms_init = do {
     h \<leftarrow> hash_table_new True 101;
     Some \<lparr>as_mountpoints = h, as_sends = [], as_ring = replicate ALARM_RING_SIZE cleared_entry, ring_head = 0, ring_count = 0, ruckus_input = []\<rparr>
   }"

end
