(* ===== verification/Alarms_Correct.thy ===== *)
theory Alarms_Correct
  imports Alarms
begin

text \<open>
  The alarms of a station are fired when they are due, the texts of the mails are what the template says,
  and no callback of \<^verbatim>\<open>caster/alarms.c\<close> leaves its buffers. The reachable states are those of the
  relation \<open>alarms_run\<close>, which also keeps the history of the checks of every mountpoint.
\<close>

subsection \<open>Replacing the placeholders\<close>

fun join :: "'a list \<Rightarrow> 'a list list \<Rightarrow> 'a list" where
  "join sep [] = []"
| "join sep [p] = p"
| "join sep (p # q # ps) = p @ sep @ join sep (q # ps)"

definition occurs_at :: "cstring \<Rightarrow> cstring \<Rightarrow> nat \<Rightarrow> bool" where
  "occurs_at s needle i \<longleftrightarrow> i + length needle \<le> length s \<and> take (length needle) (drop i s) = needle"

lemma c_strstr_None: "c_strstr s needle = None \<longleftrightarrow> (\<forall>i. \<not> occurs_at s needle i)"
proof (induction s)
  case Nil
  then show ?case by (auto simp: occurs_at_def)
next
  case (Cons c cs)
  have "occurs_at (c # cs) needle 0 \<longleftrightarrow> take (length needle) (c # cs) = needle"
    by (auto simp: occurs_at_def) (metis length_Cons length_take min.cobounded1 min_def)
  moreover have "occurs_at (c # cs) needle (Suc i) \<longleftrightarrow> occurs_at cs needle i" for i
    by (auto simp: occurs_at_def)
  ultimately have "(\<exists>i. occurs_at (c # cs) needle i) \<longleftrightarrow> take (length needle) (c # cs) = needle \<or> (\<exists>i. occurs_at cs needle i)"
    by (metis not0_implies_Suc)
  with Cons show ?case by auto
qed

lemma c_strstr_Some:
  "c_strstr s needle = Some i \<longleftrightarrow> occurs_at s needle i \<and> (\<forall>j < i. \<not> occurs_at s needle j)"
proof (induction s arbitrary: i)
  case Nil
  then show ?case by (auto simp: occurs_at_def)
next
  case (Cons c cs)
  have 0: "occurs_at (c # cs) needle 0 \<longleftrightarrow> take (length needle) (c # cs) = needle"
    by (auto simp: occurs_at_def) (metis length_Cons length_take min.cobounded1 min_def)
  have S: "occurs_at (c # cs) needle (Suc i) \<longleftrightarrow> occurs_at cs needle i" for i
    by (auto simp: occurs_at_def)
  show ?case
  proof (cases i)
    case 0
    then show ?thesis using \<open>occurs_at (c # cs) needle 0 \<longleftrightarrow> _\<close> by (auto simp: map_option_case split: option.splits)
  next
    case (Suc k)
    then show ?thesis using 0 S Cons[of k] by (auto simp: less_Suc_eq_0_disj)
  qed
qed

lemma occurs_at_split: "occurs_at s needle i \<Longrightarrow> s = take i s @ needle @ drop (i + length needle) s"
  unfolding occurs_at_def by (metis append_take_drop_id drop_drop add.commute)

text \<open>How the matches cut the text into pieces.\<close>

fun cut_into :: "cstring \<Rightarrow> cstring \<Rightarrow> cstring list \<Rightarrow> bool" where
  "cut_into needle s [] = False"
| "cut_into needle s [p] = (s = p \<and> c_strstr s needle = None)"
| "cut_into needle s (p # q # ps) =
     (c_strstr s needle = Some (length p) \<and> s = p @ needle @ drop (length p + length needle) s \<and>
      cut_into needle (drop (length p + length needle) s) (q # ps))"

lemma cut_into_exists: "needle \<noteq> [] \<Longrightarrow> \<exists>ps. cut_into needle s ps"
proof (induction s rule: length_induct)
  case (1 s)
  show ?case
  proof (cases "c_strstr s needle")
    case None
    then have "cut_into needle s [s]" by simp
    then show ?thesis by blast
  next
    case (Some i)
    then have o: "occurs_at s needle i" by (simp add: c_strstr_Some)
    then have "length (drop (i + length needle) s) < length s" using 1(2) by (cases needle) (auto simp: occurs_at_def)
    with 1 obtain ps where ps: "cut_into needle (drop (i + length needle) s) ps" by blast
    then obtain q qs where "ps = q # qs" by (cases ps) auto
    moreover have "length (take i s) = i" using o by (simp add: occurs_at_def)
    ultimately have "cut_into needle s (take i s # ps)" using ps Some occurs_at_split[OF o] by simp
    then show ?thesis by blast
  qed
qed

lemma cut_into_count: "cut_into needle s ps \<Longrightarrow> count_matches needle s n = Some (n + length ps - 1)"
proof (induction needle s ps arbitrary: n rule: cut_into.induct)
  case (3 needle s p q ps)
  then show ?case by (subst count_matches.simps) simp
qed (simp_all add: count_matches.simps)

lemma cut_into_join: "cut_into needle s ps \<Longrightarrow> s = join needle ps"
  by (induction needle s ps rule: cut_into.induct) auto

lemma join_length: "ps \<noteq> [] \<Longrightarrow> length (join sep ps) = length (concat ps) + (length ps - 1) * length sep"
  by (induction sep ps rule: join.induct) auto

definition filled :: "cstring \<Rightarrow> cstring list \<Rightarrow> cstring" where
  "filled repl ps = concat (map (\<lambda>p. p @ repl) (butlast ps))"

lemma filled_simps [simp]: "filled repl [p] = []" "filled repl (p # q # ps) = p @ repl @ filled repl (q # ps)"
  by (simp_all add: filled_def)

lemma join_filled: "ps \<noteq> [] \<Longrightarrow> join repl ps = filled repl ps @ last ps"
  by (induction repl ps rule: join.induct) auto

lemma buf_write_2:
  assumes "dst + length p + length r \<le> length out"
  shows "\<exists>o1 o2. buf_write out dst p = Some o1 \<and> buf_write o1 (dst + length p) r = Some o2 \<and> length o2 = length out \<and>
    take (dst + length p + length r) o2 = take dst out @ p @ r"
  using assms by (simp add: buffer_simps)

lemma replace_loop_cut:
  assumes "cut_into needle s ps" "dst + length (join repl ps) \<le> length out"
  shows "\<exists>out'. replace_loop needle repl out dst s = Some (out', dst + length (filled repl ps), last ps) \<and>
    length out' = length out \<and> take (dst + length (filled repl ps)) out' = take dst out @ filled repl ps"
  using assms
proof (induction needle s ps arbitrary: out dst rule: cut_into.induct)
  case (1 needle s)
  then show ?case by simp
next
  case (2 needle s p)
  then have "c_strstr s needle = None" "p = s" by auto
  then show ?case by (subst replace_loop.simps) simp
next
  case (3 needle s p q ps)
  let ?s = "drop (length p + length needle) s"
  have s: "c_strstr s needle = Some (length p)" "s = p @ needle @ ?s" "cut_into needle ?s (q # ps)" using 3(2) by simp_all
  have t: "take (length p) s = p" by (subst s(2)) simp
  have b: "dst + length p + length repl + length (join repl (q # ps)) \<le> length out" using 3(3) by simp
  then obtain o1 o2 where w: "buf_write out dst p = Some o1" "buf_write o1 (dst + length p) repl = Some o2" "length o2 = length out"
    "take (dst + length p + length repl) o2 = take dst out @ p @ repl" using buf_write_2[of dst p repl out] by auto
  with 3(1)[OF s(3), of "dst + length p + length repl" o2] b obtain out' where
    o: "replace_loop needle repl o2 (dst + length p + length repl) ?s = Some (out', dst + length p + length repl + length (filled repl (q # ps)), last (q # ps))"
      "length out' = length out"
      "take (dst + length p + length repl + length (filled repl (q # ps))) out' = take dst out @ p @ repl @ filled repl (q # ps)" by auto
  have "replace_loop needle repl out dst s = replace_loop needle repl o2 (dst + length p + length repl) ?s"
    by (subst replace_loop.simps) (simp add: s(1) t w)
  with o show ?case by (simp add: add.assoc)
qed

lemma cut_into_leftmost:
  "cut_into needle s ps \<Longrightarrow> needle \<noteq> [] \<Longrightarrow> (\<forall>p \<in> set (butlast ps). \<forall>i < length p. \<not> occurs_at (p @ needle) needle i) \<and>
     (\<forall>i. \<not> occurs_at (last ps) needle i)"
proof (induction needle s ps rule: cut_into.induct)
  case (3 needle s p q ps)
  have "\<not> occurs_at (p @ needle) needle i" if "i < length p" for i
  proof
    assume "occurs_at (p @ needle) needle i"
    moreover have "s = p @ needle @ drop (length p + length needle) s" using 3(2) by simp
    ultimately have "occurs_at s needle i" unfolding occurs_at_def
      by (metis (no_types, opaque_lifting) append.assoc drop_append length_append take_append trans_le_add1 le_add_diff_inverse2 length_drop add_le_imp_le_diff diff_is_0_eq' take0 append_Nil2 add.commute)
    with 3(2) that show False by (auto simp: c_strstr_Some)
  qed
  with 3 show ?case by auto
qed (simp_all add: c_strstr_None)

lemma replaced_size:
  assumes "ps \<noteq> []" "length (join repl ps) < 2 ^ 64 - 1"
  shows "unat ((word_of_nat (length (join needle ps)) :: 64 word) + word_of_nat (length ps - 1) * (word_of_nat (length repl) - word_of_nat (length needle)) + 1)
    = length (join repl ps) + 1"
proof -
  define k where "k = length ps - 1"
  have "(word_of_nat (length (join needle ps)) :: 64 word) + word_of_nat (length ps - 1) * (word_of_nat (length repl) - word_of_nat (length needle)) + 1
    = word_of_nat (length (join repl ps) + 1)"
    unfolding join_length[OF assms(1)] k_def[symmetric] by (simp add: algebra_simps)
  then show ?thesis using assms(2) by (simp only: unat_of_nat) simp
qed

lemma str_replace_all_pieces:
  assumes "needle \<noteq> []" "length haystack * (length replacement + 1) < 2 ^ 64 - 1"
  shows "\<exists>ps. cut_into needle haystack ps \<and> length (join replacement ps) \<le> length haystack * (length replacement + 1) \<and>
    str_replace_all junk haystack needle replacement = Some (takeWhile (\<lambda>c. c \<noteq> CHR 0x00) (join replacement ps))"
proof -
  obtain ps where c: "cut_into needle haystack ps" using cut_into_exists[OF assms(1)] by blast
  then have n: "ps \<noteq> []" by auto
  note h = cut_into_join[OF c]
  have "length ps - 1 \<le> (length ps - 1) * length needle" using assms(1) by (cases needle) simp_all
  moreover have "length haystack = length (concat ps) + (length ps - 1) * length needle" unfolding h by (rule join_length[OF n])
  ultimately have m: "length ps - 1 \<le> length haystack" "length (concat ps) \<le> length haystack" by linarith+
  have "(length ps - 1) * length replacement \<le> length haystack * length replacement" using m(1) by (rule mult_le_mono1)
  then have sz: "length (join replacement ps) \<le> length haystack * (length replacement + 1)"
    unfolding join_length[OF n] using m(2) unfolding distrib_left by linarith
  let ?r = "filled replacement ps"
  let ?out = "map junk [0..<length (join replacement ps) + 1]"
  have "0 + length (join replacement ps) \<le> length ?out" by simp
  from replace_loop_cut[OF c this] obtain out' where
    o: "replace_loop needle replacement ?out 0 haystack = Some (out', length ?r, last ps)" "length out' = length ?out" "take (length ?r) out' = ?r"
    by auto
  have j: "join replacement ps = ?r @ last ps" by (rule join_filled[OF n])
  then have l: "length out' = length ?r + length (last ps @ [CHR 0x00])" using o(2) by simp
  have "buf_write out' (length ?r) (last ps @ [CHR 0x00]) = Some (join replacement ps @ [CHR 0x00])"
    using l o(3) j by (simp add: buffer_simps)
  moreover have "count_matches needle haystack 0 = Some (length ps - 1)" using cut_into_count[OF c, of 0] by simp
  moreover have "buf_string (join replacement ps @ [CHR 0x00]) = Some (takeWhile (\<lambda>c. c \<noteq> CHR 0x00) (join replacement ps))"
    by (cases "CHR 0x00 \<in> set (join replacement ps)") (auto simp: buf_string_def takeWhile_append takeWhile_eq_all_conv[THEN iffD2])
  ultimately have "str_replace_all junk haystack needle replacement = Some (takeWhile (\<lambda>c. c \<noteq> CHR 0x00) (join replacement ps))"
    unfolding str_replace_all_def using o(1) replaced_size[OF n, of replacement needle] sz assms(2) h by (simp add: Let_def)
  with c sz show ?thesis by blast
qed

text \<open>
  \<open>str_replace_all\<close> replaces the occurrences of a placeholder from left to right: the text is cut into
  pieces at the placeholders, the first occurrence each time, and the result has the same pieces with the
  replacement between them. The size that is allocated is the size of the result, although the difference
  of the lengths may be negative in unsigned arithmetic, so that nothing is written outside the buffer.
\<close>
lemma str_replace_all_correct:
  assumes "needle \<noteq> []" "CHR 0x00 \<notin> set haystack" "CHR 0x00 \<notin> set replacement"
    "length haystack * (length replacement + 1) < 2 ^ 64 - 1"
  shows "\<exists>ps. haystack = join needle ps \<and> str_replace_all junk haystack needle replacement = Some (join replacement ps) \<and>
    (\<forall>p \<in> set (butlast ps). \<forall>i < length p. \<not> occurs_at (p @ needle) needle i) \<and> (\<forall>i. \<not> occurs_at (last ps) needle i)"
proof -
  obtain ps where c: "cut_into needle haystack ps"
    and r: "str_replace_all junk haystack needle replacement = Some (takeWhile (\<lambda>c. c \<noteq> CHR 0x00) (join replacement ps))"
    using str_replace_all_pieces[OF assms(1,4)] by blast
  have n: "ps \<noteq> []" using c by auto
  have "set (concat ps) \<subseteq> set haystack" unfolding cut_into_join[OF c] using n by (induction needle ps rule: join.induct) auto
  moreover have "set (join replacement ps) \<subseteq> set (concat ps) \<union> set replacement" by (induction replacement ps rule: join.induct) auto
  ultimately have "CHR 0x00 \<notin> set (join replacement ps)" using assms(2,3) by blast
  then have "takeWhile (\<lambda>c. c \<noteq> CHR 0x00) (join replacement ps) = join replacement ps" by (auto simp: takeWhile_eq_all_conv)
  with r cut_into_join[OF c] cut_into_leftmost[OF c assms(1)] show ?thesis by auto
qed

subsection \<open>The ring of outcomes\<close>

definition alarm_ring_ok :: "alarms_state \<Rightarrow> bool" where
  "alarm_ring_ok w \<longleftrightarrow> length (as_ring w) = ALARM_RING_SIZE \<and> ring_head w < ALARM_RING_SIZE \<and> ring_count w \<le> ALARM_RING_SIZE"

text \<open>The outcomes in the ring, from the oldest to the newest.\<close>

definition outcomes :: "alarms_state \<Rightarrow> alarm_ring_entry list" where
  "outcomes w = ring_list (as_ring w) (ring_head w) (ring_count w)"

definition ring_outcome :: "alarm_env \<Rightarrow> cstring \<Rightarrow> alarm_event_type \<Rightarrow> cstring \<Rightarrow> bool \<Rightarrow> bool \<Rightarrow> int \<Rightarrow> cstring \<Rightarrow> alarm_ring_entry" where
  "ring_outcome env mountpoint type summary sent suppressed exitcode err =
     \<lparr>re_time = env_clock env, re_mountpoint = take 63 mountpoint, re_type = type, re_summary = take 255 summary,
      re_sent = sent, re_suppressed = suppressed, re_exitcode = exitcode, re_error = take 511 err\<rparr>"

lemma ALARM_RING_SIZE_pos [simp]: "0 < ALARM_RING_SIZE"
  by (simp add: ALARM_RING_SIZE_def)

lemma alarm_ring_add_ok:
  assumes "alarm_ring_ok w"
  shows "\<exists>r h c. alarm_ring_add env m type summary sent suppressed exitcode err w = Some (w\<lparr>as_ring := r, ring_head := h, ring_count := c\<rparr>) \<and>
    alarm_ring_ok (w\<lparr>as_ring := r, ring_head := h, ring_count := c\<rparr>) \<and>
    outcomes (w\<lparr>as_ring := r, ring_head := h, ring_count := c\<rparr>) =
      last_n ALARM_RING_SIZE (outcomes w @ [ring_outcome env m type summary sent suppressed exitcode err])"
proof -
  note b = assms[unfolded alarm_ring_ok_def]
  have "alarm_ring_add env m type summary sent suppressed exitcode err w = Some (w\<lparr>
     as_ring := (as_ring w)[ring_head w := ring_outcome env m type summary sent suppressed exitcode err],
     ring_head := (ring_head w + 1) mod ALARM_RING_SIZE, ring_count := (if ring_count w < ALARM_RING_SIZE then ring_count w + 1 else ring_count w)\<rparr>)"
    using b by (simp add: alarm_ring_add_def ring_outcome_def c_snprintf_def)
  moreover have "alarm_ring_ok (w\<lparr>as_ring := (as_ring w)[ring_head w := ring_outcome env m type summary sent suppressed exitcode err],
     ring_head := (ring_head w + 1) mod ALARM_RING_SIZE, ring_count := (if ring_count w < ALARM_RING_SIZE then ring_count w + 1 else ring_count w)\<rparr>)"
    using b by (simp add: alarm_ring_ok_def)
  ultimately show ?thesis
    using ring_push[of "as_ring w" ALARM_RING_SIZE "ring_count w" "ring_head w" "ring_outcome env m type summary sent suppressed exitcode err"] b
    by (fastforce simp: outcomes_def)
qed

lemma ring_back:
  assumes "idx < N" "Suc i \<le> N"
  shows "((idx + N - 1) mod N + N - i) mod N = (idx + N - Suc i) mod (N :: nat)"
proof -
  have "((idx + N - 1) mod N + N - i) mod N = ((idx + N - 1) mod N + (N - i)) mod N" using assms(2) by simp
  also have "\<dots> = (idx + N - 1 + (N - i)) mod N" by (rule mod_add_left_eq)
  also have "idx + N - 1 + (N - i) = (idx + N - Suc i) + N" using assms by linarith
  finally show ?thesis by simp
qed

lemma ring_walk_eq:
  assumes "length r = ALARM_RING_SIZE" "idx < ALARM_RING_SIZE" "n \<le> ALARM_RING_SIZE"
  shows "ring_walk d r idx n = Some (map (\<lambda>i. ring_entry_json d (r ! ((idx + ALARM_RING_SIZE - i) mod ALARM_RING_SIZE))) [0..<n])"
  using assms(2,3)
proof (induction n arbitrary: idx)
  case (Suc n)
  have "ring_walk d r ((idx + ALARM_RING_SIZE - 1) mod ALARM_RING_SIZE) n =
      Some (map (\<lambda>i. ring_entry_json d (r ! (((idx + ALARM_RING_SIZE - 1) mod ALARM_RING_SIZE + ALARM_RING_SIZE - i) mod ALARM_RING_SIZE))) [0..<n])"
    using Suc by simp
  also have "map (\<lambda>i. ring_entry_json d (r ! (((idx + ALARM_RING_SIZE - 1) mod ALARM_RING_SIZE + ALARM_RING_SIZE - i) mod ALARM_RING_SIZE))) [0..<n] =
      map (\<lambda>i. ring_entry_json d (r ! ((idx + ALARM_RING_SIZE - Suc i) mod ALARM_RING_SIZE))) [0..<n]"
    using Suc.prems by (intro map_cong refl arg_cong[of _ _ "\<lambda>j. ring_entry_json d (r ! j)"] ring_back) simp_all
  also have "\<dots> = map (\<lambda>i. ring_entry_json d (r ! ((idx + ALARM_RING_SIZE - i) mod ALARM_RING_SIZE))) (map Suc [0..<n])" by simp
  finally show ?case using Suc.prems assms(1) by (simp add: upt_conv_Cons map_Suc_upt[symmetric] del: upt_Suc)
qed simp

lemma alarms_ring_json_eq:
  assumes "alarm_ring_ok w"
  shows "alarms_ring_json d (Some w) = Some (JArray (map (ring_entry_json d) (rev (outcomes w))))"
proof -
  note b = assms[unfolded alarm_ring_ok_def]
  let ?h = "(ring_head w + ALARM_RING_SIZE - 1) mod ALARM_RING_SIZE"
  have "rev (outcomes w) = map (\<lambda>i. as_ring w ! ((?h + ALARM_RING_SIZE - i) mod ALARM_RING_SIZE)) [0..<ring_count w]"
  proof (rule nth_equalityI)
    show "length (rev (outcomes w)) = length (map (\<lambda>i. as_ring w ! ((?h + ALARM_RING_SIZE - i) mod ALARM_RING_SIZE)) [0..<ring_count w])"
      by (simp add: outcomes_def ring_list_def)
  next
    fix i assume "i < length (rev (outcomes w))"
    then have i: "i < ring_count w" by (simp add: outcomes_def ring_list_def)
    then have "rev (outcomes w) ! i = as_ring w ! ((ring_head w + ALARM_RING_SIZE - ring_count w + (ring_count w - Suc i)) mod ALARM_RING_SIZE)"
      using b by (simp add: outcomes_def ring_list_def rev_nth)
    also have "ring_head w + ALARM_RING_SIZE - ring_count w + (ring_count w - Suc i) = ring_head w + ALARM_RING_SIZE - Suc i" using i b by linarith
    also have "(ring_head w + ALARM_RING_SIZE - Suc i) mod ALARM_RING_SIZE = (?h + ALARM_RING_SIZE - i) mod ALARM_RING_SIZE"
      using b i by (intro ring_back[symmetric]) simp_all
    finally show "rev (outcomes w) ! i = map (\<lambda>i. as_ring w ! ((?h + ALARM_RING_SIZE - i) mod ALARM_RING_SIZE)) [0..<ring_count w] ! i" using i by simp
  qed
  then show ?thesis using b by (simp add: alarms_ring_json_def ring_walk_eq)
qed

subsection \<open>The output of the helper\<close>

text \<open>The buffer holds the first 511 bytes of the error output \<open>t\<close>, and zeros.\<close>

definition send_holds :: "alarm_send \<Rightarrow> cstring \<Rightarrow> bool" where
  "send_holds a t \<longleftrightarrow> errlen a = length (take 511 t) \<and> errbuf a = take 511 t @ replicate (512 - length (take 511 t)) CHR 0x00"

lemma err_write:
  assumes "send_holds a t" "errlen a < 511"
  shows "buf_write (errbuf a) (errlen a) (take (err_copy a data) data) = Some (take 511 (t @ data) @ replicate (512 - length (take 511 (t @ data))) CHR 0x00)"
    "errlen a + err_copy a data = length (take 511 (t @ data))"
proof -
  have t: "errlen a = length t" "take 511 t = t" "length t < 511" using assms by (auto simp: send_holds_def)
  have e: "errbuf a = t @ replicate (512 - length t) CHR 0x00" using assms(1) t(2) by (simp add: send_holds_def)
  have c: "take (err_copy a data) data = take (511 - length t) data" "err_copy a data = min (length data) (511 - length t)"
    using t by (auto simp: err_copy_def ERRBUF_SIZE_def)
  show "buf_write (errbuf a) (errlen a) (take (err_copy a data) data) = Some (take 511 (t @ data) @ replicate (512 - length (take 511 (t @ data))) CHR 0x00)"
    unfolding c(1) e t(1) using t(3) by (auto simp: buf_write_def min_def)
  show "errlen a + err_copy a data = length (take 511 (t @ data))" unfolding c(2) t(1) using t(3) by (simp add: min_def)
qed

lemma stderr_cb_holds:
  assumes "send_holds a t"
  shows "\<exists>b n. alarm_send_stderr_cb data a = Some (a\<lparr>errbuf := b, errlen := n\<rparr>) \<and> send_holds (a\<lparr>errbuf := b, errlen := n\<rparr>) (t @ data)"
proof (cases "data \<noteq> [] \<and> errlen a < 511")
  case True
  then have "0 < err_copy a data" by (cases data) (auto simp: err_copy_def ERRBUF_SIZE_def)
  moreover have "(take 511 (t @ data) @ replicate (512 - length (take 511 (t @ data))) CHR 0x00)[length (take 511 (t @ data)) := CHR 0x00] =
      take 511 (t @ data) @ replicate (512 - length (take 511 (t @ data))) CHR 0x00"
    by (auto simp: list_update_append min_def nth_list_update intro!: nth_equalityI)
  ultimately show ?thesis using True err_write[OF assms, of data]
    by (intro exI[of _ "take 511 (t @ data) @ replicate (512 - length (take 511 (t @ data))) CHR 0x00"] exI[of _ "length (take 511 (t @ data))"])
       (simp add: alarm_send_stderr_cb_def send_holds_def)
next
  case False
  then have "data = [] \<or> errlen a = 511" using assms by (auto simp: send_holds_def min_def split: if_splits)
  then have "alarm_send_stderr_cb data a = Some (a\<lparr>errbuf := errbuf a, errlen := errlen a\<rparr>)"
    by (auto simp: alarm_send_stderr_cb_def err_copy_def ERRBUF_SIZE_def)
  moreover have "take 511 (t @ data) = take 511 t" using False assms by (auto simp: send_holds_def)
  ultimately show ?thesis using assms by (auto simp: send_holds_def)
qed

lemma drain_holds:
  assumes "send_holds a t" "\<forall>d \<in> set reads. d \<noteq> []"
  shows "\<exists>b n. drain_stderr reads a = Some (a\<lparr>errbuf := b, errlen := n\<rparr>) \<and> send_holds (a\<lparr>errbuf := b, errlen := n\<rparr>) (t @ concat reads)"
  using assms
proof (induction reads arbitrary: a t)
  case Nil
  then show ?case by (intro exI[of _ "errbuf a"] exI[of _ "errlen a"]) simp
next
  case (Cons d reads)
  show ?case
  proof (cases "errlen a < 511")
    case True
    let ?b = "take 511 (t @ d) @ replicate (512 - length (take 511 (t @ d))) CHR 0x00"
    let ?a = "a\<lparr>errbuf := ?b, errlen := length (take 511 (t @ d))\<rparr>"
    have "drain_stderr (d # reads) a = drain_stderr reads ?a"
      using True Cons.prems err_write[OF Cons.prems(1) True, of d] by (simp add: ERRBUF_SIZE_def Let_def)
    moreover have "send_holds ?a (t @ d)" by (simp add: send_holds_def)
    ultimately show ?thesis using Cons.IH[of ?a "t @ d"] Cons.prems(2) by auto
  next
    case False
    then have "length t \<ge> 511" using Cons.prems(1) by (auto simp: send_holds_def)
    then show ?thesis using False Cons.prems(1)
      by (intro exI[of _ "errbuf a"] exI[of _ "errlen a"]) (simp add: ERRBUF_SIZE_def send_holds_def)
  qed
qed

lemma err_text_holds:
  assumes "send_holds a t"
  shows "err_text a = Some (if t = [] then ''(no output)'' else takeWhile (\<lambda>c. c \<noteq> CHR 0x00) (take 511 t))"
proof -
  have z: "replicate (512 - length (take 511 t)) CHR 0x00 = CHR 0x00 # replicate (511 - length (take 511 t)) CHR 0x00"
    by (simp add: Suc_diff_le replicate_Suc[symmetric] del: replicate_Suc)
  have "takeWhile (\<lambda>c. c \<noteq> CHR 0x00) (take 511 t @ CHR 0x00 # r) = takeWhile (\<lambda>c. c \<noteq> CHR 0x00) (take 511 t)" for r
    by (cases "CHR 0x00 \<in> set (take 511 t)") (auto simp: takeWhile_append takeWhile_eq_all_conv[THEN iffD2])
  then have "buf_string (errbuf a) = Some (takeWhile (\<lambda>c. c \<noteq> CHR 0x00) (take 511 t))"
    using assms unfolding send_holds_def z by (simp add: buf_string_def)
  then show ?thesis using assms by (simp add: err_text_def send_holds_def)
qed

subsection \<open>No access outside the buffers\<close>

text \<open>The sizes that keep the arithmetic of the replacement away from the limit of \<open>size_t\<close>.\<close>

definition mail_ok :: "alarm_env \<Rightarrow> config_alarms \<Rightarrow> cstring \<Rightarrow> bool" where
  "mail_ok env alarms mountpoint \<longleftrightarrow> length mountpoint \<le> 255 \<and> length (env_local_time env) \<le> 63 \<and>
     (\<forall>s. read_whole_file env (email_template alarms) = Some s \<longrightarrow> length s \<le> 2 ^ 20)"

definition alarms_ok :: "alarms_state \<Rightarrow> bool" where
  "alarms_ok w \<longleftrightarrow> hash_inv (as_mountpoints w) \<and> alarm_ring_ok w \<and> (\<forall>a \<in> set (as_sends w). \<exists>t. send_holds a t)"

lemma str_replace_bound:
  assumes "needle \<noteq> []" "length s \<le> n" "length repl < k" "n * k < 2 ^ 64 - 1"
  shows "\<exists>r. str_replace_all junk s needle repl = Some r \<and> length r \<le> n * k"
proof -
  have "length s * (length repl + 1) \<le> n * k" using assms(2,3) by (intro mult_le_mono) simp_all
  then obtain ps where "cut_into needle s ps" "str_replace_all junk s needle repl = Some (takeWhile (\<lambda>c. c \<noteq> CHR 0x00) (join repl ps))"
    "length (join repl ps) \<le> length s * (length repl + 1)"
    using str_replace_all_pieces[OF assms(1), of s repl junk] assms(4) by (metis order.strict_trans1)
  then show ?thesis using \<open>length s * (length repl + 1) \<le> n * k\<close> length_takeWhile_le[of "\<lambda>c. c \<noteq> CHR 0x00" "join repl ps"]
    by (intro exI conjI) (assumption, linarith)
qed

lemma style_lengths:
  "length (style_accent (alarm_type_styles t)) < 8" "length (style_accent_bg (alarm_type_styles t)) < 8" "length (style_label (alarm_type_styles t)) < 32"
  by (cases t; simp)+

lemma build_html_total:
  assumes "mail_ok env alarms m" "length body \<le> 511"
  shows "build_html_body env alarms type m body \<noteq> None"
proof (cases "read_whole_file env (email_template alarms)")
  case None
  then show ?thesis by (simp add: build_html_body_def)
next
  case (Some t)
  let ?style = "alarm_type_styles type" and ?J = "env_junk env"
  have b: "length t \<le> 2 ^ 20" "length m < 256" "length (env_local_time env) < 64" "length body < 512"
    using assms Some by (auto simp: mail_ok_def)
  obtain s1 where s1: "str_replace_all ?J t ''{{ACCENT}}'' (style_accent ?style) = Some s1" "length s1 \<le> 2 ^ 20 * 8"
    using str_replace_bound[OF _ b(1) style_lengths(1)[of type], of "''{{ACCENT}}''"] by auto
  obtain s2 where s2: "str_replace_all ?J s1 ''{{ACCENT_BG}}'' (style_accent_bg ?style) = Some s2" "length s2 \<le> 2 ^ 20 * 8 * 8"
    using str_replace_bound[OF _ s1(2) style_lengths(2)[of type], of "''{{ACCENT_BG}}''"] by auto
  obtain s3 where s3: "str_replace_all ?J s2 ''{{MOUNTPOINT}}'' m = Some s3" "length s3 \<le> 2 ^ 20 * 8 * 8 * 256"
    using str_replace_bound[OF _ s2(2) b(2), of "''{{MOUNTPOINT}}''"] by auto
  obtain s4 where s4: "str_replace_all ?J s3 ''{{TYPE_LABEL}}'' (style_label ?style) = Some s4" "length s4 \<le> 2 ^ 20 * 8 * 8 * 256 * 32"
    using str_replace_bound[OF _ s3(2) style_lengths(3)[of type], of "''{{TYPE_LABEL}}''"] by auto
  obtain s5 where s5: "str_replace_all ?J s4 ''{{SUMMARY}}'' body = Some s5" "length s5 \<le> 2 ^ 20 * 8 * 8 * 256 * 32 * 512"
    using str_replace_bound[OF _ s4(2) b(4), of "''{{SUMMARY}}''"] by auto
  obtain s6 where s6: "str_replace_all ?J s5 ''{{TIME}}'' (env_local_time env) = Some s6"
    using str_replace_bound[OF _ s5(2) b(3), of "''{{TIME}}''"] by auto
  show ?thesis using Some s1(1) s2(1) s3(1) s4(1) s5(1) s6 by (simp add: build_html_body_def)
qed

lemma payload_total: "build_ruckus_payload env alarms type subject body \<noteq> None"
proof -
  have "smtp_auth env (ca_smtp alarms) \<noteq> None"
  proof (cases "smtp_auth_file (ca_smtp alarms)")
    case (Some f)
    obtain y where "auth_parse (env_files env (joinpath (env_config_dir env) f)) = Some y" using auth_parse_total by blast
    with Some show ?thesis by (simp add: smtp_auth_def)
  qed (simp add: smtp_auth_def)
  then show ?thesis by (auto simp: build_ruckus_payload_def ruckus_document_def Let_def)
qed

lemma new_send_holds: "send_holds \<lparr>as_pid = pid, as_mountpoint = m, as_type = type, as_summary = s, errbuf = replicate ERRBUF_SIZE CHR 0x00, errlen = 0\<rparr> []"
  by (simp add: send_holds_def ERRBUF_SIZE_def)

lemma ring_add_ok:
  assumes "alarms_ok w"
  shows "\<exists>w'. alarm_ring_add env m type summary sent suppressed exitcode err w = Some w' \<and> alarms_ok w' \<and> as_mountpoints w' = as_mountpoints w \<and> as_sends w' = as_sends w"
  using alarm_ring_add_ok[of w env m type summary sent suppressed exitcode err] assms by (auto simp: alarms_ok_def)

lemma spawn_ok:
  assumes "alarms_ok w"
  shows "\<exists>w'. spawn_ruckus env m type payload summary w = Some w' \<and> alarms_ok w' \<and> as_mountpoints w' = as_mountpoints w"
proof (cases "env_spawn env m type")
  case (Spawn_error err)
  then show ?thesis using ring_add_ok[OF assms, of env m type summary False False "- 1" err] by (auto simp: spawn_ruckus_def)
next
  case (Spawned pid ws mem)
  then show ?thesis using assms new_send_holds[of pid m type summary] by (auto simp: spawn_ruckus_def alarms_ok_def alarm_ring_ok_def Let_def)
qed

lemma fire_alarm_ok:
  assumes "alarms_ok w" "mail_ok env alarms m" "length body \<le> 511"
  shows "\<exists>final w'. fire_alarm env alarms m type summary body w = Some (final, w') \<and> alarms_ok w' \<and> as_mountpoints w' = as_mountpoints w"
proof (cases "list_ex (\<lambda>r. recipient_wants r type) (ca_recipients alarms)")
  case False
  then show ?thesis using ring_add_ok[OF assms(1), of env m type summary False True "- 1" "''no recipients subscribed to this alarm type''"]
    by (auto simp: fire_alarm_def)
next
  case True
  obtain h where h: "build_html_body env alarms type m body = Some h" using build_html_total[OF assms(2,3)] by blast
  let ?subject = "c_snprintf 256 (ca_subject alarms @ '': '' @ m @ '' - '' @ summary)"
  obtain p where p: "build_ruckus_payload env alarms type ?subject (case h of Some h \<Rightarrow> h | None \<Rightarrow> body) = Some p" using payload_total by blast
  obtain w' where "(case p of None \<Rightarrow> alarm_ring_add env m type summary False False (- 1) ''failed to build email payload'' w
      | Some p \<Rightarrow> spawn_ruckus env m type p body w) = Some w'" "alarms_ok w'" "as_mountpoints w' = as_mountpoints w"
    using ring_add_ok[OF assms(1), of env m type summary False False "- 1" "''failed to build email payload''"]
      spawn_ok[OF assms(1), of env m type "the p" body] by (cases p) auto
  then show ?thesis using True h p by (intro exI[of _ False] exI[of _ w']) (simp add: fire_alarm_def Let_def)
qed

text \<open>The check returns, keeps the invariant and the table of the mountpoints.\<close>

definition checked :: "alarms_state \<Rightarrow> (alarms_state \<times> alarm_mountpoint_state) option \<Rightarrow> (alarm_mountpoint_state \<Rightarrow> bool) \<Rightarrow> bool" where
  "checked w r P \<longleftrightarrow> returns r (\<lambda>(w', s'). alarms_ok w' \<and> as_mountpoints w' = as_mountpoints w \<and> P s')"

lemma checked_Some [simp]: "checked w (Some (w', s)) P \<longleftrightarrow> alarms_ok w' \<and> as_mountpoints w' = as_mountpoints w \<and> P s"
  by (simp add: checked_def)

lemma checked_bind:
  assumes "checked w r P" "\<And>w' s'. alarms_ok w' \<Longrightarrow> as_mountpoints w' = as_mountpoints w \<Longrightarrow> P s' \<Longrightarrow> checked w (f (w', s')) Q"
  shows "checked w (r \<bind> f) Q"
  using assms unfolding checked_def by (auto intro!: returns_bind)

lemma fire_and_note_ok:
  assumes "alarms_ok w" "mail_ok env alarms m" "length body \<le> 511" "\<And>f. P (s\<lparr>last_sent := f\<rparr>)"
  shows "checked w (fire_and_note env alarms m type summary body now w s) P"
proof -
  obtain final w' where f: "fire_alarm env alarms m type summary body w = Some (final, w')" "alarms_ok w'" "as_mountpoints w' = as_mountpoints w"
    using fire_alarm_ok[OF assms(1-3)] by blast
  have "P s" using assms(4)[of "last_sent s"] by simp
  with f assms(4) show ?thesis by (simp add: fire_and_note_def)
qed

lemma body_lengths: "length (offline_body m x) \<le> 511" "length (online_body m x y) \<le> 511"
  by (simp_all add: offline_body_def online_body_def c_snprintf_def)

lemma check_station_ok:
  assumes "alarms_ok w" "mail_ok env alarms m"
  shows "checked w (check_station env alarms m now live w s) (\<lambda>_. True)"
proof (cases live)
  case True
  have "checked w (fire_and_note env alarms m type summary (online_body m x y) now w s') (\<lambda>_. True)" for type summary x y s'
    using assms body_lengths by (intro fire_and_note_ok) simp_all
  then show ?thesis using True assms(1) unfolding check_station_def check_online_def Let_def
    by (auto intro!: checked_bind[where P = "\<lambda>_. True"])
next
  case False
  then show ?thesis using assms body_lengths unfolding check_station_def check_offline_def Let_def by (auto intro!: fire_and_note_ok)
qed

definition keeps_station :: "alarm_mountpoint_state \<Rightarrow> alarm_mountpoint_state \<Rightarrow> bool" where
  "keeps_station s s' \<longleftrightarrow> was_live s' = was_live s \<and> offline_since s' = offline_since s \<and>
     offline_crossed_threshold s' = offline_crossed_threshold s \<and> online_since s' = online_since s"

lemma summary_parts_ok: "length out < cap \<Longrightarrow> returns (summary_parts api cap j ns out) (\<lambda>r. length r < cap)"
  by (induction ns arbitrary: out) (auto simp: Let_def c_strncat_def intro!: returns_bind split: option.split)

lemma snprintf_behind: "length b < cap \<Longrightarrow> returns (snprintf_at cap (b, length b) s) (\<lambda>x. length (fst x) < cap)"
  by (simp add: snprintf_at_def)

lemma low_sv_body_ok: "returns (low_sv_body api limit m sc sv minutes) (\<lambda>b. length b \<le> 511)"
proof -
  have c: "returns (build_constellation_summary api 96 sc) (\<lambda>_. True)"
    unfolding build_constellation_summary_def by (auto intro: returns_mono[OF summary_parts_ok] split: option.split)
  have l: "length (c_snprintf 350 t) < 350" for t by (simp add: c_snprintf_def)
  have c2: "returns (if q then snprintf_at 350 (c_snprintf 350 t, length (c_snprintf 350 t)) u else Some (c_snprintf 350 t, 0)) (\<lambda>x. length (fst x) < 350)" for q t u
    by (cases q) (simp_all only: if_True if_False snprintf_behind[OF l] returns_Some fst_conv l)
  have c3: "returns (snprintf_at 350 (b, length b) u) (\<lambda>x. length (fst x) < 350)" if "length b < 350" for b u
    by (rule snprintf_behind[OF that])
  have c4: "returns (case j of None \<Rightarrow> Some (b, 0) | Some x \<Rightarrow> snprintf_at 350 (b, length b) (u x)) (\<lambda>x. length (fst x) < 350)" if "length b < 350" for b u and j :: "json option"
    using c3[OF that] that by (cases j) simp_all
  show ?thesis unfolding low_sv_body_def Let_def case_prod_beta
    by (rule returns_bind[OF c], rule returns_bind[OF c2], rule returns_bind[OF c3], assumption, rule returns_bind[OF c4], assumption) simp
qed

lemma drift_axis_ok: "length (snd tr) < 256 \<Longrightarrow> returns (drift_axis k ax l d tr) (\<lambda>tr. length (snd tr) < 256)"
  by (cases tr) (auto simp: drift_axis_def append_drift_reason_def c_strncat_def)

lemma drift_test_ok: "returns (drift_test pd cached) (\<lambda>tr. length (snd tr) < 256)"
  unfolding drift_test_def by (auto intro!: returns_bind drift_axis_ok split: option.split)

lemma drift_body_ok: "returns (drift_body m reason minutes cached) (\<lambda>b. length b \<le> 511)"
proof -
  have p: "returns (if b \<and> snd x < 512 then snprintf_at 512 x t else Some x) (\<lambda>x. length (fst x) \<le> 511)" if "length (fst x) \<le> 511" for b x t
    using that by (cases x) (auto simp: snprintf_at_def)
  show ?thesis
  proof (cases cached)
    case None
    then show ?thesis by (simp add: drift_body_def Let_def c_snprintf_def)
  next
    case (Some rp)
    have l: "length (fst (c_snprintf 512 t, n)) \<le> 511" for t and n :: nat by (simp add: c_snprintf_def)
    show ?thesis unfolding drift_body_def Let_def Some option.case case_prod_beta prod.collapse
      by (rule returns_bind[OF p[OF l]], rule returns_bind[OF p], assumption) simp
  qed
qed

lemma check_low_sv_ok:
  assumes "alarms_ok w" "mail_ok env alarms m"
  shows "checked w (check_low_sv env api alarms m now stats w s) (keeps_station s)"
proof -
  have "checked w (low_sv_body api l m sc sv x \<bind> (\<lambda>b. fire_and_note env alarms m type summary b now w s')) (keeps_station s)"
    if "keeps_station s s'" for l sc sv x type summary s'
    using low_sv_body_ok[of api l m sc sv x]
  proof (rule returnsE)
    fix b assume "low_sv_body api l m sc sv x = Some b" "length b \<le> 511"
    then show ?thesis using assms that by (auto intro!: fire_and_note_ok simp: keeps_station_def)
  qed
  then show ?thesis using assms(1) unfolding check_low_sv_def Let_def by (auto simp: keeps_station_def split: option.split)
qed

lemma check_drift_ok:
  assumes "alarms_ok w" "mail_ok env alarms m"
  shows "checked w (check_drift env alarms m now cache w s) (keeps_station s)"
proof -
  have b: "checked w (drift_body m r x cached \<bind> (\<lambda>b. fire_and_note env alarms m type summary b now w s')) (keeps_station s)"
    if "keeps_station s s'" for r cached x type summary s'
    using drift_body_ok[of m r x cached]
  proof (rule returnsE)
    fix b assume "drift_body m r x cached = Some b" "length b \<le> 511"
    then show ?thesis using assms that by (auto intro!: fire_and_note_ok simp: keeps_station_def)
  qed
  show ?thesis
  proof (cases "position_drift alarms")
    case None
    then show ?thesis using assms(1) by (simp add: check_drift_def keeps_station_def)
  next
    case (Some pd)
    obtain t r where t: "drift_test pd (hash_table_get cache m) = Some (t, r)" using drift_test_ok[of pd "hash_table_get cache m"] by (auto simp: returns_def)
    show ?thesis unfolding check_drift_def Some Let_def option.case t Option.bind_lunit prod.case
      using assms(1) b by (auto simp: keeps_station_def)
  qed
qed

subsection \<open>When the alarms of a station are due\<close>

text \<open>
  The checks of a mountpoint so far, the newest first: the time, whether a source was live, and the
  configuration of the alarms at that time, which a reload may have changed.
\<close>

type_synonym checks = "(timeval \<times> bool \<times> config_alarms) list"

abbreviation was_up :: "timeval \<times> bool \<times> config_alarms \<Rightarrow> bool" where
  "was_up c \<equiv> fst (snd c)"

abbreviation is_down :: "checks \<Rightarrow> bool" where
  "is_down obs \<equiv> obs \<noteq> [] \<and> \<not> was_up (hd obs)"

text \<open>The last outage, and the time of the first check that found it.\<close>

definition last_outage :: "checks \<Rightarrow> checks" where
  "last_outage obs = takeWhile (\<lambda>c. \<not> was_up c) (dropWhile was_up obs)"

definition outage_start :: "checks \<Rightarrow> timeval" where
  "outage_start obs = fst (last (last_outage obs))"

text \<open>
  An outage is reported by a check whose configuration has the alarm for it, for this mountpoint, with a threshold that the
  outage has reached; it was notable if one of its checks found that.
\<close>

definition outage_reached :: "config_alarms \<Rightarrow> cstring \<Rightarrow> timeval \<Rightarrow> timeval \<Rightarrow> bool" where
  "outage_reached alarms m start now \<longleftrightarrow> mountpoint_wants alarms m ALARM_STATION_OFFLINE \<and>
     (\<exists>k. station_offline alarms = Some k \<and> timeval_diff_minutes now start \<ge> of_int k)"

definition outage_notable :: "cstring \<Rightarrow> checks \<Rightarrow> bool" where
  "outage_notable m obs \<longleftrightarrow> (\<exists>c \<in> set (last_outage obs). outage_reached (snd (snd c)) m (outage_start obs) (fst c))"

definition offline_due :: "config_alarms \<Rightarrow> cstring \<Rightarrow> checks \<Rightarrow> alarm_mountpoint_state \<Rightarrow> timeval \<Rightarrow> bool" where
  "offline_due alarms m obs s now \<longleftrightarrow> outage_reached alarms m (outage_start ((now, False, alarms) # obs)) now \<and>
     alarm_rate_ok s ALARM_STATION_OFFLINE now (min_interval_minutes alarms)"

definition online_due :: "config_alarms \<Rightarrow> cstring \<Rightarrow> checks \<Rightarrow> alarm_mountpoint_state \<Rightarrow> timeval \<Rightarrow> bool" where
  "online_due alarms m obs s now \<longleftrightarrow> is_down obs \<and> station_online alarms \<noteq> None \<and> mountpoint_wants alarms m ALARM_STATION_ONLINE \<and>
     (station_offline alarms = None \<or> outage_notable m obs) \<and> alarm_rate_ok s ALARM_STATION_ONLINE now (min_interval_minutes alarms)"

text \<open>
  The configurations on which the code does what the manual says: no mountpoint is listed without alarm types, and
  there is no delay before the alarm for a return.
\<close>

definition as_documented :: "config_alarms \<Rightarrow> bool" where
  "as_documented alarms \<longleftrightarrow> (\<forall>x \<in> set (ca_mountpoints alarms). am_alarm_types x \<noteq> []) \<and> station_online alarms \<in> {None, Some 0}"

text \<open>What the state of a mountpoint records of its checks.\<close>

definition station_inv :: "cstring \<Rightarrow> checks \<Rightarrow> alarm_mountpoint_state \<Rightarrow> bool" where
  "station_inv m obs s \<longleftrightarrow> (\<forall>c \<in> set obs. 0 < fst (fst c)) \<and>
     (if is_down obs then was_live s = 0 \<and> offline_since s = outage_start obs \<and> fst (online_since s) = 0
      else fst (offline_since s) = 0 \<and> was_live s = (if last_outage obs = [] then - 1 else 1)) \<and>
     (last_outage obs \<noteq> [] \<longrightarrow> offline_crossed_threshold s = outage_notable m obs)"

lemma station_inv_new: "station_inv m [] new_mountpoint_state"
  by (simp add: station_inv_def new_mountpoint_state_def last_outage_def)

lemma station_inv_keeps: "station_inv m obs s \<Longrightarrow> keeps_station s s' \<Longrightarrow> station_inv m obs s'"
  by (simp add: station_inv_def keeps_station_def)

lemma last_outage_simps [simp]:
  "last_outage ((t, True, al) # obs) = last_outage obs"
  "last_outage ((t, False, al) # obs) = (t, False, al) # (if is_down obs then last_outage obs else [])"
  by (cases obs; simp add: last_outage_def)+

lemma last_outage_down: "is_down obs \<Longrightarrow> last_outage obs \<noteq> []"
  by (cases obs) (auto simp: last_outage_def)

lemma outage_start_simps [simp]:
  "outage_start ((t, True, al) # obs) = outage_start obs"
  "outage_start ((t, False, al) # obs) = (if is_down obs then outage_start obs else t)"
  using last_outage_down[of obs] by (simp_all add: outage_start_def)

lemma outage_start_pos: "\<forall>c \<in> set obs. 0 < fst (fst c) \<Longrightarrow> last_outage obs \<noteq> [] \<Longrightarrow> 0 < fst (outage_start obs)"
proof -
  assume a: "\<forall>c \<in> set obs. 0 < fst (fst c)" "last_outage obs \<noteq> []"
  have "set (last_outage obs) \<subseteq> set obs" unfolding last_outage_def using set_takeWhileD set_dropWhileD by fastforce
  with a(1) last_in_set[OF a(2)] show ?thesis unfolding outage_start_def by blast
qed

lemma outage_notable_up: "outage_notable m ((t, True, al) # obs) = outage_notable m obs"
  by (simp add: outage_notable_def)

lemma outage_notable_down:
  "outage_notable m ((t, False, al) # obs) \<longleftrightarrow> outage_reached al m (outage_start ((t, False, al) # obs)) t \<or> is_down obs \<and> outage_notable m obs"
proof (cases "is_down obs")
  case True
  then have "last_outage ((t, False, al) # obs) = (t, False, al) # last_outage obs" "outage_start ((t, False, al) # obs) = outage_start obs"
    by simp_all
  with True show ?thesis unfolding outage_notable_def by simp
next
  case False
  then have "last_outage ((t, False, al) # obs) = [(t, False, al)]" by auto
  with False show ?thesis unfolding outage_notable_def by auto
qed

lemma clear_sec_simps [simp]: "fst (clear_sec t) = 0"
  by (simp add: clear_sec_def)

lemma no_time: "timeval_diff_minutes t t = 0"
  by (simp add: timeval_diff_minutes_def)

text \<open>A check that finds a live source.\<close>

lemma check_online_due:
  assumes inv: "station_inv m obs s" and doc: "as_documented alarms"
  shows "check_online env alarms m now w s =
    (if online_due alarms m obs s now then
       do { (w, s) \<leftarrow> fire_and_note env alarms m ALARM_STATION_ONLINE ''back online'' (online_body m (timeval_diff_minutes now (outage_start obs)) 0)
              now w (s\<lparr>online_since := now\<rparr>);
            Some (w, s\<lparr>was_live := 1, offline_since := clear_sec (offline_since s)\<rparr>) }
     else Some (w, if is_down obs then s\<lparr>online_since := now, was_live := 1, offline_since := clear_sec (offline_since s)\<rparr>
       else s\<lparr>offline_since := clear_sec (offline_since s)\<rparr>))"
proof (cases "is_down obs")
  case False
  then have "was_live s \<noteq> 0" using inv by (auto simp: station_inv_def split: if_splits)
  moreover have "\<not> online_due alarms m obs s now" using False by (auto simp: online_due_def)
  ultimately show ?thesis unfolding if_not_P[OF False] by (simp add: check_online_def)
next
  case True
  note lo = last_outage_down[OF True]
  have wl: "was_live s = 0" "offline_since s = outage_start obs" "fst (online_since s) = 0" using inv True unfolding station_inv_def by simp_all
  have cr: "offline_crossed_threshold s = outage_notable m obs" using inv lo by (simp add: station_inv_def)
  have since: "fst (outage_start obs) \<noteq> 0" using outage_start_pos[of obs] lo inv by (simp add: station_inv_def)
  define en where "en \<longleftrightarrow> station_online alarms \<noteq> None \<and> mountpoint_wants alarms m ALARM_STATION_ONLINE \<and> (station_offline alarms = None \<or> outage_notable m obs)"
  have z: "station_online alarms = Some 0" if en using that doc by (auto simp: en_def as_documented_def)
  have rate: "alarm_rate_ok (s\<lparr>online_since := t\<rparr>) type now k = alarm_rate_ok s type now k" for t type k by (simp add: alarm_rate_ok_def)
  have on: "(if fst (online_since s) = 0 then s\<lparr>online_since := now\<rparr> else s) = s\<lparr>online_since := now\<rparr>" using wl(3) by simp
  have out: "(if fst (offline_since s) \<noteq> 0 then timeval_diff_minutes now (offline_since s) else 0) = timeval_diff_minutes now (outage_start obs)"
    using wl(2) since by simp
  have enabled: "(station_online alarms \<noteq> None \<and> mountpoint_wants alarms m ALARM_STATION_ONLINE \<and> (station_offline alarms = None \<or> offline_crossed_threshold s)) = en"
    by (simp only: en_def cr)
  have sel: "offline_crossed_threshold (s\<lparr>online_since := t\<rparr>) = offline_crossed_threshold s"
    "online_since (s\<lparr>online_since := t\<rparr>) = t" "offline_since (s\<lparr>online_since := t\<rparr>) = offline_since s" for t by simp_all
  have due: "online_due alarms m obs s now \<longleftrightarrow> en \<and> alarm_rate_ok s ALARM_STATION_ONLINE now (min_interval_minutes alarms)"
    using True by (auto simp: online_due_def en_def)
  have "check_online env alarms m now w s =
     (if \<not> en \<or> (if en then (0 :: real) else 0) \<ge> of_int (the (station_online alarms)) then
        (if en \<and> alarm_rate_ok s ALARM_STATION_ONLINE now (min_interval_minutes alarms)
         then fire_and_note env alarms m ALARM_STATION_ONLINE ''back online'' (online_body m (timeval_diff_minutes now (outage_start obs)) (if en then 0 else 0))
           now w (s\<lparr>online_since := now\<rparr>)
         else Some (w, s\<lparr>online_since := now\<rparr>)) \<bind> (\<lambda>(w, state). Some (w, state\<lparr>was_live := 1\<rparr>))
      else Some (w, s\<lparr>online_since := now\<rparr>)) \<bind> (\<lambda>(w, state). Some (w, state\<lparr>offline_since := clear_sec (offline_since state)\<rparr>))"
    unfolding check_online_def Let_def on sel out enabled rate no_time using wl(1) by (simp only: simp_thms if_False if_True)
  then show ?thesis unfolding due if_P[OF True] using z
    by (cases "en \<and> alarm_rate_ok s ALARM_STATION_ONLINE now (min_interval_minutes alarms)") (auto simp: Option.bind_assoc case_prod_unfold)
qed

lemma check_offline_due:
  assumes inv: "station_inv m obs s"
  shows "check_offline env alarms m now w s =
    (let s' = s\<lparr>online_since := clear_sec (online_since s), was_live := 0, offline_since := outage_start ((now, False, alarms) # obs),
           offline_crossed_threshold := outage_notable m ((now, False, alarms) # obs)\<rparr>
     in if offline_due alarms m obs s now
        then fire_and_note env alarms m ALARM_STATION_OFFLINE ''offline'' (offline_body m (timeval_diff_minutes now (outage_start ((now, False, alarms) # obs)))) now w s'
        else Some (w, s'))"
proof -
  let ?obs = "(now, False, alarms) # obs"
  let ?s1 = "s\<lparr>online_since := clear_sec (online_since s), was_live := 0\<rparr>"
  let ?s2 = "if fst (offline_since ?s1) = 0 then ?s1\<lparr>offline_since := now, offline_crossed_threshold := False\<rparr> else ?s1"
  have down: "fst (offline_since s) \<noteq> 0 \<longleftrightarrow> is_down obs"
    using inv outage_start_pos[of obs] last_outage_down[of obs] unfolding station_inv_def by (cases "is_down obs") auto
  have since: "offline_since ?s2 = outage_start ?obs"
    using down inv unfolding station_inv_def by (cases "is_down obs") auto
  have cr: "offline_crossed_threshold ?s2 \<longleftrightarrow> is_down obs \<and> outage_notable m obs"
    using down inv last_outage_down[of obs] unfolding station_inv_def by (cases "is_down obs") auto
  have rest: "last_sent ?s2 = last_sent s" "online_since ?s2 = clear_sec (online_since s)" "was_live ?s2 = 0" by simp_all
  define r where "r \<longleftrightarrow> outage_reached alarms m (outage_start ?obs) now"
  have reached: "(station_offline alarms \<noteq> None \<and> mountpoint_wants alarms m ALARM_STATION_OFFLINE \<and>
      timeval_diff_minutes now (outage_start ?obs) \<ge> of_int (the (station_offline alarms))) = r"
    by (auto simp: r_def outage_reached_def)
  have notable: "outage_notable m ?obs \<longleftrightarrow> r \<or> is_down obs \<and> outage_notable m obs" unfolding r_def by (rule outage_notable_down)
  define s' where "s' = s\<lparr>online_since := clear_sec (online_since s), was_live := 0, offline_since := outage_start ?obs, offline_crossed_threshold := outage_notable m ?obs\<rparr>"
  have upd: "(if r then ?s2\<lparr>offline_crossed_threshold := True\<rparr> else ?s2) = s'"
    using since cr notable by (auto simp: s'_def intro!: alarm_mountpoint_state.equality)
  have rate: "alarm_rate_ok s' t now k = alarm_rate_ok s t now k" for t k by (simp add: alarm_rate_ok_def s'_def)
  have due: "offline_due alarms m obs s now \<longleftrightarrow> r \<and> alarm_rate_ok s ALARM_STATION_OFFLINE now (min_interval_minutes alarms)"
    by (simp only: offline_due_def r_def)
  have "check_offline env alarms m now w s =
    (if r then
       if alarm_rate_ok (?s2\<lparr>offline_crossed_threshold := True\<rparr>) ALARM_STATION_OFFLINE now (min_interval_minutes alarms)
       then fire_and_note env alarms m ALARM_STATION_OFFLINE ''offline'' (offline_body m (timeval_diff_minutes now (outage_start ?obs))) now w (?s2\<lparr>offline_crossed_threshold := True\<rparr>)
       else Some (w, ?s2\<lparr>offline_crossed_threshold := True\<rparr>)
     else Some (w, ?s2))"
    unfolding check_offline_def since reached[symmetric] Let_def by (simp only: conj_assoc)
  then show ?thesis using upd unfolding due s'_def[symmetric] Let_def by (cases r) (simp_all add: rate)
qed

definition state_of :: "alarms_state \<Rightarrow> cstring \<Rightarrow> alarm_mountpoint_state" where
  "state_of w m = (case hash_table_get (as_mountpoints w) m of Some s \<Rightarrow> s | None \<Rightarrow> new_mountpoint_state)"

lemma check_station_inv:
  assumes inv: "station_inv m obs s" and now: "0 < fst now" and doc: "as_documented alarms"
    and c: "check_station env alarms m now live w s = Some (w', s')"
  shows "station_inv m ((now, live, alarms) # obs) s'"
proof -
  have f: "\<exists>g. s1 = s''\<lparr>last_sent := g\<rparr>" if "fire_and_note env alarms m t u b now w s'' = Some (w1, s1)" for t u b s'' s1 w1
    using that by (auto simp: fire_and_note_def bind_eq_Some_conv split: if_splits intro: exI[of _ "last_sent s''"])
  show ?thesis
  proof (cases live)
    case False
    have "check_offline env alarms m now w s = Some (w', s')" using c False by (simp add: check_station_def)
    then have "was_live s' = 0" "fst (online_since s') = 0" "offline_since s' = outage_start ((now, False, alarms) # obs)"
        "offline_crossed_threshold s' = outage_notable m ((now, False, alarms) # obs)"
      unfolding check_offline_due[OF inv] Let_def by (auto split: if_splits dest!: f)
    with False inv now show ?thesis by (simp add: station_inv_def)
  next
    case True
    have e: "check_online env alarms m now w s = Some (w', s')" using c True by (simp add: check_station_def)
    then have "is_down obs \<Longrightarrow> was_live s' = 1" "\<not> is_down obs \<Longrightarrow> was_live s' = was_live s" "fst (offline_since s') = 0"
        "offline_crossed_threshold s' = offline_crossed_threshold s"
      unfolding check_online_due[OF inv doc] by (auto simp: bind_eq_Some_conv online_due_def dest!: f split: if_splits)
    with True inv now last_outage_down[of obs] show ?thesis
      unfolding station_inv_def by (cases "is_down obs") (auto simp: outage_notable_up)
  qed
qed

subsection \<open>The system of the alarms\<close>

lemma set_remove_send: "set (remove_send pid as) \<subseteq> set as"
  by (induction as) auto

text \<open>What the end of a helper records: its exit code and the start of its error output.\<close>

definition exit_code :: "int option \<Rightarrow> int" where
  "exit_code status = (case status of Some c \<Rightarrow> c | None \<Rightarrow> - 1)"

definition error_shown :: "cstring \<Rightarrow> cstring" where
  "error_shown t = (if t = [] then ''(no output)'' else takeWhile (\<lambda>c. c \<noteq> CHR 0x00) (take 511 t))"

definition sent_at :: "alarm_mountpoint_state \<Rightarrow> alarm_event_type \<Rightarrow> timeval \<Rightarrow> alarm_mountpoint_state" where
  "sent_at s type t = s\<lparr>last_sent := (last_sent s)(type := t)\<rparr>"

lemma helper_ended_ok:
  assumes "alarms_ok w" "send_holds a t" "\<forall>d \<in> set reads. d \<noteq> []"
  shows "\<exists>w'. helper_ended env status reads a w = Some w' \<and> alarms_ok w' \<and> as_sends w' = remove_send (as_pid a) (as_sends w) \<and>
    outcomes w' = last_n ALARM_RING_SIZE (outcomes w @ [ring_outcome env (as_mountpoint a) (as_type a) (as_summary a)
      (exit_code status = 0) False (exit_code status) (error_shown (t @ concat reads))]) \<and>
    hash_table_get (as_mountpoints w') = (if exit_code status = 0
      then (hash_table_get (as_mountpoints w))(as_mountpoint a := map_option (\<lambda>s. sent_at s (as_type a) (env_clock env)) (hash_table_get (as_mountpoints w) (as_mountpoint a)))
      else hash_table_get (as_mountpoints w))"
proof -
  obtain b n where d: "drain_stderr reads a = Some (a\<lparr>errbuf := b, errlen := n\<rparr>)" "send_holds (a\<lparr>errbuf := b, errlen := n\<rparr>) (t @ concat reads)"
    using drain_holds[OF assms(2,3)] by blast
  note e = err_text_holds[OF d(2), folded error_shown_def]
  let ?w = "if exit_code status = 0 then (case hash_table_get (as_mountpoints w) (as_mountpoint a) of None \<Rightarrow> w
     | Some s \<Rightarrow> w\<lparr>as_mountpoints := hash_table_set_value (as_mountpoints w) (as_mountpoint a) (sent_at s (as_type a) (env_clock env))\<rparr>) else w"
  have h: "hash_inv (as_mountpoints w)" using assms(1) by (simp add: alarms_ok_def)
  have g: "hash_inv (as_mountpoints ?w)" "hash_table_get (as_mountpoints ?w) = (if exit_code status = 0
      then (hash_table_get (as_mountpoints w))(as_mountpoint a := map_option (\<lambda>s. sent_at s (as_type a) (env_clock env)) (hash_table_get (as_mountpoints w) (as_mountpoint a)))
      else hash_table_get (as_mountpoints w))"
    using h hash_table_set_value_correct[OF h, of "as_mountpoint a"] by (auto simp: fun_upd_idem split: option.split)
  have same: "as_sends ?w = as_sends w" "outcomes ?w = outcomes w" "alarm_ring_ok ?w = alarm_ring_ok w"
    by (auto simp: outcomes_def alarm_ring_ok_def split: option.split)
  then have "alarm_ring_ok ?w" using assms(1) by (simp add: alarms_ok_def)
  from alarm_ring_add_ok[OF this, of env "as_mountpoint a" "as_type a" "as_summary a" "exit_code status = 0" False "exit_code status" "error_shown (t @ concat reads)"]
  obtain r hd' c where add: "alarm_ring_add env (as_mountpoint a) (as_type a) (as_summary a) (exit_code status = 0) False (exit_code status) (error_shown (t @ concat reads)) ?w
      = Some (?w\<lparr>as_ring := r, ring_head := hd', ring_count := c\<rparr>)" "alarm_ring_ok (?w\<lparr>as_ring := r, ring_head := hd', ring_count := c\<rparr>)"
     "outcomes (?w\<lparr>as_ring := r, ring_head := hd', ring_count := c\<rparr>) = last_n ALARM_RING_SIZE (outcomes ?w @ [ring_outcome env (as_mountpoint a) (as_type a) (as_summary a)
      (exit_code status = 0) False (exit_code status) (error_shown (t @ concat reads))])" by blast
  let ?w' = "?w\<lparr>as_ring := r, ring_head := hd', ring_count := c, as_sends := remove_send (as_pid a) (as_sends w)\<rparr>"
  have sel: "as_mountpoint (a\<lparr>errbuf := b, errlen := n\<rparr>) = as_mountpoint a" "as_type (a\<lparr>errbuf := b, errlen := n\<rparr>) = as_type a"
    "as_summary (a\<lparr>errbuf := b, errlen := n\<rparr>) = as_summary a" "as_pid (a\<lparr>errbuf := b, errlen := n\<rparr>) = as_pid a" by simp_all
  have sends: "as_sends (v\<lparr>as_ring := r, ring_head := hd', ring_count := c\<rparr>) = as_sends v" for v by simp
  have "helper_ended env status reads a w = Some ?w'"
    unfolding helper_ended_def d(1) Option.bind_lunit Let_def exit_code_def[symmetric] sel e sent_at_def[symmetric] add(1)
    by (simp only: Option.bind_lunit sends same(1))
  moreover have "alarms_ok ?w'" using assms(1) g(1) add(2) set_remove_send[of "as_pid a" "as_sends w"]
    by (auto simp: alarms_ok_def alarm_ring_ok_def)
  moreover have "outcomes ?w' = outcomes (?w\<lparr>as_ring := r, ring_head := hd', ring_count := c\<rparr>)" by (simp add: outcomes_def)
  ultimately show ?thesis using g(2) add(3) same(2) by (intro exI[of _ ?w']) simp
qed

lemma keeps_state_of:
  "hash_table_get (as_mountpoints w') = hash_table_get (as_mountpoints w) \<Longrightarrow> keeps_station (state_of w m) (state_of w' m)"
  "hash_table_get (as_mountpoints w') = (hash_table_get (as_mountpoints w))(n := map_option (\<lambda>s. sent_at s t d) (hash_table_get (as_mountpoints w) n)) \<Longrightarrow>
    keeps_station (state_of w m) (state_of w' m)"
  by (auto simp: state_of_def keeps_station_def sent_at_def split: option.split)

lemma sigchld_ok:
  assumes "alarms_ok w" "\<forall>(pid, status, reads) \<in> set ps. \<forall>d \<in> set reads. d \<noteq> []"
  shows "\<exists>w'. alarms_sigchld_cb env ps w = Some w' \<and> alarms_ok w' \<and> (\<forall>m. keeps_station (state_of w m) (state_of w' m))"
  using assms
proof (induction ps arbitrary: w)
  case Nil
  then show ?case by (simp add: keeps_station_def)
next
  case (Cons p ps)
  obtain pid status reads where p: "p = (pid, status, reads)" by (cases p)
  have "\<exists>w1. (case List.find (\<lambda>a. as_pid a = pid) (as_sends w) of None \<Rightarrow> Some w | Some a \<Rightarrow> helper_ended env status reads a w) = Some w1 \<and>
      alarms_ok w1 \<and> (\<forall>m. keeps_station (state_of w m) (state_of w1 m))"
  proof (cases "List.find (\<lambda>a. as_pid a = pid) (as_sends w)")
    case None
    then show ?thesis using Cons.prems by (simp add: keeps_station_def)
  next
    case (Some a)
    then have "a \<in> set (as_sends w)" by (auto simp: find_Some_iff)
    then obtain t where "send_holds a t" using Cons.prems(1) by (auto simp: alarms_ok_def)
    then obtain w1 where "helper_ended env status reads a w = Some w1" "alarms_ok w1"
      "hash_table_get (as_mountpoints w1) = (if exit_code status = 0
      then (hash_table_get (as_mountpoints w))(as_mountpoint a := map_option (\<lambda>s. sent_at s (as_type a) (env_clock env)) (hash_table_get (as_mountpoints w) (as_mountpoint a)))
      else hash_table_get (as_mountpoints w))" using helper_ended_ok[OF Cons.prems(1), of a t reads env status] Cons.prems(2) p by auto
    then show ?thesis using Some keeps_state_of[of w1 w] by (cases "exit_code status = 0") auto
  qed
  then obtain w1 where w1: "(case List.find (\<lambda>a. as_pid a = pid) (as_sends w) of None \<Rightarrow> Some w | Some a \<Rightarrow> helper_ended env status reads a w) = Some w1"
      "alarms_ok w1" "\<forall>m. keeps_station (state_of w m) (state_of w1 m)" by blast
  have "\<exists>w'. alarms_sigchld_cb env ps w1 = Some w' \<and> alarms_ok w' \<and> (\<forall>m. keeps_station (state_of w1 m) (state_of w' m))"
    using Cons.IH[OF w1(2)] Cons.prems(2) by simp
  then show ?case using w1(1,3) p by (auto simp: keeps_station_def)
qed

lemma check_one_ok:
  assumes "alarms_ok w" "mail_ok env alarms m"
  shows "\<exists>w1 v s w'. check_station env alarms m now (livesource_exists (av_live view) m) v (state_of w m) = Some (w1, s) \<and>
    alarms_check_one env api alarms m now view w = Some w' \<and> alarms_ok w' \<and> keeps_station s (state_of w' m) \<and>
    (\<forall>n. n \<noteq> m \<longrightarrow> state_of w' n = state_of w n)"
proof -
  let ?w = "case hash_table_get (as_mountpoints w) m of Some s \<Rightarrow> w
     | None \<Rightarrow> w\<lparr>as_mountpoints := snd (hash_table_add True (as_mountpoints w) m new_mountpoint_state)\<rparr>"
  have h: "hash_inv (as_mountpoints w)" using assms(1) by (simp add: alarms_ok_def)
  have w: "alarms_ok ?w" "hash_table_get (as_mountpoints ?w) = (hash_table_get (as_mountpoints w))(m \<mapsto> state_of w m)"
    using assms(1) hash_table_add_new[OF h, of m new_mountpoint_state] by (auto simp: alarms_ok_def alarm_ring_ok_def state_of_def split: option.split)
  have "checked ?w (check_station env alarms m now (livesource_exists (av_live view) m) ?w (state_of w m)) (\<lambda>_. True)"
    by (rule check_station_ok[OF w(1) assms(2)])
  then obtain w1 s1 where c1: "check_station env alarms m now (livesource_exists (av_live view) m) ?w (state_of w m) = Some (w1, s1)"
    "alarms_ok w1" "as_mountpoints w1 = as_mountpoints ?w" by (auto simp: checked_def returns_def)
  obtain w2 s2 where c2: "check_low_sv env api alarms m now (av_stats view) w1 s1 = Some (w2, s2)"
    "alarms_ok w2" "as_mountpoints w2 = as_mountpoints w1" "keeps_station s1 s2"
    using check_low_sv_ok[OF c1(2) assms(2), of api now "av_stats view" s1] by (auto simp: checked_def returns_def)
  obtain w3 s3 where c3: "check_drift env alarms m now (av_cache view) w2 s2 = Some (w3, s3)"
    "alarms_ok w3" "as_mountpoints w3 = as_mountpoints w2" "keeps_station s2 s3"
    using check_drift_ok[OF c2(2) assms(2), of now "av_cache view" s2] by (auto simp: checked_def returns_def)
  let ?w' = "w3\<lparr>as_mountpoints := hash_table_set_value (as_mountpoints w3) m s3\<rparr>"
  have e: "alarms_check_one env api alarms m now view w = Some ?w'"
    unfolding alarms_check_one_def alarms_check_state_def using c1(1) c2(1) c3(1)
    by (cases "hash_table_get (as_mountpoints w) m") (simp_all add: state_of_def)
  have g: "hash_inv (as_mountpoints w3)" "hash_table_get (as_mountpoints w3) = (hash_table_get (as_mountpoints w))(m \<mapsto> state_of w m)"
    using c3(2,3) c2(3) c1(3) w(2) by (simp_all add: alarms_ok_def)
  then have v: "hash_inv (as_mountpoints ?w')" "hash_table_get (as_mountpoints ?w') = (hash_table_get (as_mountpoints w))(m \<mapsto> s3)"
    using hash_table_set_value_correct[of "as_mountpoints w3" m s3] by auto
  have "alarms_ok ?w'" using c3(2) v(1) by (simp add: alarms_ok_def alarm_ring_ok_def)
  moreover have "state_of ?w' m = s3" "\<forall>n. n \<noteq> m \<longrightarrow> state_of ?w' n = state_of w n" using v(2) by (simp_all add: state_of_def)
  ultimately show ?thesis using e c1(1) c2(4) c3(4) by (intro exI[of _ w1] exI[of _ ?w] exI[of _ s1] exI[of _ ?w']) (simp add: keeps_station_def)
qed

text \<open>
  The callbacks of the event loop; a tick is a sequence of checks. Every check has the configuration of the alarms
  that is current at its time, so that the run goes over reloads, which keep the state of the alarms. The clock
  does not show the start of the epoch or a time before it. The second component is the checks of every mountpoint so far.
\<close>

inductive alarms_run :: "alarms_state \<Rightarrow> (cstring \<Rightarrow> checks) \<Rightarrow> bool" where
  start: "alarms_init = Some w \<Longrightarrow> alarms_run w (\<lambda>_. [])"
| check: "alarms_run w H \<Longrightarrow> mail_ok env alarms m \<Longrightarrow> 0 < fst now \<Longrightarrow> alarms_check_one env api alarms m now view w = Some w' \<Longrightarrow>
    alarms_run w' (H(m := (now, livesource_exists (av_live view) m, alarms) # H m))"
| stderr: "alarms_run w H \<Longrightarrow> i < length (as_sends w) \<Longrightarrow> alarm_send_stderr_cb data (as_sends w ! i) = Some a \<Longrightarrow>
    alarms_run (w\<lparr>as_sends := (as_sends w)[i := a]\<rparr>) H"
| sigchld: "alarms_run w H \<Longrightarrow> \<forall>(pid, status, reads) \<in> set ps. \<forall>d \<in> set reads. d \<noteq> [] \<Longrightarrow> alarms_sigchld_cb env ps w = Some w' \<Longrightarrow>
    alarms_run w' H"

abbreviation all_documented :: "checks \<Rightarrow> bool" where
  "all_documented obs \<equiv> \<forall>c \<in> set obs. as_documented (snd (snd c))"

lemma alarms_run_inv: "alarms_run w H \<Longrightarrow> alarms_ok w \<and> (\<forall>m. all_documented (H m) \<longrightarrow> station_inv m (H m) (state_of w m))"
proof (induction rule: alarms_run.induct)
  case (start w)
  then obtain h where h: "hash_table_new True 101 = Some h" "w = \<lparr>as_mountpoints = h, as_sends = [], as_ring = replicate ALARM_RING_SIZE cleared_entry,
      ring_head = 0, ring_count = 0, ruckus_input = []\<rparr>" by (auto simp: alarms_init_def bind_eq_Some_conv)
  with hash_table_new_correct[OF h(1)] show ?case using station_inv_new
    by (auto simp: alarms_ok_def alarm_ring_ok_def state_of_def)
next
  case (check w H env alarms m now api view w')
  note ok = check.IH[THEN conjunct1]
  have inv: "all_documented (H n) \<Longrightarrow> station_inv n (H n) (state_of w n)" for n using check.IH by blast
  obtain w1 v s w'' where c: "check_station env alarms m now (livesource_exists (av_live view) m) v (state_of w m) = Some (w1, s)"
    "alarms_check_one env api alarms m now view w = Some w''" "alarms_ok w''" "keeps_station s (state_of w'' m)" "\<forall>n. n \<noteq> m \<longrightarrow> state_of w'' n = state_of w n"
    using check_one_ok[OF ok check.hyps(2), of now view api] by blast
  have "w'' = w'" using c(2) check.hyps(4) by simp
  moreover have "station_inv m ((now, livesource_exists (av_live view) m, alarms) # H m) (state_of w'' m)"
    if "all_documented (H m)" "as_documented alarms"
    using check_station_inv[OF inv[OF that(1)] check.hyps(3) that(2) c(1)] c(4) by (rule station_inv_keeps)
  ultimately show ?case using c(3,5) inv by auto
next
  case (stderr w H i data a)
  have "as_sends w ! i \<in> set (as_sends w)" using stderr.hyps(2) by simp
  then obtain t where "send_holds (as_sends w ! i) t" using stderr.IH by (auto simp: alarms_ok_def)
  then have "\<exists>t. send_holds a t" using stderr_cb_holds[of "as_sends w ! i" t data] stderr.hyps(3) by auto
  then show ?case using stderr.IH set_update_subset_insert[of "as_sends w" i a] by (auto simp: alarms_ok_def alarm_ring_ok_def state_of_def)
next
  case (sigchld w H ps env w')
  obtain w'' where "alarms_sigchld_cb env ps w = Some w''" "alarms_ok w''" "\<forall>m. keeps_station (state_of w m) (state_of w'' m)"
    using sigchld_ok[OF sigchld.IH[THEN conjunct1] sigchld.hyps(2)] by blast
  moreover have "w'' = w'" using sigchld.hyps(3) calculation(1) by simp
  ultimately show ?case using sigchld.IH by (auto intro: station_inv_keeps)
qed


text \<open>
  C14: In every reachable state of the alarms, whatever configurations its checks had, each callback returns without an access outside a buffer: a
  check of any mountpoint whose mail has a sensible size, a read of the error output of a helper, the end of
  helpers. The list of outcomes shown on the console has the entries of the ring, the newest first, and
  at most 200 of them.
\<close>
theorem alarms_safe:
  assumes "alarms_run w H"
  shows "(\<forall>env alarms m now api view. mail_ok env alarms m \<longrightarrow> (\<exists>w'. alarms_check_one env api alarms m now view w = Some w')) \<and>
    (\<forall>i data. i < length (as_sends w) \<longrightarrow> (\<exists>a. alarm_send_stderr_cb data (as_sends w ! i) = Some a)) \<and>
    (\<forall>env ps. (\<forall>(pid, status, reads) \<in> set ps. \<forall>d \<in> set reads. d \<noteq> []) \<longrightarrow> (\<exists>w'. alarms_sigchld_cb env ps w = Some w')) \<and>
    (\<forall>d. alarms_ring_json d (Some w) = Some (JArray (map (ring_entry_json d) (rev (outcomes w))))) \<and> length (outcomes w) \<le> 200"
proof -
  have ok: "alarms_ok w" using alarms_run_inv[OF assms] by blast
  have "\<exists>a. alarm_send_stderr_cb data (as_sends w ! i) = Some a" if i: "i < length (as_sends w)" for i data
  proof -
    obtain t where "send_holds (as_sends w ! i) t" using ok nth_mem[OF i] by (auto simp: alarms_ok_def)
    then show ?thesis using stderr_cb_holds by blast
  qed
  moreover have "\<exists>w'. alarms_sigchld_cb env ps w = Some w'" if "\<forall>(pid, status, reads) \<in> set ps. \<forall>d \<in> set reads. d \<noteq> []" for env ps
    using sigchld_ok[OF ok that] by blast
  moreover have "\<exists>w'. alarms_check_one env api alarms m now view w = Some w'" if "mail_ok env alarms m" for env alarms m now api view
    using check_one_ok[OF ok that] by blast
  moreover have "alarm_ring_ok w" using ok by (simp add: alarms_ok_def)
  ultimately show ?thesis using alarms_ring_json_eq by (simp add: outcomes_def ring_list_def alarm_ring_ok_def ALARM_RING_SIZE_def)
qed

definition demo_alarms :: config_alarms where
  "demo_alarms = \<lparr>ca_smtp = \<lparr>smtp_host = ''mail'', smtp_port = 587, smtp_tls = CONFIG_ALARMS_TLS_STARTTLS, smtp_auth_file = None\<rparr>,
     ca_recipients = [\<lparr>rcpt_name = None, rcpt_email = ''ops'', rcpt_alarm_types = None\<rparr>], ca_mountpoints = [], ca_subject = ''Alarm'',
     min_interval_minutes = 15, email_template = ''t.html'', station_offline = Some 0, station_online = None, low_sv_count = None, position_drift = None\<rparr>"

definition demo_alarm_env :: alarm_env where
  "demo_alarm_env = \<lparr>env_files = (\<lambda>_. None), env_config_dir = ''/etc'', env_hostname = ''host'', env_clock = (1000, 0), env_local_time = ''now'',
     env_json_text = (\<lambda>_. ''{}''), env_junk = (\<lambda>_. CHR ''x''), env_mem = True, env_spawn = (\<lambda>_ _. Spawned 42 [] True)\<rparr>"

lemma demo_alarms_run: "\<exists>w. alarms_init = Some w \<and> alarms_run w (\<lambda>_. []) \<and> state_of w m = new_mountpoint_state"
proof -
  obtain h :: "alarm_mountpoint_state hash_table" where h: "hash_table_new True 101 = Some h" by (simp add: hash_table_new_def)
  then obtain w where w: "alarms_init = Some w" "as_mountpoints w = h" by (simp add: alarms_init_def)
  then show ?thesis using alarms_run.start[OF w(1)] hash_table_new_correct[OF h] by (intro exI[of _ w]) (simp add: state_of_def)
qed

lemma demo_fire:
  assumes "as_sends w = []"
  shows "\<exists>w'. fire_alarm demo_alarm_env demo_alarms m ALARM_STATION_OFFLINE summary b w = Some (False, w') \<and> map as_pid (as_sends w') = [42]"
proof -
  have "build_html_body demo_alarm_env demo_alarms t m b = Some None" for t
    by (simp add: build_html_body_def read_whole_file_def demo_alarm_env_def)
  moreover have "build_ruckus_payload demo_alarm_env demo_alarms t s b = Some (Some ''{}'')" for t s
    by (simp add: build_ruckus_payload_def ruckus_document_def smtp_auth_def demo_alarm_env_def demo_alarms_def Let_def)
  moreover have "list_ex (\<lambda>r. recipient_wants r t) (ca_recipients demo_alarms)" for t by (simp add: demo_alarms_def recipient_wants_def)
  moreover have "env_spawn demo_alarm_env m t = Spawned 42 [] True" for t by (simp add: demo_alarm_env_def)
  ultimately show ?thesis using assms by (auto simp: fire_alarm_def spawn_ruckus_def Let_def)
qed



theorem alarms_safe_witness:
  "\<exists>w. alarms_init = Some w \<and> length (outcomes w) \<le> 200 \<and>
    (\<forall>view. \<exists>w'. alarms_check_one demo_alarm_env plain_api demo_alarms ''BASE'' (1000, 0) view w = Some w')"
proof -
  obtain w where w: "alarms_init = Some w" "alarms_run w (\<lambda>_. [])" using demo_alarms_run by blast
  have "mail_ok demo_alarm_env demo_alarms ''BASE''" by (simp add: mail_ok_def demo_alarm_env_def read_whole_file_def)
  then have "\<exists>w'. alarms_check_one demo_alarm_env plain_api demo_alarms ''BASE'' (1000, 0) view w = Some w'" for view
    using alarms_safe[OF w(2), THEN conjunct1] by simp
  moreover have "length (outcomes w) \<le> 200" using alarms_safe[OF w(2)] by simp
  ultimately show ?thesis using w(1) by (intro exI[of _ w]) simp
qed

lemma str_replace_all_correct_witness:
  "\<exists>ps. ''a{x}b{x}'' = join ''{x}'' ps \<and> str_replace_all (\<lambda>_. CHR ''?'') ''a{x}b{x}'' ''{x}'' ''YZ'' = Some (join ''YZ'' ps)"
  using str_replace_all_correct[of "''{x}''" "''a{x}b{x}''" "''YZ''" "\<lambda>_. CHR ''?''"] by auto

subsection \<open>Deviations\<close>

text \<open>A mountpoint that is listed without alarm types is silenced, while the manual says that it gets all of them.\<close>

lemma listed_without_types_silenced:
  "mountpoint_wants (alarms\<lparr>ca_mountpoints := [\<lparr>am_mountpoint = m, am_alarm_types = []\<rparr>]\<rparr>) m type = False"
  by (simp add: mountpoint_wants_def)

text \<open>
  A helper that failed does not count for the rate limit, so that the same alarm is tried again at the
  next check; the manual says that there is no retry.
\<close>

lemma failed_send_not_limited:
  assumes "alarms_ok w" "send_holds a t" "exit_code status \<noteq> 0"
  shows "\<exists>w'. helper_ended env status [] a w = Some w' \<and> state_of w' m = state_of w m"
  using helper_ended_ok[OF assms(1,2), of "[]" env status] assms(3) by (auto simp: state_of_def)

end
