(* ===== verification/Logbuf.thy ===== *)
theory Logbuf
  imports Json_Data Rtcm_Info "HOL-Library.Multiset" "HOL-Library.Sublist"
begin

text \<open>
  The buffer of recent log entries that the console shows (\<^verbatim>\<open>caster/logbuf.c\<close>): a ring of the last 500
  entries and a ring of the last 200 entries of the level \<open>LOG_WARNING\<close> or worse, so that these survive a
  burst of less important ones. Identifiers are integers; \<open>since + 1\<close> for the largest value of its type is
  \<^const>\<open>None\<close>, as is an index outside a ring. \<open>qsort\<close> is \<^const>\<open>sort_key\<close>: no two entries have the same
  identifier. \<open>date_json\<close> is the text that \<open>timeval_to_json\<close> makes of a time (\<open>iso_date_from_timeval\<close> of \<open>Util_Text\<close>). Allocations succeed.
\<close>

subsection \<open>Entries and rings\<close>

definition LOG_EMERG :: int where "LOG_EMERG = 0"
definition LOG_CRIT :: int where "LOG_CRIT = 2"
definition LOG_ERR :: int where "LOG_ERR = 3"
definition LOG_WARNING :: int where "LOG_WARNING = 4"
definition LOG_INFO :: int where "LOG_INFO = 6"
definition LOG_DEBUG :: int where "LOG_DEBUG = 7"

record logbuf_entry =
  lb_id :: int
  lb_ts :: timeval
  lb_level :: int
  lb_thread_id :: int
  lb_connection_id :: "64 word"
  lb_remote_ip :: "cstring option"
  lb_remote_port :: int
  lb_message :: "cstring option"

definition LOGBUF_CAPACITY :: nat where "LOGBUF_CAPACITY = 500"
definition LOGBUF_PRIORITY_CAPACITY :: nat where "LOGBUF_PRIORITY_CAPACITY = 200"

record logbuf =
  lb_entries :: "logbuf_entry list"
  priority_entries :: "logbuf_entry list"
  lb_next_id :: int
  priority_next_id :: int

text \<open>An entry of which all bytes are zero.\<close>

definition zero_entry :: logbuf_entry where
  "zero_entry = \<lparr>lb_id = 0, lb_ts = (0, 0), lb_level = 0, lb_thread_id = 0, lb_connection_id = 0, lb_remote_ip = None,
     lb_remote_port = 0, lb_message = None\<rparr>"

definition logbuf_init :: logbuf where
  "logbuf_init = \<lparr>lb_entries = replicate LOGBUF_CAPACITY zero_entry,
     priority_entries = replicate LOGBUF_PRIORITY_CAPACITY zero_entry, lb_next_id = 0, priority_next_id = 0\<rparr>"

text \<open>The arguments of a call of \<open>logbuf_add\<close>: an entry without its identifier.\<close>

record log_args =
  la_level :: int
  la_thread_id :: int
  la_connection_id :: "64 word"
  la_remote_ip :: "cstring option"
  la_remote_port :: int
  la_ts :: timeval
  la_message :: cstring

definition logbuf_store :: "int \<Rightarrow> log_args \<Rightarrow> logbuf_entry" where
  "logbuf_store i a = \<lparr>lb_id = i, lb_ts = la_ts a, lb_level = la_level a, lb_thread_id = la_thread_id a,
     lb_connection_id = la_connection_id a, lb_remote_ip = la_remote_ip a, lb_remote_port = la_remote_port a,
     lb_message = Some (la_message a)\<rparr>"

definition logbuf_add :: "log_args \<Rightarrow> logbuf \<Rightarrow> logbuf option" where
  "logbuf_add a this = do {
     let i = lb_next_id this;
     let this = this\<lparr>lb_next_id := i + 1\<rparr>;
     es \<leftarrow> buf_set (lb_entries this) (nat (i mod int LOGBUF_CAPACITY)) (logbuf_store i a);
     let this = this\<lparr>lb_entries := es\<rparr>;
     if la_level a \<le> LOG_WARNING then do {
       let p = priority_next_id this;
       let this = this\<lparr>priority_next_id := p + 1\<rparr>;
       ps \<leftarrow> buf_set (priority_entries this) (nat (p mod int LOGBUF_PRIORITY_CAPACITY)) (logbuf_store i a);
       Some (this\<lparr>priority_entries := ps\<rparr>)
     }
     else Some this
   }"

definition logbuf_entry_json :: "(timeval \<Rightarrow> cstring) \<Rightarrow> logbuf_entry \<Rightarrow> json option" where
  "logbuf_entry_json date_json e = do {
     m \<leftarrow> lb_message e;
     Some (JObject ([(''id'', JInt (lb_id e)), (''level'', JInt (lb_level e)), (''thread_id'', JInt (lb_thread_id e))] @
       (if lb_connection_id e \<noteq> 0 then [(''connection_id'', JInt (sint (lb_connection_id e)))] else []) @
       (case lb_remote_ip e of None \<Rightarrow> [] | Some ip \<Rightarrow> [(''remote_ip'', JString ip), (''remote_port'', JInt (lb_remote_port e))]) @
       [(''message'', JString m), (''timestamp'', JString (date_json (lb_ts e)))]))
   }"

text \<open>The entries of \<open>logbuf_json_since\<close>, from the priority ring and from the general one.\<close>

definition recovered_entries :: "logbuf \<Rightarrow> int \<Rightarrow> int \<Rightarrow> logbuf_entry list" where
  "recovered_entries this since start =
     sort_key lb_id (filter (\<lambda>e. lb_message e \<noteq> None \<and> lb_id e > since \<and> lb_id e < start) (priority_entries this))"

fun ring_entries :: "logbuf_entry list \<Rightarrow> int list \<Rightarrow> logbuf_entry list option" where
  "ring_entries es [] = Some []"
| "ring_entries es (i # is) = do {
     e \<leftarrow> buf_get es (nat (i mod int LOGBUF_CAPACITY));
     r \<leftarrow> ring_entries es is;
     Some (if lb_id e \<noteq> i then r else e # r)
   }"

definition logbuf_json_since :: "(timeval \<Rightarrow> cstring) \<Rightarrow> logbuf \<Rightarrow> int \<Rightarrow> json option" where
  "logbuf_json_since date_json this since = do {
     let start = (if lb_next_id this > int LOGBUF_CAPACITY then lb_next_id this - int LOGBUF_CAPACITY else 0);
     start \<leftarrow> (if start \<le> since then (if since < 2 ^ 63 - 1 then Some (since + 1) else None) else Some start);
     es \<leftarrow> ring_entries (lb_entries this) [start..lb_next_id this - 1];
     js \<leftarrow> those (map (logbuf_entry_json date_json) (recovered_entries this since start @ es));
     Some (JArray js)
   }"

subsection \<open>Rings\<close>

text \<open>The ring \<open>r\<close> of \<open>C\<close> cells, \<open>z\<close> at first, after the items \<open>ys\<close> were stored one after the other.\<close>

definition ring_holds :: "nat \<Rightarrow> 'a \<Rightarrow> 'a list \<Rightarrow> 'a list \<Rightarrow> bool" where
  "ring_holds C z r ys \<longleftrightarrow> length r = C \<and> (\<forall>k < length ys. length ys \<le> k + C \<longrightarrow> r ! (k mod C) = ys ! k) \<and>
     (\<forall>i < C. length ys \<le> i \<longrightarrow> r ! i = z)"

lemma ring_holds_Nil: "ring_holds C z (replicate C z) []"
  by (simp add: ring_holds_def)

lemma ring_holds_snoc:
  assumes "0 < C" "ring_holds C z r ys"
  shows "ring_holds C z (r[length ys mod C := x]) (ys @ [x])"
proof -
  have "length ys mod C \<noteq> k mod C" if "k < length ys" "Suc (length ys) \<le> k + C" for k
  proof
    assume "length ys mod C = k mod C"
    then have "(length ys - k) mod C = 0" using that(1) by (metis less_imp_le_nat mod_eq_dvd_iff_nat mod_0_imp_dvd dvd_imp_mod_0)
    moreover have "0 < length ys - k" "length ys - k < C" using that by auto
    ultimately show False by simp
  qed
  with assms show ?thesis by (fastforce simp: ring_holds_def nth_append nth_list_update less_Suc_eq)
qed

lemma ring_holds_mset:
  assumes "0 < C" "ring_holds C z r ys" "\<not> P z"
  shows "mset (filter P r) = mset (filter P (drop (length ys - C) ys))"
proof (cases "length ys < C")
  case True
  have "r = ys @ replicate (C - length ys) z"
    by (rule nth_equalityI) (use assms(2) True in \<open>auto simp: ring_holds_def nth_append\<close>)
  with assms(3) True show ?thesis by simp
next
  case False
  let ?m = "length ys - C"
  have "drop ?m ys = rotate ?m r"
    by (rule nth_equalityI) (use assms(1,2) False in \<open>auto simp: ring_holds_def nth_rotate\<close>)
  moreover have "mset (rotate ?m r) = mset r"
    unfolding rotate_drop_take mset_append by (metis append_take_drop_id mset_append union_commute)
  ultimately show ?thesis by (simp add: mset_filter)
qed

subsection \<open>What the buffer shows\<close>

text \<open>The entries of a sequence of calls, with their identifiers, and the last items of a list.\<close>

definition all_entries :: "log_args list \<Rightarrow> logbuf_entry list" where
  "all_entries as = map (\<lambda>i. logbuf_store (int i) (as ! i)) [0..<length as]"

definition last_items :: "nat \<Rightarrow> 'a list \<Rightarrow> 'a list" where
  "last_items n xs = drop (length xs - n) xs"

definition important :: "logbuf_entry \<Rightarrow> bool" where
  "important e \<longleftrightarrow> lb_level e \<le> LOG_WARNING"

fun logbuf_adds :: "log_args list \<Rightarrow> logbuf \<Rightarrow> logbuf option" where
  "logbuf_adds [] b = Some b"
| "logbuf_adds (a # as) b = do { b \<leftarrow> logbuf_add a b; logbuf_adds as b }"

lemma all_entries_snoc: "all_entries (as @ [a]) = all_entries as @ [logbuf_store (int (length as)) a]"
  by (simp add: all_entries_def nth_append)

lemma length_all_entries [simp]: "length (all_entries as) = length as"
  by (simp add: all_entries_def)

lemma logbuf_adds_snoc: "logbuf_adds (as @ [a]) b = do { b \<leftarrow> logbuf_adds as b; logbuf_add a b }"
  by (induction as arbitrary: b) (auto split: bind_splits)

definition logbuf_inv :: "log_args list \<Rightarrow> logbuf \<Rightarrow> bool" where
  "logbuf_inv as b \<longleftrightarrow> ring_holds LOGBUF_CAPACITY zero_entry (lb_entries b) (all_entries as) \<and>
     ring_holds LOGBUF_PRIORITY_CAPACITY zero_entry (priority_entries b) (filter important (all_entries as)) \<and>
     lb_next_id b = int (length as) \<and> priority_next_id b = int (length (filter important (all_entries as)))"

lemma capacities [simp]: "0 < LOGBUF_CAPACITY" "0 < LOGBUF_PRIORITY_CAPACITY"
  by (simp_all add: LOGBUF_CAPACITY_def LOGBUF_PRIORITY_CAPACITY_def)

lemma logbuf_add_inv:
  assumes "logbuf_inv as b"
  shows "\<exists>b'. logbuf_add a b = Some b' \<and> logbuf_inv (as @ [a]) b'"
proof -
  let ?e = "logbuf_store (int (length as)) a" let ?p = "length (filter important (all_entries as))"
  from assms have l: "length (lb_entries b) = LOGBUF_CAPACITY" "length (priority_entries b) = LOGBUF_PRIORITY_CAPACITY"
    "lb_next_id b = int (length as)" "priority_next_id b = int ?p" by (auto simp: logbuf_inv_def ring_holds_def)
  have m: "nat (int n mod int C) = n mod C" for n C by (simp flip: zmod_int)
  have 1: "ring_holds LOGBUF_CAPACITY zero_entry ((lb_entries b)[length as mod LOGBUF_CAPACITY := ?e]) (all_entries (as @ [a]))"
    using ring_holds_snoc[of LOGBUF_CAPACITY zero_entry "lb_entries b" "all_entries as" ?e] assms
    by (simp add: logbuf_inv_def all_entries_snoc)
  have 2: "ring_holds LOGBUF_PRIORITY_CAPACITY zero_entry ((priority_entries b)[?p mod LOGBUF_PRIORITY_CAPACITY := ?e])
      (filter important (all_entries as) @ [?e])"
    using ring_holds_snoc[of LOGBUF_PRIORITY_CAPACITY zero_entry "priority_entries b" "filter important (all_entries as)" ?e] assms
    by (simp add: logbuf_inv_def)
  show ?thesis
  proof (cases "la_level a \<le> LOG_WARNING")
    case True
    then have "important ?e" by (simp add: important_def logbuf_store_def)
    with True 1 2 l show ?thesis by (simp add: logbuf_add_def Let_def m logbuf_inv_def all_entries_snoc)
  next
    case False
    then have "\<not> important ?e" by (simp add: important_def logbuf_store_def)
    with False 1 l assms show ?thesis by (simp add: logbuf_add_def Let_def m logbuf_inv_def all_entries_snoc)
  qed
qed

lemma logbuf_adds_inv: "\<exists>b. logbuf_adds as logbuf_init = Some b \<and> logbuf_inv as b"
proof (induction as rule: rev_induct)
  case Nil
  show ?case by (simp add: logbuf_inv_def logbuf_init_def ring_holds_Nil all_entries_def)
next
  case (snoc a as)
  then show ?case using logbuf_add_inv by (fastforce simp: logbuf_adds_snoc)
qed

lemma subseq_filter_self: "subseq ys xs \<Longrightarrow> distinct xs \<Longrightarrow> filter (\<lambda>x. x \<in> set ys) xs = ys"
proof (induction rule: list_emb.induct)
  case (list_emb_Nil xs)
  show ?case by simp
next
  case (list_emb_Cons ys xs x)
  then have "x \<notin> set ys" by (auto elim: list_emb_set)
  with list_emb_Cons show ?case by simp
next
  case (list_emb_Cons2 x y ys xs)
  then have "filter (\<lambda>z. z = y \<or> z \<in> set ys) xs = filter (\<lambda>z. z \<in> set ys) xs" by (intro filter_cong) auto
  with list_emb_Cons2 show ?case by simp
qed

lemma filter_split_sorted:
  fixes f :: "'a \<Rightarrow> int"
  assumes "sorted (map f xs)"
  shows "filter (\<lambda>e. A e \<and> f e < s) xs @ filter (\<lambda>e. s \<le> f e) xs = filter (\<lambda>e. f e < s \<longrightarrow> A e) xs"
  using assms
proof (induction xs)
  case (Cons x xs)
  show ?case
  proof (cases "f x < s")
    case False
    then have "filter (\<lambda>e. A e \<and> f e < s) xs = []" using Cons.prems by (auto simp: filter_empty_conv)
    with False Cons show ?thesis by simp
  qed (use Cons in simp)
qed simp

lemma those_Somes: "those (map Some xs) = Some xs"
  by (induction xs) auto

lemma all_entries_id: "i < length as \<Longrightarrow> lb_id (all_entries as ! i) = int i"
  by (simp add: all_entries_def logbuf_store_def)

lemma all_entries_ids: "map lb_id (all_entries as) = map int [0..<length as]"
  by (rule nth_equalityI) (simp_all add: all_entries_id)

lemma all_entries_distinct: "distinct (all_entries as)" "inj_on lb_id (set (all_entries as))" "sorted (map lb_id (all_entries as))"
proof -
  have "distinct (map lb_id (all_entries as))" unfolding all_entries_ids by (simp add: distinct_map)
  then show "distinct (all_entries as)" "inj_on lb_id (set (all_entries as))" by (auto simp: distinct_map)
  show "sorted (map lb_id (all_entries as))" unfolding all_entries_ids by (simp add: sorted_map sorted_wrt_upt)
qed

lemma all_entries_id_nonneg: "e \<in> set (all_entries as) \<Longrightarrow> 0 \<le> lb_id e"
  by (auto simp: all_entries_def logbuf_store_def)

lemma last_items_set: "e \<in> set (last_items n (all_entries as)) \<longleftrightarrow> e \<in> set (all_entries as) \<and> int (length as) \<le> lb_id e + int n"
  by (auto simp: last_items_def all_entries_def drop_map logbuf_store_def)

text \<open>The general ring has the entries from a position within its capacity on.\<close>

lemma ring_entries_from:
  assumes "ring_holds LOGBUF_CAPACITY zero_entry es (all_entries as)" "0 \<le> s" "int (length as) \<le> s + int LOGBUF_CAPACITY"
  shows "ring_entries es [s..int (length as) - 1] = Some (filter (\<lambda>e. s \<le> lb_id e) (all_entries as))"
proof -
  have g: "ring_entries es (map int is) = Some (map (\<lambda>i. all_entries as ! i) is)"
    if "\<forall>i \<in> set is. i < length as \<and> length as \<le> i + LOGBUF_CAPACITY" for "is"
    using that assms(1) by (induction "is") (auto simp: ring_holds_def all_entries_id nat_mod_distrib)
  let ?k = "nat s"
  have 1: "[s..int (length as) - 1] = map int [?k..<length as]"
    by (rule nth_equalityI) (use assms(2) in auto)
  have 2: "filter (\<lambda>e. s \<le> lb_id e) (all_entries as) = map (\<lambda>i. all_entries as ! i) [?k..<length as]"
  proof -
    have "filter (\<lambda>i. ?k \<le> i) [0..<n] = [?k..<n]" for n by (induction n) auto
    moreover have "(s \<le> int i) = (?k \<le> i)" for i by auto
    ultimately have "filter (\<lambda>e. s \<le> lb_id e) (all_entries as) = map (\<lambda>i. logbuf_store (int i) (as ! i)) [?k..<length as]"
      by (simp add: all_entries_def filter_map comp_def logbuf_store_def)
    also have "\<dots> = map (\<lambda>i. all_entries as ! i) [?k..<length as]" by (simp add: all_entries_def)
    finally show ?thesis .
  qed
  show ?thesis unfolding 1 2 using assms by (intro g) auto
qed

lemma recovered_eq:
  assumes "ring_holds LOGBUF_PRIORITY_CAPACITY zero_entry (priority_entries b) (filter important (all_entries as))"
  shows "recovered_entries b since start = filter (\<lambda>e. (since < lb_id e \<and>
      e \<in> set (last_items LOGBUF_PRIORITY_CAPACITY (filter important (all_entries as)))) \<and> lb_id e < start) (all_entries as)"
proof -
  let ?E = "all_entries as" let ?L = "last_items LOGBUF_PRIORITY_CAPACITY (filter important ?E)"
  let ?Q = "\<lambda>e. lb_message e \<noteq> None \<and> lb_id e > since \<and> lb_id e < start"
  have sub: "subseq ?L ?E" unfolding last_items_def
    using suffix_imp_subseq[OF suffix_drop] subseq_filter_left by (rule subseq_order.order_trans)
  have L: "filter (\<lambda>e. e \<in> set ?L) ?E = ?L" by (rule subseq_filter_self[OF sub all_entries_distinct(1)])
  have m: "lb_message e \<noteq> None" if "e \<in> set ?E" for e using that by (auto simp: all_entries_def logbuf_store_def)
  have "filter ?Q ?L = filter ?Q (filter (\<lambda>e. e \<in> set ?L) ?E)" by (simp only: L)
  also have "\<dots> = filter (\<lambda>e. (since < lb_id e \<and> e \<in> set ?L) \<and> lb_id e < start) ?E"
    unfolding filter_filter by (rule filter_cong) (auto dest: m)
  finally have f: "filter ?Q ?L = \<dots>" .
  have ms: "mset (filter ?Q (priority_entries b)) = mset (filter ?Q ?L)"
    unfolding last_items_def by (rule ring_holds_mset[OF _ assms]) (simp_all add: zero_entry_def)
  have "inj_on lb_id (set (filter ?Q (priority_entries b)))"
    unfolding mset_eq_setD[OF ms] f by (rule inj_on_subset[OF all_entries_distinct(2)]) auto
  moreover have "sorted (map lb_id (filter ?Q ?L))" unfolding f using all_entries_distinct(3) by (rule sorted_filter)
  ultimately have "sort_key lb_id (filter ?Q (priority_entries b)) = filter ?Q ?L"
    using ms by (intro sort_key_inj_key_eq)
  then show ?thesis unfolding recovered_entries_def f .
qed

text \<open>
  C20: The log view of the console. After any sequence of log messages, the entries newer than a given
  identifier that the buffer returns are, in the order in which they were logged and each one once, those of the
  last 500 messages and those of the last 200 messages of the level warning or worse; the identifiers are the
  numbers of the messages.
\<close>
theorem logbuf_since_correct:
  assumes "since < 2 ^ 63 - 1"
  shows "\<exists>b js. logbuf_adds as logbuf_init = Some b \<and> logbuf_json_since date_json b since = Some (JArray js) \<and>
    map Some js = map (logbuf_entry_json date_json) (filter (\<lambda>e. since < lb_id e \<and>
      (e \<in> set (last_items 500 (all_entries as)) \<or> e \<in> set (last_items 200 (filter important (all_entries as))))) (all_entries as))"
proof -
  obtain b where b: "logbuf_adds as logbuf_init = Some b" "logbuf_inv as b" using logbuf_adds_inv by blast
  let ?n = "int (length as)" let ?E = "all_entries as"
  let ?s = "if ?n > int LOGBUF_CAPACITY then ?n - int LOGBUF_CAPACITY else 0"
  let ?t = "if ?s \<le> since then since + 1 else ?s"
  let ?A = "\<lambda>e. since < lb_id e \<and> e \<in> set (last_items LOGBUF_PRIORITY_CAPACITY (filter important ?E))"
  let ?F = "filter (\<lambda>e. since < lb_id e \<and> (e \<in> set (last_items 500 ?E) \<or> e \<in> set (last_items 200 (filter important ?E)))) ?E"
  have r: "ring_entries (lb_entries b) [?t..lb_next_id b - 1] = Some (filter (\<lambda>e. ?t \<le> lb_id e) ?E)"
    using b(2) ring_entries_from[of "lb_entries b" as ?t] by (auto simp: logbuf_inv_def)
  have "recovered_entries b since ?t @ filter (\<lambda>e. ?t \<le> lb_id e) ?E = filter (\<lambda>e. lb_id e < ?t \<longrightarrow> ?A e) ?E"
    using recovered_eq[of b as since ?t] b(2) filter_split_sorted[OF all_entries_distinct(3), of ?A ?t as] by (simp add: logbuf_inv_def)
  also have "\<dots> = ?F"
    by (rule filter_cong) (auto dest: all_entries_id_nonneg simp: last_items_set LOGBUF_CAPACITY_def LOGBUF_PRIORITY_CAPACITY_def split: if_splits)
  finally have F: "recovered_entries b since ?t @ filter (\<lambda>e. ?t \<le> lb_id e) ?E = ?F" .
  have "\<exists>j. logbuf_entry_json date_json e = Some j" if "e \<in> set ?E" for e
    using that by (auto simp: logbuf_entry_json_def all_entries_def logbuf_store_def)
  then have "\<exists>js. map Some js = map (logbuf_entry_json date_json) ?F"
    by (intro exI[of _ "map (\<lambda>e. the (logbuf_entry_json date_json e)) ?F"]) fastforce
  then obtain js where js: "map (logbuf_entry_json date_json) ?F = map Some js" by metis
  have t: "(if ?s \<le> since then (if since < 2 ^ 63 - 1 then Some (since + 1) else None) else Some ?s) = Some ?t" using assms by simp
  have n: "lb_next_id b = ?n" using b(2) by (simp add: logbuf_inv_def)
  have "logbuf_json_since date_json b since = Some (JArray js)"
    unfolding logbuf_json_since_def Let_def n t bind.bind_lunit r[unfolded n] F js by (simp add: those_Somes)
  with b(1) js show ?thesis by metis
qed

theorem logbuf_since_correct_witness:
  "\<exists>b j k. logbuf_adds [\<lparr>la_level = 6, la_thread_id = -1, la_connection_id = 0, la_remote_ip = None, la_remote_port = 0, la_ts = (0, 0), la_message = ''a''\<rparr>,
      \<lparr>la_level = 3, la_thread_id = -1, la_connection_id = 7, la_remote_ip = Some ''::1'', la_remote_port = 80, la_ts = (1, 0), la_message = ''b''\<rparr>] logbuf_init = Some b \<and>
    logbuf_json_since (\<lambda>_. []) b (- 1) = Some (JArray [j, k]) \<and> logbuf_json_since (\<lambda>_. []) b 0 = Some (JArray [k])"
proof -
  let ?as = "[\<lparr>la_level = 6, la_thread_id = -1, la_connection_id = 0, la_remote_ip = None, la_remote_port = 0, la_ts = (0, 0), la_message = ''a''\<rparr>,
      \<lparr>la_level = 3, la_thread_id = -1, la_connection_id = 7, la_remote_ip = Some ''::1'', la_remote_port = 80, la_ts = (1, 0), la_message = ''b''\<rparr>]"
  have E: "all_entries ?as = [logbuf_store 0 (?as ! 0), logbuf_store 1 (?as ! 1)]" by (simp add: all_entries_def)
  from logbuf_since_correct[of "- 1" ?as "\<lambda>_. []"] obtain b js where 1: "logbuf_adds ?as logbuf_init = Some b" "logbuf_json_since (\<lambda>_. []) b (- 1) = Some (JArray js)"
    "map Some js = map (logbuf_entry_json (\<lambda>_. [])) (all_entries ?as)"
    unfolding E by (auto simp: last_items_def logbuf_store_def)
  from logbuf_since_correct[of 0 ?as "\<lambda>_. []"] 1(1) obtain ks where 2: "logbuf_json_since (\<lambda>_. []) b 0 = Some (JArray ks)"
    "map Some ks = map (logbuf_entry_json (\<lambda>_. [])) [all_entries ?as ! 1]"
    unfolding E by (auto simp: last_items_def logbuf_store_def)
  from 1(3) 2(2) obtain j k where "js = [j, k]" "ks = [k]" unfolding E by (auto simp: logbuf_entry_json_def logbuf_store_def)
  with 1 2 show ?thesis by blast
qed

end
