(* ===== verification/Ntrip_Task.thy ===== *)
theory Ntrip_Task
  imports Ntripsrv Logbuf C_Format
begin

text \<open>
  The tasks that make outgoing connections (\<^verbatim>\<open>caster/ntrip_task.c\<close>) and the requests they send
  (\<^verbatim>\<open>caster/ntripcli.c\<close>). A task has at most one connection, a queue of contents to send, of which the
  first \<open>pending\<close> ones are sent and not acknowledged yet, and a timer for its next start. The contents of
  the queue are the data of the packets. The state is \<open>net\<close>: that of the server with its sessions, what an
  outgoing connection has besides the session, the tasks, and the files the queues are drained to. The
  environment says whether a file can be opened and how \<open>filedate\<close> expands a name. Allocations succeed; a
  failed assertion, a read of a NULL pointer and a size that would wrap around are \<^const>\<open>None\<close>. The delay of the
  next attempt is doubled as an int of 32 bits. Of the messages that are logged the model keeps those of \<open>ntrip_task_queue\<close>, which
  tell what was lost, in \<open>nw_logged\<close>.
\<close>

subsection \<open>State\<close>

datatype task_state = TASK_INIT | TASK_RUNNING | TASK_END

text \<open>The users of a task, whose callbacks it has.\<close>

datatype task_owner = Syncer | Graylog_sender | Fetcher | Redistribute

record ntrip_task =
  tk_refcnt :: int
  tk_host :: "cstring option"
  tk_port :: "16 word"
  tk_tls :: int
  tk_type :: cstring
  tk_method :: cstring
  tk_uri :: "cstring option"
  refresh_delay :: int
  max_retry_delay :: int
  current_retry_delay :: int
  status_timeout :: int
  tk_headers :: headers
  tk_owner :: task_owner
  cb_arg2 :: nat
  tk_st :: "nat option"
  tk_state :: task_state
  tk_ev :: "int option"
  tk_keepalive :: bool
  mimeq :: "cstring list"
  pending :: nat
  queue_size :: nat
  queue_max_size :: nat
  use_mimeq :: bool
  bulk_max_size :: nat
  bulk_content_type :: cstring
  tk_nograylog :: bool
  drainfilename :: "cstring option"
  tk_read_timeout :: int
  tk_write_timeout :: int

record out_conn =
  oc_host :: cstring
  oc_port :: "16 word"
  oc_uri :: cstring
  oc_status_code :: int
  oc_task :: "nat option"
  oc_client :: bool
  oc_persistent :: bool
  oc_nograylog :: bool
  oc_timeouts :: "int \<times> int"

text \<open>What the fetcher of a sourcetable and the fetcher of a source have besides their task.\<close>

record fetch_args =
  fa_sourcetable :: "sourcetable option"
  fa_priority :: int
  fa_json_config :: "json option"

record redistribute_cb_args =
  rd_mountpoint :: cstring
  rd_endpoint :: endpoint
  rd_persistent :: bool
  rd_livesource :: cstring
  rd_timeout :: int
  rd_freed :: bool

text \<open>The tasks of the syncer are an array; the other users have one task each, which identifies them.\<close>

record net =
  nw_srv :: srv
  nw_out :: "nat \<Rightarrow> out_conn"
  nw_tasks :: "nat \<Rightarrow> ntrip_task"
  nw_files :: "cstring \<Rightarrow> cstring option"
  nw_syncer :: "nat list"
  nw_fetch :: "nat \<Rightarrow> fetch_args"
  nw_redistribute :: "nat \<Rightarrow> redistribute_cb_args"
  nw_logged :: "(int \<times> cstring) list"

record net_env =
  ne_srv :: srv_env
  ne_filedate :: "cstring \<Rightarrow> cstring"
  ne_can_open :: "cstring \<Rightarrow> bool"
  ne_json_text :: "json \<Rightarrow> cstring"
  ne_endpoints_json :: json
  ne_strftime :: "int \<Rightarrow> cstring"
  ne_table_json :: "sourcetable \<Rightarrow> json option"
  ne_host_auth :: "auth_entry list option"

abbreviation task :: "net \<Rightarrow> nat \<Rightarrow> ntrip_task" where
  "task w t \<equiv> nw_tasks w t"

abbreviation osess :: "net \<Rightarrow> nat \<Rightarrow> ntrip_state" where
  "osess w c \<equiv> sess (nw_srv w) c"

definition set_task :: "nat \<Rightarrow> ntrip_task \<Rightarrow> net \<Rightarrow> net" where
  "set_task t x w = w\<lparr>nw_tasks := (nw_tasks w)(t := x)\<rparr>"

definition set_osess :: "nat \<Rightarrow> ntrip_state \<Rightarrow> net \<Rightarrow> net" where
  "set_osess c st w = w\<lparr>nw_srv := set_sess c st (nw_srv w)\<rparr>"

definition set_out :: "nat \<Rightarrow> out_conn \<Rightarrow> net \<Rightarrow> net" where
  "set_out c x w = w\<lparr>nw_out := (nw_out w)(c := x)\<rparr>"

text \<open>Operations of the connections, lifted.\<close>

definition on_conns :: "(conns \<Rightarrow> conns option) \<Rightarrow> net \<Rightarrow> net option" where
  "on_conns f w = map_option (\<lambda>cs. w\<lparr>nw_srv := (nw_srv w)\<lparr>sv_conns := cs\<rparr>\<rparr>) (f (sv_conns (nw_srv w)))"

definition on_srv :: "(srv \<Rightarrow> srv option) \<Rightarrow> net \<Rightarrow> net option" where
  "on_srv f w = map_option (\<lambda>s. w\<lparr>nw_srv := s\<rparr>) (f (nw_srv w))"

subsection \<open>A task and its connection\<close>

definition ntrip_task_new ::
  "cstring option \<Rightarrow> 16 word \<Rightarrow> cstring option \<Rightarrow> int \<Rightarrow> int \<Rightarrow> nat \<Rightarrow> nat \<Rightarrow> cstring \<Rightarrow> cstring option \<Rightarrow> ntrip_task \<Rightarrow> ntrip_task" where
  "ntrip_task_new host port uri tls refresh bulk_max queue_max type drainfile junk = junk\<lparr>
     tk_host := host, tk_uri := uri, tk_refcnt := refcnt_init, tk_port := port, status_timeout := 0, refresh_delay := refresh,
     max_retry_delay := refresh, current_retry_delay := refresh, tk_st := None, tk_ev := None, tk_type := type, tk_tls := tls,
     tk_method := ''GET'', tk_keepalive := False, use_mimeq := False, pending := 0, tk_read_timeout := 0, tk_write_timeout := 0,
     tk_headers := [], mimeq := [], tk_state := TASK_INIT, bulk_max_size := bulk_max, queue_max_size := queue_max, queue_size := 0,
     tk_nograylog := False, drainfilename := drainfile\<rparr>"

definition ntrip_task_clear_get_st :: "nat \<Rightarrow> net \<Rightarrow> nat option \<times> net" where
  "ntrip_task_clear_get_st t w =
     (case tk_st (task w t) of
        None \<Rightarrow> (None, w)
      | Some c \<Rightarrow> (Some c, set_task t ((task w t)\<lparr>tk_st := None\<rparr>) (set_out c ((nw_out w c)\<lparr>oc_task := None\<rparr>) w)))"

definition ntrip_task_clear_st :: "nat \<Rightarrow> net \<Rightarrow> net option" where
  "ntrip_task_clear_st t w =
     (case ntrip_task_clear_get_st t w of
        (None, w) \<Rightarrow> Some w
      | (Some c, w) \<Rightarrow> on_conns (\<lambda>cs. ntrip_decref cs c) w)"

definition ntrip_task_get_st_ref :: "nat \<Rightarrow> net \<Rightarrow> (nat option \<times> net) option" where
  "ntrip_task_get_st_ref t w =
     (case tk_st (task w t) of
        None \<Rightarrow> Some (None, w)
      | Some c \<Rightarrow> do { w \<leftarrow> on_conns (\<lambda>cs. ntrip_incref cs c) w; Some (Some c, w) })"

definition ntrip_task_set_st :: "nat \<Rightarrow> nat \<Rightarrow> net \<Rightarrow> net option" where
  "ntrip_task_set_st t c w = do {
     w \<leftarrow> on_conns (\<lambda>cs. ntrip_incref cs c) w;
     Some (set_task t ((task w t)\<lparr>tk_st := Some c\<rparr>) w)
   }"

text \<open>The second reference that is dropped is that of the task, the third one protects the session here.\<close>

definition ntrip_task_stop :: "nat \<Rightarrow> net \<Rightarrow> net option" where
  "ntrip_task_stop t w =
     (if tk_state (task w t) = TASK_END then Some w
      else do {
        let w = set_task t ((task w t)\<lparr>tk_state := TASK_END, pending := 0, tk_ev := None\<rparr>) w;
        (st, w) \<leftarrow> ntrip_task_get_st_ref t w;
        case st of
          None \<Rightarrow> Some w
        | Some c \<Rightarrow> do {
            let (st2, w) = ntrip_task_clear_get_st t w;
            w \<leftarrow> (case st2 of
                    Some c2 \<Rightarrow> do {
                      w \<leftarrow> on_srv (\<lambda>s. srv_decref_end s c2) w;
                      on_conns (\<lambda>cs. ntrip_decref cs c2) w
                    }
                  | None \<Rightarrow> if nt_state (osess w c) = NTRIP_END then Some w else None);
            on_conns (\<lambda>cs. ntrip_decref cs c) w
          }
      })"

definition ntrip_task_reschedule :: "nat \<Rightarrow> net \<Rightarrow> net" where
  "ntrip_task_reschedule t w =
     (let x = task w t in
      if tk_state x = TASK_END then w
      else
        let x = x\<lparr>pending := 0\<rparr> in
        if refresh_delay x \<noteq> 0 then
          let d = current_retry_delay x;
              n = c_int ((if d \<noteq> 0 then d else 1) * 2)
          in set_task t (x\<lparr>tk_ev := Some d, current_retry_delay := (if n > max_retry_delay x then max_retry_delay x else n)\<rparr>) w
        else set_task t x w)"

subsection \<open>Requests\<close>

definition client_ntrip_version :: cstring where "client_ntrip_version = ''Ntrip/2.0''"

definition client_user_agent :: cstring where "client_user_agent = ''NTRIP Chilopod Client 0.8.1''"

fun strcat_headers :: "nat \<Rightarrow> cstring \<Rightarrow> headers \<Rightarrow> cstring option" where
  "strcat_headers s r [] = Some r"
| "strcat_headers s r ((k, v) # hs) = do {
     r \<leftarrow> strcat_buf s r k;
     r \<leftarrow> strcat_buf s r '': '';
     r \<leftarrow> strcat_buf s r v;
     r \<leftarrow> strcat_buf s r crlf;
     strcat_headers s r hs
   }"

definition headers_len :: "headers \<Rightarrow> nat" where
  "headers_len hs = sum_list (map (\<lambda>(k, v). length k + length v + 4) hs)"

text \<open>The headers that every request has; the content is given by its length and its type.\<close>

definition request_headers :: "bool \<Rightarrow> cstring \<Rightarrow> 16 word \<Rightarrow> int \<Rightarrow> (nat \<times> cstring) option \<Rightarrow> headers" where
  "request_headers keepalive host port version m =
     [(''Host'', host_port_str host (unat port)), (''User-Agent'', client_user_agent),
      (''Content-Length'', take 19 (c_show_nat (case m of None \<Rightarrow> 0 | Some (len, _) \<Rightarrow> len)))] @
     (case m of None \<Rightarrow> [] | Some (_, type) \<Rightarrow> [(''Content-Type'', type)]) @
     [(''Connection'', if keepalive then ''keep-alive'' else ''close'')] @
     (if version = 2 then [(''Ntrip-Version'', client_ntrip_version)] else [])"

definition ntripcli_http_request_str ::
  "net \<Rightarrow> nat \<Rightarrow> cstring \<Rightarrow> cstring \<Rightarrow> 16 word \<Rightarrow> cstring \<Rightarrow> int \<Rightarrow> (nat \<times> cstring) option \<Rightarrow> cstring option" where
  "ntripcli_http_request_str w c meth host port uri version m = do {
     let hs = request_headers (connection_keepalive (osess w c)) host port version m;
     let ths = (case oc_task (nw_out w c) of None \<Rightarrow> [] | Some t \<Rightarrow> tk_headers (task w t));
     let hlen = headers_len hs + headers_len ths;
     let s = length ''%s %s HTTP/1.1'' + length meth + length uri + hlen + 2;
     let r = take (s - 1) (meth @ '' '' @ uri @ '' HTTP/1.1'');
     r \<leftarrow> strcat_buf s r crlf;
     r \<leftarrow> strcat_headers s r hs;
     r \<leftarrow> strcat_headers s r ths;
     strcat_buf s r crlf
   }"

text \<open>No caller asks for the content to be sent with the request.\<close>

definition ntripcli_send_request :: "nat \<Rightarrow> (nat \<times> cstring) option \<Rightarrow> net \<Rightarrow> net option" where
  "ntripcli_send_request c m w = do {
     let x = nw_out w c;
     let meth = (case oc_task x of None \<Rightarrow> ''GET'' | Some t \<Rightarrow> tk_method (task w t));
     s \<leftarrow> ntripcli_http_request_str w c meth (oc_host x) (oc_port x) (oc_uri x) 2 m;
     let st = osess w c;
     Some (set_osess c (st\<lparr>nt_output := nt_output st @ s, nt_sent := nt_sent st + length s, nt_state := NTRIP_WAIT_HTTP_STATUS\<rparr>) w)
   }"

text \<open>\<open>packet_send\<close> with the data of a packet.\<close>

definition send_data :: "nat \<Rightarrow> cstring \<Rightarrow> net \<Rightarrow> net" where
  "send_data c s w =
     (let st = osess w c in set_osess c (st\<lparr>nt_output := nt_output st @ s, nt_sent := nt_sent st + length s\<rparr>) w)"

subsection \<open>The queue\<close>

text \<open>The number of items of a bulk request and their size with the line feeds.\<close>

fun bulk_items :: "nat \<Rightarrow> nat \<Rightarrow> nat \<Rightarrow> cstring list \<Rightarrow> nat \<times> nat" where
  "bulk_items max_size sz n [] = (n, sz)"
| "bulk_items max_size sz n (m # ms) =
     (if sz + length m + 1 > max_size then (n, sz) else bulk_items max_size (sz + length m + 1) (n + 1) ms)"

text \<open>The line feed that follows an item is not counted in \<open>sent_bytes\<close>.\<close>

fun send_items :: "nat \<Rightarrow> cstring list \<Rightarrow> net \<Rightarrow> net" where
  "send_items c [] w = w"
| "send_items c (m # ms) w =
     (let w = send_data c m w; st = osess w c
      in send_items c ms (set_osess c (st\<lparr>nt_output := nt_output st @ [CHR 0x0A]\<rparr>) w))"

definition set_read_timeout :: "nat \<Rightarrow> int \<Rightarrow> net \<Rightarrow> net" where
  "set_read_timeout c d w = set_out c ((nw_out w c)\<lparr>oc_timeouts := (d, 0)\<rparr>) w"

definition ntrip_task_send_next_request :: "nat \<Rightarrow> net \<Rightarrow> net option" where
  "ntrip_task_send_next_request c w = do {
     t \<leftarrow> oc_task (nw_out w c);
     let x = task w t;
     if nt_state (osess w c) \<noteq> NTRIP_IDLE_CLIENT \<or> pending x \<noteq> 0 then None
     else if bulk_max_size x \<noteq> 0 then do {
       let (n, sz) = bulk_items (bulk_max_size x) 0 0 (mimeq x);
       if n = 0 then Some w
       else do {
         w \<leftarrow> ntripcli_send_request c (Some (sz, bulk_content_type x)) w;
         let w = send_items c (take n (mimeq x)) w;
         let w = set_task t ((task w t)\<lparr>pending := n\<rparr>) w;
         Some (set_read_timeout c (status_timeout x) w)
       }
     }
     else
       (case mimeq x of
          [] \<Rightarrow> Some (set_read_timeout c 0 w)
        | m # _ \<Rightarrow> do {
            w \<leftarrow> ntripcli_send_request c (Some (length m, ''application/json'')) w;
            let w = send_data c m w;
            let w = set_task t ((task w t)\<lparr>pending := 1\<rparr>) w;
            Some (set_read_timeout c (status_timeout x) w)
          })
   }"

text \<open>The items that are not being sent leave the queue; the result is their size.\<close>

definition ntrip_task_drain_queue :: "net_env \<Rightarrow> nat \<Rightarrow> net \<Rightarrow> (nat \<times> net) option" where
  "ntrip_task_drain_queue env t w =
     (let x = task w t; kept = take (pending x) (mimeq x); rest = drop (pending x) (mimeq x);
          moved = sum_list (map length kept); r = queue_size x - moved
      in if length (mimeq x) < pending x \<or> queue_size x < moved then None
         else
           let w = set_task t (x\<lparr>mimeq := kept, queue_size := moved\<rparr>) w in
           if r = 0 then Some (0, w)
           else
             (case drainfilename x of
                None \<Rightarrow> Some (r, w)
              | Some f \<Rightarrow>
                  let name = ne_filedate env f in
                  if ne_can_open env name then
                    Some (r, w\<lparr>nw_files := (nw_files w)(name \<mapsto>
                      (case nw_files w name of None \<Rightarrow> [] | Some s \<Rightarrow> s) @ concat (map (\<lambda>m. m @ [CHR 0x0A]) rest))\<rparr>)
                  else Some (r, w)))"

text \<open>The messages that the queue logs; \<open>%d\<close> prints a size as an int.\<close>

definition show_size :: "nat \<Rightarrow> cstring" where
  "show_size n = c_show_int (sint (of_nat n :: 32 word))"

definition drained_message :: "nat \<Rightarrow> cstring" where
  "drained_message r = ''Backlog queue was '' @ show_size r @ '' bytes, drained''"

definition too_big_message :: "nat \<Rightarrow> nat \<Rightarrow> cstring" where
  "too_big_message len mx = ''Log message '' @ show_size len @ '' bytes, bigger than max '' @ show_size mx @ '' bytes, dropping''"

definition task_log :: "int \<Rightarrow> cstring \<Rightarrow> net \<Rightarrow> net" where
  "task_log level msg w = w\<lparr>nw_logged := nw_logged w @ [(level, msg)]\<rparr>"

definition over_max :: "nat \<Rightarrow> cstring \<Rightarrow> net \<Rightarrow> bool" where
  "over_max t m w \<longleftrightarrow> length m + queue_size (task w t) > queue_max_size (task w t)"

definition over_bulk :: "nat \<Rightarrow> cstring \<Rightarrow> net \<Rightarrow> bool" where
  "over_bulk t m w \<longleftrightarrow> bulk_max_size (task w t) \<noteq> 0 \<and> length m > bulk_max_size (task w t) - 1"

definition insert_item :: "nat \<Rightarrow> cstring \<Rightarrow> net \<Rightarrow> net" where
  "insert_item t m w = set_task t ((task w t)\<lparr>mimeq := mimeq (task w t) @ [m], queue_size := queue_size (task w t) + length m\<rparr>) w"

definition restart_sending :: "nat \<Rightarrow> net \<Rightarrow> net option" where
  "restart_sending t w = do {
     (st, w) \<leftarrow> ntrip_task_get_st_ref t w;
     case st of
       None \<Rightarrow> Some w
     | Some c \<Rightarrow> do {
         w \<leftarrow> (if nt_state (osess w c) = NTRIP_IDLE_CLIENT then ntrip_task_send_next_request c w else Some w);
         on_conns (\<lambda>cs. ntrip_decref cs c) w
       }
   }"

text \<open>
  The sections that the code runs under the lock of the queue, one after the other, are one step here. A message is
  logged at the point where the code logs it. For the task of the Graylog sender the log itself queues an
  entry on the same task before the call goes on; that is \<open>vlogall\<close> of \<open>Logs\<close>, which is made of the
  same parts, and for such a task this definition describes the calls that log nothing.
\<close>

definition ntrip_task_queue :: "net_env \<Rightarrow> nat \<Rightarrow> cstring \<Rightarrow> net \<Rightarrow> net option" where
  "ntrip_task_queue env t m w =
     (if tk_state (task w t) = TASK_END then Some w
      else do {
        w \<leftarrow> (if over_max t m w then do {
                (r, w) \<leftarrow> ntrip_task_drain_queue env t w;
                Some (task_log LOG_CRIT (drained_message r) w)
              }
              else Some w);
        let w = (if over_bulk t m w then task_log LOG_ERR (too_big_message (length m) (bulk_max_size (task w t) - 1)) w
                 else insert_item t m w);
        restart_sending t w
      })"

definition ntrip_task_ack_pending :: "nat \<Rightarrow> net \<Rightarrow> net option" where
  "ntrip_task_ack_pending t w =
     (let x = task w t; n = pending x; sz = sum_list (map length (take n (mimeq x))) in
      if tk_state x = TASK_END then Some w
      else if length (mimeq x) < n \<or> queue_size x < sz then None
      else Some (set_task t (x\<lparr>mimeq := drop n (mimeq x), pending := 0, queue_size := queue_size x - sz\<rparr>) w))"

text \<open>Neither the host, the port and the TLS flag nor the delays of the retries change.\<close>

definition ntrip_task_reload :: "nat \<Rightarrow> cstring \<Rightarrow> int \<Rightarrow> nat \<Rightarrow> nat \<Rightarrow> cstring option \<Rightarrow> net \<Rightarrow> net option" where
  "ntrip_task_reload t uri refresh bulk_max queue_max drainfile w = do {
     w \<leftarrow> ntrip_task_stop t w;
     Some (set_task t ((task w t)\<lparr>refresh_delay := refresh, bulk_max_size := bulk_max, queue_max_size := queue_max,
       tk_uri := Some uri, drainfilename := drainfile\<rparr>) w)
   }"

definition ntrip_task_free :: "net_env \<Rightarrow> nat \<Rightarrow> net \<Rightarrow> net option" where
  "ntrip_task_free env t w = do {
     w \<leftarrow> ntrip_task_stop t w;
     (_, w) \<leftarrow> ntrip_task_drain_queue env t w;
     if tk_st (task w t) \<noteq> None then None else Some (set_task t ((task w t)\<lparr>tk_ev := None\<rparr>) w)
   }"

definition ntrip_task_decref :: "net_env \<Rightarrow> nat \<Rightarrow> net \<Rightarrow> net option" where
  "ntrip_task_decref env t w = do {
     (n, freed) \<leftarrow> refcnt_decref (tk_refcnt (task w t));
     let w = set_task t ((task w t)\<lparr>tk_refcnt := n\<rparr>) w;
     if freed then ntrip_task_free env t w else Some w
   }"

definition ntrip_task_incref :: "nat \<Rightarrow> net \<Rightarrow> net option" where
  "ntrip_task_incref t w = do {
     n \<leftarrow> refcnt_incref (tk_refcnt (task w t));
     Some (set_task t ((task w t)\<lparr>tk_refcnt := n\<rparr>) w)
   }"

end
