(* ===== verification/Ntripcli.thy ===== *)
theory Ntripcli
  imports Ntrip_Task
begin

text \<open>
  Outgoing connections (\<^verbatim>\<open>caster/ntripcli.c\<close>) and the users of the tasks that make them: the syncer, which
  sends the changes of the table of live sources to other nodes (\<^verbatim>\<open>caster/syncer.c\<close>), the sender of log
  entries (\<^verbatim>\<open>caster/graylog_sender.c\<close>), the fetcher of sourcetables (\<^verbatim>\<open>caster/fetcher_sourcetable.c\<close>) and the
  fetcher of sources (\<^verbatim>\<open>caster/redistribute.c\<close>). TLS contexts, DNS and the sockets are outside: whether a
  connection can be made is an argument. An array access out of range and a read of a NULL pointer are
  \<^const>\<open>None\<close>.
\<close>

subsection \<open>The syncer\<close>

definition queue_json :: "net_env \<Rightarrow> nat \<Rightarrow> json \<Rightarrow> net \<Rightarrow> net option" where
  "queue_json env t j w = ntrip_task_queue env t (ne_json_text env j) w"

definition queue_full :: "net_env \<Rightarrow> nat \<Rightarrow> net \<Rightarrow> net option" where
  "queue_full env t w = do {
     j \<leftarrow> livesource_full_update_json (ne_endpoints_json env) (sv_live (nw_srv w));
     queue_json env t j w
   }"

definition queue_checkserial :: "net_env \<Rightarrow> nat \<Rightarrow> net \<Rightarrow> net option" where
  "queue_checkserial env n w = do {
     t \<leftarrow> buf_get (nw_syncer w) n;
     queue_json env t (livesource_checkserial_json (sv_live (nw_srv w))) w
   }"

text \<open>The session is looked at for the log only.\<close>

fun syncer_queue_tasks :: "net_env \<Rightarrow> cstring \<Rightarrow> nat list \<Rightarrow> net \<Rightarrow> net option" where
  "syncer_queue_tasks env s [] w = Some w"
| "syncer_queue_tasks env s (t # ts) w = do {
     (st, w) \<leftarrow> ntrip_task_get_st_ref t w;
     w \<leftarrow> (case st of None \<Rightarrow> Some w | Some c \<Rightarrow> on_conns (\<lambda>cs. ntrip_decref cs c) w);
     w \<leftarrow> ntrip_task_queue env t s w;
     syncer_queue_tasks env s ts w
   }"

definition syncer_queue :: "net_env \<Rightarrow> cstring \<Rightarrow> net \<Rightarrow> net option" where
  "syncer_queue env s w = syncer_queue_tasks env s (nw_syncer w) w"

definition syncer_queue_json :: "net_env \<Rightarrow> json option \<Rightarrow> net \<Rightarrow> net option" where
  "syncer_queue_json env j w =
     (case j of
        None \<Rightarrow> Some w
      | Some j \<Rightarrow> if nw_syncer w \<noteq> [] then syncer_queue env (ne_json_text env j) w else Some w)"

text \<open>The callbacks find their task by its position in the array.\<close>

definition syncer_end_cb :: "net_env \<Rightarrow> nat \<Rightarrow> net \<Rightarrow> net option" where
  "syncer_end_cb env n w = do {
     t \<leftarrow> buf_get (nw_syncer w) n;
     w \<leftarrow> ntrip_task_clear_st t w;
     w \<leftarrow> queue_checkserial env n w;
     Some (ntrip_task_reschedule t w)
   }"

definition syncer_status_cb :: "net_env \<Rightarrow> nat \<Rightarrow> net \<Rightarrow> net option" where
  "syncer_status_cb env n w = do {
     t \<leftarrow> buf_get (nw_syncer w) n;
     c \<leftarrow> tk_st (task w t);
     w \<leftarrow> ntrip_task_ack_pending t w;
     if oc_status_code (nw_out w c) \<noteq> 200 then queue_full env t w else Some w
   }"

subsection \<open>The sender of log entries\<close>

definition graylog_sender_queue :: "net_env \<Rightarrow> nat \<Rightarrow> cstring \<Rightarrow> net \<Rightarrow> net option" where
  "graylog_sender_queue env t s w = ntrip_task_queue env t s w"

definition graylog_end_cb :: "nat \<Rightarrow> net \<Rightarrow> net option" where
  "graylog_end_cb t w = map_option (ntrip_task_reschedule t) (ntrip_task_clear_st t w)"

definition graylog_status_cb :: "nat \<Rightarrow> int \<Rightarrow> net \<Rightarrow> net option" where
  "graylog_status_cb t status w = do {
     c \<leftarrow> tk_st (task w t);
     let w = (if status = 202 then set_out c ((nw_out w c)\<lparr>oc_status_code := 200\<rparr>) w else w);
     if oc_status_code (nw_out w c) = 200 then ntrip_task_ack_pending t w else Some w
   }"

subsection \<open>The fetcher of sourcetables\<close>

definition set_fetch :: "nat \<Rightarrow> sourcetable option \<Rightarrow> net \<Rightarrow> net" where
  "set_fetch t s w = w\<lparr>nw_fetch := (nw_fetch w)(t := (nw_fetch w t)\<lparr>fa_sourcetable := s\<rparr>)\<rparr>"

definition sourcetable_end_cb :: "bool \<Rightarrow> nat \<Rightarrow> net \<Rightarrow> net option" where
  "sourcetable_end_cb ok t w = do {
     let w = (if ok then w else set_fetch t None w);
     w \<leftarrow> ntrip_task_clear_st t w;
     Some (ntrip_task_reschedule t w)
   }"

definition add_field :: "cstring \<Rightarrow> json \<Rightarrow> json \<Rightarrow> json" where
  "add_field k v j = (case j of JObject fs \<Rightarrow> JObject (fs @ [(k, v)]) | _ \<Rightarrow> j)"

text \<open>A complete sourcetable replaces that of the host in the stack and goes to the other nodes.\<close>

definition sourcetable_loaded :: "net_env \<Rightarrow> nat \<Rightarrow> sourcetable \<Rightarrow> net \<Rightarrow> net option" where
  "sourcetable_loaded env t s w = do {
     _ \<leftarrow> tk_st (task w t);
     host \<leftarrow> tk_host (task w t);
     let s = s\<lparr>fetch_time := se_now (ne_srv env), st_pullable := True\<rparr>;
     let sv = nw_srv w;
     let w = w\<lparr>nw_srv := sv\<lparr>sv_stack := stack_replace_host (sv_stack sv) host (tk_port (task w t)) (Some s)\<rparr>\<rparr>;
     w \<leftarrow> (if nw_syncer w \<noteq> [] then do {
             j \<leftarrow> sourcetable_json (ne_strftime env) s;
             syncer_queue_json env (Some (add_field ''type'' (JString ''sourcetable'') j)) w
           }
           else Some w);
     sourcetable_end_cb True t (set_fetch t None w)
   }"

definition sourcetable_line_cb :: "net_env \<Rightarrow> nat \<Rightarrow> cstring \<Rightarrow> net \<Rightarrow> (int \<times> net) option" where
  "sourcetable_line_cb env t line w =
     (case fa_sourcetable (nw_fetch w t) of
        None \<Rightarrow> map_option (Pair 0) (sourcetable_end_cb False t w)
      | Some s \<Rightarrow>
          if line = ''ENDSOURCETABLE'' then map_option (Pair 1) (sourcetable_loaded env t s w)
          else if (case fa_json_config (nw_fetch w t) of
              None \<Rightarrow> False
            | Some j \<Rightarrow> \<not> json_get_source_action (se_api (ne_srv env)) line (obj_get (se_api (ne_srv env)) j ''sources''))
          then Some (0, w)
          else
            let (r, s) = sourcetable_add (se_uninit (ne_srv env)) s line 1 in
            if r < 0 then map_option (Pair 1) (sourcetable_end_cb False t w)
            else Some (0, set_fetch t (Some s) w))"

subsection \<open>The fetcher of sources\<close>

definition ntrip_unregister_livesource :: "nat \<Rightarrow> net \<Rightarrow> net" where
  "ntrip_unregister_livesource c w =
     (case own_livesource (osess w c) of
        None \<Rightarrow> w
      | Some m \<Rightarrow>
          let w = w\<lparr>nw_srv := add_job (Job_livesource_del c m) (nw_srv w)\<rparr>
          in set_osess c ((osess w c)\<lparr>own_livesource := None\<rparr>) w)"

definition set_livesource_state :: "net_env \<Rightarrow> cstring \<Rightarrow> livesource_state \<Rightarrow> net \<Rightarrow> net option" where
  "set_livesource_state env m state w = do {
     (j, tbl) \<leftarrow> livesource_set_state (sv_live (nw_srv w)) m state;
     syncer_queue_json env j (w\<lparr>nw_srv := (nw_srv w)\<lparr>sv_live := tbl\<rparr>\<rparr>)
   }"

definition redistribute_args_free :: "net_env \<Rightarrow> nat \<Rightarrow> net \<Rightarrow> net option" where
  "redistribute_args_free env t w = do {
     w \<leftarrow> ntrip_task_decref env t w;
     Some (w\<lparr>nw_redistribute := (nw_redistribute w)(t := (nw_redistribute w t)\<lparr>rd_freed := True\<rparr>)\<rparr>)
   }"

definition redistribute_end_cb :: "net_env \<Rightarrow> bool \<Rightarrow> nat \<Rightarrow> net \<Rightarrow> net option" where
  "redistribute_end_cb env ok t w = do {
     let a = nw_redistribute w t;
     let (st, w) = ntrip_task_clear_get_st t w;
     w \<leftarrow> (case st of
             Some c \<Rightarrow>
               if \<not> ok \<and> own_livesource (osess w c) \<noteq> None then
                 if rd_persistent a then map_option (ntrip_task_reschedule t) (set_livesource_state env (rd_livesource a) LIVESOURCE_FETCH_PENDING w)
                 else redistribute_args_free env t (ntrip_unregister_livesource c w)
               else Some w
           | None \<Rightarrow> Some w);
     case st of Some c \<Rightarrow> on_conns (\<lambda>cs. ntrip_decref cs c) w | None \<Rightarrow> Some w
   }"

subsection \<open>The callbacks of a task\<close>

definition task_end_cb :: "net_env \<Rightarrow> nat \<Rightarrow> net \<Rightarrow> net option" where
  "task_end_cb env t w =
     (case tk_owner (task w t) of
        Syncer \<Rightarrow> syncer_end_cb env (cb_arg2 (task w t)) w
      | Graylog_sender \<Rightarrow> graylog_end_cb t w
      | Fetcher \<Rightarrow> sourcetable_end_cb False t w
      | Redistribute \<Rightarrow> redistribute_end_cb env False t w)"

definition task_status_cb :: "net_env \<Rightarrow> nat \<Rightarrow> int \<Rightarrow> net \<Rightarrow> net option" where
  "task_status_cb env t status w =
     (case tk_owner (task w t) of
        Syncer \<Rightarrow> syncer_status_cb env (cb_arg2 (task w t)) w
      | Graylog_sender \<Rightarrow> graylog_status_cb t status w
      | _ \<Rightarrow> Some w)"

definition has_line_cb :: "ntrip_task \<Rightarrow> bool" where
  "has_line_cb x \<longleftrightarrow> tk_owner x = Fetcher"

text \<open>\<open>ntrip_notify_close\<close>, and what the callbacks do when a connection ends.\<close>

definition ntrip_notify_close :: "net_env \<Rightarrow> nat \<Rightarrow> net \<Rightarrow> net option" where
  "ntrip_notify_close env c w =
     (case (oc_client (nw_out w c), oc_task (nw_out w c)) of
        (True, Some t) \<Rightarrow> do {
          w \<leftarrow> task_end_cb env t w;
          Some (set_out c ((nw_out w c)\<lparr>oc_task := None\<rparr>) w)
        }
      | _ \<Rightarrow> Some w)"

definition client_close :: "net_env \<Rightarrow> nat \<Rightarrow> net \<Rightarrow> net option" where
  "client_close env c w = do {
     w \<leftarrow> ntrip_notify_close env c w;
     on_srv (\<lambda>s. srv_decref_end s c) w
   }"

subsection \<open>Making a connection\<close>

record cli_config =
  cc_srv :: srv_config
  source_read_timeout :: int
  ntripcli_default_read_timeout :: int
  ntripcli_default_write_timeout :: int

text \<open>
  \<open>ntripcli_new\<close> for a task, with the memory \<open>junk\<close> of the new session \<open>c\<close>; a live source is given by its
  mountpoint. The timeouts of the task replace the defaults.
\<close>

definition ntripcli_new ::
  "cli_config \<Rightarrow> ntrip_state \<Rightarrow> sock \<Rightarrow> nat \<Rightarrow> cstring \<Rightarrow> cstring \<Rightarrow> nat \<Rightarrow> cstring option \<Rightarrow> bool \<Rightarrow> net \<Rightarrow> net" where
  "ntripcli_new config junk zero_addr c host uri t livesource persistent w =
     (let x = task w t;
          st = (ntrip_new junk zero_addr (max_nearest_lookup_distance_m (cc_srv config)))
                 \<lparr>nt_mountpoint := Some (case livesource of None \<Rightarrow> [] | Some m \<Rightarrow> m), nt_type := tk_type x,
                  own_livesource := livesource, connection_keepalive := tk_keepalive x\<rparr>
      in set_out c \<lparr>oc_host = host, oc_port = tk_port x, oc_uri = uri, oc_status_code = 0, oc_task = Some t, oc_client = True,
             oc_persistent = persistent, oc_nograylog = False, oc_timeouts = (tk_read_timeout x, tk_write_timeout x)\<rparr>
           (set_osess c st w))"

definition ntripcli_start :: "nat \<Rightarrow> net \<Rightarrow> net option" where
  "ntripcli_start c w = do {
     w \<leftarrow> on_conns (\<lambda>cs. ntrip_incref cs c) w;
     w \<leftarrow> on_conns (\<lambda>cs. ntrip_register cs c) w;
     on_conns (\<lambda>cs. ntrip_decref cs c) w
   }"

text \<open>\<open>ok\<close> says whether the connection could be set up, \<open>resched\<close> whether a failure starts the timer.\<close>

definition ntrip_task_start ::
  "cli_config \<Rightarrow> ntrip_state \<Rightarrow> sock \<Rightarrow> nat \<Rightarrow> bool \<Rightarrow> bool \<Rightarrow> cstring option \<Rightarrow> bool \<Rightarrow> nat \<Rightarrow> net \<Rightarrow> (int \<times> net) option" where
  "ntrip_task_start config junk zero_addr c ok resched livesource persistent t w =
     (if tk_st (task w t) \<noteq> None then None
      else do {
        let w = set_task t ((task w t)\<lparr>tk_state := TASK_RUNNING\<rparr>) w;
        if ok then do {
          host \<leftarrow> tk_host (task w t);
          uri \<leftarrow> tk_uri (task w t);
          let w = ntripcli_new config junk zero_addr c host uri t livesource persistent w;
          let w = set_out c ((nw_out w c)\<lparr>oc_nograylog := tk_nograylog (task w t)\<rparr>) w;
          w \<leftarrow> ntrip_task_set_st t c w;
          w \<leftarrow> ntripcli_start c w;
          Some (0, w)
        }
        else Some (- 1, if resched then ntrip_task_reschedule t w else w)
      })"

definition connect_cb :: "nat \<Rightarrow> net \<Rightarrow> net option" where
  "connect_cb c w = do {
     t \<leftarrow> oc_task (nw_out w c);
     let w = set_task t ((task w t)\<lparr>current_retry_delay := refresh_delay (task w t)\<rparr>) w;
     if use_mimeq (task w t) then ntrip_task_send_next_request c (set_osess c ((osess w c)\<lparr>nt_state := NTRIP_IDLE_CLIENT\<rparr>) w)
     else ntripcli_send_request c None w
   }"

text \<open>The timer of a task: the users start again.\<close>

definition syncer_start ::
  "net_env \<Rightarrow> cli_config \<Rightarrow> ntrip_state \<Rightarrow> sock \<Rightarrow> nat \<Rightarrow> bool \<Rightarrow> nat \<Rightarrow> net \<Rightarrow> net option" where
  "syncer_start env config junk zero_addr c ok n w = do {
     t \<leftarrow> buf_get (nw_syncer w) n;
     w \<leftarrow> queue_full env t w;
     map_option snd (ntrip_task_start config junk zero_addr c ok True None False t w)
   }"

definition graylog_sender_start ::
  "cli_config \<Rightarrow> ntrip_state \<Rightarrow> sock \<Rightarrow> nat \<Rightarrow> bool \<Rightarrow> nat \<Rightarrow> net \<Rightarrow> net option" where
  "graylog_sender_start config junk zero_addr c ok t w = map_option snd (ntrip_task_start config junk zero_addr c ok True None False t w)"

definition fetcher_sourcetable_start ::
  "cli_config \<Rightarrow> ntrip_state \<Rightarrow> sock \<Rightarrow> nat \<Rightarrow> bool \<Rightarrow> nat \<Rightarrow> net \<Rightarrow> net option" where
  "fetcher_sourcetable_start config junk zero_addr c ok t w =
     (if fa_sourcetable (nw_fetch w t) \<noteq> None then None
      else do {
        s \<leftarrow> sourcetable_new (tk_host (task w t)) (tk_port (task w t)) (tk_tls (task w t));
        let w = set_fetch t (Some (s\<lparr>st_priority := fa_priority (nw_fetch w t)\<rparr>)) w;
        (r, w) \<leftarrow> ntrip_task_start config junk zero_addr c ok True None False t w;
        Some (if r < 0 then set_fetch t None w else w)
      })"

text \<open>The host, the port, the TLS flag and the settings of the source to fetch.\<close>

definition redistribute_target :: "net_env \<Rightarrow> redistribute_cb_args \<Rightarrow> net \<Rightarrow> (cstring option \<times> 16 word \<times> int \<times> json option) option" where
  "redistribute_target env a w =
     (if ep_host (rd_endpoint a) = None then
        map_option (\<lambda>(_, sp). (st_caster sp, st_port sp, st_tls sp, ne_table_json env sp))
          (stack_find_pullable (sv_stack (nw_srv w)) (rd_mountpoint a))
      else Some (ep_host (rd_endpoint a), ep_port (rd_endpoint a), ep_tls (rd_endpoint a), None))"

definition redistribute_credentials :: "net_env \<Rightarrow> redistribute_cb_args \<Rightarrow> cstring \<Rightarrow> json option \<Rightarrow> cstring option \<times> cstring option" where
  "redistribute_credentials env a host json =
     (let (user, password) = (case json of None \<Rightarrow> (None, None)
            | Some j \<Rightarrow> snd (json_get_authentication (se_api (ne_srv env)) j (rd_mountpoint a)))
      in if user = None \<and> password = None then
           (case Option.bind (ne_host_auth env) (\<lambda>l. auth_lookupi l host) of
              None \<Rightarrow> (None, None)
            | Some e \<Rightarrow> (Some (ae_user e), Some (ae_password e)))
         else (user, password))"

definition redistribute_source_stream ::
  "net_env \<Rightarrow> cli_config \<Rightarrow> ntrip_state \<Rightarrow> sock \<Rightarrow> nat \<Rightarrow> bool \<Rightarrow> nat \<Rightarrow> net \<Rightarrow> net option" where
  "redistribute_source_stream env config junk zero_addr c ok t w =
     (let a = nw_redistribute w t in
      case redistribute_target env a w of
        None \<Rightarrow> redistribute_args_free env t w
      | Some (host, port, tls, json) \<Rightarrow> do {
          host \<leftarrow> host;
          hs \<leftarrow> (case redistribute_credentials env a host json of
                  (Some user, Some password) \<Rightarrow> do { v \<leftarrow> http_headers_add_auth user password; Some [(''Authorization'', v)] }
                | _ \<Rightarrow> Some []);
          let x = task w t;
          let w = set_task t (x\<lparr>tk_host := Some host, tk_uri := Some (''/'' @ rd_mountpoint a), tk_headers := tk_headers x @ hs,
            tk_port := port, tk_tls := tls, tk_read_timeout := rd_timeout a, tk_write_timeout := rd_timeout a\<rparr>) w;
          map_option snd (ntrip_task_start config junk zero_addr c ok False (Some (rd_livesource a)) (rd_persistent a) t w)
        })"

definition ntrip_task_restart_cb ::
  "net_env \<Rightarrow> cli_config \<Rightarrow> ntrip_state \<Rightarrow> sock \<Rightarrow> nat \<Rightarrow> bool \<Rightarrow> nat \<Rightarrow> net \<Rightarrow> net option" where
  "ntrip_task_restart_cb env config junk zero_addr c ok t w =
     (let w = set_task t ((task w t)\<lparr>tk_ev := None\<rparr>) w in
      case tk_owner (task w t) of
        Syncer \<Rightarrow> syncer_start env config junk zero_addr c ok (cb_arg2 (task w t)) w
      | Graylog_sender \<Rightarrow> graylog_sender_start config junk zero_addr c ok t w
      | Fetcher \<Rightarrow> fetcher_sourcetable_start config junk zero_addr c ok t w
      | Redistribute \<Rightarrow> redistribute_source_stream env config junk zero_addr c ok t w)"

subsection \<open>The read callback\<close>

text \<open>An iteration of the loop goes on, leaves the loop, or ends the connection.\<close>

datatype cli_outcome = Cli_go net | Cli_break net | Cli_end net

definition reply_status :: "cstring list \<Rightarrow> int option" where
  "reply_status args =
     (if length args < 2 \<or> length (args ! 1) \<noteq> 3 then None
      else map_option (\<lambda>n. int (n mod 2 ^ 32)) (c_sscanf_lu (args ! 1)))"

definition cli_status_step :: "net_env \<Rightarrow> cli_config \<Rightarrow> nat \<Rightarrow> net \<Rightarrow> cli_outcome option" where
  "cli_status_step env config c w = do {
     l \<leftarrow> read_line (cc_srv config) (ntrip_clear_request (osess w c));
     case l of
       Too_long st \<Rightarrow> Some (Cli_end (set_osess c st w))
     | No_line st \<Rightarrow> Some (Cli_break (set_osess c st w))
     | Line l st \<Rightarrow> do {
         let args = take SIZE_HTTP_ARGS (strsep_tokens is_blank (line_text l));
         let w = set_osess c (st\<lparr>http_args := args\<rparr>) w;
         if args ! 0 = ''ERROR'' then Some (Cli_end w)
         else
           (case reply_status args of
              None \<Rightarrow> Some (Cli_end w)
            | Some code \<Rightarrow> do {
                let w = set_out c ((nw_out w c)\<lparr>oc_status_code := code\<rparr>) w;
                m \<leftarrow> nt_mountpoint (osess w c);
                let w = (if args ! 0 = ''ICY'' \<and> m = [] \<and> code = 200
                         then set_read_timeout c (source_read_timeout config) (set_osess c ((osess w c)\<lparr>nt_state := NTRIP_REGISTER_SOURCE\<rparr>) w)
                         else w);
                w \<leftarrow> (case oc_task (nw_out w c) of None \<Rightarrow> Some w | Some t \<Rightarrow> task_status_cb env t code w);
                Some (if oc_status_code (nw_out w c) = 200
                      then Cli_go (set_osess c ((osess w c)\<lparr>nt_state := NTRIP_WAIT_HTTP_HEADER\<rparr>) w)
                      else Cli_end w)
              })
       }
   }"

text \<open>The connection waits for the next request, which is sent at once if there is one.\<close>

definition client_idle :: "nat \<Rightarrow> net \<Rightarrow> net option" where
  "client_idle c w =
     (let w = set_osess c ((osess w c)\<lparr>nt_state := NTRIP_IDLE_CLIENT\<rparr>) w
      in if oc_task (nw_out w c) \<noteq> None then ntrip_task_send_next_request c w else Some w)"

definition idle_or_end :: "bool \<Rightarrow> nat \<Rightarrow> net \<Rightarrow> cli_outcome option" where
  "idle_or_end finished c w =
     (if finished \<and> connection_keepalive (osess w c) \<and> received_keepalive (osess w c)
      then map_option Cli_go (client_idle c w) else Some (Cli_end w))"

definition cli_end_headers :: "cli_config \<Rightarrow> nat \<Rightarrow> net \<Rightarrow> cli_outcome option" where
  "cli_end_headers config c w = do {
     st \<leftarrow> (if chunk_state (osess w c) = CHUNK_INIT then ntrip_chunk_decode_init (osess w c) else Some (osess w c));
     let w = set_osess c st w;
     m \<leftarrow> nt_mountpoint st;
     if m \<noteq> [] then Some (Cli_go (set_read_timeout c (source_read_timeout config) (set_osess c (st\<lparr>nt_state := NTRIP_REGISTER_SOURCE\<rparr>) w)))
     else if (case oc_task (nw_out w c) of None \<Rightarrow> False | Some t \<Rightarrow> has_line_cb (task w t))
     then Some (Cli_go (set_osess c (st\<lparr>nt_state := NTRIP_WAIT_CALLBACK_LINE\<rparr>) w))
     else if content_length st \<noteq> 0 then Some (Cli_go (set_osess c (st\<lparr>nt_state := NTRIP_WAIT_SERVER_CONTENT\<rparr>) w))
     else if chunk_state st \<noteq> CHUNK_NONE \<and> chunk_state st \<noteq> CHUNK_END
     then Some (Cli_go (set_osess c (st\<lparr>nt_state := NTRIP_WAIT_CHUNKED_CONTENT\<rparr>) w))
     else idle_or_end True c w
   }"

text \<open>A header of the reply; \<^const>\<open>None\<close> if the length of the content is too large.\<close>

definition reply_header :: "cli_config \<Rightarrow> cstring \<Rightarrow> cstring \<Rightarrow> ntrip_state \<Rightarrow> ntrip_state option" where
  "reply_header config key value st =
     (if c_strcaseeq key ''transfer-encoding'' then
        Some (if c_strcaseeq value ''chunked'' then st\<lparr>chunk_state := CHUNK_INIT\<rparr> else st)
      else if c_strcaseeq key ''connection'' then
        Some (if c_strcaseeq value ''keep-alive'' then st\<lparr>received_keepalive := True\<rparr> else st)
      else if c_strcaseeq key ''content-length'' then
        (case c_sscanf_lu value of
           None \<Rightarrow> Some st
         | Some n \<Rightarrow> if n > http_content_length_max (cc_srv config) then None else Some (st\<lparr>content_length := n, content_done := 0\<rparr>))
      else if c_strcaseeq key ''content-type'' then Some (st\<lparr>content_type := Some value\<rparr>)
      else Some st)"

definition cli_header_step :: "cli_config \<Rightarrow> nat \<Rightarrow> net \<Rightarrow> cli_outcome option" where
  "cli_header_step config c w = do {
     l \<leftarrow> read_line (cc_srv config) (osess w c);
     case l of
       Too_long st \<Rightarrow> Some (Cli_end (set_osess c st w))
     | No_line st \<Rightarrow> Some (Cli_break (set_osess c st w))
     | Line l st \<Rightarrow>
         let w = set_osess c st w in
         if l = [] then cli_end_headers config c w
         else
           Some (case parse_header (line_text l) of
             None \<Rightarrow> Cli_end w
           | Some (key, value) \<Rightarrow>
               (case reply_header config key value st of None \<Rightarrow> Cli_end w | Some st \<Rightarrow> Cli_go (set_osess c st w)))
   }"

definition cli_line_step :: "net_env \<Rightarrow> nat \<Rightarrow> net \<Rightarrow> cli_outcome option" where
  "cli_line_step env c w = do {
     let st = osess w c;
     bs \<leftarrow> input_data st;
     case readln bs of
       None \<Rightarrow> Some (Cli_break w)
     | Some (l, r) \<Rightarrow> do {
         let w = set_osess c ((set_input_data r st)\<lparr>nt_received := nt_received st + length l + 2 + length l + 1\<rparr>) w;
         case oc_task (nw_out w c) of
           None \<Rightarrow> Some (Cli_go w)
         | Some t \<Rightarrow> do {
             (r, w) \<leftarrow> sourcetable_line_cb env t (line_text l) w;
             Some (if r \<noteq> 0 then Cli_end (set_out c ((nw_out w c)\<lparr>oc_task := None\<rparr>) w) else Cli_go w)
           }
       }
   }"

text \<open>The content of a reply is not used.\<close>

definition cli_content_step :: "nat \<Rightarrow> net \<Rightarrow> cli_outcome option" where
  "cli_content_step c w = do {
     let st = osess w c;
     bs \<leftarrow> input_data st;
     let n = min (length bs) (content_length st - content_done st);
     let st = (set_input_data (drop n bs) st)\<lparr>nt_received := nt_received st + n, content_done := content_done st + n\<rparr>;
     idle_or_end (content_length st = content_done st) c (set_osess c st w)
   }"

definition cli_chunked_step :: "nat \<Rightarrow> net \<Rightarrow> cli_outcome option" where
  "cli_chunked_step c w = do {
     let st = osess w c;
     if chunk_state st = CHUNK_END then idle_or_end True c w
     else do {
       bs \<leftarrow> input_data st;
       Some (Cli_go (set_osess c ((set_input_data [] st)\<lparr>nt_received := nt_received st + length bs, content_done := content_done st + length bs\<rparr>) w))
     }
   }"

definition cli_unexpected_step :: "nat \<Rightarrow> net \<Rightarrow> cli_outcome option" where
  "cli_unexpected_step c w = do {
     let st = osess w c;
     bs \<leftarrow> input_data st;
     Some (Cli_end (set_osess c ((set_input_data (drop 64 bs) st)\<lparr>nt_received := nt_received st + length bs\<rparr>) w))
   }"

definition cli_register_step :: "net_env \<Rightarrow> nat \<Rightarrow> net \<Rightarrow> cli_outcome option" where
  "cli_register_step env c w = do {
     w \<leftarrow> (case own_livesource (osess w c) of None \<Rightarrow> Some w | Some m \<Rightarrow> set_livesource_state env m LIVESOURCE_RUNNING w);
     let w = set_osess c ((osess w c)\<lparr>nt_state := NTRIP_WAIT_STREAM_GET\<rparr>) w;
     Some (Cli_go (w\<lparr>nw_srv := add_job (Job_set_rtcm_cache c) (nw_srv w)\<rparr>))
   }"

definition cli_stream_step :: "net_env \<Rightarrow> cli_config \<Rightarrow> nat \<Rightarrow> net \<Rightarrow> cli_outcome option" where
  "cli_stream_step env config c w = do {
     let st = osess w c;
     let now = fst (se_now (ne_srv env));
     bs \<leftarrow> input_data st;
     (rc, r) \<leftarrow> rtcm_packet_handle (se_mem (ne_srv env)) (se_useful (ne_srv env)) now
        ((sv_rtcm (nw_srv w) c)\<lparr>conn_input := bs, received_bytes := nt_received st\<rparr>);
     let w = set_osess c ((set_input_data (conn_input rc) st)\<lparr>nt_received := received_bytes rc\<rparr>) w;
     let w = w\<lparr>nw_srv := (nw_srv w)\<lparr>sv_rtcm := (sv_rtcm (nw_srv w))(c := rc)\<rparr>\<rparr>;
     Some (if oc_persistent (nw_out w c) \<or> r = 0 then Cli_break w
           else if now - last_useful rc > idle_max_delay (cc_srv config) then Cli_end w
           else Cli_go w)
   }"

definition cli_step :: "net_env \<Rightarrow> cli_config \<Rightarrow> nat \<Rightarrow> net \<Rightarrow> cli_outcome option" where
  "cli_step env config c w =
     (case nt_state (osess w c) of
        NTRIP_WAIT_HTTP_STATUS \<Rightarrow> cli_status_step env config c w
      | NTRIP_WAIT_HTTP_HEADER \<Rightarrow> cli_header_step config c w
      | NTRIP_WAIT_CALLBACK_LINE \<Rightarrow> cli_line_step env c w
      | NTRIP_WAIT_SERVER_CONTENT \<Rightarrow> cli_content_step c w
      | NTRIP_WAIT_CHUNKED_CONTENT \<Rightarrow> cli_chunked_step c w
      | NTRIP_IDLE_CLIENT \<Rightarrow> cli_unexpected_step c w
      | NTRIP_REGISTER_SOURCE \<Rightarrow> cli_register_step env c w
      | NTRIP_WAIT_STREAM_GET \<Rightarrow> cli_stream_step env config c w
      | NTRIP_FORCE_CLOSE \<Rightarrow> Some (Cli_end w)
      | _ \<Rightarrow> Some (Cli_end (set_osess c ((osess w c)\<lparr>nt_state := NTRIP_FORCE_CLOSE\<rparr>) w)))"

text \<open>The loop: whether the connection is to be ended, and the state.\<close>

partial_function (option) cli_loop :: "net_env \<Rightarrow> cli_config \<Rightarrow> nat \<Rightarrow> net \<Rightarrow> (bool \<times> net) option" where
  "cli_loop env config c w =
     (if nt_state (osess w c) = NTRIP_WAIT_CLOSE then Some (False, w)
      else do {
        bs \<leftarrow> input_data (osess w c);
        if bs = [] then Some (False, w)
        else do {
          r \<leftarrow> cli_step env config c w;
          case r of Cli_end w \<Rightarrow> Some (True, w) | Cli_break w \<Rightarrow> Some (False, w) | Cli_go w \<Rightarrow> cli_loop env config c w
        }
      })"

definition ntripcli_readcb :: "net_env \<Rightarrow> cli_config \<Rightarrow> nat \<Rightarrow> net \<Rightarrow> net option" where
  "ntripcli_readcb env config c w = do {
     (r, ended, st) \<leftarrow> ntrip_filter_run_input (osess w c);
     let w = set_osess c st w;
     if r < 0 then (if ended then on_srv (\<lambda>s. srv_decref_end s c) w else Some w)
     else do {
       (e, w) \<leftarrow> cli_loop env config c w;
       if e then client_close env c w else Some w
     }
   }"

definition ntripcli_eventcb :: "net_env \<Rightarrow> nat \<Rightarrow> conn_event \<Rightarrow> net \<Rightarrow> net option" where
  "ntripcli_eventcb env c ev w =
     (if ev = Connected then
        (if oc_task (nw_out w c) \<noteq> None then connect_cb c w else ntripcli_send_request c None w)
      else client_close env c w)"

subsection \<open>Making, reloading and ending the users\<close>

record config_node =
  node_host :: cstring
  node_port :: "16 word"
  node_tls :: int
  node_authorization :: cstring
  node_retry_delay :: int
  node_queue_max_size :: nat

definition compare_node_task :: "config_node \<Rightarrow> ntrip_task \<Rightarrow> bool option" where
  "compare_node_task node x = do {
     host \<leftarrow> tk_host x;
     Some (\<not> c_strcaseeq (node_host node) host \<or> node_port node \<noteq> tk_port x \<or> node_tls node \<noteq> tk_tls x)
   }"

definition syncer_task_new :: "nat \<Rightarrow> config_node \<Rightarrow> cstring \<Rightarrow> nat \<Rightarrow> ntrip_task \<Rightarrow> ntrip_task" where
  "syncer_task_new i node uri bulk_max junk =
     (ntrip_task_new (Some (node_host node)) (node_port node) (Some uri) (node_tls node) (node_retry_delay node) bulk_max
        (node_queue_max_size node) ''syncer'' None junk)
     \<lparr>tk_headers := [(''Authorization'', ''internal '' @ node_authorization node)], tk_method := ''POST'', tk_owner := Syncer,
      cb_arg2 := i, tk_keepalive := True, bulk_content_type := ''application/json'', bulk_max_size := bulk_max, use_mimeq := True\<rparr>"

text \<open>The task of the array that has the host, the port and the TLS flag of a node.\<close>

fun find_node_task :: "config_node \<Rightarrow> net \<Rightarrow> nat list \<Rightarrow> nat option option" where
  "find_node_task node w [] = Some None"
| "find_node_task node w (t # ts) = do {
     d \<leftarrow> compare_node_task node (task w t);
     if \<not> d then Some (Some t) else find_node_task node w ts
   }"

text \<open>
  The loop of \<open>syncer_reload\<close>: a task that exists is used again as it is, also its position; \<open>fresh\<close> gives the new
  tasks and \<open>junk\<close> their memory.
\<close>

fun reload_nodes ::
  "(nat \<Rightarrow> nat) \<Rightarrow> ntrip_task \<Rightarrow> cstring \<Rightarrow> nat \<Rightarrow> nat list \<Rightarrow> nat \<Rightarrow> config_node list \<Rightarrow> net \<Rightarrow> (nat list \<times> net) option" where
  "reload_nodes fresh junk uri bulk_max old i [] w = Some ([], w)"
| "reload_nodes fresh junk uri bulk_max old i (node # nodes) w = do {
     found \<leftarrow> find_node_task node w old;
     (t, w) \<leftarrow> (case found of
        Some t \<Rightarrow> map_option (Pair t) (ntrip_task_incref t w)
      | None \<Rightarrow> Some (fresh i, set_task (fresh i) (syncer_task_new i node uri bulk_max junk) w));
     (ts, w) \<leftarrow> reload_nodes fresh junk uri bulk_max old (i + 1) nodes w;
     Some (t # ts, w)
   }"

fun decref_tasks :: "net_env \<Rightarrow> nat list \<Rightarrow> net \<Rightarrow> net option" where
  "decref_tasks env [] w = Some w"
| "decref_tasks env (t # ts) w = do { w \<leftarrow> ntrip_task_decref env t w; decref_tasks env ts w }"

definition syncer_reload ::
  "net_env \<Rightarrow> (nat \<Rightarrow> nat) \<Rightarrow> ntrip_task \<Rightarrow> config_node list \<Rightarrow> cstring \<Rightarrow> nat \<Rightarrow> net \<Rightarrow> net option" where
  "syncer_reload env fresh junk nodes uri bulk_max w = do {
     (ts, w) \<leftarrow> reload_nodes fresh junk uri bulk_max (nw_syncer w) 0 nodes w;
     w \<leftarrow> decref_tasks env (nw_syncer w) w;
     Some (w\<lparr>nw_syncer := ts\<rparr>)
   }"

text \<open>\<^const>\<open>False\<close> is the NULL result.\<close>

definition syncer_new ::
  "net_env \<Rightarrow> (nat \<Rightarrow> nat) \<Rightarrow> ntrip_task \<Rightarrow> config_node list \<Rightarrow> cstring \<Rightarrow> nat \<Rightarrow> net \<Rightarrow> (bool \<times> net) option" where
  "syncer_new env fresh junk nodes uri bulk_max w =
     (if bulk_max \<noteq> 0 \<or> nodes = [] then Some (False, w)
      else map_option (Pair True) (syncer_reload env fresh junk nodes uri bulk_max (w\<lparr>nw_syncer := []\<rparr>)))"

fun syncer_free_tasks :: "net_env \<Rightarrow> nat list \<Rightarrow> net \<Rightarrow> net option" where
  "syncer_free_tasks env [] w = Some w"
| "syncer_free_tasks env (t # ts) w = do {
     w \<leftarrow> ntrip_task_stop t w;
     w \<leftarrow> ntrip_task_decref env t w;
     syncer_free_tasks env ts w
   }"

definition syncer_free :: "net_env \<Rightarrow> net \<Rightarrow> net option" where
  "syncer_free env w = map_option (\<lambda>w. w\<lparr>nw_syncer := []\<rparr>) (syncer_free_tasks env (nw_syncer w) w)"

text \<open>\<open>c i\<close> and \<open>ok i\<close> are the session for the task at position \<open>i\<close> and whether it can connect.\<close>

fun start_tasks ::
  "net_env \<Rightarrow> cli_config \<Rightarrow> ntrip_state \<Rightarrow> sock \<Rightarrow> (nat \<Rightarrow> nat) \<Rightarrow> (nat \<Rightarrow> bool) \<Rightarrow> nat \<Rightarrow> nat list \<Rightarrow> net \<Rightarrow> net option" where
  "start_tasks env config junk zero_addr c ok i [] w = Some w"
| "start_tasks env config junk zero_addr c ok i (t # ts) w = do {
     w \<leftarrow> (if tk_state (task w t) = TASK_INIT then syncer_start env config junk zero_addr (c i) (ok i) i w else Some w);
     start_tasks env config junk zero_addr c ok (i + 1) ts w
   }"

definition syncer_start_all ::
  "net_env \<Rightarrow> cli_config \<Rightarrow> ntrip_state \<Rightarrow> sock \<Rightarrow> (nat \<Rightarrow> nat) \<Rightarrow> (nat \<Rightarrow> bool) \<Rightarrow> net \<Rightarrow> net option" where
  "syncer_start_all env config junk zero_addr c ok w = start_tasks env config junk zero_addr c ok 0 (nw_syncer w) w"

definition graylog_sender_new ::
  "cstring \<Rightarrow> 16 word \<Rightarrow> cstring \<Rightarrow> int \<Rightarrow> int \<Rightarrow> int \<Rightarrow> int \<Rightarrow> nat \<Rightarrow> nat \<Rightarrow> cstring \<Rightarrow> cstring option \<Rightarrow> ntrip_task \<Rightarrow> ntrip_task" where
  "graylog_sender_new host port uri tls stat_timeout retry_delay max_retry bulk_max queue_max authkey drainfile junk =
     (ntrip_task_new (Some host) port (Some uri) tls retry_delay bulk_max queue_max ''graylog_sender'' drainfile junk)
     \<lparr>tk_method := ''POST'', status_timeout := stat_timeout, max_retry_delay := max_retry, tk_owner := Graylog_sender, cb_arg2 := 0,
      tk_keepalive := True, bulk_content_type := ''application/json'', bulk_max_size := bulk_max, use_mimeq := True, tk_nograylog := True,
      tk_headers := [(''Authorization'', authkey)]\<rparr>"

definition graylog_sender_free :: "net_env \<Rightarrow> nat \<Rightarrow> net \<Rightarrow> net option" where
  "graylog_sender_free env t w = do { w \<leftarrow> ntrip_task_stop t w; ntrip_task_decref env t w }"

definition fetcher_sourcetable_new :: "cstring \<Rightarrow> 16 word \<Rightarrow> int \<Rightarrow> int \<Rightarrow> int \<Rightarrow> ntrip_task \<Rightarrow> ntrip_task" where
  "fetcher_sourcetable_new host port tls refresh fetch_timeout junk =
     (ntrip_task_new (Some host) port (Some ''/'') tls refresh 0 0 ''sourcetable_fetcher'' None junk)
     \<lparr>tk_owner := Fetcher, cb_arg2 := 0, tk_read_timeout := fetch_timeout, tk_write_timeout := fetch_timeout, status_timeout := fetch_timeout\<rparr>"

definition fetcher_task_stop :: "nat \<Rightarrow> net \<Rightarrow> net option" where
  "fetcher_task_stop t w = map_option (set_fetch t None) (ntrip_task_stop t w)"

definition fetcher_sourcetable_stop :: "nat \<Rightarrow> net \<Rightarrow> net option" where
  "fetcher_sourcetable_stop t w = do {
     w \<leftarrow> fetcher_task_stop t w;
     host \<leftarrow> tk_host (task w t);
     let sv = nw_srv w;
     Some (w\<lparr>nw_srv := sv\<lparr>sv_stack := stack_replace_host (sv_stack sv) host (tk_port (task w t)) None\<rparr>\<rparr>)
   }"

definition fetcher_sourcetable_reload ::
  "cli_config \<Rightarrow> ntrip_state \<Rightarrow> sock \<Rightarrow> nat \<Rightarrow> bool \<Rightarrow> int \<Rightarrow> int \<Rightarrow> nat \<Rightarrow> net \<Rightarrow> net option" where
  "fetcher_sourcetable_reload config junk zero_addr c ok refresh priority t w = do {
     w \<leftarrow> fetcher_task_stop t w;
     let w = set_task t ((task w t)\<lparr>refresh_delay := refresh\<rparr>) w;
     let w = w\<lparr>nw_fetch := (nw_fetch w)(t := (nw_fetch w t)\<lparr>fa_priority := priority\<rparr>)\<rparr>;
     fetcher_sourcetable_start config junk zero_addr c ok t w
   }"

definition redistribute_args_new ::
  "nat \<Rightarrow> cstring \<Rightarrow> endpoint \<Rightarrow> cstring \<Rightarrow> int \<Rightarrow> bool \<Rightarrow> int \<Rightarrow> ntrip_task \<Rightarrow> net \<Rightarrow> net" where
  "redistribute_args_new t livesource e mountpoint reconnect_delay persistent timeout junk w =
     (let x = (ntrip_task_new None 0 None 0 (if persistent then reconnect_delay else 0) 0 0 ''source_fetcher'' None junk)
                \<lparr>tk_method := ''GET'', tk_owner := Redistribute, cb_arg2 := 0\<rparr>
      in (set_task t x w)\<lparr>nw_redistribute := (nw_redistribute w)(t := \<lparr>rd_mountpoint = mountpoint, rd_endpoint = e,
             rd_persistent = persistent, rd_livesource = livesource, rd_timeout = timeout, rd_freed = False\<rparr>)\<rparr>)"

end
