(* ===== verification/Ntrip_Task_Correct.thy ===== *)
theory Ntrip_Task_Correct
  imports Ntripcli "HOL-Library.Multiset" "HOL-Library.Sublist"
begin

text \<open>
  Properties of the tasks that make outgoing connections: the requests they send, what becomes of the
  contents of their queues, and the delays between their attempts.
\<close>

subsection \<open>State access\<close>

lemma task_set_task [simp]: "task (set_task t x w) t' = (if t' = t then x else task w t')"
  by (simp add: set_task_def)

lemma set_task_other [simp]: "nw_srv (set_task t x w) = nw_srv w" "nw_out (set_task t x w) = nw_out w" "nw_files (set_task t x w) = nw_files w"
  "nw_syncer (set_task t x w) = nw_syncer w"
  by (simp_all add: set_task_def)

lemma osess_set_osess [simp]: "osess (set_osess c st w) c' = (if c' = c then st else osess w c')"
  by (simp add: set_osess_def set_sess_def set_conn_def)

lemma set_osess_other [simp]: "nw_tasks (set_osess c st w) = nw_tasks w" "nw_out (set_osess c st w) = nw_out w" "nw_files (set_osess c st w) = nw_files w"
  "nw_syncer (set_osess c st w) = nw_syncer w"
  by (simp_all add: set_osess_def)

lemma set_out_other [simp]: "nw_tasks (set_out c x w) = nw_tasks w" "nw_srv (set_out c x w) = nw_srv w" "nw_files (set_out c x w) = nw_files w"
  "nw_syncer (set_out c x w) = nw_syncer w"
  by (simp_all add: set_out_def)

lemma out_set_out [simp]: "nw_out (set_out c x w) c' = (if c' = c then x else nw_out w c')"
  by (simp add: set_out_def)

lemma set_read_timeout_other [simp]: "nw_tasks (set_read_timeout c d w) = nw_tasks w" "nw_srv (set_read_timeout c d w) = nw_srv w"
  "nw_files (set_read_timeout c d w) = nw_files w" "oc_task (nw_out (set_read_timeout c d w) c') = oc_task (nw_out w c')"
  by (simp_all add: set_read_timeout_def)

lemma on_conns_other:
  "on_conns f w = Some w' \<Longrightarrow> nw_tasks w' = nw_tasks w \<and> nw_out w' = nw_out w \<and> nw_files w' = nw_files w \<and> nw_syncer w' = nw_syncer w"
  by (auto simp: on_conns_def)

lemma on_srv_other:
  "on_srv f w = Some w' \<Longrightarrow> nw_tasks w' = nw_tasks w \<and> nw_out w' = nw_out w \<and> nw_files w' = nw_files w \<and> nw_syncer w' = nw_syncer w"
  by (auto simp: on_srv_def)

subsection \<open>Requests\<close>

definition headers_text :: "headers \<Rightarrow> cstring" where
  "headers_text hs = concat (map (\<lambda>(k, v). k @ '': '' @ v @ crlf) hs)"

lemma length_headers_text: "length (headers_text hs) = headers_len hs"
  by (induction hs) (auto simp: headers_text_def headers_len_def crlf_def)

lemma strcat_headers_fits: "length r + headers_len hs < s \<Longrightarrow> strcat_headers s r hs = Some (r @ headers_text hs)"
proof (induction hs arbitrary: r)
  case (Cons h hs)
  obtain k v where h: "h = (k, v)" by fastforce
  have len: "length r + (length k + length v + 4 + headers_len hs) < s" using Cons.prems by (simp add: headers_len_def h)
  then have "strcat_headers s (r @ k @ '': '' @ v @ crlf) hs = Some ((r @ k @ '': '' @ v @ crlf) @ headers_text hs)"
    by (intro Cons.IH) (simp add: crlf_def)
  with len show ?case by (simp add: h headers_text_def strcat_buf_def crlf_def)
qed (simp add: headers_text_def)

definition request_text :: "net \<Rightarrow> nat \<Rightarrow> cstring \<Rightarrow> (nat \<times> cstring) option \<Rightarrow> cstring" where
  "request_text w c meth m =
     (let x = nw_out w c; ths = (case oc_task x of None \<Rightarrow> [] | Some t \<Rightarrow> tk_headers (task w t))
      in meth @ '' '' @ oc_uri x @ '' HTTP/1.1'' @ crlf @
         headers_text (request_headers (connection_keepalive (osess w c)) (oc_host x) (oc_port x) 2 m) @ headers_text ths @ crlf)"

text \<open>The buffer of a request is large enough.\<close>

lemma http_request_str_eq:
  "ntripcli_http_request_str w c meth (oc_host (nw_out w c)) (oc_port (nw_out w c)) (oc_uri (nw_out w c)) 2 m = Some (request_text w c meth m)"
proof -
  let ?x = "nw_out w c"
  define hs where "hs = request_headers (connection_keepalive (osess w c)) (oc_host ?x) (oc_port ?x) 2 m"
  define ths where "ths = (case oc_task ?x of None \<Rightarrow> [] | Some t \<Rightarrow> tk_headers (task w t))"
  define s where "s = length ''%s %s HTTP/1.1'' + length meth + length (oc_uri ?x) + (headers_len hs + headers_len ths) + 2"
  define r where "r = meth @ '' '' @ oc_uri ?x @ '' HTTP/1.1''"
  have s: "s = length meth + length (oc_uri ?x) + headers_len hs + headers_len ths + 16" by (simp add: s_def)
  have r: "length r = length meth + length (oc_uri ?x) + 10" by (simp add: r_def)
  have 1: "take (s - 1) r = r" using s r by simp
  have 2: "strcat_buf s r crlf = Some (r @ crlf)" using s r by (simp add: strcat_buf_def crlf_def)
  have 3: "strcat_headers s (r @ crlf) hs = Some ((r @ crlf) @ headers_text hs)"
    using s r by (intro strcat_headers_fits) (simp add: crlf_def)
  have 4: "strcat_headers s ((r @ crlf) @ headers_text hs) ths = Some (((r @ crlf) @ headers_text hs) @ headers_text ths)"
    using s r by (intro strcat_headers_fits) (simp add: crlf_def length_headers_text)
  have 5: "strcat_buf s (((r @ crlf) @ headers_text hs) @ headers_text ths) crlf = Some ((((r @ crlf) @ headers_text hs) @ headers_text ths) @ crlf)"
    using s r by (simp add: strcat_buf_def crlf_def length_headers_text)
  show ?thesis
    unfolding ntripcli_http_request_str_def Let_def hs_def[symmetric] ths_def[symmetric] s_def[symmetric] r_def[symmetric] 1 2 3 4 5 bind.bind_lunit
    by (simp add: request_text_def Let_def hs_def[symmetric] ths_def[symmetric] r_def)
qed

lemma send_request_eq:
  "ntripcli_send_request c m w =
    Some (let st = osess w c; s = request_text w c (case oc_task (nw_out w c) of None \<Rightarrow> ''GET'' | Some t \<Rightarrow> tk_method (task w t)) m
          in set_osess c (st\<lparr>nt_output := nt_output st @ s, nt_sent := nt_sent st + length s, nt_state := NTRIP_WAIT_HTTP_STATUS\<rparr>) w)"
  by (simp add: ntripcli_send_request_def http_request_str_eq Let_def)

lemma send_items_eq:
  "nt_output (osess (send_items c ms w) c) = nt_output (osess w c) @ concat (map (\<lambda>m. m @ [CHR 0x0A]) ms)"
  "nt_state (osess (send_items c ms w) c) = nt_state (osess w c)" "nw_tasks (send_items c ms w) = nw_tasks w" "nw_out (send_items c ms w) = nw_out w"
  "nw_files (send_items c ms w) = nw_files w" "nt_refcnt (osess (send_items c ms w) c) = nt_refcnt (osess w c)"
  by (induction ms arbitrary: w) (simp_all add: send_data_def Let_def)

abbreviation bulk_len :: "cstring list \<Rightarrow> nat" where
  "bulk_len ms \<equiv> sum_list (map (\<lambda>m. length m + 1) ms)"

lemma bulk_items_eq:
  "\<exists>k. bulk_items M s n ms = (n + k, s + bulk_len (take k ms)) \<and> k \<le> length ms \<and> (k \<noteq> 0 \<longrightarrow> s + bulk_len (take k ms) \<le> M) \<and>
    (k < length ms \<longrightarrow> M < s + bulk_len (take k ms) + length (ms ! k) + 1)"
proof (induction M s n ms rule: bulk_items.induct)
  case (2 M s n m ms)
  show ?case
  proof (cases "s + length m + 1 > M")
    case True
    then show ?thesis by (intro exI[of _ 0]) simp
  next
    case False
    with 2 obtain k where k: "bulk_items M (s + length m + 1) (n + 1) ms = (n + 1 + k, s + length m + 1 + bulk_len (take k ms))" "k \<le> length ms"
      "k \<noteq> 0 \<longrightarrow> s + length m + 1 + bulk_len (take k ms) \<le> M" "k < length ms \<longrightarrow> M < s + length m + 1 + bulk_len (take k ms) + length (ms ! k) + 1"
      by blast
    with False show ?thesis by (intro exI[of _ "Suc k"]) (cases k; simp add: add.assoc)
  qed
qed simp

text \<open>What a request carries: the items of the queue, joined by line feeds in bulk mode.\<close>

definition request_body :: "ntrip_task \<Rightarrow> nat \<Rightarrow> cstring" where
  "request_body x n =
     (if bulk_max_size x \<noteq> 0 then concat (map (\<lambda>m. m @ [CHR 0x0A]) (take n (mimeq x))) else concat (take n (mimeq x)))"

definition request_type :: "ntrip_task \<Rightarrow> cstring" where
  "request_type x = (if bulk_max_size x \<noteq> 0 then bulk_content_type x else ''application/json'')"

text \<open>How many items it carries: as many as fit in bulk mode, otherwise one.\<close>

definition request_count_ok :: "ntrip_task \<Rightarrow> nat \<Rightarrow> bool" where
  "request_count_ok x n \<longleftrightarrow> n \<le> length (mimeq x) \<and>
     (if bulk_max_size x \<noteq> 0
      then length (request_body x n) \<le> bulk_max_size x \<and>
        (n < length (mimeq x) \<longrightarrow> bulk_max_size x < length (request_body x n) + length (mimeq x ! n) + 1)
      else n = min 1 (length (mimeq x)))"

lemma length_bulk: "length (concat (map (\<lambda>m. m @ [c]) ms)) = bulk_len ms"
  by (induction ms) simp_all

lemma send_next_request_eq:
  assumes "oc_task (nw_out w c) = Some t" "nt_state (osess w c) = NTRIP_IDLE_CLIENT" "pending (task w t) = 0"
  shows "\<exists>w' n. ntrip_task_send_next_request c w = Some w' \<and> request_count_ok (task w t) n \<and> nw_tasks w' = (nw_tasks w)(t := (task w t)\<lparr>pending := n\<rparr>) \<and>
    nt_output (osess w' c) = nt_output (osess w c) @
      (if n = 0 then [] else request_text w c (tk_method (task w t)) (Some (length (request_body (task w t) n), request_type (task w t))) @ request_body (task w t) n) \<and>
    nt_state (osess w' c) = (if n = 0 then NTRIP_IDLE_CLIENT else NTRIP_WAIT_HTTP_STATUS) \<and>
    nt_refcnt (osess w' c) = nt_refcnt (osess w c) \<and> (\<forall>k. oc_task (nw_out w' k) = oc_task (nw_out w k))"
proof -
  let ?x = "task w t"
  have same: "(nw_tasks w)(t := ?x\<lparr>pending := 0\<rparr>) = nw_tasks w" using assms(3) by (intro fun_upd_idem) simp
  show ?thesis
  proof (cases "bulk_max_size ?x = 0")
    case reg: True
    show ?thesis
    proof (cases "mimeq ?x")
      case Nil
      with assms reg show ?thesis
        by (intro exI[of _ "set_read_timeout c 0 w"] exI[of _ 0]) (simp add: ntrip_task_send_next_request_def request_count_ok_def request_body_def same)
    next
      case (Cons m ms)
      have b: "request_body ?x 1 = m" "request_type ?x = ''application/json''" using Cons reg by (simp_all add: request_body_def request_type_def)
      show ?thesis
        unfolding ntrip_task_send_next_request_def assms(1) bind.bind_lunit Let_def
        using assms reg Cons b
        by (intro exI[of _ "set_read_timeout c (status_timeout ?x) (set_task t (?x\<lparr>pending := 1\<rparr>) (send_data c m
              (the (ntripcli_send_request c (Some (length m, ''application/json'')) w))))"] exI[of _ 1])
          (simp add: send_request_eq Let_def send_data_def request_count_ok_def set_task_def)
    qed
  next
    case bulk: False
    obtain n where n: "bulk_items (bulk_max_size ?x) 0 0 (mimeq ?x) = (n, bulk_len (take n (mimeq ?x)))" "n \<le> length (mimeq ?x)"
      "n \<noteq> 0 \<longrightarrow> bulk_len (take n (mimeq ?x)) \<le> bulk_max_size ?x"
      "n < length (mimeq ?x) \<longrightarrow> bulk_max_size ?x < bulk_len (take n (mimeq ?x)) + length (mimeq ?x ! n) + 1"
      using bulk_items_eq[of "bulk_max_size ?x" 0 0 "mimeq ?x"] by auto
    have body: "request_body ?x n = concat (map (\<lambda>m. m @ [CHR 0x0A]) (take n (mimeq ?x)))" "request_type ?x = bulk_content_type ?x"
      "length (request_body ?x n) = bulk_len (take n (mimeq ?x))"
      using bulk by (simp_all add: request_body_def request_type_def length_bulk)
    have ok: "request_count_ok ?x n" using n bulk body(3) by (cases "n = 0") (simp_all add: request_count_ok_def)
    show ?thesis
    proof (cases "n = 0")
      case True
      with assms bulk n(1) ok show ?thesis
        by (intro exI[of _ w] exI[of _ 0]) (simp add: ntrip_task_send_next_request_def same)
    next
      case False
      show ?thesis
        unfolding ntrip_task_send_next_request_def assms(1) bind.bind_lunit Let_def
        using assms bulk n(1) False ok body(2,3) body(1)
        by (intro exI[of _ "set_read_timeout c (status_timeout ?x) (set_task t (?x\<lparr>pending := n\<rparr>) (send_items c (take n (mimeq ?x))
              (the (ntripcli_send_request c (Some (bulk_len (take n (mimeq ?x)), bulk_content_type ?x)) w))))"] exI[of _ n])
          (simp add: send_request_eq Let_def send_items_eq set_task_def)
    qed
  qed
qed

subsection \<open>The queue\<close>

definition task_ok :: "ntrip_task \<Rightarrow> bool" where
  "task_ok x \<longleftrightarrow> pending x \<le> length (mimeq x) \<and> queue_size x = sum_list (map length (mimeq x))"

text \<open>Another state of the task with the same queue.\<close>

definition same_queue :: "ntrip_task \<Rightarrow> ntrip_task \<Rightarrow> bool" where
  "same_queue x y \<longleftrightarrow> mimeq y = mimeq x \<and> queue_size y = queue_size x \<and> (pending x \<le> length (mimeq x) \<longrightarrow> pending y \<le> length (mimeq x))"

lemma same_queue_refl [simp]: "same_queue x x"
  by (simp add: same_queue_def)

lemma same_queue_ok: "same_queue x y \<Longrightarrow> task_ok x \<Longrightarrow> task_ok y"
  by (simp add: same_queue_def task_ok_def)

lemma sum_list_take_drop: "sum_list (map f xs) = sum_list (map f (take n xs)) + (sum_list (map f (drop n xs)) :: nat)"
  by (metis append_take_drop_id map_append sum_list_append)

lemma send_next_request_queue:
  assumes "ntrip_task_send_next_request c w = Some w'"
  shows "same_queue (task w t) (task w' t)"
proof -
  from assms obtain s where s: "oc_task (nw_out w c) = Some s" "nt_state (osess w c) = NTRIP_IDLE_CLIENT" "pending (task w s) = 0"
    by (auto simp: ntrip_task_send_next_request_def Let_def bind_eq_Some_conv split: if_splits)
  from send_next_request_eq[OF s] assms obtain n where n: "request_count_ok (task w s) n" "nw_tasks w' = (nw_tasks w)(s := (task w s)\<lparr>pending := n\<rparr>)"
    by auto
  then show ?thesis by (auto simp: same_queue_def request_count_ok_def)
qed

lemma drain_queue_eq:
  assumes "task_ok (task w t)"
  shows "\<exists>r w'. ntrip_task_drain_queue env t w = Some (r, w') \<and> nw_srv w' = nw_srv w \<and> nw_out w' = nw_out w \<and>
    nw_tasks w' = (nw_tasks w)(t := (task w t)\<lparr>mimeq := take (pending (task w t)) (mimeq (task w t)),
      queue_size := sum_list (map length (take (pending (task w t)) (mimeq (task w t))))\<rparr>)"
proof -
  let ?x = "task w t"
  have "sum_list (map length (take (pending ?x) (mimeq ?x))) \<le> queue_size ?x" "\<not> length (mimeq ?x) < pending ?x"
    using assms sum_list_take_drop[of length "mimeq ?x" "pending ?x"] by (simp_all add: task_ok_def)
  then show ?thesis by (auto simp: ntrip_task_drain_queue_def Let_def set_task_def split: option.splits)
qed

text \<open>Whether a call of \<open>ntrip_task_queue\<close> takes the new content, and the queue after it.\<close>

definition accepts :: "ntrip_task \<Rightarrow> cstring \<Rightarrow> bool" where
  "accepts x m \<longleftrightarrow> bulk_max_size x = 0 \<or> length m < bulk_max_size x"

definition queue_after :: "ntrip_task \<Rightarrow> cstring \<Rightarrow> cstring list" where
  "queue_after x m = (if length m + queue_size x > queue_max_size x then take (pending x) (mimeq x) else mimeq x) @ (if accepts x m then [m] else [])"

definition queued_task :: "ntrip_task \<Rightarrow> cstring \<Rightarrow> ntrip_task" where
  "queued_task x m = x\<lparr>mimeq := queue_after x m, queue_size := sum_list (map length (queue_after x m))\<rparr>"

lemma queued_task_ok: "task_ok x \<Longrightarrow> task_ok (queued_task x m)"
  by (auto simp: task_ok_def queued_task_def queue_after_def)

text \<open>The part of \<open>ntrip_task_queue\<close> that changes the queue.\<close>

lemma task_queue_enqueue:
  assumes "task_ok (task w t)" "tk_state (task w t) \<noteq> TASK_END"
  shows "\<exists>w1. nw_srv w1 = nw_srv w \<and> nw_out w1 = nw_out w \<and> nw_tasks w1 = (nw_tasks w)(t := queued_task (task w t) m) \<and>
    ntrip_task_queue env t m w = restart_sending t w1"
proof -
  let ?x = "task w t"
  define over where "over \<longleftrightarrow> over_max t m w"
  obtain r v where d: "ntrip_task_drain_queue env t w = Some (r, v)" "nw_srv v = nw_srv w" "nw_out v = nw_out w"
    "nw_tasks v = (nw_tasks w)(t := ?x\<lparr>mimeq := take (pending ?x) (mimeq ?x), queue_size := sum_list (map length (take (pending ?x) (mimeq ?x)))\<rparr>)"
    using drain_queue_eq[OF assms(1)] by blast
  define w0 where "w0 = (if over then task_log LOG_CRIT (drained_message r) v else w)"
  define w1 where "w1 = (if over_bulk t m w0 then task_log LOG_ERR (too_big_message (length m) (bulk_max_size (task w0 t) - 1)) w0 else insert_item t m w0)"
  have t0: "task w0 t = ?x\<lparr>mimeq := (if over then take (pending ?x) (mimeq ?x) else mimeq ?x),
      queue_size := sum_list (map length (if over then take (pending ?x) (mimeq ?x) else mimeq ?x))\<rparr>" "\<And>s. s \<noteq> t \<Longrightarrow> task w0 s = task w s"
    using d(4) assms(1) by (auto simp: w0_def task_ok_def task_log_def)
  have "over_bulk t m w0 \<longleftrightarrow> \<not> accepts ?x m" by (auto simp: over_bulk_def t0(1) accepts_def)
  then have "nw_tasks w1 = (nw_tasks w)(t := queued_task ?x m)"
    using t0 by (intro ext) (simp add: w1_def queued_task_def queue_after_def over_def over_max_def insert_item_def task_log_def)
  moreover have "nw_srv w1 = nw_srv w" "nw_out w1 = nw_out w" using d(2,3) by (auto simp: w1_def w0_def insert_item_def task_log_def)
  moreover have "ntrip_task_queue env t m w = restart_sending t w1"
    using assms(2) d(1) by (simp add: ntrip_task_queue_def w1_def w0_def over_def)
  ultimately show ?thesis by blast
qed

lemma get_st_ref_queue: "ntrip_task_get_st_ref t w = Some (st, w') \<Longrightarrow> nw_tasks w' = nw_tasks w \<and> nw_out w' = nw_out w"
  by (auto simp: ntrip_task_get_st_ref_def bind_eq_Some_conv split: option.splits dest: on_conns_other)

lemma task_queue_result:
  assumes "task_ok (task w t)" "tk_state (task w t) \<noteq> TASK_END" "ntrip_task_queue env t m w = Some w'"
  shows "same_queue (queued_task (task w t) m) (task w' t)"
proof -
  obtain w1 where w1: "nw_tasks w1 = (nw_tasks w)(t := queued_task (task w t) m)"
    "ntrip_task_queue env t m w = restart_sending t w1" using task_queue_enqueue[OF assms(1,2)] by blast
  from assms(3) obtain st w2 where g: "ntrip_task_get_st_ref t w1 = Some (st, w2)" by (auto simp: w1(2) restart_sending_def bind_eq_Some_conv)
  from get_st_ref_queue[OF g] w1(1) have t2: "task w2 t = queued_task (task w t) m" by simp
  show ?thesis
  proof (cases st)
    case None
    with assms(3) g t2 show ?thesis by (simp add: w1(2) restart_sending_def)
  next
    case (Some c)
    with assms(3) g obtain w3 where w3: "(if nt_state (osess w2 c) = NTRIP_IDLE_CLIENT then ntrip_task_send_next_request c w2 else Some w2) = Some w3"
      "on_conns (\<lambda>cs. ntrip_decref cs c) w3 = Some w'" by (auto simp: w1(2) restart_sending_def bind_eq_Some_conv)
    have "same_queue (task w2 t) (task w3 t)" using w3(1) send_next_request_queue[of c w2 w3 t] by (auto split: if_splits)
    with on_conns_other[OF w3(2)] t2 show ?thesis by simp
  qed
qed

lemma ack_pending_result:
  assumes "task_ok (task w t)" "tk_state (task w t) \<noteq> TASK_END"
  shows "ntrip_task_ack_pending t w = Some (set_task t ((task w t)\<lparr>mimeq := drop (pending (task w t)) (mimeq (task w t)), pending := 0,
    queue_size := sum_list (map length (drop (pending (task w t)) (mimeq (task w t))))\<rparr>) w)"
  using assms sum_list_take_drop[of length "mimeq (task w t)" "pending (task w t)"]
  by (simp add: ntrip_task_ack_pending_def Let_def task_ok_def)

text \<open>
  The connection of a task: the session knows the task and is alive, and when it is idle nothing is waiting for
  a reply.
\<close>

definition linked :: "net \<Rightarrow> nat \<Rightarrow> bool" where
  "linked w t \<longleftrightarrow> (case tk_st (task w t) of
     None \<Rightarrow> True
   | Some c \<Rightarrow> oc_task (nw_out w c) = Some t \<and> 0 < nt_refcnt (osess w c) \<and>
       (nt_state (osess w c) = NTRIP_IDLE_CLIENT \<longrightarrow> pending (task w t) = 0))"

lemma conns_incref:
  "0 < nt_refcnt (osess w c) \<Longrightarrow>
    on_conns (\<lambda>cs. ntrip_incref cs c) w = Some (set_osess c ((osess w c)\<lparr>nt_refcnt := nt_refcnt (osess w c) + 1\<rparr>) w)"
  by (simp add: on_conns_def ntrip_incref_def refcnt_incref_def set_osess_def set_sess_def)

lemma conns_decref:
  "1 < nt_refcnt (osess w c) \<Longrightarrow>
    on_conns (\<lambda>cs. ntrip_decref cs c) w = Some (set_osess c ((osess w c)\<lparr>nt_refcnt := nt_refcnt (osess w c) - 1\<rparr>) w)"
  by (simp add: on_conns_def ntrip_decref_def refcnt_decref_def set_osess_def set_sess_def)

lemma task_queue_total:
  assumes "task_ok (task w t)" "linked w t"
  shows "\<exists>w'. ntrip_task_queue env t m w = Some w'"
proof (cases "tk_state (task w t) = TASK_END")
  case True
  then show ?thesis by (simp add: ntrip_task_queue_def)
next
  case False
  obtain w1 where w1: "nw_srv w1 = nw_srv w" "nw_out w1 = nw_out w" "nw_tasks w1 = (nw_tasks w)(t := queued_task (task w t) m)"
    "ntrip_task_queue env t m w = restart_sending t w1" using task_queue_enqueue[OF assms(1) False] by blast
  show ?thesis
  proof (cases "tk_st (task w t)")
    case None
    then show ?thesis by (simp add: w1(3,4) restart_sending_def ntrip_task_get_st_ref_def queued_task_def)
  next
    case (Some c)
    with assms(2) have l: "oc_task (nw_out w c) = Some t" "0 < nt_refcnt (osess w c)" "nt_state (osess w c) = NTRIP_IDLE_CLIENT \<longrightarrow> pending (task w t) = 0"
      by (simp_all add: linked_def)
    define w2 where "w2 = set_osess c ((osess w1 c)\<lparr>nt_refcnt := nt_refcnt (osess w1 c) + 1\<rparr>) w1"
    have g: "ntrip_task_get_st_ref t w1 = Some (Some c, w2)"
      using Some l(2) conns_incref[of w1 c] by (simp add: ntrip_task_get_st_ref_def w1(1,3) queued_task_def w2_def)
    have w2: "oc_task (nw_out w2 c) = Some t" "nt_state (osess w2 c) = nt_state (osess w c)" "pending (task w2 t) = pending (task w t)"
      "1 < nt_refcnt (osess w2 c)" using l by (simp_all add: w2_def w1(1-3) queued_task_def)
    have "\<exists>w3. (if nt_state (osess w2 c) = NTRIP_IDLE_CLIENT then ntrip_task_send_next_request c w2 else Some w2) = Some w3 \<and> 1 < nt_refcnt (osess w3 c)"
    proof (cases "nt_state (osess w2 c) = NTRIP_IDLE_CLIENT")
      case True
      with send_next_request_eq[OF w2(1)] w2 l(3) show ?thesis by fastforce
    qed (simp add: w2(4))
    then show ?thesis using g conns_decref by (fastforce simp: w1(4) restart_sending_def)
  qed
qed

subsection \<open>What becomes of the contents\<close>

text \<open>
  A queue whose first elements may be in flight. An acknowledgement removes those; a new element that does not
  fit removes the others first.
\<close>

locale delivery_queue =
  fixes invar :: "'s \<Rightarrow> bool" and items :: "'s \<Rightarrow> 'm list" and inflight :: "'s \<Rightarrow> nat"
    and put :: "'m \<Rightarrow> 's \<Rightarrow> 's option" and ack :: "'s \<Rightarrow> 's option"
    and taken :: "'s \<Rightarrow> 'm \<Rightarrow> bool" and overflows :: "'s \<Rightarrow> 'm \<Rightarrow> bool"
  assumes put_step: "invar s \<Longrightarrow> put m s = Some s' \<Longrightarrow> invar s' \<and>
      items s' = (if overflows s m then take (inflight s) (items s) else items s) @ (if taken s m then [m] else [])"
    and ack_step: "invar s \<Longrightarrow> ack s = Some s' \<Longrightarrow> invar s' \<and> items s' = drop (inflight s) (items s)"

text \<open>
  The elements that were taken are those that were acknowledged, those that were drained and those in the
  queue; what was acknowledged followed by the queue is in the order in which it was taken.
\<close>

definition accounted :: "'m list \<Rightarrow> 'm list \<Rightarrow> 'm list \<Rightarrow> 'm list \<Rightarrow> bool" where
  "accounted q accepted acked drained \<longleftrightarrow>
     mset accepted = mset acked + mset drained + mset q \<and> subseq (acked @ q) accepted"

context delivery_queue
begin

lemma put_accounted:
  assumes "invar s" "put m s = Some s'" "accounted (items s) A K D"
  shows "accounted (items s') (A @ (if taken s m then [m] else [])) K (D @ (if overflows s m then drop (inflight s) (items s) else []))"
proof -
  let ?q = "if overflows s m then take (inflight s) (items s) else items s"
  let ?d = "if overflows s m then drop (inflight s) (items s) else []"
  have q: "items s' = ?q @ (if taken s m then [m] else [])" using put_step[OF assms(1,2)] by simp
  have split: "mset ?q + mset ?d = mset (items s)" by (metis append_Nil2 append_take_drop_id mset_append)
  have "subseq (K @ ?q) (K @ items s)" by (auto simp: subseq_append_iff intro: prefix_imp_subseq take_is_prefix)
  then have "subseq (K @ ?q) A" using assms(3) subseq_order.order_trans unfolding accounted_def by blast
  then have "subseq ((K @ ?q) @ (if taken s m then [m] else [])) (A @ (if taken s m then [m] else []))" by (intro list_emb_append_mono) auto
  moreover have "mset A = mset K + mset D + (mset ?q + mset ?d)" using assms(3) unfolding accounted_def split by simp
  ultimately show ?thesis unfolding accounted_def q by (simp add: ac_simps)
qed

lemma ack_accounted:
  assumes "invar s" "ack s = Some s'" "accounted (items s) A K D"
  shows "accounted (items s') A (K @ take (inflight s) (items s)) D"
proof -
  have "items s' = drop (inflight s) (items s)" using ack_step[OF assms(1,2)] by simp
  moreover have "mset (take (inflight s) (items s)) + mset (drop (inflight s) (items s)) = mset (items s)"
    by (metis append_take_drop_id mset_append)
  ultimately show ?thesis using assms(3) by (simp add: accounted_def ac_simps)
qed

end

text \<open>The instance: the queue of a task. A task that was stopped takes nothing and acknowledges nothing.\<close>

definition task_taken :: "ntrip_task \<Rightarrow> cstring \<Rightarrow> bool" where
  "task_taken x m \<longleftrightarrow> tk_state x \<noteq> TASK_END \<and> accepts x m"

definition task_overflows :: "ntrip_task \<Rightarrow> cstring \<Rightarrow> bool" where
  "task_overflows x m \<longleftrightarrow> tk_state x \<noteq> TASK_END \<and> length m + queue_size x > queue_max_size x"

definition task_inflight :: "ntrip_task \<Rightarrow> nat" where
  "task_inflight x = (if tk_state x = TASK_END then 0 else pending x)"

interpretation tq: delivery_queue "\<lambda>w. task_ok (task w t)" "\<lambda>w. mimeq (task w t)" "\<lambda>w. task_inflight (task w t)"
  "ntrip_task_queue env t" "ntrip_task_ack_pending t" "\<lambda>w. task_taken (task w t)" "\<lambda>w. task_overflows (task w t)" for env t
proof
  fix w m w' assume ok: "task_ok (task w t)" and q: "ntrip_task_queue env t m w = Some w'"
  show "task_ok (task w' t) \<and> mimeq (task w' t) =
    (if task_overflows (task w t) m then take (task_inflight (task w t)) (mimeq (task w t)) else mimeq (task w t)) @ (if task_taken (task w t) m then [m] else [])"
  proof (cases "tk_state (task w t) = TASK_END")
    case True
    with q ok show ?thesis by (simp add: ntrip_task_queue_def task_overflows_def task_taken_def)
  next
    case False
    have same: "same_queue (queued_task (task w t) m) (task w' t)" by (rule task_queue_result[OF ok False q])
    have "mimeq (task w' t) = queue_after (task w t) m" using same by (simp add: same_queue_def queued_task_def)
    with same_queue_ok[OF same queued_task_ok[OF ok]] False show ?thesis
      by (simp add: queue_after_def task_overflows_def task_taken_def task_inflight_def)
  qed
next
  fix w w' assume ok: "task_ok (task w t)" and a: "ntrip_task_ack_pending t w = Some w'"
  show "task_ok (task w' t) \<and> mimeq (task w' t) = drop (task_inflight (task w t)) (mimeq (task w t))"
  proof (cases "tk_state (task w t) = TASK_END")
    case True
    with a ok show ?thesis by (simp add: ntrip_task_ack_pending_def Let_def task_inflight_def)
  next
    case False
    with a ack_pending_result[OF ok False] show ?thesis by (auto simp: task_inflight_def task_ok_def)
  qed
qed

lemma reschedule_queue: "same_queue (task w t) (task (ntrip_task_reschedule t w) t)"
  by (simp add: ntrip_task_reschedule_def Let_def same_queue_def)

lemma clear_get_st_tasks:
  "ntrip_task_clear_get_st t w = (st, w') \<Longrightarrow> nw_tasks w' = (nw_tasks w)(t := (task w t)\<lparr>tk_st := None\<rparr>)"
  by (auto simp: ntrip_task_clear_get_st_def set_task_def fun_upd_idem split: option.splits)

text \<open>Stopping a task changes four of its fields and no other task.\<close>

lemma stop_tasks:
  assumes "ntrip_task_stop t w = Some w'" "tk_state (task w t) \<noteq> TASK_END"
  shows "\<exists>st. nw_tasks w' = (nw_tasks w)(t := (task w t)\<lparr>tk_state := TASK_END, pending := 0, tk_ev := None, tk_st := st\<rparr>)"
proof -
  define x where "x = (task w t)\<lparr>tk_state := TASK_END, pending := 0, tk_ev := None\<rparr>"
  define w0 where "w0 = set_task t x w"
  from assms obtain st w1 where g: "ntrip_task_get_st_ref t w0 = Some (st, w1)"
    by (auto simp: ntrip_task_stop_def w0_def x_def bind_eq_Some_conv)
  have q1: "nw_tasks w1 = (nw_tasks w)(t := x)" using get_st_ref_queue[OF g] by (simp add: w0_def set_task_def)
  have x: "x\<lparr>tk_st := tk_st x\<rparr> = x" by simp
  show ?thesis
  proof (cases st)
    case None
    with assms g have "w' = w1" by (simp add: ntrip_task_stop_def w0_def x_def)
    with q1 show ?thesis unfolding x_def by (intro exI[of _ "tk_st (task w t)"]) simp
  next
    case (Some c)
    obtain st2 w2 where c: "ntrip_task_clear_get_st t w1 = (st2, w2)" by fastforce
    have q2: "nw_tasks w2 = (nw_tasks w)(t := x\<lparr>tk_st := None\<rparr>)" using q1 clear_get_st_tasks[OF c] by simp
    from assms g Some c obtain w3 where w3: "(case st2 of
          Some c2 \<Rightarrow> do { w \<leftarrow> on_srv (\<lambda>s. srv_decref_end s c2) w2; on_conns (\<lambda>cs. ntrip_decref cs c2) w }
        | None \<Rightarrow> if nt_state (osess w2 c) = NTRIP_END then Some w2 else None) = Some w3" "on_conns (\<lambda>cs. ntrip_decref cs c) w3 = Some w'"
      by (auto simp: ntrip_task_stop_def w0_def x_def bind_eq_Some_conv)
    have "nw_tasks w3 = nw_tasks w2"
    proof (cases st2)
      case None
      with w3(1) show ?thesis by (simp split: if_splits)
    next
      case (Some c2)
      with w3(1) obtain y where "on_srv (\<lambda>s. srv_decref_end s c2) w2 = Some y" "on_conns (\<lambda>cs. ntrip_decref cs c2) y = Some w3"
        by (auto simp: bind_eq_Some_conv)
      then show ?thesis using on_srv_other on_conns_other by metis
    qed
    with on_conns_other[OF w3(2)] q2 show ?thesis unfolding x_def by (intro exI[of _ None]) simp
  qed
qed

lemma stop_queue: "ntrip_task_stop t w = Some w' \<Longrightarrow> same_queue (task w t) (task w' t)"
  using stop_tasks[of t w w'] by (cases "tk_state (task w t) = TASK_END") (auto simp: ntrip_task_stop_def same_queue_def)

text \<open>
  The histories of a task: the contents that were taken into its queue, acknowledged, and drained, in order. A content
  is queued by a user, pending ones are acknowledged when the reply came, requests are sent, the task is
  rescheduled or stopped, and anything else may happen that leaves its queue alone. On the task of the Graylog sender only
  contents are queued that fit, since there the queue would log its loss through the same queue.
\<close>

definition queue_quiet :: "ntrip_task \<Rightarrow> cstring \<Rightarrow> bool" where
  "queue_quiet x m \<longleftrightarrow> tk_owner x = Graylog_sender \<longrightarrow> \<not> task_overflows x m \<and> (tk_state x = TASK_END \<or> accepts x m)"

inductive task_run :: "net_env \<Rightarrow> nat \<Rightarrow> net \<Rightarrow> cstring list \<Rightarrow> cstring list \<Rightarrow> cstring list \<Rightarrow> net \<Rightarrow> bool" for env t w where
  start: "task_run env t w [] [] [] w"
| queue: "task_run env t w A K D v \<Longrightarrow> queue_quiet (task v t) m \<Longrightarrow> ntrip_task_queue env t m v = Some v' \<Longrightarrow>
    task_run env t w (A @ (if task_taken (task v t) m then [m] else [])) K
      (D @ (if task_overflows (task v t) m then drop (task_inflight (task v t)) (mimeq (task v t)) else [])) v'"
| ack: "task_run env t w A K D v \<Longrightarrow> ntrip_task_ack_pending t v = Some v' \<Longrightarrow>
    task_run env t w A (K @ take (task_inflight (task v t)) (mimeq (task v t))) D v'"
| send: "task_run env t w A K D v \<Longrightarrow> ntrip_task_send_next_request c v = Some v' \<Longrightarrow> task_run env t w A K D v'"
| reschedule: "task_run env t w A K D v \<Longrightarrow> task_run env t w A K D (ntrip_task_reschedule t v)"
| stop: "task_run env t w A K D v \<Longrightarrow> ntrip_task_stop t v = Some v' \<Longrightarrow> task_run env t w A K D v'"
| other: "task_run env t w A K D v \<Longrightarrow> mimeq (task v' t) = mimeq (task v t) \<Longrightarrow> pending (task v' t) = pending (task v t) \<Longrightarrow>
    queue_size (task v' t) = queue_size (task v t) \<Longrightarrow> task_run env t w A K D v'"

lemma task_run_accounted:
  assumes "task_run env t w A K D v" "mimeq (task w t) = []" "pending (task w t) = 0" "queue_size (task w t) = 0"
  shows "task_ok (task v t) \<and> accounted (mimeq (task v t)) A K D"
  using assms
proof (induction rule: task_run.induct)
  case start
  then show ?case by (simp add: task_ok_def accounted_def)
next
  case (queue A K D v m v')
  then have "task_ok (task v t)" "accounted (mimeq (task v t)) A K D" by simp_all
  with queue.hyps(3) show ?case using tq.put_step[of v t env m v'] tq.put_accounted[of v t env m v' A K D] by simp
next
  case (ack A K D v v')
  then have "task_ok (task v t)" "accounted (mimeq (task v t)) A K D" by simp_all
  with ack.hyps(2) show ?case using tq.ack_step[of v t v'] tq.ack_accounted[of v t v' A K D] by simp
next
  case (send A K D v c v')
  then show ?case using send_next_request_queue[OF send.hyps(2), of t] same_queue_ok by (auto simp: same_queue_def)
next
  case (reschedule A K D v)
  then show ?case using reschedule_queue[of v t] same_queue_ok by (auto simp: same_queue_def)
next
  case (stop A K D v v')
  then show ?case using stop_queue[OF stop.hyps(2)] same_queue_ok by (auto simp: same_queue_def)
next
  case (other A K D v v')
  then show ?case by (simp add: task_ok_def)
qed

text \<open>
  C10: The next request of an idle connection. The request line and the headers that the task has fit in the
  buffer that is allocated for them; the length they announce is that of the contents which follow. In bulk mode
  the contents are as many items from the head of the queue as fit, each with a line feed, otherwise the first item;
  they are then pending and the connection waits for the reply. With nothing to send the connection stays idle. The
  queue does not change.
\<close>
theorem send_next_request_correct:
  assumes "oc_task (nw_out w c) = Some t" "nt_state (osess w c) = NTRIP_IDLE_CLIENT" "pending (task w t) = 0"
  shows "\<exists>w' n. ntrip_task_send_next_request c w = Some w' \<and> request_count_ok (task w t) n \<and> task w' t = (task w t)\<lparr>pending := n\<rparr> \<and>
    nt_output (osess w' c) = nt_output (osess w c) @
      (if n = 0 then [] else request_text w c (tk_method (task w t)) (Some (length (request_body (task w t) n), request_type (task w t))) @ request_body (task w t) n) \<and>
    nt_state (osess w' c) = (if n = 0 then NTRIP_IDLE_CLIENT else NTRIP_WAIT_HTTP_STATUS)"
  using send_next_request_eq[OF assms] by (fastforce simp: fun_upd_same)

text \<open>A sender of log entries with two entries in its queue, and its idle connection.\<close>

definition zero_task :: ntrip_task where
  "zero_task = \<lparr>tk_refcnt = 0, tk_host = None, tk_port = 0, tk_tls = 0, tk_type = [], tk_method = [], tk_uri = None, refresh_delay = 0,
     max_retry_delay = 0, current_retry_delay = 0, status_timeout = 0, tk_headers = [], tk_owner = Graylog_sender, cb_arg2 = 0, tk_st = None,
     tk_state = TASK_INIT, tk_ev = None, tk_keepalive = False, mimeq = [], pending = 0, queue_size = 0, queue_max_size = 0, use_mimeq = False,
     bulk_max_size = 0, bulk_content_type = [], tk_nograylog = False, drainfilename = None, tk_read_timeout = 0, tk_write_timeout = 0\<rparr>"

definition demo_sender :: ntrip_task where
  "demo_sender = graylog_sender_new ''log'' 12201 ''/gelf'' 0 5 1 60 10 100 ''key'' None zero_task"

definition demo_session :: ntrip_state where
  "demo_session = new_session\<lparr>nt_state := NTRIP_IDLE_CLIENT, connection_keepalive := True\<rparr>"

definition demo_out :: out_conn where
  "demo_out = \<lparr>oc_host = ''log'', oc_port = 12201, oc_uri = ''/gelf'', oc_status_code = 0, oc_task = Some 0, oc_client = True,
     oc_persistent = False, oc_nograylog = True, oc_timeouts = (0, 0)\<rparr>"

definition demo_net :: net where
  "demo_net = \<lparr>nw_srv = \<lparr>sv_conns = demo_conns\<lparr>conn := \<lambda>_. demo_session\<rparr>, sv_live = example_table, sv_stack = [],
      sv_nodes = the (hash_table_new True 5), sv_syncer = \<lambda>_. None,
      sv_rtcm = \<lambda>_. \<lparr>conn_input = [], received_bytes = 0, delivered = [], last_useful = 0, info_types = None, pos_jobs = []\<rparr>,
      sv_cache = the (hash_table_new True 5), sv_jobs = [], sv_messages = [], sv_sent = []\<rparr>,
    nw_out = \<lambda>_. demo_out, nw_tasks = \<lambda>_. demo_sender, nw_files = Map.empty, nw_syncer = [],
    nw_fetch = \<lambda>_. \<lparr>fa_sourcetable = None, fa_priority = 0, fa_json_config = None\<rparr>,
    nw_redistribute = \<lambda>_. \<lparr>rd_mountpoint = [], rd_endpoint = endpoint_init None 0 0, rd_persistent = False, rd_livesource = [], rd_timeout = 0, rd_freed = False\<rparr>, nw_logged = []\<rparr>"

definition demo_waiting :: net where
  "demo_waiting = set_task 0 (demo_sender\<lparr>mimeq := [''a'', ''bc''], queue_size := 3\<rparr>) demo_net"

lemmas demo_net_simps = demo_net_def demo_out_def demo_session_def demo_sender_def graylog_sender_new_def ntrip_task_new_def

theorem send_next_request_correct_witness:
  "\<exists>w'. ntrip_task_send_next_request 0 demo_waiting = Some w' \<and> pending (task w' 0) = 2 \<and> nt_state (osess w' 0) = NTRIP_WAIT_HTTP_STATUS"
proof -
  let ?x = "task demo_waiting 0"
  have h: "oc_task (nw_out demo_waiting 0) = Some 0" "nt_state (osess demo_waiting 0) = NTRIP_IDLE_CLIENT" "pending ?x = 0"
    by (simp_all add: demo_waiting_def demo_net_simps)
  have x: "bulk_max_size ?x = 10" "mimeq ?x = [''a'', ''bc'']" by (simp_all add: demo_waiting_def demo_net_simps)
  have "n = 2" if "request_count_ok ?x n" for n
  proof -
    have "n = 0 \<or> n = 1 \<or> n = 2" using that x by (auto simp: request_count_ok_def)
    then show ?thesis using that x by (auto simp: request_count_ok_def request_body_def)
  qed
  then show ?thesis using send_next_request_correct[OF h] by fastforce
qed

text \<open>
  The calls that lose something say so in the log: a call that overflows the queue logs the size of what was drained, one
  whose content is too big for a bulk request logs that, and every other call logs nothing.
\<close>

lemma queue_quiet_logs_nothing:
  assumes "\<not> task_overflows (task w t) m" "tk_state (task w t) = TASK_END \<or> accepts (task w t) m"
  shows "ntrip_task_queue env t m w = (if tk_state (task w t) = TASK_END then Some w else restart_sending t (insert_item t m w))"
  using assms by (auto simp: ntrip_task_queue_def over_max_def over_bulk_def task_overflows_def accepts_def)

text \<open>
  C9: What becomes of the contents that a task has taken into its queue. In every history of a task with an empty queue
  at the start, the contents that were taken are exactly those that were acknowledged, those that were drained
  because the queue was full, and those still in the queue; what was acknowledged, followed by the queue, is in the order in which it was
  taken. The counters of the queue are right, so that the acknowledgement never fails, and as long as the task and its
  connection know each other a further content can be queued. For the task of the Graylog sender, histories and the last statement are
  about contents that fit the queue: there a content that does not fit makes the queue log a message
  through itself, which may never return and is the subject of \<open>logging_recursion\<close> in \<open>Logs\<close>.
\<close>
theorem task_delivery:
  assumes "task_run env t w A K D v" "mimeq (task w t) = []" "pending (task w t) = 0" "queue_size (task w t) = 0"
  shows "mset A = mset K + mset D + mset (mimeq (task v t)) \<and> subseq (K @ mimeq (task v t)) A \<and>
    pending (task v t) \<le> length (mimeq (task v t)) \<and> queue_size (task v t) = sum_list (map length (mimeq (task v t))) \<and>
    (\<exists>v'. ntrip_task_ack_pending t v = Some v') \<and>
    (linked v t \<and> queue_quiet (task v t) m \<longrightarrow> (\<exists>v'. ntrip_task_queue env t m v = Some v'))"
proof -
  from task_run_accounted[OF assms] have ok: "task_ok (task v t)" and a: "accounted (mimeq (task v t)) A K D" by simp_all
  have "\<exists>v'. ntrip_task_ack_pending t v = Some v'"
    using ack_pending_result[OF ok] by (cases "tk_state (task v t) = TASK_END") (simp_all add: ntrip_task_ack_pending_def Let_def)
  then show ?thesis using ok a task_queue_total[OF ok] by (simp add: task_ok_def accounted_def)
qed

definition demo_net_env :: "srv_env \<Rightarrow> net_env" where
  "demo_net_env e = \<lparr>ne_srv = e, ne_filedate = id, ne_can_open = \<lambda>_. False, ne_json_text = \<lambda>_. [], ne_endpoints_json = JArray [],
     ne_strftime = \<lambda>_. [], ne_table_json = \<lambda>_. None, ne_host_auth = None\<rparr>"

theorem task_delivery_witness:
  "\<forall>e. \<exists>v. task_run (demo_net_env e) 0 demo_net [''x''] [] [] v \<and> mset [''x''] = mset (mimeq (task v 0))"
proof
  fix e
  have z: "mimeq (task demo_net 0) = []" "pending (task demo_net 0) = 0" "queue_size (task demo_net 0) = 0" by (simp_all add: demo_net_simps)
  have q: "ntrip_task_queue (demo_net_env e) 0 ''x'' demo_net = Some (set_task 0 (demo_sender\<lparr>mimeq := [''x''], queue_size := 1\<rparr>) demo_net)"
    by (simp add: ntrip_task_queue_def over_max_def over_bulk_def insert_item_def restart_sending_def ntrip_task_get_st_ref_def demo_net_simps Let_def set_task_def)
  have "task_run (demo_net_env e) 0 demo_net [''x''] [] [] (set_task 0 (demo_sender\<lparr>mimeq := [''x''], queue_size := 1\<rparr>) demo_net)"
    using task_run.queue[OF task_run.start _ q]
    by (simp add: demo_net_simps task_taken_def task_overflows_def accepts_def queue_quiet_def)
  with task_delivery[OF this z] show "\<exists>v. task_run (demo_net_env e) 0 demo_net [''x''] [] [] v \<and> mset [''x''] = mset (mimeq (task v 0))"
    by (intro exI conjI) (assumption, simp)
qed

subsection \<open>What the code does not handle\<close>

text \<open>The body of a reply that arrives in two reads ends the connection, although the server keeps it.\<close>

lemma split_content_ends:
  assumes "input_data (osess w c) = Some bs" "length bs < content_length (osess w c) - content_done (osess w c)"
  shows "\<exists>w'. cli_content_step c w = Some (Cli_end w')"
  using assms by (auto simp: cli_content_step_def idle_or_end_def set_osess_def set_input_data_def Let_def split: input_ref.splits)

text \<open>
  A reload of the syncer keeps the position of a task that is used again. When the first of two nodes is removed,
  the callbacks of the task of the second one read the array of tasks outside its bounds.
\<close>

definition demo_node :: "cstring \<Rightarrow> config_node" where
  "demo_node h = \<lparr>node_host = h, node_port = 2101, node_tls = 0, node_authorization = ''key'', node_retry_delay = 5, node_queue_max_size = 1000\<rparr>"

lemma idle_task_freed:
  assumes "tk_refcnt (task w t) = 1" "tk_st (task w t) = None" "tk_state (task w t) \<noteq> TASK_END" "mimeq (task w t) = []" "queue_size (task w t) = 0"
  shows "\<exists>x. ntrip_task_decref env t w = Some (set_task t x w)"
  using assms by (auto simp: ntrip_task_decref_def refcnt_decref_def ntrip_task_free_def ntrip_task_stop_def ntrip_task_get_st_ref_def
    ntrip_task_drain_queue_def set_task_def Let_def)

lemma reload_stale_position:
  "\<exists>w w'. syncer_new env id junk [demo_node ''a'', demo_node ''b''] ''/sync'' 0 demo_net = Some (True, w) \<and>
     syncer_reload env id junk [demo_node ''b''] ''/sync'' 0 w = Some w' \<and> nw_syncer w' = [1] \<and> task_end_cb env 1 w' = None"
proof -
  define x where "x i = syncer_task_new i (demo_node (if i = 0 then ''a'' else ''b'')) ''/sync'' 0 junk" for i
  let ?w = "(set_task 1 (x 1) (set_task 0 (x 0) (demo_net\<lparr>nw_syncer := []\<rparr>)))\<lparr>nw_syncer := [0, 1]\<rparr>"
  have 1: "syncer_new env id junk [demo_node ''a'', demo_node ''b''] ''/sync'' 0 demo_net = Some (True, ?w)"
    by (simp add: syncer_new_def syncer_reload_def x_def)
  have x: "tk_refcnt (x i) = 1" "tk_st (x i) = None" "mimeq (x i) = []" "queue_size (x i) = 0" "tk_port (x i) = 2101" "tk_tls (x i) = 0"
    "tk_host (x i) = Some (if i = 0 then ''a'' else ''b'')" "cb_arg2 (x i) = i" "tk_owner (x i) = Syncer" "tk_state (x i) = TASK_INIT" for i
    by (simp_all add: x_def syncer_task_new_def ntrip_task_new_def demo_node_def refcnt_init_def)
  have f: "find_node_task (demo_node ''b'') ?w [0, 1] = Some (Some 1)"
    by (simp add: compare_node_task_def set_task_def x demo_node_def c_strcaseeq_def c_tolower_def Let_def)
  let ?v = "set_task 1 ((x 1)\<lparr>tk_refcnt := 2\<rparr>) ?w"
  have i: "ntrip_task_incref 1 ?w = Some ?v" by (simp add: ntrip_task_incref_def refcnt_incref_def set_task_def x)
  obtain y where y: "ntrip_task_decref env 0 ?v = Some (set_task 0 y ?v)"
    using idle_task_freed[of ?v 0 env] by (auto simp: set_task_def x)
  have d: "ntrip_task_decref env 1 (set_task 0 y ?v) = Some (set_task 1 ((x 1)\<lparr>tk_refcnt := 1\<rparr>) (set_task 0 y ?v))"
    by (simp add: ntrip_task_decref_def refcnt_decref_def set_task_def x)
  let ?u = "(set_task 1 ((x 1)\<lparr>tk_refcnt := 1\<rparr>) (set_task 0 y ?v))\<lparr>nw_syncer := [1]\<rparr>"
  have "nw_syncer ?w = [0, 1]" "nw_syncer ?v = [0, 1]" by (simp_all add: set_task_def)
  then have 2: "syncer_reload env id junk [demo_node ''b''] ''/sync'' 0 ?w = Some ?u"
    by (simp only: syncer_reload_def reload_nodes.simps decref_tasks.simps f i y d bind.bind_lunit option.case option.map prod.case)
  have "task_end_cb env 1 ?u = None" by (simp add: task_end_cb_def syncer_end_cb_def buf_get_def set_task_def x)
  with 1 2 show ?thesis by force
qed

end
