(* ===== verification/Config.thy ===== *)
theory Config
  imports Ntripcli Alarms
begin

text \<open>
  The configuration (\<^verbatim>\<open>caster/config.c\<close>, \<^verbatim>\<open>caster/config.h\<close>). Reading the YAML file is a call of a library: what it
  returns, a structure whose absent fields are zero, is the argument of \<open>config_parse\<close>, which fills in the
  defaults and rejects what is inconsistent. Strings are options, \<^const>\<open>None\<close> for NULL. An outer \<^const>\<open>None\<close> is a
  write outside a buffer. Allocations succeed.
\<close>

subsection \<open>Structures\<close>

record config_bind =
  bd_ip :: cstring
  bd_port :: "16 word"
  bd_queue_size :: int
  bd_tls :: bool
  bd_tls_full_certificate_chain :: "cstring option"
  bd_tls_private_key :: "cstring option"
  bd_hostname :: "cstring option"

record config_proxy =
  px_host :: cstring
  px_port :: "16 word"
  px_table_refresh_delay :: int
  px_filter_filename :: "cstring option"
  px_priority :: int
  px_tls :: int

record config_graylog =
  gl_host :: cstring
  gl_port :: "16 word"
  gl_uri :: cstring
  gl_tls :: int
  gl_log_level :: int
  gl_authorization :: cstring
  gl_status_timeout :: int
  gl_retry_delay :: int
  gl_max_retry_delay :: int
  gl_bulk_max_size :: nat
  gl_queue_max_size :: nat
  gl_drainfilename :: "cstring option"

record config_syslog =
  sy_log_level :: int
  sy_facility :: int

record config_rtcm_filter =
  rf_apply :: cstring
  rf_pass :: cstring
  rf_convert :: "(cstring \<times> rtcm_conversion) list"

text \<open>The block \<open>alarms\<close>; the first two thresholds are structures of one field.\<close>

record alarms_block =
  ab_smtp :: config_alarms_smtp
  ab_recipients :: "config_alarms_recipient list"
  ab_mountpoints :: "config_alarms_mountpoint list"
  ab_subject :: "cstring option"
  ab_min_interval_minutes :: int
  ab_ruckus_path :: "cstring option"
  ab_email_template :: "cstring option"
  ab_station_offline :: "int option"
  ab_station_online :: "int option"
  ab_low_sv_count :: "config_alarms_low_sv option"
  ab_position_drift :: "config_alarms_position_drift option"

record config =
  c_hysteresis_m :: real
  c_max_nearest_lookup_distance_m :: real
  c_nearest_base_count_target :: int
  c_min_nearest_recompute_interval :: int
  c_max_nearest_recompute_interval :: int
  c_min_nearest_recompute_pos_delta :: real
  c_proxy :: "config_proxy list"
  c_trusted_http_proxy :: "cstring list"
  c_trusted_http_proxy_prefixes :: "(sock \<times> int) list"
  c_trusted_http_ip_header :: "cstring option"
  c_node :: "config_node list"
  c_endpoint :: "endpoint list"
  c_endpoints_json :: json
  c_graylog :: "config_graylog list"
  c_syslog :: "config_syslog list"
  c_backlog_socket :: nat
  c_backlog_evbuffer :: nat
  c_source_read_timeout :: int
  c_ntripcli_default_read_timeout :: int
  c_ntripcli_default_write_timeout :: int
  c_ntripsrv_default_read_timeout :: int
  c_ntripsrv_default_write_timeout :: int
  c_sourcetable_fetch_timeout :: int
  c_on_demand_source_timeout :: int
  c_bind :: "config_bind list"
  c_http_header_max_size :: nat
  c_http_content_length_max :: nat
  c_threads :: "nat list"
  c_idle_max_delay :: int
  c_reconnect_delay :: int
  c_min_raw_packet :: int
  c_max_raw_packet :: int
  c_host_auth_filename :: "cstring option"
  c_source_auth_filename :: "cstring option"
  c_rover_auth_filename :: "cstring option"
  c_user_auth_filename :: "cstring option"
  c_blocklist_filename :: "cstring option"
  c_sourcetable_filename :: "cstring option"
  c_sidecar_stats_filename :: "cstring option"
  c_sourcetable_priority :: int
  c_access_log :: "cstring option"
  c_log :: "cstring option"
  c_log_level :: int
  c_admin_user :: "cstring option"
  c_webroots :: "webroot list"
  c_rtcm_filter :: "config_rtcm_filter list"
  c_syncer_auth :: "cstring option"
  c_ui_dir :: "cstring option"
  c_alarms :: "alarms_block option"
  c_refcnt :: int
  c_host_auth :: "auth_entry list option"
  c_source_auth :: "auth_entry list option"
  c_rover_auth :: "rover_auth_entry list option"
  c_user_auth :: "user_auth_entry list option"
  c_blocklist :: "prefix_table option"
  c_gen :: int

subsection \<open>Defaults\<close>

text \<open>\<open>DEFAULT_ASSIGN\<close>, \<open>DEFAULT_ASSIGN_DUP\<close>: a field that is zero or NULL gets the default.\<close>

definition default_to :: "'a::zero \<Rightarrow> 'a \<Rightarrow> 'a" where
  "default_to d x = (if x = 0 then d else x)"

definition default_string :: "cstring \<Rightarrow> cstring option \<Rightarrow> cstring option" where
  "default_string d s = (if s = None then Some d else s)"

definition proxy_defaults :: "config_proxy \<Rightarrow> config_proxy" where
  "proxy_defaults p = p\<lparr>px_table_refresh_delay := default_to 600 (px_table_refresh_delay p), px_port := default_to 0 (px_port p),
     px_priority := default_to 20 (px_priority p)\<rparr>"

definition node_defaults :: "config_node \<Rightarrow> config_node" where
  "node_defaults n = n\<lparr>node_port := default_to 2443 (node_port n), node_queue_max_size := default_to 4000000 (node_queue_max_size n),
     node_retry_delay := default_to 1 (node_retry_delay n)\<rparr>"

definition endpoint_defaults :: "endpoint \<Rightarrow> endpoint" where
  "endpoint_defaults e = e\<lparr>ep_port := default_to 2443 (ep_port e)\<rparr>"

definition graylog_defaults :: "config_graylog \<Rightarrow> config_graylog" where
  "graylog_defaults g = g\<lparr>gl_retry_delay := default_to 1 (gl_retry_delay g), gl_port := default_to 7777 (gl_port g),
     gl_bulk_max_size := default_to 62000 (gl_bulk_max_size g), gl_queue_max_size := default_to 4000000 (gl_queue_max_size g)\<rparr>"

definition bind_defaults :: "config_bind \<Rightarrow> config_bind" where
  "bind_defaults b = b\<lparr>bd_port := default_to 2101 (bd_port b), bd_queue_size := default_to 2000 (bd_queue_size b)\<rparr>"

text \<open>The fields of the top level. \<open>min_raw_packet\<close> has a default that is not assigned.\<close>

definition top_defaults :: "config \<Rightarrow> config" where
  "top_defaults c = c\<lparr>c_hysteresis_m := default_to 500 (c_hysteresis_m c),
     c_max_nearest_lookup_distance_m := default_to 1000000 (c_max_nearest_lookup_distance_m c),
     c_nearest_base_count_target := default_to 10 (c_nearest_base_count_target c),
     c_min_nearest_recompute_interval := default_to 10 (c_min_nearest_recompute_interval c),
     c_max_nearest_recompute_interval := default_to 120 (c_max_nearest_recompute_interval c),
     c_min_nearest_recompute_pos_delta := default_to 10 (c_min_nearest_recompute_pos_delta c),
     c_idle_max_delay := default_to 60 (c_idle_max_delay c), c_reconnect_delay := default_to 10 (c_reconnect_delay c),
     c_max_raw_packet := default_to 1450 (c_max_raw_packet c), c_on_demand_source_timeout := default_to 60 (c_on_demand_source_timeout c),
     c_source_read_timeout := default_to 60 (c_source_read_timeout c), c_backlog_socket := default_to (112 * 1024) (c_backlog_socket c),
     c_backlog_evbuffer := default_to (16 * 1024) (c_backlog_evbuffer c),
     c_ntripcli_default_read_timeout := default_to 60 (c_ntripcli_default_read_timeout c),
     c_ntripcli_default_write_timeout := default_to 60 (c_ntripcli_default_write_timeout c),
     c_ntripsrv_default_read_timeout := default_to 60 (c_ntripsrv_default_read_timeout c),
     c_ntripsrv_default_write_timeout := default_to 60 (c_ntripsrv_default_write_timeout c),
     c_log_level := default_to 6 (c_log_level c), c_sourcetable_filename := default_string ''sourcetable.dat'' (c_sourcetable_filename c),
     c_access_log := default_string ''/var/log/chilopod/access.log'' (c_access_log c),
     c_log := default_string ''/var/log/chilopod/caster.log'' (c_log c), c_admin_user := default_string ''admin'' (c_admin_user c),
     c_sourcetable_priority := default_to 90 (c_sourcetable_priority c),
     c_sourcetable_fetch_timeout := default_to 60 (c_sourcetable_fetch_timeout c),
     c_http_header_max_size := default_to 8192 (c_http_header_max_size c),
     c_http_content_length_max := default_to 4000000 (c_http_content_length_max c)\<rparr>"

definition list_defaults :: "config \<Rightarrow> config" where
  "list_defaults c = c\<lparr>c_proxy := map proxy_defaults (c_proxy c), c_node := map node_defaults (c_node c),
     c_endpoint := map endpoint_defaults (c_endpoint c), c_graylog := map graylog_defaults (c_graylog c), c_bind := map bind_defaults (c_bind c)\<rparr>"

subsection \<open>Parsing\<close>

text \<open>The prefixes of the trusted proxies; inner \<^const>\<open>None\<close> for an invalid one.\<close>

fun parse_prefixes :: "pton \<Rightarrow> pton \<Rightarrow> cstring list \<Rightarrow> (sock \<times> int) list option option" where
  "parse_prefixes pton6 pton4 [] = Some (Some [])"
| "parse_prefixes pton6 pton4 (s # ss) = do {
     r \<leftarrow> ip_prefix_parse pton6 pton4 s;
     case r of
       None \<Rightarrow> Some None
     | Some p \<Rightarrow> do { ps \<leftarrow> parse_prefixes pton6 pton4 ss; Some (map_option ((#) p) ps) }
   }"

definition valid_alarm_types :: "cstring list" where
  "valid_alarm_types = [''station_offline'', ''station_online'', ''low_sv_count'', ''position_drift'']"

definition alarms_defaults :: "alarms_block \<Rightarrow> alarms_block" where
  "alarms_defaults a = a\<lparr>ab_subject := default_string ''Chilopod Alarm'' (ab_subject a),
     ab_ruckus_path := default_string ''/usr/local/sbin/ruckus'' (ab_ruckus_path a),
     ab_email_template := default_string ''alarm-email.html'' (ab_email_template a),
     ab_smtp := (ab_smtp a)\<lparr>smtp_port := default_to 587 (smtp_port (ab_smtp a))\<rparr>,
     ab_station_offline := map_option (default_to 5) (ab_station_offline a)\<rparr>"

definition recipient_types :: "config_alarms_recipient \<Rightarrow> cstring list" where
  "recipient_types r = (case rcpt_alarm_types r of None \<Rightarrow> [] | Some ts \<Rightarrow> ts)"

definition check_alarms :: "config \<Rightarrow> alarms_block \<Rightarrow> bool" where
  "check_alarms c a \<longleftrightarrow>
     (if ab_low_sv_count a \<noteq> None \<and> c_sidecar_stats_filename c = None then False
      else if \<not> list_all (\<lambda>r. list_all (\<lambda>t. t \<in> set valid_alarm_types) (recipient_types r)) (ab_recipients a) then False
      else list_all (\<lambda>m. list_all (\<lambda>t. t \<in> set valid_alarm_types) (am_alarm_types m)) (ab_mountpoints a))"

definition endpoint_config_json :: "endpoint \<Rightarrow> json" where
  "endpoint_config_json e = JObject ((case ep_host e of None \<Rightarrow> [] | Some h \<Rightarrow> [(''host'', JString h)]) @
     [(''port'', JInt (uint (ep_port e))), (''tls'', JBool (ep_tls e \<noteq> 0))])"

definition endpoints_json :: "config \<Rightarrow> json" where
  "endpoints_json c = JArray (map endpoint_config_json (c_endpoint c))"

definition thread_defaults :: "nat list \<Rightarrow> nat list" where
  "thread_defaults ts = map (default_to (500 * 1024)) (if ts = [] then [500 * 1024] else ts)"

definition config_parse :: "pton \<Rightarrow> pton \<Rightarrow> config option \<Rightarrow> int \<Rightarrow> config option option" where
  "config_parse pton6 pton4 loaded gen =
     (case loaded of
        None \<Rightarrow> Some None
      | Some c \<Rightarrow> do {
          let c = c\<lparr>c_gen := gen, c_refcnt := refcnt_init\<rparr>;
          let c = list_defaults (top_defaults c);
          ps \<leftarrow> parse_prefixes pton6 pton4 (c_trusted_http_proxy c);
          case ps of
            None \<Rightarrow> Some None
          | Some ps \<Rightarrow> do {
              let c = c\<lparr>c_trusted_http_proxy_prefixes := ps\<rparr>;
              let c = c\<lparr>c_alarms := map_option alarms_defaults (c_alarms c)\<rparr>;
              if (case c_alarms c of None \<Rightarrow> False | Some a \<Rightarrow> \<not> check_alarms c a) then Some None
              else do {
                let c = c\<lparr>c_threads := thread_defaults (c_threads c)\<rparr>;
                let c = c\<lparr>c_host_auth := None, c_source_auth := None, c_rover_auth := None, c_user_auth := None, c_blocklist := None\<rparr>;
                Some (Some (c\<lparr>c_endpoints_json := endpoints_json c\<rparr>))
              }
            }
        })"

text \<open>What the other components read of it.\<close>

definition alarms_of :: "alarms_block \<Rightarrow> config_alarms option" where
  "alarms_of a = do {
     subject \<leftarrow> ab_subject a;
     template \<leftarrow> ab_email_template a;
     Some \<lparr>ca_smtp = ab_smtp a, ca_recipients = ab_recipients a, ca_mountpoints = ab_mountpoints a, ca_subject = subject,
       min_interval_minutes = ab_min_interval_minutes a, email_template = template, station_offline = ab_station_offline a,
       station_online = ab_station_online a, low_sv_count = ab_low_sv_count a, position_drift = ab_position_drift a\<rparr>
   }"

definition srv_config_of :: "cstring \<Rightarrow> unit hash_table option \<Rightarrow> config \<Rightarrow> srv_config option" where
  "srv_config_of dir dict c = do {
     user \<leftarrow> c_admin_user c;
     Some \<lparr>cfg_adm = \<lparr>cfg_auth = \<lparr>source_auth = c_source_auth c, rover_auth = c_rover_auth c, user_auth = c_user_auth c, admin_user = user,
            rover_auth_filename = c_rover_auth_filename c\<rparr>,
          syncer_auth = c_syncer_auth c, ui_dir = c_ui_dir c, webroots = c_webroots c, config_dir = dir\<rparr>,
        http_header_max_size = c_http_header_max_size c, http_content_length_max = c_http_content_length_max c,
        trusted_http_proxy_prefixes = c_trusted_http_proxy_prefixes c, trusted_http_ip_header = c_trusted_http_ip_header c,
        cfg_blocklist = c_blocklist c, cfg_rtcm_filter = dict, idle_max_delay = c_idle_max_delay c,
        min_nearest_recompute_interval = c_min_nearest_recompute_interval c, max_nearest_recompute_interval = c_max_nearest_recompute_interval c,
        min_nearest_recompute_pos_delta = c_min_nearest_recompute_pos_delta c, nearest_base_count_target = c_nearest_base_count_target c,
        max_nearest_lookup_distance_m = c_max_nearest_lookup_distance_m c, hysteresis_m = c_hysteresis_m c\<rparr>
   }"

definition cli_config_of :: "cstring \<Rightarrow> unit hash_table option \<Rightarrow> config \<Rightarrow> cli_config option" where
  "cli_config_of dir dict c = do {
     s \<leftarrow> srv_config_of dir dict c;
     Some \<lparr>cc_srv = s, source_read_timeout = c_source_read_timeout c, ntripcli_default_read_timeout = c_ntripcli_default_read_timeout c,
       ntripcli_default_write_timeout = c_ntripcli_default_write_timeout c\<rparr>
   }"

subsection \<open>What a parsed configuration has\<close>

text \<open>The settings with a default, by their type.\<close>

definition int_settings :: "(config \<Rightarrow> int) list" where
  "int_settings = [c_nearest_base_count_target, c_min_nearest_recompute_interval, c_max_nearest_recompute_interval, c_idle_max_delay,
     c_reconnect_delay, c_max_raw_packet, c_on_demand_source_timeout, c_source_read_timeout, c_ntripcli_default_read_timeout,
     c_ntripcli_default_write_timeout, c_ntripsrv_default_read_timeout, c_ntripsrv_default_write_timeout, c_log_level,
     c_sourcetable_priority, c_sourcetable_fetch_timeout]"

definition nat_settings :: "(config \<Rightarrow> nat) list" where
  "nat_settings = [c_backlog_socket, c_backlog_evbuffer, c_http_header_max_size, c_http_content_length_max]"

definition real_settings :: "(config \<Rightarrow> real) list" where
  "real_settings = [c_hysteresis_m, c_max_nearest_lookup_distance_m, c_min_nearest_recompute_pos_delta]"

definition string_settings :: "(config \<Rightarrow> cstring option) list" where
  "string_settings = [c_sourcetable_filename, c_access_log, c_log, c_admin_user]"

definition alarms_ok :: "config \<Rightarrow> alarms_block \<Rightarrow> bool" where
  "alarms_ok c a \<longleftrightarrow> alarms_of a \<noteq> None \<and> ab_ruckus_path a \<noteq> None \<and> smtp_port (ab_smtp a) \<noteq> 0 \<and> ab_station_offline a \<noteq> Some 0 \<and>
     (ab_low_sv_count a \<noteq> None \<longrightarrow> c_sidecar_stats_filename c \<noteq> None) \<and>
     (\<forall>r \<in> set (ab_recipients a). set (recipient_types r) \<subseteq> range alarm_event_names) \<and>
     (\<forall>m \<in> set (ab_mountpoints a). set (am_alarm_types m) \<subseteq> range alarm_event_names)"

definition config_ok :: "config \<Rightarrow> bool" where
  "config_ok c \<longleftrightarrow> (\<forall>f \<in> set int_settings. f c \<noteq> 0) \<and> (\<forall>f \<in> set nat_settings. f c \<noteq> 0) \<and> (\<forall>f \<in> set real_settings. f c \<noteq> 0) \<and>
     (\<forall>f \<in> set string_settings. f c \<noteq> None) \<and> (\<forall>b \<in> set (c_bind c). bd_port b \<noteq> 0 \<and> bd_queue_size b \<noteq> 0) \<and>
     (\<forall>n \<in> set (c_node c). node_port n \<noteq> 0 \<and> node_retry_delay n \<noteq> 0 \<and> node_queue_max_size n \<noteq> 0) \<and>
     (\<forall>g \<in> set (c_graylog c). gl_port g \<noteq> 0 \<and> gl_retry_delay g \<noteq> 0 \<and> gl_queue_max_size g \<noteq> 0) \<and>
     (\<forall>p \<in> set (c_proxy c). px_table_refresh_delay p \<noteq> 0 \<and> px_priority p \<noteq> 0) \<and> (\<forall>e \<in> set (c_endpoint c). ep_port e \<noteq> 0) \<and>
     c_threads c \<noteq> [] \<and> 0 \<notin> set (c_threads c) \<and> length (c_trusted_http_proxy_prefixes c) = length (c_trusted_http_proxy c) \<and>
     c_refcnt c = 1 \<and> (\<forall>a. c_alarms c = Some a \<longrightarrow> alarms_ok c a)"

definition settings_kept :: "config \<Rightarrow> config \<Rightarrow> bool" where
  "settings_kept raw c \<longleftrightarrow> (\<forall>f \<in> set int_settings. f raw \<noteq> 0 \<longrightarrow> f c = f raw) \<and> (\<forall>f \<in> set nat_settings. f raw \<noteq> 0 \<longrightarrow> f c = f raw) \<and>
     (\<forall>f \<in> set real_settings. f raw \<noteq> 0 \<longrightarrow> f c = f raw) \<and> (\<forall>f \<in> set string_settings. f raw \<noteq> None \<longrightarrow> f c = f raw)"

lemma default_to_nonzero [simp]: "d \<noteq> 0 \<Longrightarrow> default_to d x \<noteq> 0" "x \<noteq> 0 \<Longrightarrow> default_to d x = x"
  by (simp_all add: default_to_def)

lemma default_to_pos [simp]: "0 < (d :: nat) \<Longrightarrow> 0 < default_to d x"
  by (simp add: default_to_def)

lemma default_string_Some [simp]: "default_string d s \<noteq> None" "s \<noteq> None \<Longrightarrow> default_string d s = s"
  by (simp_all add: default_string_def)

lemma valid_alarm_types_match: "set valid_alarm_types = range alarm_event_names"
proof -
  have "(UNIV :: alarm_event_type set) = {ALARM_STATION_OFFLINE, ALARM_STATION_ONLINE, ALARM_LOW_SV, ALARM_POSITION_DRIFT}"
    using alarm_event_type.exhaust by blast
  then have "range alarm_event_names = alarm_event_names ` {ALARM_STATION_OFFLINE, ALARM_STATION_ONLINE, ALARM_LOW_SV, ALARM_POSITION_DRIFT}"
    by (rule arg_cong)
  then show ?thesis by (simp add: valid_alarm_types_def)
qed

lemma parse_prefixes_None: "parse_prefixes pton6 pton4 ss = Some r \<Longrightarrow> (r = None \<longleftrightarrow> (\<exists>s \<in> set ss. ip_prefix_parse pton6 pton4 s = Some None))"
proof (induction ss arbitrary: r)
  case (Cons s ss)
  then obtain p where p: "ip_prefix_parse pton6 pton4 s = Some p" by (auto simp: bind_eq_Some_conv)
  with Cons show ?case by (cases p) (auto simp: bind_eq_Some_conv)
qed simp

lemma parse_prefixes_length: "parse_prefixes pton6 pton4 ss = Some (Some ps) \<Longrightarrow> length ps = length ss"
  by (induction ss arbitrary: ps) (auto simp: bind_eq_Some_conv split: option.splits)

lemma check_alarms_defaults: "check_alarms c (alarms_defaults a) \<longleftrightarrow> check_alarms c a"
  by (simp add: check_alarms_def alarms_defaults_def)

lemma alarms_defaults_ok: "check_alarms c a \<Longrightarrow> alarms_ok c (alarms_defaults a)"
proof -
  assume "check_alarms c a"
  moreover have "alarms_of (alarms_defaults a) \<noteq> None"
    by (auto simp: alarms_of_def alarms_defaults_def default_string_def split: option.splits)
  ultimately show ?thesis
    by (auto simp: alarms_ok_def check_alarms_def alarms_defaults_def list_all_iff default_to_def simp flip: valid_alarm_types_match split: if_splits)
qed

text \<open>The last steps of \<open>config_parse\<close>, of which no setting depends.\<close>

definition finish_config :: "(sock \<times> int) list \<Rightarrow> config \<Rightarrow> config" where
  "finish_config ps c = c\<lparr>c_trusted_http_proxy_prefixes := ps, c_alarms := map_option alarms_defaults (c_alarms c),
     c_threads := thread_defaults (c_threads c), c_host_auth := None, c_source_auth := None, c_rover_auth := None, c_user_auth := None,
     c_blocklist := None, c_endpoints_json := endpoints_json c\<rparr>"

lemma finish_settings:
  "\<forall>f \<in> set int_settings. f (finish_config ps (list_defaults (top_defaults (raw\<lparr>c_gen := g, c_refcnt := n\<rparr>)))) \<noteq> 0 \<and>
     (f raw \<noteq> 0 \<longrightarrow> f (finish_config ps (list_defaults (top_defaults (raw\<lparr>c_gen := g, c_refcnt := n\<rparr>)))) = f raw)"
  "\<forall>f \<in> set nat_settings. f (finish_config ps (list_defaults (top_defaults (raw\<lparr>c_gen := g, c_refcnt := n\<rparr>)))) \<noteq> 0 \<and>
     (f raw \<noteq> 0 \<longrightarrow> f (finish_config ps (list_defaults (top_defaults (raw\<lparr>c_gen := g, c_refcnt := n\<rparr>)))) = f raw)"
  "\<forall>f \<in> set real_settings. f (finish_config ps (list_defaults (top_defaults (raw\<lparr>c_gen := g, c_refcnt := n\<rparr>)))) \<noteq> 0 \<and>
     (f raw \<noteq> 0 \<longrightarrow> f (finish_config ps (list_defaults (top_defaults (raw\<lparr>c_gen := g, c_refcnt := n\<rparr>)))) = f raw)"
  "\<forall>f \<in> set string_settings. f (finish_config ps (list_defaults (top_defaults (raw\<lparr>c_gen := g, c_refcnt := n\<rparr>)))) \<noteq> None \<and>
     (f raw \<noteq> None \<longrightarrow> f (finish_config ps (list_defaults (top_defaults (raw\<lparr>c_gen := g, c_refcnt := n\<rparr>)))) = f raw)"
  by (simp_all only: int_settings_def nat_settings_def real_settings_def string_settings_def list.set ball_simps ball_empty insert_iff)
     (simp_all add: finish_config_def list_defaults_def top_defaults_def)

lemma thread_defaults_ok: "thread_defaults ts \<noteq> []" "0 \<notin> set (thread_defaults ts)"
  by (auto simp: thread_defaults_def default_to_def split: if_splits)

lemma finish_config_ok:
  assumes "length ps = length (c_trusted_http_proxy raw)" "\<And>a. c_alarms raw = Some a \<Longrightarrow> check_alarms raw a"
  shows "config_ok (finish_config ps (list_defaults (top_defaults (raw\<lparr>c_gen := gen, c_refcnt := refcnt_init\<rparr>))))" (is "config_ok ?c")
proof -
  let ?r = "raw\<lparr>c_gen := gen, c_refcnt := refcnt_init\<rparr>"
  have s: "(\<forall>f \<in> set int_settings. f ?c \<noteq> 0)" "(\<forall>f \<in> set nat_settings. f ?c \<noteq> 0)" "(\<forall>f \<in> set real_settings. f ?c \<noteq> 0)"
    "(\<forall>f \<in> set string_settings. f ?c \<noteq> None)"
    using finish_settings[where ps = ps and raw = raw and g = gen and n = refcnt_init] by blast+
  have "alarms_ok ?c a" if "c_alarms ?c = Some a" for a
  proof -
    from that obtain b where b: "c_alarms raw = Some b" "a = alarms_defaults b"
      by (auto simp: finish_config_def list_defaults_def top_defaults_def)
    have "c_sidecar_stats_filename ?c = c_sidecar_stats_filename raw" by (simp add: finish_config_def list_defaults_def top_defaults_def)
    then have "alarms_ok ?c a = alarms_ok raw a" by (simp add: alarms_ok_def)
    with alarms_defaults_ok[OF assms(2)[OF b(1)]] b(2) show ?thesis by simp
  qed
  moreover have "c_threads ?c \<noteq> []" "0 \<notin> set (c_threads ?c)" by (simp_all add: finish_config_def thread_defaults_ok)
  moreover have "length (c_trusted_http_proxy_prefixes ?c) = length (c_trusted_http_proxy ?c)" "c_refcnt ?c = 1"
    using assms(1) by (simp_all add: finish_config_def list_defaults_def top_defaults_def refcnt_init_def)
  moreover have "(\<forall>b \<in> set (c_bind ?c). bd_port b \<noteq> 0 \<and> bd_queue_size b \<noteq> 0)" "(\<forall>e \<in> set (c_endpoint ?c). ep_port e \<noteq> 0)"
    "(\<forall>n \<in> set (c_node ?c). node_port n \<noteq> 0 \<and> node_retry_delay n \<noteq> 0 \<and> node_queue_max_size n \<noteq> 0)"
    "(\<forall>g \<in> set (c_graylog ?c). gl_port g \<noteq> 0 \<and> gl_retry_delay g \<noteq> 0 \<and> gl_queue_max_size g \<noteq> 0)"
    "(\<forall>p \<in> set (c_proxy ?c). px_table_refresh_delay p \<noteq> 0 \<and> px_priority p \<noteq> 0)"
    by (simp_all add: finish_config_def list_defaults_def bind_defaults_def endpoint_defaults_def node_defaults_def graylog_defaults_def proxy_defaults_def)
  ultimately show ?thesis unfolding config_ok_def using s by blast
qed

lemma finish_config_kept:
  "settings_kept raw (finish_config ps (list_defaults (top_defaults (raw\<lparr>c_gen := gen, c_refcnt := refcnt_init\<rparr>))))"
  unfolding settings_kept_def using finish_settings[where ps = ps and raw = raw and g = gen and n = refcnt_init] by blast

text \<open>\<open>config_parse\<close> as one case distinction.\<close>

lemma config_parse_eq:
  "config_parse pton6 pton4 (Some raw) gen =
     (case parse_prefixes pton6 pton4 (c_trusted_http_proxy raw) of
        None \<Rightarrow> None
      | Some None \<Rightarrow> Some None
      | Some (Some ps) \<Rightarrow>
          Some (if \<exists>a. c_alarms raw = Some a \<and> \<not> check_alarms raw a then None
                else Some (finish_config ps (list_defaults (top_defaults (raw\<lparr>c_gen := gen, c_refcnt := refcnt_init\<rparr>))))))"
proof -
  let ?c = "list_defaults (top_defaults (raw\<lparr>c_gen := gen, c_refcnt := refcnt_init\<rparr>))"
  have k: "c_trusted_http_proxy ?c = c_trusted_http_proxy raw" "c_alarms ?c = c_alarms raw" "c_sidecar_stats_filename ?c = c_sidecar_stats_filename raw"
    by (simp_all add: list_defaults_def top_defaults_def)
  show ?thesis
    using check_alarms_defaults[of raw]
    by (cases "c_alarms raw") (simp_all add: config_parse_def finish_config_def endpoints_json_def Let_def k check_alarms_def split: option.splits)
qed

text \<open>
  A bulk size of zero in the file, by which the documentation disables the bulk mode of a Graylog sender, becomes the default
  size: the bulk mode cannot be disabled.
\<close>

lemma bulk_mode_not_disabled:
  assumes "config_parse pton6 pton4 (Some raw) gen = Some (Some c)" "g \<in> set (c_graylog c)"
  shows "gl_bulk_max_size g \<noteq> 0"
proof -
  have "c_graylog c = map graylog_defaults (c_graylog raw)"
    using assms(1) by (auto simp: config_parse_eq finish_config_def list_defaults_def top_defaults_def split: option.splits if_splits)
  with assms(2) show ?thesis by (auto simp: graylog_defaults_def)
qed


text \<open>A configuration as the YAML reader returns it when the file has only the fields that are required.\<close>

definition empty_config :: config where
  "empty_config = \<lparr>c_hysteresis_m = 0, c_max_nearest_lookup_distance_m = 0, c_nearest_base_count_target = 0,
     c_min_nearest_recompute_interval = 0, c_max_nearest_recompute_interval = 0, c_min_nearest_recompute_pos_delta = 0, c_proxy = [],
     c_trusted_http_proxy = [], c_trusted_http_proxy_prefixes = [], c_trusted_http_ip_header = None, c_node = [], c_endpoint = [],
     c_endpoints_json = JNull, c_graylog = [], c_syslog = [], c_backlog_socket = 0, c_backlog_evbuffer = 0, c_source_read_timeout = 0,
     c_ntripcli_default_read_timeout = 0, c_ntripcli_default_write_timeout = 0, c_ntripsrv_default_read_timeout = 0,
     c_ntripsrv_default_write_timeout = 0, c_sourcetable_fetch_timeout = 0, c_on_demand_source_timeout = 0, c_bind = [],
     c_http_header_max_size = 0, c_http_content_length_max = 0, c_threads = [], c_idle_max_delay = 0, c_reconnect_delay = 0,
     c_min_raw_packet = 0, c_max_raw_packet = 0, c_host_auth_filename = None, c_source_auth_filename = None,
     c_rover_auth_filename = None, c_user_auth_filename = None, c_blocklist_filename = None, c_sourcetable_filename = None,
     c_sidecar_stats_filename = None, c_sourcetable_priority = 0, c_access_log = None, c_log = None, c_log_level = 0,
     c_admin_user = None, c_webroots = [], c_rtcm_filter = [], c_syncer_auth = None, c_ui_dir = None, c_alarms = None, c_refcnt = 0,
     c_host_auth = None, c_source_auth = None, c_rover_auth = None, c_user_auth = None, c_blocklist = None, c_gen = 0\<rparr>"


subsection \<open>The delays of the Graylog sender\<close>

text \<open>The sender that a block of the configuration makes, as \<open>caster_reload_graylog\<close> calls it.\<close>

definition graylog_sender_of :: "ntrip_task \<Rightarrow> config_graylog \<Rightarrow> ntrip_task" where
  "graylog_sender_of junk g = graylog_sender_new (gl_host g) (gl_port g) (gl_uri g) (gl_tls g) (gl_status_timeout g) (gl_retry_delay g)
     (gl_max_retry_delay g) (gl_bulk_max_size g) (gl_queue_max_size g) (gl_authorization g) (gl_drainfilename g) junk"

lemma reschedule_no_max:
  assumes "tk_state (task w t) \<noteq> TASK_END" "refresh_delay (task w t) \<noteq> 0" "max_retry_delay (task w t) = 0" "0 \<le> current_retry_delay (task w t)" "current_retry_delay (task w t) < 2 ^ 30"
  shows "task (ntrip_task_reschedule t w) t = (task w t)\<lparr>pending := 0, tk_ev := Some (current_retry_delay (task w t)), current_retry_delay := 0\<rparr>"
proof -
  define n where "n = (if current_retry_delay (task w t) \<noteq> 0 then current_retry_delay (task w t) else 1) * 2"
  have "0 < n" "n < 2 ^ 31" using assms(4,5) by (simp_all add: n_def)
  then have "c_int n = n" by (intro c_int_id) simp_all
  with \<open>0 < n\<close> assms show ?thesis by (auto simp: ntrip_task_reschedule_def set_task_def Let_def n_def[symmetric])
qed

lemma reschedule_no_max_repeated:
  assumes "tk_state (task w t) \<noteq> TASK_END" "refresh_delay (task w t) \<noteq> 0" "max_retry_delay (task w t) = 0" "0 \<le> current_retry_delay (task w t)" "current_retry_delay (task w t) < 2 ^ 30"
  shows "tk_ev (task ((ntrip_task_reschedule t ^^ Suc (Suc k)) w) t) = Some 0"
proof -
  have "tk_state (task ((ntrip_task_reschedule t ^^ Suc k) w) t) \<noteq> TASK_END \<and> refresh_delay (task ((ntrip_task_reschedule t ^^ Suc k) w) t) \<noteq> 0 \<and>
    max_retry_delay (task ((ntrip_task_reschedule t ^^ Suc k) w) t) = 0 \<and> current_retry_delay (task ((ntrip_task_reschedule t ^^ Suc k) w) t) = 0"
  proof (induction k)
    case 0
    show ?case using assms by (simp add: reschedule_no_max)
  next
    case (Suc k)
    then show ?case using reschedule_no_max[of "(ntrip_task_reschedule t ^^ Suc k) w" t] by simp
  qed
  then show ?thesis using reschedule_no_max[of "(ntrip_task_reschedule t ^^ Suc k) w" t] by simp
qed

text \<open>
  A Graylog sender tries again without a delay. The file has no key for the maximal delay of the retries, and its
  default is not assigned, so that the first failure is followed by the delay of the configuration and every other
  one by none, although the defaults mean a delay that doubles up to a minute.
\<close>

lemma graylog_retries_at_once:
  assumes "config_parse pton6 pton4 (Some raw) gen = Some (Some c)" "g \<in> set (c_graylog c)" "\<And>g. g \<in> set (c_graylog raw) \<Longrightarrow> gl_max_retry_delay g = 0 \<and> 0 \<le> gl_retry_delay g \<and> gl_retry_delay g < 2 ^ 30"
    and x: "task w t = (graylog_sender_of junk g)\<lparr>tk_state := TASK_RUNNING\<rparr>"
  shows "tk_ev (task ((ntrip_task_reschedule t ^^ Suc (Suc k)) w) t) = Some 0"
proof -
  have c: "c_graylog c = map graylog_defaults (c_graylog raw)"
    using assms(1) by (auto simp: config_parse_eq finish_config_def list_defaults_def top_defaults_def split: option.splits if_splits)
  with assms(2) obtain h where h: "h \<in> set (c_graylog raw)" "g = graylog_defaults h" by auto
  with assms(3)[OF h(1)] have "gl_max_retry_delay g = 0" "gl_retry_delay g > 0" "gl_retry_delay g < 2 ^ 30" by (auto simp: graylog_defaults_def default_to_def)
  then show ?thesis
    by (intro reschedule_no_max_repeated) (simp_all add: x graylog_sender_of_def graylog_sender_new_def ntrip_task_new_def)
qed

end
