(* ===== verification/Logs.thy ===== *)
theory Logs
  imports Ntripcli
begin

text \<open>
  The logs (\<^verbatim>\<open>caster/log.c\<close>, \<^verbatim>\<open>caster/gelf.c\<close> and the callbacks of the logs in \<^verbatim>\<open>caster/caster.c\<close>). A message goes
  to a file, to the buffer of recent entries, to syslog and to a Graylog server, each one with its own level. The
  entry for Graylog is queued on a task, and queuing it may itself log a message: \<open>vlogall\<close> is recursive, and
  \<^const>\<open>None\<close> if the recursion does not end. The messages that other operations log are not part of the model
  of these operations.
\<close>

subsection \<open>Entries for Graylog\<close>

record gelf_entry =
  ge_ts :: timeval
  ge_level :: int
  ge_remote_ip :: "cstring option"
  ge_remote_port :: int
  ge_hostname :: cstring
  ge_short_message :: "cstring option"
  ge_thread_id :: int
  ge_connection_id :: "64 word"
  ge_nograylog :: bool

definition gelf_init :: "timeval \<Rightarrow> int \<Rightarrow> cstring \<Rightarrow> int \<Rightarrow> gelf_entry" where
  "gelf_init now level hostname thread_id = \<lparr>ge_ts = now, ge_level = level, ge_remote_ip = None, ge_remote_port = 0,
     ge_hostname = hostname, ge_short_message = None, ge_thread_id = thread_id, ge_connection_id = 0, ge_nograylog = False\<rparr>"

definition gelf_json :: "gelf_entry \<Rightarrow> json option" where
  "gelf_json g = do {
     m \<leftarrow> ge_short_message g;
     Some (JObject ((if ge_thread_id g \<ge> 0 then [(''_thread_id'', JInt (ge_thread_id g))] else []) @
       (case ge_remote_ip g of None \<Rightarrow> [] | Some ip \<Rightarrow> [(''_remote_ip'', JString ip), (''_remote_port'', JInt (ge_remote_port g))]) @
       [(''level'', JInt (ge_level g)), (''short_message'', JString m), (''host'', JString (ge_hostname g)), (''version'', JString ''1.1'')] @
       (if ge_connection_id g \<noteq> 0 then [(''_connection_id'', JInt (sint (ge_connection_id g)))] else []) @
       [(''timestamp'', JDouble (real_of_int (fst (ge_ts g)) + real_of_int (snd (ge_ts g)) / 1000000))]))
   }"

subsection \<open>Logs\<close>

text \<open>A log file is given by its name; \<^const>\<open>None\<close> is the standard error output.\<close>

record log =
  lg_file :: "cstring option"
  lg_syslog_facility :: int
  max_log_level :: int
  syslog_level :: int
  graylog_level :: int
  lg_log_level :: int

datatype log_name = Flog | Alog

record logs =
  flog :: log
  alog :: log
  lw_logbuf :: logbuf
  graylog_log_level :: int
  lw_config :: bool
  lw_graylog :: "nat list"
  lw_out :: "cstring option \<Rightarrow> cstring"
  lw_syslog :: "(int \<times> cstring) list"
  lw_net :: net

record log_env =
  lv_net :: net_env
  lv_threads :: bool
  lv_thread_id :: int
  lv_hostname :: cstring
  lv_now :: timeval
  lv_logdate :: "timeval \<Rightarrow> cstring"
  lv_can_open :: "cstring \<Rightarrow> bool"

definition log_of :: "log_name \<Rightarrow> logs \<Rightarrow> log" where
  "log_of l w = (case l of Flog \<Rightarrow> flog w | Alog \<Rightarrow> alog w)"

definition highest_level :: "int \<Rightarrow> int \<Rightarrow> int \<Rightarrow> int" where
  "highest_level syslog graylog file = max (max syslog graylog) file"

definition log_init :: "log_env \<Rightarrow> cstring option \<Rightarrow> int \<Rightarrow> int \<Rightarrow> int \<Rightarrow> int \<Rightarrow> int \<times> log" where
  "log_init env filename level graylog syslog facility =
     (let this = \<lparr>lg_file = None, lg_syslog_facility = facility, max_log_level = highest_level syslog graylog level,
                  syslog_level = syslog, graylog_level = graylog, lg_log_level = level\<rparr>
      in case filename of
           None \<Rightarrow> (0, this)
         | Some f \<Rightarrow> if lv_can_open env f then (0, this\<lparr>lg_file := Some f\<rparr>) else (- 1, this))"

definition log_reopen :: "log_env \<Rightarrow> cstring \<Rightarrow> int \<Rightarrow> int \<Rightarrow> int \<Rightarrow> int \<Rightarrow> log \<Rightarrow> int \<times> log" where
  "log_reopen env filename level graylog syslog facility this =
     (if \<not> lv_can_open env filename then (- 1, this)
      else (0, this\<lparr>lg_syslog_facility := facility, syslog_level := syslog, graylog_level := graylog, lg_log_level := level,
             max_log_level := highest_level syslog graylog level, lg_file := Some filename\<rparr>))"

text \<open>The prefix with the number of the thread.\<close>

definition log_line :: "log_env \<Rightarrow> cstring \<Rightarrow> cstring" where
  "log_line env msg =
     (if lv_threads env then ''['' @ c_show_nat (unat (word_of_int (lv_thread_id env) :: 64 word)) @ ''] '' @ msg @ [CHR 0x0A] else msg @ [CHR 0x0A])"

definition logfmt_file :: "log_env \<Rightarrow> log_name \<Rightarrow> gelf_entry \<Rightarrow> cstring \<Rightarrow> logs \<Rightarrow> logs" where
  "logfmt_file env l g text w =
     (let f = lg_file (log_of l w) in w\<lparr>lw_out := (lw_out w)(f := lw_out w f @ lv_logdate env (ge_ts g) @ '' '' @ text)\<rparr>)"

definition logfmt_syslog :: "log_name \<Rightarrow> int \<Rightarrow> cstring \<Rightarrow> logs \<Rightarrow> logs" where
  "logfmt_syslog l level text w =
     w\<lparr>lw_syslog := lw_syslog w @ [(or (if level > LOG_DEBUG then LOG_DEBUG else level) (lg_syslog_facility (log_of l w)), text)]\<rparr>"

definition log_entry :: "log_env \<Rightarrow> gelf_entry option \<Rightarrow> int \<Rightarrow> gelf_entry" where
  "log_entry env g level =
     (let thread_id = (if lv_threads env then lv_thread_id env else - 1) in
      case g of
        None \<Rightarrow> gelf_init (lv_now env) level (lv_hostname env) thread_id
      | Some g \<Rightarrow> g\<lparr>ge_hostname := lv_hostname env, ge_thread_id := thread_id\<rparr>)"

text \<open>The file, the buffer and syslog.\<close>

definition log_local :: "log_env \<Rightarrow> log_name \<Rightarrow> gelf_entry \<Rightarrow> int \<Rightarrow> cstring \<Rightarrow> logs \<Rightarrow> logs option" where
  "log_local env l g level msg w = do {
     w \<leftarrow> (if level \<le> lg_log_level (log_of l w) then do {
             let w = logfmt_file env l g (log_line env msg) w;
             if l = Flog then do {
               b \<leftarrow> logbuf_add \<lparr>la_level = level, la_thread_id = ge_thread_id g, la_connection_id = ge_connection_id g,
                 la_remote_ip = ge_remote_ip g, la_remote_port = ge_remote_port g, la_ts = ge_ts g, la_message = msg\<rparr> (lw_logbuf w);
               Some (w\<lparr>lw_logbuf := b\<rparr>)
             }
             else Some w
           }
           else Some w);
     Some (if level \<le> syslog_level (log_of l w) then logfmt_syslog l level (log_line env msg) w else w)
   }"

subsection \<open>Graylog\<close>

text \<open>
  A message for Graylog is queued as \<open>ntrip_task_queue\<close> does it, except that the messages of the queue itself are logged by a
  call of this function.
\<close>

partial_function (option) vlogall :: "log_env \<Rightarrow> log_name \<Rightarrow> gelf_entry option \<Rightarrow> int \<Rightarrow> cstring \<Rightarrow> logs \<Rightarrow> logs option" where
  "vlogall env l g level msg w =
     (if level < 0 then Some w
      else do {
        let g = log_entry env g level;
        w \<leftarrow> log_local env l g level msg w;
        if \<not> ge_nograylog g \<and> graylog_log_level w \<noteq> - 1 \<and> lw_config w \<and> level \<le> graylog_level (log_of l w) then do {
          j \<leftarrow> gelf_json (if ge_short_message g = None then g\<lparr>ge_short_message := Some msg\<rparr> else g);
          t \<leftarrow> buf_get (lw_graylog w) 0;
          let m = ne_json_text (lv_net env) j;
          if tk_state (task (lw_net w) t) = TASK_END then Some w
          else do {
            w \<leftarrow> (if over_max t m (lw_net w) then do {
                    (r, n) \<leftarrow> ntrip_task_drain_queue (lv_net env) t (lw_net w);
                    let w = w\<lparr>lw_net := n\<rparr>;
                    if LOG_CRIT \<le> max_log_level (flog w) then vlogall env Flog None LOG_CRIT (drained_message r) w else Some w
                  }
                  else Some w);
            w \<leftarrow> (if over_bulk t m (lw_net w) then
                    (if LOG_ERR \<le> max_log_level (flog w)
                     then vlogall env Flog None LOG_ERR (too_big_message (length m) (bulk_max_size (task (lw_net w) t) - 1)) w else Some w)
                  else Some (w\<lparr>lw_net := insert_item t m (lw_net w)\<rparr>));
            n \<leftarrow> restart_sending t (lw_net w);
            Some (w\<lparr>lw_net := n\<rparr>)
          }
        }
        else Some w
      })"

text \<open>The callbacks of the two logs.\<close>

definition caster_log_cb :: "log_env \<Rightarrow> gelf_entry option \<Rightarrow> int \<Rightarrow> cstring \<Rightarrow> logs \<Rightarrow> logs option" where
  "caster_log_cb env g level msg w =
     (if level \<ge> 0 \<and> level \<le> max_log_level (flog w) then vlogall env Flog g level msg w else Some w)"

definition caster_alog :: "log_env \<Rightarrow> gelf_entry option \<Rightarrow> cstring \<Rightarrow> logs \<Rightarrow> logs option" where
  "caster_alog env g msg w = vlogall env Alog g 0 msg w"

definition logfmt_g :: "log_env \<Rightarrow> log_name \<Rightarrow> gelf_entry option \<Rightarrow> int \<Rightarrow> cstring \<Rightarrow> logs \<Rightarrow> logs option" where
  "logfmt_g env l g level msg w = (case l of Flog \<Rightarrow> caster_log_cb env g level msg w | Alog \<Rightarrow> caster_alog env g msg w)"

definition logfmt :: "log_env \<Rightarrow> log_name \<Rightarrow> int \<Rightarrow> cstring \<Rightarrow> logs \<Rightarrow> logs option" where
  "logfmt env l level msg w = logfmt_g env l None level msg w"

subsection \<open>Where a message goes\<close>

lemma log_local_keeps:
  assumes "log_local env l g level msg w = Some w'"
  shows "lw_net w' = lw_net w \<and> lw_graylog w' = lw_graylog w \<and> graylog_log_level w' = graylog_log_level w \<and> lw_config w' = lw_config w \<and>
    flog w' = flog w \<and> alog w' = alog w \<and>
    lw_out w' = (if level \<le> lg_log_level (log_of l w) then (lw_out w)(lg_file (log_of l w) := lw_out w (lg_file (log_of l w)) @
      lv_logdate env (ge_ts g) @ '' '' @ log_line env msg) else lw_out w) \<and>
    (level > lg_log_level (log_of l w) \<or> l = Alog \<longrightarrow> lw_logbuf w' = lw_logbuf w) \<and>
    (level > syslog_level (log_of l w) \<longrightarrow> lw_syslog w' = lw_syslog w)"
  using assms
  by (auto simp: log_local_def logfmt_file_def logfmt_syslog_def Let_def log_of_def bind_eq_Some_conv split: if_splits log_name.splits)

lemma log_of_cong: "flog w' = flog w \<Longrightarrow> alog w' = alog w \<Longrightarrow> log_of l w' = log_of l w"
  by (cases l) (simp_all add: log_of_def)

text \<open>A message whose entry fits into the queue is queued as it is; one that is not for Graylog changes no task.\<close>

lemma vlogall_fits:
  assumes "0 \<le> level" "log_local env l (log_entry env g level) level msg w = Some w1"
    and m: "gelf_json (if ge_short_message (log_entry env g level) = None then (log_entry env g level)\<lparr>ge_short_message := Some msg\<rparr> else log_entry env g level) = Some j"
    and t: "lw_graylog w = t # ts" "\<not> over_max t (ne_json_text (lv_net env) j) (lw_net w)" "\<not> over_bulk t (ne_json_text (lv_net env) j) (lw_net w)"
  shows "vlogall env l g level msg w =
    (if \<not> ge_nograylog (log_entry env g level) \<and> graylog_log_level w \<noteq> - 1 \<and> lw_config w \<and> level \<le> graylog_level (log_of l w)
     then map_option (\<lambda>n. w1\<lparr>lw_net := n\<rparr>) (graylog_sender_queue (lv_net env) t (ne_json_text (lv_net env) j) (lw_net w)) else Some w1)"
proof -
  note k = log_local_keeps[OF assms(2)]
  from k have "log_of l w1 = log_of l w" by (intro log_of_cong) simp_all
  with assms k show ?thesis
    by (subst vlogall.simps) (auto simp: Let_def graylog_sender_queue_def ntrip_task_queue_def bind_map_option map_conv_bind_option split: bind_splits)
qed

subsection \<open>A queue without room\<close>

text \<open>The contents that are being sent leave no room for any entry.\<close>

definition no_room :: "log_env \<Rightarrow> ntrip_task \<Rightarrow> bool" where
  "no_room env x \<longleftrightarrow> tk_state x \<noteq> TASK_END \<and> sum_list (map length (take (pending x) (mimeq x))) \<le> queue_size x \<and>
     (\<forall>g j. gelf_json g = Some j \<longrightarrow>
       queue_max_size x < length (ne_json_text (lv_net env) j) + sum_list (map length (take (pending x) (mimeq x))))"

definition graylog_stuck :: "log_env \<Rightarrow> logs \<Rightarrow> bool" where
  "graylog_stuck env w \<longleftrightarrow> graylog_log_level w \<noteq> - 1 \<and> lw_config w \<and> LOG_CRIT \<le> graylog_level (flog w) \<and> LOG_CRIT \<le> max_log_level (flog w) \<and>
     lw_graylog w \<noteq> [] \<and> no_room env (task (lw_net w) (hd (lw_graylog w)))"

definition for_graylog :: "log_name \<Rightarrow> gelf_entry option \<Rightarrow> int \<Rightarrow> logs \<Rightarrow> bool" where
  "for_graylog l g level w \<longleftrightarrow> 0 \<le> level \<and> level \<le> graylog_level (log_of l w) \<and> (case g of None \<Rightarrow> True | Some g \<Rightarrow> \<not> ge_nograylog g)"

lemma drain_no_room:
  assumes "no_room env (task w t)" "ntrip_task_drain_queue e t w = Some (r, w')"
  shows "no_room env (task w' t)"
  using assms by (auto simp: no_room_def ntrip_task_drain_queue_def Let_def set_task_def split: if_splits option.splits)

lemma no_room_over_max: "no_room env (task w t) \<Longrightarrow> gelf_json g = Some j \<Longrightarrow> over_max t (ne_json_text (lv_net env) j) w"
  by (fastforce simp: no_room_def over_max_def)

lemma graylog_stuck_drain:
  assumes "graylog_stuck env w" "ntrip_task_drain_queue e (hd (lw_graylog w)) (lw_net w) = Some (r, n)"
  shows "graylog_stuck env (w\<lparr>lw_net := n\<rparr>)" "for_graylog Flog None LOG_CRIT (w\<lparr>lw_net := n\<rparr>)"
  using assms drain_no_room[of env "lw_net w" "hd (lw_graylog w)" e r n] by (auto simp: graylog_stuck_def for_graylog_def log_of_def LOG_CRIT_def)

text \<open>
  C40: The log of a message does not return when the queue of the Graylog sender has no room for the entry that
  reports it. If the contents that wait for an acknowledgement fill the queue up to less than the size of an
  entry, or the maximal size of the queue is smaller than an entry, queuing an entry drains the queue and logs
  that it did, which queues an entry again: every message for Graylog ends in a recursion without end.
\<close>
theorem logging_recursion:
  assumes "graylog_stuck env w" "for_graylog l g level w"
  shows "vlogall env l g level msg w = None"
proof -
  have "\<not> (graylog_stuck env w \<and> for_graylog l g level w)" if "vlogall env l g level msg w = Some w'" for w'
  proof (rule vlogall.raw_induct[OF _ that, where P = "\<lambda>env l g level msg w w'. \<not> (graylog_stuck env w \<and> for_graylog l g level w)"], goal_cases)
    case (1 rec env l g level msg w w')
    show ?case
    proof
      assume c: "graylog_stuck env w \<and> for_graylog l g level w"
      let ?g = "log_entry env g level" let ?t = "hd (lw_graylog w)"
      let ?h = "if ge_short_message ?g = None then ?g\<lparr>ge_short_message := Some msg\<rparr> else ?g"
      from c have lv: "\<not> level < 0" "\<not> ge_nograylog ?g" by (auto simp: for_graylog_def log_entry_def gelf_init_def Let_def split: option.splits)
      from 1(2) lv(1) obtain w1 where w1: "log_local env l ?g level msg w = Some w1" by (auto simp: Let_def bind_eq_Some_conv)
      note k = log_local_keeps[OF w1]
      from k have k2: "log_of l w1 = log_of l w" by (intro log_of_cong) simp_all
      from k c have k3: "graylog_stuck env w1" by (simp add: graylog_stuck_def)
      have act: "\<not> ge_nograylog ?g \<and> graylog_log_level w1 \<noteq> - 1 \<and> lw_config w1 \<and> level \<le> graylog_level (log_of l w1)"
        using c lv k3 k2 by (auto simp: graylog_stuck_def for_graylog_def)
      have t: "buf_get (lw_graylog w1) 0 = Some ?t" "tk_state (task (lw_net w1) ?t) \<noteq> TASK_END" and nr: "no_room env (task (lw_net w1) ?t)"
        using k3 k by (auto simp: graylog_stuck_def buf_get_def no_room_def hd_conv_nth)
      from 1(2) lv w1 act obtain j where j: "gelf_json ?h = Some j" by (auto simp: Let_def bind_eq_Some_conv)
      have om: "over_max ?t (ne_json_text (lv_net env) j) (lw_net w1)" by (rule no_room_over_max[OF nr j])
      from 1(2) lv w1 act j t om obtain r n where d: "ntrip_task_drain_queue (lv_net env) ?t (lw_net w1) = Some (r, n)"
        by (auto simp: Let_def bind_eq_Some_conv)
      have s: "graylog_stuck env (w1\<lparr>lw_net := n\<rparr>)" "for_graylog Flog None LOG_CRIT (w1\<lparr>lw_net := n\<rparr>)"
        using graylog_stuck_drain[of env w1 "lv_net env" r n] k3 d k by auto
      have mx: "LOG_CRIT \<le> max_log_level (flog (w1\<lparr>lw_net := n\<rparr>))" using s by (simp add: graylog_stuck_def)
      from 1(2) lv w1 act j t om d mx obtain v where "rec env Flog None LOG_CRIT (drained_message r) (w1\<lparr>lw_net := n\<rparr>) = Some v"
        by (auto simp: Let_def bind_eq_Some_conv)
      from 1(1)[OF this] s show False by blast
    qed
  qed
  with assms show ?thesis by (cases "vlogall env l g level msg w") auto
qed

definition demo_logs :: "net \<Rightarrow> logs" where
  "demo_logs n = (let lg = \<lparr>lg_file = None, lg_syslog_facility = - 1, max_log_level = 6, syslog_level = - 1, graylog_level = 4, lg_log_level = 6\<rparr>
     in \<lparr>flog = lg, alog = lg, lw_logbuf = logbuf_init, graylog_log_level = 4, lw_config = True, lw_graylog = [0], lw_out = (\<lambda>_. []), lw_syslog = [], lw_net = n\<rparr>)"

theorem logging_recursion_witness:
  "\<forall>e x n. vlogall \<lparr>lv_net = e\<lparr>ne_json_text := \<lambda>_. replicate 200 CHR ''x''\<rparr>, lv_threads = False, lv_thread_id = 0, lv_hostname = ''h'',
      lv_now = (0, 0), lv_logdate = \<lambda>_. [], lv_can_open = \<lambda>_. True\<rparr> Flog None 3 ''disk full''
    (demo_logs (set_task 0 (x\<lparr>tk_state := TASK_RUNNING, pending := 0, queue_max_size := 100\<rparr>) n)) = None"
  by (intro allI logging_recursion)
     (simp_all add: graylog_stuck_def no_room_def for_graylog_def demo_logs_def set_task_def log_of_def LOG_CRIT_def Let_def)

end
