(* ===== verification/Source_Edit.thy ===== *)
theory Source_Edit
  imports Auth Source_Stack Ntrip_Reply Ntrip_Conns C_Format
begin

text \<open>
  The operations of the console that edit the account file and the sourcetable file of the caster
  (\<^verbatim>\<open>caster/api.c\<close>) and the part of the reload that reads these files again (\<^verbatim>\<open>caster/caster.c\<close>).
  The files are a map from paths to contents. Opening a file for writing or appending and renaming it
  may fail: the environment record says when. The operations have the reload as
  an argument, with the state of the caster that it changes, since the caster is modelled in a theory above this one;
  \<open>Console_Reload\<close> gives them the whole \<open>caster_reload\<close>. Allocations succeed. A write outside a
  buffer is \<^const>\<open>None\<close>.
\<close>

subsection \<open>Files and lines\<close>

type_synonym files = "cstring \<Rightarrow> cstring option"

record file_env =
  fe_dir :: cstring
  fe_can_write :: "cstring \<Rightarrow> bool"
  fe_can_append :: "cstring \<Rightarrow> bool"
  fe_can_rename :: "cstring \<Rightarrow> bool"

definition NL :: char where "NL = CHR 0x0A"

text \<open>The lines that \<open>getline\<close> returns, with their line feeds; the last one may have none.\<close>

fun getlines :: "cstring \<Rightarrow> cstring list" where
  "getlines [] = []"
| "getlines (c # cs) =
     (if c = NL then [c] # getlines cs
      else case getlines cs of
        [] \<Rightarrow> [[c]]
      | l # ls \<Rightarrow> if cs = [] then [[c]] else (c # l) # ls)"

text \<open>What the string functions see of a line.\<close>

definition c_str :: "cstring \<Rightarrow> cstring" where
  "c_str line = takeWhile (\<lambda>c. c \<noteq> CHR 0x00) line"

text \<open>
  The search for a field: the text since \<open>field_start\<close> is kept in \<open>acc\<close>; the result is the field if
  a separator follows it.
\<close>

fun scan_field :: "char \<Rightarrow> nat \<Rightarrow> nat \<Rightarrow> cstring \<Rightarrow> cstring \<Rightarrow> cstring option" where
  "scan_field sep field_index idx acc [] = None"
| "scan_field sep field_index idx acc (c # cs) =
     (if c = sep then
        if idx = field_index then Some acc
        else scan_field sep field_index (idx + 1) (if idx + 1 = field_index then [] else acc @ [c]) cs
      else scan_field sep field_index idx (acc @ [c]) cs)"

definition line_matches :: "char \<Rightarrow> nat \<Rightarrow> cstring \<Rightarrow> cstring \<Rightarrow> bool" where
  "line_matches sep field_index value line \<longleftrightarrow> scan_field sep field_index 0 [] (c_str line) = Some value"

text \<open>A file is rewritten into a temporary file, which is then renamed.\<close>

definition rename_tmp :: "file_env \<Rightarrow> cstring \<Rightarrow> cstring \<Rightarrow> files \<Rightarrow> bool \<times> files" where
  "rename_tmp env path text fs =
     (let tmp = path @ ''.tmp''; fs = fs(tmp \<mapsto> text)
      in if fe_can_rename env path then (True, fs(path \<mapsto> text, tmp := None)) else (False, fs))"

definition remove_matching_lines :: "file_env \<Rightarrow> cstring \<Rightarrow> char \<Rightarrow> nat \<Rightarrow> cstring \<Rightarrow> files \<Rightarrow> int \<times> files" where
  "remove_matching_lines env filename sep field_index value fs =
     (let path = joinpath (fe_dir env) filename in
      case fs path of
        None \<Rightarrow> (- 1, fs)
      | Some s \<Rightarrow>
          if \<not> fe_can_write env (path @ ''.tmp'') then (- 1, fs)
          else
            let lines = getlines s;
                kept = filter (\<lambda>l. \<not> line_matches sep field_index value l) lines;
                removed = length lines - length kept;
                (ok, fs) = rename_tmp env path (concat kept) fs
            in (if ok then int removed else - 1, fs))"

text \<open>A line with one field replaced; \<open>seg\<close> is the text since \<open>seg_start\<close>.\<close>

fun put_field :: "char \<Rightarrow> nat \<Rightarrow> cstring \<Rightarrow> nat \<Rightarrow> cstring \<Rightarrow> cstring \<Rightarrow> cstring" where
  "put_field sep target new_value fidx seg [] = (if fidx = target then new_value else seg)"
| "put_field sep target new_value fidx seg (c # cs) =
     (if c = sep then (if fidx = target then new_value else seg) @ [sep] @ put_field sep target new_value (fidx + 1) [] cs
      else put_field sep target new_value fidx (seg @ [c]) cs)"

text \<open>The first line that matches is changed, the others are copied; every line ends with a line feed.\<close>

fun update_lines :: "(cstring \<Rightarrow> bool) \<Rightarrow> (cstring \<Rightarrow> cstring) \<Rightarrow> bool \<Rightarrow> cstring list \<Rightarrow> cstring list \<times> bool" where
  "update_lines match change updated [] = ([], updated)"
| "update_lines match change updated (l # ls) =
     (let line = c_str (strip_eol l);
          is_match = (\<not> updated \<and> match line);
          (ls', u) = update_lines match change (updated \<or> is_match) ls
      in (((if is_match then change line else line) @ [NL]) # ls', u))"

definition set_colon_file_field :: "file_env \<Rightarrow> cstring \<Rightarrow> char \<Rightarrow> cstring \<Rightarrow> nat \<Rightarrow> cstring \<Rightarrow> files \<Rightarrow> int \<times> files" where
  "set_colon_file_field env filename sep key target_field new_value fs =
     (let path = joinpath (fe_dir env) filename in
      case fs path of
        None \<Rightarrow> (- 1, fs)
      | Some s \<Rightarrow>
          if \<not> fe_can_write env (path @ ''.tmp'') then (- 1, fs)
          else
            let (lines, updated) = update_lines (\<lambda>l. scan_field sep 0 0 [] l = Some key) (put_field sep target_field new_value 0 []) False (getlines s)
            in if \<not> updated then (0, fs(path @ ''.tmp'' := None))
               else let (ok, fs) = rename_tmp env path (concat lines) fs in (if ok then 1 else - 1, fs))"

definition update_sourcetable_field :: "file_env \<Rightarrow> cstring \<Rightarrow> cstring \<Rightarrow> nat \<Rightarrow> cstring \<Rightarrow> files \<Rightarrow> int \<times> files" where
  "update_sourcetable_field env filename mountpoint target_field new_value fs =
     (let path = joinpath (fe_dir env) filename in
      case fs path of
        None \<Rightarrow> (- 1, fs)
      | Some s \<Rightarrow>
          if \<not> fe_can_write env (path @ ''.tmp'') then (- 1, fs)
          else
            let (lines, updated) = update_lines (\<lambda>l. scan_field CHR '';'' 1 0 [] l = Some mountpoint) (put_field CHR '';'' target_field new_value 0 []) False (getlines s);
                (ok, fs) = rename_tmp env path (concat lines) fs
            in (if \<not> ok then - 1 else if updated then 1 else 0, fs))"

text \<open>\<open>fopen(..., "a")\<close>, \<open>fprintf\<close>, \<open>fclose\<close>.\<close>

definition append_text :: "file_env \<Rightarrow> cstring \<Rightarrow> cstring \<Rightarrow> files \<Rightarrow> files option" where
  "append_text env filename text fs =
     (let path = joinpath (fe_dir env) filename in
      if fe_can_append env path
      then Some (fs(path \<mapsto> (case fs path of Some s \<Rightarrow> s | None \<Rightarrow> []) @ text))
      else None)"

subsection \<open>Requests\<close>

text \<open>
  \<open>caster_reload\<close> as a function of the files and the state of the caster: its result and the new state.
\<close>

type_synonym 'c reload = "files \<Rightarrow> 'c \<Rightarrow> (int \<times> 'c) option"

record edit_config =
  source_auth_filename :: cstring
  sourcetable_filename :: cstring

definition field_is_safe :: "cstring \<Rightarrow> bool" where
  "field_is_safe s \<longleftrightarrow> (\<forall>c \<in> set s. c \<noteq> CHR '';'' \<and> c \<noteq> CHR '':'' \<and> c \<noteq> NL \<and> c \<noteq> CHR 0x0D)"

definition json_mime :: "cstring \<Rightarrow> mime_content" where
  "json_mime s = mime_new s (- 1) (Some ''application/json'')"

definition api_error_json :: "cstring \<Rightarrow> mime_content" where
  "api_error_json msg = json_mime (c_snprintf 256 (''{\"result\": -1, \"error\": \"'' @ msg @ ''\"}'' @ [NL]))"

definition api_result_json :: "int \<Rightarrow> mime_content" where
  "api_result_json r = json_mime (c_snprintf 40 (''{\"result\": '' @ c_show_int r @ ''}'' @ [NL]))"

definition given :: "cstring hash_table \<Rightarrow> cstring \<Rightarrow> cstring option" where
  "given h k = (case hash_table_get h k of None \<Rightarrow> None | Some s \<Rightarrow> if s = [] then None else Some s)"

definition given_or :: "cstring hash_table \<Rightarrow> cstring \<Rightarrow> cstring \<Rightarrow> cstring" where
  "given_or h k d = (case given h k of None \<Rightarrow> d | Some s \<Rightarrow> s)"

text \<open>
  \<open>strtod\<close> consumes the whole text: white space, a sign, then digits with a point and an exponent,
  a hexadecimal number, an infinity or a NaN.
\<close>

definition all_digits :: "(char \<Rightarrow> bool) \<Rightarrow> cstring \<Rightarrow> bool" where
  "all_digits p s \<longleftrightarrow> s \<noteq> [] \<and> list_all p s"

definition drop_sign :: "cstring \<Rightarrow> cstring" where
  "drop_sign s = (case s of [] \<Rightarrow> [] | c # r \<Rightarrow> if c = CHR ''-'' \<or> c = CHR ''+'' then r else s)"

definition is_mantissa :: "(char \<Rightarrow> bool) \<Rightarrow> cstring \<Rightarrow> bool" where
  "is_mantissa p s \<longleftrightarrow>
     (let (a, b) = split_at_first (\<lambda>c. c = CHR ''.'') s
      in case b of None \<Rightarrow> all_digits p a | Some f \<Rightarrow> all_digits p (a @ f))"

definition is_number :: "(char \<Rightarrow> bool) \<Rightarrow> char \<Rightarrow> cstring \<Rightarrow> bool" where
  "is_number p e s \<longleftrightarrow>
     (let (m, x) = split_at_first (\<lambda>c. c_tolower c = e) s
      in is_mantissa p m \<and> (case x of None \<Rightarrow> True | Some x \<Rightarrow> all_digits c_isdigit (drop_sign x)))"

definition c_strtod_all :: "cstring \<Rightarrow> bool" where
  "c_strtod_all s \<longleftrightarrow>
     (let t = map c_tolower (drop_sign (dropWhile c_isspace s))
      in is_number c_isdigit CHR ''e'' t \<or>
         take 2 t = ''0x'' \<and> is_number c_isxdigit CHR ''p'' (drop 2 t) \<or>
         t = ''inf'' \<or> t = ''infinity'' \<or> t = ''nan'' \<or>
         take 4 t = ''nan('' \<and> t \<noteq> [] \<and> last t = CHR '')'' \<and>
           list_all (\<lambda>c. c_isdigit c \<or> c = CHR ''_'' \<or> (97 \<le> (of_char c :: nat) \<and> (of_char c :: nat) \<le> 122)) (butlast (drop 4 t)))"

text \<open>
  \<open>api_add_source_json\<close>: the reply and the files. \<open>find_local\<close> tells whether the mountpoint exists in the
  local sourcetable.
\<close>

definition str_line :: "cstring \<Rightarrow> cstring list \<Rightarrow> cstring" where
  "str_line mountpoint fs =
     ''STR;'' @ mountpoint @ '';'' @ fs ! 0 @ '';'' @ fs ! 1 @ '';'' @ fs ! 2 @ '';'' @ fs ! 3 @ '';'' @ fs ! 4 @ '';'' @ fs ! 5 @ '';'' @
     fs ! 6 @ '';'' @ fs ! 7 @ '';'' @ fs ! 8 @ '';0;'' @ fs ! 9 @ '';'' @ fs ! 10 @ '';none;N;N;'' @ fs ! 11 @ '';'' @ [NL]"

definition source_form :: "cstring hash_table \<Rightarrow> cstring \<Rightarrow> cstring list" where
  "source_form h mountpoint =
     [given_or h ''identifier'' mountpoint, given_or h ''format'' ''RTCM3'', given_or h ''format_details'' [], given_or h ''carrier'' ''0'',
      given_or h ''nav_system'' ''GPS'', given_or h ''network'' ''NONE'', given_or h ''country'' ''NONE'', given_or h ''lat'' ''0.000'',
      given_or h ''lon'' ''0.000'', given_or h ''solution'' ''0'', given_or h ''generator'' ''unknown'', given_or h ''bitrate'' ''0'']"

definition api_add_source_json ::
  "file_env \<Rightarrow> edit_config \<Rightarrow> (cstring \<Rightarrow> bool) \<Rightarrow> 'c reload \<Rightarrow> cstring hash_table \<Rightarrow> files \<Rightarrow> 'c \<Rightarrow> (mime_content \<times> files \<times> 'c) option" where
  "api_add_source_json env config find_local reload h fs cs =
     (case (given h ''mountpoint'', given h ''source_password'') of
        (Some mountpoint, Some password) \<Rightarrow>
          if \<not> field_is_safe mountpoint \<or> \<not> field_is_safe password then Some (api_error_json ''invalid characters in mountpoint or source_password'', fs, cs)
          else if find_local mountpoint then Some (api_error_json ''mountpoint already exists'', fs, cs)
          else
            let fields = source_form h mountpoint in
            if \<not> list_all field_is_safe fields then Some (api_error_json ''invalid characters in a sourcetable field'', fs, cs)
            else if \<not> c_strtod_all (fields ! 7) then Some (api_error_json ''lat must be a number'', fs, cs)
            else if \<not> c_strtod_all (fields ! 8) then Some (api_error_json ''lon must be a number'', fs, cs)
            else (case append_text env (source_auth_filename config) (mountpoint @ '':'' @ mountpoint @ '':'' @ password @ [NL]) fs of
              None \<Rightarrow> Some (api_error_json ''cannot open source_auth_file'', fs, cs)
            | Some fs \<Rightarrow> (case append_text env (sourcetable_filename config) (str_line mountpoint fields) fs of
                None \<Rightarrow> Some (api_error_json ''cannot open sourcetable_file'', fs, cs)
              | Some fs \<Rightarrow> do { (r, cs) \<leftarrow> reload fs cs; Some (api_result_json r, fs, cs) }))
      | _ \<Rightarrow> Some (api_error_json ''mountpoint and source_password are required'', fs, cs))"

text \<open>
  The connections of a source: the loop starts again after each of them, as \<open>drop_all\<close> does.
\<close>

definition is_source_of :: "conns \<Rightarrow> cstring \<Rightarrow> nat \<Rightarrow> bool" where
  "is_source_of w mountpoint c \<longleftrightarrow> nt_type (conn w c) = ''source'' \<and> nt_mountpoint (conn w c) = Some mountpoint"

partial_function (option) drop_source_connections :: "cstring \<Rightarrow> int \<Rightarrow> conns \<Rightarrow> (int \<times> conns) option" where
  "drop_source_connections mountpoint r w =
     (case List.find (is_source_of w mountpoint) (ntrips w) of
        None \<Rightarrow> Some (r, w)
      | Some c \<Rightarrow> do { w \<leftarrow> ntrip_decref_end w c; drop_source_connections mountpoint (r + 1) w })"

definition api_remove_source_json ::
  "file_env \<Rightarrow> edit_config \<Rightarrow> 'c reload \<Rightarrow> cstring hash_table \<Rightarrow> files \<Rightarrow> conns \<Rightarrow> 'c \<Rightarrow> (mime_content \<times> files \<times> conns \<times> 'c) option" where
  "api_remove_source_json env config reload h fs w cs =
     (case given h ''mountpoint'' of
        None \<Rightarrow> Some (api_error_json ''mountpoint is required'', fs, w, cs)
      | Some mountpoint \<Rightarrow>
          if \<not> field_is_safe mountpoint then Some (api_error_json ''invalid characters in mountpoint'', fs, w, cs)
          else
            let (auth_removed, fs) = remove_matching_lines env (source_auth_filename config) CHR '':'' 0 mountpoint fs in
            if auth_removed < 0 then Some (api_error_json ''cannot rewrite source_auth_file'', fs, w, cs)
            else
              let (str_removed, fs) = remove_matching_lines env (sourcetable_filename config) CHR '';'' 1 mountpoint fs in
              if str_removed < 0 then Some (api_error_json ''cannot rewrite sourcetable_file'', fs, w, cs)
              else if auth_removed = 0 \<and> str_removed = 0 then Some (api_error_json ''mountpoint not found'', fs, w, cs)
              else do {
                (dropped, w) \<leftarrow> drop_source_connections mountpoint 0 w;
                (r, cs) \<leftarrow> reload fs cs;
                Some (json_mime (c_snprintf 80 (''{\"result\": '' @ c_show_int r @ '', \"dropped_connections\": '' @ c_show_int dropped @ ''}'' @ [NL])), fs, w, cs)
              })"

text \<open>\<open>json_text\<close> stands for \<open>json_object_to_json_string\<close>.\<close>

definition api_auth_set_json ::
  "file_env \<Rightarrow> edit_config \<Rightarrow> (json \<Rightarrow> cstring) \<Rightarrow> 'c reload \<Rightarrow> cstring hash_table \<Rightarrow> files \<Rightarrow> 'c \<Rightarrow> (mime_content \<times> files \<times> 'c) option" where
  "api_auth_set_json env config json_text reload h fs cs =
     (case (given h ''mountpoint'', given h ''auth_user'', given h ''auth_password'') of
        (Some mountpoint, Some auth_user, Some auth_password) \<Rightarrow>
          if \<not> field_is_safe mountpoint \<or> \<not> field_is_safe auth_user \<or> \<not> field_is_safe auth_password
          then Some (api_error_json ''invalid characters in mountpoint, auth_user or auth_password'', fs, cs)
          else
            let (r, fs) = remove_matching_lines env (source_auth_filename config) CHR '':'' 0 mountpoint fs in
            if r < 0 then Some (api_error_json ''cannot rewrite source_auth_file'', fs, cs)
            else (case append_text env (source_auth_filename config) (mountpoint @ '':'' @ auth_user @ '':'' @ auth_password @ [NL]) fs of
                None \<Rightarrow> Some (api_error_json ''cannot open source_auth_file'', fs, cs)
              | Some fs \<Rightarrow> do {
                  (_, cs) \<leftarrow> reload fs cs;
                  Some (json_mime (json_text (JObject [(''mountpoint'', JString mountpoint), (''user'', JString auth_user), (''password'', JString auth_password)])), fs, cs)
                })
      | _ \<Rightarrow> Some (api_error_json ''mountpoint, auth_user and auth_password are required'', fs, cs))"

definition auth_entry_json :: "auth_entry \<Rightarrow> json" where
  "auth_entry_json a = JObject [(''mountpoint'', JString (ae_key a)), (''user'', JString (ae_user a)), (''password'', JString (ae_password a))]"

definition api_auth_list_json :: "auth_config \<Rightarrow> (json \<Rightarrow> cstring) \<Rightarrow> mime_content" where
  "api_auth_list_json config json_text =
     json_mime (json_text (JArray (case source_auth config of None \<Rightarrow> [] | Some auth \<Rightarrow> map auth_entry_json auth)))"

text \<open>
  \<open>api_edit_source_json\<close>: the group is set first; an error of the second change leaves the first one.
\<close>

definition edit_field :: "file_env \<Rightarrow> edit_config \<Rightarrow> cstring \<Rightarrow> cstring \<Rightarrow> nat \<Rightarrow> cstring option \<Rightarrow> cstring \<Rightarrow> files \<Rightarrow> mime_content option \<times> files" where
  "edit_field env config mountpoint name target value dflt fs =
     (case value of
        None \<Rightarrow> (None, fs)
      | Some v \<Rightarrow>
          let v = (if v = [] then dflt else v) in
          if \<not> field_is_safe v then (Some (api_error_json (''invalid characters in '' @ name)), fs)
          else
            let (r, fs) = update_sourcetable_field env (sourcetable_filename config) mountpoint target v fs
            in if r \<le> 0 then (Some (api_error_json (if r < 0 then ''cannot rewrite sourcetable_file'' else ''mountpoint not found in sourcetable'')), fs)
               else (None, fs))"

definition api_edit_source_json :: "file_env \<Rightarrow> edit_config \<Rightarrow> 'c reload \<Rightarrow> cstring hash_table \<Rightarrow> files \<Rightarrow> 'c \<Rightarrow> (mime_content \<times> files \<times> 'c) option" where
  "api_edit_source_json env config reload h fs cs =
     (case given h ''mountpoint'' of
        None \<Rightarrow> Some (api_error_json ''mountpoint is required'', fs, cs)
      | Some mountpoint \<Rightarrow>
          if \<not> field_is_safe mountpoint then Some (api_error_json ''invalid characters in mountpoint'', fs, cs)
          else
            (case edit_field env config mountpoint ''group'' 7 (hash_table_get h ''group'') ''NONE'' fs of
               (Some m, fs) \<Rightarrow> Some (m, fs, cs)
             | (None, fs) \<Rightarrow>
                 (case edit_field env config mountpoint ''identifier'' 2 (hash_table_get h ''identifier'') mountpoint fs of
                    (Some m, fs) \<Rightarrow> Some (m, fs, cs)
                  | (None, fs) \<Rightarrow> do { (_, cs) \<leftarrow> reload fs cs; Some (json_mime (''{\"result\": 0}'' @ [NL]), fs, cs) })))"

text \<open>
  \<open>api_detect_source_json\<close>: the reply is written into a buffer of 400 bytes, with the sum of the results
  of \<open>snprintf\<close> as the offset.
\<close>

definition detect_reply :: "cstring \<Rightarrow> cstring option \<Rightarrow> pos_t option \<Rightarrow> cstring option" where
  "detect_reply types nav_system pos = do {
     (b, n) \<leftarrow> snprintf_at 400 ([], 0) (''{\"result\": 0, \"types\": \"'' @ types @ ''\"'');
     (b, n) \<leftarrow> (case nav_system of None \<Rightarrow> Some (b, n) | Some nav \<Rightarrow> snprintf_at 400 (b, n) ('', \"nav_system\": \"'' @ nav @ ''\"''));
     (b, n) \<leftarrow> (case pos of None \<Rightarrow> Some (b, n)
       | Some p \<Rightarrow> snprintf_at 400 (b, n) ('', \"lat\": '' @ c_show_fixed 6 (pos_lat p) @ '', \"lon\": '' @ c_show_fixed 6 (pos_lon p)));
     (b, n) \<leftarrow> snprintf_at 400 (b, n) (''}'' @ [NL]);
     Some b
   }"

definition api_detect_source_json ::
  "file_env \<Rightarrow> edit_config \<Rightarrow> ecef_conv \<Rightarrow> rtcm_info hash_table option \<Rightarrow> 'c reload \<Rightarrow> cstring hash_table \<Rightarrow> files \<Rightarrow> 'c \<Rightarrow> (mime_content \<times> files \<times> 'c) option" where
  "api_detect_source_json env config ecef cache reload h fs cs =
     (case given h ''mountpoint'' of
        None \<Rightarrow> Some (api_error_json ''mountpoint is required'', fs, cs)
      | Some mountpoint \<Rightarrow>
          if \<not> field_is_safe mountpoint then Some (api_error_json ''invalid characters in mountpoint'', fs, cs)
          else do {
            (types, nav_system, pos) \<leftarrow>
              (case Option.bind cache (\<lambda>c. hash_table_get c mountpoint) of
                 None \<Rightarrow> Some ([], None, None)
               | Some info \<Rightarrow> do {
                   types \<leftarrow> rtcm_typeset_str (typeset info);
                   nav \<leftarrow> rtcm_info_get_nav_system (typeset info);
                   pos \<leftarrow> rtcm_info_get_pos ecef info;
                   Some (types, nav, pos)
                 });
            if types = [] then Some (api_error_json ''no RTCM3 data observed yet for this mountpoint -- it may not be connected yet, or isn't RTCM3'', fs, cs)
            else do {
              let (r, fs) = update_sourcetable_field env (sourcetable_filename config) mountpoint 4 types fs;
              if r \<le> 0 then Some (api_error_json (if r < 0 then ''cannot rewrite sourcetable_file'' else ''mountpoint not found in sourcetable''), fs, cs)
              else do {
                let fs = (case nav_system of None \<Rightarrow> fs | Some nav \<Rightarrow> snd (update_sourcetable_field env (sourcetable_filename config) mountpoint 6 nav fs));
                let fs = (case pos of None \<Rightarrow> fs
                  | Some p \<Rightarrow> snd (update_sourcetable_field env (sourcetable_filename config) mountpoint 10 (c_snprintf 32 (c_show_fixed 6 (pos_lon p)))
                      (snd (update_sourcetable_field env (sourcetable_filename config) mountpoint 9 (c_snprintf 32 (c_show_fixed 6 (pos_lat p))) fs))));
                (_, cs) \<leftarrow> reload fs cs;
                b \<leftarrow> detect_reply types nav_system pos;
                Some (json_mime b, fs, cs)
              }
            }
          })"

subsection \<open>The account files in the settings\<close>

text \<open>
  The part of \<open>api_settings_set_json\<close> that edits the account files. A step is skipped if its key is not in
  the form; it returns the text of an error, whether something has changed, and the files. A step that
  fails ends the request; what the steps before it did stays.
\<close>

type_synonym edit = "files \<Rightarrow> cstring option \<times> bool \<times> files"

definition edit_step :: "cstring hash_table \<Rightarrow> cstring \<Rightarrow> (cstring \<Rightarrow> files \<Rightarrow> cstring option \<times> files) \<Rightarrow> edit" where
  "edit_step h key f fs =
     (case hash_table_get h key of
        None \<Rightarrow> (None, False, fs)
      | Some v \<Rightarrow> let (e, fs) = f v fs in (e, e = None, fs))"

fun edit_steps :: "edit list \<Rightarrow> bool \<Rightarrow> edit" where
  "edit_steps [] changed fs = (None, changed, fs)"
| "edit_steps (st # sts) changed fs =
     (case st fs of
        (Some e, _, fs) \<Rightarrow> (Some e, changed, fs)
      | (None, c, fs) \<Rightarrow> edit_steps sts (changed \<or> c) fs)"

definition bad_value :: "cstring option \<Rightarrow> bool" where
  "bad_value v \<longleftrightarrow> (case v of None \<Rightarrow> True | Some s \<Rightarrow> s = [] \<or> \<not> field_is_safe s)"

definition append_account :: "file_env \<Rightarrow> cstring \<Rightarrow> cstring \<Rightarrow> cstring list \<Rightarrow> files \<Rightarrow> cstring option \<times> files" where
  "append_account env filename msg cols fs =
     (case append_text env filename (concat (map (\<lambda>f. f @ '':'') (butlast cols)) @ last cols @ [NL]) fs of
        None \<Rightarrow> (Some msg, fs)
      | Some fs \<Rightarrow> (None, fs))"

definition changed_or :: "cstring \<Rightarrow> cstring \<Rightarrow> int \<times> files \<Rightarrow> cstring option \<times> files" where
  "changed_or io_msg absent_msg r = (if fst r < 0 then Some io_msg else if fst r = 0 then Some absent_msg else None, snd r)"

definition is_Y_or_N :: "cstring option \<Rightarrow> bool" where
  "is_Y_or_N v \<longleftrightarrow> (case v of None \<Rightarrow> False | Some s \<Rightarrow> c_strcaseeq s ''Y'' \<or> c_strcaseeq s ''N'')"

definition rover_absent :: cstring where
  "rover_absent = ''that rover user isn't present in the config file''"

definition rover_edits :: "file_env \<Rightarrow> rover_auth_entry list option \<Rightarrow> cstring \<Rightarrow> cstring hash_table \<Rightarrow> edit list" where
  "rover_edits env accounts filename h = [
     edit_step h ''rover_auth.add.user'' (\<lambda>u fs.
       let password = hash_table_get h ''rover_auth.add.password''; en = hash_table_get h ''rover_auth.add.enabled'' in
       if u = [] \<or> \<not> field_is_safe u then (Some ''invalid or empty rover_auth.add.user'', fs)
       else if bad_value password then (Some ''invalid or empty rover_auth.add.password'', fs)
       else if (case accounts of None \<Rightarrow> False | Some l \<Rightarrow> rover_auth_lookup l u \<noteq> None) then (Some ''that rover user already exists'', fs)
       else
         let enabled = (case en of None \<Rightarrow> True | Some e \<Rightarrow> c_strcaseeq e ''Y'' \<or> c_strcaseeq e ''true'' \<or> e = ''1'')
         in append_account env filename ''cannot open rover_auth_filename'' [u, the password, if enabled then ''Y'' else ''N''] fs),
     edit_step h ''rover_auth.remove'' (\<lambda>u fs.
       if \<not> field_is_safe u then (Some ''invalid characters in rover_auth.remove'', fs)
       else changed_or ''cannot rewrite rover_auth_filename'' rover_absent (remove_matching_lines env filename CHR '':'' 0 u fs)),
     edit_step h ''rover_auth.set_enabled.user'' (\<lambda>u fs.
       let v = hash_table_get h ''rover_auth.set_enabled.value'' in
       if \<not> field_is_safe u then (Some ''invalid characters in rover_auth.set_enabled.user'', fs)
       else if \<not> is_Y_or_N v then (Some ''rover_auth.set_enabled.value must be Y or N'', fs)
       else changed_or ''cannot rewrite rover_auth_filename'' rover_absent (set_colon_file_field env filename CHR '':'' u 2 (the v) fs)),
     edit_step h ''rover_auth.set_password.user'' (\<lambda>u fs.
       let v = hash_table_get h ''rover_auth.set_password.value'' in
       if \<not> field_is_safe u then (Some ''invalid characters in rover_auth.set_password.user'', fs)
       else if bad_value v then (Some ''invalid or empty rover_auth.set_password.value'', fs)
       else changed_or ''cannot rewrite rover_auth_filename'' rover_absent (set_colon_file_field env filename CHR '':'' u 1 (the v) fs))]"

definition user_absent :: cstring where
  "user_absent = ''that console user isn't present in the config file''"

definition is_role :: "cstring option \<Rightarrow> bool" where
  "is_role v \<longleftrightarrow> v = Some ''admin'' \<or> v = Some ''viewer''"

definition user_edits :: "file_env \<Rightarrow> user_auth_entry list option \<Rightarrow> cstring \<Rightarrow> cstring hash_table \<Rightarrow> edit list" where
  "user_edits env accounts filename h = [
     edit_step h ''user_auth.add.user'' (\<lambda>u fs.
       let password = hash_table_get h ''user_auth.add.password''; role = hash_table_get h ''user_auth.add.role'' in
       if u = [] \<or> \<not> field_is_safe u then (Some ''invalid or empty user_auth.add.user'', fs)
       else if bad_value password then (Some ''invalid or empty user_auth.add.password'', fs)
       else if \<not> is_role role then (Some ''user_auth.add.role must be admin or viewer'', fs)
       else if (case accounts of None \<Rightarrow> False | Some l \<Rightarrow> user_auth_lookup l u \<noteq> None) then (Some ''that console user already exists'', fs)
       else append_account env filename ''cannot open user_auth_filename'' [u, the password, the role, ''Y''] fs),
     edit_step h ''user_auth.remove'' (\<lambda>u fs.
       if \<not> field_is_safe u then (Some ''invalid characters in user_auth.remove'', fs)
       else changed_or ''cannot rewrite user_auth_filename'' user_absent (remove_matching_lines env filename CHR '':'' 0 u fs)),
     edit_step h ''user_auth.set_enabled.user'' (\<lambda>u fs.
       let v = hash_table_get h ''user_auth.set_enabled.value'' in
       if \<not> field_is_safe u then (Some ''invalid characters in user_auth.set_enabled.user'', fs)
       else if \<not> is_Y_or_N v then (Some ''user_auth.set_enabled.value must be Y or N'', fs)
       else changed_or ''cannot rewrite user_auth_filename'' user_absent (set_colon_file_field env filename CHR '':'' u 3 (the v) fs)),
     edit_step h ''user_auth.set_password.user'' (\<lambda>u fs.
       let v = hash_table_get h ''user_auth.set_password.value'' in
       if \<not> field_is_safe u then (Some ''invalid characters in user_auth.set_password.user'', fs)
       else if bad_value v then (Some ''invalid or empty user_auth.set_password.value'', fs)
       else changed_or ''cannot rewrite user_auth_filename'' user_absent (set_colon_file_field env filename CHR '':'' u 1 (the v) fs)),
     edit_step h ''user_auth.set_role.user'' (\<lambda>u fs.
       let v = hash_table_get h ''user_auth.set_role.value'' in
       if \<not> field_is_safe u then (Some ''invalid characters in user_auth.set_role.user'', fs)
       else if \<not> is_role v then (Some ''user_auth.set_role.value must be admin or viewer'', fs)
       else changed_or ''cannot rewrite user_auth_filename'' user_absent (set_colon_file_field env filename CHR '':'' u 2 (the v) fs))]"

definition smtp_edits :: "file_env \<Rightarrow> cstring \<Rightarrow> cstring hash_table \<Rightarrow> edit list" where
  "smtp_edits env filename h = [
     edit_step h ''alarms.smtp_auth.set.host'' (\<lambda>host fs.
       let u = hash_table_get h ''alarms.smtp_auth.set.user''; password = hash_table_get h ''alarms.smtp_auth.set.password'' in
       if host = [] \<or> \<not> field_is_safe host then (Some ''invalid or empty alarms.smtp_auth.set.host'', fs)
       else if bad_value u then (Some ''invalid or empty alarms.smtp_auth.set.user'', fs)
       else if bad_value password then (Some ''invalid or empty alarms.smtp_auth.set.password'', fs)
       else
         let (r, fs) = remove_matching_lines env filename CHR '':'' 0 host fs in
         if r < 0 then (Some ''cannot rewrite smtp auth_file'', fs)
         else append_account env filename ''cannot open smtp auth_file'' [host, the u, the password] fs),
     edit_step h ''alarms.smtp_auth.remove'' (\<lambda>host fs.
       if \<not> field_is_safe host then (Some ''invalid characters in alarms.smtp_auth.remove'', fs)
       else changed_or ''cannot rewrite smtp auth_file'' ''that host isn't present in the smtp auth_file''
         (remove_matching_lines env filename CHR '':'' 0 host fs))]"

text \<open>The three groups in their order; a group without a file name in the configuration is skipped.\<close>

record account_config =
  ac_rover_auth_filename :: "cstring option"
  ac_user_auth_filename :: "cstring option"
  ac_smtp_auth_file :: "cstring option"
  ac_auth :: auth_config

definition in_file :: "cstring option \<Rightarrow> (cstring \<Rightarrow> edit list) \<Rightarrow> edit list" where
  "in_file filename f = (case filename of None \<Rightarrow> [] | Some n \<Rightarrow> f n)"

text \<open>
  The part of \<open>api_settings_set_json\<close> that edits the account files: the first error, whether a file was changed, and
  the files. The settings of the YAML file, which the request handles after them, and its final
  reload and reply are not part of it.
\<close>

definition settings_account_edits :: "file_env \<Rightarrow> account_config \<Rightarrow> cstring hash_table \<Rightarrow> edit" where
  "settings_account_edits env config h =
     edit_steps
       (in_file (ac_rover_auth_filename config) (\<lambda>n. rover_edits env (rover_auth (ac_auth config)) n h) @
        in_file (ac_user_auth_filename config) (\<lambda>n. user_edits env (user_auth (ac_auth config)) n h) @
        in_file (ac_smtp_auth_file config) (\<lambda>n. smtp_edits env n h))
       False"

subsection \<open>Reading the files again\<close>

text \<open>The accounts; the result is also whether a file could not be read or parsed, the old list stays then.\<close>

record reload_config =
  rc_host_auth_filename :: "cstring option"
  rc_source_auth_filename :: "cstring option"
  rc_rover_auth_filename :: "cstring option"
  rc_user_auth_filename :: "cstring option"
  rc_host_auth :: "auth_entry list option"
  rc_auth :: auth_config

definition reload_list :: "cstring option \<Rightarrow> (cstring \<Rightarrow> 'a list option option) \<Rightarrow> 'a list option \<Rightarrow> bool \<Rightarrow> (bool \<times> 'a list option) option" where
  "reload_list filename parse old err =
     (case filename of
        None \<Rightarrow> Some (err, old)
      | Some f \<Rightarrow> do {
          tmp \<leftarrow> parse f;
          Some (case tmp of Some l \<Rightarrow> (err, Some l) | None \<Rightarrow> (True, old))
        })"

definition caster_reload_auth :: "file_env \<Rightarrow> files \<Rightarrow> reload_config \<Rightarrow> (int \<times> reload_config) option" where
  "caster_reload_auth env fs new_config = do {
     let contents = (\<lambda>f. fs (joinpath (fe_dir env) f));
     let auth = rc_auth new_config;
     (e, host) \<leftarrow> reload_list (rc_host_auth_filename new_config) (\<lambda>f. auth_parse (contents f)) (rc_host_auth new_config) False;
     (e, source) \<leftarrow> reload_list (rc_source_auth_filename new_config) (\<lambda>f. auth_parse (contents f)) (source_auth auth) e;
     (e, rover) \<leftarrow> reload_list (rc_rover_auth_filename new_config) (\<lambda>f. rover_auth_parse (contents f)) (rover_auth auth) e;
     (e, user) \<leftarrow> reload_list (rc_user_auth_filename new_config) (\<lambda>f. user_auth_parse (contents f)) (user_auth auth) e;
     Some (if e then - 1 else 0, new_config\<lparr>rc_host_auth := host, rc_auth := auth\<lparr>source_auth := source, rover_auth := rover, user_auth := user\<rparr>\<rparr>)
   }"

definition caster_reload_sourcetables :: "file_env \<Rightarrow> files \<Rightarrow> sourceline \<Rightarrow> edit_config \<Rightarrow> int \<Rightarrow> sourcetable list \<Rightarrow> int \<times> sourcetable list" where
  "caster_reload_sourcetables env fs uninit config priority stack =
     (case sourcetable_read uninit (sourcetable_filename config) (fs (joinpath (fe_dir env) (sourcetable_filename config))) priority of
        None \<Rightarrow> (- 1, stack)
      | Some local_table \<Rightarrow> (0, stack_replace_local stack (Some local_table)))"

end
