(* ===== verification/Caster.thy ===== *)
theory Caster
  imports Config Logs Source_Edit
begin

text \<open>
  Loading and reloading the configuration (\<^verbatim>\<open>caster/caster.c\<close>): the listeners, the fetchers of sourcetables, the
  syncer and the senders of log entries of the old configuration are used again where they fit the new one, and the
  rest of them is released with the last reference to the old configuration. Objects are identified by numbers;
  \<open>fresh\<close> functions of the environment give the numbers of new ones. Whether a port can be bound and whether the
  certificates of a listener can be loaded are answers of the system and of the TLS library. A context that was
  released and not cleared is \<open>Freed_ctx\<close>; its use, a NULL pointer that is read and a failed assertion are
  \<^const>\<open>None\<close>. One syncer exists at a time. Signals, threads and event loops are outside.
\<close>

subsection \<open>State\<close>

datatype tls_ctx = No_ctx | Ctx | Freed_ctx

record listener =
  ln_sockaddr :: sock
  ln_tls :: bool
  ln_ctx :: tls_ctx
  ln_hostname :: "cstring option"
  ln_refcnt :: int
  ln_open :: bool

type_synonym listeners = "nat \<Rightarrow> listener"

record caster_dynconfig =
  dy_listeners :: "nat list"
  dy_graylog :: "nat list"
  dy_fetchers :: "nat option list"
  dy_syncer :: bool
  dy_rtcm_filter :: "rtcm_filter option"
  dy_rtcm_filter_dict :: "unit hash_table option"

record caster_state =
  cr_listeners :: listeners
  cr_net :: net
  cr_fetch_refcnt :: "nat \<Rightarrow> int"
  cr_configs :: "nat \<Rightarrow> config"
  cr_dyn :: "nat \<Rightarrow> caster_dynconfig"
  cr_config :: "nat option"
  cr_config_gen :: int
  cr_graylog_log_level :: int
  cr_backlog_evbuffer :: nat
  cr_flog :: log
  cr_alog :: log

record caster_env =
  ve_net :: net_env
  ve_log :: log_env
  ve_file :: file_env
  ve_files :: files
  ve_pton6 :: pton
  ve_pton4 :: pton
  ve_uninit :: sourceline
  ve_json_file :: "cstring \<Rightarrow> json option"
  ve_tls_ok :: "cstring \<Rightarrow> cstring \<Rightarrow> bool"
  ve_bind_ok :: "listeners \<Rightarrow> sock \<Rightarrow> bool"
  ve_fresh_listener :: "nat \<Rightarrow> nat"
  ve_fresh_sender :: "nat \<Rightarrow> nat"
  ve_fresh_fetcher :: "nat \<Rightarrow> nat"
  ve_fresh_node :: "nat \<Rightarrow> nat"
  ve_junk_task :: ntrip_task
  ve_junk_session :: ntrip_state
  ve_zero_addr :: sock
  ve_session :: "nat \<Rightarrow> nat"
  ve_connects :: "nat \<Rightarrow> bool"

definition dynconfig_new :: caster_dynconfig where
  "dynconfig_new = \<lparr>dy_listeners = [], dy_graylog = [], dy_fetchers = [], dy_syncer = False, dy_rtcm_filter = None, dy_rtcm_filter_dict = None\<rparr>"

subsection \<open>Listeners\<close>

definition listener_load_certs :: "caster_env \<Rightarrow> config_bind \<Rightarrow> int option" where
  "listener_load_certs env b = do {
     cert \<leftarrow> bd_tls_full_certificate_chain b;
     key \<leftarrow> bd_tls_private_key b;
     let dir = fe_dir (ve_file env);
     Some (if ve_tls_ok env (joinpath dir cert) (joinpath dir key) then 0 else - 1)
   }"

definition listener_setup_tls :: "caster_env \<Rightarrow> config_bind \<Rightarrow> listener \<Rightarrow> (int \<times> listener) option" where
  "listener_setup_tls env b this = do {
     let this = (if ln_ctx this = No_ctx
                 then this\<lparr>ln_ctx := Ctx, ln_hostname := (case bd_hostname b of None \<Rightarrow> ln_hostname this | Some h \<Rightarrow> Some h)\<rparr> else this);
     if ln_ctx this = Freed_ctx then None
     else do {
       r \<leftarrow> listener_load_certs env b;
       Some (if r < 0 then (- 1, this\<lparr>ln_ctx := No_ctx\<rparr>) else (0, this))
     }
   }"

definition listener_new :: "caster_env \<Rightarrow> config_bind \<Rightarrow> sock \<Rightarrow> listeners \<Rightarrow> listener option option" where
  "listener_new env b addr ls = do {
     let this = \<lparr>ln_sockaddr = addr, ln_tls = bd_tls b, ln_ctx = No_ctx, ln_hostname = None, ln_refcnt = refcnt_init, ln_open = False\<rparr>;
     (r, this) \<leftarrow> (if bd_tls b \<and> bd_tls_full_certificate_chain b \<noteq> None \<and> bd_tls_private_key b \<noteq> None
                    then listener_setup_tls env b this else Some (0, this));
     Some (if r < 0 then None else if ve_bind_ok env ls addr then Some (this\<lparr>ln_open := True\<rparr>) else None)
   }"

definition listener_free :: "listener \<Rightarrow> listener option" where
  "listener_free this =
     (if ln_tls this \<and> ln_ctx this = Freed_ctx then None
      else Some (this\<lparr>ln_open := False, ln_ctx := (if ln_tls this \<and> ln_ctx this = Ctx then Freed_ctx else ln_ctx this)\<rparr>))"

definition listener_incref :: "nat \<Rightarrow> listeners \<Rightarrow> listeners option" where
  "listener_incref i ls = do { n \<leftarrow> refcnt_incref (ln_refcnt (ls i)); Some (ls(i := (ls i)\<lparr>ln_refcnt := n\<rparr>)) }"

definition listener_decref :: "nat \<Rightarrow> listeners \<Rightarrow> listeners option" where
  "listener_decref i ls = do {
     (n, freed) \<leftarrow> refcnt_decref (ln_refcnt (ls i));
     let x = (ls i)\<lparr>ln_refcnt := n\<rparr>;
     x \<leftarrow> (if freed then listener_free x else Some x);
     Some (ls(i := x))
   }"

definition with_port :: "16 word \<Rightarrow> sock \<Rightarrow> sock" where
  "with_port p s = (case s of Sock_v4 a _ \<Rightarrow> Sock_v4 a p | Sock_v6 a _ \<Rightarrow> Sock_v6 a p | Sock_other n \<Rightarrow> Sock_other n)"

fun find_listener :: "sock \<Rightarrow> listeners \<Rightarrow> nat list \<Rightarrow> nat option" where
  "find_listener addr ls [] = None"
| "find_listener addr ls (j # js) = (if ip_cmp addr (ln_sockaddr (ls j)) = 0 then Some j else find_listener addr ls js)"

text \<open>A listener that is used again; inner \<^const>\<open>None\<close> if its TLS set-up fails.\<close>

definition recycle_listener :: "caster_env \<Rightarrow> config_bind \<Rightarrow> nat \<Rightarrow> listeners \<Rightarrow> (nat option \<times> listeners) option" where
  "recycle_listener env b j ls = do {
     ls \<leftarrow> listener_incref j ls;
     (r, x) \<leftarrow> (if bd_tls b then listener_setup_tls env b (ls j) else Some (0, ls j));
     let ls = ls(j := x);
     if r < 0 then do { ls \<leftarrow> listener_decref j ls; Some (None, ls) }
     else if ln_tls x \<and> \<not> bd_tls b then
       (if ln_ctx x = Freed_ctx then None
        else Some (Some j, ls(j := x\<lparr>ln_tls := False, ln_ctx := (if ln_ctx x = Ctx then Freed_ctx else ln_ctx x)\<rparr>)))
     else Some (Some j, ls)
   }"

definition open_listener :: "caster_env \<Rightarrow> nat \<Rightarrow> config_bind \<Rightarrow> sock \<Rightarrow> listeners \<Rightarrow> (nat list \<times> listeners) option" where
  "open_listener env i b addr ls = do {
     new \<leftarrow> listener_new env b addr ls;
     Some (case new of None \<Rightarrow> ([], ls) | Some x \<Rightarrow> ([ve_fresh_listener env i], ls(ve_fresh_listener env i := x)))
   }"

text \<open>One entry of the new configuration: the listener it gets, if any.\<close>

definition reload_bind :: "caster_env \<Rightarrow> nat list \<Rightarrow> nat \<Rightarrow> config_bind \<Rightarrow> listeners \<Rightarrow> (nat list \<times> listeners) option" where
  "reload_bind env old i b ls =
     (case ip_convert (ve_pton6 env) (ve_pton4 env) (bd_ip b) of
        None \<Rightarrow> Some ([], ls)
      | Some s \<Rightarrow>
          let addr = with_port (bd_port b) s in
          (case find_listener addr ls old of
             None \<Rightarrow> open_listener env i b addr ls
           | Some j \<Rightarrow> do {
               (r, ls) \<leftarrow> recycle_listener env b j ls;
               case r of None \<Rightarrow> open_listener env i b addr ls | Some j \<Rightarrow> Some ([j], ls)
             }))"

fun reload_binds :: "caster_env \<Rightarrow> nat list \<Rightarrow> nat \<Rightarrow> config_bind list \<Rightarrow> listeners \<Rightarrow> (nat list \<times> listeners) option" where
  "reload_binds env old i [] ls = Some ([], ls)"
| "reload_binds env old i (b # bs) ls = do {
     (js, ls) \<leftarrow> reload_bind env old i b ls;
     (ks, ls) \<leftarrow> reload_binds env old (i + 1) bs ls;
     Some (js @ ks, ls)
   }"

definition set_dyn :: "nat \<Rightarrow> caster_dynconfig \<Rightarrow> caster_state \<Rightarrow> caster_state" where
  "set_dyn k d this = this\<lparr>cr_dyn := (cr_dyn this)(k := d)\<rparr>"

text \<open>The operations of a reload take the number of the new configuration and that of the old one.\<close>

definition old_dyn :: "nat option \<Rightarrow> caster_state \<Rightarrow> caster_dynconfig option" where
  "old_dyn old this = map_option (cr_dyn this) old"

definition caster_reload_listeners :: "caster_env \<Rightarrow> nat \<Rightarrow> nat option \<Rightarrow> caster_state \<Rightarrow> (int \<times> caster_state) option" where
  "caster_reload_listeners env k old this =
     (if c_bind (cr_configs this k) = [] then Some (- 1, this)
      else do {
        (js, ls) \<leftarrow> reload_binds env (case old_dyn old this of None \<Rightarrow> [] | Some d \<Rightarrow> dy_listeners d) 0 (c_bind (cr_configs this k)) (cr_listeners this);
        let this = this\<lparr>cr_listeners := ls\<rparr>;
        Some (if js = [] then (- 1, this) else (0, set_dyn k ((cr_dyn this k)\<lparr>dy_listeners := js\<rparr>) this))
      })"

subsection \<open>Fetchers of sourcetables\<close>

definition fetcher_incref :: "nat \<Rightarrow> caster_state \<Rightarrow> caster_state option" where
  "fetcher_incref p this = do {
     n \<leftarrow> refcnt_incref (cr_fetch_refcnt this p);
     Some (this\<lparr>cr_fetch_refcnt := (cr_fetch_refcnt this)(p := n)\<rparr>)
   }"

definition fetcher_decref :: "caster_env \<Rightarrow> nat \<Rightarrow> caster_state \<Rightarrow> caster_state option" where
  "fetcher_decref env p this = do {
     (n, freed) \<leftarrow> refcnt_decref (cr_fetch_refcnt this p);
     let this = this\<lparr>cr_fetch_refcnt := (cr_fetch_refcnt this)(p := n)\<rparr>;
     if freed then do {
       w \<leftarrow> fetcher_sourcetable_stop p (cr_net this);
       w \<leftarrow> ntrip_task_decref (ve_net env) p w;
       Some (this\<lparr>cr_net := w\<rparr>)
     }
     else Some this
   }"

text \<open>The first fetcher of the old configuration for the host and the port that has no filter.\<close>

fun find_fetcher :: "config_proxy \<Rightarrow> net \<Rightarrow> nat option list \<Rightarrow> nat option option" where
  "find_fetcher p w [] = Some None"
| "find_fetcher p w (None # fs) = find_fetcher p w fs"
| "find_fetcher p w (Some f # fs) = do {
     host \<leftarrow> tk_host (task w f);
     if host = px_host p \<and> tk_port (task w f) = px_port p \<and> fa_json_config (nw_fetch w f) = None then Some (Some f)
     else find_fetcher p w fs
   }"

text \<open>\<open>fetcher_sourcetable_new\<close> with its arguments and the file of its filter; \<^const>\<open>None\<close> if that cannot be read.\<close>

definition make_fetcher :: "caster_env \<Rightarrow> int \<Rightarrow> nat \<Rightarrow> config_proxy \<Rightarrow> caster_state \<Rightarrow> nat option \<times> caster_state" where
  "make_fetcher env timeout i p this =
     (let f = ve_fresh_fetcher env i;
          json = map_option (ve_json_file env) (px_filter_filename p);
          x = fetcher_sourcetable_new (px_host p) (px_port p) (px_tls p) (px_table_refresh_delay p) timeout (ve_junk_task env);
          w = set_task f x (cr_net this)
      in if json = Some None then (None, this)
         else (Some f, this\<lparr>cr_fetch_refcnt := (cr_fetch_refcnt this)(f := refcnt_init),
                cr_net := w\<lparr>nw_fetch := (nw_fetch w)(f := \<lparr>fa_sourcetable = None, fa_priority = px_priority p,
                  fa_json_config = (case json of None \<Rightarrow> None | Some j \<Rightarrow> j)\<rparr>)\<rparr>\<rparr>))"

fun reload_proxies :: "caster_env \<Rightarrow> int \<Rightarrow> nat option list \<Rightarrow> nat \<Rightarrow> config_proxy list \<Rightarrow> caster_state \<Rightarrow> (nat option list \<times> caster_state) option" where
  "reload_proxies env timeout old i [] this = Some ([], this)"
| "reload_proxies env timeout old i (p # ps) this = do {
     found \<leftarrow> (if px_filter_filename p = None then find_fetcher p (cr_net this) old else Some None);
     (f, this) \<leftarrow> (case found of
        Some f \<Rightarrow> map_option (Pair (Some f)) (fetcher_incref f this)
      | None \<Rightarrow> Some (make_fetcher env timeout i p this));
     (fs, this) \<leftarrow> reload_proxies env timeout old (i + 1) ps this;
     Some (f # fs, this)
   }"

definition caster_reload_fetchers :: "caster_env \<Rightarrow> nat \<Rightarrow> nat option \<Rightarrow> caster_state \<Rightarrow> caster_state option" where
  "caster_reload_fetchers env k old this = do {
     let c = cr_configs this k;
     (fs, this) \<leftarrow> reload_proxies env (c_sourcetable_fetch_timeout c) (case old_dyn old this of None \<Rightarrow> [] | Some d \<Rightarrow> dy_fetchers d) 0 (c_proxy c) this;
     Some (set_dyn k ((cr_dyn this k)\<lparr>dy_fetchers := fs\<rparr>) this)
   }"

fun start_fetchers :: "caster_env \<Rightarrow> cli_config \<Rightarrow> nat option list \<Rightarrow> config_proxy list \<Rightarrow> net \<Rightarrow> (int \<times> net) option" where
  "start_fetchers env cc (f # fs) (p # ps) w = do {
     (r, w) \<leftarrow> (case f of
        None \<Rightarrow> Some (- 1 :: int, w)
      | Some f \<Rightarrow> map_option (Pair 0)
          (if tk_state (task w f) = TASK_INIT
           then fetcher_sourcetable_start cc (ve_junk_session env) (ve_zero_addr env) (ve_session env f) (ve_connects env f) f w
           else fetcher_sourcetable_reload cc (ve_junk_session env) (ve_zero_addr env) (ve_session env f) (ve_connects env f)
                  (px_table_refresh_delay p) (px_priority p) f w));
     (r2, w) \<leftarrow> start_fetchers env cc fs ps w;
     Some (if r < 0 then - 1 else r2, w)
   }"
| "start_fetchers env cc _ _ w = Some (0, w)"

subsection \<open>Syncer and senders of log entries\<close>

definition sync_uri :: cstring where "sync_uri = ''/adm/api/v1/sync''"

definition caster_reload_syncers :: "caster_env \<Rightarrow> nat \<Rightarrow> nat option \<Rightarrow> caster_state \<Rightarrow> (int \<times> caster_state) option" where
  "caster_reload_syncers env k old this =
     (let nodes = c_node (cr_configs this k) in
      if nodes = [] then Some (0, set_dyn k ((cr_dyn this k)\<lparr>dy_syncer := False\<rparr>) this)
      else
        case old_dyn old this of
          Some d \<Rightarrow>
            if dy_syncer d then do {
              let this = (case old of None \<Rightarrow> this | Some o' \<Rightarrow> set_dyn o' (d\<lparr>dy_syncer := False\<rparr>) this);
              let this = set_dyn k ((cr_dyn this k)\<lparr>dy_syncer := True\<rparr>) this;
              w \<leftarrow> syncer_reload (ve_net env) (ve_fresh_node env) (ve_junk_task env) nodes sync_uri 0 (cr_net this);
              Some (0, this\<lparr>cr_net := w\<rparr>)
            }
            else do {
              (_, w) \<leftarrow> syncer_new (ve_net env) (ve_fresh_node env) (ve_junk_task env) nodes sync_uri 0 (cr_net this);
              w \<leftarrow> syncer_reload (ve_net env) (ve_fresh_node env) (ve_junk_task env) nodes sync_uri 0 w;
              Some (0, set_dyn k ((cr_dyn this k)\<lparr>dy_syncer := True\<rparr>) (this\<lparr>cr_net := w\<rparr>))
            }
        | None \<Rightarrow> do {
              (_, w) \<leftarrow> syncer_new (ve_net env) (ve_fresh_node env) (ve_junk_task env) nodes sync_uri 0 (cr_net this);
              w \<leftarrow> syncer_reload (ve_net env) (ve_fresh_node env) (ve_junk_task env) nodes sync_uri 0 w;
              Some (0, set_dyn k ((cr_dyn this k)\<lparr>dy_syncer := True\<rparr>) (this\<lparr>cr_net := w\<rparr>))
            })"

definition caster_start_syncers :: "caster_env \<Rightarrow> cli_config \<Rightarrow> nat \<Rightarrow> caster_state \<Rightarrow> caster_state option" where
  "caster_start_syncers env cc k this =
     (if dy_syncer (cr_dyn this k)
      then map_option (\<lambda>w. this\<lparr>cr_net := w\<rparr>)
        (syncer_start_all (ve_net env) cc (ve_junk_session env) (ve_zero_addr env) (\<lambda>i. ve_session env (ve_fresh_node env i)) (ve_connects env) (cr_net this))
      else Some this)"

fun make_senders :: "caster_env \<Rightarrow> nat \<Rightarrow> config_graylog list \<Rightarrow> net \<Rightarrow> nat list \<times> net" where
  "make_senders env i [] w = ([], w)"
| "make_senders env i (g # gs) w =
     (let t = ve_fresh_sender env i;
          (ts, w) = make_senders env (i + 1) gs (set_task t (graylog_sender_of (ve_junk_task env) g) w)
      in (t # ts, w))"

definition caster_reload_graylog :: "caster_env \<Rightarrow> nat \<Rightarrow> caster_state \<Rightarrow> caster_state" where
  "caster_reload_graylog env k this =
     (let (ts, w) = make_senders env 0 (c_graylog (cr_configs this k)) (cr_net this)
      in set_dyn k ((cr_dyn this k)\<lparr>dy_graylog := ts\<rparr>) (this\<lparr>cr_net := w\<rparr>))"

fun start_senders :: "caster_env \<Rightarrow> cli_config \<Rightarrow> nat list \<Rightarrow> net \<Rightarrow> net option" where
  "start_senders env cc [] w = Some w"
| "start_senders env cc (t # ts) w = do {
     w \<leftarrow> graylog_sender_start cc (ve_junk_session env) (ve_zero_addr env) (ve_session env t) (ve_connects env t) t w;
     start_senders env cc ts w
   }"

fun free_senders :: "caster_env \<Rightarrow> nat list \<Rightarrow> net \<Rightarrow> net option" where
  "free_senders env [] w = Some w"
| "free_senders env (t # ts) w = do { w \<leftarrow> graylog_sender_free (ve_net env) t w; free_senders env ts w }"

subsection \<open>Releasing a configuration\<close>

fun decref_listeners :: "nat list \<Rightarrow> listeners \<Rightarrow> listeners option" where
  "decref_listeners [] ls = Some ls"
| "decref_listeners (j # js) ls = do { ls \<leftarrow> listener_decref j ls; decref_listeners js ls }"

fun decref_fetchers :: "caster_env \<Rightarrow> nat option list \<Rightarrow> caster_state \<Rightarrow> caster_state option" where
  "decref_fetchers env [] this = Some this"
| "decref_fetchers env (f # fs) this = do {
     this \<leftarrow> (case f of None \<Rightarrow> Some this | Some f \<Rightarrow> fetcher_decref env f this);
     decref_fetchers env fs this
   }"

definition dynconfig_free_listeners :: "nat \<Rightarrow> caster_state \<Rightarrow> caster_state option" where
  "dynconfig_free_listeners k this = do {
     ls \<leftarrow> decref_listeners (dy_listeners (cr_dyn this k)) (cr_listeners this);
     Some (set_dyn k ((cr_dyn this k)\<lparr>dy_listeners := []\<rparr>) (this\<lparr>cr_listeners := ls\<rparr>))
   }"

definition dynconfig_free_fetchers :: "caster_env \<Rightarrow> nat \<Rightarrow> caster_state \<Rightarrow> caster_state option" where
  "dynconfig_free_fetchers env k this = do {
     this \<leftarrow> decref_fetchers env (dy_fetchers (cr_dyn this k)) this;
     Some (set_dyn k ((cr_dyn this k)\<lparr>dy_fetchers := []\<rparr>) this)
   }"

definition dynconfig_free_rtcm_filters :: "nat \<Rightarrow> caster_state \<Rightarrow> caster_state" where
  "dynconfig_free_rtcm_filters k this = set_dyn k ((cr_dyn this k)\<lparr>dy_rtcm_filter := None, dy_rtcm_filter_dict := None\<rparr>) this"

definition dynconfig_free_syncers :: "caster_env \<Rightarrow> nat \<Rightarrow> caster_state \<Rightarrow> caster_state option" where
  "dynconfig_free_syncers env k this =
     (if dy_syncer (cr_dyn this k) then do {
        w \<leftarrow> syncer_free (ve_net env) (cr_net this);
        Some (set_dyn k ((cr_dyn this k)\<lparr>dy_syncer := False\<rparr>) (this\<lparr>cr_net := w\<rparr>))
      }
      else Some this)"

definition dynconfig_free_graylog :: "caster_env \<Rightarrow> nat \<Rightarrow> caster_state \<Rightarrow> caster_state option" where
  "dynconfig_free_graylog env k this = do {
     w \<leftarrow> free_senders env (dy_graylog (cr_dyn this k)) (cr_net this);
     Some (set_dyn k ((cr_dyn this k)\<lparr>dy_graylog := []\<rparr>) (this\<lparr>cr_net := w\<rparr>))
   }"

definition dynconfig_free :: "caster_env \<Rightarrow> nat \<Rightarrow> caster_state \<Rightarrow> caster_state option" where
  "dynconfig_free env k this = do {
     this \<leftarrow> dynconfig_free_listeners k this;
     this \<leftarrow> dynconfig_free_fetchers env k this;
     let this = dynconfig_free_rtcm_filters k this;
     this \<leftarrow> dynconfig_free_syncers env k this;
     dynconfig_free_graylog env k this
   }"

definition config_incref :: "nat \<Rightarrow> caster_state \<Rightarrow> caster_state option" where
  "config_incref k this = do {
     n \<leftarrow> refcnt_incref (c_refcnt (cr_configs this k));
     Some (this\<lparr>cr_configs := (cr_configs this)(k := (cr_configs this k)\<lparr>c_refcnt := n\<rparr>)\<rparr>)
   }"

definition config_decref :: "caster_env \<Rightarrow> nat \<Rightarrow> caster_state \<Rightarrow> caster_state option" where
  "config_decref env k this = do {
     (n, freed) \<leftarrow> refcnt_decref (c_refcnt (cr_configs this k));
     let this = this\<lparr>cr_configs := (cr_configs this)(k := (cr_configs this k)\<lparr>c_refcnt := n\<rparr>)\<rparr>;
     if freed then dynconfig_free env k this else Some this
   }"

definition caster_config_getref :: "caster_state \<Rightarrow> (nat \<times> caster_state) option" where
  "caster_config_getref this = do { k \<leftarrow> cr_config this; this \<leftarrow> config_incref k this; Some (k, this) }"

subsection \<open>Loading\<close>

definition caster_reopen_logs :: "caster_env \<Rightarrow> nat \<Rightarrow> caster_state \<Rightarrow> (int \<times> caster_state) option" where
  "caster_reopen_logs env k this = do {
     let c = cr_configs this k;
     lg \<leftarrow> c_log c;
     alg \<leftarrow> c_access_log c;
     let dir = fe_dir (ve_file env);
     let facility = (case c_syslog c of [] \<Rightarrow> - 1 | s # _ \<Rightarrow> sy_facility s);
     let slevel = (case c_syslog c of [] \<Rightarrow> - 1 | s # _ \<Rightarrow> sy_log_level s);
     let glevel = (case c_graylog c of [] \<Rightarrow> - 1 | g # _ \<Rightarrow> gl_log_level g);
     let (r1, f) = log_reopen (ve_log env) (joinpath dir lg) (c_log_level c) glevel slevel facility (cr_flog this);
     let (r2, a) = log_reopen (ve_log env) (joinpath dir alg) 0 (- 1) (- 1) (- 1) (cr_alog this);
     Some (if r1 < 0 \<or> r2 < 0 then - 1 else 0, this\<lparr>cr_flog := f, cr_alog := a\<rparr>)
   }"

text \<open>The parts of a configuration that the operations on accounts and on the sourcetable read.\<close>

definition reload_config_of :: "config \<Rightarrow> reload_config option" where
  "reload_config_of c = do {
     user \<leftarrow> c_admin_user c;
     Some \<lparr>rc_host_auth_filename = c_host_auth_filename c, rc_source_auth_filename = c_source_auth_filename c,
       rc_rover_auth_filename = c_rover_auth_filename c, rc_user_auth_filename = c_user_auth_filename c, rc_host_auth = c_host_auth c,
       rc_auth = \<lparr>source_auth = c_source_auth c, rover_auth = c_rover_auth c, user_auth = c_user_auth c, admin_user = user,
         rover_auth_filename = c_rover_auth_filename c\<rparr>\<rparr>
   }"

definition reload_accounts :: "caster_env \<Rightarrow> config \<Rightarrow> (int \<times> config) option" where
  "reload_accounts env c = do {
     rc \<leftarrow> reload_config_of c;
     (r, rc) \<leftarrow> caster_reload_auth (ve_file env) (ve_files env) rc;
     Some (r, c\<lparr>c_host_auth := rc_host_auth rc, c_source_auth := source_auth (rc_auth rc), c_rover_auth := rover_auth (rc_auth rc),
       c_user_auth := user_auth (rc_auth rc)\<rparr>)
   }"

definition reload_sourcetable :: "caster_env \<Rightarrow> nat \<Rightarrow> caster_state \<Rightarrow> (int \<times> caster_state) option" where
  "reload_sourcetable env k this = do {
     let c = cr_configs this k;
     f \<leftarrow> c_sourcetable_filename c;
     let w = cr_net this;
     let (r, stack) = caster_reload_sourcetables (ve_file env) (ve_files env) (ve_uninit env)
           \<lparr>source_auth_filename = [], sourcetable_filename = f\<rparr> (c_sourcetable_priority c) (sv_stack (nw_srv w));
     Some (r, this\<lparr>cr_net := w\<lparr>nw_srv := (nw_srv w)\<lparr>sv_stack := stack\<rparr>\<rparr>\<rparr>)
   }"

definition caster_reload_blocklist :: "caster_env \<Rightarrow> config \<Rightarrow> (int \<times> config) option" where
  "caster_reload_blocklist env c =
     (case c_blocklist_filename c of
        None \<Rightarrow> Some (0, c)
      | Some f \<Rightarrow> do {
          (r, p) \<leftarrow> prefix_table_read (ve_pton6 env) (ve_pton4 env) prefix_table_new (ve_files env (joinpath (fe_dir (ve_file env)) f));
          Some (if r < 0 then (- 1, c\<lparr>c_blocklist := None\<rparr>) else (0, c\<lparr>c_blocklist := Some p\<rparr>))
        })"

text \<open>The filter of the configuration; with more than one the code fails.\<close>

definition caster_reload_rtcm_filters :: "config \<Rightarrow> caster_dynconfig \<Rightarrow> (int \<times> caster_dynconfig) option" where
  "caster_reload_rtcm_filters c dyn =
     (case c_rtcm_filter c of
        [] \<Rightarrow> Some (0, dyn)
      | [f] \<Rightarrow> do {
          h0 \<leftarrow> hash_table_new True 5;
          let dyn = dyn\<lparr>dy_rtcm_filter_dict := Some h0\<rparr>;
          flt \<leftarrow> rtcm_filter_new (rf_pass f) (case rf_convert f of [] \<Rightarrow> None | (types, _) # _ \<Rightarrow> Some types)
                  (case rf_convert f of [] \<Rightarrow> RTCM_CONV_MSM7_3 | (_, conv) # _ \<Rightarrow> conv);
          case flt of
            None \<Rightarrow> Some (- 1, dyn)
          | Some flt \<Rightarrow>
              (case rtcm_filter_dict_parse (rf_apply f) of
                 None \<Rightarrow> Some (- 1, dyn)
               | Some h \<Rightarrow> do {
                   h0 \<leftarrow> hash_table_update (\<lambda>_. True) h0 h;
                   Some (0, dyn\<lparr>dy_rtcm_filter_dict := Some h0, dy_rtcm_filter := Some flt\<rparr>)
                 })
        }
      | _ \<Rightarrow> Some (- 1, dyn))"

definition caster_start :: "caster_env \<Rightarrow> nat \<Rightarrow> caster_state \<Rightarrow> (int \<times> caster_state) option" where
  "caster_start env k this = do {
     let c = cr_configs this k;
     cc \<leftarrow> cli_config_of (fe_dir (ve_file env)) (dy_rtcm_filter_dict (cr_dyn this k)) c;
     (r, w) \<leftarrow> start_fetchers env cc (dy_fetchers (cr_dyn this k)) (c_proxy c) (cr_net this);
     this \<leftarrow> caster_start_syncers env cc k (this\<lparr>cr_net := w\<rparr>);
     w \<leftarrow> start_senders env cc (dy_graylog (cr_dyn this k)) (cr_net this);
     Some (if r < 0 then - 1 else 0, this\<lparr>cr_net := w, cr_graylog_log_level := (case c_graylog c of [] \<Rightarrow> - 1 | g # _ \<Rightarrow> gl_log_level g)\<rparr>)
   }"

definition caster_load_config :: "caster_env \<Rightarrow> config option \<Rightarrow> caster_state \<Rightarrow> (config option \<times> caster_state) option" where
  "caster_load_config env loaded this = do {
     c \<leftarrow> config_parse (ve_pton6 env) (ve_pton4 env) loaded (cr_config_gen this);
     Some (c, this\<lparr>cr_config_gen := cr_config_gen this + 1\<rparr>)
   }"

definition set_config :: "nat \<Rightarrow> config \<Rightarrow> caster_state \<Rightarrow> caster_state" where
  "set_config k c this = this\<lparr>cr_configs := (cr_configs this)(k := c)\<rparr>"

text \<open>
  \<open>caster_load\<close> for the configuration that the YAML reader returned, which gets the number \<open>k\<close>. A step that fails
  sets the result to \<open>-1\<close>; the configuration is installed anyway.
\<close>

definition caster_load :: "caster_env \<Rightarrow> config option \<Rightarrow> nat \<Rightarrow> bool \<Rightarrow> caster_state \<Rightarrow> (int \<times> caster_state) option" where
  "caster_load env loaded k restart this = do {
     (new_config, this) \<leftarrow> caster_load_config env loaded this;
     let this = this\<lparr>cr_graylog_log_level := - 1\<rparr>;
     case new_config of
       None \<Rightarrow> Some (- 1, this)
     | Some c \<Rightarrow> do {
         let this = set_dyn k dynconfig_new (set_config k c this);
         let old = cr_config this;
         (r1, this) \<leftarrow> caster_reopen_logs env k this;
         (r2, this) \<leftarrow> reload_sourcetable env k this;
         (r3, c) \<leftarrow> reload_accounts env (cr_configs this k);
         (r4, c) \<leftarrow> caster_reload_blocklist env c;
         let this = set_config k c this;
         (r5, d) \<leftarrow> caster_reload_rtcm_filters c (cr_dyn this k);
         let this = caster_reload_graylog env k (set_dyn k d this);
         (r6, this) \<leftarrow> caster_reload_syncers env k old this;
         this \<leftarrow> caster_reload_fetchers env k old this;
         let this = this\<lparr>cr_config := Some k, cr_backlog_evbuffer := c_backlog_evbuffer (cr_configs this k)\<rparr>;
         (r7, this) \<leftarrow> caster_reload_listeners env k old this;
         this \<leftarrow> (case old of None \<Rightarrow> Some this | Some o' \<Rightarrow> config_decref env o' this);
         (r8, this) \<leftarrow> (if restart then caster_start env k this else Some (0, this));
         Some (if r1 < 0 \<or> r2 < 0 \<or> r3 < 0 \<or> r4 < 0 \<or> r5 < 0 \<or> r6 < 0 \<or> r7 < 0 \<or> r8 < 0 then - 1 else 0, this)
       }
   }"

definition caster_reload :: "caster_env \<Rightarrow> config option \<Rightarrow> nat \<Rightarrow> caster_state \<Rightarrow> (int \<times> caster_state) option" where
  "caster_reload env loaded k this = caster_load env loaded k True this"

text \<open>The outgoing side of \<open>caster_free\<close>: what the configuration owns stops.\<close>

definition caster_stop_dyn :: "caster_env \<Rightarrow> caster_state \<Rightarrow> caster_state option" where
  "caster_stop_dyn env this =
     (case cr_config this of
        None \<Rightarrow> Some this
      | Some k \<Rightarrow> do {
          this \<leftarrow> dynconfig_free_listeners k this;
          this \<leftarrow> dynconfig_free_fetchers env k this;
          this \<leftarrow> dynconfig_free_syncers env k this;
          let this = this\<lparr>cr_graylog_log_level := - 1\<rparr>;
          dynconfig_free_graylog env k this
        })"

end
