(* ===== verification/Caster_Correct.thy ===== *)
theory Caster_Correct
  imports Caster
begin

text \<open>
  What a reload keeps: the references to the listeners are counted exactly over any number of reloads, a listener is
  open as long as it is referenced, and a port of the old configuration that is in the new one stays open.
\<close>

subsection \<open>Listeners\<close>

definition listeners_wf :: "listeners \<Rightarrow> bool" where
  "listeners_wf ls \<longleftrightarrow> (\<forall>j. 0 \<le> ln_refcnt (ls j) \<and> (ln_open (ls j) \<longleftrightarrow> 0 < ln_refcnt (ls j)))"

lemma setup_tls_keeps:
  assumes "listener_setup_tls env b x = Some (r, y)"
  shows "ln_refcnt y = ln_refcnt x \<and> ln_open y = ln_open x \<and> ln_sockaddr y = ln_sockaddr x \<and> ln_tls y = ln_tls x"
  using assms by (auto simp: listener_setup_tls_def Let_def bind_eq_Some_conv split: if_splits)

lemma listener_incref_eq:
  "listener_incref j ls = Some ls' \<longleftrightarrow> 0 < ln_refcnt (ls j) \<and> ls' = ls(j := (ls j)\<lparr>ln_refcnt := ln_refcnt (ls j) + 1\<rparr>)"
  by (auto simp: listener_incref_def refcnt_incref_def)

interpretation listeners: refcounted "\<lambda>ls j. ln_refcnt (ls j)" listeners_wf "\<lambda>ls j. ln_sockaddr (ls j)" listener_incref listener_decref decref_listeners
proof unfold_locales
  show "listeners_wf ls' \<and> 0 < ln_refcnt (ls j) \<and> (\<lambda>j. ln_refcnt (ls' j)) = (\<lambda>j. ln_refcnt (ls j))(j := ln_refcnt (ls j) + 1) \<and>
    (\<lambda>j. ln_sockaddr (ls' j)) = (\<lambda>j. ln_sockaddr (ls j))" if "listener_incref j ls = Some ls'" "listeners_wf ls" for j ls ls'
    using that by (auto simp: listener_incref_eq listeners_wf_def)
  show "listeners_wf ls' \<and> 0 < ln_refcnt (ls j) \<and> (\<lambda>j. ln_refcnt (ls' j)) = (\<lambda>j. ln_refcnt (ls j))(j := ln_refcnt (ls j) - 1) \<and>
    (\<lambda>j. ln_sockaddr (ls' j)) = (\<lambda>j. ln_sockaddr (ls j))" if "listener_decref j ls = Some ls'" "listeners_wf ls" for j ls ls'
    using that by (auto simp: listener_decref_def refcnt_decref_def listener_free_def listeners_wf_def Let_def split: if_splits)
qed simp_all

lemma listener_decref_refs:
  assumes "listener_decref j ls = Some ls'" "listeners_wf ls"
  shows "listeners_wf ls' \<and> (\<forall>i. ln_refcnt (ls' i) = ln_refcnt (ls i) - (if i = j then 1 else 0)) \<and>
    (\<forall>i. ln_sockaddr (ls' i) = ln_sockaddr (ls i)) \<and> 0 < ln_refcnt (ls j)"
  using listeners.decref[OF assms] by (auto simp: fun_eq_iff)

lemma recycle_listener_refs:
  assumes "recycle_listener env b j ls = Some (r, ls')" "listeners_wf ls"
  shows "listeners_wf ls' \<and> (\<forall>i. ln_refcnt (ls' i) = ln_refcnt (ls i) + (if r = Some i then 1 else 0)) \<and> (r = None \<or> r = Some j) \<and>
    (\<forall>i. ln_sockaddr (ls' i) = ln_sockaddr (ls i)) \<and> 0 < ln_refcnt (ls j)"
proof -
  from assms(1) obtain ls1 n x where 1: "listener_incref j ls = Some ls1"
    "(if bd_tls b then listener_setup_tls env b (ls1 j) else Some (0, ls1 j)) = Some (n, x)"
    and r: "(if n < 0 then do { ls \<leftarrow> listener_decref j (ls1(j := x)); Some (None, ls) }
     else if ln_tls x \<and> \<not> bd_tls b then
       (if ln_ctx x = Freed_ctx then None
        else Some (Some j, (ls1(j := x))(j := x\<lparr>ln_tls := False, ln_ctx := (if ln_ctx x = Ctx then Freed_ctx else ln_ctx x)\<rparr>)))
     else Some (Some j, ls1(j := x))) = Some (r, ls')"
    unfolding recycle_listener_def Let_def by (auto simp: bind_eq_Some_conv)
  from 1(1) have i: "0 < ln_refcnt (ls j)" "ls1 = ls(j := (ls j)\<lparr>ln_refcnt := ln_refcnt (ls j) + 1\<rparr>)" by (simp_all add: listener_incref_eq)
  have x: "ln_refcnt x = ln_refcnt (ls j) + 1" "ln_open x = ln_open (ls j)" "ln_sockaddr x = ln_sockaddr (ls j)"
    using 1(2) setup_tls_keeps[of env b "ls1 j" n x] i(2) by (auto split: if_splits)
  have wf: "listeners_wf (ls1(j := x))" using assms(2) i x by (auto simp: listeners_wf_def)
  show ?thesis
  proof (cases "n < 0")
    case True
    with r obtain ls2 where d: "listener_decref j (ls1(j := x)) = Some ls2" "r = None" "ls' = ls2" by (auto simp: bind_eq_Some_conv)
    with listener_decref_refs[OF d(1) wf] i x show ?thesis by auto
  next
    case False
    with r obtain y where "ls' = ls1(j := y)" "r = Some j" "ln_refcnt y = ln_refcnt x" "ln_open y = ln_open x" "ln_sockaddr y = ln_sockaddr x"
      by (auto split: if_splits)
    with i x assms(2) show ?thesis by (auto simp: listeners_wf_def)
  qed
qed

lemma open_listener_refs:
  assumes "open_listener env i b addr ls = Some (js, ls')" "listeners_wf ls" "ln_refcnt (ls (ve_fresh_listener env i)) = 0"
  shows "listeners_wf ls' \<and> (\<forall>j. ln_refcnt (ls' j) = ln_refcnt (ls j) + int (count_list js j)) \<and>
    (\<forall>j. j \<noteq> ve_fresh_listener env i \<longrightarrow> ls' j = ls j) \<and> (\<forall>j \<in> set js. ln_sockaddr (ls' j) = addr)"
proof -
  from assms(1) obtain new where n: "listener_new env b addr ls = Some new"
    and r: "(js, ls') = (case new of None \<Rightarrow> ([], ls) | Some x \<Rightarrow> ([ve_fresh_listener env i], ls(ve_fresh_listener env i := x)))"
    by (auto simp: open_listener_def bind_eq_Some_conv)
  have "ln_refcnt x = 1 \<and> ln_open x \<and> ln_sockaddr x = addr" if "new = Some x" for x
    using n that by (auto simp: listener_new_def Let_def refcnt_init_def bind_eq_Some_conv dest: setup_tls_keeps split: if_splits)
  with r assms(2,3) show ?thesis by (auto simp: listeners_wf_def split: option.splits)
qed

text \<open>The numbers that new listeners get are not in use.\<close>

definition fresh_from :: "caster_env \<Rightarrow> nat \<Rightarrow> listeners \<Rightarrow> bool" where
  "fresh_from env i ls \<longleftrightarrow> inj (ve_fresh_listener env) \<and> (\<forall>n \<ge> i. ln_refcnt (ls (ve_fresh_listener env n)) = 0)"

text \<open>The address that an entry of the configuration asks for.\<close>

definition bind_addr :: "caster_env \<Rightarrow> config_bind \<Rightarrow> sock option" where
  "bind_addr env b = map_option (with_port (bd_port b)) (ip_convert (ve_pton6 env) (ve_pton4 env) (bd_ip b))"

lemma find_listener_Some: "find_listener addr ls js = Some j \<Longrightarrow> j \<in> set js \<and> ip_cmp addr (ln_sockaddr (ls j)) = 0"
  by (induction js) (auto split: if_splits)

lemma reload_bind_refs:
  assumes "reload_bind env old i b ls = Some (js, ls')" "listeners_wf ls" "fresh_from env i ls"
  shows "listeners_wf ls' \<and> fresh_from env (Suc i) ls' \<and> (\<forall>j. ln_refcnt (ls' j) = ln_refcnt (ls j) + int (count_list js j)) \<and>
    (\<forall>j. 0 < ln_refcnt (ls j) \<longrightarrow> ln_sockaddr (ls' j) = ln_sockaddr (ls j)) \<and>
    (\<forall>j \<in> set js. \<exists>addr. bind_addr env b = Some addr \<and> (ln_sockaddr (ls' j) = addr \<or> ip_cmp addr (ln_sockaddr (ls' j)) = 0))"
proof (cases "ip_convert (ve_pton6 env) (ve_pton4 env) (bd_ip b)")
  case None
  with assms show ?thesis by (simp add: reload_bind_def fresh_from_def)
next
  case (Some s)
  let ?addr = "with_port (bd_port b) s" let ?f = "ve_fresh_listener env"
  have fr: "ln_refcnt (ls (?f i)) = 0" "inj ?f" "\<And>n. i \<le> n \<Longrightarrow> ln_refcnt (ls (?f n)) = 0" using assms(3) by (auto simp: fresh_from_def)
  have ba: "bind_addr env b = Some ?addr" using Some by (simp add: bind_addr_def)
  have new: ?thesis if o: "open_listener env i b ?addr ls1 = Some (js, ls')" and w: "listeners_wf ls1"
    and k: "\<forall>j. ln_refcnt (ls1 j) = ln_refcnt (ls j)" "\<forall>j. ln_sockaddr (ls1 j) = ln_sockaddr (ls j)" for ls1
  proof -
    have "ln_refcnt (ls1 (?f i)) = 0" using k fr by simp
    note o1 = open_listener_refs[OF o w this]
    have "ls' (?f n) = ls1 (?f n)" if "Suc i \<le> n" for n using o1 that fr(2) by (metis injD not_less_eq_eq order_refl)
    then have "fresh_from env (Suc i) ls'" using fr k by (simp add: fresh_from_def)
    moreover have "ln_sockaddr (ls' j) = ln_sockaddr (ls j)" if "0 < ln_refcnt (ls j)" for j
      using o1 k fr(1) that by (metis less_irrefl)
    ultimately show ?thesis using o1 k ba by auto
  qed
  show ?thesis
  proof (cases "find_listener ?addr ls old")
    case None
    with assms(1) Some have "open_listener env i b ?addr ls = Some (js, ls')" by (simp add: reload_bind_def)
    then show ?thesis using assms(2) by (intro new) auto
  next
    case (Some j)
    with assms(1) \<open>ip_convert _ _ _ = _\<close> obtain r ls1 where rc: "recycle_listener env b j ls = Some (r, ls1)"
      and e: "(case r of None \<Rightarrow> open_listener env i b ?addr ls1 | Some j \<Rightarrow> Some ([j], ls1)) = Some (js, ls')"
      by (auto simp: reload_bind_def bind_eq_Some_conv)
    note rr = recycle_listener_refs[OF rc assms(2)]
    show ?thesis
    proof (cases r)
      case None
      with e rr show ?thesis by (intro new[of ls1]) auto
    next
      case (Some j')
      with e rr have j: "j' = j" "js = [j]" "ls' = ls1" by auto
      have "fresh_from env (Suc i) ls1" using fr rr Some j by (auto simp: fresh_from_def)
      with j rr Some find_listener_Some[OF \<open>find_listener _ _ _ = _\<close>] ba show ?thesis by auto
    qed
  qed
qed

lemma reload_binds_refs:
  assumes "reload_binds env old i bs ls = Some (js, ls')" "listeners_wf ls" "fresh_from env i ls"
  shows "listeners_wf ls' \<and> (\<forall>j. ln_refcnt (ls' j) = ln_refcnt (ls j) + int (count_list js j)) \<and>
    (\<forall>j. 0 < ln_refcnt (ls j) \<longrightarrow> ln_sockaddr (ls' j) = ln_sockaddr (ls j)) \<and>
    (\<forall>j \<in> set js. \<exists>b \<in> set bs. \<exists>addr. bind_addr env b = Some addr \<and> (ln_sockaddr (ls' j) = addr \<or> ip_cmp addr (ln_sockaddr (ls' j)) = 0))"
  using assms
proof (induction bs arbitrary: i ls js)
  case (Cons b bs)
  then obtain js1 ls1 js2 where 1: "reload_bind env old i b ls = Some (js1, ls1)" "reload_binds env old (i + 1) bs ls1 = Some (js2, ls')" "js = js1 @ js2"
    by (auto simp: bind_eq_Some_conv)
  note b = reload_bind_refs[OF 1(1) Cons.prems(2,3)]
  from b have "listeners_wf ls1" "fresh_from env (i + 1) ls1" by simp_all
  note ih = Cons.IH[OF 1(2) this]
  have p: "0 < ln_refcnt (ls1 j)" if "j \<in> set js1" for j
    using b that Cons.prems(2) by (auto simp: listeners_wf_def count_list_0_iff)
       (metis add_nonneg_pos count_list_0_iff gr0I of_nat_0_less_iff)
  have "\<exists>b' \<in> set (b # bs). \<exists>addr. bind_addr env b' = Some addr \<and> (ln_sockaddr (ls' j) = addr \<or> ip_cmp addr (ln_sockaddr (ls' j)) = 0)"
    if "j \<in> set js" for j
  proof (cases "j \<in> set js1")
    case True
    then have "ln_sockaddr (ls' j) = ln_sockaddr (ls1 j)" using ih p by blast
    with b True show ?thesis by auto
  next
    case False
    with that 1(3) ih show ?thesis by auto
  qed
  moreover have "ln_sockaddr (ls' j) = ln_sockaddr (ls j)" if "0 < ln_refcnt (ls j)" for j
    using that b ih by (smt (verit) of_nat_0_le_iff)
  ultimately show ?case using 1(3) b ih by (simp add: count_list_append)
qed simp

text \<open>A listener of the old configuration whose address is in the new one, without TLS, is used again.\<close>

lemma find_listener_cong:
  "\<forall>j \<in> set js. ln_sockaddr (ls' j) = ln_sockaddr (ls j) \<Longrightarrow> find_listener addr ls' js = find_listener addr ls js"
  by (induction js) auto

lemma reload_bind_recycles:
  assumes "reload_bind env old i b ls = Some (js, ls')" "bind_addr env b = Some addr" "\<not> bd_tls b" "find_listener addr ls old = Some j"
  shows "js = [j]"
  using assms by (auto simp: reload_bind_def bind_addr_def recycle_listener_def Let_def bind_eq_Some_conv split: if_splits)

lemma reload_binds_recycles:
  assumes "reload_binds env old i bs ls = Some (js, ls')" "listeners_wf ls" "fresh_from env i ls" "\<forall>j \<in> set old. 0 < ln_refcnt (ls j)"
    and b: "b \<in> set bs" "bind_addr env b = Some addr" "\<not> bd_tls b" "find_listener addr ls old = Some j"
  shows "j \<in> set js"
  using assms
proof (induction bs arbitrary: i ls js)
  case (Cons b' bs)
  then obtain js1 ls1 js2 where 1: "reload_bind env old i b' ls = Some (js1, ls1)" "reload_binds env old (i + 1) bs ls1 = Some (js2, ls')" "js = js1 @ js2"
    by (auto simp: bind_eq_Some_conv)
  show ?case
  proof (cases "b = b'")
    case True
    with reload_bind_recycles[OF 1(1)] Cons.prems 1(3) show ?thesis by simp
  next
    case False
    note k = reload_bind_refs[OF 1(1) Cons.prems(2,3)]
    have "\<forall>j \<in> set old. 0 < ln_refcnt (ls1 j)" using k Cons.prems(4) by (simp add: add_pos_nonneg)
    moreover have "find_listener addr ls1 old = Some j" using Cons.prems(4,8) k find_listener_cong[of old ls1 ls addr] by simp
    ultimately have "j \<in> set js2" using Cons.IH[OF 1(2)] k Cons.prems False by simp
    with 1(3) show ?thesis by simp
  qed
qed simp

subsection \<open>The other steps of a reload\<close>

definition same_listeners :: "caster_state \<Rightarrow> caster_state \<Rightarrow> bool" where
  "same_listeners a b \<longleftrightarrow> cr_listeners b = cr_listeners a \<and> (\<forall>i. dy_listeners (cr_dyn b i) = dy_listeners (cr_dyn a i)) \<and>
     cr_configs b = cr_configs a \<and> cr_config b = cr_config a"

lemma same_listeners_refl [simp]: "same_listeners a a"
  by (simp add: same_listeners_def)

lemma same_listeners_trans [trans]: "same_listeners a b \<Longrightarrow> same_listeners b c \<Longrightarrow> same_listeners a c"
  by (simp add: same_listeners_def)

lemma same_listeners_upd [simp]:
  "same_listeners a (b\<lparr>cr_net := n\<rparr>) = same_listeners a b" "same_listeners a (b\<lparr>cr_fetch_refcnt := f\<rparr>) = same_listeners a b"
  "same_listeners a (b\<lparr>cr_graylog_log_level := g\<rparr>) = same_listeners a b" "same_listeners a (b\<lparr>cr_flog := l, cr_alog := m\<rparr>) = same_listeners a b"
  "dy_listeners d = dy_listeners (cr_dyn b i) \<Longrightarrow> same_listeners a (set_dyn i d b) = same_listeners a b"
  by (auto simp: same_listeners_def set_dyn_def)

lemma reopen_logs_same: "caster_reopen_logs env k a = Some (r, b) \<Longrightarrow> same_listeners a b"
  by (auto simp: caster_reopen_logs_def Let_def bind_eq_Some_conv case_prod_beta)

lemma reload_sourcetable_same: "reload_sourcetable env k a = Some (r, b) \<Longrightarrow> same_listeners a b"
  by (auto simp: reload_sourcetable_def Let_def bind_eq_Some_conv case_prod_beta)

lemma reload_graylog_same: "same_listeners a (caster_reload_graylog env k a)"
  by (auto simp: caster_reload_graylog_def split: prod.splits)

lemma reload_syncers_same: "caster_reload_syncers env k old a = Some (r, b) \<Longrightarrow> same_listeners a b"
  by (auto simp: caster_reload_syncers_def old_dyn_def Let_def bind_eq_Some_conv split: option.splits if_splits)

lemma fetcher_incref_same: "fetcher_incref p a = Some b \<Longrightarrow> same_listeners a b"
  by (auto simp: fetcher_incref_def bind_eq_Some_conv)

lemma make_fetcher_same: "same_listeners a (snd (make_fetcher env t i p a))"
  by (simp add: make_fetcher_def Let_def same_listeners_def)

lemma reload_proxies_same: "reload_proxies env t old i ps a = Some (fs, b) \<Longrightarrow> same_listeners a b"
proof (induction ps arbitrary: i a fs)
  case (Cons p ps)
  then obtain found f c fs' where 1: "(case found of Some f \<Rightarrow> map_option (Pair (Some f)) (fetcher_incref f a) | None \<Rightarrow> Some (make_fetcher env t i p a)) = Some (f, c)"
    "reload_proxies env t old (i + 1) ps c = Some (fs', b)" by (auto simp: bind_eq_Some_conv)
  have "same_listeners a c" using 1(1) make_fetcher_same[of a env t i p] by (auto dest: fetcher_incref_same split: option.splits)
  also have "same_listeners c b" by (rule Cons.IH[OF 1(2)])
  finally show ?case .
qed simp

lemma reload_fetchers_same: "caster_reload_fetchers env k old a = Some b \<Longrightarrow> same_listeners a b"
  by (auto simp: caster_reload_fetchers_def Let_def bind_eq_Some_conv dest!: reload_proxies_same)

lemma decref_fetchers_present: "decref_fetchers env fs a = decref_fetchers env (map Some (List.map_filter id fs)) a"
proof (induction fs arbitrary: a)
  case (Cons f fs)
  have "decref_fetchers env fs = decref_fetchers env (map Some (List.map_filter id fs))" using Cons.IH by blast
  then show ?case by (cases f) (simp_all add: List.map_filter_simps id_def)
qed (simp add: List.map_filter_simps)

interpretation fetchers: refcounted cr_fetch_refcnt "\<lambda>_. True" "\<lambda>a. (cr_listeners a, cr_dyn a, cr_configs a, cr_config a)" fetcher_incref "fetcher_decref env"
  "\<lambda>fs. decref_fetchers env (map Some fs)" for env
  by unfold_locales (auto simp: fetcher_incref_def fetcher_decref_def refcnt_incref_def refcnt_decref_def Let_def bind_eq_Some_conv split: if_splits)

lemma decref_fetchers_same:
  assumes "decref_fetchers env fs a = Some b"
  shows "same_listeners a b"
  using fetchers.release_counts[of env "List.map_filter id fs" a b] assms decref_fetchers_present[of env fs a] by (simp add: same_listeners_def)

lemma start_same: "caster_start env k a = Some (r, b) \<Longrightarrow> same_listeners a b"
  by (auto simp: caster_start_def caster_start_syncers_def Let_def bind_eq_Some_conv split: if_splits)

subsection \<open>References\<close>

definition held_refs :: "nat list \<Rightarrow> caster_state \<Rightarrow> nat \<Rightarrow> nat" where
  "held_refs ks a j = (\<Sum>k \<leftarrow> ks. count_list (dy_listeners (cr_dyn a k)) j)"

text \<open>\<open>ks\<close> are the configurations that are still referenced.\<close>

definition caster_inv :: "nat list \<Rightarrow> caster_state \<Rightarrow> bool" where
  "caster_inv ks a \<longleftrightarrow> distinct ks \<and> listeners_wf (cr_listeners a) \<and> (\<forall>j. ln_refcnt (cr_listeners a j) = int (held_refs ks a j)) \<and>
     (\<forall>k. cr_config a = Some k \<longrightarrow> k \<in> set ks) \<and> (\<forall>k \<in> set ks. 0 < c_refcnt (cr_configs a k))"

lemma held_refs_cong: "(\<And>k. k \<in> set ks \<Longrightarrow> dy_listeners (cr_dyn b k) = dy_listeners (cr_dyn a k)) \<Longrightarrow> held_refs ks b j = held_refs ks a j"
  unfolding held_refs_def by (intro arg_cong[of _ _ sum_list] map_cong) auto

lemma same_listeners_inv: "same_listeners a b \<Longrightarrow> caster_inv ks b = caster_inv ks a"
  using held_refs_cong[of ks b a] by (auto simp: same_listeners_def caster_inv_def)

lemma held_refs_remove1: "distinct ks \<Longrightarrow> k \<in> set ks \<Longrightarrow> held_refs ks a j = held_refs (remove1 k ks) a j + count_list (dy_listeners (cr_dyn a k)) j"
  unfolding held_refs_def using sum_list_map_remove1[of k ks "\<lambda>k. count_list (dy_listeners (cr_dyn a k)) j"] by simp

lemma dynconfig_free_refs:
  assumes "dynconfig_free env k a = Some b" "listeners_wf (cr_listeners a)"
  shows "listeners_wf (cr_listeners b) \<and> (\<forall>j. ln_refcnt (cr_listeners b j) = ln_refcnt (cr_listeners a j) - int (count_list (dy_listeners (cr_dyn a k)) j)) \<and>
    (\<forall>i. i \<noteq> k \<longrightarrow> dy_listeners (cr_dyn b i) = dy_listeners (cr_dyn a i)) \<and> cr_configs b = cr_configs a \<and> cr_config b = cr_config a \<and>
    (\<forall>j. ln_sockaddr (cr_listeners b j) = ln_sockaddr (cr_listeners a j))"
proof -
  from assms(1) obtain ls c where ls: "decref_listeners (dy_listeners (cr_dyn a k)) (cr_listeners a) = Some ls"
    and c: "dynconfig_free_fetchers env k (set_dyn k ((cr_dyn a k)\<lparr>dy_listeners := []\<rparr>) (a\<lparr>cr_listeners := ls\<rparr>)) = Some c"
    and b: "(do { d \<leftarrow> dynconfig_free_syncers env k (dynconfig_free_rtcm_filters k c); dynconfig_free_graylog env k d }) = Some b"
    by (auto simp: dynconfig_free_def dynconfig_free_listeners_def Let_def bind_eq_Some_conv)
  let ?a = "set_dyn k ((cr_dyn a k)\<lparr>dy_listeners := []\<rparr>) (a\<lparr>cr_listeners := ls\<rparr>)"
  have "same_listeners ?a c" using c by (auto simp: dynconfig_free_fetchers_def bind_eq_Some_conv dest!: decref_fetchers_same)
  also have "same_listeners c b" using b
    by (auto simp: dynconfig_free_syncers_def dynconfig_free_rtcm_filters_def dynconfig_free_graylog_def bind_eq_Some_conv split: if_splits)
  finally have "same_listeners ?a b" .
  moreover have "ln_sockaddr (ls j) = ln_sockaddr (cr_listeners a j)" for j using listeners.release_counts[OF ls assms(2)] by metis
  ultimately show ?thesis using listeners.release_counts[OF ls assms(2)] by (simp add: same_listeners_def set_dyn_def)
qed

lemma config_decref_inv:
  assumes "config_decref env k a = Some b" "caster_inv ks a" "k \<in> set ks" "cr_config a \<noteq> Some k"
  shows "caster_inv (if c_refcnt (cr_configs a k) = 1 then remove1 k ks else ks) b \<and> (\<forall>i. i \<noteq> k \<longrightarrow> dy_listeners (cr_dyn b i) = dy_listeners (cr_dyn a i)) \<and>
    (\<forall>i. i \<noteq> k \<longrightarrow> cr_configs b i = cr_configs a i) \<and> cr_config b = cr_config a \<and> (\<forall>j. ln_sockaddr (cr_listeners b j) = ln_sockaddr (cr_listeners a j))"
proof -
  let ?n = "c_refcnt (cr_configs a k)"
  let ?a = "a\<lparr>cr_configs := (cr_configs a)(k := (cr_configs a k)\<lparr>c_refcnt := ?n - 1\<rparr>)\<rparr>"
  from assms(1) have n: "0 < ?n" and e: "(if ?n = 1 then dynconfig_free env k ?a else Some ?a) = Some b"
    by (auto simp: config_decref_def refcnt_decref_def Let_def split: if_splits)
  show ?thesis
  proof (cases "?n = 1")
    case True
    with e have d: "dynconfig_free env k ?a = Some b" by simp
    have "listeners_wf (cr_listeners ?a)" using assms(2) by (simp add: caster_inv_def)
    note r = dynconfig_free_refs[OF d this]
    have ds: "distinct ks" using assms(2) by (simp add: caster_inv_def)
    have h: "held_refs (remove1 k ks) b j = held_refs (remove1 k ks) a j" for j
      using r ds by (intro held_refs_cong) (auto simp: set_remove1_eq)
    have "ln_refcnt (cr_listeners b j) = int (held_refs (remove1 k ks) b j)" for j
      using r assms(2) held_refs_remove1[OF ds assms(3), of a j] h by (simp add: caster_inv_def)
    with r True assms ds show ?thesis by (auto simp: caster_inv_def set_remove1_eq)
  next
    case False
    with e have b: "b = ?a" by simp
    have "held_refs ks b j = held_refs ks a j" for j unfolding b by (intro held_refs_cong) simp
    with False n assms(2) show ?thesis unfolding b by (auto simp: caster_inv_def)
  qed
qed

lemma ip_cmp_bind_addr: "bind_addr env b = Some a \<Longrightarrow> ip_cmp a a = 0"
  by (auto simp: bind_addr_def ip_convert_def with_port_def ip_cmp_def memcmp_def Let_def split: option.splits)

lemma config_parse_refcnt: "config_parse p6 p4 loaded gen = Some (Some c) \<Longrightarrow> c_refcnt c = 1"
proof (cases loaded)
  case None
  then show "config_parse p6 p4 loaded gen = Some (Some c) \<Longrightarrow> c_refcnt c = 1" by (simp add: config_parse_def)
next
  case (Some raw)
  then show "config_parse p6 p4 loaded gen = Some (Some c) \<Longrightarrow> c_refcnt c = 1"
    by (auto simp: config_parse_eq finish_config_def list_defaults_def top_defaults_def refcnt_init_def split: option.splits if_splits)
qed

lemma reload_accounts_keeps: "reload_accounts env c = Some (r, c') \<Longrightarrow> c_refcnt c' = c_refcnt c \<and> c_bind c' = c_bind c"
  by (auto simp: reload_accounts_def bind_eq_Some_conv)

lemma reload_blocklist_keeps: "caster_reload_blocklist env c = Some (r, c') \<Longrightarrow> c_refcnt c' = c_refcnt c \<and> c_bind c' = c_bind c"
  by (auto simp: caster_reload_blocklist_def bind_eq_Some_conv split: option.splits if_splits)

lemma reload_rtcm_filters_keeps:
  assumes "caster_reload_rtcm_filters c d = Some (r, d')"
  shows "dy_listeners d' = dy_listeners d"
proof (cases "\<exists>f. c_rtcm_filter c = [f]")
  case True
  then obtain f where f: "c_rtcm_filter c = [f]" by blast
  with assms obtain h0 flt where "hash_table_new True 5 = Some h0" and r: "(case flt of
            None \<Rightarrow> Some (- 1, d\<lparr>dy_rtcm_filter_dict := Some h0\<rparr>)
          | Some flt \<Rightarrow>
              (case rtcm_filter_dict_parse (rf_apply f) of
                 None \<Rightarrow> Some (- 1, d\<lparr>dy_rtcm_filter_dict := Some h0\<rparr>)
               | Some h \<Rightarrow> do {
                   h1 \<leftarrow> hash_table_update (\<lambda>_. True) h0 h;
                   Some (0, (d\<lparr>dy_rtcm_filter_dict := Some h0\<rparr>)\<lparr>dy_rtcm_filter_dict := Some h1, dy_rtcm_filter := Some flt\<rparr>)
                 })) = Some (r, d')"
    by (auto simp: caster_reload_rtcm_filters_def Let_def bind_eq_Some_conv)
  from r show ?thesis by (cases flt; cases "rtcm_filter_dict_parse (rf_apply f)") (auto simp: bind_eq_Some_conv)
next
  case False
  with assms show ?thesis by (auto simp: caster_reload_rtcm_filters_def split: list.splits)
qed

text \<open>
  A reload as the code composes it: the steps before the listeners install the configuration and leave the listeners
  alone, then come the listeners, the release of the old configuration, and the start.
\<close>

definition ready_for_listeners :: "nat \<Rightarrow> caster_state \<Rightarrow> caster_state \<Rightarrow> bool" where
  "ready_for_listeners k a c \<longleftrightarrow> cr_listeners c = cr_listeners a \<and> (\<forall>i. i \<noteq> k \<longrightarrow> dy_listeners (cr_dyn c i) = dy_listeners (cr_dyn a i)) \<and>
     dy_listeners (cr_dyn c k) = [] \<and> (\<forall>i. i \<noteq> k \<longrightarrow> cr_configs c i = cr_configs a i) \<and> c_refcnt (cr_configs c k) = 1 \<and> cr_config c = Some k"

text \<open>The steps of a load whose configuration is accepted.\<close>

definition loading :: "nat \<Rightarrow> config \<Rightarrow> caster_state \<Rightarrow> caster_state" where
  "loading k c a = set_dyn k dynconfig_new (set_config k c (a\<lparr>cr_config_gen := cr_config_gen a + 1, cr_graylog_log_level := - 1\<rparr>))"

lemma caster_load_accepted:
  assumes "caster_load env loaded k restart a = Some (r, b)"
    "config_parse (ve_pton6 env) (ve_pton4 env) loaded (cr_config_gen a) = Some (Some c0)"
  obtains r1 a2 r2 a3 r3 c1 r4 c2 r5 d r6 a5 a6 r7 a7 a8 r8 where
    "caster_reopen_logs env k (loading k c0 a) = Some (r1, a2)" "reload_sourcetable env k a2 = Some (r2, a3)"
    "reload_accounts env (cr_configs a3 k) = Some (r3, c1)" "caster_reload_blocklist env c1 = Some (r4, c2)"
    "caster_reload_rtcm_filters c2 (cr_dyn (set_config k c2 a3) k) = Some (r5, d)"
    "caster_reload_syncers env k (cr_config (loading k c0 a)) (caster_reload_graylog env k (set_dyn k d (set_config k c2 a3))) = Some (r6, a5)"
    "caster_reload_fetchers env k (cr_config (loading k c0 a)) a5 = Some a6"
    "caster_reload_listeners env k (cr_config (loading k c0 a)) (a6\<lparr>cr_config := Some k, cr_backlog_evbuffer := c_backlog_evbuffer (cr_configs a6 k)\<rparr>) = Some (r7, a7)"
    "(case cr_config (loading k c0 a) of None \<Rightarrow> Some a7 | Some o' \<Rightarrow> config_decref env o' a7) = Some a8"
    "(if restart then caster_start env k a8 else Some (0, a8)) = Some (r8, b)"
proof -
  from assms obtain r1 a2 r2 a3 r3 c1 r4 c2 r5 d r6 a5 a6 r7 a7 a8 r8 where
    s: "caster_reopen_logs env k (loading k c0 a) = Some (r1, a2)" "reload_sourcetable env k a2 = Some (r2, a3)"
      "reload_accounts env (cr_configs a3 k) = Some (r3, c1)" "caster_reload_blocklist env c1 = Some (r4, c2)"
      "caster_reload_rtcm_filters c2 (cr_dyn (set_config k c2 a3) k) = Some (r5, d)"
      "caster_reload_syncers env k (cr_config (loading k c0 a)) (caster_reload_graylog env k (set_dyn k d (set_config k c2 a3))) = Some (r6, a5)"
      "caster_reload_fetchers env k (cr_config (loading k c0 a)) a5 = Some a6"
      "caster_reload_listeners env k (cr_config (loading k c0 a)) (a6\<lparr>cr_config := Some k, cr_backlog_evbuffer := c_backlog_evbuffer (cr_configs a6 k)\<rparr>) = Some (r7, a7)"
      "(case cr_config (loading k c0 a) of None \<Rightarrow> Some a7 | Some o' \<Rightarrow> config_decref env o' a7) = Some a8"
      "(if restart then caster_start env k a8 else Some (0, a8)) = Some (r8, b)"
    unfolding loading_def caster_load_def caster_load_config_def Let_def by (auto simp: bind_eq_Some_conv)
  show thesis by (rule that[OF s])
qed

lemma caster_load_steps:
  assumes "caster_load env loaded k restart a = Some (r, b)"
  shows "(\<exists>g. r = - 1 \<and> b = a\<lparr>cr_config_gen := g, cr_graylog_log_level := - 1\<rparr>) \<or>
    (\<exists>c d e r7. ready_for_listeners k a c \<and> caster_reload_listeners env k (cr_config a) c = Some (r7, d) \<and>
       (case cr_config a of None \<Rightarrow> Some d | Some o' \<Rightarrow> config_decref env o' d) = Some e \<and> same_listeners e b)"
proof -
  from assms obtain new where new: "config_parse (ve_pton6 env) (ve_pton4 env) loaded (cr_config_gen a) = Some new"
    by (auto simp: caster_load_def caster_load_config_def bind_eq_Some_conv)
  show ?thesis
  proof (cases new)
    case None
    with assms new show ?thesis by (auto simp: caster_load_def caster_load_config_def)
  next
    case (Some c0)
    define a1 where "a1 = loading k c0 a"
    from new Some have "config_parse (ve_pton6 env) (ve_pton4 env) loaded (cr_config_gen a) = Some (Some c0)" by simp
    from caster_load_accepted[OF assms this] obtain r1 a2 r2 a3 r3 c1 r4 c2 r5 d r6 a5 a6 r7 a7 a8 r8 where
      1: "caster_reopen_logs env k a1 = Some (r1, a2)" and 2: "reload_sourcetable env k a2 = Some (r2, a3)"
      and 3: "reload_accounts env (cr_configs a3 k) = Some (r3, c1)" and 4: "caster_reload_blocklist env c1 = Some (r4, c2)"
      and 5: "caster_reload_rtcm_filters c2 (cr_dyn (set_config k c2 a3) k) = Some (r5, d)"
      and 6: "caster_reload_syncers env k (cr_config a1) (caster_reload_graylog env k (set_dyn k d (set_config k c2 a3))) = Some (r6, a5)"
      and 7: "caster_reload_fetchers env k (cr_config a1) a5 = Some a6"
      and 8: "caster_reload_listeners env k (cr_config a1) (a6\<lparr>cr_config := Some k, cr_backlog_evbuffer := c_backlog_evbuffer (cr_configs a6 k)\<rparr>) = Some (r7, a7)"
      and 9: "(case cr_config a1 of None \<Rightarrow> Some a7 | Some o' \<Rightarrow> config_decref env o' a7) = Some a8"
      and 10: "(if restart then caster_start env k a8 else Some (0, a8)) = Some (r8, b)"
      unfolding a1_def by blast
    note a1_def = a1_def[unfolded loading_def]
    have s3: "same_listeners a1 a3" using reopen_logs_same[OF 1] reload_sourcetable_same[OF 2] by (rule same_listeners_trans)
    let ?a4 = "set_dyn k d (set_config k c2 a3)"
    have d: "dy_listeners d = dy_listeners (cr_dyn a3 k)" using reload_rtcm_filters_keeps[OF 5] by (simp add: set_config_def)
    have "same_listeners ?a4 (caster_reload_graylog env k ?a4)" by (rule reload_graylog_same)
    also have "same_listeners \<dots> a5" by (rule reload_syncers_same[OF 6])
    also have "same_listeners a5 a6" by (rule reload_fetchers_same[OF 7])
    finally have s6: "same_listeners ?a4 a6" .
    have c: "cr_config a1 = cr_config a" by (simp add: a1_def set_dyn_def set_config_def)
    have rc: "c_refcnt c2 = 1" using reload_blocklist_keeps[OF 4] reload_accounts_keeps[OF 3] s3 config_parse_refcnt[of _ _ loaded _ c0] new Some
      by (simp add: same_listeners_def a1_def set_dyn_def set_config_def)
    let ?c = "a6\<lparr>cr_config := Some k, cr_backlog_evbuffer := c_backlog_evbuffer (cr_configs a6 k)\<rparr>"
    have "ready_for_listeners k a ?c"
      using s3 s6 d rc by (simp add: ready_for_listeners_def same_listeners_def a1_def set_dyn_def set_config_def dynconfig_new_def)
    moreover have "same_listeners a8 b" using 10 by (auto dest: start_same split: if_splits)
    ultimately show ?thesis using 8 9 c by auto
  qed
qed

lemma ready_inv: "ready_for_listeners k a c \<Longrightarrow> caster_inv ks a \<Longrightarrow> k \<notin> set ks \<Longrightarrow> caster_inv (k # ks) c"
proof -
  assume c: "ready_for_listeners k a c" and a: "caster_inv ks a" and k: "k \<notin> set ks"
  have ne: "i \<noteq> k" if "i \<in> set ks" for i using that k by blast
  have "held_refs ks c j = held_refs ks a j" for j using c ne by (intro held_refs_cong) (simp add: ready_for_listeners_def)
  then have "held_refs (k # ks) c j = held_refs ks a j" for j using c by (simp add: held_refs_def ready_for_listeners_def)
  with c a k ne show ?thesis by (simp add: caster_inv_def ready_for_listeners_def)
qed

lemma reload_listeners_inv:
  assumes "caster_reload_listeners env k old c = Some (r, d)" "caster_inv (k # ks) c" "dy_listeners (cr_dyn c k) = []" "fresh_from env 0 (cr_listeners c)"
  shows "caster_inv (k # ks) d \<and> (\<forall>i. i \<noteq> k \<longrightarrow> dy_listeners (cr_dyn d i) = dy_listeners (cr_dyn c i)) \<and> cr_configs d = cr_configs c \<and> cr_config d = cr_config c \<and>
    (\<forall>j \<in> set (dy_listeners (cr_dyn d k)). \<exists>b \<in> set (c_bind (cr_configs d k)). \<exists>addr. bind_addr env b = Some addr \<and> ip_cmp addr (ln_sockaddr (cr_listeners d j)) = 0)"
proof (cases "c_bind (cr_configs c k) = []")
  case True
  with assms show ?thesis by (simp add: caster_reload_listeners_def)
next
  case False
  let ?old = "case old_dyn old c of None \<Rightarrow> [] | Some d \<Rightarrow> dy_listeners d"
  from assms(1) False obtain js ls where js: "reload_binds env ?old 0 (c_bind (cr_configs c k)) (cr_listeners c) = Some (js, ls)"
    and d: "d = (if js = [] then c\<lparr>cr_listeners := ls\<rparr> else set_dyn k ((cr_dyn c k)\<lparr>dy_listeners := js\<rparr>) (c\<lparr>cr_listeners := ls\<rparr>))"
    by (auto simp: caster_reload_listeners_def Let_def bind_eq_Some_conv split: if_splits)
  have wf: "listeners_wf (cr_listeners c)" "k \<notin> set ks" using assms(2) by (simp_all add: caster_inv_def)
  note r = reload_binds_refs[OF js wf(1) assms(4)]
  have k: "dy_listeners (cr_dyn d k) = js" "cr_listeners d = ls" "cr_configs d = cr_configs c" "cr_config d = cr_config c"
    "\<forall>i. i \<noteq> k \<longrightarrow> dy_listeners (cr_dyn d i) = dy_listeners (cr_dyn c i)"
    using assms(3) by (auto simp: d set_dyn_def)
  have "held_refs ks d j = held_refs ks c j" for j using k(5) wf(2) by (intro held_refs_cong) metis
  then have "caster_inv (k # ks) d" using r k assms(2,3) by (simp add: caster_inv_def held_refs_def)
  with r k ip_cmp_bind_addr show ?thesis by metis
qed

lemma held_pos: "k \<in> set ks \<Longrightarrow> j \<in> set (dy_listeners (cr_dyn a k)) \<Longrightarrow> 0 < held_refs ks a j"
  unfolding held_refs_def by (induction ks) (auto simp: count_list_0_iff intro: gr0I)

lemma inv_open: "caster_inv ks a \<Longrightarrow> k \<in> set ks \<Longrightarrow> j \<in> set (dy_listeners (cr_dyn a k)) \<Longrightarrow> 0 < ln_refcnt (cr_listeners a j) \<and> ln_open (cr_listeners a j)"
  using held_pos[of k ks j a] by (auto simp: caster_inv_def listeners_wf_def)

lemma reload_listeners_recycles:
  assumes "caster_reload_listeners env k (Some o') c = Some (r, d)" "caster_inv ks c" "o' \<in> set ks" "fresh_from env 0 (cr_listeners c)"
    and b: "b \<in> set (c_bind (cr_configs c k))" "bind_addr env b = Some addr" "\<not> bd_tls b" "find_listener addr (cr_listeners c) (dy_listeners (cr_dyn c o')) = Some j"
  shows "j \<in> set (dy_listeners (cr_dyn d k))"
proof -
  from assms(1) b(1) obtain js ls where js: "reload_binds env (dy_listeners (cr_dyn c o')) 0 (c_bind (cr_configs c k)) (cr_listeners c) = Some (js, ls)"
    and d: "js \<noteq> [] \<Longrightarrow> dy_listeners (cr_dyn d k) = js"
    by (auto simp: caster_reload_listeners_def old_dyn_def Let_def set_dyn_def bind_eq_Some_conv split: if_splits)
  have "\<forall>j \<in> set (dy_listeners (cr_dyn c o')). 0 < ln_refcnt (cr_listeners c j)" using inv_open[OF assms(2,3)] by blast
  moreover have "listeners_wf (cr_listeners c)" using assms(2) by (simp add: caster_inv_def)
  ultimately have "j \<in> set js" using reload_binds_recycles[OF js _ assms(4)] b by blast
  with d show ?thesis by fastforce
qed

lemma old_config_released:
  assumes "caster_inv ks a" "k \<notin> set ks" "ready_for_listeners k a c" "caster_inv (k # ks) d" "cr_configs d = cr_configs c" "cr_config d = cr_config c"
    and e: "(case cr_config a of None \<Rightarrow> Some d | Some o' \<Rightarrow> config_decref env o' d) = Some e"
  shows "caster_inv (k # (case cr_config a of None \<Rightarrow> ks | Some o' \<Rightarrow> if c_refcnt (cr_configs a o') = 1 then remove1 o' ks else ks)) e \<and>
    dy_listeners (cr_dyn e k) = dy_listeners (cr_dyn d k) \<and> cr_configs e k = cr_configs d k \<and> cr_config e = Some k \<and>
    (\<forall>j. ln_sockaddr (cr_listeners e j) = ln_sockaddr (cr_listeners d j))"
proof (cases "cr_config a")
  case None
  with assms show ?thesis by (simp add: ready_for_listeners_def)
next
  case (Some o')
  have cc: "cr_config c = Some k" using assms(3) by (simp add: ready_for_listeners_def)
  have o: "o' \<in> set (k # ks)" "cr_config d \<noteq> Some o'" "o' \<noteq> k" using Some assms(1,2,6) cc by (auto simp: caster_inv_def)
  have rc: "cr_configs d o' = cr_configs a o'" using assms(3,5) o(3) by (simp add: ready_for_listeners_def)
  from Some e have "config_decref env o' d = Some e" by simp
  from config_decref_inv[OF this assms(4) o(1,2)] o rc cc Some assms(6) show ?thesis by auto
qed

text \<open>
  C12: The listeners over a reload. If the references of the listeners are counted exactly and the listeners that are
  referenced are the open ones, this holds again after the configuration was loaded, with the new configuration in
  place of the old one or, if a session still uses that, besides it; a configuration that is rejected leaves them as
  they are. Every listener of the new configuration is open on an address it asks for, and a port of the old
  configuration that the new one has too, without TLS, is not closed in between but used again.
\<close>
theorem reload_keeps_listeners:
  assumes "caster_inv ks a" "k \<notin> set ks" "fresh_from env 0 (cr_listeners a)" "caster_load env loaded k restart a = Some (r, b)"
  shows "if cr_config b = Some k then
      caster_inv (k # (case cr_config a of None \<Rightarrow> ks | Some o' \<Rightarrow> if c_refcnt (cr_configs a o') = 1 then remove1 o' ks else ks)) b \<and>
      (\<forall>j \<in> set (dy_listeners (cr_dyn b k)). ln_open (cr_listeners b j) \<and>
        (\<exists>d \<in> set (c_bind (cr_configs b k)). \<exists>addr. bind_addr env d = Some addr \<and> ip_cmp addr (ln_sockaddr (cr_listeners b j)) = 0)) \<and>
      (\<forall>o' d addr j. cr_config a = Some o' \<and> d \<in> set (c_bind (cr_configs b k)) \<and> bind_addr env d = Some addr \<and> \<not> bd_tls d \<and>
        find_listener addr (cr_listeners a) (dy_listeners (cr_dyn a o')) = Some j \<longrightarrow> j \<in> set (dy_listeners (cr_dyn b k)))
    else r = - 1 \<and> caster_inv ks b"
proof -
  have nk: "cr_config a \<noteq> Some k" using assms(1,2) by (auto simp: caster_inv_def)
  from caster_load_steps[OF assms(4)] show ?thesis
  proof (elim disjE exE conjE)
    fix g assume "r = - 1" "b = a\<lparr>cr_config_gen := g, cr_graylog_log_level := - 1\<rparr>"
    moreover from this have "same_listeners a b" by (simp add: same_listeners_def)
    ultimately show ?thesis using same_listeners_inv[of a b ks] assms(1) nk by simp
  next
    fix c d e r7 assume c: "ready_for_listeners k a c" and d: "caster_reload_listeners env k (cr_config a) c = Some (r7, d)"
      and e: "(case cr_config a of None \<Rightarrow> Some d | Some o' \<Rightarrow> config_decref env o' d) = Some e" and b: "same_listeners e b"
    have cc: "cr_listeners c = cr_listeners a" "dy_listeners (cr_dyn c k) = []" "cr_config c = Some k" using c by (simp_all add: ready_for_listeners_def)
    note ci = ready_inv[OF c assms(1,2)]
    note di = reload_listeners_inv[OF d ci cc(2) assms(3)[folded cc(1)]]
    let ?ks = "k # (case cr_config a of None \<Rightarrow> ks | Some o' \<Rightarrow> if c_refcnt (cr_configs a o') = 1 then remove1 o' ks else ks)"
    have ei: "caster_inv ?ks e \<and> dy_listeners (cr_dyn e k) = dy_listeners (cr_dyn d k) \<and> cr_configs e k = cr_configs d k \<and> cr_config e = Some k \<and>
      (\<forall>j. ln_sockaddr (cr_listeners e j) = ln_sockaddr (cr_listeners d j))" using old_config_released[OF assms(1,2) c _ _ _ e] di by blast
    have bb: "cr_listeners b = cr_listeners e" "dy_listeners (cr_dyn b k) = dy_listeners (cr_dyn d k)" "cr_configs b k = cr_configs d k" "cr_config b = Some k"
      using b ei by (simp_all add: same_listeners_def)
    have inv: "caster_inv ?ks b" using same_listeners_inv[OF b, of ?ks] ei by simp
    have "ln_open (cr_listeners b j)" if "j \<in> set (dy_listeners (cr_dyn b k))" for j using inv_open[OF inv, of k j] that by simp
    moreover have "\<exists>d \<in> set (c_bind (cr_configs b k)). \<exists>addr. bind_addr env d = Some addr \<and> ip_cmp addr (ln_sockaddr (cr_listeners b j)) = 0"
      if "j \<in> set (dy_listeners (cr_dyn b k))" for j
    proof -
      have "\<exists>x \<in> set (c_bind (cr_configs d k)). \<exists>addr. bind_addr env x = Some addr \<and> ip_cmp addr (ln_sockaddr (cr_listeners d j)) = 0"
        using di that unfolding bb(2) by blast
      then show ?thesis unfolding bb(1,3) using ei by metis
    qed
    moreover have "j \<in> set (dy_listeners (cr_dyn b k))" if "cr_config a = Some o'" "x \<in> set (c_bind (cr_configs b k))" "bind_addr env x = Some addr" "\<not> bd_tls x"
      "find_listener addr (cr_listeners a) (dy_listeners (cr_dyn a o')) = Some j" for o' x addr j
    proof -
      have o: "o' \<in> set (k # ks)" "o' \<noteq> k" using that(1) assms(1,2) by (auto simp: caster_inv_def)
      have "dy_listeners (cr_dyn c o') = dy_listeners (cr_dyn a o')" using c o(2) by (simp add: ready_for_listeners_def)
      moreover have "cr_configs d k = cr_configs c k" using di by simp
      ultimately show ?thesis using reload_listeners_recycles[OF d[unfolded that(1)] ci o(1) assms(3)[folded cc(1)], of x addr j] that bb cc(1) by simp
    qed
    ultimately show ?thesis using inv bb(4) by simp blast
  qed
qed

text \<open>A configuration with one port, as the reader returns it, and the state of a caster that has this port open.\<close>

definition one_port :: config where
  "one_port = empty_config\<lparr>c_bind := [\<lparr>bd_ip = ''10.0.0.1'', bd_port = 2101, bd_queue_size = 2000, bd_tls = False,
     bd_tls_full_certificate_chain = None, bd_tls_private_key = None, bd_hostname = None\<rparr>]\<rparr>"

definition port_open :: "caster_state \<Rightarrow> caster_state" where
  "port_open a = a\<lparr>cr_listeners := (\<lambda>j. \<lparr>ln_sockaddr = Sock_v4 [10, 0, 0, 1] 2101, ln_tls = False, ln_ctx = No_ctx, ln_hostname = None,
       ln_refcnt = (if j = 7 then 1 else 0), ln_open = (j = 7)\<rparr>),
     cr_configs := (\<lambda>_. one_port\<lparr>c_refcnt := 1\<rparr>), cr_dyn := (\<lambda>_. dynconfig_new\<lparr>dy_listeners := [7]\<rparr>), cr_config := Some 0\<rparr>"

definition port_env :: "caster_env \<Rightarrow> caster_env" where
  "port_env env = env\<lparr>ve_pton6 := (\<lambda>_. None), ve_pton4 := (\<lambda>_. Some [10, 0, 0, 1]), ve_files := (\<lambda>_. None), ve_fresh_listener := (\<lambda>n. n + 8)\<rparr>"

lemma port_parsed:
  "\<exists>c u l al s. config_parse (\<lambda>_. None) p4 (Some one_port) g = Some (Some c) \<and> c_bind c = c_bind one_port \<and>
    c_proxy c = [] \<and> c_node c = [] \<and> c_graylog c = [] \<and> c_syslog c = [] \<and> c_rtcm_filter c = [] \<and> c_admin_user c = Some u \<and>
    c_log c = Some l \<and> c_access_log c = Some al \<and> c_sourcetable_filename c = Some s \<and> c_host_auth_filename c = None \<and>
    c_source_auth_filename c = None \<and> c_rover_auth_filename c = None \<and> c_user_auth_filename c = None \<and> c_blocklist_filename c = None"
  by (simp add: config_parse_def Let_def list_defaults_def top_defaults_def one_port_def empty_config_def bind_defaults_def default_to_def default_string_def)

lemma port_reloaded:
  "\<exists>r b. caster_load (port_env env) (Some one_port) 1 False (port_open a) = Some (r, b) \<and> cr_config b = Some 1 \<and>
    c_bind (cr_configs b 1) = c_bind one_port"
proof -
  note p = port_env_def
  have e: "ve_pton6 (port_env env) = (\<lambda>_. None)" "ve_pton4 (port_env env) = (\<lambda>_. Some [10, 0, 0, 1])" "ve_files (port_env env) = (\<lambda>_. None)"
    by (simp_all add: port_env_def)
  obtain c u l al s where c: "config_parse (\<lambda>_. None) (\<lambda>_. Some [10, 0, 0, 1]) (Some one_port) (cr_config_gen (port_open a)) = Some (Some c)"
    and f: "c_bind c = c_bind one_port" "c_proxy c = []" "c_node c = []" "c_graylog c = []" "c_syslog c = []" "c_rtcm_filter c = []"
      "c_admin_user c = Some u" "c_log c = Some l" "c_access_log c = Some al" "c_sourcetable_filename c = Some s"
      "c_host_auth_filename c = None" "c_source_auth_filename c = None" "c_rover_auth_filename c = None" "c_user_auth_filename c = None"
      "c_blocklist_filename c = None" using port_parsed by blast
  have acc: "reload_accounts (port_env env) c = Some (0, c)"
    using f by (simp add: reload_accounts_def reload_config_of_def caster_reload_auth_def reload_list_def Let_def)
  show ?thesis
    by (simp add: caster_load_def caster_load_config_def e c Let_def caster_reopen_logs_def set_config_def set_dyn_def f case_prod_beta reload_sourcetable_def
       acc caster_reload_blocklist_def caster_reload_rtcm_filters_def caster_reload_graylog_def caster_reload_syncers_def caster_reload_fetchers_def,
      simp add: caster_reload_listeners_def f one_port_def port_env_def port_open_def old_dyn_def dynconfig_new_def reload_bind_def ip_convert_def
       with_port_def ip_cmp_def Let_def recycle_listener_def listener_incref_def refcnt_incref_def set_dyn_def,
      simp add: f config_decref_def refcnt_decref_def dynconfig_free_def set_dyn_def Let_def one_port_def dynconfig_free_listeners_def listener_decref_def
       dynconfig_free_fetchers_def dynconfig_free_rtcm_filters_def dynconfig_free_syncers_def dynconfig_free_graylog_def)
qed

lemma port_inv: "caster_inv [0] (port_open a)" "fresh_from (port_env env) 0 (cr_listeners (port_open a))"
  by (simp_all add: caster_inv_def port_open_def listeners_wf_def held_refs_def dynconfig_new_def one_port_def fresh_from_def port_env_def inj_def)

theorem reload_keeps_listeners_witness:
  "\<forall>env a. \<exists>r b. caster_load (port_env env) (Some one_port) 1 False (port_open a) = Some (r, b) \<and>
    7 \<in> set (dy_listeners (cr_dyn b 1)) \<and> ln_open (cr_listeners b 7) \<and> caster_inv [1] b"
proof (intro allI)
  fix env a
  let ?d = "hd (c_bind one_port)"
  obtain r b where b: "caster_load (port_env env) (Some one_port) 1 False (port_open a) = Some (r, b)" "cr_config b = Some 1"
    "c_bind (cr_configs b 1) = c_bind one_port" using port_reloaded by blast
  note k = reload_keeps_listeners[OF port_inv(1) _ port_inv(2) b(1)]
  have d: "?d \<in> set (c_bind one_port)" "bind_addr (port_env env) ?d = Some (Sock_v4 [10, 0, 0, 1] 2101)" "\<not> bd_tls ?d" "cr_config (port_open a) = Some 0"
    "find_listener (Sock_v4 [10, 0, 0, 1] 2101) (cr_listeners (port_open a)) (dy_listeners (cr_dyn (port_open a) 0)) = Some 7"
    "c_refcnt (cr_configs (port_open a) 0) = 1"
    by (simp_all add: one_port_def bind_addr_def port_env_def ip_convert_def with_port_def port_open_def ip_cmp_def)
  have "7 \<in> set (dy_listeners (cr_dyn b 1))" using k b(2,3) d by auto
  moreover have "\<forall>j \<in> set (dy_listeners (cr_dyn b 1)). ln_open (cr_listeners b j)" "caster_inv [1] b" using k b(2) d(4,6) by simp_all
  ultimately show "\<exists>r b. caster_load (port_env env) (Some one_port) 1 False (port_open a) = Some (r, b) \<and>
    7 \<in> set (dy_listeners (cr_dyn b 1)) \<and> ln_open (cr_listeners b 7) \<and> caster_inv [1] b" using b(1) by blast
qed

subsection \<open>The configuration that a load installs\<close>

text \<open>
  A configuration that is rejected leaves the current one, and all others, as they are; one that is accepted becomes
  the current one, with the accounts that its files have at that time.
\<close>

lemma decref_keeps_others:
  assumes "config_decref env o' d = Some e" "i \<noteq> o'"
  shows "cr_configs e i = cr_configs d i \<and> cr_config e = cr_config d"
proof -
  have "cr_configs y = cr_configs x \<and> cr_config y = cr_config x" if free: "dynconfig_free env j x = Some y" for j x y
  proof -
    from free obtain ls c where
      c: "dynconfig_free_fetchers env j (set_dyn j ((cr_dyn x j)\<lparr>dy_listeners := []\<rparr>) (x\<lparr>cr_listeners := ls\<rparr>)) = Some c"
      and y: "(do { d \<leftarrow> dynconfig_free_syncers env j (dynconfig_free_rtcm_filters j c); dynconfig_free_graylog env j d }) = Some y"
      by (auto simp: dynconfig_free_def dynconfig_free_listeners_def Let_def bind_eq_Some_conv)
    have "same_listeners (set_dyn j ((cr_dyn x j)\<lparr>dy_listeners := []\<rparr>) (x\<lparr>cr_listeners := ls\<rparr>)) c"
      using c by (auto simp: dynconfig_free_fetchers_def bind_eq_Some_conv dest!: decref_fetchers_same)
    also have "same_listeners c y" using y
      by (auto simp: dynconfig_free_syncers_def dynconfig_free_rtcm_filters_def dynconfig_free_graylog_def bind_eq_Some_conv split: if_splits)
    finally show ?thesis by (simp add: same_listeners_def set_dyn_def)
  qed
  note free = this
  let ?d = "d\<lparr>cr_configs := (cr_configs d)(o' := (cr_configs d o')\<lparr>c_refcnt := c_refcnt (cr_configs d o') - 1\<rparr>)\<rparr>"
  from assms(1) have "e = ?d \<or> dynconfig_free env o' ?d = Some e"
    by (auto simp: config_decref_def refcnt_decref_def Let_def split: if_splits)
  then show ?thesis using free[of o' ?d e] assms(2) by auto
qed

lemma caster_load_installs:
  assumes load: "caster_load env loaded k restart a = Some (r, b)" and fresh: "cr_config a \<noteq> Some k"
    and p: "config_parse (ve_pton6 env) (ve_pton4 env) loaded (cr_config_gen a) = Some new"
  shows "case new of
      None \<Rightarrow> r = - 1 \<and> cr_config b = cr_config a \<and> cr_configs b = cr_configs a
    | Some c \<Rightarrow> cr_config b = Some k \<and> (\<exists>e c' bl. reload_accounts env c = Some (e, c') \<and> cr_configs b k = c'\<lparr>c_blocklist := bl\<rparr>)"
proof (cases new)
  case None
  with load p show ?thesis by (auto simp: caster_load_def caster_load_config_def)
next
  case (Some c0)
  from caster_load_accepted[OF load p[unfolded Some]] obtain r1 a2 r2 a3 r3 c1 r4 c2 r5 d r6 a5 a6 r7 a7 a8 r8 where
    1: "caster_reopen_logs env k (loading k c0 a) = Some (r1, a2)" "reload_sourcetable env k a2 = Some (r2, a3)"
    and 3: "reload_accounts env (cr_configs a3 k) = Some (r3, c1)" "caster_reload_blocklist env c1 = Some (r4, c2)"
    and 5: "caster_reload_rtcm_filters c2 (cr_dyn (set_config k c2 a3) k) = Some (r5, d)"
    and 6: "caster_reload_syncers env k (cr_config (loading k c0 a)) (caster_reload_graylog env k (set_dyn k d (set_config k c2 a3))) = Some (r6, a5)"
      "caster_reload_fetchers env k (cr_config (loading k c0 a)) a5 = Some a6"
    and 8: "caster_reload_listeners env k (cr_config (loading k c0 a)) (a6\<lparr>cr_config := Some k, cr_backlog_evbuffer := c_backlog_evbuffer (cr_configs a6 k)\<rparr>) = Some (r7, a7)"
    and 9: "(case cr_config (loading k c0 a) of None \<Rightarrow> Some a7 | Some o' \<Rightarrow> config_decref env o' a7) = Some a8"
    and 10: "(if restart then caster_start env k a8 else Some (0, a8)) = Some (r8, b)" by blast
  have o: "cr_config (loading k c0 a) = cr_config a" by (simp add: loading_def set_dyn_def set_config_def)
  have "same_listeners (loading k c0 a) a3" using reopen_logs_same[OF 1(1)] reload_sourcetable_same[OF 1(2)] by (rule same_listeners_trans)
  then have a3: "cr_configs a3 k = c0" by (simp add: same_listeners_def loading_def set_dyn_def set_config_def)
  let ?a4 = "set_dyn k d (set_config k c2 a3)"
  have "same_listeners ?a4 (caster_reload_graylog env k ?a4)" by (rule reload_graylog_same)
  also have "same_listeners \<dots> a5" by (rule reload_syncers_same[OF 6(1)])
  also have "same_listeners a5 a6" by (rule reload_fetchers_same[OF 6(2)])
  finally have "cr_configs a6 k = c2" by (simp add: same_listeners_def set_dyn_def set_config_def)
  with 8 have a7: "cr_configs a7 k = c2" "cr_config a7 = Some k"
    by (auto simp: caster_reload_listeners_def set_dyn_def Let_def bind_eq_Some_conv split: if_splits)
  have "cr_configs a8 k = c2" "cr_config a8 = Some k"
    using 9 a7 decref_keeps_others[of env _ a7 a8 k] fresh unfolding o by (auto split: option.splits)
  then have "cr_configs b k = c2" "cr_config b = Some k" using 10 start_same[of env k a8 r8 b] by (auto simp: same_listeners_def split: if_splits)
  moreover have "c2 = c1\<lparr>c_blocklist := c_blocklist c2\<rparr>"
    using 3(2) by (cases c1) (auto simp: caster_reload_blocklist_def bind_eq_Some_conv split: option.splits if_splits)
  ultimately show ?thesis using Some 3(1)[unfolded a3] by auto
qed

subsection \<open>TLS over a reload\<close>

text \<open>A listener without TLS that is used again stays without TLS, even if the new configuration asks for it.\<close>

lemma recycled_stays_plain:
  assumes "recycle_listener env d j ls = Some (Some i, ls')" "\<not> ln_tls (ls j)"
  shows "i = j \<and> \<not> ln_tls (ls' j)"
  using assms by (auto simp: recycle_listener_def Let_def bind_eq_Some_conv listener_incref_eq dest!: setup_tls_keeps split: if_splits)

text \<open>A listener whose TLS was switched off by one reload and that a second one asks to use TLS reads its released context.\<close>

lemma tls_off_and_on_again:
  assumes "ln_tls (ls j)" "ln_ctx (ls j) = Ctx" "0 < ln_refcnt (ls j)" "\<not> bd_tls d" "bd_tls d'"
  shows "\<exists>ls'. recycle_listener env d j ls = Some (Some j, ls') \<and> recycle_listener env d' j ls' = None"
  using assms by (simp add: recycle_listener_def Let_def listener_incref_def refcnt_incref_def listener_setup_tls_def)

end
