(* ===== verification/Source_Edit_Correct.thy ===== *)
theory Source_Edit_Correct
  imports Source_Edit
begin

text \<open>
  The edited files as their readers see them: lines and fields of a file before and after an edit, the
  accounts that the reload then has, and the reply buffer of the detection of a source.
\<close>

subsection \<open>Lines\<close>

abbreviation complete_line :: "cstring \<Rightarrow> bool" where
  "complete_line l \<equiv> \<exists>b. NL \<notin> set b \<and> l = b @ [NL]"

lemma getlines_eq_Nil [simp]: "getlines s = [] \<longleftrightarrow> s = []"
  by (cases s) (simp_all split: list.split)

lemma concat_getlines [simp]: "concat (getlines s) = s"
proof (induction s)
  case (Cons c s)
  then show ?case by (cases "getlines s") auto
qed simp

lemma getlines_shape: "l \<in> set (getlines s) \<Longrightarrow> complete_line l \<or> NL \<notin> set l"
proof (induction s arbitrary: l)
  case (Cons c s)
  show ?case
  proof (cases "c = NL \<or> s = []")
    case True
    with Cons show ?thesis by (auto split: if_splits)
  next
    case False
    then obtain k ks where k: "getlines s = k # ks" by (cases "getlines s") auto
    with Cons.prems False have "l = c # k \<or> l \<in> set ks" by auto
    moreover have "complete_line (c # k)" if "complete_line k" using that False by (metis append_Cons set_ConsD)
    moreover have "NL \<notin> set (c # k)" if "NL \<notin> set k" using that False by auto
    ultimately show ?thesis using Cons.IH[of l] Cons.IH[of k] k by auto
  qed
qed simp

lemma getlines_complete: "s = [] \<or> last s = NL \<Longrightarrow> l \<in> set (getlines s) \<Longrightarrow> complete_line l"
proof (induction s arbitrary: l)
  case (Cons c s)
  show ?case
  proof (cases "c = NL \<or> s = []")
    case True
    with Cons show ?thesis by (cases s) (auto split: if_splits)
  next
    case False
    then obtain k ks where k: "getlines s = k # ks" by (cases "getlines s") auto
    with Cons.prems False have "l = c # k \<or> l \<in> set ks" by auto
    moreover have "complete_line (c # k)" if "complete_line k" using that False by (metis append_Cons set_ConsD)
    ultimately show ?thesis using Cons.IH[of l] Cons.IH[of k] Cons.prems(1) k False by auto
  qed
qed simp

lemma getlines_append: "NL \<notin> set b \<Longrightarrow> getlines (b @ NL # r) = (b @ [NL]) # getlines r"
  by (induction b) auto

lemma getlines_concat: "\<forall>l \<in> set ls. complete_line l \<Longrightarrow> getlines (concat ls) = ls"
  by (induction ls) (auto simp: getlines_append)

lemma strsep_tokens_getlines:
  "strsep_tokens (\<lambda>c. c = CHR 0x0A) s =
     map (takeWhile (\<lambda>c. c \<noteq> NL)) (getlines s) @ (if s = [] \<or> last s = NL then [[]] else [])"
proof (induction s)
  case (Cons c s)
  then show ?case by (cases "getlines s") (auto simp: NL_def)
qed simp

lemma strip_eol_idem [simp]: "strip_eol (strip_eol l) = strip_eol l"
  by (simp add: strip_eol_def dropWhile_idem)

lemma strip_eol_NL [simp]: "strip_eol (b @ [NL]) = strip_eol b"
  by (simp add: strip_eol_def NL_def)

lemma strip_eol_line: "l \<in> set (getlines s) \<Longrightarrow> strip_eol (takeWhile (\<lambda>c. c \<noteq> NL) l) = strip_eol l"
proof -
  assume l: "l \<in> set (getlines s)"
  have t: "takeWhile (\<lambda>c. c \<noteq> NL) b = b" if "NL \<notin> set b" for b using that by (auto simp: takeWhile_eq_all_conv)
  from getlines_shape[OF l] show ?thesis
  proof
    assume "complete_line l"
    then obtain b where "NL \<notin> set b" "l = b @ [NL]" by blast
    with t[of b] show ?thesis by (simp add: takeWhile_append2)
  qed (simp add: t)
qed

lemma strip_eol_decomp: "\<exists>e. l = strip_eol l @ e \<and> set e \<subseteq> {NL, CHR 0x0D}"
proof -
  let ?P = "\<lambda>c. c = CHR 0x0A \<or> c = CHR 0x0D"
  have "l = rev (dropWhile ?P (rev l)) @ rev (takeWhile ?P (rev l))"
    by (metis rev_append rev_rev_ident takeWhile_dropWhile_id)
  moreover have "set (rev (takeWhile ?P (rev l))) \<subseteq> {NL, CHR 0x0D}" by (auto simp: NL_def dest: set_takeWhileD)
  ultimately show ?thesis unfolding strip_eol_def by blast
qed

lemma strip_eol_chars: "set (strip_eol l) \<subseteq> set l"
  unfolding strip_eol_def set_rev using set_dropWhileD[of _ _ "rev l"] by auto

text \<open>What \<open>file_parse\<close> sees of a file depends on its lines without their ends.\<close>

lemma parse_lines_strip: "parse_lines n seps sk ls = parse_lines n seps sk (map strip_eol ls)"
  by (induction ls) (simp_all add: Let_def)

lemma parse_lines_append:
  "parse_lines n seps sk (xs @ ys) =
     Option.bind (parse_lines n seps sk xs) (\<lambda>a. map_option (\<lambda>b. a @ b) (parse_lines n seps sk ys))"
  by (induction xs) (auto simp: Let_def map_option_case option.map_ident split: option.split)

lemma file_parse_getlines: "file_parse (Some s) n seps sk = parse_lines n seps sk (getlines s)"
proof -
  have "map strip_eol (map (takeWhile (\<lambda>c. c \<noteq> NL)) (getlines s)) = map strip_eol (getlines s)"
    by (simp add: strip_eol_line)
  then have "parse_lines n seps sk (map (takeWhile (\<lambda>c. c \<noteq> NL)) (getlines s)) = parse_lines n seps sk (getlines s)"
    using parse_lines_strip by metis
  then show ?thesis by (cases "parse_lines n seps sk (getlines s)")
    (simp_all add: file_parse_def strsep_tokens_getlines parse_lines_append strip_eol_def)
qed

subsection \<open>Fields\<close>

abbreviation tokens_of :: "char \<Rightarrow> cstring \<Rightarrow> cstring list" where
  "tokens_of sep line \<equiv> strsep_tokens (\<lambda>c. c = sep) line"

lemma scan_field_tokens:
  "idx \<le> field_index \<Longrightarrow>
    scan_field sep field_index idx acc line =
      (if field_index - idx + 1 < length (tokens_of sep line)
       then Some ((if idx = field_index then acc else []) @ tokens_of sep line ! (field_index - idx)) else None)"
proof (induction line arbitrary: idx acc)
  case (Cons c line)
  obtain t ts where t: "tokens_of sep line = t # ts" by (cases "tokens_of sep line") auto
  show ?case
  proof (cases "c = sep \<and> idx < field_index")
    case True
    then obtain k where k: "field_index = Suc (idx + k)" using less_imp_Suc_add by blast
    have d: "Suc (idx + k) - idx = Suc k" "Suc (idx + k) - Suc idx = k" "Suc idx = Suc (idx + k) \<longleftrightarrow> k = 0" by simp_all
    show ?thesis using True Cons.IH[of "Suc idx" "if Suc idx = field_index then [] else acc @ [c]"] by (cases k) (simp_all add: k d)
  next
    case False
    show ?thesis
    proof (cases "c = sep")
      case True
      with False Cons.prems have "idx = field_index" by simp
      with True show ?thesis by (simp add: t)
    next
      case False
      with Cons.IH[OF Cons.prems, of "acc @ [c]"] Cons.prems show ?thesis by (cases "field_index - idx") (auto simp: t)
    qed
  qed
qed simp

lemma line_matches_iff:
  "CHR 0x00 \<notin> set line \<Longrightarrow>
    line_matches sep field_index v line \<longleftrightarrow>
      field_index + 1 < length (tokens_of sep line) \<and> tokens_of sep line ! field_index = v"
proof -
  assume "CHR 0x00 \<notin> set line"
  then have "c_str line = line" by (auto simp: c_str_def takeWhile_eq_all_conv)
  then show ?thesis by (auto simp: line_matches_def scan_field_tokens)
qed

lemma put_field_tokens:
  "sep \<notin> set v \<Longrightarrow> sep \<notin> set seg \<Longrightarrow>
    tokens_of sep (put_field sep target v fidx seg line) =
      (let ts = (seg @ hd (tokens_of sep line)) # tl (tokens_of sep line)
       in if fidx \<le> target then ts[target - fidx := v] else ts)"
proof (induction line arbitrary: fidx seg)
  case Nil
  then have "tokens_of sep v = [v]" "tokens_of sep seg = [seg]" by (auto intro: strsep_tokens_single)
  then show ?case by (auto simp: Let_def split: nat.split)
next
  case (Cons c line)
  obtain t ts where t: "tokens_of sep line = t # ts" by (cases "tokens_of sep line") auto
  show ?case
  proof (cases "c = sep")
    case True
    let ?a = "if fidx = target then v else seg"
    have "\<forall>x \<in> set ?a. x \<noteq> sep" using Cons.prems by auto
    then have "tokens_of sep (put_field sep target v fidx seg (c # line)) = ?a # tokens_of sep (put_field sep target v (fidx + 1) [] line)"
      using True strsep_tokens_append[of ?a "\<lambda>c. c = sep" sep] by simp
    moreover have "fidx < target \<Longrightarrow> target - fidx = Suc (target - (fidx + 1))" by simp
    ultimately show ?thesis using True Cons.IH[of "[]" "fidx + 1"] Cons.prems by (auto simp: Let_def t)
  next
    case False
    with Cons show ?thesis by (simp add: t Let_def)
  qed
qed

lemma put_field_updates:
  "sep \<notin> set v \<Longrightarrow> tokens_of sep (put_field sep target v 0 [] line) = (tokens_of sep line)[target := v]"
  by (cases "tokens_of sep line") (simp_all add: put_field_tokens)

lemma tokens_of_append:
  "sep \<notin> set e \<Longrightarrow> tokens_of sep (s @ e) = butlast (tokens_of sep s) @ [last (tokens_of sep s) @ e]"
proof (induction s)
  case Nil
  then have "tokens_of sep e = [e]" by (intro strsep_tokens_single) auto
  then show ?case by simp
next
  case (Cons c s)
  then show ?case by (cases "tokens_of sep s") auto
qed

lemma line_fields_single [simp]: "line_fields [sep] False line = tokens_of sep line"
  by (simp add: line_fields_def)

lemma hd_tokens_of: "s \<noteq> [] \<Longrightarrow> hd s = (if hd (tokens_of sep s) = [] then sep else hd (hd (tokens_of sep s)))"
proof (cases s)
  case (Cons c r)
  then show ?thesis by (cases "tokens_of sep r") auto
qed simp

lemma tokens_of_empty: "tokens_of sep s = [[]] \<longleftrightarrow> s = []"
  by (cases s) (auto split: list.split)

lemma last_tokens_of: "s \<noteq> [] \<Longrightarrow> last s = (if last (tokens_of sep s) = [] then sep else last (last (tokens_of sep s)))"
proof (induction s)
  case (Cons c s)
  then show ?case by (cases "tokens_of sep s"; cases "s = []") (auto simp: tokens_of_empty)
qed simp

lemma strip_eol_eq_iff: "strip_eol s = s \<longleftrightarrow> s = [] \<or> last s \<noteq> NL \<and> last s \<noteq> CHR 0x0D"
proof (cases s rule: rev_cases)
  case (snoc r c)
  have "length (strip_eol r) \<le> length r"
    unfolding strip_eol_def length_rev by (rule order_trans[OF length_dropWhile_le]) simp
  then have "strip_eol r \<noteq> r @ [c]" by auto
  with snoc show ?thesis by (auto simp: strip_eol_def NL_def)
qed (simp add: strip_eol_def)

lemma strip_eol_plain: "set s \<inter> {NL, CHR 0x0D} = {} \<Longrightarrow> strip_eol s = s"
proof (cases "s = []")
  case False
  moreover assume "set s \<inter> {NL, CHR 0x0D} = {}"
  ultimately have "last s \<noteq> NL \<and> last s \<noteq> CHR 0x0D" using last_in_set[of s] by blast
  then show ?thesis by (simp add: strip_eol_eq_iff)
qed (simp add: strip_eol_def)

lemma strip_eol_tokens:
  "sep \<noteq> NL \<Longrightarrow> sep \<noteq> CHR 0x0D \<Longrightarrow>
    strip_eol s = s \<longleftrightarrow> strip_eol (last (tokens_of sep s)) = last (tokens_of sep s)"
  by (cases "s = []") (auto simp: strip_eol_eq_iff last_tokens_of[of s sep])

lemma line_matches_stripped:
  assumes "CHR 0x00 \<notin> set l" "sep \<noteq> NL" "sep \<noteq> CHR 0x0D"
  shows "line_matches sep field_index v l \<longleftrightarrow>
    field_index + 1 < length (tokens_of sep (strip_eol l)) \<and> tokens_of sep (strip_eol l) ! field_index = v"
proof -
  let ?ts = "tokens_of sep (strip_eol l)"
  obtain e where e: "l = strip_eol l @ e" "set e \<subseteq> {NL, CHR 0x0D}" using strip_eol_decomp by blast
  with assms have "sep \<notin> set e" by auto
  then have t: "tokens_of sep l = butlast ?ts @ [last ?ts @ e]" using tokens_of_append e(1) by metis
  then have "length (tokens_of sep l) = length ?ts" by simp
  moreover have "tokens_of sep l ! field_index = ?ts ! field_index" if "field_index + 1 < length ?ts"
  proof -
    from that have "field_index < length (butlast ?ts)" by simp
    then show ?thesis by (simp only: t nth_append if_True nth_butlast)
  qed
  ultimately show ?thesis using line_matches_iff[OF assms(1)] by auto
qed

subsection \<open>The rows of an edited file\<close>

lemma parse_lines_remove:
  assumes "parse_lines n [sep] False ls = Some rs" "\<forall>l \<in> set ls. CHR 0x00 \<notin> set l"
    "sep \<noteq> NL" "sep \<noteq> CHR 0x0D" "field_index + 1 < n"
  shows "parse_lines n [sep] False (filter (\<lambda>l. \<not> line_matches sep field_index v l) ls) = Some (filter (\<lambda>r. r ! field_index \<noteq> v) rs)"
  using assms
proof (induction ls arbitrary: rs)
  case (Cons l ls)
  show ?case
  proof (cases "strip_eol l = [] \<or> hd (strip_eol l) = CHR ''#''")
    case True
    with Cons show ?thesis by (simp add: Let_def)
  next
    case False
    with Cons.prems(1) obtain rs' where rs: "length (tokens_of sep (strip_eol l)) = n" "parse_lines n [sep] False ls = Some rs'"
      "rs = tokens_of sep (strip_eol l) # rs'" by (auto simp: Let_def split: if_splits)
    have "line_matches sep field_index v l \<longleftrightarrow> tokens_of sep (strip_eol l) ! field_index = v"
      using line_matches_stripped[of l sep field_index v] Cons.prems rs(1) by auto
    with Cons.IH[OF rs(2)] Cons.prems False rs show ?thesis by (simp add: Let_def)
  qed
qed simp

lemma parse_lines_row:
  assumes "set l \<inter> {NL, CHR 0x0D} = {}" "l \<noteq> []" "hd l \<noteq> CHR ''#''" "length (tokens_of sep l) = n"
  shows "parse_lines n [sep] False [l @ [NL]] = Some [tokens_of sep l]"
proof -
  from strip_eol_plain[OF assms(1)] assms show ?thesis by (simp add: Let_def)
qed

text \<open>The edit of one field: the first element with a property is changed.\<close>

fun update_first :: "('a \<Rightarrow> bool) \<Rightarrow> ('a \<Rightarrow> 'a) \<Rightarrow> 'a list \<Rightarrow> 'a list" where
  "update_first P f [] = []"
| "update_first P f (x # xs) = (if P x then f x # xs else x # update_first P f xs)"

lemma set_put_field: "set (put_field sep target v fidx seg line) \<subseteq> set line \<union> set v \<union> set seg \<union> {sep}"
  by (induction sep target v fidx seg line rule: put_field.induct) auto

definition line_value :: "cstring \<Rightarrow> bool" where
  "line_value v \<longleftrightarrow> set v \<inter> {NL, CHR 0x0D, CHR '':''} = {}"

text \<open>A line of the file that holds an account: neither empty nor a comment.\<close>

abbreviation data_line :: "cstring \<Rightarrow> bool" where
  "data_line l \<equiv> strip_eol l \<noteq> [] \<and> hd (strip_eol l) \<noteq> CHR ''#''"

lemma put_field_row:
  assumes "strip_eol l = l" "data_line l" "line_value v" "0 < t" "t < length (tokens_of CHR '':'' l)"
  shows "strip_eol (put_field CHR '':'' t v 0 [] l) = put_field CHR '':'' t v 0 [] l" "data_line (put_field CHR '':'' t v 0 [] l)"
proof -
  let ?l = "put_field CHR '':'' t v 0 [] l" and ?ts = "tokens_of CHR '':'' l"
  have col: "CHR '':'' \<noteq> NL" "CHR '':'' \<noteq> CHR 0x0D" by (simp_all add: NL_def)
  have t: "tokens_of CHR '':'' ?l = ?ts[t := v]" using assms(3) by (intro put_field_updates) (auto simp: line_value_def)
  have "strip_eol v = v" using assms(3) by (intro strip_eol_plain) (auto simp: line_value_def)
  moreover have "strip_eol (last ?ts) = last ?ts" using assms(1) unfolding strip_eol_tokens[OF col, of l] .
  ultimately have "strip_eol (last (?ts[t := v])) = last (?ts[t := v])" by (simp add: last_list_update)
  then show st: "strip_eol ?l = ?l" unfolding strip_eol_tokens[OF col, of ?l] t .
  have ne: "?l \<noteq> []" using t assms(4,5) by (metis length_list_update strsep_tokens.simps(1) length_Cons list.size(3) less_Suc0 not_gr0)
  have "hd ?l = hd l"
    using hd_tokens_of[OF ne, of "CHR '':''"] hd_tokens_of[of l "CHR '':''"] assms(1,2,4) t by (simp add: hd_conv_nth)
  with st ne assms(1,2) show "data_line ?l" by simp
qed

lemma update_lines_parse:
  assumes "parse_lines n [CHR '':''] False ls = Some rs"
    "\<forall>l \<in> set ls. CHR 0x00 \<notin> set l \<and> NL \<notin> set (strip_eol l)"
    "0 < t" "t < n" "line_value v" "key = [] \<or> hd key \<noteq> CHR ''#''"
    "update_lines (\<lambda>l. scan_field CHR '':'' 0 0 [] l = Some key) (put_field CHR '':'' t v 0 []) u ls = (ls', u')"
  shows "parse_lines n [CHR '':''] False ls' = Some (if u then rs else update_first (\<lambda>r. r ! 0 = key) (\<lambda>r. r[t := v]) rs)
    \<and> u' = (u \<or> (\<exists>r \<in> set rs. r ! 0 = key)) \<and> (\<forall>l \<in> set ls'. complete_line l)"
  using assms
proof (induction ls arbitrary: rs u ls' u')
  case (Cons l ls)
  let ?l = "strip_eol l"
  have z: "c_str ?l = ?l"
  proof -
    have "CHR 0x00 \<notin> set ?l" using Cons.prems(2) strip_eol_decomp[of l] by (metis UnCI list.set_intros(1) set_append)
    then show ?thesis by (auto simp: c_str_def takeWhile_eq_all_conv)
  qed
  define m where "m \<longleftrightarrow> \<not> u \<and> scan_field CHR '':'' 0 0 [] ?l = Some key"
  define x where "x = (if m then put_field CHR '':'' t v 0 [] ?l else ?l)"
  obtain k w where k: "update_lines (\<lambda>l. scan_field CHR '':'' 0 0 [] l = Some key) (put_field CHR '':'' t v 0 []) (u \<or> m) ls = (k, w)" by fastforce
  with Cons.prems(7) z have r: "ls' = (x @ [NL]) # k" "u' = w" by (auto simp: m_def x_def Let_def)
  have "NL \<notin> set x" using Cons.prems(2,5) set_put_field[of "CHR '':''" t v 0 "[]" ?l]
    by (auto simp: x_def line_value_def NL_def)
  then have cl: "complete_line (x @ [NL])" by blast
  have mt: "m \<longleftrightarrow> \<not> u \<and> 1 < length (tokens_of CHR '':'' ?l) \<and> hd (tokens_of CHR '':'' ?l) = key"
    by (auto simp: m_def scan_field_tokens hd_conv_nth)
  show ?case
  proof (cases "data_line l")
    case False
    have "\<not> m"
    proof
      assume m
      with mt have "?l \<noteq> []" "hd (tokens_of CHR '':'' ?l) = key" by auto
      with False Cons.prems(6) hd_tokens_of[of ?l "CHR '':''"] show False by (auto split: if_splits)
    qed
    with False Cons.prems(1) Cons.IH[OF _ _ Cons.prems(3-6) k] Cons.prems(2) r cl show ?thesis by (simp add: Let_def x_def)
  next
    case True
    with Cons.prems(1) obtain rs' where rs: "length (tokens_of CHR '':'' ?l) = n" "parse_lines n [CHR '':''] False ls = Some rs'"
      "rs = tokens_of CHR '':'' ?l # rs'" by (auto simp: Let_def split: if_splits)
    have st: "strip_eol x = x" "data_line x"
      using put_field_row[of ?l v t] Cons.prems(3-5) True rs(1) by (auto simp: x_def)
    have tx: "tokens_of CHR '':'' x = (if m then (tokens_of CHR '':'' ?l)[t := v] else tokens_of CHR '':'' ?l)"
      using Cons.prems(5) put_field_updates[of "CHR '':''" v t ?l] by (auto simp: x_def line_value_def)
    have m: "m \<longleftrightarrow> \<not> u \<and> tokens_of CHR '':'' ?l ! 0 = key" using mt rs(1) Cons.prems(3,4) by (auto simp: hd_conv_nth)
    have "parse_lines n [CHR '':''] False ls' = map_option (\<lambda>r. tokens_of CHR '':'' x # r) (parse_lines n [CHR '':''] False k)"
      using st rs(1) tx r(1) by (simp add: Let_def)
    with Cons.IH[OF rs(2) _ Cons.prems(3-6) k] Cons.prems(2) r cl rs(3) m tx show ?thesis by auto
  qed
qed simp

subsection \<open>Accounts after an edit\<close>

lemma path_tmp [simp]: "path @ ''.tmp'' \<noteq> path" "path \<noteq> path @ ''.tmp''"
  by simp_all

lemma getlines_chars: "l \<in> set (getlines s) \<Longrightarrow> set l \<subseteq> set s"
  by (metis concat_getlines set_concat Sup_upper image_eqI)

lemma upsert_parse:
  assumes "s = [] \<or> last s = NL" "CHR 0x00 \<notin> set s" "file_parse (Some s) n '':'' False = Some rs" "1 < n"
    "set l \<inter> {NL, CHR 0x0D} = {}" "l \<noteq> []" "hd l \<noteq> CHR ''#''" "length (tokens_of CHR '':'' l) = n"
  shows "file_parse (Some (concat (filter (\<lambda>l. \<not> line_matches CHR '':'' 0 m l) (getlines s)) @ l @ [NL])) n '':'' False =
    Some (filter (\<lambda>r. r ! 0 \<noteq> m) rs @ [tokens_of CHR '':'' l])"
proof -
  let ?kept = "filter (\<lambda>l. \<not> line_matches CHR '':'' 0 m l) (getlines s)"
  have "\<forall>k \<in> set (?kept @ [l @ [NL]]). complete_line k" using getlines_complete[OF assms(1)] assms(5) by auto
  then have "getlines (concat (?kept @ [l @ [NL]])) = ?kept @ [l @ [NL]]" by (rule getlines_concat)
  then have g: "getlines (concat ?kept @ l @ [NL]) = ?kept @ [l @ [NL]]" by simp
  have "\<forall>l \<in> set (getlines s). CHR 0x00 \<notin> set l" using assms(2) getlines_chars by blast
  then have "parse_lines n '':'' False ?kept = Some (filter (\<lambda>r. r ! 0 \<noteq> m) rs)"
    using assms(3,4) by (intro parse_lines_remove) (simp_all add: file_parse_getlines NL_def)
  moreover have "parse_lines n '':'' False [l @ [NL]] = Some [tokens_of CHR '':'' l]"
    by (rule parse_lines_row[OF assms(5-8)])
  ultimately show ?thesis by (simp only: file_parse_getlines g parse_lines_append bind.bind_lunit option.map)
qed

lemma remove_matching_lines_works:
  assumes "fs (joinpath (fe_dir env) f) = Some s" "fe_can_write env (joinpath (fe_dir env) f @ ''.tmp'')" "fe_can_rename env (joinpath (fe_dir env) f)"
  shows "remove_matching_lines env f sep i v fs =
    (int (length (filter (line_matches sep i v) (getlines s))),
     fs(joinpath (fe_dir env) f \<mapsto> concat (filter (\<lambda>l. \<not> line_matches sep i v l) (getlines s)), joinpath (fe_dir env) f @ ''.tmp'' := None))"
proof -
  have "int (length (getlines s)) - int (length (filter (\<lambda>l. \<not> line_matches sep i v l) (getlines s))) =
      int (length (filter (line_matches sep i v) (getlines s)))"
    using sum_length_filter_compl[of "line_matches sep i v" "getlines s"] by linarith
  with assms show ?thesis by (simp add: remove_matching_lines_def rename_tmp_def Let_def fun_upd_twist)
qed

lemma account_line:
  assumes "field_is_safe m" "field_is_safe u" "field_is_safe p" "m \<noteq> []" "hd m \<noteq> CHR ''#''"
  defines "l \<equiv> m @ '':'' @ u @ '':'' @ p"
  shows "set l \<inter> {NL, CHR 0x0D} = {}" "l \<noteq> []" "hd l \<noteq> CHR ''#''" "tokens_of CHR '':'' l = [m, u, p]"
proof -
  have plain: "set x \<inter> {NL, CHR 0x0D} = {}" "\<forall>c \<in> set x. \<not> c = CHR '':''" if "field_is_safe x" for x
    using that unfolding field_is_safe_def by blast+
  have "set l = set m \<union> set u \<union> set p \<union> {CHR '':''}" by (auto simp: l_def)
  with plain(1)[OF assms(1)] plain(1)[OF assms(2)] plain(1)[OF assms(3)] show "set l \<inter> {NL, CHR 0x0D} = {}"
    by (simp add: Int_Un_distrib2 NL_def)
  show "l \<noteq> []" by (simp add: l_def)
  show "hd l \<noteq> CHR ''#''" using assms(4,5) by (simp add: l_def)
  from plain(2)[OF assms(1)] plain(2)[OF assms(2)] plain(2)[OF assms(3)] show "tokens_of CHR '':'' l = [m, u, p]"
    by (simp add: l_def strsep_tokens_append strsep_tokens_single)
qed

lemma reload_list_total:
  "\<forall>f. parse f \<noteq> None \<Longrightarrow> \<exists>e' l. reload_list filename parse old e = Some (e', l)"
proof (cases filename)
  case (Some f)
  moreover assume "\<forall>f. parse f \<noteq> None"
  then obtain y where "parse f = Some y" by blast
  ultimately show ?thesis by (cases y) (auto simp: reload_list_def)
qed (simp add: reload_list_def)

definition rover_of_row :: "cstring list \<Rightarrow> rover_auth_entry" where
  "rover_of_row r = \<lparr>ra_user = r ! 0, ra_password = r ! 1, ra_enabled = flag_enabled (r ! 2)\<rparr>"

lemma rover_auth_parse_total:
  "rover_auth_parse contents = Some (map_option (map rover_of_row) (file_parse contents 3 '':'' False))"
proof (cases "file_parse contents 3 '':'' False")
  case (Some p)
  from file_parse_length[OF this] have l: "\<forall>r \<in> set p. rover_auth_row r = Some (rover_of_row r)"
    by (simp add: rover_auth_row_def rover_of_row_def buf_get_def)
  then have "rows rover_auth_row p = Some (map (the \<circ> rover_auth_row) p)" by (intro rows_total) simp
  with Some l show ?thesis by (simp add: rover_auth_parse_def)
qed (simp add: rover_auth_parse_def)

lemma user_auth_parse_total: "user_auth_parse contents \<noteq> None"
proof (cases "file_parse contents 4 '':'' False")
  case (Some p)
  from file_parse_length[OF this] have "rows user_auth_row p = Some (map (the \<circ> user_auth_row) p)"
    by (intro rows_total) (simp add: user_auth_row_def buf_get_def)
  with Some show ?thesis by (simp add: user_auth_parse_def)
qed (simp add: user_auth_parse_def)

lemma caster_reload_source_accounts:
  assumes "rc_source_auth_filename c = Some f" "auth_parse (fs (joinpath (fe_dir env) f)) = Some (Some es)"
  shows "\<exists>r c'. caster_reload_auth env fs c = Some (r, c') \<and> source_auth (rc_auth c') = Some es"
proof -
  let ?contents = "\<lambda>f. fs (joinpath (fe_dir env) f)"
  have p: "\<forall>f. auth_parse (?contents f) \<noteq> None" "\<forall>f. rover_auth_parse (?contents f) \<noteq> None" "\<forall>f. user_auth_parse (?contents f) \<noteq> None"
    using auth_parse_total rover_auth_parse_total user_auth_parse_total by auto
  obtain e1 l1 where 1: "reload_list (rc_host_auth_filename c) (\<lambda>f. auth_parse (?contents f)) (rc_host_auth c) False = Some (e1, l1)"
    using reload_list_total[OF p(1)] by blast
  have 2: "reload_list (rc_source_auth_filename c) (\<lambda>f. auth_parse (?contents f)) (source_auth (rc_auth c)) e1 = Some (e1, Some es)"
    using assms by (simp add: reload_list_def)
  obtain e3 l3 where 3: "reload_list (rc_rover_auth_filename c) (\<lambda>f. rover_auth_parse (?contents f)) (rover_auth (rc_auth c)) e1 = Some (e3, l3)"
    using reload_list_total[OF p(2)] by blast
  obtain e4 l4 where 4: "reload_list (rc_user_auth_filename c) (\<lambda>f. user_auth_parse (?contents f)) (user_auth (rc_auth c)) e3 = Some (e4, l4)"
    using reload_list_total[OF p(3)] by blast
  show ?thesis unfolding caster_reload_auth_def Let_def 1 2 3 4 bind.bind_lunit case_prod_conv by simp
qed

lemma auth_parse_upsert:
  assumes "auth_parse (Some s) = Some (Some es)" "s = [] \<or> last s = NL" "CHR 0x00 \<notin> set s"
    "field_is_safe m" "field_is_safe u" "field_is_safe p" "m \<noteq> []" "hd m \<noteq> CHR ''#''"
  shows "auth_parse (Some (concat (filter (\<lambda>l. \<not> line_matches CHR '':'' 0 m l) (getlines s)) @ m @ '':'' @ u @ '':'' @ p @ [NL])) =
    Some (Some (filter (\<lambda>e. ae_key e \<noteq> m) es @ [\<lparr>ae_key = m, ae_user = u, ae_password = p\<rparr>]))"
proof -
  note l = account_line[OF assms(4-8)]
  from assms(1) obtain rs where rs: "file_parse (Some s) 3 '':'' False = Some rs"
    "es = map (\<lambda>r. \<lparr>ae_key = r ! 0, ae_user = r ! 1, ae_password = r ! 2\<rparr>) rs" by (auto simp: auth_parse_total)
  from upsert_parse[OF assms(2,3) rs(1) _ l(1-3), where m = m] l(4)
  show ?thesis by (simp add: auth_parse_total rs(2) filter_map comp_def)
qed

text \<open>A form with given keys, and an environment where every file can be written.\<close>

fun form_of :: "(cstring \<times> cstring) list \<Rightarrow> cstring hash_table" where
  "form_of [] = the (hash_table_new True 37)"
| "form_of ((k, v) # kvs) = snd (hash_table_add True (form_of kvs) k v)"

lemma form_of_correct: "distinct (map fst kvs) \<Longrightarrow> hash_inv (form_of kvs) \<and> hash_table_get (form_of kvs) = map_of kvs"
proof (induction kvs rule: form_of.induct)
  case 1
  obtain t where "hash_table_new True 37 = Some (t :: cstring hash_table)" by (simp add: hash_table_new_def)
  then show ?case using hash_table_new_correct[of True 37 t] by simp
next
  case (2 k v kvs)
  then have "hash_inv (form_of kvs)" "hash_table_get (form_of kvs) k = None" "hash_table_get (form_of kvs) = map_of kvs"
    by (auto simp: map_of_eq_None_iff)
  then show ?case using hash_table_add_new[of "form_of kvs" k v] by simp
qed

definition demo_file_env :: file_env where
  "demo_file_env = \<lparr>fe_dir = ''/etc'', fe_can_write = \<lambda>_. True, fe_can_append = \<lambda>_. True, fe_can_rename = \<lambda>_. True\<rparr>"

definition demo_auth_form :: "cstring hash_table" where
  "demo_auth_form = form_of [(''mountpoint'', ''N''), (''auth_user'', ''u''), (''auth_password'', ''p'')]"

lemma demo_auth_form: "given demo_auth_form ''mountpoint'' = Some ''N''" "given demo_auth_form ''auth_user'' = Some ''u''"
  "given demo_auth_form ''auth_password'' = Some ''p''"
  using form_of_correct[of "[(''mountpoint'', ''N''), (''auth_user'', ''u''), (''auth_password'', ''p'')]"]
  by (simp_all add: given_def demo_auth_form_def)

definition demo_reload :: reload_config where
  "demo_reload = \<lparr>rc_host_auth_filename = None, rc_source_auth_filename = Some ''source.auth'', rc_rover_auth_filename = None,
     rc_user_auth_filename = None, rc_host_auth = None,
     rc_auth = \<lparr>source_auth = None, rover_auth = None, user_auth = None, admin_user = ''admin'', rover_auth_filename = None\<rparr>\<rparr>"

definition demo_auth_file :: cstring where
  "demo_auth_file = ''M:a:b'' @ [NL] @ ''N:c:d'' @ [NL]"

lemma demo_auth_file: "auth_parse (Some demo_auth_file) =
    Some (Some [\<lparr>ae_key = ''M'', ae_user = ''a'', ae_password = ''b''\<rparr>, \<lparr>ae_key = ''N'', ae_user = ''c'', ae_password = ''d''\<rparr>])"
  by (simp add: auth_parse_total file_parse_def demo_auth_file_def NL_def strip_eol_def Let_def)

lemma rows_update_first:
  "\<forall>r \<in> set rs. length r = 3 \<Longrightarrow>
    map rover_of_row (update_first (\<lambda>r. r ! 0 = u) (\<lambda>r. r[2 := v]) rs) =
      update_first (\<lambda>e. ra_user e = u) (\<lambda>e. e\<lparr>ra_enabled := flag_enabled v\<rparr>) (map rover_of_row rs)"
  by (induction rs) (simp_all add: rover_of_row_def)

lemma Y_or_N:
  assumes "is_Y_or_N (Some v)"
  shows "line_value v" "flag_enabled v = c_strcaseeq v ''Y''"
proof -
  have low: "c_tolower CHR ''Y'' = CHR ''y''" "c_tolower CHR ''N'' = CHR ''n''" "c_tolower CHR ''1'' = CHR ''1''" "c_tolower CHR 0x0A = CHR 0x0A"
    "c_tolower CHR 0x0D = CHR 0x0D" "c_tolower CHR '':'' = CHR '':''" by code_simp+
  from assms have "map c_tolower v = ''y'' \<or> map c_tolower v = ''n''" by (simp add: is_Y_or_N_def c_strcaseeq_def low)
  then obtain c where c: "v = [c]" "c_tolower c = CHR ''y'' \<or> c_tolower c = CHR ''n''" by (auto simp: map_eq_Cons_conv)
  have "c \<noteq> NL" "c \<noteq> CHR 0x0D" "c \<noteq> CHR '':''" "c \<noteq> CHR ''1''" using c(2) by (auto simp: NL_def low)
  then show "line_value v" "flag_enabled v = c_strcaseeq v ''Y''" by (auto simp: c(1) line_value_def flag_enabled_def c_strcaseeq_def)
qed

lemma rover_file_update:
  assumes "path = joinpath (fe_dir env) f" "fe_can_write env (path @ ''.tmp'')" "fe_can_rename env path"
    "fs path = Some s" "CHR 0x00 \<notin> set s" "rover_auth_parse (Some s) = Some (Some es)"
    "u = [] \<or> hd u \<noteq> CHR ''#''" "line_value v"
  shows "\<exists>fs'. set_colon_file_field env f CHR '':'' u 2 v fs = (if \<exists>e \<in> set es. ra_user e = u then 1 else 0, fs') \<and>
    rover_auth_parse (fs' path) = Some (Some (update_first (\<lambda>e. ra_user e = u) (\<lambda>e. e\<lparr>ra_enabled := flag_enabled v\<rparr>) es)) \<and>
    (\<forall>g. g \<noteq> path \<longrightarrow> fs' g = (fs(path @ ''.tmp'' := None)) g)"
proof -
  obtain rs where rs: "file_parse (Some s) 3 '':'' False = Some rs" "es = map rover_of_row rs"
    using assms(6) by (auto simp: rover_auth_parse_total)
  obtain ls' u' where up: "update_lines (\<lambda>l. scan_field CHR '':'' 0 0 [] l = Some u) (put_field CHR '':'' 2 v 0 []) False (getlines s) = (ls', u')"
    by (rule prod.exhaust)
  have "CHR 0x00 \<notin> set l \<and> NL \<notin> set (strip_eol l)" if l: "l \<in> set (getlines s)" for l
  proof -
    have "CHR 0x00 \<notin> set l" using assms(5) getlines_chars[OF l] by blast
    moreover from getlines_shape[OF l] have "NL \<notin> set (strip_eol l)"
    proof
      assume "complete_line l"
      then obtain b where "NL \<notin> set b" "l = b @ [NL]" by blast
      then show ?thesis using strip_eol_chars[of b] by auto
    qed (use strip_eol_chars[of l] in blast)
    ultimately show ?thesis by blast
  qed
  then have lines: "\<forall>l \<in> set (getlines s). CHR 0x00 \<notin> set l \<and> NL \<notin> set (strip_eol l)" by blast
  have t: "(0 :: nat) < 2" "(2 :: nat) < 3" by simp_all
  note P = update_lines_parse[OF rs(1)[unfolded file_parse_getlines] lines t assms(8,7) up]
  from P have p: "parse_lines 3 '':'' False ls' = Some (update_first (\<lambda>r. r ! 0 = u) (\<lambda>r. r[2 := v]) rs)"
    "u' = (\<exists>r \<in> set rs. r ! 0 = u)" "\<forall>l \<in> set ls'. complete_line l" by simp_all
  have new: "rover_auth_parse (Some (concat ls')) = Some (Some (update_first (\<lambda>e. ra_user e = u) (\<lambda>e. e\<lparr>ra_enabled := flag_enabled v\<rparr>) es))"
    using file_parse_length[OF rs(1)]
    by (simp add: rover_auth_parse_total file_parse_getlines getlines_concat[OF p(3)] p(1) rs(2) rows_update_first)
  have e: "(\<exists>e \<in> set es. ra_user e = u) = u'" using p(2) by (simp add: rs(2) rover_of_row_def)
  show ?thesis
  proof (cases u')
    case True
    then show ?thesis using assms(1-4) new e up by (simp add: set_colon_file_field_def rename_tmp_def Let_def)
  next
    case False
    moreover have "update_first (\<lambda>e. ra_user e = u) g es = es" for g
      using False e by (induction es) auto
    ultimately show ?thesis using assms(1-4,6) e up by (simp add: set_colon_file_field_def Let_def)
  qed
qed

lemma edit_step_absent: "hash_table_get h k = None \<Longrightarrow> edit_step h k f fs = (None, False, fs)"
  by (simp add: edit_step_def)

lemma edit_steps_none: "\<forall>st \<in> set sts. \<forall>fs. st fs = (None, False, fs) \<Longrightarrow> edit_steps sts changed fs = (None, changed, fs)"
  by (induction sts) simp_all

lemma edit_steps_append:
  "edit_steps (xs @ ys) changed fs =
     (case edit_steps xs changed fs of (Some e, c, fs) \<Rightarrow> (Some e, c, fs) | (None, c, fs) \<Rightarrow> edit_steps ys c fs)"
  by (induction xs arbitrary: changed fs) (auto split: option.splits prod.splits)

abbreviation enable_form :: "cstring hash_table \<Rightarrow> cstring \<Rightarrow> cstring \<Rightarrow> bool" where
  "enable_form h u v \<equiv> hash_table_get h = [''rover_auth.set_enabled.user'' \<mapsto> u, ''rover_auth.set_enabled.value'' \<mapsto> v]"

lemma other_edits_skipped:
  assumes "enable_form h u v"
  shows "edit_steps (in_file n (\<lambda>n. user_edits env acc n h) @ in_file k (\<lambda>n. smtp_edits env n h)) changed fs = (None, changed, fs)"
proof -
  have "\<forall>st \<in> set (user_edits env acc f h). \<forall>fs. st fs = (None, False, fs)" for f
    unfolding user_edits_def by (simp add: edit_step_absent assms)
  moreover have "\<forall>st \<in> set (smtp_edits env f h). \<forall>fs. st fs = (None, False, fs)" for f
    unfolding smtp_edits_def by (simp add: edit_step_absent assms)
  ultimately show ?thesis by (intro edit_steps_none) (auto simp: in_file_def split: option.splits)
qed

text \<open>
  C16: Enabling or disabling a rover account from the settings of the console: the part of the request that edits the
  account files. The form has exactly the two keys for the user and the value; the value is Y or N, the name of the user has none of the
  characters that would break the file and does not start with a number sign; the account file can be
  parsed, has no zero byte and can be rewritten. Then the list of accounts in the file afterwards is the list
  before in which only the first account of the user is changed, to enabled exactly if the value is Y, and the
  request reports a change; if the user is not in the file the list is the same and the request reports an error. No
  other file changes, and there is no temporary file. The accounts that the caster has in memory change with the reload
  that ends the request, which is not part of this statement.
\<close>
theorem rover_enable_correct:
  assumes "enable_form h u v" "field_is_safe u" "u = [] \<or> hd u \<noteq> CHR ''#''" "is_Y_or_N (Some v)"
    "ac_rover_auth_filename config = Some f" "path = joinpath (fe_dir env) f" "fe_can_write env (path @ ''.tmp'')" "fe_can_rename env path"
    "fs path = Some s" "CHR 0x00 \<notin> set s" "rover_auth_parse (Some s) = Some (Some es)"
  shows "\<exists>fs'. settings_account_edits env config h fs =
      (if \<exists>e \<in> set es. ra_user e = u then (None, True, fs') else (Some rover_absent, False, fs')) \<and>
    rover_auth_parse (fs' path) =
      Some (Some (update_first (\<lambda>e. ra_user e = u) (\<lambda>e. e\<lparr>ra_enabled := c_strcaseeq v ''Y''\<rparr>) es)) \<and>
    (\<forall>g. g \<noteq> path \<longrightarrow> fs' g = (fs(path @ ''.tmp'' := None)) g)"
proof -
  from rover_file_update[where fs = fs, OF assms(6-11,3) Y_or_N(1)[OF assms(4)]] obtain fs' where
    f: "set_colon_file_field env f CHR '':'' u 2 v fs = (if \<exists>e \<in> set es. ra_user e = u then 1 else 0, fs')"
      "rover_auth_parse (fs' path) = Some (Some (update_first (\<lambda>e. ra_user e = u) (\<lambda>e. e\<lparr>ra_enabled := c_strcaseeq v ''Y''\<rparr>) es))"
      "\<forall>g. g \<noteq> path \<longrightarrow> fs' g = (fs(path @ ''.tmp'' := None)) g"
    unfolding Y_or_N(2)[OF assms(4)] by blast
  have "edit_steps (rover_edits env acc f h) False fs =
      (if \<exists>e \<in> set es. ra_user e = u then (None, True, fs') else (Some rover_absent, False, fs'))" for acc
    using assms(1,2,4) f(1) by (simp add: rover_edits_def edit_step_def changed_or_def)
  then have "settings_account_edits env config h fs =
      (if \<exists>e \<in> set es. ra_user e = u then (None, True, fs') else (Some rover_absent, False, fs'))"
    unfolding settings_account_edits_def assms(5) edit_steps_append[of "in_file (Some f) _"]
    by (simp add: in_file_def[of "Some f"] other_edits_skipped[OF assms(1)])
  with f(2,3) show ?thesis by blast
qed

definition demo_enable_form :: "cstring hash_table" where
  "demo_enable_form = form_of [(''rover_auth.set_enabled.value'', ''n''), (''rover_auth.set_enabled.user'', ''r'')]"

lemma demo_enable_form: "enable_form demo_enable_form ''r'' ''n''"
  using form_of_correct[of "[(''rover_auth.set_enabled.value'', ''n''), (''rover_auth.set_enabled.user'', ''r'')]"]
  by (simp add: demo_enable_form_def)

definition demo_rover_file :: cstring where
  "demo_rover_file = ''r:x:Y'' @ [NL] @ ''q:y:Y'' @ [NL] @ ''r:z:Y''"

lemma demo_rover_file: "rover_auth_parse (Some demo_rover_file) =
    Some (Some [\<lparr>ra_user = ''r'', ra_password = ''x'', ra_enabled = True\<rparr>, \<lparr>ra_user = ''q'', ra_password = ''y'', ra_enabled = True\<rparr>,
      \<lparr>ra_user = ''r'', ra_password = ''z'', ra_enabled = True\<rparr>])"
  by (simp add: rover_auth_parse_total file_parse_def demo_rover_file_def NL_def strip_eol_def Let_def rover_of_row_def flag_enabled_def c_strcaseeq_def)

definition demo_account_config :: account_config where
  "demo_account_config = \<lparr>ac_rover_auth_filename = Some ''rover.auth'', ac_user_auth_filename = None, ac_smtp_auth_file = None,
     ac_auth = rc_auth demo_reload\<rparr>"

theorem rover_enable_correct_witness:
  "\<exists>fs'. settings_account_edits demo_file_env demo_account_config demo_enable_form [''/etc/rover.auth'' \<mapsto> demo_rover_file] = (None, True, fs') \<and>
    rover_auth_parse (fs' ''/etc/rover.auth'') = Some (Some
      [\<lparr>ra_user = ''r'', ra_password = ''x'', ra_enabled = False\<rparr>, \<lparr>ra_user = ''q'', ra_password = ''y'', ra_enabled = True\<rparr>,
       \<lparr>ra_user = ''r'', ra_password = ''z'', ra_enabled = True\<rparr>])"
proof -
  have low: "c_strcaseeq ''n'' ''Y'' = False" "c_strcaseeq ''n'' ''N''" by code_simp+
  have h: "field_is_safe ''r''" "''r'' = [] \<or> hd ''r'' \<noteq> CHR ''#''" "is_Y_or_N (Some ''n'')"
    "ac_rover_auth_filename demo_account_config = Some ''rover.auth''"
    "''/etc/rover.auth'' = joinpath (fe_dir demo_file_env) ''rover.auth''" "fe_can_write demo_file_env (''/etc/rover.auth'' @ ''.tmp'')"
    "fe_can_rename demo_file_env ''/etc/rover.auth''"
    "[''/etc/rover.auth'' \<mapsto> demo_rover_file] ''/etc/rover.auth'' = Some demo_rover_file" "CHR 0x00 \<notin> set demo_rover_file"
    by (simp_all add: field_is_safe_def NL_def is_Y_or_N_def low demo_account_config_def joinpath_def demo_file_env_def demo_rover_file_def)
  from rover_enable_correct[where fs = "[''/etc/rover.auth'' \<mapsto> demo_rover_file]", OF demo_enable_form h demo_rover_file]
  show ?thesis unfolding low(1) by simp blast
qed

subsection \<open>The reply of the detection\<close>

definition detect_text :: "cstring \<Rightarrow> cstring option \<Rightarrow> pos_t option \<Rightarrow> cstring" where
  "detect_text types nav_system pos =
     ''{\"result\": 0, \"types\": \"'' @ types @ ''\"'' @
     (case nav_system of None \<Rightarrow> [] | Some nav \<Rightarrow> '', \"nav_system\": \"'' @ nav @ ''\"'') @
     (case pos of None \<Rightarrow> [] | Some p \<Rightarrow> '', \"lat\": '' @ c_show_fixed 6 (pos_lat p) @ '', \"lon\": '' @ c_show_fixed 6 (pos_lon p)) @
     ''}'' @ [NL]"

lemma snprintf_at_fits: "length b + length s < cap \<Longrightarrow> snprintf_at cap (b, length b) s = Some (b @ s, length (b @ s))"
  by (simp add: snprintf_at_def)

lemma snprintf_at_behind: "cap < n \<Longrightarrow> snprintf_at cap (b, n) s = None"
  by (simp add: snprintf_at_def)

lemma detect_reply_fits:
  assumes "length (detect_text types nav pos) < 400"
  shows "detect_reply types nav pos = Some (detect_text types nav pos)"
proof -
  define p where "p = ''{\"result\": 0, \"types\": \"''"
  define q where "q = (case nav of None \<Rightarrow> [] | Some nav \<Rightarrow> '', \"nav_system\": \"'' @ nav @ ''\"'')"
  define r where "r = (case pos of None \<Rightarrow> [] | Some p \<Rightarrow> '', \"lat\": '' @ c_show_fixed 6 (pos_lat p) @ '', \"lon\": '' @ c_show_fixed 6 (pos_lon p))"
  define b1 where "b1 = p @ types @ ''\"''"
  have whole: "detect_text types nav pos = b1 @ q @ r @ ''}'' @ [NL]"
    by (simp only: detect_text_def b1_def p_def q_def r_def append_assoc)
  with assms have len: "length b1 < 400" "length b1 + length q < 400" "length (b1 @ q) + length r < 400"
    "length (b1 @ q @ r) + length (''}'' @ [NL]) < 400" by simp_all
  have 1: "snprintf_at 400 ([], 0) b1 = Some (b1, length b1)" using snprintf_at_fits[of "[]" b1 400] len(1) by simp
  have 2: "(case nav of None \<Rightarrow> Some (b1, length b1) | Some nav \<Rightarrow> snprintf_at 400 (b1, length b1) ('', \"nav_system\": \"'' @ nav @ ''\"'')) =
      Some (b1 @ q, length (b1 @ q))"
    using snprintf_at_fits[OF len(2)] by (cases nav) (simp_all only: q_def option.case append_Nil2)
  have 3: "(case pos of None \<Rightarrow> Some (b1 @ q, length (b1 @ q))
      | Some p \<Rightarrow> snprintf_at 400 (b1 @ q, length (b1 @ q)) ('', \"lat\": '' @ c_show_fixed 6 (pos_lat p) @ '', \"lon\": '' @ c_show_fixed 6 (pos_lon p))) =
      Some (b1 @ q @ r, length (b1 @ q @ r))"
    using snprintf_at_fits[OF len(3)] by (cases pos) (simp_all only: r_def option.case append_Nil2 append_assoc)
  show ?thesis
    unfolding detect_reply_def p_def[symmetric] b1_def[symmetric] 1 bind.bind_lunit case_prod_conv 2 3 snprintf_at_fits[OF len(4)]
    by (simp only: whole append_assoc)
qed

lemma detect_reply_overflow:
  assumes "375 < length types"
  shows "detect_reply types nav pos = None"
proof -
  define b1 where "b1 = ''{\"result\": 0, \"types\": \"'' @ types @ ''\"''"
  have l: "400 < length b1" using assms by (simp add: b1_def)
  have 1: "snprintf_at 400 ([], 0) b1 = Some (take 399 b1, length b1)" by (simp add: snprintf_at_def)
  show ?thesis
    unfolding detect_reply_def b1_def[symmetric] 1 bind.bind_lunit case_prod_conv
    by (cases nav; cases pos) (simp_all add: snprintf_at_behind[OF l])
qed

text \<open>
  C39: The reply of the detection of a source holds the list of the RTCM types that were seen. As long as the whole
  text has less than 400 characters the reply is that text. With 76 types or more the list alone makes
  the code write outside its buffer, whatever the rest of the reply is.
\<close>
theorem detect_reply_size:
  assumes "typeset_wf t" "rtcm_typeset_str t = Some types"
  shows "(length (detect_text types nav pos) < 400 \<longrightarrow> detect_reply types nav pos = Some (detect_text types nav pos)) \<and>
    (76 \<le> card {i. rtcm_typeset_check t i = Some True} \<longrightarrow> detect_reply types nav pos = None)"
proof -
  obtain l where l: "rtcm_typeset_str t = Some (if l = [] then [] else butlast (concat (map (\<lambda>i. c_show_nat (nat i) @ '','') l)))"
    "\<And>i. rtcm_typeset_check t i = Some True \<longleftrightarrow> i \<in> set l" "sorted l" "\<forall>i \<in> set l. valid_type i"
    using typeset_str_eq[OF assms(1)] by metis
  have "length (concat (map (\<lambda>i. c_show_nat (nat i) @ '','') l)) = 5 * length l" using l(4)
  proof (induction l)
    case (Cons i l)
    then have "1000 \<le> nat i" "nat i < 10000" using valid_type_range[of i] by auto
    then have "length (c_show_nat (nat i)) = 4" by (rule show_type_length)
    with Cons show ?case by simp
  qed simp
  with l(1) assms(2) have len: "length types = 5 * length l - 1" by auto
  have c: "{i. rtcm_typeset_check t i = Some True} = set l" using l(2) by blast
  have "detect_reply types nav pos = None" if "76 \<le> card {i. rtcm_typeset_check t i = Some True}"
  proof (rule detect_reply_overflow)
    have "76 \<le> length l" using that card_length[of l] c by simp
    then show "375 < length types" using len by linarith
  qed
  then show ?thesis using detect_reply_fits by blast
qed

theorem detect_reply_size_witness:
  "\<exists>t types. typeset_wf t \<and> rtcm_typeset_str t = Some types \<and> detect_reply types None None = None"
proof -
  have "\<forall>x \<in> set [1000..1099]. valid_type x" by (simp add: valid_type_def del: upto_rec_numeral)
  then obtain t where t: "typeset_wf t" "\<forall>y. rtcm_typeset_check t y = Some (y \<in> set [1000..1099] \<or> rtcm_typeset_check rtcm_typeset_init y = Some True)"
    using types.insert_all_valid[OF typeset_init_wf] by blast
  then have "{i. rtcm_typeset_check t i = Some True} = {1000..1099}" by (auto simp: typeset_init_check simp del: upto_rec_numeral)
  then have c: "76 \<le> card {i. rtcm_typeset_check t i = Some True}" by simp
  obtain types where "rtcm_typeset_str t = Some types" using typeset_str_eq[OF t(1)] by metis
  with detect_reply_size[OF t(1), of types None None] t(1) c show ?thesis by blast
qed

end
