(* ===== verification/Console_Reload.thy ===== *)
theory Console_Reload
  imports Caster_Correct Source_Edit_Correct
begin

text \<open>
  An edit of the accounts from the console together with the reload that ends it: the whole \<open>caster_reload\<close> of
  \<^verbatim>\<open>caster/caster.c\<close>, with the YAML reader of the configuration as its argument, runs on the edited files.
\<close>

subsection \<open>The reload of the console\<close>

text \<open>
  \<open>caster_reload\<close> as the requests of the console call it: \<open>loaded\<close> is what the YAML reader returns for the
  configuration file, \<open>k\<close> the number of the new configuration.
\<close>

definition console_reload :: "caster_env \<Rightarrow> config option \<Rightarrow> nat \<Rightarrow> caster_state reload" where
  "console_reload env loaded k = (\<lambda>fs a. caster_reload (env\<lparr>ve_files := fs\<rparr>) loaded k a)"

text \<open>The accounts of a configuration that a reload accepts are those that its file has.\<close>

lemma reload_source_accounts:
  assumes "reload_accounts env c = Some (e, c')" "c_source_auth_filename c = Some f"
    "auth_parse (ve_files env (joinpath (fe_dir (ve_file env)) f)) = Some (Some es)"
  shows "c_source_auth c' = Some es"
proof -
  from assms(1) obtain rc r rc' where rc: "reload_config_of c = Some rc" "caster_reload_auth (ve_file env) (ve_files env) rc = Some (r, rc')"
    "c_source_auth c' = source_auth (rc_auth rc')" by (auto simp: reload_accounts_def bind_eq_Some_conv)
  from rc(1) assms(2) have "rc_source_auth_filename rc = Some f" by (auto simp: reload_config_of_def bind_eq_Some_conv)
  from caster_reload_source_accounts[where fs = "ve_files env" and env = "ve_file env", OF this assms(3)] rc(2,3) show ?thesis by auto
qed

lemma console_reload_accounts:
  assumes "console_reload env loaded k fs a = Some (r, b)" "cr_config a \<noteq> Some k"
    and p: "config_parse (ve_pton6 env) (ve_pton4 env) loaded (cr_config_gen a) = Some (Some c)"
    and f: "c_source_auth_filename c = Some f" "auth_parse (fs (joinpath (fe_dir (ve_file env)) f)) = Some (Some es)"
  shows "cr_config b = Some k \<and> c_source_auth (cr_configs b k) = Some es"
proof -
  from assms(1) have l: "caster_load (env\<lparr>ve_files := fs\<rparr>) loaded k True a = Some (r, b)"
    by (simp add: console_reload_def caster_reload_def)
  from caster_load_installs[OF l assms(2), of "Some c"] p obtain e c' bl where
    c': "cr_config b = Some k" "reload_accounts (env\<lparr>ve_files := fs\<rparr>) c = Some (e, c')" "cr_configs b k = c'\<lparr>c_blocklist := bl\<rparr>" by auto
  from reload_source_accounts[OF c'(2) f(1)] f(2) c' show ?thesis by simp
qed

lemma account_listed:
  assumes "srv_config_of dir dict c = Some sc" "c_source_auth c = Some (filter (\<lambda>e. ae_key e \<noteq> m) es @ [\<lparr>ae_key = m, ae_user = u, ae_password = p\<rparr>])"
  shows "check_password (cfg_auth (cfg_adm sc)) m (Some u) p = CHECKPW_MOUNTPOINT_VALID"
proof -
  have "auth_lookup (filter (\<lambda>e. ae_key e \<noteq> m) es @ [\<lparr>ae_key = m, ae_user = u, ae_password = p\<rparr>]) m =
      Some \<lparr>ae_key = m, ae_user = u, ae_password = p\<rparr>"
    unfolding auth_lookup_find by (induction es) simp_all
  moreover have "source_auth (cfg_auth (cfg_adm sc)) = c_source_auth c" using assms(1) by (auto simp: srv_config_of_def bind_eq_Some_conv)
  ultimately show ?thesis using assms(2) by (simp add: check_password_def)
qed

text \<open>
  C15: Setting the account of a mountpoint from the console. The account file of the session's configuration exists and can be parsed,
  it is empty or ends with a line feed and has no zero byte, it can be rewritten and appended to; the
  three values of the form have none of the characters that would break the file and the mountpoint
  does not start with a number sign. Then the request leaves a file whose list of accounts is the one before without
  those of the mountpoint, followed by the given account; no other file has changed and there is no temporary
  file. The request returns exactly if the reload of the caster on these files does, with the state that the reload
  leaves; the configuration that the reload makes is a new object. If the configuration is rejected, the current configuration and its accounts stay as they
  were; if it is accepted and names the same account file, the new current configuration has exactly this list of accounts, and with it
  the given user may publish on the mountpoint with the given password.
\<close>
theorem auth_set_correct:
  assumes "given h ''mountpoint'' = Some m" "given h ''auth_user'' = Some u" "given h ''auth_password'' = Some p"
    "field_is_safe m" "field_is_safe u" "field_is_safe p" "hd m \<noteq> CHR ''#''"
    "path = joinpath (fe_dir (ve_file env)) (source_auth_filename config)"
    "fe_can_write (ve_file env) (path @ ''.tmp'')" "fe_can_rename (ve_file env) path" "fe_can_append (ve_file env) path"
    "fs path = Some s" "s = [] \<or> last s = NL" "CHR 0x00 \<notin> set s" "auth_parse (Some s) = Some (Some es)" "cr_config a \<noteq> Some k"
    "es' = filter (\<lambda>e. ae_key e \<noteq> m) es @ [\<lparr>ae_key = m, ae_user = u, ae_password = p\<rparr>]"
  shows "\<exists>fs' reply. auth_parse (fs' path) = Some (Some es') \<and> fs' (path @ ''.tmp'') = None \<and>
    (\<forall>f. f \<noteq> path \<and> f \<noteq> path @ ''.tmp'' \<longrightarrow> fs' f = fs f) \<and>
    api_auth_set_json (ve_file env) config json_text (console_reload env loaded k) h fs a =
      map_option (\<lambda>(r, b). (reply, fs', b)) (console_reload env loaded k fs' a) \<and>
    (\<forall>r b. console_reload env loaded k fs' a = Some (r, b) \<longrightarrow>
      (config_parse (ve_pton6 env) (ve_pton4 env) loaded (cr_config_gen a) = Some None \<longrightarrow>
        r = - 1 \<and> cr_config b = cr_config a \<and> cr_configs b = cr_configs a) \<and>
      (\<forall>c. config_parse (ve_pton6 env) (ve_pton4 env) loaded (cr_config_gen a) = Some (Some c) \<and>
          c_source_auth_filename c = Some (source_auth_filename config) \<longrightarrow>
        cr_config b = Some k \<and> c_source_auth (cr_configs b k) = Some es' \<and>
        (\<forall>dir dict sc. srv_config_of dir dict (cr_configs b k) = Some sc \<longrightarrow>
          check_password (cfg_auth (cfg_adm sc)) m (Some u) p = CHECKPW_MOUNTPOINT_VALID)))"
proof -
  let ?fe = "ve_file env"
  define kept where "kept = concat (filter (\<lambda>l. \<not> line_matches CHR '':'' 0 m l) (getlines s))"
  define fs' where "fs' = fs(path \<mapsto> kept @ m @ '':'' @ u @ '':'' @ p @ [NL], path @ ''.tmp'' := None)"
  let ?reply = "json_mime (json_text (JObject [(''mountpoint'', JString m), (''user'', JString u), (''password'', JString p)]))"
  have m: "m \<noteq> []" using assms(1) by (auto simp: given_def split: option.splits if_splits)
  have rm: "remove_matching_lines ?fe (source_auth_filename config) CHR '':'' 0 m fs =
      (int (length (filter (line_matches CHR '':'' 0 m) (getlines s))), fs(path \<mapsto> kept, path @ ''.tmp'' := None))"
    using remove_matching_lines_works[of fs ?fe "source_auth_filename config" s] assms(8-12) by (simp add: kept_def)
  have ap: "append_text ?fe (source_auth_filename config) (m @ '':'' @ u @ '':'' @ p @ [NL]) (fs(path \<mapsto> kept, path @ ''.tmp'' := None)) = Some fs'"
    using assms(8,11) by (simp add: append_text_def Let_def fs'_def fun_upd_twist)
  have acc: "auth_parse (fs' path) = Some (Some es')"
    using auth_parse_upsert[OF assms(15,13,14,4-6) m assms(7)] by (simp add: fs'_def kept_def assms(17))
  have "api_auth_set_json ?fe config json_text (console_reload env loaded k) h fs a =
      map_option (\<lambda>(r, b). (?reply, fs', b)) (console_reload env loaded k fs' a)"
    using assms(1-6) rm ap by (simp add: api_auth_set_json_def map_conv_bind_option split_def comp_def)
  moreover have "r = - 1 \<and> cr_config b = cr_config a \<and> cr_configs b = cr_configs a"
    if "console_reload env loaded k fs' a = Some (r, b)" "config_parse (ve_pton6 env) (ve_pton4 env) loaded (cr_config_gen a) = Some None" for r b
    using caster_load_installs[of "env\<lparr>ve_files := fs'\<rparr>" loaded k True a r b None] that assms(16) by (simp add: console_reload_def caster_reload_def)
  moreover have "cr_config b = Some k \<and> c_source_auth (cr_configs b k) = Some es'"
    if "console_reload env loaded k fs' a = Some (r, b)" "config_parse (ve_pton6 env) (ve_pton4 env) loaded (cr_config_gen a) = Some (Some c)"
      "c_source_auth_filename c = Some (source_auth_filename config)" for r b c
    using console_reload_accounts[OF that(1) assms(16) that(2,3)] acc assms(8) by blast
  ultimately show ?thesis using acc account_listed[where m = m and es = es and u = u and p = p] assms(17)
    by (intro exI[of _ fs'] exI[of _ ?reply]) (auto simp: fs'_def)
qed

text \<open>A caster with one port and an account file with two accounts.\<close>

definition account_port :: config where
  "account_port = one_port\<lparr>c_source_auth_filename := Some ''source.auth''\<rparr>"

definition account_env :: "caster_env \<Rightarrow> caster_env" where
  "account_env env = (port_env env)\<lparr>ve_file := demo_file_env\<rparr>"

lemma account_parsed:
  "\<exists>c u l al s. config_parse (\<lambda>_. None) p4 (Some account_port) g = Some (Some c) \<and> c_bind c = c_bind one_port \<and>
    c_proxy c = [] \<and> c_node c = [] \<and> c_graylog c = [] \<and> c_syslog c = [] \<and> c_rtcm_filter c = [] \<and> c_admin_user c = Some u \<and>
    c_log c = Some l \<and> c_access_log c = Some al \<and> c_sourcetable_filename c = Some s \<and> c_blocklist_filename c = None \<and>
    c_source_auth_filename c = Some ''source.auth''"
  by (simp add: config_parse_def Let_def list_defaults_def top_defaults_def account_port_def one_port_def empty_config_def bind_defaults_def default_to_def
      default_string_def)

lemma accounts_reloaded:
  assumes "auth_parse (fs ''/etc/source.auth'') = Some (Some es)"
  shows "\<exists>r b. console_reload (account_env env) (Some account_port) 1 fs (port_open a) = Some (r, b)"
proof -
  let ?env = "(account_env env)\<lparr>ve_files := fs\<rparr>"
  have e: "ve_pton6 ?env = (\<lambda>_. None)" "ve_pton4 ?env = (\<lambda>_. Some [10, 0, 0, 1])" "ve_files ?env = fs" "ve_file ?env = demo_file_env"
    by (simp_all add: account_env_def port_env_def)
  obtain c u l al s where c: "config_parse (\<lambda>_. None) (\<lambda>_. Some [10, 0, 0, 1]) (Some account_port) (cr_config_gen (port_open a)) = Some (Some c)"
    and f: "c_bind c = c_bind one_port" "c_proxy c = []" "c_node c = []" "c_graylog c = []" "c_syslog c = []" "c_rtcm_filter c = []"
      "c_admin_user c = Some u" "c_log c = Some l" "c_access_log c = Some al" "c_sourcetable_filename c = Some s"
      "c_blocklist_filename c = None" "c_source_auth_filename c = Some ''source.auth''" using account_parsed by blast
  have "joinpath (fe_dir demo_file_env) ''source.auth'' = ''/etc/source.auth''" by (simp add: joinpath_def demo_file_env_def)
  moreover obtain rc where "reload_config_of c = Some rc" "rc_source_auth_filename rc = Some ''source.auth''"
    using f(7,12) by (simp add: reload_config_of_def)
  ultimately obtain e1 c1 where acc: "reload_accounts ?env c = Some (e1, c1)"
    using caster_reload_source_accounts[where fs = fs and env = demo_file_env, of rc "''source.auth''" es] assms e
    by (auto simp: reload_accounts_def)
  have g: "c_bind c1 = c_bind one_port" "c_proxy c1 = []" "c_node c1 = []" "c_graylog c1 = []" "c_rtcm_filter c1 = []"
    "c_admin_user c1 = Some u" "c_blocklist_filename c1 = None" using acc f by (auto simp: reload_accounts_def bind_eq_Some_conv)
  show ?thesis unfolding console_reload_def caster_reload_def
    by (simp add: caster_load_def caster_load_config_def e c Let_def caster_reopen_logs_def set_config_def set_dyn_def f g case_prod_beta reload_sourcetable_def
       acc caster_reload_blocklist_def caster_reload_rtcm_filters_def caster_reload_graylog_def caster_reload_syncers_def caster_reload_fetchers_def,
      simp add: caster_reload_listeners_def g one_port_def account_env_def port_env_def port_open_def old_dyn_def dynconfig_new_def reload_bind_def ip_convert_def
       with_port_def ip_cmp_def Let_def recycle_listener_def listener_incref_def refcnt_incref_def set_dyn_def,
      simp add: g config_decref_def refcnt_decref_def dynconfig_free_def set_dyn_def Let_def one_port_def dynconfig_free_listeners_def listener_decref_def
       dynconfig_free_fetchers_def dynconfig_free_rtcm_filters_def dynconfig_free_syncers_def dynconfig_free_graylog_def
       caster_start_def cli_config_of_def srv_config_of_def caster_start_syncers_def)
qed

theorem auth_set_correct_witness:
  "\<forall>env a. \<exists>reply fs' b. api_auth_set_json demo_file_env \<lparr>source_auth_filename = ''source.auth'', sourcetable_filename = ''source.dat''\<rparr> (\<lambda>_. [])
      (console_reload (account_env env) (Some account_port) 1) demo_auth_form [''/etc/source.auth'' \<mapsto> demo_auth_file] (port_open a) = Some (reply, fs', b) \<and>
    cr_config b = Some 1 \<and> c_source_auth (cr_configs b 1) = Some [\<lparr>ae_key = ''M'', ae_user = ''a'', ae_password = ''b''\<rparr>,
      \<lparr>ae_key = ''N'', ae_user = ''u'', ae_password = ''p''\<rparr>] \<and> fs' ''/etc/source.auth.tmp'' = None"
proof (intro allI)
  fix env a
  let ?config = "\<lparr>source_auth_filename = ''source.auth'', sourcetable_filename = ''source.dat''\<rparr>"
  let ?fs = "[''/etc/source.auth'' \<mapsto> demo_auth_file]"
  let ?es = "[\<lparr>ae_key = ''M'', ae_user = ''a'', ae_password = ''b''\<rparr>, \<lparr>ae_key = ''N'', ae_user = ''u'', ae_password = ''p''\<rparr>]"
  let ?reload = "console_reload (account_env env) (Some account_port) 1"
  have fe: "ve_file (account_env env) = demo_file_env" "ve_pton6 (account_env env) = (\<lambda>_. None)" "ve_pton4 (account_env env) = (\<lambda>_. Some [10, 0, 0, 1])"
    by (simp_all add: account_env_def port_env_def)
  have h: "field_is_safe ''N''" "field_is_safe ''u''" "field_is_safe ''p''" "hd ''N'' \<noteq> CHR ''#''"
    "''/etc/source.auth'' = joinpath (fe_dir (ve_file (account_env env))) (source_auth_filename ?config)"
    "fe_can_write (ve_file (account_env env)) (''/etc/source.auth'' @ ''.tmp'')"
    "fe_can_rename (ve_file (account_env env)) ''/etc/source.auth''" "fe_can_append (ve_file (account_env env)) ''/etc/source.auth''"
    "?fs ''/etc/source.auth'' = Some demo_auth_file" "demo_auth_file = [] \<or> last demo_auth_file = NL" "CHR 0x00 \<notin> set demo_auth_file"
    by (simp_all add: fe field_is_safe_def NL_def joinpath_def demo_file_env_def demo_auth_file_def)
  have k: "cr_config (port_open a) \<noteq> Some 1" by (simp add: port_open_def)
  have es: "?es = filter (\<lambda>e. ae_key e \<noteq> ''N'') [\<lparr>ae_key = ''M'', ae_user = ''a'', ae_password = ''b''\<rparr>, \<lparr>ae_key = ''N'', ae_user = ''c'', ae_password = ''d''\<rparr>] @
      [\<lparr>ae_key = ''N'', ae_user = ''u'', ae_password = ''p''\<rparr>]" by simp
  obtain fs' reply where r: "auth_parse (fs' ''/etc/source.auth'') = Some (Some ?es)" "fs' (''/etc/source.auth'' @ ''.tmp'') = None"
    "\<forall>f. f \<noteq> ''/etc/source.auth'' \<and> f \<noteq> ''/etc/source.auth'' @ ''.tmp'' \<longrightarrow> fs' f = ?fs f"
    "api_auth_set_json demo_file_env ?config (\<lambda>_. []) ?reload demo_auth_form ?fs (port_open a) = map_option (\<lambda>(r, b). (reply, fs', b)) (?reload fs' (port_open a))"
    and q: "\<forall>r b. ?reload fs' (port_open a) = Some (r, b) \<longrightarrow>
      (config_parse (\<lambda>_. None) (\<lambda>_. Some [10, 0, 0, 1]) (Some account_port) (cr_config_gen (port_open a)) = Some None \<longrightarrow>
        r = - 1 \<and> cr_config b = cr_config (port_open a) \<and> cr_configs b = cr_configs (port_open a)) \<and>
      (\<forall>c. config_parse (\<lambda>_. None) (\<lambda>_. Some [10, 0, 0, 1]) (Some account_port) (cr_config_gen (port_open a)) = Some (Some c) \<and>
          c_source_auth_filename c = Some (source_auth_filename ?config) \<longrightarrow> cr_config b = Some 1 \<and> c_source_auth (cr_configs b 1) = Some ?es \<and>
        (\<forall>dir dict sc. srv_config_of dir dict (cr_configs b 1) = Some sc \<longrightarrow>
          check_password (cfg_auth (cfg_adm sc)) ''N'' (Some ''u'') ''p'' = CHECKPW_MOUNTPOINT_VALID))"
    using auth_set_correct[where fs = ?fs and json_text = "\<lambda>_. []" and loaded = "Some account_port", OF demo_auth_form h demo_auth_file k es]
    unfolding fe by (elim exE conjE) (rule that)
  obtain c where "config_parse (\<lambda>_. None) (\<lambda>_. Some [10, 0, 0, 1]) (Some account_port) (cr_config_gen (port_open a)) = Some (Some c)"
    "c_source_auth_filename c = Some (source_auth_filename ?config)" using account_parsed by auto
  moreover obtain x b where x: "?reload fs' (port_open a) = Some (x, b)" using accounts_reloaded[of fs', OF r(1)] by blast
  ultimately have "cr_config b = Some 1" "c_source_auth (cr_configs b 1) = Some ?es" using q by blast+
  with x r(2,4) show "\<exists>reply fs' b. api_auth_set_json demo_file_env ?config (\<lambda>_. []) ?reload demo_auth_form ?fs (port_open a) = Some (reply, fs', b) \<and>
      cr_config b = Some 1 \<and> c_source_auth (cr_configs b 1) = Some ?es \<and> fs' ''/etc/source.auth.tmp'' = None"
    by (intro exI[of _ reply] exI[of _ fs'] exI[of _ b]) simp
qed

end
