(* ===== verification/Spec2Isabelle.thy ===== *)
theory Spec2Isabelle
  imports Rtcm_Stream Jobs Virtual_Base Alarms_Correct Ntrip_Task_Correct Console_Reload
begin

text \<open>
  A verification library for Chilopod, an NTRIP caster written in C (\<^verbatim>\<open>src/caster/\<close>).

  \<^bold>\<open>The program.\<close> GNSS base stations connect to the caster and send a stream of RTCM packets for a mountpoint;
  rovers connect and receive the stream of a mountpoint, or that of the base nearest to their position. One
  connection is a session (\<^verbatim>\<open>ntrip_common.c\<close>) with a state machine for its input: the server side of it
  (\<^verbatim>\<open>ntripsrv.c\<close>) parses requests, checks passwords, registers sources and subscribes clients; the client side
  (\<^verbatim>\<open>ntripcli.c\<close>) fetches sourcetables, pulls streams on demand, tells other nodes of the live sources and sends
  log entries to Graylog, driven by scheduled tasks (\<^verbatim>\<open>ntrip_task.c\<close>). A live source (\<^verbatim>\<open>livesource.c\<close>) hands
  packets to its subscribers; the table of live sources is replicated on other nodes by numbered JSON messages. The
  sourcetables (\<^verbatim>\<open>sourcetable.c\<close>) are a stack by priority, flattened into the table that clients see. Worker
  threads run the callbacks from queues of jobs (\<^verbatim>\<open>jobs.c\<close>). A console (\<^verbatim>\<open>adm.c\<close>, \<^verbatim>\<open>api.c\<close>) shows and edits the
  state; alarms (\<^verbatim>\<open>alarms.c\<close>) send mails on stations that go off line. The configuration (\<^verbatim>\<open>config.c\<close>) is
  loaded and reloaded by \<^verbatim>\<open>caster.c\<close>.

  \<^bold>\<open>Conventions.\<close> A C function is a HOL function of the same name where HOL allows it; the objects behind its
  pointers are an explicit state that it returns updated. Structures are records, enumerations are datatypes,
  bytes and masks are words, strings are lists of characters without zero, floating point numbers are reals.
  The outer \<^const>\<open>None\<close> of an operation is behaviour that C leaves undefined or that ends the program: an access
  outside a buffer, a released or NULL object that is used, a failed assertion, or a loop that does not end;
  an error that the code returns is a value (\<open>-1\<close>, an inner \<^const>\<open>None\<close> or a constructor). Results of the
  system and of the libraries (\<^verbatim>\<open>libevent\<close>, \<^verbatim>\<open>json-c\<close>, \<^verbatim>\<open>libcyaml\<close>, \<^verbatim>\<open>OpenSSL\<close>, \<^verbatim>\<open>inet_pton\<close>, clocks, files) are
  arguments or fields of an environment record. An operation is one step, also where the
  code takes its locks in several sections; the comments at the definitions and the findings say where this hides an
  interleaving. Where it says so, allocation succeeds; elsewhere it is a Boolean argument. Dates are pairs of
  seconds and microseconds; \<^verbatim>\<open>strftime\<close>, \<^verbatim>\<open>strptime\<close> and \<^verbatim>\<open>timegm\<close> are arguments.

  \<^bold>\<open>Theories.\<close>
  \<^item> \<open>Prelude\<close>, \<open>C_Format\<close>, \<open>Json_Data\<close>: bytes, C strings, \<^verbatim>\<open>scanf\<close> and \<^verbatim>\<open>snprintf\<close>, JSON documents and the
    collections of simplification rules.
  \<^item> \<open>Bitfield\<close> (\<^verbatim>\<open>bitfield.h\<close>), \<open>HashTable\<close> (\<^verbatim>\<open>hash.c\<close>), \<open>Packet\<close> (\<^verbatim>\<open>packet.c\<close>, \<^verbatim>\<open>refcnt.h\<close>), \<open>Util_Text\<close>
    (\<^verbatim>\<open>util.c\<close>): the containers and the text utilities. The hash table refines a finite map, base64 and the
    bit fields read back what they wrote; a date survives its text form up to the milliseconds.
  \<^item> \<open>Rtcm_Types\<close>, \<open>Rtcm_Crc\<close>, \<open>Rtcm_Msm\<close>, \<open>Rtcm_Info\<close>, \<open>Rtcm_Stream\<close> (\<^verbatim>\<open>rtcm.c\<close>): sets of message types, the
    checksum as a polynomial remainder that detects bursts, the conversion of MSM7 to MSM4 against a specification
    on lists of bits (a request for MSM3 also gives MSM4), filters, and the framing of the byte stream, which hands on exactly the packets it contains.
  \<^item> \<open>Ip_Prefix\<close> (\<^verbatim>\<open>ip.c\<close>): prefixes and quotas; a lookup finds the longest match of the file.
  \<^item> \<open>Sourcetable\<close>, \<open>Source_Stack\<close> (\<^verbatim>\<open>sourceline.c\<close>, \<^verbatim>\<open>sourcetable.c\<close>): lines, tables, differences, the stack, its
    flattening against a specification by priorities, the JSON form, read back with the milliseconds of its date.
  \<^item> \<open>Livesource\<close>, \<open>Livesource_Sync\<close> (\<^verbatim>\<open>livesource.c\<close>, \<^verbatim>\<open>nodes.c\<close>, \<^verbatim>\<open>endpoints.c\<close>): subscriptions and the delivery of
    packets, with the cases in which a subscriber gets the packet, its conversion or nothing; a replica that applies the messages in order has the live sources of the node it follows.
  \<^item> \<open>Jobs\<close> (\<^verbatim>\<open>jobs.c\<close>): the queues of the workers as a step relation; no assertion fails in a reachable state, and
    the loop of a worker drains the queues.
  \<^item> \<open>Auth\<close> (\<^verbatim>\<open>auth.c\<close>, \<^verbatim>\<open>http.c\<close>): account files and passwords.
  \<^item> \<open>Ntrip_Session\<close>, \<open>Ntrip_Chunk\<close>, \<open>Ntrip_Conns\<close> (\<^verbatim>\<open>ntrip_common.c\<close>): the state of a session, the decoder of chunks,
    the queue of connections with the counts and quotas per address.
  \<^item> \<open>Ntrip_Reply\<close>, \<open>Adm\<close>, \<open>Ntripsrv\<close>, \<open>Ntripsrv_Safety\<close>, \<open>Virtual_Base\<close> (\<^verbatim>\<open>ntripsrv.c\<close>, \<^verbatim>\<open>adm.c\<close>, \<^verbatim>\<open>file.c\<close>,
    \<^verbatim>\<open>request.c\<close>, \<^verbatim>\<open>redistribute.c\<close>): replies, console, files and all callbacks of the server. Streams go only to and
    from authorised sessions, the read loop ends, served files are below their roots, a client of a virtual
    mountpoint gets the nearest base.
  \<^item> \<open>Ntrip_Task\<close>, \<open>Ntripcli\<close>, \<open>Ntrip_Task_Correct\<close> (\<^verbatim>\<open>ntrip_task.c\<close>, \<^verbatim>\<open>ntripcli.c\<close>, \<^verbatim>\<open>syncer.c\<close>, \<^verbatim>\<open>graylog_sender.c\<close>,
    \<^verbatim>\<open>fetcher_sourcetable.c\<close>, \<^verbatim>\<open>redistribute.c\<close>): tasks and outgoing connections; every content that was queued is
    delivered, still queued, in flight or dropped, in order. The messages that the queue logs are recorded in the state;
    for the sender of the log itself they go back into the queue (\<open>Logs\<close>).
  \<^item> \<open>Source_Edit\<close>, \<open>Source_Edit_Correct\<close> (\<^verbatim>\<open>api.c\<close>): the console operations that edit the account files and the
    sourcetable file, line by line.
  \<^item> \<open>Console_Reload\<close> (\<^verbatim>\<open>api.c\<close>, \<^verbatim>\<open>caster.c\<close>): the edit of an account with the whole reload after it, up to the accounts of
    the current configuration, whether the reload accepts or rejects the file.
  \<^item> \<open>Alarms\<close>, \<open>Alarms_Correct\<close> (\<^verbatim>\<open>alarms.c\<close>): when an alarm is fired, over any reloads, and that no callback
    leaves its buffers.
  \<^item> \<open>Logbuf\<close>, \<open>Logs\<close> (\<^verbatim>\<open>logbuf.c\<close>, \<^verbatim>\<open>log.c\<close>, \<^verbatim>\<open>gelf.c\<close>): the two rings of log entries, the levels, and the way of an entry
    to Graylog, with the case in which it does not end.
  \<^item> \<open>Config\<close>, \<open>Caster\<close>, \<open>Caster_Correct\<close> (\<^verbatim>\<open>config.c\<close>, \<^verbatim>\<open>caster.c\<close>): the defaults and tests of a configuration, with the
    settings that get none, its load and reload; the references to the listeners are exact and ports that stay in the configuration stay open.

  \<^bold>\<open>Interfaces.\<close> The locale \<open>kv_store\<close> is the contract of the hash table, on which the tables above rest;
  \<open>checked_set\<close> that of the sets of types, whose insertion can fail; \<open>delivery_queue\<close> that of the queue of a task
  with contents in flight; \<open>refcounted\<close> that of the objects with a counter of references. Each is interpreted on
  the definitions of its component. This theory combines the server, the live sources and the stack of
  sourcetables: the life cycle of a source.

  \<^bold>\<open>Loops.\<close> A loop over a list or a buffer is a structural recursion or a \<^theory_text>\<open>function\<close> with a measure. A loop for
  which the code has no bound is a \<^theory_text>\<open>partial_function\<close> on options, and that it returns is proved where it does:
  the read loops, the drain of the jobs, the chunk decoder. The loop on the RTCM stream has the length of the
  buffer plus one as fuel, as each turn consumes at least one byte.

  \<^bold>\<open>Not modelled.\<close> The YAML reader with its tables and what writes the YAML file back (\<^verbatim>\<open>config.c\<close>, the other part of
  the settings in \<^verbatim>\<open>api.c\<close>); the listings of the console; TLS, DNS, sockets and event loops, the start of the process,
  its signals and threads (\<^verbatim>\<open>caster.c\<close>, \<^verbatim>\<open>main.c\<close>, \<^verbatim>\<open>conf.c\<close>); the wrapper of the statistics process (\<^verbatim>\<open>sidecar.c\<close>); the
  list macros (\<^verbatim>\<open>queue.h\<close>) and the tests (\<^verbatim>\<open>tests.c\<close>). Releases of memory show only where a use after them can.
\<close>

text \<open>The test of \<open>livesource_exists\<close> as the searches of the stack use it.\<close>

abbreviation live_in :: "livesources \<Rightarrow> live_test" where
  "live_in L \<equiv> \<lambda>mountpoint pos. livesource_exists L mountpoint"

lemma stack_find_loop_skip:
  "\<forall>t \<in> set pre. sourcetable_find_mountpoint t m = None \<Longrightarrow>
    stack_find_loop live (pre @ ss) m lcl = stack_find_loop live ss m lcl"
  by (induction pre) auto

lemma stack_find_local_line:
  assumes "\<forall>t \<in> set pre. sourcetable_find_mountpoint t m = None" "is_LOCAL s" "sourcetable_find_mountpoint s m = Some np"
    "sl_virtual np = 0" "m \<noteq> []"
  shows "stack_find_mountpoint live (pre @ s # ss) m =
    (if live (sl_key np) (sl_pos np) then Some np else stack_find_mountpoint live ss m)"
  using assms by (simp add: stack_find_mountpoint_def stack_find_def stack_find_loop_skip)

lemma live_in_cong:
  "hash_table_get (lt_hash L) = hash_table_get (lt_hash L') \<Longrightarrow> live_in L = live_in L'"
  by (simp add: livesource_exists_iff)

lemma table_ok_connected:
  "table_ok L \<Longrightarrow> hash_inv H \<Longrightarrow> hash_table_get H = (hash_table_get (lt_hash L))(m \<mapsto> direct_source m) \<Longrightarrow>
    table_ok (L\<lparr>lt_hash := H, lt_serial := n\<rparr>)"
  unfolding table_ok_def by auto

text \<open>
  C11: The life of a source of the local sourcetable that is not virtual. While no source of that name
  is registered, a client that asks for the mountpoint gets what the tables below the local one have.
  When the source connects it is registered and the client finds the local line. When the source
  ends, the table of live sources is what it was before, with a serial number two higher, a
  message was made for each of the two changes, the client finds again what it found before, and no
  session is subscribed to the source.
\<close>
theorem source_lifecycle:
  assumes "table_ok L" "hash_table_get (lt_hash L) m = None" "live_inv ext w" "ls_mountpoint (sources w i) = m"
    "\<forall>t \<in> set pre. sourcetable_find_mountpoint t m = None" "is_LOCAL s" "sourcetable_find_mountpoint s m = Some np"
    "sl_virtual np = 0" "sl_key np = m" "m \<noteq> []"
  shows "stack_find_mountpoint (live_in L) (pre @ s # ss) m = stack_find_mountpoint (live_in L) ss m \<and>
    (\<exists>j1 L1 j2 L2 w'. livesource_connected L True m = Some (1, Some j1, L1) \<and>
      stack_find_mountpoint (live_in L1) (pre @ s # ss) m = Some np \<and>
      livesource_del L1 w i = Some (Some j2, L2, w') \<and>
      hash_table_get (lt_hash L2) = hash_table_get (lt_hash L) \<and> lt_serial L2 = lt_serial L + 2 \<and>
      stack_find_mountpoint (live_in L2) (pre @ s # ss) m = stack_find_mountpoint (live_in L) (pre @ s # ss) m \<and>
      (\<forall>c. subscription (clients w' c) \<noteq> Some i))"
proof -
  note find = stack_find_local_line[OF assms(5-8) assms(10)]
  have below: "stack_find_mountpoint (live_in L) (pre @ s # ss) m = stack_find_mountpoint (live_in L) ss m"
    using find[of "live_in L"] assms(2,9) by (simp add: livesource_exists_iff)
  from livesource_connected_fresh[OF assms(1,2)] obtain H j1 where
    c: "livesource_connected L True m = Some (1, Some j1, L\<lparr>lt_hash := H, lt_serial := lt_serial L + 1\<rparr>)"
    and H: "hash_inv H" "hash_table_get H = (hash_table_get (lt_hash L))(m \<mapsto> direct_source m)" by blast
  define L1 where "L1 = L\<lparr>lt_hash := H, lt_serial := lt_serial L + 1\<rparr>"
  have ok1: "table_ok L1" and get1: "hash_table_get (lt_hash L1) m = Some (direct_source m)"
    using table_ok_connected[OF assms(1) H] H(2) by (simp_all add: L1_def)
  have found: "stack_find_mountpoint (live_in L1) (pre @ s # ss) m = Some np"
    using find[of "live_in L1"] assms(9) get1 by (simp add: livesource_exists_iff)
  define L2 where "L2 = L1\<lparr>lt_hash := without_key m (lt_hash L1), lt_serial := lt_serial L1 + 1\<rparr>"
  obtain j2 where u: "livesource_unregister L1 m = Some (Some j2, L2)"
    using livesource_unregister_present[OF ok1 get1] by (simp add: L2_def)
  have get2: "hash_table_get (lt_hash L2) = hash_table_get (lt_hash L)"
    using without_key_correct[OF H(1), of m] H(2) assms(2) by (auto simp: L2_def L1_def)
  obtain w' where w': "livesource_end w i = Some w'" "live_inv ext w'" "subscribers (sources w' i) = []"
    using livesource_end_ok[OF assms(3)] by blast
  have "subscription (clients w' x) \<noteq> Some i" for x using live_inv_sub[OF w'(2), of x i] w'(3) by simp
  moreover have "livesource_del L1 w i = Some (Some j2, L2, w')" using u w'(1) assms(4) by (simp add: livesource_del_def)
  moreover have "lt_serial L2 = lt_serial L + 2" by (simp add: L2_def L1_def)
  ultimately show ?thesis
    using c found get2 live_in_cong[OF get2] below unfolding L1_def[symmetric] by metis
qed

theorem source_lifecycle_witness:
  "stack_find_mountpoint (live_in example_table) [demo_table ''A''] ''A'' = None \<and>
    (\<exists>j1 L1 j2 L2 w'. livesource_connected example_table True ''A'' = Some (1, Some j1, L1) \<and>
      stack_find_mountpoint (live_in L1) [demo_table ''A''] ''A'' = Some (demo_line ''A'' 0) \<and>
      livesource_del L1 demo_world 0 = Some (Some j2, L2, w') \<and> lt_serial L2 = 2)"
proof -
  have t: "hash_table_get (lt_hash example_table) ''A'' = None" "lt_serial example_table = 0"
    by (simp_all add: example_table_def hash_fresh_5)
  have w: "ls_mountpoint (sources demo_world 0) = ''A''" by (simp add: demo_world_def livesource_new_def)
  have pre: "\<forall>t \<in> set []. sourcetable_find_mountpoint t ''A'' = None" by simp
  have l: "sourcetable_find_mountpoint (demo_table ''A'') ''A'' = Some (demo_line ''A'' 0)"
    using demo_table_ok(2)[of "''A''"] by (simp add: sourcetable_find_mountpoint_def)
  have loc: "is_LOCAL (demo_table ''A'')"
    by (simp add: demo_table_def is_LOCAL_def sourcetable_add_direct_def sourcetable_new_def hash_table_new_def Let_def split: prod.split)
  from source_lifecycle[OF example_sync_ok(1) t(1) demo_world_inv w pre loc l, of "[]"] t(2)
  show ?thesis by (auto simp: demo_line_def stack_find_mountpoint_def stack_find_def)
qed

end
